(* ===== verification/Prelude.thy ===== *)
theory Prelude
  imports Main "HOL-Library.Word" "HOL-Library.Multiset"
begin

text \<open>
  What every component shares.  Go's 64-bit integers are \<open>int\<close> values in the range of
  \<open>int64\<close>; every addition, subtraction and multiplication whose overflow the code does
  not exclude is written with \<open>wrap64\<close>.  Times are nanoseconds since the zero
  \<open>time.Time\<close>, durations are signed 64-bit nanoseconds.  A Go map that is only looked up
  is a partial function; one that the code iterates over is an association list with
  distinct keys.  The sorting functions of the \<open>slices\<close> package are one insertion sort
  whose contract is the locale \<open>comparison\<close>.
\<close>

named_theorems go_arith \<open>unfolding 64-bit arithmetic on closed terms\<close>
named_theorems vocab \<open>the string constants of the closed vocabularies\<close>

type_synonym Time = int
type_synonym Duration = int

section \<open>64-bit integers\<close>

definition int64 :: "int \<Rightarrow> bool" where
  "int64 x \<longleftrightarrow> - 9223372036854775808 \<le> x \<and> x \<le> 9223372036854775807"

definition wrap64 :: "int \<Rightarrow> int" where
  "wrap64 x = (x + 9223372036854775808) mod 18446744073709551616 - 9223372036854775808"

definition MaxInt64 :: int where
  "MaxInt64 = 9223372036854775807"

text \<open>Go's integer division truncates towards zero.\<close>

definition go_div :: "int \<Rightarrow> int \<Rightarrow> int" where
  "go_div a b = sgn a * sgn b * (\<bar>a\<bar> div \<bar>b\<bar>)"

lemma int64_wrap64 [simp]: "int64 (wrap64 x)"
proof -
  have "0 \<le> (x + 9223372036854775808) mod 18446744073709551616"
    and "(x + 9223372036854775808) mod 18446744073709551616 < 18446744073709551616"
    by simp_all
  then show ?thesis unfolding int64_def wrap64_def by linarith
qed

lemma wrap64_id [simp]: "int64 x \<Longrightarrow> wrap64 x = x"
  by (simp add: int64_def wrap64_def)

lemma wrap64_wrap64 [simp]: "wrap64 (wrap64 x) = wrap64 x"
  by simp

lemma wrap64_add_left [simp]: "wrap64 (wrap64 x + y) = wrap64 (x + y)"
proof -
  have "(wrap64 x + y + 9223372036854775808) mod 18446744073709551616
      = ((x + 9223372036854775808) mod 18446744073709551616 + y) mod 18446744073709551616"
    by (simp add: wrap64_def algebra_simps)
  also have "\<dots> = (x + 9223372036854775808 + y) mod 18446744073709551616"
    by (simp add: mod_simps)
  finally show ?thesis by (simp add: wrap64_def algebra_simps)
qed

lemma wrap64_add_right [simp]: "wrap64 (x + wrap64 y) = wrap64 (x + y)"
  using wrap64_add_left [of y x] by (simp add: add.commute)

lemma wrap64_sint: "wrap64 x = sint (word_of_int x :: 64 word)"
  by (simp add: wrap64_def sint_sbintrunc' signed_take_bit_eq_take_bit_shift take_bit_eq_mod)

lemma int64_0 [simp]: "int64 0"
  by (simp add: int64_def)

lemma int64_between: "int64 a \<Longrightarrow> int64 b \<Longrightarrow> a \<le> x \<Longrightarrow> x \<le> b \<Longrightarrow> int64 x"
  by (auto simp: int64_def)

lemma int64_MaxInt64 [simp]: "int64 MaxInt64"
  by (simp add: int64_def MaxInt64_def)

lemma int64_le_Max: "int64 x \<Longrightarrow> x \<le> MaxInt64"
  by (simp add: int64_def MaxInt64_def)

lemma go_div_nonneg: "0 \<le> a \<Longrightarrow> 0 < b \<Longrightarrow> go_div a b = a div b"
  by (cases "a = 0") (auto simp: go_div_def sgn_if)

section \<open>Time\<close>

text \<open>
  The zero \<open>time.Time\<close> is 0.  \<open>Time.Sub\<close> saturates at the largest and smallest
  duration; \<open>Time.Before\<close> is the order.
\<close>

definition Time_IsZero :: "Time \<Rightarrow> bool" where
  "Time_IsZero t \<longleftrightarrow> t = 0"

definition Time_Sub :: "Time \<Rightarrow> Time \<Rightarrow> Duration" where
  "Time_Sub t u = max (- 9223372036854775808) (min 9223372036854775807 (t - u))"

definition Second :: Duration where "Second = 1000000000"
definition Minute :: Duration where "Minute = 60 * Second"
definition Hour :: Duration where "Hour = 60 * Minute"
definition Millisecond :: Duration where "Millisecond = 1000000"

lemmas duration_units = Second_def Minute_def Hour_def Millisecond_def

lemma Time_Sub_mono: "t \<le> t' \<Longrightarrow> Time_Sub t u \<le> Time_Sub t' u"
  by (auto simp: Time_Sub_def)

lemma Time_Sub_exact: "int64 (t - u) \<Longrightarrow> Time_Sub t u = t - u"
  by (simp add: Time_Sub_def int64_def)

section \<open>Lists\<close>

text \<open>\<open>find_first P xs\<close> is a Go loop that returns at the first element satisfying \<open>P\<close>.\<close>

fun find_first :: "('a \<Rightarrow> bool) \<Rightarrow> 'a list \<Rightarrow> 'a option" where
  "find_first P [] = None"
| "find_first P (x # xs) = (if P x then Some x else find_first P xs)"

lemma find_first_None [simp]: "find_first P xs = None \<longleftrightarrow> (\<forall>x \<in> set xs. \<not> P x)"
  by (induction xs) auto

lemma find_first_Some_split:
  "find_first P xs = Some x \<Longrightarrow> \<exists>us vs. xs = us @ x # vs \<and> P x \<and> (\<forall>u \<in> set us. \<not> P u)"
proof (induction xs)
  case Nil
  then show ?case by simp
next
  case (Cons y ys)
  show ?case
  proof (cases "P y")
    case True
    with Cons.prems show ?thesis by (intro exI [of _ "[]"] exI [of _ ys]) auto
  next
    case False
    with Cons.prems obtain us vs where "ys = us @ x # vs" "P x" "\<forall>u \<in> set us. \<not> P u"
      using Cons.IH by auto
    with False show ?thesis by (intro exI [of _ "y # us"] exI [of _ vs]) auto
  qed
qed

lemma find_first_SomeD: "find_first P xs = Some x \<Longrightarrow> x \<in> set xs \<and> P x"
  by (drule find_first_Some_split) auto

text \<open>A Go map of integers read at an absent key yields zero.\<close>

definition mget :: "('k \<Rightarrow> int option) \<Rightarrow> 'k \<Rightarrow> int" where
  "mget m k = (case m k of None \<Rightarrow> 0 | Some v \<Rightarrow> v)"

lemma mget_upd [simp]: "mget (m(k \<mapsto> v)) k' = (if k' = k then v else mget m k')"
  by (simp add: mget_def)

lemma mget_empty [simp]: "mget Map.empty k = 0" and mget_const [simp]: "mget (\<lambda>_. None) k = 0"
  by (simp_all add: mget_def)

section \<open>Comparison functions and sorting\<close>

text \<open>
  \<open>slices.SortFunc\<close> and \<open>slices.SortStableFunc\<close> take a function returning a negative,
  zero or positive integer.  Both are this insertion sort: it is stable, and where the
  comparison never ties the result is the only sorted permutation, so it is also what the
  unstable sort returns.
\<close>

fun insert_cmp :: "('a \<Rightarrow> 'a \<Rightarrow> int) \<Rightarrow> 'a \<Rightarrow> 'a list \<Rightarrow> 'a list" where
  "insert_cmp cmp x [] = [x]"
| "insert_cmp cmp x (y # ys) = (if cmp x y \<le> 0 then x # y # ys else y # insert_cmp cmp x ys)"

fun sort_cmp :: "('a \<Rightarrow> 'a \<Rightarrow> int) \<Rightarrow> 'a list \<Rightarrow> 'a list" where
  "sort_cmp cmp [] = []"
| "sort_cmp cmp (x # xs) = insert_cmp cmp x (sort_cmp cmp xs)"

lemma mset_insert_cmp [simp]: "mset (insert_cmp cmp x xs) = add_mset x (mset xs)"
  by (induction xs) auto

lemma mset_sort_cmp [simp]: "mset (sort_cmp cmp xs) = mset xs"
  by (induction xs) auto

lemma set_sort_cmp [simp]: "set (sort_cmp cmp xs) = set xs"
  by (metis mset_sort_cmp set_mset_mset)

lemma length_sort_cmp [simp]: "length (sort_cmp cmp xs) = length xs"
  by (metis mset_sort_cmp size_mset)

locale comparison =
  fixes cmp :: "'a \<Rightarrow> 'a \<Rightarrow> int"
  assumes sgn_swap: "sgn (cmp x y) = - sgn (cmp y x)"
    and le_trans: "cmp x y \<le> 0 \<Longrightarrow> cmp y z \<le> 0 \<Longrightarrow> cmp x z \<le> 0"
begin

lemma self [simp]: "cmp x x = 0"
  using sgn_swap [of x x] by (simp add: sgn_if split: if_splits)

lemma total: "cmp x y \<le> 0 \<or> cmp y x \<le> 0"
  using sgn_swap [of x y] by (auto simp: sgn_if split: if_splits)

lemma flip_gt: "0 < cmp x y \<longleftrightarrow> cmp y x < 0"
  using sgn_swap [of x y] by (auto simp: sgn_if split: if_splits)

lemma tie_sym: "cmp x y = 0 \<longleftrightarrow> cmp y x = 0"
  using sgn_swap [of x y] by (auto simp: sgn_if split: if_splits)

lemma tie_le_left: "cmp x y = 0 \<Longrightarrow> cmp x z \<le> 0 \<longleftrightarrow> cmp y z \<le> 0"
  using le_trans [of x y z] le_trans [of y x z] tie_sym [of x y] by auto

lemma tie_le_right: "cmp x y = 0 \<Longrightarrow> cmp z x \<le> 0 \<longleftrightarrow> cmp z y \<le> 0"
  using le_trans [of z x y] le_trans [of z y x] tie_sym [of x y] by auto

lemma sorted_insert:
  "sorted_wrt (\<lambda>x y. cmp x y \<le> 0) xs \<Longrightarrow> sorted_wrt (\<lambda>x y. cmp x y \<le> 0) (insert_cmp cmp x xs)"
proof (induction xs)
  case Nil
  then show ?case by simp
next
  case (Cons y ys)
  have set_eq: "set (insert_cmp cmp x ys) = insert x (set ys)"
    by (metis mset_insert_cmp set_mset_add_mset_insert set_mset_mset)
  show ?case
  proof (cases "cmp x y \<le> 0")
    case True
    with Cons.prems show ?thesis by (auto intro: le_trans)
  next
    case False
    with total [of x y] Cons show ?thesis by (auto simp: set_eq)
  qed
qed

lemma sorted_sort: "sorted_wrt (\<lambda>x y. cmp x y \<le> 0) (sort_cmp cmp xs)"
  by (induction xs) (auto intro: sorted_insert)

lemma stable_insert:
  "filter (\<lambda>y. cmp k y = 0) (insert_cmp cmp x xs) = filter (\<lambda>y. cmp k y = 0) (x # xs)"
proof (induction xs)
  case Nil
  then show ?case by simp
next
  case (Cons y ys)
  have "\<not> (cmp k x = 0 \<and> cmp k y = 0)" if "\<not> cmp x y \<le> 0"
    using that tie_le_left [of k x y] by auto
  with Cons show ?case by auto
qed

text \<open>Sorting keeps the elements that tie with any given one in their input order.\<close>

lemma stable_sort: "filter (\<lambda>y. cmp k y = 0) (sort_cmp cmp xs) = filter (\<lambda>y. cmp k y = 0) xs"
  by (induction xs) (simp_all add: stable_insert)

text \<open>Where distinct elements never tie, the result depends on the elements alone.\<close>

lemma sort_unique:
  assumes "mset xs = mset ys"
    and "\<And>x y. x \<in> set xs \<Longrightarrow> y \<in> set xs \<Longrightarrow> cmp x y = 0 \<Longrightarrow> x = y"
  shows "sort_cmp cmp xs = sort_cmp cmp ys"
proof -
  have uniq: "as = bs"
    if "mset as = mset bs" "sorted_wrt (\<lambda>x y. cmp x y \<le> 0) as"
      "sorted_wrt (\<lambda>x y. cmp x y \<le> 0) bs"
      "\<forall>x \<in> set as. \<forall>y \<in> set as. cmp x y = 0 \<longrightarrow> x = y" for as bs
    using that
  proof (induction as arbitrary: bs)
    case Nil
    then show ?case by simp
  next
    case (Cons a as)
    then obtain b bs' where bs: "bs = b # bs'" by (cases bs) auto
    have ab: "a \<in> set bs" "b \<in> set (a # as)"
      using Cons.prems(1) bs by (metis list.set_intros(1) set_mset_mset)+
    have "a = b \<or> (cmp a b \<le> 0 \<and> cmp b a \<le> 0)"
      using ab Cons.prems(2,3) bs by auto
    then have "a = b \<or> cmp a b = 0" using sgn_swap [of a b] by (auto simp: sgn_if split: if_splits)
    then have "a = b" using ab Cons.prems(4) by auto
    with Cons bs show ?case by auto
  qed
  have "set (sort_cmp cmp xs) = set xs" by simp
  with assms show ?thesis by (intro uniq) (auto simp: sorted_sort)
qed

lemma insert_cmp_min: "\<forall>y \<in> set ys. cmp x y \<le> 0 \<Longrightarrow> insert_cmp cmp x ys = x # ys"
  by (cases ys) auto

lemma sort_sorted_id: "sorted_wrt (\<lambda>x y. cmp x y \<le> 0) xs \<Longrightarrow> sort_cmp cmp xs = xs"
  by (induction xs) (auto simp: insert_cmp_min)

end

lemma comparison_key: "comparison cmp \<Longrightarrow> comparison (\<lambda>a b. cmp (f a) (f b))"
  unfolding comparison_def by blast

section \<open>Byte strings\<close>

text \<open>Go strings are byte strings; \<open>strings.Compare\<close> is lexicographic on the bytes.\<close>

definition byte :: "char \<Rightarrow> int" where
  "byte c = of_char c"

fun strCompare :: "string \<Rightarrow> string \<Rightarrow> int" where
  "strCompare [] [] = 0"
| "strCompare [] (_ # _) = - 1"
| "strCompare (_ # _) [] = 1"
| "strCompare (a # as) (b # bs) =
     (if byte a < byte b then - 1 else if byte b < byte a then 1 else strCompare as bs)"

lemma byte_inject [simp]: "byte a = byte b \<longleftrightarrow> a = b"
  unfolding byte_def by (metis char_of_char)

lemma strCompare_swap: "strCompare a b = - strCompare b a"
  by (induction a b rule: strCompare.induct) auto

lemma byte_neq: "a \<noteq> b \<Longrightarrow> byte a < byte b \<or> byte b < byte a"
  by (metis byte_inject linorder_neq_iff)

lemma strCompare_zero [simp]: "strCompare a b = 0 \<longleftrightarrow> a = b"
proof (induction a b rule: strCompare.induct)
  case (4 a as b bs)
  then show ?case using byte_neq [of a b] by auto
qed auto

lemma strCompare_trans: "strCompare a b \<le> 0 \<Longrightarrow> strCompare b c \<le> 0 \<Longrightarrow> strCompare a c \<le> 0"
proof (induction a b arbitrary: c rule: strCompare.induct)
  case 1
  then show ?case by simp
next
  case (2 b bs)
  then show ?case by (cases c) auto
next
  case (3 a as)
  then show ?case by simp
next
  case (4 a as b bs)
  have step: "strCompare (x # xs) (y # ys) \<le> 0 \<longleftrightarrow>
      byte x < byte y \<or> byte x = byte y \<and> strCompare xs ys \<le> 0" for x y xs ys
    by (simp del: byte_inject)
  show ?case
  proof (cases c)
    case Nil
    with "4.prems" show ?thesis by simp
  next
    case (Cons d ds)
    have "byte a < byte b \<or> byte a = byte b \<and> strCompare as bs \<le> 0"
      and "byte b < byte d \<or> byte b = byte d \<and> strCompare bs ds \<le> 0"
      using "4.prems" by (simp_all only: step Cons)
    then have "byte a < byte d \<or> byte a = byte d \<and> strCompare as ds \<le> 0"
      using "4.IH" [of ds] by (elim disjE conjE) simp_all
    then show ?thesis by (simp only: step Cons)
  qed
qed

interpretation strings: comparison strCompare
proof unfold_locales
  fix x y z :: string
  show "sgn (strCompare x y) = - sgn (strCompare y x)"
    by (subst strCompare_swap) simp
  show "strCompare x z \<le> 0" if "strCompare x y \<le> 0" "strCompare y z \<le> 0"
    using that by (rule strCompare_trans)
qed

text \<open>\<open>cmp.Compare\<close> on an ordered type.\<close>

definition cmpCompare :: "'a::linorder \<Rightarrow> 'a \<Rightarrow> int" where
  "cmpCompare a b = (if a < b then - 1 else if b < a then 1 else 0)"

interpretation ordered_values: comparison cmpCompare
  by unfold_locales (auto simp: cmpCompare_def split: if_splits)

fun strings_Join :: "string list \<Rightarrow> string \<Rightarrow> string" where
  "strings_Join [] sep = []"
| "strings_Join [x] sep = x"
| "strings_Join (x # y # ys) sep = x @ sep @ strings_Join (y # ys) sep"

fun HasPrefix :: "string \<Rightarrow> string \<Rightarrow> bool" where
  "HasPrefix s [] = True"
| "HasPrefix [] (p # ps) = False"
| "HasPrefix (c # cs) (p # ps) = (c = p \<and> HasPrefix cs ps)"

lemma HasPrefix_iff: "HasPrefix s p \<longleftrightarrow> (\<exists>t. s = p @ t)"
  by (induction s p rule: HasPrefix.induct) auto

text \<open>\<open>strings.Split\<close> on a single byte.\<close>

fun splitOn :: "char \<Rightarrow> string \<Rightarrow> string list" where
  "splitOn c [] = [[]]"
| "splitOn c (x # xs) =
     (if x = c then [] # splitOn c xs
      else case splitOn c xs of [] \<Rightarrow> [[x]] | y # ys \<Rightarrow> (x # y) # ys)"

lemma splitOn_nonempty [simp]: "splitOn c s \<noteq> []"
  by (induction s) (auto split: list.splits)

lemma splitOn_free: "c \<notin> set s \<Longrightarrow> splitOn c s = [s]"
  by (induction s) auto

lemma splitOn_append: "c \<notin> set s \<Longrightarrow> splitOn c (s @ c # t) = s # splitOn c t"
  by (induction s) auto

lemma splitOn_Join:
  "xs \<noteq> [] \<Longrightarrow> \<forall>x \<in> set xs. c \<notin> set x \<Longrightarrow> splitOn c (strings_Join xs [c]) = xs"
  by (induction xs "[c]" rule: strings_Join.induct) (auto simp: splitOn_free splitOn_append)

text \<open>
  \<open>strings.TrimSpace\<close>: the white space is Unicode's, here by its UTF-8 encodings.
\<close>

definition spaces :: "string list" where
  "spaces = [[CHR 0x09], [CHR 0x0A], [CHR 0x0B], [CHR 0x0C], [CHR 0x0D], [CHR 0x20],
     [CHR 0xC2, CHR 0x85], [CHR 0xC2, CHR 0xA0], [CHR 0xE1, CHR 0x9A, CHR 0x80],
     [CHR 0xE2, CHR 0x80, CHR 0x80], [CHR 0xE2, CHR 0x80, CHR 0x81], [CHR 0xE2, CHR 0x80, CHR 0x82],
     [CHR 0xE2, CHR 0x80, CHR 0x83], [CHR 0xE2, CHR 0x80, CHR 0x84], [CHR 0xE2, CHR 0x80, CHR 0x85],
     [CHR 0xE2, CHR 0x80, CHR 0x86], [CHR 0xE2, CHR 0x80, CHR 0x87], [CHR 0xE2, CHR 0x80, CHR 0x88],
     [CHR 0xE2, CHR 0x80, CHR 0x89], [CHR 0xE2, CHR 0x80, CHR 0x8A], [CHR 0xE2, CHR 0x80, CHR 0xA8],
     [CHR 0xE2, CHR 0x80, CHR 0xA9], [CHR 0xE2, CHR 0x80, CHR 0xAF], [CHR 0xE2, CHR 0x81, CHR 0x9F],
     [CHR 0xE3, CHR 0x80, CHR 0x80]]"

lemma spaces_nonempty: "w \<in> set spaces \<Longrightarrow> w \<noteq> []"
  by (auto simp: spaces_def)

function drop_words :: "string list \<Rightarrow> string \<Rightarrow> string" where
  "drop_words ws s =
     (case find_first (\<lambda>w. w \<noteq> [] \<and> HasPrefix s w) ws of
        None \<Rightarrow> s
      | Some w \<Rightarrow> drop_words ws (drop (length w) s))"
  by pat_completeness auto
termination
proof (relation "measure (\<lambda>(ws, s). length s)")
  show "wf (measure (\<lambda>(ws :: string list, s :: string). length s))" by simp
next
  fix ws :: "string list" and s w
  assume "find_first (\<lambda>w. w \<noteq> [] \<and> HasPrefix s w) ws = Some w"
  then have "w \<noteq> []" "HasPrefix s w" by (auto dest: find_first_SomeD)
  then show "((ws, drop (length w) s), ws, s) \<in> measure (\<lambda>(ws, s). length s)"
    by (auto simp: HasPrefix_iff)
qed

declare drop_words.simps [simp del]

definition TrimSpace :: "string \<Rightarrow> string" where
  "TrimSpace s = rev (drop_words (map rev spaces) (rev (drop_words spaces s)))"

lemma drop_words_free:
  "\<forall>w \<in> set ws. w \<noteq> [] \<longrightarrow> \<not> HasPrefix s w \<Longrightarrow> drop_words ws s = s"
  by (subst drop_words.simps) (auto split: option.split dest: find_first_SomeD)

end
