(* ===== verification/Float64.thy ===== *)
theory Float64
  imports Complex_Main Prelude
begin

text \<open>
  The \<open>float64\<close> arithmetic the code uses: scores, percentages and the conversion of a
  duration to milliseconds.  A finite \<open>float64\<close> is a rational; every operation is the
  exact operation followed by \<open>fl\<close>, rounding to 53 significant bits with ties to even.
  All values here are zero or lie far inside the normal range, so overflow, subnormals and
  NaN do not arise.  \<open>rne\<close> is rounding to the nearest integer, ties to even.
\<close>

definition rne :: "rat \<Rightarrow> int" where
  "rne x = (let n = \<lfloor>x\<rfloor>; r = x - of_int n in
     if r < 1 / 2 then n else if 1 / 2 < r then n + 1 else if even n then n else n + 1)"

fun nlog2 :: "nat \<Rightarrow> nat" where
  "nlog2 n = (if n \<le> 1 then 0 else Suc (nlog2 (n div 2)))"

declare nlog2.simps [simp del]

text \<open>\<open>flog2 x\<close> is the exponent of the leading bit of a positive rational.\<close>

definition flog2 :: "rat \<Rightarrow> int" where
  "flog2 x = (let (p, q) = quotient_of x; k = int (nlog2 (nat p)) - int (nlog2 (nat q)) in
     if 2 powi k \<le> x then k else k - 1)"

definition fl :: "rat \<Rightarrow> rat" where
  "fl x =
     (if x = 0 then 0
      else if 0 < x then
        (let e = flog2 x - 52 in of_int (rne (x * 2 powi (- e))) * 2 powi e)
      else
        (let e = flog2 (- x) - 52 in - (of_int (rne (- x * 2 powi (- e))) * 2 powi e)))"

definition fl_add :: "rat \<Rightarrow> rat \<Rightarrow> rat" where "fl_add x y = fl (x + y)"
definition fl_mul :: "rat \<Rightarrow> rat \<Rightarrow> rat" where "fl_mul x y = fl (x * y)"
definition fl_div :: "rat \<Rightarrow> rat \<Rightarrow> rat" where "fl_div x y = fl (x / y)"
definition fl_of_int :: "int \<Rightarrow> rat" where "fl_of_int n = fl (of_int n)"

text \<open>\<open>math.Round\<close> rounds half away from zero.\<close>

definition math_Round :: "rat \<Rightarrow> int" where
  "math_Round x = (if 0 \<le> x then \<lfloor>x + 1 / 2\<rfloor> else - \<lfloor>- x + 1 / 2\<rfloor>)"

lemmas fl_ops = fl_add_def fl_mul_def fl_div_def fl_of_int_def

section \<open>Rounding to an integer\<close>

lemma rne_of_int [simp]: "rne (of_int n) = n"
  by (simp add: rne_def)

lemma rne_bounds: "\<lfloor>x\<rfloor> \<le> rne x \<and> rne x \<le> \<lfloor>x\<rfloor> + 1"
  by (simp add: rne_def Let_def)

lemma rne_mono:
  assumes "x \<le> y" shows "rne x \<le> rne y"
proof (cases "\<lfloor>x\<rfloor> = \<lfloor>y\<rfloor>")
  case True
  with assms show ?thesis by (auto simp: rne_def Let_def)
next
  case False
  with floor_mono [OF assms] have "\<lfloor>x\<rfloor> + 1 \<le> \<lfloor>y\<rfloor>" by linarith
  with rne_bounds [of x] rne_bounds [of y] show ?thesis by linarith
qed

lemma rne_ge: "of_int n \<le> x \<Longrightarrow> n \<le> rne x"
  using rne_mono [of "of_int n" x] by simp

lemma rne_le: "x \<le> of_int n \<Longrightarrow> rne x \<le> n"
  using rne_mono [of x "of_int n"] by simp

section \<open>The leading bit\<close>

lemma nlog2_bounds: "0 < n \<Longrightarrow> 2 ^ nlog2 n \<le> n \<and> n < 2 ^ Suc (nlog2 n)"
proof (induction n rule: nlog2.induct)
  case (1 n)
  show ?case
  proof (cases "n \<le> 1")
    case True
    with "1.prems" show ?thesis by (simp add: nlog2.simps [of n])
  next
    case False
    with "1.IH" have "2 ^ nlog2 (n div 2) \<le> n div 2 \<and> n div 2 < 2 ^ Suc (nlog2 (n div 2))"
      by simp
    then have "2 ^ Suc (nlog2 (n div 2)) \<le> n \<and> n < 2 ^ Suc (Suc (nlog2 (n div 2)))"
      by auto
    with False show ?thesis by (simp add: nlog2.simps [of n])
  qed
qed

lemma powi_split: "2 powi (int a - int b) = (2 ^ a / 2 ^ b :: rat)"
  by (simp add: power_int_diff)

lemma flog2_bounds:
  assumes "0 < x" shows "2 powi flog2 x \<le> x" and "x < 2 powi (flog2 x + 1)"
proof -
  obtain p q where pq: "quotient_of x = (p, q)" by fastforce
  have q: "0 < q" and x: "x = of_int p / of_int q"
    using quotient_of_denom_pos [OF pq] quotient_of_div [OF pq] by auto
  have p: "0 < p" using assms q by (simp add: x zero_less_divide_iff)
  let ?a = "nlog2 (nat p)" and ?b = "nlog2 (nat q)"
  have np: "2 ^ ?a \<le> nat p \<and> nat p < 2 ^ Suc ?a" and nq: "2 ^ ?b \<le> nat q \<and> nat q < 2 ^ Suc ?b"
    using p q by (simp_all only: nlog2_bounds zero_less_nat_eq)
  have conv: "(of_nat (nat p) :: rat) = of_int p" "(of_nat (nat q) :: rat) = of_int q"
    using p q by simp_all
  have P: "(2 :: rat) ^ ?a \<le> of_int p" "of_int p < (2 :: rat) ^ Suc ?a"
    using np conv(1) by (metis of_nat_le_iff of_nat_numeral of_nat_power)
      (metis np conv(1) of_nat_less_iff of_nat_numeral of_nat_power)
  have Q: "(2 :: rat) ^ ?b \<le> of_int q" "of_int q < (2 :: rat) ^ Suc ?b"
    using nq conv(2) by (metis of_nat_le_iff of_nat_numeral of_nat_power)
      (metis nq conv(2) of_nat_less_iff of_nat_numeral of_nat_power)
  have q': "(0 :: rat) < of_int q" using q by simp
  let ?k = "int ?a - int ?b"
  have up: "x < 2 powi (?k + 1)"
  proof -
    have "of_int p * 2 ^ ?b < (2 :: rat) ^ Suc ?a * 2 ^ ?b"
      by (rule mult_strict_right_mono [OF P(2)]) simp
    also have "\<dots> \<le> 2 ^ Suc ?a * (of_int q :: rat)"
      by (rule mult_left_mono [OF Q(1)]) simp
    finally have "x < 2 ^ Suc ?a / 2 ^ ?b" using q' by (simp add: x field_simps)
    also have "\<dots> = 2 powi (?k + 1)" using powi_split [of "Suc ?a" ?b] by (simp add: algebra_simps)
    finally show ?thesis .
  qed
  have low: "2 powi (?k - 1) \<le> x"
  proof -
    have "2 ^ ?a * (of_int q :: rat) \<le> of_int p * 2 ^ Suc ?b"
      using P(1) less_imp_le [OF Q(2)] by (rule mult_mono) (use p q' in auto)
    then have "2 ^ ?a / 2 ^ Suc ?b \<le> x" using q' by (simp add: x field_simps)
    moreover have "2 ^ ?a / 2 ^ Suc ?b = (2 powi (?k - 1) :: rat)"
      using powi_split [of ?a "Suc ?b"] by (simp add: algebra_simps)
    ultimately show ?thesis by simp
  qed
  have eq: "flog2 x = (if 2 powi ?k \<le> x then ?k else ?k - 1)"
    by (simp add: flog2_def pq Let_def)
  show "2 powi flog2 x \<le> x" "x < 2 powi (flog2 x + 1)"
    using up low by (auto simp: eq)
qed

lemma powi_le_imp: "(2 :: rat) powi a < 2 powi b \<Longrightarrow> a < b"
  using power_int_increasing [of b a "2 :: rat"] by (auto simp: not_less [symmetric])

lemma flog2_unique:
  assumes "2 powi k \<le> x" "x < 2 powi (k + 1)" shows "flog2 x = k"
proof -
  have "0 < x" using assms(1) by (meson less_le_trans zero_less_numeral zero_less_power_int)
  note b = flog2_bounds [OF this]
  have "flog2 x < k + 1" "k < flog2 x + 1"
    using powi_le_imp [OF le_less_trans [OF b(1) assms(2)]]
      powi_le_imp [OF le_less_trans [OF assms(1) b(2)]] by simp_all
  then show ?thesis by simp
qed

lemma flog2_mono: "0 < x \<Longrightarrow> x \<le> y \<Longrightarrow> flog2 x \<le> flog2 y"
  using flog2_bounds [of x] flog2_bounds [of y] powi_le_imp [of "flog2 x" "flog2 y + 1"] by auto

section \<open>Rounding to a double\<close>

lemma fl_0 [simp]: "fl 0 = 0"
  by (simp add: fl_def)

lemma fl_pos: "0 < x \<Longrightarrow> fl x = of_int (rne (x * 2 powi (52 - flog2 x))) * 2 powi (flog2 x - 52)"
  by (simp add: fl_def Let_def)

lemma fl_minus: "fl (- x) = - fl x"
  by (auto simp: fl_def Let_def)

lemma powi_cancel: "(x :: rat) * 2 powi k * 2 powi (- k) = x"
  by (simp add: power_int_minus)

lemma scaled_bounds:
  assumes "0 < x"
  shows "2 ^ 52 \<le> x * 2 powi (52 - flog2 x)" and "x * 2 powi (52 - flog2 x) < 2 ^ 53"
proof -
  have pos: "(0 :: rat) < 2 powi (52 - flog2 x)" by simp
  have e: "(2 :: rat) powi flog2 x * 2 powi (52 - flog2 x) = 2 ^ 52"
    "(2 :: rat) powi (flog2 x + 1) * 2 powi (52 - flog2 x) = 2 ^ 53"
    by (simp_all flip: power_int_add)
  show "2 ^ 52 \<le> x * 2 powi (52 - flog2 x)"
    using mult_right_mono [OF flog2_bounds(1) [OF assms] less_imp_le [OF pos]] e(1) by simp
  show "x * 2 powi (52 - flog2 x) < 2 ^ 53"
    using mult_strict_right_mono [OF flog2_bounds(2) [OF assms] pos] e(2) by simp
qed

text \<open>Rounding stays within the binade.\<close>

lemma fl_binade:
  assumes "0 < x" shows "2 powi flog2 x \<le> fl x" and "fl x \<le> 2 powi (flog2 x + 1)"
proof -
  let ?m = "rne (x * 2 powi (52 - flog2 x))" and ?u = "2 powi (flog2 x - 52) :: rat"
  have m: "2 ^ 52 \<le> ?m" "?m \<le> 2 ^ 53"
    using scaled_bounds [OF assms] rne_ge [of "2 ^ 52" "x * 2 powi (52 - flog2 x)"]
      rne_le [of "x * 2 powi (52 - flog2 x)" "2 ^ 53"] by simp_all
  have m': "(2 ^ 52 :: rat) \<le> of_int ?m" "of_int ?m \<le> (2 ^ 53 :: rat)"
    using m by (metis of_int_le_iff of_int_numeral of_int_power)+
  have u: "0 < ?u" by simp
  have e: "2 ^ 52 * ?u = 2 powi flog2 x" "2 ^ 53 * ?u = 2 powi (flog2 x + 1)"
    by (simp_all add: power_int_diff power_int_add)
  show "2 powi flog2 x \<le> fl x" "fl x \<le> 2 powi (flog2 x + 1)"
    using mult_right_mono [OF m'(1) less_imp_le [OF u]] mult_right_mono [OF m'(2) less_imp_le [OF u]]
    unfolding e fl_pos [OF assms] by simp_all
qed

lemma fl_mono_pos:
  assumes "0 < x" "x \<le> y" shows "fl x \<le> fl y"
proof (cases "flog2 x = flog2 y")
  case True
  have "rne (x * 2 powi (52 - flog2 y)) \<le> rne (y * 2 powi (52 - flog2 y))"
    using assms by (intro rne_mono mult_right_mono) auto
  with assms True show ?thesis by (auto simp: fl_pos intro!: mult_right_mono)
next
  case False
  with flog2_mono [OF assms] have "flog2 x + 1 \<le> flog2 y" by simp
  then have "(2 :: rat) powi (flog2 x + 1) \<le> 2 powi flog2 y" by (intro power_int_increasing) auto
  with fl_binade(2) [of x] fl_binade(1) [of y] assms show ?thesis by simp
qed

lemma fl_pos_pos: "0 < x \<Longrightarrow> 0 < fl x"
  using fl_binade(1) [of x] less_le_trans [of 0 "2 powi flog2 x :: rat" "fl x"] by simp

lemma fl_mono: assumes "x \<le> y" shows "fl x \<le> fl y"
proof -
  consider "0 < x" | "x \<le> 0" "0 \<le> y" | "y < 0" by linarith
  then show ?thesis
  proof cases
    case 1
    then show ?thesis using assms by (rule fl_mono_pos)
  next
    case 2
    have "fl x \<le> 0" "0 \<le> fl y"
      using 2 fl_pos_pos [of "- x"] fl_pos_pos [of y]
      by (auto simp: fl_minus le_less)
    then show ?thesis by simp
  next
    case 3
    with assms have "fl (- y) \<le> fl (- x)" by (intro fl_mono_pos) auto
    then show ?thesis by (simp add: fl_minus)
  qed
qed

text \<open>A number with at most 53 significant bits is exact.\<close>

lemma fl_exact_pos:
  assumes "0 < m" "m < 2 ^ 53" shows "fl (of_int m * 2 powi k) = of_int m * 2 powi k"
proof -
  let ?x = "of_int m * 2 powi k :: rat"
  have x: "0 < ?x" using assms by simp
  have "of_int m < (2 ^ 53 :: rat)" using assms(2) by (metis of_int_less_iff of_int_numeral of_int_power)
  then have "?x < 2 ^ 53 * 2 powi k" by (intro mult_strict_right_mono) auto
  also have "2 ^ 53 * 2 powi k = (2 powi (53 + k) :: rat)"
    by (simp add: power_int_add)
  finally have "flog2 ?x < 53 + k"
    using flog2_bounds(1) [OF x] by (intro powi_le_imp) auto
  then have "0 \<le> 52 - flog2 ?x + k" by linarith
  then obtain d :: nat where d: "52 - flog2 ?x + k = int d"
    by (metis nonneg_int_cases)
  have "?x * 2 powi (52 - flog2 ?x) = of_int m * 2 powi (52 - flog2 ?x + k)"
    by (simp add: power_int_add)
  also have "\<dots> = of_int (m * 2 ^ d)" by (simp add: d)
  finally have s: "?x * 2 powi (52 - flog2 ?x) = of_int (m * 2 ^ d)" .
  have "fl ?x = ?x * 2 powi (52 - flog2 ?x) * 2 powi (flog2 ?x - 52)"
    unfolding fl_pos [OF x] s rne_of_int ..
  also have "\<dots> = ?x" using powi_cancel [of ?x "52 - flog2 ?x"] by simp
  finally show ?thesis .
qed

lemma fl_exact: "\<bar>m\<bar> < 2 ^ 53 \<Longrightarrow> fl (of_int m * 2 powi k) = of_int m * 2 powi k"
  using fl_exact_pos [of m k] fl_exact_pos [of "- m" k] fl_minus [of "of_int m * 2 powi k"]
  by (cases "m = 0"; cases "0 < m") auto

lemma fl_of_int_exact: "\<bar>m\<bar> < 2 ^ 53 \<Longrightarrow> fl (of_int m) = of_int m"
  using fl_exact [of m 0] by simp

lemma fl_numeral_small [simp]: "fl 1 = 1" "fl 2 = 2" "fl 3 = 3" "fl 100 = 100"
  using fl_of_int_exact [of 1] fl_of_int_exact [of 2] fl_of_int_exact [of 3]
    fl_of_int_exact [of 100] by simp_all

lemma fl_unit: "0 \<le> x \<Longrightarrow> x \<le> 1 \<Longrightarrow> 0 \<le> fl x \<and> fl x \<le> 1"
  using fl_mono [of 0 x] fl_mono [of x 1] by simp

lemma fl_nonneg: "0 \<le> x \<Longrightarrow> 0 \<le> fl x"
  using fl_mono [of 0 x] by simp

text \<open>A rounded number is exact.\<close>

lemma fl_idem_pos: assumes "0 < x" shows "fl (fl x) = fl x"
proof -
  let ?m = "rne (x * 2 powi (52 - flog2 x))" and ?k = "flog2 x - 52"
  have m: "0 < ?m" "?m \<le> 2 ^ 53"
    using scaled_bounds [OF assms] rne_ge [of "2 ^ 52" "x * 2 powi (52 - flog2 x)"]
      rne_le [of "x * 2 powi (52 - flog2 x)" "2 ^ 53"] by simp_all
  show ?thesis
  proof (cases "?m = 2 ^ 53")
    case True
    have "fl x = of_int 1 * 2 powi (53 + ?k)" unfolding fl_pos [OF assms] True by (simp add: power_int_diff power_int_add)
    then show ?thesis using fl_exact [of 1 "53 + ?k"] by simp
  next
    case False
    with m show ?thesis unfolding fl_pos [OF assms] by (intro fl_exact) simp
  qed
qed

lemma fl_idem [simp]: "fl (fl x) = fl x"
  using fl_idem_pos [of x] fl_idem_pos [of "- x"] by (cases "x = 0"; cases "0 < x") (auto simp: fl_minus)

text \<open>The relative error of one rounding is at most half a unit in the last place.\<close>

lemma rne_error: "\<bar>of_int (rne x) - x\<bar> \<le> 1 / 2"
proof -
  have "of_int \<lfloor>x\<rfloor> \<le> x" "x < of_int \<lfloor>x\<rfloor> + 1" by linarith+
  then show ?thesis by (auto simp: rne_def Let_def abs_le_iff)
qed

lemma fl_error:
  assumes "0 < x" shows "\<bar>fl x - x\<bar> \<le> x / 2 ^ 53"
proof -
  let ?y = "x * 2 powi (52 - flog2 x)" and ?u = "2 powi (flog2 x - 52) :: rat"
  have u: "0 < ?u" by simp
  have x: "x = ?y * ?u" using powi_cancel [of x "52 - flog2 x"] by simp
  have "fl x - x = (of_int (rne ?y) - ?y) * ?u"
    unfolding left_diff_distrib x [symmetric] fl_pos [OF assms] ..
  then have "\<bar>fl x - x\<bar> = \<bar>of_int (rne ?y) - ?y\<bar> * ?u" using u by (simp add: abs_mult)
  also have "\<dots> \<le> 1 / 2 * ?u" by (rule mult_right_mono [OF rne_error]) simp
  also have "\<dots> \<le> (?y / 2 ^ 53) * ?u"
    using scaled_bounds(1) [OF assms] by (intro mult_right_mono) auto
  also have "\<dots> = x / 2 ^ 53" using x by simp
  finally show ?thesis .
qed

lemma math_Round_of_int_near: "\<bar>x - of_int n\<bar> < 1 / 2 \<Longrightarrow> 0 \<le> x \<Longrightarrow> math_Round x = n"
  using abs_less_iff [of "x - of_int n" "1 / 2"] by (simp add: math_Round_def floor_eq_iff)

text \<open>A whole percentage survives the division by 100 and the rounding back.\<close>

lemma percent_roundtrip:
  assumes "0 \<le> p" "p \<le> 100"
  shows "math_Round (fl_mul (fl_div (of_int p) 100) 100) = p"
proof (cases "p = 0")
  case True
  then show ?thesis by (simp add: fl_ops math_Round_def floor_eq_iff)
next
  case False
  define a where "a = (of_int p / 100 :: rat)"
  have a: "0 < a" "a \<le> 1" "a * 100 = of_int p" using assms False by (auto simp: a_def)
  have small: "x / 2 ^ 53 \<le> 1 / 1000" if "x \<le> 101" for x :: rat
    using that by simp
  have fa: "0 < fl a" "\<bar>fl a - a\<bar> \<le> 1 / 1000"
    using fl_pos_pos [OF a(1)] fl_error [OF a(1)] small [of a] a(2) by linarith+
  have b: "0 < fl a * 100" "fl a * 100 \<le> 101" using fa a(2) by linarith+
  have "\<bar>fl (fl a * 100) - fl a * 100\<bar> \<le> 1 / 1000"
    using fl_error [OF b(1)] small [OF b(2)] by linarith
  moreover have "\<bar>fl a * 100 - of_int p\<bar> \<le> 1 / 10"
    using fa(2) unfolding a(3) [symmetric] by linarith
  ultimately have "\<bar>fl (fl a * 100) - of_int p\<bar> < 1 / 2" by linarith
  moreover have "0 \<le> fl (fl a * 100)" using b(1) by (intro fl_nonneg) simp
  ultimately show ?thesis by (simp add: fl_ops math_Round_of_int_near flip: a_def)
qed

end
