(* ===== verification/Strconv.thy ===== *)
theory Strconv
  imports Prelude
begin

text \<open>
  The conversions of \<^verbatim>\<open>strconv\<close> the code relies on: decimal rendering and parsing of
  64-bit integers, Booleans, and the zero-padded fields of \<^verbatim>\<open>time.Format\<close>.
\<close>

section \<open>Decimal digits\<close>

definition digit :: "nat \<Rightarrow> char" where
  "digit d = char_of (48 + d)"

definition is_digit :: "char \<Rightarrow> bool" where
  "is_digit c \<longleftrightarrow> 48 \<le> byte c \<and> byte c \<le> 57"

definition digit_val :: "char \<Rightarrow> nat" where
  "digit_val c = nat (byte c - 48)"

fun show_nat :: "nat \<Rightarrow> string" where
  "show_nat n = (if n < 10 then [digit n] else show_nat (n div 10) @ [digit (n mod 10)])"

declare show_nat.simps [simp del]

fun parse_digits :: "nat \<Rightarrow> string \<Rightarrow> nat option" where
  "parse_digits acc [] = Some acc"
| "parse_digits acc (c # cs) =
     (if is_digit c then parse_digits (10 * acc + digit_val c) cs else None)"

definition Itoa :: "int \<Rightarrow> string" where
  "Itoa n = (if n < 0 then CHR ''-'' # show_nat (nat (- n)) else show_nat (nat n))"

definition FormatBool :: "bool \<Rightarrow> string" where
  "FormatBool b = (if b then ''true'' else ''false'')"

text \<open>\<open>strconv.ParseInt(s, 10, 64)\<close>; \<open>None\<close> is any of its errors.\<close>

definition ParseInt :: "string \<Rightarrow> int option" where
  "ParseInt s =
     (let neg = (s \<noteq> [] \<and> hd s = CHR ''-'');
          rest = (if s \<noteq> [] \<and> (hd s = CHR ''-'' \<or> hd s = CHR ''+'') then tl s else s)
      in if rest = [] then None
         else case parse_digits 0 rest of
             None \<Rightarrow> None
           | Some n \<Rightarrow>
               (if neg then (if n \<le> 9223372036854775808 then Some (- int n) else None)
                else (if n < 9223372036854775808 then Some (int n) else None)))"

definition zero_pad :: "nat \<Rightarrow> string \<Rightarrow> string" where
  "zero_pad w s = replicate (w - length s) (CHR ''0'') @ s"

lemma byte_digit: "d < 10 \<Longrightarrow> byte (digit d) = 48 + int d"
proof -
  assume "d < 10"
  then have "int (of_char (digit d)) = 48 + int d" by (simp add: digit_def)
  then show ?thesis by (simp add: byte_def of_nat_of_char)
qed

lemma digit_simps [simp]: "d < 10 \<Longrightarrow> is_digit (digit d)" "d < 10 \<Longrightarrow> digit_val (digit d) = d"
  by (simp_all add: is_digit_def digit_val_def byte_digit)

lemma is_digit_zero [simp]: "is_digit (CHR ''0'')" "digit_val (CHR ''0'') = 0"
  by (simp_all add: is_digit_def digit_val_def byte_def)

lemma not_digit [simp]: "\<not> is_digit (CHR ''-'')" "\<not> is_digit (CHR ''+'')" "\<not> is_digit (CHR ''.'')"
  by (simp_all add: is_digit_def byte_def)

lemma parse_digits_append:
  "parse_digits acc (s @ t) =
     (case parse_digits acc s of None \<Rightarrow> None | Some a \<Rightarrow> parse_digits a t)"
  by (induction acc s rule: parse_digits.induct) auto

lemma parse_show_nat: "parse_digits 0 (show_nat n) = Some n"
proof (induction n rule: show_nat.induct)
  case (1 n)
  then show ?case by (cases "n < 10") (auto simp: show_nat.simps [of n] parse_digits_append)
qed

lemma show_nat_nonempty [simp]: "show_nat n \<noteq> []"
  by (subst show_nat.simps) simp

lemma show_nat_digits: "c \<in> set (show_nat n) \<Longrightarrow> is_digit c"
proof (induction n rule: show_nat.induct)
  case (1 n)
  then show ?case by (cases "n < 10") (auto simp: show_nat.simps [of n])
qed

lemma show_nat_hd: "is_digit (hd (show_nat n))"
  by (rule show_nat_digits) (rule hd_in_set [OF show_nat_nonempty])

lemma show_nat_inject [simp]: "show_nat m = show_nat n \<longleftrightarrow> m = n"
  by (metis option.inject parse_show_nat)

lemma ParseInt_Itoa: "int64 n \<Longrightarrow> ParseInt (Itoa n) = Some n"
  using show_nat_hd [of "nat n"] parse_show_nat [of "nat n"] parse_show_nat [of "nat (- n)"]
  by (auto simp: ParseInt_def Itoa_def int64_def Let_def)

lemma Itoa_nonempty [simp]: "Itoa n \<noteq> []"
  by (simp add: Itoa_def)

lemma Itoa_inject [simp]: "Itoa m = Itoa n \<longleftrightarrow> m = n"
proof
  assume eq: "Itoa m = Itoa n"
  have hd: "hd (show_nat k) \<noteq> CHR ''-''" for k
    using show_nat_hd [of k] by (auto simp del: show_nat_hd)
  show "m = n"
    using eq hd [of "nat m"] hd [of "nat n"]
    by (cases "m < 0"; cases "n < 0") (auto simp: Itoa_def dest: arg_cong [of _ _ hd])
qed simp

section \<open>Padded fields\<close>

lemma parse_zeros: "parse_digits 0 (replicate k (CHR ''0'') @ s) = parse_digits 0 s"
  by (induction k) auto

lemma parse_zero_pad [simp]: "parse_digits 0 (zero_pad w (show_nat n)) = Some n"
  by (simp add: zero_pad_def parse_zeros parse_show_nat)

lemma zero_pad_inject: "zero_pad w (show_nat m) = zero_pad w (show_nat n) \<longleftrightarrow> m = n"
  by (metis option.inject parse_zero_pad)

lemma zero_pad_digits: "c \<in> set (zero_pad w (show_nat n)) \<Longrightarrow> is_digit c"
  by (auto simp: zero_pad_def dest: show_nat_digits split: if_splits)

end
