(* ===== verification/Calendar.thy ===== *)
theory Calendar
  imports Strconv
begin

text \<open>
  The calendar of \<^verbatim>\<open>time.Time\<close> in UTC and the two layouts the quota keys use,
  \<open>2006-01-02\<close> and \<open>2006-01\<close>.  Day 0 is 1 January of year 1, as in the \<^verbatim>\<open>time\<close>
  package: four-century, century, four-year and one-year cycles, then the month by the
  cumulative day table.
\<close>

definition dayNanos :: int where "dayNanos = 86400000000000"

definition day_of :: "Time \<Rightarrow> int" where "day_of t = t div dayNanos"

text \<open>\<open>year_day d\<close> is the year and the zero-based day within it.\<close>

definition year_day :: "int \<Rightarrow> int \<times> int" where
  "year_day d =
     (let n400 = d div 146097; d = d mod 146097;
          n100 = d div 36524; n100 = (if n100 = 4 then 3 else n100); d = d - 36524 * n100;
          n4 = d div 1461; d = d mod 1461;
          n1 = d div 365; n1 = (if n1 = 4 then 3 else n1); d = d - 365 * n1
      in (1 + 400 * n400 + 100 * n100 + 4 * n4 + n1, d))"

definition isLeap :: "int \<Rightarrow> bool" where
  "isLeap y \<longleftrightarrow> y mod 4 = 0 \<and> (y mod 100 \<noteq> 0 \<or> y mod 400 = 0)"

text \<open>The day of the year on which each month begins.\<close>

definition month_starts :: "bool \<Rightarrow> int list" where
  "month_starts leap = (if leap then [0, 31, 60, 91, 121, 152, 182, 213, 244, 274, 305, 335]
                        else [0, 31, 59, 90, 120, 151, 181, 212, 243, 273, 304, 334])"

text \<open>The last month that begins on or before the day.\<close>

fun month_day :: "nat \<Rightarrow> int list \<Rightarrow> int \<Rightarrow> nat \<times> nat" where
  "month_day m [] d = (m, nat d + 1)"
| "month_day m [s] d = (m, nat (d - s) + 1)"
| "month_day m (s # s' # ss) d = (if d < s' then (m, nat (d - s) + 1) else month_day (Suc m) (s' # ss) d)"

definition civil :: "Time \<Rightarrow> int \<times> nat \<times> nat" where
  "civil t = (let (y, d) = year_day (day_of t); (m, md) = month_day 1 (month_starts (isLeap y)) d
              in (y, m, md))"

definition format_year :: "int \<Rightarrow> string" where
  "format_year y = (if y < 0 then CHR ''-'' # zero_pad 4 (show_nat (nat (- y)))
                    else zero_pad 4 (show_nat (nat y)))"

definition Format_daily :: "Time \<Rightarrow> string" where
  "Format_daily t = (let (y, m, d) = civil t in
     format_year y @ ''-'' @ zero_pad 2 (show_nat m) @ ''-'' @ zero_pad 2 (show_nat d))"

definition Format_monthly :: "Time \<Rightarrow> string" where
  "Format_monthly t = (let (y, m, d) = civil t in format_year y @ ''-'' @ zero_pad 2 (show_nat m))"

text \<open>The year and day of the year determine the day.\<close>

definition of_year_day :: "int \<Rightarrow> int \<Rightarrow> int" where
  "of_year_day y d = (let z = y - 1 in
     146097 * (z div 400) + 36524 * (z mod 400 div 100) + 1461 * (z mod 100 div 4)
     + 365 * (z mod 4) + d)"

lemma block_div_mod:
  assumes "0 \<le> b" "b < k" shows "(k * a + b) div k = (a :: int)" and "(k * a + b) mod k = b"
  using assms by (simp_all add: div_pos_pos_trivial mod_pos_pos_trivial)

lemma year_day_inverse:
  assumes "year_day n = (y, d)" shows "of_year_day y d = n" and "0 \<le> d"
    and "0 \<le> n \<Longrightarrow> 1 \<le> y"
proof -
  define n400 where "n400 = n div 146097"
  define r where "r = n mod 146097"
  define n100 where "n100 = (if r div 36524 = 4 then 3 else r div 36524)"
  define r1 where "r1 = r - 36524 * n100"
  define n4 where "n4 = r1 div 1461"
  define r2 where "r2 = r1 mod 1461"
  define n1 where "n1 = (if r2 div 365 = 4 then 3 else r2 div 365)"
  have "year_day n = (1 + 400 * n400 + 100 * n100 + 4 * n4 + n1, r2 - 365 * n1)"
    by (simp only: year_day_def Let_def n400_def r_def n100_def r1_def n4_def r2_def n1_def)
  then have y: "y = 1 + 400 * n400 + 100 * n100 + 4 * n4 + n1" and d: "d = r2 - 365 * n1"
    using assms by simp_all
  have r: "0 \<le> r" "r < 146097" "n = 146097 * n400 + r" by (auto simp: r_def n400_def)
  have n100: "0 \<le> n100" "n100 \<le> 3" "0 \<le> r1" "r1 \<le> 36524"
    using r(1,2) by (auto simp: n100_def r1_def)
  have n4: "0 \<le> n4" "n4 \<le> 24" "0 \<le> r2" "r2 < 1461" "r1 = 1461 * n4 + r2"
    using n100 by (auto simp: n4_def r2_def)
  have n1: "0 \<le> n1" "n1 \<le> 3" using n4(3,4) by (auto simp: n1_def)
  have z: "y - 1 = 400 * n400 + (100 * n100 + (4 * n4 + n1))"
    "y - 1 = 100 * (4 * n400 + n100) + (4 * n4 + n1)"
    "y - 1 = 4 * (100 * n400 + 25 * n100 + n4) + n1"
    using y by simp_all
  have b: "0 \<le> 4 * n4 + n1" "4 * n4 + n1 < 100" "0 \<le> 100 * n100 + (4 * n4 + n1)"
    "100 * n100 + (4 * n4 + n1) < 400" "n1 < 4"
    using n100 n4 n1 by linarith+
  have "(y - 1) div 400 = n400" "(y - 1) mod 400 = 100 * n100 + (4 * n4 + n1)"
    unfolding z(1) by (rule block_div_mod [OF b(3,4)])+
  moreover have "(100 * n100 + (4 * n4 + n1)) div 100 = n100"
    by (rule block_div_mod [OF b(1,2)])
  moreover have "(y - 1) mod 100 = 4 * n4 + n1"
    unfolding z(2) by (rule block_div_mod [OF b(1,2)])
  moreover have "(4 * n4 + n1) div 4 = n4" by (rule block_div_mod [OF n1(1) b(5)])
  moreover have "(y - 1) mod 4 = n1" unfolding z(3) by (rule block_div_mod [OF n1(1) b(5)])
  ultimately have "of_year_day y d = 146097 * n400 + 36524 * n100 + 1461 * n4 + 365 * n1 + d"
    by (simp only: of_year_day_def Let_def)
  then show "of_year_day y d = n" using n4(5) by (simp add: d r(3) r1_def)
  show "0 \<le> d" using n4(3) by (auto simp: d n1_def)
  show "1 \<le> y" if "0 \<le> n"
    using that n100(1) n4(1) n1(1) pos_imp_zdiv_nonneg_iff [of 146097 n]
    unfolding y n400_def [symmetric] by linarith
qed

text \<open>So do the month and the day of the month, once the kind of year is known.\<close>

lemma month_day_inverse:
  assumes "month_day m ss d = (m', md)" "ss \<noteq> []" "hd ss \<le> d" "sorted ss" "0 \<le> hd ss"
  shows "m \<le> m'" and "m' - m < length ss" and "d = ss ! (m' - m) + int md - 1"
proof -
  have "m \<le> m' \<and> m' - m < length ss \<and> d = ss ! (m' - m) + int md - 1"
    using assms
  proof (induction m ss d rule: month_day.induct)
    case (3 m s s' ss d)
    show ?case
    proof (cases "d < s'")
      case True
      with 3 show ?thesis by auto
    next
      case False
      with 3 have "Suc m \<le> m' \<and> m' - Suc m < length (s' # ss) \<and>
          d = (s' # ss) ! (m' - Suc m) + int md - 1"
        by auto
      moreover from this have "m' - m = Suc (m' - Suc m)" by linarith
      ultimately show ?thesis by simp
    qed
  qed auto
  then show "m \<le> m'" and "m' - m < length ss" and "d = ss ! (m' - m) + int md - 1" by auto
qed

lemma month_starts_ok: "month_starts b \<noteq> []" "hd (month_starts b) = 0" "sorted (month_starts b)"
  by (simp_all add: month_starts_def)

lemma civil_day:
  assumes "civil t = civil u" shows "day_of t = day_of u"
proof -
  obtain y d where td: "year_day (day_of t) = (y, d)" by fastforce
  obtain y' d' where ud: "year_day (day_of u) = (y', d')" by fastforce
  obtain m md where tm: "month_day 1 (month_starts (isLeap y)) d = (m, md)" by fastforce
  obtain m' md' where um: "month_day 1 (month_starts (isLeap y')) d' = (m', md')" by fastforce
  have eq: "y' = y" "m' = m" "md' = md" using assms td ud tm um by (auto simp: civil_def)
  have "d = month_starts (isLeap y) ! (m - 1) + int md - 1"
    using month_day_inverse(3) [OF tm] year_day_inverse(2) [OF td] by (simp add: month_starts_ok)
  moreover have "d' = month_starts (isLeap y) ! (m - 1) + int md - 1"
    using month_day_inverse(3) [OF um] year_day_inverse(2) [OF ud] eq by (simp add: month_starts_ok)
  ultimately show ?thesis
    using year_day_inverse(1) [OF td] year_day_inverse(1) [OF ud] eq by simp
qed

lemma civil_year_pos: "0 \<le> t \<Longrightarrow> 1 \<le> fst (civil t)"
  using year_day_inverse(3) [of "day_of t"]
  by (auto simp: civil_def day_of_def dayNanos_def pos_imp_zdiv_nonneg_iff split: prod.splits)

lemma split_at_dash:
  "c \<notin> set a \<Longrightarrow> c \<notin> set b \<Longrightarrow> a @ c # r = b @ c # s \<Longrightarrow> a = b \<and> r = s"
proof (induction a arbitrary: b)
  case Nil
  then show ?case by (cases b) auto
next
  case (Cons x a)
  then show ?case by (cases b) auto
qed

lemma no_dash: "CHR ''-'' \<notin> set (zero_pad w (show_nat n))"
  using zero_pad_digits [of "CHR ''-''" w n] by auto

lemma Format_daily_civil:
  assumes "0 \<le> t" "0 \<le> u" "Format_daily t = Format_daily u" shows "civil t = civil u"
proof -
  obtain y m d where t: "civil t = (y, m, d)" by (cases "civil t") auto
  obtain y' m' d' where u: "civil u = (y', m', d')" by (cases "civil u") auto
  have y: "0 \<le> y" "0 \<le> y'" using civil_year_pos [OF assms(1)] civil_year_pos [OF assms(2)] t u by auto
  have "zero_pad 4 (show_nat (nat y)) @ CHR ''-'' # zero_pad 2 (show_nat m) @ CHR ''-'' # zero_pad 2 (show_nat d)
      = zero_pad 4 (show_nat (nat y')) @ CHR ''-'' # zero_pad 2 (show_nat m') @ CHR ''-'' # zero_pad 2 (show_nat d')"
    using assms(3) y by (simp add: Format_daily_def t u format_year_def)
  from split_at_dash [OF no_dash no_dash this]
  have "nat y = nat y'" and rest: "zero_pad 2 (show_nat m) @ CHR ''-'' # zero_pad 2 (show_nat d)
      = zero_pad 2 (show_nat m') @ CHR ''-'' # zero_pad 2 (show_nat d')"
    by (simp_all add: zero_pad_inject)
  moreover from split_at_dash [OF no_dash no_dash rest] have "m = m'" "d = d'"
    by (simp_all add: zero_pad_inject)
  ultimately show ?thesis using y by (simp add: t u)
qed

definition month_of :: "Time \<Rightarrow> int \<times> nat" where
  "month_of t = (fst (civil t), fst (snd (civil t)))"

lemma Format_daily_iff:
  assumes "0 \<le> t" "0 \<le> u" shows "Format_daily t = Format_daily u \<longleftrightarrow> day_of t = day_of u"
proof
  assume "Format_daily t = Format_daily u"
  then show "day_of t = day_of u" by (intro civil_day Format_daily_civil assms)
next
  assume "day_of t = day_of u"
  then show "Format_daily t = Format_daily u" by (simp add: Format_daily_def civil_def)
qed

lemma Format_monthly_iff:
  assumes "0 \<le> t" "0 \<le> u" shows "Format_monthly t = Format_monthly u \<longleftrightarrow> month_of t = month_of u"
proof
  obtain y m d where t: "civil t = (y, m, d)" by (cases "civil t") auto
  obtain y' m' d' where u: "civil u = (y', m', d')" by (cases "civil u") auto
  have y: "0 \<le> y" "0 \<le> y'" using civil_year_pos [OF assms(1)] civil_year_pos [OF assms(2)] t u by auto
  assume "Format_monthly t = Format_monthly u"
  then have "zero_pad 4 (show_nat (nat y)) @ CHR ''-'' # zero_pad 2 (show_nat m)
      = zero_pad 4 (show_nat (nat y')) @ CHR ''-'' # zero_pad 2 (show_nat m')"
    using y by (simp add: Format_monthly_def t u format_year_def)
  from split_at_dash [OF no_dash no_dash this] y show "month_of t = month_of u"
    by (auto simp: zero_pad_inject month_of_def t u)
next
  assume "month_of t = month_of u"
  then show "Format_monthly t = Format_monthly u"
    by (auto simp: Format_monthly_def month_of_def split: prod.splits)
qed

lemma Format_daily_dashes: "0 \<le> t \<Longrightarrow> count_list (Format_daily t) (CHR ''-'') = 2"
  using civil_year_pos [of t] no_dash
  by (auto simp: Format_daily_def format_year_def count_list_0_iff split: prod.splits)

lemma Format_monthly_dashes: "0 \<le> t \<Longrightarrow> count_list (Format_monthly t) (CHR ''-'') = 1"
  using civil_year_pos [of t] no_dash
  by (auto simp: Format_monthly_def format_year_def count_list_0_iff split: prod.splits)

end
