(* ===== verification/Quota.thy ===== *)
theory Quota
  imports Float64 Calendar
begin

text \<open>
  \<^verbatim>\<open>internal/quota\<close>: meters, periods, and each provider's compiled budgets.  Counters
  are 64-bit integers in a meter's base unit; every product and sum that could leave the
  range is written with \<open>wrap64\<close>.  Compilation refuses budgets that could not be counted;
  a pool is charged only when the execution touches its meter.
\<close>

type_synonym Meter = string
type_synonym Period = string

section \<open>Meters\<close>

definition MeterExecutions :: Meter where [vocab]: "MeterExecutions = ''executions''"
definition MeterGBSeconds :: Meter where [vocab]: "MeterGBSeconds = ''gb_seconds''"
definition MeterCPUSeconds :: Meter where [vocab]: "MeterCPUSeconds = ''cpu_seconds''"
definition MeterSeconds :: Meter where [vocab]: "MeterSeconds = ''seconds''"

lemmas meter_consts = MeterExecutions_def MeterGBSeconds_def MeterCPUSeconds_def MeterSeconds_def

definition mebibytesPerGibibyte :: int where "mebibytesPerGibibyte = 1024"
definition millicoresPerVCPU :: int where "millicoresPerVCPU = 1000"
definition millisPerSecond :: int where "millisPerSecond = 1000"

lemmas unit_consts = mebibytesPerGibibyte_def millicoresPerVCPU_def millisPerSecond_def

definition Meters :: "Meter list" where
  "Meters = [MeterExecutions, MeterGBSeconds, MeterCPUSeconds, MeterSeconds]"

definition Meter_Valid :: "Meter \<Rightarrow> bool" where
  "Meter_Valid m \<longleftrightarrow>
     m = MeterExecutions \<or> m = MeterGBSeconds \<or> m = MeterCPUSeconds \<or> m = MeterSeconds"

definition Meter_Unit :: "Meter \<Rightarrow> string" where
  "Meter_Unit m =
     (if m = MeterExecutions then ''executions''
      else if m = MeterGBSeconds then ''GB-seconds''
      else if m = MeterCPUSeconds then ''vCPU-seconds''
      else if m = MeterSeconds then ''seconds''
      else m)"

definition Meter_scale :: "Meter \<Rightarrow> int" where
  "Meter_scale m =
     (if m = MeterExecutions then 1
      else if m = MeterGBSeconds then mebibytesPerGibibyte * millisPerSecond
      else if m = MeterCPUSeconds then millicoresPerVCPU * millisPerSecond
      else if m = MeterSeconds then millisPerSecond
      else 0)"

definition Meter_Natural :: "Meter \<Rightarrow> int \<Rightarrow> rat" where
  "Meter_Natural m base =
     (let scale = Meter_scale m in
      if scale \<le> 0 then 0 else fl_div (fl_of_int base) (fl_of_int scale))"

section \<open>Periods\<close>

definition PeriodDaily :: Period where [vocab]: "PeriodDaily = ''daily''"
definition PeriodMonthly :: Period where [vocab]: "PeriodMonthly = ''monthly''"

definition Periods :: "Period list" where "Periods = [PeriodDaily, PeriodMonthly]"

definition Period_Valid :: "Period \<Rightarrow> bool" where
  "Period_Valid p \<longleftrightarrow> p = PeriodDaily \<or> p = PeriodMonthly"

definition Period_Key :: "Period \<Rightarrow> Time \<Rightarrow> string" where
  "Period_Key p t =
     (if p = PeriodDaily then Format_daily t
      else if p = PeriodMonthly then Format_monthly t
      else [])"

section \<open>Charging\<close>

record Execution =
  ex_CPU :: int
  ex_Memory :: int
  ex_Duration :: Duration

definition millis :: "Execution \<Rightarrow> int" where
  "millis e =
     (if ex_Duration e \<le> 0 then 0
      else \<lceil>fl_div (fl_of_int (ex_Duration e)) (fl_of_int Millisecond)\<rceil>)"

definition Meter_charge :: "Meter \<Rightarrow> Execution \<Rightarrow> int" where
  "Meter_charge m e =
     (if m = MeterExecutions then 1
      else if m = MeterGBSeconds then wrap64 (max (ex_Memory e) 0 * millis e)
      else if m = MeterCPUSeconds then wrap64 (max (ex_CPU e) 0 * millis e)
      else if m = MeterSeconds then millis e
      else 0)"

section \<open>Pools\<close>

record PoolSpec =
  spec_Name :: string
  spec_Meter :: Meter
  spec_Limit :: int
  spec_Period :: Period

record Pool =
  pool_Name :: string
  pool_Meter :: Meter
  pool_Period :: Period
  pool_Limit :: int

record Limits =
  pools :: "Pool list"

definition no_limits :: Limits where "no_limits = \<lparr>pools = []\<rparr>"

type_synonym PoolUsage = "string \<Rightarrow> int option"

datatype quota_error =
    PoolHasNoName
  | PoolDeclaredTwice string
  | PoolMetersUnknown string Meter
  | PoolUnknownPeriod string Period
  | PoolNoPositiveLimit string
  | PoolLimitTooLarge string int string

definition baseLimit :: "PoolSpec \<Rightarrow> quota_error + int" where
  "baseLimit spec =
     (let scale = Meter_scale (spec_Meter spec) in
      if go_div MaxInt64 scale < spec_Limit spec
      then Inl (PoolLimitTooLarge (spec_Name spec) (spec_Limit spec) (Meter_Unit (spec_Meter spec)))
      else Inr (wrap64 (spec_Limit spec * scale)))"

definition compile :: "PoolSpec \<Rightarrow> string set \<Rightarrow> quota_error + Pool" where
  "compile spec seen =
     (if spec_Name spec = [] then Inl PoolHasNoName
      else if spec_Name spec \<in> seen then Inl (PoolDeclaredTwice (spec_Name spec))
      else if \<not> Meter_Valid (spec_Meter spec)
        then Inl (PoolMetersUnknown (spec_Name spec) (spec_Meter spec))
      else if \<not> Period_Valid (spec_Period spec)
        then Inl (PoolUnknownPeriod (spec_Name spec) (spec_Period spec))
      else if spec_Limit spec \<le> 0 then Inl (PoolNoPositiveLimit (spec_Name spec))
      else case baseLimit spec of
          Inl err \<Rightarrow> Inl err
        | Inr limit \<Rightarrow>
            Inr \<lparr>pool_Name = spec_Name spec, pool_Meter = spec_Meter spec,
                 pool_Period = spec_Period spec, pool_Limit = limit\<rparr>)"

text \<open>The loop of \<open>NewLimits\<close>: \<open>acc\<close> is \<open>pools\<close>, \<open>seen\<close> the names so far.\<close>

fun compile_all :: "PoolSpec list \<Rightarrow> string set \<Rightarrow> Pool list \<Rightarrow> quota_error + Pool list" where
  "compile_all [] seen acc = Inr acc"
| "compile_all (spec # specs) seen acc =
     (case compile spec seen of
        Inl err \<Rightarrow> Inl err
      | Inr pool \<Rightarrow> compile_all specs (insert (pool_Name pool) seen) (acc @ [pool]))"

definition NewLimits :: "PoolSpec list \<Rightarrow> quota_error + Limits" where
  "NewLimits specs =
     (if specs = [] then Inr no_limits
      else case compile_all specs {} [] of
          Inl err \<Rightarrow> Inl err
        | Inr ps \<Rightarrow> Inr \<lparr>pools = ps\<rparr>)"

definition Limits_Unlimited :: "Limits \<Rightarrow> bool" where
  "Limits_Unlimited l \<longleftrightarrow> pools l = []"

text \<open>\<open>Deltas\<close> fills a map pool by pool; pools it does not touch stay absent.\<close>

fun Deltas_loop :: "Pool list \<Rightarrow> Execution \<Rightarrow> (string \<Rightarrow> int option) \<Rightarrow> (string \<Rightarrow> int option)" where
  "Deltas_loop [] e deltas = deltas"
| "Deltas_loop (p # ps) e deltas =
     Deltas_loop ps e
       (if 0 < Meter_charge (pool_Meter p) e
        then deltas(pool_Name p \<mapsto> Meter_charge (pool_Meter p) e) else deltas)"

definition Limits_Deltas :: "Limits \<Rightarrow> Execution \<Rightarrow> (string \<Rightarrow> int option)" where
  "Limits_Deltas l e = (if pools l = [] then Map.empty else Deltas_loop (pools l) e Map.empty)"

definition pool_exceeded :: "PoolUsage \<Rightarrow> Execution \<Rightarrow> Pool \<Rightarrow> bool" where
  "pool_exceeded usage e p \<longleftrightarrow>
     (let charge = Meter_charge (pool_Meter p) e in
      charge \<noteq> 0 \<and> pool_Limit p < wrap64 (mget usage (pool_Name p) + charge))"

definition Limits_Exceeded :: "Limits \<Rightarrow> PoolUsage \<Rightarrow> Execution \<Rightarrow> Pool option" where
  "Limits_Exceeded l usage e = find_first (pool_exceeded usage e) (pools l)"

definition Limits_Within :: "Limits \<Rightarrow> PoolUsage \<Rightarrow> Execution \<Rightarrow> bool" where
  "Limits_Within l usage e \<longleftrightarrow> Limits_Exceeded l usage e = None"

definition Pool_Remaining :: "Pool \<Rightarrow> int \<Rightarrow> int" where
  "Pool_Remaining p used = max (wrap64 (pool_Limit p - used)) 0"

definition Pool_FreePercent :: "Pool \<Rightarrow> int \<Rightarrow> int" where
  "Pool_FreePercent p used =
     (if used \<le> 0 then 100
      else go_div (wrap64 (Pool_Remaining p used * 100)) (pool_Limit p))"

fun FreePercent_loop :: "Pool list \<Rightarrow> PoolUsage \<Rightarrow> Execution \<Rightarrow> int \<Rightarrow> int" where
  "FreePercent_loop [] usage e percent = percent"
| "FreePercent_loop (p # ps) usage e percent =
     FreePercent_loop ps usage e
       (if Meter_charge (pool_Meter p) e = 0 then percent
        else min percent (Pool_FreePercent p (mget usage (pool_Name p))))"

definition Limits_FreePercent :: "Limits \<Rightarrow> PoolUsage \<Rightarrow> Execution \<Rightarrow> int" where
  "Limits_FreePercent l usage e = FreePercent_loop (pools l) usage e 100"

section \<open>Budgets\<close>

text \<open>A missing key of a Go map of structs reads as the zero value, here \<open>no_limits\<close>.\<close>

record Budgets =
  Totals :: "(string \<times> Limits) list"
  Namespaces :: "(string \<times> (string \<times> Limits) list) list"

definition limits_of :: "(string \<times> Limits) list \<Rightarrow> string \<Rightarrow> Limits" where
  "limits_of m k = (case map_of m k of None \<Rightarrow> no_limits | Some l \<Rightarrow> l)"

definition Budgets_Total :: "Budgets \<Rightarrow> string \<Rightarrow> Limits" where
  "Budgets_Total b provider = limits_of (Totals b) provider"

definition Budgets_Share :: "Budgets \<Rightarrow> string \<Rightarrow> string \<Rightarrow> Limits" where
  "Budgets_Share b namespace provider =
     (case map_of (Namespaces b) namespace of
        None \<Rightarrow> no_limits
      | Some shares \<Rightarrow> limits_of shares provider)"

section \<open>Facts about meters\<close>

lemma meter_distinct [simp]:
  "MeterExecutions \<noteq> MeterGBSeconds" "MeterExecutions \<noteq> MeterCPUSeconds" "MeterExecutions \<noteq> MeterSeconds"
  "MeterGBSeconds \<noteq> MeterExecutions" "MeterGBSeconds \<noteq> MeterCPUSeconds" "MeterGBSeconds \<noteq> MeterSeconds"
  "MeterCPUSeconds \<noteq> MeterExecutions" "MeterCPUSeconds \<noteq> MeterGBSeconds" "MeterCPUSeconds \<noteq> MeterSeconds"
  "MeterSeconds \<noteq> MeterExecutions" "MeterSeconds \<noteq> MeterGBSeconds" "MeterSeconds \<noteq> MeterCPUSeconds"
  by (simp_all add: meter_consts)

lemma period_distinct [simp]: "PeriodDaily \<noteq> PeriodMonthly" "PeriodMonthly \<noteq> PeriodDaily"
  by (simp_all add: PeriodDaily_def PeriodMonthly_def)

lemma scale_pos: "Meter_Valid m \<Longrightarrow> 0 < Meter_scale m"
  by (auto simp: Meter_Valid_def Meter_scale_def unit_consts)

lemma scale_le: "Meter_scale m \<le> 1024000"
  by (simp add: Meter_scale_def unit_consts)

lemma millis_nonneg: "0 \<le> millis e"
  using fl_nonneg [of "fl (of_int (ex_Duration e)) / fl (of_int Millisecond)"]
    fl_nonneg [of "of_int (ex_Duration e)"] fl_nonneg [of "of_int Millisecond"]
  by (auto simp: millis_def fl_ops Millisecond_def)

text \<open>
  Up to about 99 days the floating-point division rounds up to exactly the whole
  milliseconds the duration covers.
\<close>

lemma fl_Millisecond [simp]: "fl_of_int Millisecond = 1000000"
  using fl_of_int_exact [of 1000000] by (simp add: fl_of_int_def Millisecond_def)

lemma millis_exact:
  assumes "0 < ex_Duration e" "ex_Duration e \<le> 8589934592 * Millisecond"
  shows "millis e = (ex_Duration e + (Millisecond - 1)) div Millisecond"
proof -
  define d where "d = ex_Duration e"
  have d: "0 < d" "d \<le> 8589934592000000" using assms by (simp_all add: d_def Millisecond_def)
  define n where "n = (d + 999999) div 1000000"
  have n: "1000000 * (n - 1) < d" "d \<le> 1000000 * n" "0 < n" "n \<le> 8589934592"
    using d by (simp_all add: n_def)
  define q where "q = (of_int d / 1000000 :: rat)"
  have "fl q \<le> fl (of_int n)"
    using n(2) by (intro fl_mono) (simp add: q_def field_simps flip: of_int_mult)
  then have up: "fl q \<le> of_int n" using n(3,4) fl_of_int_exact [of n] by simp
  define r where "r = (of_int ((n - 1) * 1048576 + 1) / 1048576 :: rat)"
  have "of_int (1000000 * (n - 1) + 1) \<le> (of_int d :: rat)" using n(1) by (simp only: of_int_le_iff)
  then have "r \<le> q" by (simp add: r_def q_def field_simps)
  then have "fl r \<le> fl q" by (rule fl_mono)
  moreover have "fl r = r"
  proof -
    have "(2 :: rat) powi (- 20) = 1 / 1048576" by (simp add: power_int_minus)
    moreover have "fl (of_int ((n - 1) * 1048576 + 1) * 2 powi (- 20))
        = of_int ((n - 1) * 1048576 + 1) * 2 powi (- 20)"
      by (rule fl_exact) (use n(3,4) in simp)
    ultimately show ?thesis by (simp only: r_def) simp
  qed
  moreover have "of_int (n - 1) < r" by (simp add: r_def field_simps)
  ultimately have "\<lceil>fl q\<rceil> = n" using up by (simp add: ceiling_eq_iff)
  moreover have "fl_of_int d = of_int d"
    using d by (simp add: fl_of_int_def fl_of_int_exact)
  moreover have "millis e = \<lceil>fl_div (fl_of_int d) (fl_of_int Millisecond)\<rceil>"
    using d(1) by (simp add: millis_def flip: d_def)
  ultimately have "millis e = n" by (simp add: fl_div_def q_def)
  then show ?thesis by (simp add: n_def Millisecond_def flip: d_def)
qed

section \<open>Compiling budgets\<close>

definition spec_ok :: "PoolSpec \<Rightarrow> bool" where
  "spec_ok s \<longleftrightarrow> spec_Name s \<noteq> [] \<and> Meter_Valid (spec_Meter s) \<and> Period_Valid (spec_Period s)
     \<and> 0 < spec_Limit s \<and> spec_Limit s * Meter_scale (spec_Meter s) \<le> MaxInt64"

definition pool_of :: "PoolSpec \<Rightarrow> Pool" where
  "pool_of s = \<lparr>pool_Name = spec_Name s, pool_Meter = spec_Meter s, pool_Period = spec_Period s,
     pool_Limit = spec_Limit s * Meter_scale (spec_Meter s)\<rparr>"

definition pool_ok :: "Pool \<Rightarrow> bool" where
  "pool_ok p \<longleftrightarrow> pool_Name p \<noteq> [] \<and> Meter_Valid (pool_Meter p) \<and> Period_Valid (pool_Period p)
     \<and> 0 < pool_Limit p \<and> pool_Limit p \<le> MaxInt64"

definition limits_ok :: "Limits \<Rightarrow> bool" where
  "limits_ok l \<longleftrightarrow> distinct (map pool_Name (pools l)) \<and> (\<forall>p \<in> set (pools l). pool_ok p)"

lemma too_large_iff:
  assumes "0 < scale" shows "go_div MaxInt64 scale < n \<longleftrightarrow> MaxInt64 < n * scale"
proof -
  let ?k = "MaxInt64 div scale"
  have k: "go_div MaxInt64 scale = ?k"
    using assms by (intro go_div_nonneg) (auto simp: MaxInt64_def)
  have b: "?k * scale \<le> MaxInt64" "MaxInt64 < (?k + 1) * scale"
    using pos_mod_bound [OF assms, of MaxInt64] pos_mod_sign [OF assms, of MaxInt64]
      div_mult_mod_eq [of MaxInt64 scale] unfolding distrib_right by linarith+
  show ?thesis
  proof (cases "?k < n")
    case True
    then have "(?k + 1) * scale \<le> n * scale" using assms by (intro mult_right_mono) auto
    with True b k show ?thesis by simp
  next
    case False
    then have "n * scale \<le> ?k * scale" using assms by (intro mult_right_mono) auto
    with False b k show ?thesis by simp
  qed
qed

lemma baseLimit_eq:
  assumes "Meter_Valid (spec_Meter s)" "0 < spec_Limit s"
  shows "baseLimit s =
    (if spec_Limit s * Meter_scale (spec_Meter s) \<le> MaxInt64
     then Inr (spec_Limit s * Meter_scale (spec_Meter s))
     else Inl (PoolLimitTooLarge (spec_Name s) (spec_Limit s) (Meter_Unit (spec_Meter s))))"
proof -
  have pos: "0 < spec_Limit s * Meter_scale (spec_Meter s)"
    using assms by (simp add: scale_pos)
  then have "wrap64 (spec_Limit s * Meter_scale (spec_Meter s)) = spec_Limit s * Meter_scale (spec_Meter s)"
    if "spec_Limit s * Meter_scale (spec_Meter s) \<le> MaxInt64"
    using that by (intro wrap64_id) (simp add: int64_def MaxInt64_def)
  with assms show ?thesis by (auto simp: baseLimit_def Let_def too_large_iff scale_pos)
qed

lemma compile_Inr:
  "compile s seen = Inr p \<longleftrightarrow> spec_Name s \<notin> seen \<and> spec_ok s \<and> p = pool_of s"
  by (auto simp: compile_def spec_ok_def baseLimit_eq pool_of_def split: sum.splits)

lemma compile_all_Inr:
  "compile_all specs seen acc = Inr ps \<longleftrightarrow>
     distinct (map spec_Name specs) \<and> spec_Name ` set specs \<inter> seen = {} \<and>
     (\<forall>s \<in> set specs. spec_ok s) \<and> ps = acc @ map pool_of specs"
proof (induction specs arbitrary: seen acc)
  case Nil
  then show ?case by auto
next
  case (Cons s specs)
  show ?case
  proof (cases "compile s seen")
    case (Inl e)
    then have "\<not> (spec_Name s \<notin> seen \<and> spec_ok s)"
      using compile_Inr [of s seen "pool_of s"] by auto
    with Inl show ?thesis by auto
  next
    case (Inr p)
    then have "spec_Name s \<notin> seen" "spec_ok s" "p = pool_of s" using compile_Inr by auto
    with Inr show ?thesis by (auto simp: Cons.IH pool_of_def)
  qed
qed

lemma NewLimits_Inr:
  "NewLimits specs = Inr l \<longleftrightarrow>
     distinct (map spec_Name specs) \<and> (\<forall>s \<in> set specs. spec_ok s) \<and> l = \<lparr>pools = map pool_of specs\<rparr>"
  by (auto simp: NewLimits_def no_limits_def compile_all_Inr split: sum.splits)
    (metis compile_all_Inr inf_bot_right append_Nil Inl_Inr_False)

lemma pool_of_ok: "spec_ok s \<Longrightarrow> pool_ok (pool_of s)"
  by (auto simp: spec_ok_def pool_ok_def pool_of_def scale_pos)

lemma pool_of_name [simp]: "pool_Name (pool_of s) = spec_Name s"
  by (simp add: pool_of_def)

lemma NewLimits_ok: "NewLimits specs = Inr l \<Longrightarrow> limits_ok l"
  by (auto simp: NewLimits_Inr limits_ok_def pool_of_ok comp_def)

section \<open>Charges, room and percentages\<close>

lemma Deltas_loop_other: "k \<notin> pool_Name ` set ps \<Longrightarrow> Deltas_loop ps e m k = m k"
  by (induction ps arbitrary: m) auto

lemma Deltas_loop_get:
  assumes "distinct (map pool_Name ps)" "p \<in> set ps"
  shows "Deltas_loop ps e m (pool_Name p) =
    (if 0 < Meter_charge (pool_Meter p) e then Some (Meter_charge (pool_Meter p) e) else m (pool_Name p))"
  using assms
proof (induction ps arbitrary: m)
  case (Cons q ps)
  then show ?case
    by (cases "p = q") (auto simp: Deltas_loop_other image_iff)
qed simp

lemma Deltas_get:
  assumes "limits_ok l" "p \<in> set (pools l)"
  shows "mget (Limits_Deltas l e) (pool_Name p) = max (Meter_charge (pool_Meter p) e) 0"
proof -
  have "pools l \<noteq> []" using assms(2) by auto
  then show ?thesis
    using assms Deltas_loop_get [of "pools l" p e Map.empty]
    by (simp add: Limits_Deltas_def limits_ok_def mget_def)
qed

lemma Deltas_dom: "k \<notin> pool_Name ` set (pools l) \<Longrightarrow> Limits_Deltas l e k = None"
  by (simp add: Limits_Deltas_def Deltas_loop_other)

lemma Deltas_loop_pos:
  "\<forall>v. m k = Some v \<longrightarrow> 0 < v \<Longrightarrow> Deltas_loop ps e m k = Some v \<Longrightarrow> 0 < v"
proof (induction ps arbitrary: m)
  case (Cons p ps)
  let ?m = "if 0 < Meter_charge (pool_Meter p) e
    then m(pool_Name p \<mapsto> Meter_charge (pool_Meter p) e) else m"
  have "\<forall>v. ?m k = Some v \<longrightarrow> 0 < v" using Cons.prems(1) by simp
  moreover have "Deltas_loop ps e ?m k = Some v" using Cons.prems(2) by simp
  ultimately show ?case by (rule Cons.IH)
qed simp

lemma Deltas_pos: "Limits_Deltas l e k = Some v \<Longrightarrow> 0 < v"
  using Deltas_loop_pos [of Map.empty k "pools l" e v]
  by (auto simp: Limits_Deltas_def split: if_splits)

text \<open>An execution whose charges and sums stay inside 64 bits.\<close>

definition no_overflow :: "Limits \<Rightarrow> PoolUsage \<Rightarrow> Execution \<Rightarrow> bool" where
  "no_overflow l usage e \<longleftrightarrow> (\<forall>p \<in> set (pools l).
     0 \<le> Meter_charge (pool_Meter p) e \<and> int64 (mget usage (pool_Name p) + Meter_charge (pool_Meter p) e))"

definition fits :: "PoolUsage \<Rightarrow> Execution \<Rightarrow> Pool \<Rightarrow> bool" where
  "fits usage e p \<longleftrightarrow> Meter_charge (pool_Meter p) e = 0 \<or>
     mget usage (pool_Name p) + Meter_charge (pool_Meter p) e \<le> pool_Limit p"

lemma exceeded_iff:
  "no_overflow l usage e \<Longrightarrow> p \<in> set (pools l) \<Longrightarrow> pool_exceeded usage e p \<longleftrightarrow> \<not> fits usage e p"
  by (auto simp: pool_exceeded_def fits_def no_overflow_def Let_def)

lemma charge_nonneg:
  assumes "max (ex_Memory e) 0 * millis e \<le> MaxInt64" "max (ex_CPU e) 0 * millis e \<le> MaxInt64"
  shows "0 \<le> Meter_charge m e"
proof -
  have "0 \<le> max (ex_Memory e) 0 * millis e" "0 \<le> max (ex_CPU e) 0 * millis e"
    by (simp_all add: millis_nonneg)
  then have "int64 (max (ex_Memory e) 0 * millis e)" "int64 (max (ex_CPU e) 0 * millis e)"
    "0 \<le> max (ex_Memory e) 0 * millis e" "0 \<le> max (ex_CPU e) 0 * millis e"
    using assms by (simp_all add: int64_def MaxInt64_def)
  then show ?thesis by (simp add: Meter_charge_def millis_nonneg)
qed

lemma FreePercent_loop_le: "FreePercent_loop ps usage e percent \<le> percent"
proof (induction ps arbitrary: percent)
  case (Cons p ps)
  then show ?case using Cons.IH [of "min percent (Pool_FreePercent p (mget usage (pool_Name p)))"]
    by (auto intro: order_trans)
qed simp

lemma le_FreePercent_loop:
  "k \<le> FreePercent_loop ps usage e percent \<longleftrightarrow> k \<le> percent \<and>
     (\<forall>p \<in> set ps. Meter_charge (pool_Meter p) e \<noteq> 0 \<longrightarrow>
        k \<le> Pool_FreePercent p (mget usage (pool_Name p)))"
  by (induction ps arbitrary: percent) auto

lemma Pool_FreePercent_eq:
  assumes "0 < pool_Limit p" "pool_Limit p * 100 \<le> MaxInt64" "int64 used"
  shows "Pool_FreePercent p used =
    (if used \<le> 0 then 100 else max (pool_Limit p - used) 0 * 100 div pool_Limit p)"
proof (cases "used \<le> 0")
  case False
  then have "int64 (pool_Limit p - used)" using assms by (simp add: int64_def MaxInt64_def)
  then have r: "Pool_Remaining p used = max (pool_Limit p - used) 0" by (simp add: Pool_Remaining_def)
  have "int64 (max (pool_Limit p - used) 0 * 100)"
    using False assms by (simp add: int64_def MaxInt64_def max_def)
  then show ?thesis using False assms(1) by (simp add: Pool_FreePercent_def r go_div_nonneg)
qed (simp add: Pool_FreePercent_def)

lemma Pool_FreePercent_range:
  assumes "0 < pool_Limit p" "pool_Limit p * 100 \<le> MaxInt64" "int64 used"
  shows "0 \<le> Pool_FreePercent p used" and "Pool_FreePercent p used \<le> 100"
proof -
  have "max (pool_Limit p - used) 0 * 100 div pool_Limit p \<le> 100" if "0 < used"
  proof -
    have "max (pool_Limit p - used) 0 * 100 \<le> 100 * pool_Limit p" using that assms by (simp add: max_def)
    from zdiv_mono1 [OF this assms(1)] assms(1) show ?thesis by simp
  qed
  moreover have "0 \<le> max (pool_Limit p - used) 0 * 100 div pool_Limit p"
    using assms(1) by (simp add: pos_imp_zdiv_nonneg_iff)
  ultimately show "0 \<le> Pool_FreePercent p used" and "Pool_FreePercent p used \<le> 100"
    by (auto simp: Pool_FreePercent_eq [OF assms])
qed

text \<open>Pools whose percentage cannot overflow, as every realistic limit is.\<close>

definition percent_safe :: "Limits \<Rightarrow> PoolUsage \<Rightarrow> bool" where
  "percent_safe l usage \<longleftrightarrow> (\<forall>p \<in> set (pools l). 0 < pool_Limit p \<and>
     pool_Limit p * 100 \<le> MaxInt64 \<and> int64 (mget usage (pool_Name p)))"

lemma FreePercent_range:
  assumes "percent_safe l usage"
  shows "0 \<le> Limits_FreePercent l usage e" and "Limits_FreePercent l usage e \<le> 100"
proof -
  have "0 \<le> FreePercent_loop ps usage e n" if "set ps \<subseteq> set (pools l)" "0 \<le> n" for ps n
    using that
  proof (induction ps arbitrary: n)
    case (Cons p ps)
    then have "0 \<le> Pool_FreePercent p (mget usage (pool_Name p))"
      using assms by (intro Pool_FreePercent_range(1)) (auto simp: percent_safe_def)
    with Cons show ?case by simp
  qed simp
  then show "0 \<le> Limits_FreePercent l usage e" by (simp add: Limits_FreePercent_def)
  show "Limits_FreePercent l usage e \<le> 100" by (simp add: Limits_FreePercent_def FreePercent_loop_le)
qed

section \<open>Properties\<close>

text \<open>A set of declared pools compiles exactly when the pools have different names and each one
  is well formed: a name, a known meter and period, a positive limit that fits in an \<open>int64\<close> once
  scaled to the meter's base unit.  Compiling keeps the declared order.\<close>

theorem limits_compile_iff:
  "NewLimits specs = Inr l \<longleftrightarrow>
     distinct (map spec_Name specs) \<and> (\<forall>s \<in> set specs. spec_ok s) \<and> l = \<lparr>pools = map pool_of specs\<rparr>"
  by (rule NewLimits_Inr)

theorem limits_compile_iff_witness:
  "NewLimits [\<lparr>spec_Name = ''runs'', spec_Meter = MeterExecutions, spec_Limit = 10, spec_Period = PeriodDaily\<rparr>]
    = Inr \<lparr>pools = [\<lparr>pool_Name = ''runs'', pool_Meter = MeterExecutions, pool_Period = PeriodDaily, pool_Limit = 10\<rparr>]\<rparr>"
  unfolding limits_compile_iff by code_simp

text \<open>An execution is within a provider's limits exactly when every pool has room for what
  the pool's meter charges it, or the meter charges it nothing.\<close>

theorem within_limits_iff:
  assumes "no_overflow l usage e"
  shows "Limits_Within l usage e \<longleftrightarrow> (\<forall>p \<in> set (pools l). fits usage e p)"
  using exceeded_iff [OF assms] by (auto simp: Limits_Within_def Limits_Exceeded_def)

theorem within_limits_iff_witness:
  "Limits_Within \<lparr>pools = [\<lparr>pool_Name = ''runs'', pool_Meter = MeterExecutions, pool_Period = PeriodDaily, pool_Limit = 10\<rparr>]\<rparr>
     [''runs'' \<mapsto> 9] \<lparr>ex_CPU = 0, ex_Memory = 0, ex_Duration = 0\<rparr>"
proof -
  let ?l = "\<lparr>pools = [\<lparr>pool_Name = ''runs'', pool_Meter = MeterExecutions, pool_Period = PeriodDaily, pool_Limit = 10\<rparr>]\<rparr>"
    and ?e = "\<lparr>ex_CPU = 0, ex_Memory = 0, ex_Duration = 0\<rparr>"
  have "no_overflow ?l [''runs'' \<mapsto> 9] ?e" by code_simp
  from within_limits_iff [OF this] show ?thesis by (simp add: fits_def) code_simp
qed

text \<open>Billed milliseconds round a duration up, exactly, for every duration below 99 days, although
  the code computes them in floating point.\<close>

theorem milliseconds_round_up:
  assumes "0 < ex_Duration e" "ex_Duration e \<le> 8589934592 * Millisecond"
  shows "millis e = (ex_Duration e + (Millisecond - 1)) div Millisecond \<and>
    ex_Duration e \<le> millis e * Millisecond \<and> (millis e - 1) * Millisecond < ex_Duration e"
proof -
  have m: "millis e = (ex_Duration e + (Millisecond - 1)) div Millisecond" by (rule millis_exact [OF assms])
  then show ?thesis by (simp add: Millisecond_def) linarith
qed

theorem milliseconds_round_up_witness:
  "millis \<lparr>ex_CPU = 0, ex_Memory = 0, ex_Duration = 1000001\<rparr> = 2"
  using milliseconds_round_up [of "\<lparr>ex_CPU = 0, ex_Memory = 0, ex_Duration = 1000001\<rparr>"]
  by (simp add: Millisecond_def)

text \<open>The free share of a provider is a percentage: between 0 and 100, and never above that of any
  pool the execution draws on.\<close>

theorem free_percent_range:
  assumes "percent_safe l usage"
  shows "0 \<le> Limits_FreePercent l usage e \<and> Limits_FreePercent l usage e \<le> 100 \<and>
    (\<forall>p \<in> set (pools l). Meter_charge (pool_Meter p) e \<noteq> 0 \<longrightarrow>
      Limits_FreePercent l usage e \<le> Pool_FreePercent p (mget usage (pool_Name p)))"
  using FreePercent_range [OF assms, of e] le_FreePercent_loop [of "Limits_FreePercent l usage e" "pools l" usage e 100]
  by (auto simp: Limits_FreePercent_def)

theorem free_percent_range_witness:
  "Limits_FreePercent \<lparr>pools = [\<lparr>pool_Name = ''runs'', pool_Meter = MeterExecutions, pool_Period = PeriodDaily, pool_Limit = 10\<rparr>]\<rparr>
     [''runs'' \<mapsto> 9] \<lparr>ex_CPU = 0, ex_Memory = 0, ex_Duration = 0\<rparr> \<le> 100"
proof -
  have "percent_safe \<lparr>pools = [\<lparr>pool_Name = ''runs'', pool_Meter = MeterExecutions, pool_Period = PeriodDaily, pool_Limit = 10\<rparr>]\<rparr>
     [''runs'' \<mapsto> 9]" by code_simp
  from free_percent_range [OF this] show ?thesis by blast
qed

text \<open>Two instants share a daily usage counter exactly when they lie on the same UTC day, and a
  monthly one exactly when they lie in the same UTC month; a daily key is never a monthly one.\<close>

theorem period_keys:
  assumes "0 \<le> t" "0 \<le> u"
  shows "(Period_Key PeriodDaily t = Period_Key PeriodDaily u \<longleftrightarrow> day_of t = day_of u) \<and>
    (Period_Key PeriodMonthly t = Period_Key PeriodMonthly u \<longleftrightarrow> month_of t = month_of u) \<and>
    Period_Key PeriodDaily t \<noteq> Period_Key PeriodMonthly u"
proof -
  have "Format_daily t \<noteq> Format_monthly u"
    using Format_daily_dashes [OF assms(1)] Format_monthly_dashes [OF assms(2)] by auto
  then show ?thesis
    using Format_daily_iff [OF assms] Format_monthly_iff [OF assms] by (simp add: Period_Key_def)
qed

theorem period_keys_witness:
  "Period_Key PeriodDaily 0 = Period_Key PeriodDaily 86399999999999 \<and>
    Period_Key PeriodDaily 0 \<noteq> Period_Key PeriodDaily 86400000000000"
proof -
  have "day_of 0 = day_of 86399999999999" "day_of 0 \<noteq> day_of 86400000000000"
    by (simp_all add: day_of_def dayNanos_def)
  then show ?thesis using period_keys [of 0 86399999999999] period_keys [of 0 86400000000000] by simp
qed

end
