(* ===== verification/Execution.thy ===== *)
theory Execution
  imports Quota
begin

text \<open>
  \<^verbatim>\<open>internal/execution\<close>: the lifecycle of one dispatched task.  A state is the string the
  code persists; the vocabulary, the terminal states and the transition table are the code's
  lists.  \<open>Status_To\<close> is the only checked path from one state to the next, and it keeps the
  timestamps in agreement with the state.  Identifiers are 128-bit words with the zero UUID as 0;
  their text form belongs to the UUID package and is a parameter where the code sorts by it.
\<close>

type_synonym State = string
type_synonym ID = "128 word"

section \<open>States\<close>

definition StatePending :: State where [vocab]: "StatePending = ''pending''"
definition StateSubmitted :: State where [vocab]: "StateSubmitted = ''submitted''"
definition StateAccepted :: State where [vocab]: "StateAccepted = ''accepted''"
definition StateRunning :: State where [vocab]: "StateRunning = ''running''"
definition StateSucceeded :: State where [vocab]: "StateSucceeded = ''succeeded''"
definition StateFailed :: State where [vocab]: "StateFailed = ''failed''"
definition StateCancelled :: State where [vocab]: "StateCancelled = ''cancelled''"
definition StateLost :: State where [vocab]: "StateLost = ''lost''"

lemmas state_consts = StatePending_def StateSubmitted_def StateAccepted_def StateRunning_def
  StateSucceeded_def StateFailed_def StateCancelled_def StateLost_def

definition stateNames :: "State list" where
  "stateNames = [StatePending, StateSubmitted, StateAccepted, StateRunning, StateSucceeded,
     StateFailed, StateCancelled, StateLost]"

definition terminalStates :: "State list" where
  "terminalStates = [StateSucceeded, StateFailed, StateCancelled]"

definition legalTransitions :: "State \<Rightarrow> State list" where
  "legalTransitions s =
     (if s = StatePending then [StateSubmitted, StateFailed, StateCancelled]
      else if s = StateSubmitted then
        [StateAccepted, StateRunning, StateSucceeded, StateFailed, StateCancelled, StateLost]
      else if s = StateAccepted then
        [StateRunning, StateSucceeded, StateFailed, StateCancelled, StateLost]
      else if s = StateRunning then [StateSucceeded, StateFailed, StateCancelled, StateLost]
      else if s = StateLost then [StateSucceeded, StateFailed, StateCancelled]
      else [])"

definition State_Valid :: "State \<Rightarrow> bool" where
  "State_Valid s \<longleftrightarrow> s \<in> set stateNames"

definition State_Terminal :: "State \<Rightarrow> bool" where
  "State_Terminal s \<longleftrightarrow> s \<in> set terminalStates"

datatype state_error = ErrUnknownState string | ErrIllegalTransition State State

definition ParseState :: "string \<Rightarrow> state_error + State" where
  "ParseState s = (if State_Valid s then Inr s else Inl (ErrUnknownState s))"

definition State_MarshalText :: "State \<Rightarrow> state_error + string" where
  "State_MarshalText s = (if State_Valid s then Inr s else Inl (ErrUnknownState s))"

definition State_UnmarshalText :: "State \<Rightarrow> string \<Rightarrow> state_error option \<times> State" where
  "State_UnmarshalText old text =
     (case ParseState text of Inl e \<Rightarrow> (Some e, old) | Inr s \<Rightarrow> (None, s))"

definition CanTransition :: "State \<Rightarrow> State \<Rightarrow> bool" where
  "CanTransition s next_state \<longleftrightarrow> next_state \<in> set (legalTransitions s)"

definition Transition :: "State \<Rightarrow> State \<Rightarrow> state_error option" where
  "Transition s next_state =
     (if \<not> State_Valid s then Some (ErrUnknownState s)
      else if \<not> State_Valid next_state then Some (ErrUnknownState next_state)
      else if \<not> CanTransition s next_state then Some (ErrIllegalTransition s next_state)
      else None)"

section \<open>Status\<close>

definition LostGracePeriod :: Duration where "LostGracePeriod = 24 * Hour"

record Status =
  st_ID :: ID
  st_State :: State
  st_ProviderID :: string
  st_StartedAt :: Time
  st_EndedAt :: Time
  st_UpdatedAt :: Time

definition Status_To :: "State \<Rightarrow> Time \<Rightarrow> 'a Status_scheme \<Rightarrow> state_error + 'a Status_scheme" where
  "Status_To next_state now s =
     (case Transition (st_State s) next_state of
        Some e \<Rightarrow> Inl e
      | None \<Rightarrow>
          (let s = s\<lparr>st_State := next_state, st_UpdatedAt := now\<rparr>;
               s = (if next_state = StateRunning \<and> Time_IsZero (st_StartedAt s)
                    then s\<lparr>st_StartedAt := now\<rparr> else s);
               s = (if State_Terminal next_state then s\<lparr>st_EndedAt := now\<rparr> else s)
           in Inr s))"

definition Status_Terminal :: "'a Status_scheme \<Rightarrow> bool" where
  "Status_Terminal s \<longleftrightarrow> State_Terminal (st_State s)"

definition ConsumedCapacity :: "'a Status_scheme \<Rightarrow> bool" where
  "ConsumedCapacity s \<longleftrightarrow> \<not> Time_IsZero (st_StartedAt s) \<or> st_State s = StateLost"

definition LostExpired :: "'a Status_scheme \<Rightarrow> Time \<Rightarrow> bool" where
  "LostExpired s now \<longleftrightarrow>
     (if st_State s \<noteq> StateLost then False else LostGracePeriod \<le> Time_Sub now (st_UpdatedAt s))"

section \<open>Results and records\<close>

record Result =
  res_ID :: ID
  res_ExitCode :: "int option"
  res_Duration :: Duration
  res_Billed :: "Execution option"
  res_Logs :: string
  res_LogsTruncated :: bool

definition MaxStoredLogs :: nat where "MaxStoredLogs = 65536"

definition Bounded :: "Result option \<Rightarrow> Result option" where
  "Bounded r =
     (case r of
        None \<Rightarrow> None
      | Some out \<Rightarrow>
          Some (if MaxStoredLogs < length (res_Logs out)
                then out\<lparr>res_Logs := drop (length (res_Logs out) - MaxStoredLogs) (res_Logs out),
                         res_LogsTruncated := True\<rparr>
                else out))"

record Record = Status +
  rec_Namespace :: string
  rec_Job :: string
  rec_JobVersion :: int
  rec_Dispatch :: ID
  rec_Task :: string
  rec_Provider :: string
  rec_Attempt :: int
  rec_Previous :: ID
  rec_CPU :: int
  rec_Memory :: int
  rec_Result :: "Result option"
  rec_Failure :: string
  rec_Released :: Time

section \<open>Dispatches\<close>

type_synonym DispatchState = string

definition DispatchRunning :: DispatchState where [vocab]: "DispatchRunning = ''running''"
definition DispatchSucceeded :: DispatchState where [vocab]: "DispatchSucceeded = ''succeeded''"
definition DispatchFailed :: DispatchState where [vocab]: "DispatchFailed = ''failed''"
definition DispatchUnanswered :: DispatchState where [vocab]: "DispatchUnanswered = ''unanswered''"

record Dispatch =
  dis_ID :: ID
  dis_Namespace :: string
  dis_Job :: string
  dis_JobVersion :: int
  dis_Tasks :: int
  dis_State :: DispatchState
  dis_Error :: string
  dis_Owner :: string
  dis_LeaseUntil :: Time
  dis_Created :: Time
  dis_Ended :: Time

section \<open>The state machine\<close>

lemma state_distinct [simp]:
  "StatePending \<noteq> StateSubmitted" "StatePending \<noteq> StateAccepted" "StatePending \<noteq> StateRunning" "StatePending \<noteq> StateSucceeded" "StatePending \<noteq> StateFailed" "StatePending \<noteq> StateCancelled" "StatePending \<noteq> StateLost"
  "StateSubmitted \<noteq> StatePending" "StateSubmitted \<noteq> StateAccepted" "StateSubmitted \<noteq> StateRunning" "StateSubmitted \<noteq> StateSucceeded" "StateSubmitted \<noteq> StateFailed" "StateSubmitted \<noteq> StateCancelled" "StateSubmitted \<noteq> StateLost"
  "StateAccepted \<noteq> StatePending" "StateAccepted \<noteq> StateSubmitted" "StateAccepted \<noteq> StateRunning" "StateAccepted \<noteq> StateSucceeded" "StateAccepted \<noteq> StateFailed" "StateAccepted \<noteq> StateCancelled" "StateAccepted \<noteq> StateLost"
  "StateRunning \<noteq> StatePending" "StateRunning \<noteq> StateSubmitted" "StateRunning \<noteq> StateAccepted" "StateRunning \<noteq> StateSucceeded" "StateRunning \<noteq> StateFailed" "StateRunning \<noteq> StateCancelled" "StateRunning \<noteq> StateLost"
  "StateSucceeded \<noteq> StatePending" "StateSucceeded \<noteq> StateSubmitted" "StateSucceeded \<noteq> StateAccepted" "StateSucceeded \<noteq> StateRunning" "StateSucceeded \<noteq> StateFailed" "StateSucceeded \<noteq> StateCancelled" "StateSucceeded \<noteq> StateLost"
  "StateFailed \<noteq> StatePending" "StateFailed \<noteq> StateSubmitted" "StateFailed \<noteq> StateAccepted" "StateFailed \<noteq> StateRunning" "StateFailed \<noteq> StateSucceeded" "StateFailed \<noteq> StateCancelled" "StateFailed \<noteq> StateLost"
  "StateCancelled \<noteq> StatePending" "StateCancelled \<noteq> StateSubmitted" "StateCancelled \<noteq> StateAccepted" "StateCancelled \<noteq> StateRunning" "StateCancelled \<noteq> StateSucceeded" "StateCancelled \<noteq> StateFailed" "StateCancelled \<noteq> StateLost"
  "StateLost \<noteq> StatePending" "StateLost \<noteq> StateSubmitted" "StateLost \<noteq> StateAccepted" "StateLost \<noteq> StateRunning" "StateLost \<noteq> StateSucceeded" "StateLost \<noteq> StateFailed" "StateLost \<noteq> StateCancelled"
  by (simp_all add: state_consts)

lemma dispatch_distinct [simp]:
  "DispatchRunning \<noteq> DispatchSucceeded" "DispatchRunning \<noteq> DispatchFailed"
  "DispatchRunning \<noteq> DispatchUnanswered" "DispatchSucceeded \<noteq> DispatchRunning"
  "DispatchSucceeded \<noteq> DispatchFailed" "DispatchSucceeded \<noteq> DispatchUnanswered"
  "DispatchFailed \<noteq> DispatchRunning" "DispatchFailed \<noteq> DispatchSucceeded"
  "DispatchFailed \<noteq> DispatchUnanswered" "DispatchUnanswered \<noteq> DispatchRunning"
  "DispatchUnanswered \<noteq> DispatchSucceeded" "DispatchUnanswered \<noteq> DispatchFailed"
  by (simp_all add: DispatchRunning_def DispatchSucceeded_def DispatchFailed_def DispatchUnanswered_def)

lemma valid_states [simp]:
  "State_Valid StatePending" "State_Valid StateSubmitted" "State_Valid StateAccepted"
  "State_Valid StateRunning" "State_Valid StateSucceeded" "State_Valid StateFailed"
  "State_Valid StateCancelled" "State_Valid StateLost"
  by (simp_all add: State_Valid_def stateNames_def)

lemma terminal_states [simp]:
  "\<not> State_Terminal StatePending" "\<not> State_Terminal StateSubmitted" "\<not> State_Terminal StateAccepted"
  "\<not> State_Terminal StateRunning" "\<not> State_Terminal StateLost"
  "State_Terminal StateSucceeded" "State_Terminal StateFailed" "State_Terminal StateCancelled"
  by (simp_all add: State_Terminal_def terminalStates_def)

lemma terminal_iff:
  "State_Terminal s \<longleftrightarrow> s = StateSucceeded \<or> s = StateFailed \<or> s = StateCancelled"
  by (auto simp: State_Terminal_def terminalStates_def)

lemma valid_iff:
  "State_Valid s \<longleftrightarrow> s = StatePending \<or> s = StateSubmitted \<or> s = StateAccepted \<or> s = StateRunning
     \<or> s = StateSucceeded \<or> s = StateFailed \<or> s = StateCancelled \<or> s = StateLost"
  by (auto simp: State_Valid_def stateNames_def)

lemma CanTransition_iff:
  "CanTransition s n \<longleftrightarrow>
     (s = StatePending \<and> n \<in> {StateSubmitted, StateFailed, StateCancelled} \<or>
      s = StateSubmitted \<and> n \<in> {StateAccepted, StateRunning, StateSucceeded, StateFailed, StateCancelled, StateLost} \<or>
      s = StateAccepted \<and> n \<in> {StateRunning, StateSucceeded, StateFailed, StateCancelled, StateLost} \<or>
      s = StateRunning \<and> n \<in> {StateSucceeded, StateFailed, StateCancelled, StateLost} \<or>
      s = StateLost \<and> n \<in> {StateSucceeded, StateFailed, StateCancelled})"
  by (auto simp: CanTransition_def legalTransitions_def split: if_splits)

lemma CanTransition_valid: "CanTransition s n \<Longrightarrow> State_Valid s \<and> State_Valid n"
  by (auto simp: CanTransition_iff)

lemma Transition_None: "Transition s n = None \<longleftrightarrow> CanTransition s n"
  using CanTransition_valid by (auto simp: Transition_def)

text \<open>Every legal step moves strictly forward in this order, so the machine is acyclic.\<close>

definition state_rank :: "State \<Rightarrow> nat" where
  "state_rank s =
     (if s = StatePending then 0 else if s = StateSubmitted then 1 else if s = StateAccepted then 2
      else if s = StateRunning then 3 else if s = StateLost then 4 else 5)"

lemma rank_le: "state_rank s \<le> 5"
  by (simp add: state_rank_def)

lemma step_rank: "CanTransition s n \<Longrightarrow> state_rank s < state_rank n"
  by (auto simp: CanTransition_iff state_rank_def)

lemma steps_rank: "CanTransition\<^sup>+\<^sup>+ s n \<Longrightarrow> state_rank s < state_rank n"
  by (induction rule: tranclp.induct) (auto dest: step_rank)

lemma relpow_rank: "(CanTransition ^^ k) s n \<Longrightarrow> state_rank s + k \<le> state_rank n"
proof (induction k arbitrary: n)
  case (Suc k)
  then obtain m where "(CanTransition ^^ k) s m" "CanTransition m n" by auto
  with Suc.IH [of m] step_rank [of m n] show ?case by simp
qed simp

lemma terminal_stuck: "State_Valid s \<Longrightarrow> State_Terminal s \<longleftrightarrow> (\<forall>n. \<not> CanTransition s n)"
  unfolding valid_iff CanTransition_iff by (elim disjE) auto

section \<open>Status changes\<close>

lemma Status_To_Inl: "Status_To n now s = Inl e \<longleftrightarrow> Transition (st_State s) n = Some e"
  by (auto simp: Status_To_def Let_def split: option.splits)

lemma Status_To_Inr:
  "Status_To n now s = Inr s' \<longleftrightarrow> CanTransition (st_State s) n \<and>
     s' = s\<lparr>st_State := n, st_UpdatedAt := now,
            st_StartedAt := (if n = StateRunning \<and> st_StartedAt s = 0 then now else st_StartedAt s),
            st_EndedAt := (if State_Terminal n then now else st_EndedAt s)\<rparr>"
proof (cases "Transition (st_State s) n")
  case None
  then have "CanTransition (st_State s) n" by (simp add: Transition_None)
  moreover have "Status_To n now s = Inr (s\<lparr>st_State := n, st_UpdatedAt := now,
            st_StartedAt := (if n = StateRunning \<and> st_StartedAt s = 0 then now else st_StartedAt s),
            st_EndedAt := (if State_Terminal n then now else st_EndedAt s)\<rparr>)"
    using None by (cases s) (simp add: Status_To_def Let_def Time_IsZero_def)
  ultimately show ?thesis by auto
next
  case (Some e)
  then have "\<not> CanTransition (st_State s) n" by (simp flip: Transition_None)
  with Some show ?thesis by (simp add: Status_To_def)
qed

lemmas Status_To_simps = Status_To_Inl Status_To_Inr

text \<open>
  The states a status can be in: it starts pending with no start or end time, and every
  change goes through \<open>Status_To\<close> at a clock that has started and does not run backwards.
\<close>

inductive status_reach :: "Status \<Rightarrow> bool" where
  fresh: "0 < now \<Longrightarrow>
    status_reach \<lparr>st_ID = i, st_State = StatePending, st_ProviderID = p, st_StartedAt = 0,
      st_EndedAt = 0, st_UpdatedAt = now\<rparr>"
| changed: "status_reach s \<Longrightarrow> st_UpdatedAt s \<le> now \<Longrightarrow> Status_To n now s = Inr s' \<Longrightarrow> status_reach s'"
| provider_id: "status_reach s \<Longrightarrow> status_reach (s\<lparr>st_ProviderID := p\<rparr>)"

definition status_ok :: "'a Status_scheme \<Rightarrow> bool" where
  "status_ok s \<longleftrightarrow> State_Valid (st_State s) \<and> 0 < st_UpdatedAt s \<and>
     (if State_Terminal (st_State s) then st_EndedAt s = st_UpdatedAt s else st_EndedAt s = 0) \<and>
     0 \<le> st_StartedAt s \<and> st_StartedAt s \<le> st_UpdatedAt s \<and>
     (st_State s = StateRunning \<longrightarrow> 0 < st_StartedAt s) \<and>
     (st_State s \<in> {StatePending, StateSubmitted, StateAccepted} \<longrightarrow> st_StartedAt s = 0)"

lemma CanTransition_facts:
  assumes "CanTransition s n"
  shows "\<not> State_Terminal s" "State_Valid n" "n \<noteq> StatePending"
    "n \<in> {StateSubmitted, StateAccepted} \<Longrightarrow> s \<in> {StatePending, StateSubmitted}"
    "n = StateRunning \<Longrightarrow> s \<in> {StateSubmitted, StateAccepted}"
  using assms unfolding CanTransition_iff by auto

lemma Status_To_ok:
  assumes "status_ok s" "st_UpdatedAt s \<le> now" "Status_To n now s = Inr s'"
  shows "status_ok s'"
proof -
  from assms(3) have can: "CanTransition (st_State s) n" by (simp add: Status_To_Inr)
  note facts = CanTransition_facts [OF can]
  from assms(3) have f: "st_State s' = n" "st_UpdatedAt s' = now"
    "st_StartedAt s' = (if n = StateRunning \<and> st_StartedAt s = 0 then now else st_StartedAt s)"
    "st_EndedAt s' = (if State_Terminal n then now else st_EndedAt s)"
    by (simp_all add: Status_To_Inr)
  have "st_EndedAt s = 0" "0 < now" "0 \<le> st_StartedAt s" "st_StartedAt s \<le> now"
    using assms(1,2) facts(1) by (simp_all add: status_ok_def)
  moreover have "n \<in> {StatePending, StateSubmitted, StateAccepted} \<longrightarrow> st_StartedAt s = 0"
    using assms(1) facts(3,4) by (auto simp: status_ok_def)
  ultimately show ?thesis
    unfolding status_ok_def f using facts(2) by (cases "n = StateRunning"; cases "st_StartedAt s = 0") auto
qed

lemma status_reach_ok: "status_reach s \<Longrightarrow> status_ok s"
proof (induction rule: status_reach.induct)
  case (fresh now i p)
  then show ?case by (simp add: status_ok_def)
next
  case (changed s now n s')
  then show ?case by (blast intro: Status_To_ok)
next
  case (provider_id s p)
  then show ?case by (simp add: status_ok_def)
qed

section \<open>Bounded output\<close>

lemma Bounded_None [simp]: "Bounded None = None"
  by (simp add: Bounded_def)

lemma Bounded_length: "Bounded r = Some out \<Longrightarrow> length (res_Logs out) \<le> MaxStoredLogs"
  by (auto simp: Bounded_def split: option.splits if_splits)

lemma Bounded_idem [simp]: "Bounded (Bounded r) = Bounded r"
  by (auto simp: Bounded_def split: option.split)

lemma Bounded_is_None [simp]: "Bounded r = None \<longleftrightarrow> r = None"
  by (auto simp: Bounded_def split: option.split)

lemma Bounded_tail:
  "Bounded (Some r) = Some out \<Longrightarrow> \<exists>front. res_Logs r = front @ res_Logs out \<and>
     (front = [] \<longrightarrow> out = r) \<and> (front \<noteq> [] \<longrightarrow> res_LogsTruncated out)"
proof -
  assume b: "Bounded (Some r) = Some out"
  let ?k = "length (res_Logs r) - MaxStoredLogs"
  show ?thesis
  proof (cases "MaxStoredLogs < length (res_Logs r)")
    case True
    with b have "res_Logs r = take ?k (res_Logs r) @ res_Logs out" "take ?k (res_Logs r) \<noteq> []"
      "res_LogsTruncated out"
      by (auto simp: Bounded_def)
    then show ?thesis by blast
  next
    case False
    with b show ?thesis by (intro exI [of _ "[]"]) (simp add: Bounded_def)
  qed
qed

section \<open>Properties\<close>

text \<open>A status that starts pending and changes only through \<open>Status_To\<close> is always in a
  declared state; it has an end time exactly when its state is terminal, a start time whenever it
  runs, and never started after it was last updated.\<close>

theorem status_invariant:
  assumes "status_reach s"
  shows "State_Valid (st_State s) \<and> (State_Terminal (st_State s) \<longleftrightarrow> st_EndedAt s \<noteq> 0) \<and>
    (st_State s = StateRunning \<longrightarrow> st_StartedAt s \<noteq> 0) \<and> st_StartedAt s \<le> st_UpdatedAt s"
  using status_reach_ok [OF assms] by (auto simp: status_ok_def split: if_splits)

theorem status_invariant_witness:
  "State_Valid StateSubmitted \<and> \<not> State_Terminal StateSubmitted"
proof -
  have "status_reach \<lparr>st_ID = 1, st_State = StatePending, st_ProviderID = ''p'', st_StartedAt = 0,
      st_EndedAt = 0, st_UpdatedAt = 3\<rparr>" by (rule status_reach.fresh) simp
  from status_reach.changed [OF this, of 5 StateSubmitted "\<lparr>st_ID = 1, st_State = StateSubmitted,
      st_ProviderID = ''p'', st_StartedAt = 0, st_EndedAt = 0, st_UpdatedAt = 5\<rparr>"]
  have "status_reach \<lparr>st_ID = 1, st_State = StateSubmitted, st_ProviderID = ''p'', st_StartedAt = 0,
      st_EndedAt = 0, st_UpdatedAt = 5\<rparr>"
    by (simp add: Status_To_Inr CanTransition_iff terminal_iff)
  from status_invariant [OF this] show ?thesis by simp
qed

text \<open>The state machine has no cycle and no path longer than five transitions: no sequence of
  legal transitions returns to a state it left, and a terminal state is one that nothing follows.\<close>

theorem state_machine_acyclic:
  assumes "CanTransition\<^sup>+\<^sup>+ s t"
  shows "s \<noteq> t \<and> \<not> State_Terminal s \<and> (\<forall>k. (CanTransition ^^ k) s t \<longrightarrow> k \<le> 5) \<and>
    (State_Terminal t \<longleftrightarrow> (\<forall>n. \<not> CanTransition t n))"
proof -
  have "State_Valid t" using assms by (induction rule: tranclp.induct) (auto dest: CanTransition_valid)
  moreover have "\<not> State_Terminal s" using assms
    by (induction rule: converse_tranclp_induct) (auto dest: CanTransition_facts(1))
  moreover have "k \<le> 5" if "(CanTransition ^^ k) s t" for k
    using relpow_rank [OF that] rank_le [of t] by simp
  ultimately show ?thesis using steps_rank [OF assms] terminal_stuck by auto
qed

theorem state_machine_acyclic_witness:
  "StatePending \<noteq> StateSubmitted \<and> \<not> (CanTransition ^^ 6) StatePending StateSubmitted"
proof -
  have "CanTransition\<^sup>+\<^sup>+ StatePending StateSubmitted" by (simp add: CanTransition_iff tranclp.r_into_trancl)
  from state_machine_acyclic [OF this] have "StatePending \<noteq> StateSubmitted"
    "\<And>k. (CanTransition ^^ k) StatePending StateSubmitted \<Longrightarrow> k \<le> 5" by blast+
  from this(1) this(2) [of 6] show ?thesis by fastforce
qed

text \<open>What is stored of an execution's output is its tail, at most 64 KiB, marked as truncated
  exactly when something was cut off; storing it again changes nothing.\<close>

theorem stored_output_bounded:
  assumes "Bounded (Some r) = Some out"
  shows "length (res_Logs out) \<le> MaxStoredLogs \<and> Bounded (Some out) = Some out \<and>
    (\<exists>front. res_Logs r = front @ res_Logs out \<and> (if front = [] then out = r else res_LogsTruncated out))"
proof -
  have "Bounded (Some out) = Some out" using Bounded_idem [of "Some r"] assms by simp
  then show ?thesis using Bounded_length [OF assms] Bounded_tail [OF assms] by auto
qed

theorem stored_output_bounded_witness:
  "length ''ok'' \<le> MaxStoredLogs \<and> (\<exists>front. ''ok'' = front @ ''ok'')"
proof -
  let ?r = "\<lparr>res_ID = 0, res_ExitCode = Some 0, res_Duration = 1, res_Billed = None, res_Logs = ''ok'',
    res_LogsTruncated = False\<rparr>"
  have "Bounded (Some ?r) = Some ?r" by (simp add: Bounded_def MaxStoredLogs_def)
  from stored_output_bounded [OF this] show ?thesis by auto
qed

end
