(* ===== verification/GoTime.thy ===== *)
theory GoTime
  imports Float64 Strconv
begin

text \<open>
  The conversions between text and durations (\<^verbatim>\<open>time.ParseDuration\<close>,
  \<^verbatim>\<open>Duration.String\<close>) and between text and floating point (\<^verbatim>\<open>strconv.ParseFloat\<close>) the
  code relies on, on byte strings.  Intermediate sums are unsigned 64-bit, as in the library.
\<close>

section \<open>Parsing durations\<close>

definition two63 :: nat where "two63 = 9223372036854775808"

fun leadingInt :: "string \<Rightarrow> nat \<Rightarrow> (nat \<times> string) option" where
  "leadingInt [] x = Some (x, [])"
| "leadingInt (c # s) x =
     (if \<not> is_digit c then Some (x, c # s)
      else if two63 div 10 < x then None
      else if two63 < 10 * x + digit_val c then None
      else leadingInt s (10 * x + digit_val c))"

fun leadingFraction :: "string \<Rightarrow> nat \<Rightarrow> rat \<Rightarrow> bool \<Rightarrow> nat \<times> rat \<times> string" where
  "leadingFraction [] x scale overflow = (x, scale, [])"
| "leadingFraction (c # s) x scale overflow =
     (if \<not> is_digit c then (x, scale, c # s)
      else if overflow \<or> (two63 - 1) div 10 < x \<or> two63 < 10 * x + digit_val c
        then leadingFraction s x scale True
      else leadingFraction s (10 * x + digit_val c) (fl_mul scale 10) False)"

definition unitMap :: "string \<Rightarrow> nat option" where
  "unitMap u =
     (if u = ''ns'' then Some 1
      else if u = [CHR 0xC2, CHR 0xB5, CHR ''s''] then Some 1000
      else if u = [CHR 0xCE, CHR 0xBC, CHR ''s''] then Some 1000
      else if u = ''us'' then Some 1000
      else if u = ''ms'' then Some 1000000
      else if u = ''s'' then Some 1000000000
      else if u = ''m'' then Some 60000000000
      else if u = ''h'' then Some 3600000000000
      else None)"

text \<open>One number and its unit, at the front of the string.\<close>

definition parse_component :: "string \<Rightarrow> (nat \<times> string) option" where
  "parse_component s =
     (if s = [] \<or> \<not> (hd s = CHR ''.'' \<or> is_digit (hd s)) then None
      else case leadingInt s 0 of
        None \<Rightarrow> None
      | Some (v, s1) \<Rightarrow>
          (let pre = (length s1 \<noteq> length s);
               (f, scale, post, s2) =
                 (if s1 \<noteq> [] \<and> hd s1 = CHR ''.''
                  then (case leadingFraction (tl s1) 0 1 False of
                     (f, scale, r) \<Rightarrow> (f, scale, length r \<noteq> length (tl s1), r))
                  else (0, 1, False, s1));
               u = takeWhile (\<lambda>c. \<not> (c = CHR ''.'' \<or> is_digit c)) s2;
               s3 = drop (length u) s2
           in if \<not> pre \<and> \<not> post then None
              else if u = [] then None
              else case unitMap u of
                None \<Rightarrow> None
              | Some unit \<Rightarrow>
                  if two63 div unit < v then None
                  else
                    (let v = v * unit in
                     if 0 < f then
                       (let v = (v + nat \<lfloor>fl_mul (fl_of_int (int f)) (fl_div (fl_of_int (int unit)) scale)\<rfloor>)
                            mod (2 * two63)
                        in if two63 < v then None else Some (v, s3))
                     else Some (v, s3))))"

lemma leadingInt_length: "leadingInt s x = Some (v, r) \<Longrightarrow> length r \<le> length s"
proof (induction s x rule: leadingInt.induct)
  case (2 c s x)
  then show ?case by (auto split: if_splits)
qed simp

lemma leadingFraction_length: "leadingFraction s x sc ov = (v, sc', r) \<Longrightarrow> length r \<le> length s"
proof (induction s x sc ov rule: leadingFraction.induct)
  case (2 c s x sc ov)
  show ?case
  proof (cases "is_digit c")
    case True
    with 2 show ?thesis by (fastforce split: if_splits)
  qed (use 2 in auto)
qed simp

lemma parse_component_shorter: "parse_component s = Some (v, r) \<Longrightarrow> length r < length s"
  by (auto simp: parse_component_def Let_def split: if_splits option.splits prod.splits
      dest!: leadingInt_length leadingFraction_length)

function parse_components :: "string \<Rightarrow> nat \<Rightarrow> nat option" where
  "parse_components s d =
     (if s = [] then Some d
      else case parse_component s of
        None \<Rightarrow> None
      | Some (v, r) \<Rightarrow>
          (let d = (d + v) mod (2 * two63) in if two63 < d then None else parse_components r d))"
  by pat_completeness auto
termination
  by (relation "measure (\<lambda>(s, d). length s)") (auto dest: parse_component_shorter)

declare parse_components.simps [simp del]

text \<open>\<open>None\<close> is any error of the parser.\<close>

definition ParseDuration :: "string \<Rightarrow> int option" where
  "ParseDuration s =
     (let neg = (s \<noteq> [] \<and> hd s = CHR ''-'');
          s = (if s \<noteq> [] \<and> (hd s = CHR ''-'' \<or> hd s = CHR ''+'') then tl s else s)
      in if s = ''0'' then Some 0
         else if s = [] then None
         else case parse_components s 0 of
           None \<Rightarrow> None
         | Some d \<Rightarrow>
             if neg then Some (- int d)
             else if two63 - 1 < d then None
             else Some (int d))"

section \<open>Rendering durations\<close>

text \<open>\<open>fmtFrac\<close>: the fraction of \<open>v\<close> over ten to the \<open>prec\<close>, without trailing zeros.\<close>

definition fmtFrac :: "nat \<Rightarrow> nat \<Rightarrow> string" where
  "fmtFrac v prec =
     (let digits = rev (dropWhile (\<lambda>c. c = CHR ''0'') (rev (zero_pad prec (show_nat (v mod 10 ^ prec)))))
      in if v mod 10 ^ prec = 0 then [] else CHR ''.'' # digits)"

definition Duration_String :: "int \<Rightarrow> string" where
  "Duration_String d =
     (let neg = d < 0; u = nat \<bar>d\<bar>;
          body = (if u < 1000000000 then
              (if u = 0 then ''0s''
               else if u < 1000 then show_nat u @ ''ns''
               else if u < 1000000 then show_nat (u div 1000) @ fmtFrac u 3 @ [CHR 0xC2, CHR 0xB5, CHR ''s'']
               else show_nat (u div 1000000) @ fmtFrac u 6 @ ''ms'')
            else
              (let secs = u div 1000000000;
                   s = show_nat (secs mod 60) @ fmtFrac u 9 @ ''s'';
                   mins = secs div 60
               in if mins = 0 then s
                  else
                    (let s = show_nat (mins mod 60) @ ''m'' @ s; hours = mins div 60
                     in if hours = 0 then s else show_nat hours @ ''h'' @ s)))
      in if neg then CHR ''-'' # body else body)"

lemma leadingInt_digits:
  assumes "parse_digits x s = Some n" "n \<le> two63" "r = [] \<or> \<not> is_digit (hd r)"
  shows "leadingInt (s @ r) x = Some (n, r)"
  using assms
proof (induction s arbitrary: x)
  case Nil
  then show ?case by (cases r) auto
next
  case (Cons c s)
  have mono: "a \<le> b" if "parse_digits a t = Some b" for a b t
    using that by (induction t arbitrary: a) (auto split: if_splits, fastforce)
  from Cons.prems have c: "is_digit c" "parse_digits (10 * x + digit_val c) s = Some n"
    by (auto split: if_splits)
  from mono [OF c(2)] Cons.prems(2) have "10 * x + digit_val c \<le> two63" by simp
  moreover from this have "x \<le> two63 div 10" by simp
  ultimately show ?case using c Cons.IH [OF c(2)] Cons.prems by simp
qed

text \<open>A whole number followed by a unit that a digit or the end follows.\<close>

lemma parse_component_whole:
  assumes "unitMap u = Some k" "0 < k" "n \<le> two63" "n \<le> two63 div k"
    "\<forall>c \<in> set u. \<not> (c = CHR ''.'' \<or> is_digit c)" "u \<noteq> []" "r = [] \<or> is_digit (hd r)"
  shows "parse_component (show_nat n @ u @ r) = Some (n * k, r)"
proof -
  have lead: "leadingInt (show_nat n @ u @ r) 0 = Some (n, u @ r)"
    using assms by (intro leadingInt_digits) (auto simp: parse_show_nat hd_append)
  have nodot: "hd (u @ r) \<noteq> CHR ''.''" using assms by (auto simp: hd_append)
  have unit: "takeWhile (\<lambda>c. \<not> (c = CHR ''.'' \<or> is_digit c)) (u @ r) = u"
    using assms by (cases r) (auto simp: takeWhile_append2 takeWhile_eq_all_conv)
  show ?thesis
    using assms lead nodot unit show_nat_hd [of n]
    by (simp add: parse_component_def hd_append Let_def)
qed

lemma unit_names [simp]: "unitMap ''s'' = Some 1000000000" "unitMap ''m'' = Some 60000000000"
    "unitMap ''h'' = Some 3600000000000"
  by (simp_all add: unitMap_def)

lemma unit_chars [simp]: "\<not> is_digit (CHR ''s'')" "\<not> is_digit (CHR ''m'')" "\<not> is_digit (CHR ''h'')"
  by (simp_all add: is_digit_def byte_def)

lemma parse_components_step:
  assumes "parse_component s = Some (v, r)" "s \<noteq> []" "d + v \<le> two63"
  shows "parse_components s d = parse_components r (d + v)"
proof -
  have "(d + v) mod (2 * two63) = d + v" using assms(3) by (simp add: two63_def)
  with assms show ?thesis by (subst parse_components.simps) (simp add: Let_def)
qed

lemma parse_components_Nil [simp]: "parse_components [] d = Some d"
  by (subst parse_components.simps) simp

lemma parse_components_unit:
  assumes "u \<in> {''s'', ''m'', ''h''}" "unitMap u = Some k" "d + n * k \<le> two63" "r = [] \<or> is_digit (hd r)"
  shows "parse_components (show_nat n @ u @ r) d = parse_components r (d + n * k)"
proof (rule parse_components_step)
  have k: "0 < k" using assms(1,2) by auto
  then have "n \<le> two63 div k" using assms(3) by (simp add: less_eq_div_iff_mult_less_eq)
  moreover have "n \<le> n * k" using k by simp
  then have "n \<le> two63" using assms(3) by linarith
  moreover have "u \<noteq> []" "\<forall>c \<in> set u. \<not> (c = CHR ''.'' \<or> is_digit c)" using assms(1) by auto
  ultimately show "parse_component (show_nat n @ u @ r) = Some (n * k, r)"
    using k assms(2,4) by (intro parse_component_whole) auto
qed (use assms(3) in auto)

lemma fmtFrac_whole [simp]: "fmtFrac (n * 1000000000) 9 = []"
  by (simp add: fmtFrac_def)

lemma Duration_String_seconds:
  assumes "0 < n"
  shows "Duration_String (int n * Second) =
    (if n < 60 then show_nat n @ ''s''
     else if n < 3600 then show_nat (n div 60) @ ''m'' @ show_nat (n mod 60) @ ''s''
     else show_nat (n div 3600) @ ''h'' @ show_nat (n div 60 mod 60) @ ''m'' @ show_nat (n mod 60) @ ''s'')"
proof -
  have u: "nat \<bar>int n * Second\<bar> = n * 1000000000" by (simp add: Second_def nat_mult_distrib abs_mult)
  have f: "fmtFrac (n * 1000000000) 9 = []" by simp
  have z: "\<not> n * 1000000000 < 1000000000" using assms by simp
  have q: "n * 1000000000 div 1000000000 = n" by simp
  have neg: "\<not> int n * Second < 0" by (simp add: Second_def not_less)
  have "n div 60 div 60 = n div 3600" by (simp add: div_mult2_eq)
  moreover have "n div 60 = 0 \<longleftrightarrow> n < 60" "n div 3600 = 0 \<longleftrightarrow> n < 3600" by (simp_all add: div_eq_0_iff)
  ultimately show ?thesis
    unfolding Duration_String_def Let_def u f q using z neg by (auto simp: div_eq_0_iff)
qed

declare show_nat_hd [simp]

lemma hd_show [simp]: "is_digit (hd (show_nat n @ r))"
  using show_nat_hd [of n] by (simp add: hd_append)

lemma ParseDuration_digits:
  assumes "is_digit (hd s)" "s \<noteq> ''0''" "s \<noteq> []"
  shows "ParseDuration s = (case parse_components s 0 of None \<Rightarrow> None
    | Some d \<Rightarrow> if two63 - 1 < d then None else Some (int d))"
  using assms by (auto simp: ParseDuration_def Let_def split: option.split)

lemma show_nat_0 [simp]: "show_nat 0 = ''0''"
  by (simp add: show_nat.simps digit_def char_of_def bit_0)

lemma roundtrip_seconds:
  assumes "int n * Second \<le> MaxInt64"
  shows "ParseDuration (Duration_String (int n * Second)) = Some (int n * Second)"
proof (cases "n = 0")
  case True
  have z: "ParseDuration ''0s'' = Some 0"
    using parse_components_unit [of "''s''" 1000000000 0 0 "[]"]
    by (simp add: ParseDuration_digits two63_def)
  have "Duration_String 0 = ''0s''" by (simp add: Duration_String_def)
  with z True show ?thesis by simp
next
  case False
  have le: "n * 1000000000 \<le> two63" "n * 1000000000 \<le> two63 - 1"
    using assms by (simp_all add: two63_def Second_def MaxInt64_def)
  let ?s = "Duration_String (int n * Second)"
  have "parse_components ?s 0 = Some (n * 1000000000)"
  proof -
    have minutes: "n div 60 * 60000000000 + n mod 60 * 1000000000 = n * 1000000000"
    proof -
      have "(n div 60 * 60 + n mod 60) * 1000000000 = n * 1000000000" by (simp only: div_mult_mod_eq)
      then show ?thesis by (simp only: add_mult_distrib mult.assoc)
    qed
    have hours: "n div 3600 * 3600000000000 + n div 60 mod 60 * 60000000000 + n mod 60 * 1000000000
        = n * 1000000000"
    proof -
      have "n div 60 div 60 = n div 3600" by (simp add: div_mult2_eq)
      then have "n div 60 = n div 3600 * 60 + n div 60 mod 60"
        using div_mult_mod_eq [of "n div 60" 60] by simp
      then have "n div 60 * 60000000000 = (n div 3600 * 60 + n div 60 mod 60) * 60000000000"
        by (rule arg_cong)
      with minutes show ?thesis by (simp add: add_mult_distrib mult.assoc)
    qed
    consider "n < 60" | "60 \<le> n" "n < 3600" | "3600 \<le> n" by linarith
    then show ?thesis
    proof cases
      case 1
      with False le show ?thesis
        using parse_components_unit [of "''s''" 1000000000 0 n "[]"] by (simp add: Duration_String_seconds)
    next
      case 2
      have s: "?s = show_nat (n div 60) @ ''m'' @ show_nat (n mod 60) @ ''s''"
        using 2 by (simp add: Duration_String_seconds)
      have "parse_components (show_nat (n div 60) @ ''m'' @ show_nat (n mod 60) @ ''s'') 0
          = parse_components (show_nat (n mod 60) @ ''s'') (n div 60 * 60000000000)"
        using parse_components_unit [of "''m''" 60000000000 0 "n div 60" "show_nat (n mod 60) @ ''s''"]
          le minutes by simp
      also have "\<dots> = Some (n * 1000000000)"
        using parse_components_unit [of "''s''" 1000000000 "n div 60 * 60000000000" "n mod 60" "[]"]
          le minutes by simp
      finally show ?thesis using s by simp
    next
      case 3
      let ?r1 = "show_nat (n mod 60) @ ''s''" and ?r2 = "show_nat (n div 60 mod 60) @ ''m'' @ show_nat (n mod 60) @ ''s''"
      have s: "?s = show_nat (n div 3600) @ ''h'' @ ?r2"
        using 3 by (simp add: Duration_String_seconds)
      have "parse_components (show_nat (n div 3600) @ ''h'' @ ?r2) 0
          = parse_components ?r2 (n div 3600 * 3600000000000)"
        using parse_components_unit [of "''h''" 3600000000000 0 "n div 3600" ?r2] le hours by simp
      also have "\<dots> = parse_components ?r1 (n div 3600 * 3600000000000 + n div 60 mod 60 * 60000000000)"
        using parse_components_unit [of "''m''" 60000000000 "n div 3600 * 3600000000000" "n div 60 mod 60" ?r1]
          le hours by simp
      also have "\<dots> = Some (n * 1000000000)"
        using parse_components_unit [of "''s''" 1000000000
            "n div 3600 * 3600000000000 + n div 60 mod 60 * 60000000000" "n mod 60" "[]"] le hours by simp
      finally show ?thesis using s by simp
    qed
  qed
  moreover have "is_digit (hd ?s)" "?s \<noteq> ''0''" "?s \<noteq> []"
    using False by (auto simp: Duration_String_seconds hd_append append_eq_Cons_conv)
  ultimately show ?thesis
    using le by (simp add: ParseDuration_digits Second_def)
qed

section \<open>Parsing floating point\<close>

text \<open>
  \<open>ParseFloat\<close> accepts decimal and hexadecimal literals, underscores between digits, and the
  names of infinity and NaN; \<open>None\<close> is a syntax error or a value out of range.
\<close>

datatype gofloat = Finite rat | PosInf | NegInf | NaN

definition lower :: "char \<Rightarrow> char" where
  "lower c = (if 65 \<le> byte c \<and> byte c \<le> 90 then char_of (nat (byte c + 32)) else c)"

definition is_hex_letter :: "char \<Rightarrow> bool" where
  "is_hex_letter c \<longleftrightarrow> 97 \<le> byte (lower c) \<and> byte (lower c) \<le> 102"

definition special_float :: "string \<Rightarrow> gofloat option" where
  "special_float s =
     (let t = map lower s in
      if t \<in> {''inf'', ''infinity'', ''+inf'', ''+infinity''} then Some PosInf
      else if t \<in> {''-inf'', ''-infinity''} then Some NegInf
      else if t = ''nan'' then Some NaN
      else None)"

fun underscore_scan :: "bool \<Rightarrow> char \<Rightarrow> string \<Rightarrow> bool" where
  "underscore_scan hex saw [] = (saw \<noteq> CHR ''_'')"
| "underscore_scan hex saw (c # s) =
     (if is_digit c \<or> hex \<and> is_hex_letter c then underscore_scan hex (CHR ''0'') s
      else if c = CHR ''_'' then saw = CHR ''0'' \<and> underscore_scan hex (CHR ''_'') s
      else saw \<noteq> CHR ''_'' \<and> underscore_scan hex (CHR ''!'') s)"

definition underscoreOK :: "string \<Rightarrow> bool" where
  "underscoreOK s =
     (let s = (if s \<noteq> [] \<and> (hd s = CHR ''-'' \<or> hd s = CHR ''+'') then tl s else s) in
      if 2 \<le> length s \<and> hd s = CHR ''0'' \<and> lower (s ! 1) \<in> {CHR ''b'', CHR ''o'', CHR ''x''}
      then underscore_scan (lower (s ! 1) = CHR ''x'') (CHR ''0'') (drop 2 s)
      else underscore_scan False (CHR ''^'') s)"

text \<open>The mantissa: its digits as a number, how many follow the point, and the rest.\<close>

fun scan_mantissa :: "nat \<Rightarrow> string \<Rightarrow> bool \<Rightarrow> bool \<Rightarrow> nat \<Rightarrow> nat \<Rightarrow> bool \<times> nat \<times> nat \<times> string" where
  "scan_mantissa base [] dot seen m fd = (seen, m, fd, [])"
| "scan_mantissa base (c # s) dot seen m fd =
     (if c = CHR ''_'' then scan_mantissa base s dot seen m fd
      else if c = CHR ''.'' \<and> \<not> dot then scan_mantissa base s True seen m fd
      else if is_digit c
        then scan_mantissa base s dot True (base * m + digit_val c) (if dot then Suc fd else fd)
      else if base = 16 \<and> is_hex_letter c
        then scan_mantissa base s dot True (base * m + nat (byte (lower c) - 87))
          (if dot then Suc fd else fd)
      else (seen, m, fd, c # s))"

fun scan_exponent :: "string \<Rightarrow> nat \<Rightarrow> nat \<times> string" where
  "scan_exponent [] e = (e, [])"
| "scan_exponent (c # s) e =
     (if c = CHR ''_'' then scan_exponent s e
      else if is_digit c then scan_exponent s (if e < 10000 then 10 * e + digit_val c else e)
      else (e, c # s))"

text \<open>The exponent after the mantissa; a hexadecimal literal must have one.\<close>

definition read_exponent :: "nat \<Rightarrow> string \<Rightarrow> (int \<times> string) option" where
  "read_exponent base s =
     (if s \<noteq> [] \<and> lower (hd s) = (if base = 16 then CHR ''p'' else CHR ''e'') then
        (let s = tl s;
             neg = (s \<noteq> [] \<and> hd s = CHR ''-'');
             s = (if s \<noteq> [] \<and> (hd s = CHR ''-'' \<or> hd s = CHR ''+'') then tl s else s)
         in if s = [] \<or> \<not> is_digit (hd s) then None
            else case scan_exponent s 0 of (e, r) \<Rightarrow> Some (if neg then - int e else int e, r))
      else if base = 16 then None
      else Some (0, s))"

definition round_float :: "rat \<Rightarrow> rat option" where
  "round_float q =
     (if q = 0 then Some 0
      else let a = \<bar>q\<bar>;
               r = (if flog2 a < - 1022 then of_int (rne (a * 2 ^ 1074)) / 2 ^ 1074 else fl a)
           in if 2 ^ 1024 \<le> r then None else Some (sgn q * r))"

definition ParseFloat :: "string \<Rightarrow> gofloat option" where
  "ParseFloat s =
     (case special_float s of
        Some f \<Rightarrow> Some f
      | None \<Rightarrow>
          (let neg = (s \<noteq> [] \<and> hd s = CHR ''-'');
               t = (if s \<noteq> [] \<and> (hd s = CHR ''-'' \<or> hd s = CHR ''+'') then tl s else s);
               hex = (2 < length t \<and> hd t = CHR ''0'' \<and> lower (t ! 1) = CHR ''x'');
               base = (if hex then 16 else 10)
           in case scan_mantissa base (if hex then drop 2 t else t) False False 0 0 of
                (seen, m, fd, r) \<Rightarrow>
                  if \<not> seen then None
                  else case read_exponent base r of
                    None \<Rightarrow> None
                  | Some (e, r) \<Rightarrow>
                      if r \<noteq> [] \<or> CHR ''_'' \<in> set s \<and> \<not> underscoreOK s then None
                      else map_option Finite (round_float
                        ((if neg then - 1 else 1) * (of_nat m / of_nat base ^ fd)
                          * (if hex then 2 else 10) powi e))))"

text \<open>The order of two floats as the code's three-way comparison sees it: NaN ties with all.\<close>

definition compareFloat :: "gofloat \<Rightarrow> gofloat \<Rightarrow> int" where
  "compareFloat x y =
     (case (x, y) of
        (NaN, _) \<Rightarrow> 0 | (_, NaN) \<Rightarrow> 0
      | (Finite a, Finite b) \<Rightarrow> cmpCompare a b
      | (PosInf, PosInf) \<Rightarrow> 0 | (NegInf, NegInf) \<Rightarrow> 0
      | (PosInf, _) \<Rightarrow> 1 | (NegInf, _) \<Rightarrow> - 1
      | (_, PosInf) \<Rightarrow> - 1 | (_, NegInf) \<Rightarrow> 1)"

section \<open>Properties\<close>

end
