(* ===== verification/Hcl.thy ===== *)
theory Hcl
  imports Strconv "HOL-Library.AList"
begin

text \<open>
  What the code sees of the HCL library: bodies, expressions and source ranges are handles known
  only by their number, values are what the code tells apart, and the functions of the library
  are the fields of \<open>Hcl\<close>, a parameter of every definition that calls one.  A text made for a
  reader is its format and its arguments.
\<close>

datatype HclBody = HclBody nat
datatype HclExpr = HclExpr nat

type_synonym HclRange = nat
type_synonym Text = "string \<times> string list"

text \<open>A value of the \<^verbatim>\<open>cty\<close> package; \<open>CtyOther\<close> stands for numbers, booleans and the rest.\<close>

datatype Cty = CtyNull | CtyUnknown | CtyString string | CtyList "Cty list"
  | CtyObject "(string \<times> Cty) list" | CtyOther nat

datatype EvalContext = EvalContext (ctx_Variables: "(string \<times> Cty) list")

record Diagnostic =
  dg_Error :: bool
  dg_Summary :: Text
  dg_Detail :: Text
  dg_Subject :: "HclRange option"

definition HasErrors :: "Diagnostic list \<Rightarrow> bool" where
  "HasErrors diags \<longleftrightarrow> (\<exists>d \<in> set diags. dg_Error d)"

record HclAttribute =
  ha_Name :: string
  ha_Expr :: HclExpr
  ha_Range :: HclRange

record HclBlock =
  hb_Labels :: "string list"
  hb_Body :: HclBody

record HclContent =
  hc_Attributes :: "(string \<times> HclAttribute) list"
  hc_Blocks :: "HclBlock list"

record BodySchema =
  bs_Attributes :: "string list"
  bs_Blocks :: "(string \<times> string list) list"

text \<open>
  \<open>hcl_NestedBlocks\<close> are the blocks of a native-syntax body, by type and definition range, and
  absent for any other body; \<open>hcl_Error\<close> renders diagnostics.
\<close>

record Hcl =
  hcl_ParseConfig :: "string \<Rightarrow> string \<Rightarrow> HclBody option \<times> Diagnostic list"
  hcl_PartialContent :: "BodySchema \<Rightarrow> HclBody \<Rightarrow> HclContent option \<times> Diagnostic list"
  hcl_JustAttributes :: "HclBody \<Rightarrow> (string \<times> HclAttribute) list option \<times> Diagnostic list"
  hcl_Value :: "HclExpr \<Rightarrow> EvalContext option \<Rightarrow> Cty \<times> Diagnostic list"
  hcl_ExprRange :: "HclExpr \<Rightarrow> HclRange"
  hcl_NestedBlocks :: "HclBody \<Rightarrow> (string \<times> HclRange) list option"
  hcl_ToString :: "Cty \<Rightarrow> string + string"
  hcl_ToStrings :: "Cty \<Rightarrow> string + string list"
  hcl_Error :: "Diagnostic list \<Rightarrow> string"

text \<open>A diagnostic without a source range, as validation reports.\<close>

definition diagnostic :: "Text \<Rightarrow> Text \<Rightarrow> HclRange option \<Rightarrow> Diagnostic" where
  "diagnostic summary detail subject =
     \<lparr>dg_Error = True, dg_Summary = summary, dg_Detail = detail, dg_Subject = subject\<rparr>"

lemma HasErrors_Nil [simp]: "\<not> HasErrors []"
  by (simp add: HasErrors_def)

lemma HasErrors_append [simp]: "HasErrors (xs @ ys) \<longleftrightarrow> HasErrors xs \<or> HasErrors ys"
  by (auto simp: HasErrors_def)

lemma HasErrors_diagnostic [simp]: "HasErrors (diagnostic s d r # ds)"
  by (simp add: HasErrors_def diagnostic_def)

end
