(* ===== verification/Job.thy ===== *)
theory Job
  imports Execution GoTime Hcl
begin

text \<open>
  \<^verbatim>\<open>internal/job\<close>: the workload model.  Every closed vocabulary is a string type with
  the code's list of names; their parsing and text encoding share the contract
  \<open>vocabulary\<close>, which each of them interprets.  A pointer field is an option.  Bodies
  and evaluation contexts are those of \<open>Hcl\<close>.
\<close>

datatype job_error =
    UnknownArch string
  | UnknownDriver string
  | UnknownType string
  | UnknownOperator string
  | UnknownStrategy string
  | InvalidDurationText string
  | NegativeDuration string

section \<open>Vocabularies\<close>

type_synonym Arch = string

definition ArchAMD64 :: Arch where [vocab]: "ArchAMD64 = ''amd64''"
definition ArchARM64 :: Arch where [vocab]: "ArchARM64 = ''arm64''"

definition archNames :: "Arch list" where
  "archNames = [ArchAMD64, ArchARM64]"

definition Arch_Valid :: "Arch \<Rightarrow> bool" where
  "Arch_Valid x \<longleftrightarrow> x \<in> set archNames"

definition ParseArch :: "string \<Rightarrow> job_error + Arch" where
  "ParseArch s = (if \<not> Arch_Valid s then Inl (UnknownArch s) else Inr s)"

definition Arch_MarshalText :: "Arch \<Rightarrow> job_error + string" where
  "Arch_MarshalText x = (if \<not> Arch_Valid x then Inl (UnknownArch x) else Inr x)"

definition Arch_UnmarshalText :: "Arch \<Rightarrow> string \<Rightarrow> job_error option \<times> Arch" where
  "Arch_UnmarshalText old text =
     (case ParseArch text of Inl err \<Rightarrow> (Some err, old) | Inr parsed \<Rightarrow> (None, parsed))"

type_synonym DriverName = string

definition DriverContainer :: DriverName where [vocab]: "DriverContainer = ''container''"
definition DriverFunction :: DriverName where [vocab]: "DriverFunction = ''function''"
definition DriverWorker :: DriverName where [vocab]: "DriverWorker = ''worker''"

definition driverNames :: "DriverName list" where
  "driverNames = [DriverContainer, DriverFunction, DriverWorker]"

definition DriverName_Valid :: "DriverName \<Rightarrow> bool" where
  "DriverName_Valid x \<longleftrightarrow> x \<in> set driverNames"

definition ParseDriverName :: "string \<Rightarrow> job_error + DriverName" where
  "ParseDriverName s = (if \<not> DriverName_Valid s then Inl (UnknownDriver s) else Inr s)"

definition DriverName_MarshalText :: "DriverName \<Rightarrow> job_error + string" where
  "DriverName_MarshalText x = (if \<not> DriverName_Valid x then Inl (UnknownDriver x) else Inr x)"

definition DriverName_UnmarshalText :: "DriverName \<Rightarrow> string \<Rightarrow> job_error option \<times> DriverName" where
  "DriverName_UnmarshalText old text =
     (case ParseDriverName text of Inl err \<Rightarrow> (Some err, old) | Inr parsed \<Rightarrow> (None, parsed))"

type_synonym Type = string

definition TypeBatch :: Type where [vocab]: "TypeBatch = ''batch''"

definition typeNames :: "Type list" where
  "typeNames = [TypeBatch]"

definition Type_Valid :: "Type \<Rightarrow> bool" where
  "Type_Valid x \<longleftrightarrow> x \<in> set typeNames"

definition ParseType :: "string \<Rightarrow> job_error + Type" where
  "ParseType s = (if \<not> Type_Valid s then Inl (UnknownType s) else Inr s)"

definition Type_MarshalText :: "Type \<Rightarrow> job_error + string" where
  "Type_MarshalText x = (if \<not> Type_Valid x then Inl (UnknownType x) else Inr x)"

definition Type_UnmarshalText :: "Type \<Rightarrow> string \<Rightarrow> job_error option \<times> Type" where
  "Type_UnmarshalText old text =
     (case ParseType text of Inl err \<Rightarrow> (Some err, old) | Inr parsed \<Rightarrow> (None, parsed))"

type_synonym Operator = string

definition OperatorEqual :: Operator where [vocab]: "OperatorEqual = ''=''"
definition OperatorNotEqual :: Operator where [vocab]: "OperatorNotEqual = ''!=''"
definition OperatorLess :: Operator where [vocab]: "OperatorLess = ''<''"
definition OperatorLessEqual :: Operator where [vocab]: "OperatorLessEqual = ''<=''"
definition OperatorGreater :: Operator where [vocab]: "OperatorGreater = ''>''"
definition OperatorGreaterEqual :: Operator where [vocab]: "OperatorGreaterEqual = ''>=''"
definition OperatorSetContains :: Operator where [vocab]: "OperatorSetContains = ''set_contains''"
definition OperatorIsSet :: Operator where [vocab]: "OperatorIsSet = ''is_set''"
definition OperatorIsNotSet :: Operator where [vocab]: "OperatorIsNotSet = ''is_not_set''"

definition operatorNames :: "Operator list" where
  "operatorNames = [OperatorEqual, OperatorNotEqual, OperatorLess, OperatorLessEqual, OperatorGreater, OperatorGreaterEqual, OperatorSetContains, OperatorIsSet, OperatorIsNotSet]"

definition Operator_Valid :: "Operator \<Rightarrow> bool" where
  "Operator_Valid x \<longleftrightarrow> x \<in> set operatorNames"

definition ParseOperator :: "string \<Rightarrow> job_error + Operator" where
  "ParseOperator s = (if \<not> Operator_Valid s then Inl (UnknownOperator s) else Inr s)"

definition Operator_MarshalText :: "Operator \<Rightarrow> job_error + string" where
  "Operator_MarshalText x = (if \<not> Operator_Valid x then Inl (UnknownOperator x) else Inr x)"

definition Operator_UnmarshalText :: "Operator \<Rightarrow> string \<Rightarrow> job_error option \<times> Operator" where
  "Operator_UnmarshalText old text =
     (case ParseOperator text of Inl err \<Rightarrow> (Some err, old) | Inr parsed \<Rightarrow> (None, parsed))"

type_synonym Strategy = string

definition StrategyFreeFirst :: Strategy where [vocab]: "StrategyFreeFirst = ''free-first''"

definition strategyNames :: "Strategy list" where
  "strategyNames = [StrategyFreeFirst]"

definition Strategy_Valid :: "Strategy \<Rightarrow> bool" where
  "Strategy_Valid x \<longleftrightarrow> x \<in> set strategyNames"

definition ParseStrategy :: "string \<Rightarrow> job_error + Strategy" where
  "ParseStrategy s = (if \<not> Strategy_Valid s then Inl (UnknownStrategy s) else Inr s)"

definition Strategy_MarshalText :: "Strategy \<Rightarrow> job_error + string" where
  "Strategy_MarshalText x = (if \<not> Strategy_Valid x then Inl (UnknownStrategy x) else Inr x)"

definition Strategy_UnmarshalText :: "Strategy \<Rightarrow> string \<Rightarrow> job_error option \<times> Strategy" where
  "Strategy_UnmarshalText old text =
     (case ParseStrategy text of Inl err \<Rightarrow> (Some err, old) | Inr parsed \<Rightarrow> (None, parsed))"

type_synonym TierMode = string

definition TiersStrict :: TierMode where [vocab]: "TiersStrict = ''strict''"
definition TiersWeighted :: TierMode where [vocab]: "TiersWeighted = ''weighted''"

definition tierModeNames :: "TierMode list" where
  "tierModeNames = [TiersStrict, TiersWeighted]"

definition TierMode_Valid :: "TierMode \<Rightarrow> bool" where
  "TierMode_Valid x \<longleftrightarrow> x \<in> set tierModeNames"

definition orderingOperators :: "Operator list" where
  "orderingOperators = [OperatorLess, OperatorLessEqual, OperatorGreater, OperatorGreaterEqual]"

definition presenceOperators :: "Operator list" where
  "presenceOperators = [OperatorIsSet, OperatorIsNotSet]"

definition Operator_Ordering :: "Operator \<Rightarrow> bool" where
  "Operator_Ordering o1 \<longleftrightarrow> o1 \<in> set orderingOperators"

definition Operator_Presence :: "Operator \<Rightarrow> bool" where
  "Operator_Presence o1 \<longleftrightarrow> o1 \<in> set presenceOperators"

definition DefaultTierMode :: TierMode where "DefaultTierMode = TiersStrict"

section \<open>Durations and cost\<close>

type_synonym DurationText = string
type_synonym Cost = int

definition Cost_Free :: "Cost \<Rightarrow> bool" where
  "Cost_Free c \<longleftrightarrow> c = 0"

definition FromDuration :: "Duration \<Rightarrow> DurationText" where
  "FromDuration d = Duration_String d"

definition Duration_Std :: "DurationText \<Rightarrow> job_error + Duration" where
  "Duration_Std d =
     (case ParseDuration d of
        None \<Rightarrow> Inl (InvalidDurationText d)
      | Some parsed \<Rightarrow> if parsed < 0 then Inl (NegativeDuration d) else Inr parsed)"

definition Duration_Valid :: "DurationText \<Rightarrow> bool" where
  "Duration_Valid d \<longleftrightarrow> (case Duration_Std d of Inl err \<Rightarrow> False | Inr v \<Rightarrow> True)"

definition Duration_MarshalText :: "DurationText \<Rightarrow> job_error + string" where
  "Duration_MarshalText d = (if \<not> Duration_Valid d then Inl (InvalidDurationText d) else Inr d)"

definition Duration_UnmarshalText :: "DurationText \<Rightarrow> string \<Rightarrow> job_error option \<times> DurationText" where
  "Duration_UnmarshalText old text =
     (if \<not> Duration_Valid text then (Some (InvalidDurationText text), old) else (None, text))"

section \<open>Jobs and tasks\<close>

definition DefaultNamespace :: string where "DefaultNamespace = ''default''"

record Constraint =
  con_Attribute :: string
  con_Operator :: Operator
  con_Value :: string

record Affinity =
  aff_Attribute :: string
  aff_Operator :: Operator
  aff_Value :: string
  aff_Weight :: "int option"

record Routing =
  rt_Strategy :: "Strategy option"
  rt_Providers :: "string list"
  rt_MaxCost :: "Cost option"
  rt_Tiers :: "TierMode option"
  rt_Constraints :: "Constraint list"
  rt_Affinities :: "Affinity list"

record Source =
  src_Type :: string
  src_Repository :: string
  src_Ref :: "string option"
  src_Destination :: "string option"

record TaskResources =
  tres_CPU :: "int option"
  tres_Memory :: "int option"

record Network =
  net_Internet :: "bool option"
  net_Private :: "bool option"

record ExecutionRequirements =
  req_Architecture :: "Arch option"
  req_Privileged :: "bool option"

record Backoff =
  bo_Initial :: "DurationText option"
  bo_Max :: "DurationText option"

record Retry =
  rty_Attempts :: "int option"
  rty_Reroute :: "bool option"
  rty_Backoff :: "Backoff option"

record Task =
  task_Name :: string
  task_Driver :: DriverName
  task_Config :: "HclBody option"
  task_Env :: "HclBody option"
  task_Source :: "Source option"
  task_WorkingDirectory :: "string option"
  task_Resources :: "TaskResources option"
  task_Timeout :: "DurationText option"
  task_Network :: "Network option"
  task_Execution :: "ExecutionRequirements option"
  task_Retry :: "Retry option"
  task_Vars :: "EvalContext option"
  task_Meta :: "(string \<times> string) list"

record Parameterized =
  par_MetaRequired :: "string list"
  par_MetaOptional :: "string list"

record Job =
  job_Name :: string
  job_Namespace :: "string option"
  job_Type :: "Type option"
  job_Meta :: "HclBody option"
  job_Parameterized :: "Parameterized option"
  job_Routing :: "Routing option"
  job_Tasks :: "Task list"

record JobFile =
  file_Jobs :: "Job list"

section \<open>The contract of a vocabulary\<close>

locale vocabulary =
  fixes valid :: "string \<Rightarrow> bool"
    and parse :: "string \<Rightarrow> 'e + string"
    and marshal :: "string \<Rightarrow> 'e + string"
    and unmarshal :: "string \<Rightarrow> string \<Rightarrow> 'e option \<times> string"
  assumes parse_valid: "parse s = Inr v \<longleftrightarrow> valid s \<and> v = s"
    and marshal_valid: "marshal s = Inr t \<longleftrightarrow> valid s \<and> t = s"
    and unmarshal_parse: "parse t = Inr v \<Longrightarrow> unmarshal old t = (None, v)"
    and unmarshal_fails: "parse t = Inl err \<Longrightarrow> unmarshal old t = (Some err, old)"
begin

lemma roundtrip: "marshal s = Inr t \<Longrightarrow> unmarshal old t = (None, s)"
  by (simp add: marshal_valid parse_valid unmarshal_parse)

lemma keeps_valid: "valid old \<Longrightarrow> unmarshal old t = (res, v) \<Longrightarrow> valid v"
proof (cases "parse t")
  case (Inl err)
  then show "valid old \<Longrightarrow> unmarshal old t = (res, v) \<Longrightarrow> valid v" by (simp add: unmarshal_fails)
next
  case (Inr w)
  then show "unmarshal old t = (res, v) \<Longrightarrow> valid v" using parse_valid [of t w]
    by (simp add: unmarshal_parse)
qed

lemma unmarshal_ok: "unmarshal old t = (None, v) \<longleftrightarrow> valid t \<and> v = t"
proof (cases "parse t")
  case (Inl err)
  moreover have "\<not> valid t" using Inl parse_valid [of t t] by auto
  ultimately show ?thesis by (simp add: unmarshal_fails)
next
  case (Inr w)
  then show ?thesis using parse_valid [of t w] by (auto simp: unmarshal_parse)
qed

end

interpretation arch_text: vocabulary Arch_Valid ParseArch Arch_MarshalText Arch_UnmarshalText
  by unfold_locales (auto simp: ParseArch_def Arch_MarshalText_def Arch_UnmarshalText_def split: if_splits)

interpretation drivername_text: vocabulary DriverName_Valid ParseDriverName DriverName_MarshalText DriverName_UnmarshalText
  by unfold_locales (auto simp: ParseDriverName_def DriverName_MarshalText_def DriverName_UnmarshalText_def split: if_splits)

interpretation type_text: vocabulary Type_Valid ParseType Type_MarshalText Type_UnmarshalText
  by unfold_locales (auto simp: ParseType_def Type_MarshalText_def Type_UnmarshalText_def split: if_splits)

interpretation operator_text: vocabulary Operator_Valid ParseOperator Operator_MarshalText Operator_UnmarshalText
  by unfold_locales (auto simp: ParseOperator_def Operator_MarshalText_def Operator_UnmarshalText_def split: if_splits)

interpretation strategy_text: vocabulary Strategy_Valid ParseStrategy Strategy_MarshalText Strategy_UnmarshalText
  by unfold_locales (auto simp: ParseStrategy_def Strategy_MarshalText_def Strategy_UnmarshalText_def split: if_splits)

interpretation state_text: vocabulary State_Valid ParseState State_MarshalText State_UnmarshalText
  by unfold_locales (auto simp: ParseState_def State_MarshalText_def State_UnmarshalText_def split: if_splits)

text \<open>A duration's text is kept as written, and only its validity is checked.\<close>

lemma Duration_Valid_iff: "Duration_Valid d \<longleftrightarrow> (\<exists>v. Duration_Std d = Inr v)"
  by (simp add: Duration_Valid_def split: sum.split)

lemma Duration_Std_Inr: "Duration_Std d = Inr v \<longleftrightarrow> ParseDuration d = Some v \<and> 0 \<le> v"
  by (auto simp: Duration_Std_def split: option.splits)

interpretation duration_text: vocabulary Duration_Valid
  "\<lambda>s. if Duration_Valid s then Inr s else Inl (InvalidDurationText s)"
  Duration_MarshalText Duration_UnmarshalText
  by unfold_locales (auto simp: Duration_MarshalText_def Duration_UnmarshalText_def split: if_splits)

lemma operator_distinct [simp]: "distinct operatorNames"
  by (simp add: operatorNames_def vocab)

lemma tiers_distinct [simp]: "TiersStrict \<noteq> TiersWeighted" "TiersWeighted \<noteq> TiersStrict"
  by (simp_all add: vocab)

section \<open>Properties\<close>

text \<open>A duration of whole seconds written into a job survives: it reads back as the same duration,
  as long as it fits in an \<open>int64\<close> of nanoseconds.\<close>

theorem duration_roundtrip:
  assumes "int n * Second \<le> MaxInt64"
  shows "Duration_Std (FromDuration (int n * Second)) = Inr (int n * Second)"
  using roundtrip_seconds [OF assms] by (simp add: Duration_Std_Inr FromDuration_def Second_def)

theorem duration_roundtrip_witness:
  "Duration_Std (FromDuration (int 5400 * Second)) = Inr (5400 * Second)"
  using duration_roundtrip [of 5400] by (simp add: Second_def MaxInt64_def)

text \<open>Every vocabulary of a job file reads exactly its declared words and keeps them as they are,
  so what it writes reads back as the same value.\<close>

theorem vocabulary_text:
  "(Arch_UnmarshalText old t = (None, v) \<longleftrightarrow> Arch_MarshalText v = Inr t) \<and>
   (DriverName_UnmarshalText old t = (None, v) \<longleftrightarrow> DriverName_MarshalText v = Inr t) \<and>
   (Type_UnmarshalText old t = (None, v) \<longleftrightarrow> Type_MarshalText v = Inr t) \<and>
   (Operator_UnmarshalText old t = (None, v) \<longleftrightarrow> Operator_MarshalText v = Inr t) \<and>
   (Strategy_UnmarshalText old t = (None, v) \<longleftrightarrow> Strategy_MarshalText v = Inr t) \<and>
   (State_UnmarshalText old t = (None, v) \<longleftrightarrow> State_MarshalText v = Inr t) \<and>
   (Duration_UnmarshalText old t = (None, v) \<longleftrightarrow> Duration_MarshalText v = Inr t)"
  unfolding arch_text.unmarshal_ok arch_text.marshal_valid drivername_text.unmarshal_ok
    drivername_text.marshal_valid type_text.unmarshal_ok type_text.marshal_valid
    operator_text.unmarshal_ok operator_text.marshal_valid strategy_text.unmarshal_ok
    strategy_text.marshal_valid state_text.unmarshal_ok state_text.marshal_valid
    duration_text.unmarshal_ok duration_text.marshal_valid
  by auto

end
