(* ===== verification/Ledger.thy ===== *)
theory Ledger
  imports Execution "HOL-Library.AList"
begin

text \<open>
  \<^verbatim>\<open>internal/ledger\<close>: the account of what is charged against the quota pools, and
  the in-memory store behind it.  The \<^verbatim>\<open>Store\<close> interface is a record of functions that pass
  the store's state; the laws the ledger relies on are the locale \<open>usage_store\<close>, which the
  memory store interprets.  A Go map that the code iterates over is an association list in some
  order; the theorems do not depend on it.
\<close>

section \<open>Data\<close>

definition StaleAfter :: Duration where "StaleAfter = Hour"

definition Total :: string where "Total = []"

record Key =
  key_Namespace :: string
  key_Provider :: string
  key_Pool :: string
  key_Period :: string

type_synonym Usage = "Key \<Rightarrow> int option"

record PoolRef =
  ref_Namespace :: string
  ref_Pool :: string

record Charge =
  ch_Namespace :: string
  ch_Pool :: string
  ch_Period :: string
  ch_Amount :: int
  ch_Limit :: int

record Reservation =
  rsv_ID :: ID
  rsv_Provider :: string
  rsv_CPU :: int
  rsv_Memory :: int
  rsv_Created :: Time
  rsv_Charges :: "Charge list"

record Held =
  held_ID :: ID
  held_Provider :: string
  held_CPU :: int
  held_Memory :: int
  held_Amounts :: "(PoolRef \<times> int) list"

definition Held_namespace :: "Held \<Rightarrow> string" where
  "Held_namespace h =
     (case find_first (\<lambda>(ref, amount). ref_Namespace ref \<noteq> Total) (held_Amounts h) of
        Some (ref, amount) \<Rightarrow> ref_Namespace ref
      | None \<Rightarrow> Total)"

datatype Verdict = Keep | Drop | Finished | Stand

record Refusal =
  rf_Namespace :: string
  rf_Provider :: string
  rf_Pool :: string
  rf_Meter :: Meter
  rf_Limit :: int
  rf_Used :: int
  rf_Needed :: int

type_synonym Actual = "PoolRef \<Rightarrow> int option"

text \<open>
  The interface \<^verbatim>\<open>Store\<close>.  A callback that the store runs passes a state \<open>'w\<close> of its
  own, and answers \<open>None\<close> where the Go function's second result is false.
\<close>

record ('s, 'w, 'e) Store =
  s_Reserve :: "Reservation \<Rightarrow> 's \<Rightarrow> ('e + bool \<times> Usage) \<times> 's"
  s_Settle :: "ID \<Rightarrow> Actual \<Rightarrow> 's \<Rightarrow> 'e option \<times> 's"
  s_Reserved :: "ID \<Rightarrow> 's \<Rightarrow> 'e + bool"
  s_ReadUsage :: "string list \<Rightarrow> 's \<Rightarrow> 'e + Usage"
  s_Reap :: "Time \<Rightarrow> (Held \<Rightarrow> 'w \<Rightarrow> Actual option \<times> 'w) \<Rightarrow> 's \<Rightarrow> 'w \<Rightarrow> ('e option \<times> int) \<times> 's \<times> 'w"

record Ledger =
  led_budgets :: Budgets
  led_snapshot :: Usage
  led_refreshed :: Time

datatype 'e ledger_error =
    ReservingQuota 'e
  | SettlingQuota 'e
  | ReapingQuota 'e
  | ReadingQuota 'e
  | Refused Refusal
  | RefusedWithRoom string

section \<open>Pricing\<close>

definition charges :: "string \<Rightarrow> Limits \<Rightarrow> Execution \<Rightarrow> Time \<Rightarrow> bool \<Rightarrow> Charge list" where
  "charges namespace limits e now pays =
     (let deltas = Limits_Deltas limits e in
      map (\<lambda>p. \<lparr>ch_Namespace = namespace, ch_Pool = pool_Name p,
                ch_Period = Period_Key (pool_Period p) now,
                ch_Amount = mget deltas (pool_Name p),
                ch_Limit = (if pays then MaxInt64 else pool_Limit p)\<rparr>)
        (pools limits))"

definition pool_key :: "string \<Rightarrow> string \<Rightarrow> Time \<Rightarrow> Pool \<Rightarrow> Key" where
  "pool_key namespace provider now p =
     \<lparr>key_Namespace = namespace, key_Provider = provider, key_Pool = pool_Name p,
      key_Period = Period_Key (pool_Period p) now\<rparr>"

fun usageOf_loop :: "Pool list \<Rightarrow> Usage \<Rightarrow> string \<Rightarrow> string \<Rightarrow> Time \<Rightarrow> PoolUsage \<Rightarrow> PoolUsage" where
  "usageOf_loop [] usage namespace provider now out = out"
| "usageOf_loop (p # ps) usage namespace provider now out =
     usageOf_loop ps usage namespace provider now
       (out(pool_Name p \<mapsto> mget usage (pool_key namespace provider now p)))"

definition usageOf :: "Usage \<Rightarrow> string \<Rightarrow> string \<Rightarrow> Limits \<Rightarrow> Time \<Rightarrow> PoolUsage" where
  "usageOf usage namespace provider limits now =
     usageOf_loop (pools limits) usage namespace provider now Map.empty"

definition Ledger_deltas :: "Ledger \<Rightarrow> string \<Rightarrow> string \<Rightarrow> Execution \<Rightarrow> Actual" where
  "Ledger_deltas l namespace provider e =
     (let out = (\<lambda>ref. if ref_Namespace ref = Total
                  then Limits_Deltas (Budgets_Total (led_budgets l) provider) e (ref_Pool ref)
                  else None)
      in if namespace \<noteq> Total
         then out ++ (\<lambda>ref. if ref_Namespace ref = namespace
                then Limits_Deltas (Budgets_Share (led_budgets l) namespace provider) e (ref_Pool ref)
                else None)
         else out)"

text \<open>The loop of \<open>refusal\<close> over the two layers, the provider's own first.\<close>

fun refusal_loop :: "(string \<times> Limits) list \<Rightarrow> string \<Rightarrow> Usage \<Rightarrow> Execution \<Rightarrow> Time \<Rightarrow> 'e ledger_error" where
  "refusal_loop [] provider standing e now = RefusedWithRoom provider"
| "refusal_loop ((namespace, limits) # layers) provider standing e now =
     (let usage = usageOf standing namespace provider limits now in
      case Limits_Exceeded limits usage e of
        Some pool \<Rightarrow>
          Refused \<lparr>rf_Namespace = namespace, rf_Provider = provider, rf_Pool = pool_Name pool,
                   rf_Meter = pool_Meter pool, rf_Limit = pool_Limit pool,
                   rf_Used = mget usage (pool_Name pool),
                   rf_Needed = mget (Limits_Deltas limits e) (pool_Name pool)\<rparr>
      | None \<Rightarrow> refusal_loop layers provider standing e now)"

definition Ledger_refusal ::
  "Ledger \<Rightarrow> string \<Rightarrow> string \<Rightarrow> Usage \<Rightarrow> Execution \<Rightarrow> Time \<Rightarrow> 'e ledger_error" where
  "Ledger_refusal l namespace provider standing e now =
     refusal_loop [(Total, Budgets_Total (led_budgets l) provider),
                   (namespace, Budgets_Share (led_budgets l) namespace provider)]
       provider standing e now"

section \<open>Reserving, settling and reaping\<close>

definition reservation ::
  "Ledger \<Rightarrow> ID \<Rightarrow> string \<Rightarrow> string \<Rightarrow> Execution \<Rightarrow> bool \<Rightarrow> Time \<Rightarrow> Reservation" where
  "reservation l i namespace provider e pays now =
     \<lparr>rsv_ID = i, rsv_Provider = provider, rsv_CPU = ex_CPU e, rsv_Memory = ex_Memory e,
      rsv_Created = now,
      rsv_Charges = charges Total (Budgets_Total (led_budgets l) provider) e now pays @
        charges namespace (Budgets_Share (led_budgets l) namespace provider) e now pays\<rparr>"

definition Ledger_unlimited :: "Ledger \<Rightarrow> string \<Rightarrow> string \<Rightarrow> bool" where
  "Ledger_unlimited l namespace provider \<longleftrightarrow>
     Limits_Unlimited (Budgets_Total (led_budgets l) provider) \<and>
     Limits_Unlimited (Budgets_Share (led_budgets l) namespace provider)"

definition Ledger_Reserve ::
  "('s, 'w, 'e) Store \<Rightarrow> Ledger \<Rightarrow> ID \<Rightarrow> string \<Rightarrow> string \<Rightarrow> Execution \<Rightarrow> bool \<Rightarrow> Time \<Rightarrow> 's
    \<Rightarrow> 'e ledger_error option \<times> 's" where
  "Ledger_Reserve st l i namespace provider e pays now s =
     (if Ledger_unlimited l namespace provider then (None, s)
      else case s_Reserve st (reservation l i namespace provider e pays now) s of
          (Inl err, s') \<Rightarrow> (Some (ReservingQuota err), s')
        | (Inr (fitted, standing), s') \<Rightarrow>
            if \<not> fitted then (Some (Ledger_refusal l namespace provider standing e now), s')
            else (None, s'))"

definition Ledger_Settle ::
  "('s, 'w, 'e) Store \<Rightarrow> Ledger \<Rightarrow> ID \<Rightarrow> string \<Rightarrow> string \<Rightarrow> Execution \<Rightarrow> 's
    \<Rightarrow> 'e ledger_error option \<times> 's" where
  "Ledger_Settle st l i namespace provider actual s =
     (if Ledger_unlimited l namespace provider then (None, s)
      else case s_Settle st i (Ledger_deltas l namespace provider actual) s of
          (Some err, s') \<Rightarrow> (Some (SettlingQuota err), s')
        | (None, s') \<Rightarrow> (None, s'))"

definition Ledger_Reserved :: "('s, 'w, 'e) Store \<Rightarrow> ID \<Rightarrow> 's \<Rightarrow> 'e + bool" where
  "Ledger_Reserved st i s = s_Reserved st i s"

text \<open>The function \<open>Reap\<close> hands to the store, around the caller's resolver.\<close>

definition reap_settle ::
  "Ledger \<Rightarrow> (Held \<Rightarrow> 'w \<Rightarrow> (Verdict \<times> Duration) \<times> 'w) \<Rightarrow> Held \<Rightarrow> 'w \<Rightarrow> Actual option \<times> 'w" where
  "reap_settle l resolve h w =
     (case resolve h w of
        ((verdict, dur), w') \<Rightarrow>
          ((case verdict of
              Drop \<Rightarrow> Some Map.empty
            | Stand \<Rightarrow> Some (map_of (held_Amounts h))
            | Finished \<Rightarrow> Some (Ledger_deltas l (Held_namespace h) (held_Provider h)
                \<lparr>ex_CPU = held_CPU h, ex_Memory = held_Memory h, ex_Duration = dur\<rparr>)
            | Keep \<Rightarrow> None), w'))"

definition Ledger_Reap ::
  "('s, 'w, 'e) Store \<Rightarrow> Ledger \<Rightarrow> (Held \<Rightarrow> 'w \<Rightarrow> (Verdict \<times> Duration) \<times> 'w) \<Rightarrow> Time \<Rightarrow> 's \<Rightarrow> 'w
    \<Rightarrow> ('e ledger_error option \<times> int) \<times> 's \<times> 'w" where
  "Ledger_Reap st l resolve now s w =
     (case s_Reap st (now - StaleAfter) (reap_settle l resolve) s w of
        ((err, reaped), s', w') \<Rightarrow> ((map_option ReapingQuota err, reaped), s', w'))"

section \<open>Reading\<close>

definition Ledger_PoolUsage :: "Ledger \<Rightarrow> string \<Rightarrow> string \<Rightarrow> Time \<Rightarrow> PoolUsage \<times> PoolUsage" where
  "Ledger_PoolUsage l namespace provider now =
     (usageOf (led_snapshot l) Total provider (Budgets_Total (led_budgets l) provider) now,
      usageOf (led_snapshot l) namespace provider (Budgets_Share (led_budgets l) namespace provider) now)"

fun periods_add :: "Pool list \<Rightarrow> Time \<Rightarrow> string list \<Rightarrow> string list" where
  "periods_add [] now periods = periods"
| "periods_add (p # ps) now periods =
     (let key = Period_Key (pool_Period p) now in
      if key = [] \<or> key \<in> set periods then periods_add ps now periods
      else periods_add ps now (periods @ [key]))"

definition Ledger_periods :: "Ledger \<Rightarrow> Time \<Rightarrow> string list" where
  "Ledger_periods l now =
     (let periods = fold (\<lambda>(_, limits). periods_add (pools limits) now) (Totals (led_budgets l)) [];
          periods = fold (\<lambda>(_, shares). fold (\<lambda>(_, limits). periods_add (pools limits) now) shares)
            (Namespaces (led_budgets l)) periods
      in sort_cmp strCompare periods)"

definition Ledger_Refresh ::
  "('s, 'w, 'e) Store \<Rightarrow> Ledger \<Rightarrow> Time \<Rightarrow> 's \<Rightarrow> 'e ledger_error option \<times> Ledger" where
  "Ledger_Refresh st l now s =
     (case s_ReadUsage st (Ledger_periods l now) s of
        Inl err \<Rightarrow> (Some (ReadingQuota err), l)
      | Inr usage \<Rightarrow> (None, l\<lparr>led_snapshot := usage, led_refreshed := now\<rparr>))"

definition Ledger_New ::
  "('s, 'w, 'e) Store \<Rightarrow> Budgets \<Rightarrow> Time \<Rightarrow> 's \<Rightarrow> 'e ledger_error + Ledger" where
  "Ledger_New st budgets now s =
     (case Ledger_Refresh st \<lparr>led_budgets = budgets, led_snapshot = Map.empty, led_refreshed = 0\<rparr> now s of
        (Some err, l) \<Rightarrow> Inl err
      | (None, l) \<Rightarrow> Inr l)"

section \<open>The memory store\<close>

record Memory =
  mem_used :: Usage
  mem_held :: "(ID \<times> Reservation) list"

definition NewMemory :: "Usage \<Rightarrow> Memory" where
  "NewMemory used = \<lparr>mem_used = used, mem_held = []\<rparr>"

definition chargeKey :: "string \<Rightarrow> Charge \<Rightarrow> Key" where
  "chargeKey provider c =
     \<lparr>key_Namespace = ch_Namespace c, key_Provider = provider, key_Pool = ch_Pool c,
      key_Period = ch_Period c\<rparr>"

definition charge_ref :: "Charge \<Rightarrow> PoolRef" where
  "charge_ref c = \<lparr>ref_Namespace = ch_Namespace c, ref_Pool = ch_Pool c\<rparr>"

definition add_usage :: "Key \<Rightarrow> int \<Rightarrow> Usage \<Rightarrow> Usage" where
  "add_usage k amount usage = usage(k \<mapsto> wrap64 (mget usage k + amount))"

definition Memory_standing :: "Memory \<Rightarrow> Usage" where
  "Memory_standing m =
     fold (\<lambda>(i, r). fold (\<lambda>c. add_usage (chargeKey (rsv_Provider r) c) (ch_Amount c)) (rsv_Charges r))
       (mem_held m) (mem_used m)"

definition charge_refused :: "Usage \<Rightarrow> string \<Rightarrow> Charge \<Rightarrow> bool" where
  "charge_refused standing provider c \<longleftrightarrow>
     0 < ch_Amount c \<and> ch_Limit c < wrap64 (mget standing (chargeKey provider c) + ch_Amount c)"

definition Memory_Reserve :: "Reservation \<Rightarrow> Memory \<Rightarrow> ('e + bool \<times> Usage) \<times> Memory" where
  "Memory_Reserve r m =
     (let standing = Memory_standing m in
      case find_first (charge_refused standing (rsv_Provider r)) (rsv_Charges r) of
        Some c \<Rightarrow> (Inr (False, standing), m)
      | None \<Rightarrow> (Inr (True, Map.empty), m\<lparr>mem_held := AList.update (rsv_ID r) r (mem_held m)\<rparr>))"

definition settle_charge :: "Actual \<Rightarrow> string \<Rightarrow> Charge \<Rightarrow> Usage \<Rightarrow> Usage" where
  "settle_charge actual provider c used =
     (let amount = mget actual (charge_ref c) in
      if amount \<noteq> 0 then add_usage (chargeKey provider c) amount used else used)"

definition Memory_settle :: "ID \<Rightarrow> Actual \<Rightarrow> Memory \<Rightarrow> Memory" where
  "Memory_settle i actual m =
     (case map_of (mem_held m) i of
        None \<Rightarrow> m
      | Some r \<Rightarrow>
          m\<lparr>mem_held := AList.delete i (mem_held m),
            mem_used := fold (settle_charge actual (rsv_Provider r)) (rsv_Charges r) (mem_used m)\<rparr>)"

definition Memory_Settle :: "ID \<Rightarrow> Actual \<Rightarrow> Memory \<Rightarrow> 'e option \<times> Memory" where
  "Memory_Settle i actual m = (None, Memory_settle i actual m)"

definition Memory_Reserved :: "ID \<Rightarrow> Memory \<Rightarrow> 'e + bool" where
  "Memory_Reserved i m = Inr (map_of (mem_held m) i \<noteq> None)"

definition Memory_ReadUsage :: "string list \<Rightarrow> Memory \<Rightarrow> 'e + Usage" where
  "Memory_ReadUsage periods m =
     Inr (\<lambda>k. if key_Period k \<in> set periods then Memory_standing m k else None)"

definition held_of :: "ID \<Rightarrow> Reservation \<Rightarrow> Held" where
  "held_of i r =
     \<lparr>held_ID = i, held_Provider = rsv_Provider r, held_CPU = rsv_CPU r, held_Memory = rsv_Memory r,
      held_Amounts = fold (\<lambda>c. AList.update (charge_ref c) (ch_Amount c)) (rsv_Charges r) []\<rparr>"

fun Reap_loop ::
  "Time \<Rightarrow> (Held \<Rightarrow> 'w \<Rightarrow> Actual option \<times> 'w) \<Rightarrow> (ID \<times> Reservation) list \<Rightarrow> Memory \<Rightarrow> 'w \<Rightarrow> int
    \<Rightarrow> int \<times> Memory \<times> 'w" where
  "Reap_loop before settle [] m w reaped = (reaped, m, w)"
| "Reap_loop before settle ((i, r) # hs) m w reaped =
     (if \<not> rsv_Created r < before then Reap_loop before settle hs m w reaped
      else case settle (held_of i r) w of
          (None, w') \<Rightarrow> Reap_loop before settle hs m w' reaped
        | (Some actual, w') \<Rightarrow> Reap_loop before settle hs (Memory_settle i actual m) w' (reaped + 1))"

definition Memory_Reap ::
  "Time \<Rightarrow> (Held \<Rightarrow> 'w \<Rightarrow> Actual option \<times> 'w) \<Rightarrow> Memory \<Rightarrow> 'w \<Rightarrow> ('e option \<times> int) \<times> Memory \<times> 'w" where
  "Memory_Reap before settle m w =
     (case Reap_loop before settle (mem_held m) m w 0 of (reaped, m', w') \<Rightarrow> ((None, reaped), m', w'))"

definition memory_store :: "(Memory, 'w, 'e) Store" where
  "memory_store = \<lparr>s_Reserve = Memory_Reserve, s_Settle = Memory_Settle, s_Reserved = Memory_Reserved,
     s_ReadUsage = Memory_ReadUsage, s_Reap = Memory_Reap\<rparr>"

section \<open>Facts about pricing\<close>

definition budgets_ok :: "Budgets \<Rightarrow> bool" where
  "budgets_ok b \<longleftrightarrow> (\<forall>(k, l) \<in> set (Totals b). limits_ok l) \<and>
     (\<forall>(n, shares) \<in> set (Namespaces b). \<forall>(k, l) \<in> set shares. limits_ok l)"

lemma no_limits_ok [simp]: "limits_ok no_limits"
  by (simp add: no_limits_def limits_ok_def)

lemma limits_of_ok: "\<forall>(k, l) \<in> set m. limits_ok l \<Longrightarrow> limits_ok (limits_of m x)"
  by (auto simp: limits_of_def split: option.split dest: map_of_SomeD)

lemma budgets_ok_limits [intro]:
  assumes "budgets_ok b"
  shows "limits_ok (Budgets_Total b p)" and "limits_ok (Budgets_Share b n p)"
proof -
  show "limits_ok (Budgets_Total b p)"
    using assms by (auto simp: Budgets_Total_def budgets_ok_def intro!: limits_of_ok)
  have "limits_ok (limits_of shares p)" if "map_of (Namespaces b) n = Some shares" for shares
    using assms map_of_SomeD [OF that] by (auto simp: budgets_ok_def intro!: limits_of_ok)
  then show "limits_ok (Budgets_Share b n p)" by (simp add: Budgets_Share_def split: option.split)
qed

lemma usageOf_loop_other:
  "k \<notin> pool_Name ` set ps \<Longrightarrow> usageOf_loop ps usage n p now out k = out k"
  by (induction ps arbitrary: out) auto

lemma usageOf_loop_get:
  "distinct (map pool_Name ps) \<Longrightarrow> q \<in> set ps \<Longrightarrow>
    usageOf_loop ps usage n p now out (pool_Name q) = Some (mget usage (pool_key n p now q))"
proof (induction ps arbitrary: out)
  case (Cons x ps)
  then show ?case by (cases "q = x") (auto simp: usageOf_loop_other image_iff)
qed simp

lemma usageOf_get [simp]:
  "limits_ok l \<Longrightarrow> q \<in> set (pools l) \<Longrightarrow>
    mget (usageOf usage n p l now) (pool_Name q) = mget usage (pool_key n p now q)"
  by (simp add: usageOf_def mget_def usageOf_loop_get limits_ok_def)

lemma usageOf_dom: "dom (usageOf usage n p l now) = pool_Name ` set (pools l)"
proof -
  have "dom (usageOf_loop ps usage n p now out) = dom out \<union> pool_Name ` set ps" for ps out
    by (induction ps arbitrary: out) auto
  then show ?thesis by (simp add: usageOf_def)
qed

text \<open>The charge a layer puts on one of its pools.\<close>

definition pool_charge :: "string \<Rightarrow> Execution \<Rightarrow> Time \<Rightarrow> bool \<Rightarrow> Pool \<Rightarrow> Charge" where
  "pool_charge n e now pays q =
     \<lparr>ch_Namespace = n, ch_Pool = pool_Name q, ch_Period = Period_Key (pool_Period q) now,
      ch_Amount = max (Meter_charge (pool_Meter q) e) 0,
      ch_Limit = (if pays then MaxInt64 else pool_Limit q)\<rparr>"

lemma charges_eq: "limits_ok l \<Longrightarrow> charges n l e now pays = map (pool_charge n e now pays) (pools l)"
  by (simp add: charges_def Let_def pool_charge_def Deltas_get)

lemma chargeKey_pool [simp]: "chargeKey p (pool_charge n e now pays q) = pool_key n p now q"
  by (simp add: chargeKey_def pool_charge_def pool_key_def)

lemma paid_never_refused [simp]: "\<not> charge_refused u p (pool_charge n e now True q)"
  using int64_le_Max [OF int64_wrap64] by (auto simp: charge_refused_def pool_charge_def not_less)

lemma refused_exceeded:
  assumes "limits_ok l" "q \<in> set (pools l)" "charge_refused u p (pool_charge n e now False q)"
  shows "pool_exceeded (usageOf u n p l now) e q"
  using assms
  by (auto simp: charge_refused_def pool_exceeded_def Let_def) (auto simp: pool_charge_def max_def split: if_splits)

lemma refusal_loop_explains:
  assumes "\<forall>(n, l) \<in> set layers. limits_ok l"
    and "\<exists>(n, l) \<in> set layers. \<exists>q \<in> set (pools l). charge_refused u p (pool_charge n e now False q)"
  shows "\<exists>n l q. (n, l) \<in> set layers \<and> q \<in> set (pools l) \<and> pool_exceeded (usageOf u n p l now) e q \<and>
    refusal_loop layers p u e now =
      Refused \<lparr>rf_Namespace = n, rf_Provider = p, rf_Pool = pool_Name q, rf_Meter = pool_Meter q,
        rf_Limit = pool_Limit q, rf_Used = mget u (pool_key n p now q),
        rf_Needed = max (Meter_charge (pool_Meter q) e) 0\<rparr>"
  using assms
proof (induction layers)
  case Nil
  then show ?case by simp
next
  case (Cons layer layers)
  obtain n l where layer: "layer = (n, l)" by (cases layer)
  show ?case
  proof (cases "Limits_Exceeded l (usageOf u n p l now) e")
    case None
    then have "\<not> (\<exists>q \<in> set (pools l). charge_refused u p (pool_charge n e now False q))"
      using Cons.prems(1) refused_exceeded [of l _ u p n e now] by (auto simp: layer Limits_Exceeded_def)
    with Cons None show ?thesis by (auto simp: layer)
  next
    case (Some q)
    then have q: "q \<in> set (pools l)" "pool_exceeded (usageOf u n p l now) e q"
      by (auto simp: Limits_Exceeded_def dest: find_first_SomeD)
    moreover have "limits_ok l" using Cons.prems(1) by (simp add: layer)
    ultimately show ?thesis using Some
      by (intro exI [of _ n] exI [of _ l] exI [of _ q]) (simp add: layer Deltas_get)
  qed
qed

section \<open>The store's contract\<close>

text \<open>
  What the ledger relies on: \<open>standing\<close> is the usage a state counts against every key,
  settled and reserved together, and \<open>holds\<close> its open reservations.
\<close>

locale usage_store =
  fixes st :: "('s, 'w, 'e) Store"
    and standing :: "'s \<Rightarrow> Usage"
    and holds :: "'s \<Rightarrow> ID \<Rightarrow> Reservation option"
  assumes reserve_refuses: "s_Reserve st r s = (Inr (False, u), s') \<Longrightarrow>
      s' = s \<and> u = standing s \<and> (\<exists>c \<in> set (rsv_Charges r). charge_refused u (rsv_Provider r) c)"
    and reserve_accepts: "s_Reserve st r s = (Inr (True, u), s') \<Longrightarrow>
      (\<forall>c \<in> set (rsv_Charges r). \<not> charge_refused (standing s) (rsv_Provider r) c) \<and>
      holds s' = (holds s)(rsv_ID r \<mapsto> r)"
    and reserve_fails: "s_Reserve st r s = (Inl cause, s') \<Longrightarrow> s' = s"
    and settle_clears: "s_Settle st i actual s = (None, s') \<Longrightarrow> holds s' = (holds s)(i := None)"
    and settle_idle: "holds s i = None \<Longrightarrow> s_Settle st i actual s = (err, s') \<Longrightarrow> s' = s"
    and reserved_holds: "s_Reserved st i s = Inr b \<Longrightarrow> b \<longleftrightarrow> holds s i \<noteq> None"
    and read_standing: "s_ReadUsage st periods s = Inr u \<Longrightarrow> key_Period k \<in> set periods \<Longrightarrow>
      mget u k = mget (standing s) k"
begin

lemma reserve_paid:
  assumes "budgets_ok (led_budgets l)" "Ledger_Reserve st l i n p e True now s = (Some err, s')"
  shows "\<exists>cause. err = ReservingQuota cause"
proof (rule ccontr)
  assume "\<not> ?thesis"
  then obtain u s'' where "s_Reserve st (reservation l i n p e True now) s = (Inr (False, u), s'')"
    using assms(2) by (auto simp: Ledger_Reserve_def split: if_splits prod.splits sum.splits)
  from reserve_refuses [OF this] show False
    using assms(1) by (auto simp: reservation_def charges_eq budgets_ok_limits)
qed

text \<open>A refusal names a pool that has no room, and nothing was charged.\<close>

lemma reserve_refused:
  assumes "budgets_ok (led_budgets l)" "Ledger_Reserve st l i n p e pays now s = (Some err, s')"
  shows "s' = s \<and> ((\<exists>cause. err = ReservingQuota cause) \<or>
    (\<exists>m limits q. (m, limits) \<in> {(Total, Budgets_Total (led_budgets l) p),
        (n, Budgets_Share (led_budgets l) n p)} \<and> q \<in> set (pools limits) \<and>
      pool_exceeded (usageOf (standing s) m p limits now) e q \<and>
      err = Refused \<lparr>rf_Namespace = m, rf_Provider = p, rf_Pool = pool_Name q, rf_Meter = pool_Meter q,
        rf_Limit = pool_Limit q, rf_Used = mget (standing s) (pool_key m p now q),
        rf_Needed = max (Meter_charge (pool_Meter q) e) 0\<rparr>))"
proof -
  let ?r = "reservation l i n p e pays now"
  have "\<not> Ledger_unlimited l n p" using assms(2) by (auto simp: Ledger_Reserve_def)
  then consider (fails) cause where "s_Reserve st ?r s = (Inl cause, s')" "err = ReservingQuota cause"
    | (refuses) u where "s_Reserve st ?r s = (Inr (False, u), s')" "err = Ledger_refusal l n p u e now"
    using assms(2) by (auto simp: Ledger_Reserve_def split: if_splits prod.splits sum.splits)
  then show ?thesis
  proof cases
    case fails
    then show ?thesis using reserve_fails by blast
  next
    case refuses
    from reserve_refuses [OF refuses(1)] have s': "s' = s" "u = standing s" by auto
    from reserve_refuses [OF refuses(1)] obtain c where c: "c \<in> set (rsv_Charges ?r)"
      "charge_refused u p c" by (auto simp: reservation_def)
    then have "pays \<Longrightarrow> False" using assms(1) by (auto simp: reservation_def charges_eq budgets_ok_limits)
    then have "\<not> pays" by blast
    let ?layers = "[(Total, Budgets_Total (led_budgets l) p), (n, Budgets_Share (led_budgets l) n p)]"
    have "\<exists>(m, limits) \<in> set ?layers. \<exists>q \<in> set (pools limits). charge_refused u p (pool_charge m e now False q)"
      using c \<open>\<not> pays\<close> assms(1) by (auto simp: reservation_def charges_eq budgets_ok_limits)
    moreover have "\<forall>(m, limits) \<in> set ?layers. limits_ok limits"
      using assms(1) by (auto simp: budgets_ok_limits)
    ultimately show ?thesis
      using refusal_loop_explains [of ?layers u p e now] refuses(2) s' by (auto simp: Ledger_refusal_def)
  qed
qed

lemma reserve_accepted:
  assumes "Ledger_Reserve st l i n p e pays now s = (None, s')" "\<not> Ledger_unlimited l n p"
  shows "holds s' = (holds s)(i \<mapsto> reservation l i n p e pays now)"
    and "\<forall>c \<in> set (rsv_Charges (reservation l i n p e pays now)). \<not> charge_refused (standing s) p c"
proof -
  obtain u where "s_Reserve st (reservation l i n p e pays now) s = (Inr (True, u), s')"
    using assms by (auto simp: Ledger_Reserve_def split: if_splits prod.splits sum.splits)
  from reserve_accepts [OF this] show
    "holds s' = (holds s)(i \<mapsto> reservation l i n p e pays now)"
    "\<forall>c \<in> set (rsv_Charges (reservation l i n p e pays now)). \<not> charge_refused (standing s) p c"
    by (simp_all add: reservation_def)
qed

text \<open>Settling twice changes nothing: the second finds no reservation.\<close>

lemma settle_once:
  assumes "Ledger_Settle st l i n p a s = (None, s')" "Ledger_Settle st l i n p b s' = (err, s'')"
  shows "s'' = s'"
proof (cases "Ledger_unlimited l n p")
  case True
  with assms show ?thesis by (simp add: Ledger_Settle_def)
next
  case False
  with assms(1) have "s_Settle st i (Ledger_deltas l n p a) s = (None, s')"
    by (auto simp: Ledger_Settle_def split: prod.splits option.splits)
  then have "holds s' i = None" by (simp add: settle_clears)
  with False assms(2) show ?thesis
    by (auto simp: Ledger_Settle_def split: prod.splits option.splits dest: settle_idle)
qed

lemma settle_releases:
  assumes "Ledger_Settle st l i n p a s = (None, s')" "\<not> Ledger_unlimited l n p"
    "Ledger_Reserved st i s' = Inr b"
  shows "\<not> b"
  using assms by (auto simp: Ledger_Settle_def Ledger_Reserved_def split: prod.splits option.splits
      dest!: settle_clears reserved_holds)

text \<open>A refreshed ledger reads, for every pool of a provider, what the store counts for it now.\<close>

lemma refresh_reads:
  assumes "Ledger_Refresh st l now s = (None, l')" "limits_ok limits" "q \<in> set (pools limits)"
    "Period_Key (pool_Period q) now \<in> set (Ledger_periods l now)"
  shows "mget (usageOf (led_snapshot l') n p limits now) (pool_Name q)
    = mget (standing s) (pool_key n p now q)"
proof -
  have "s_ReadUsage st (Ledger_periods l now) s = Inr (led_snapshot l')"
    using assms(1) by (auto simp: Ledger_Refresh_def split: sum.splits)
  from read_standing [OF this] assms(2-4) show ?thesis by (simp add: pool_key_def)
qed

end

section \<open>The memory store keeps the contract\<close>

lemma memory_store_simps [simp]:
  "s_Reserve memory_store = Memory_Reserve" "s_Settle memory_store = Memory_Settle"
  "s_Reserved memory_store = Memory_Reserved" "s_ReadUsage memory_store = Memory_ReadUsage"
  "s_Reap memory_store = Memory_Reap"
  by (simp_all add: memory_store_def)

lemma find_first_refused:
  "find_first P xs = Some x \<Longrightarrow> \<exists>y \<in> set xs. P y"
  by (auto dest: find_first_SomeD)

interpretation memory: usage_store memory_store Memory_standing "\<lambda>m. map_of (mem_held m)"
proof unfold_locales
  fix r u s s'
  assume "s_Reserve memory_store r s = (Inr (False, u), s')"
  then show "s' = s \<and> u = Memory_standing s \<and> (\<exists>c \<in> set (rsv_Charges r). charge_refused u (rsv_Provider r) c)"
    by (auto simp: Memory_Reserve_def Let_def split: option.splits dest: find_first_refused)
next
  fix r u s s'
  assume "s_Reserve memory_store r s = (Inr (True, u), s')"
  then show "(\<forall>c \<in> set (rsv_Charges r). \<not> charge_refused (Memory_standing s) (rsv_Provider r) c) \<and>
      map_of (mem_held s') = (map_of (mem_held s))(rsv_ID r \<mapsto> r)"
    by (auto simp: Memory_Reserve_def Let_def update_conv' split: option.splits)
next
  fix r s cause s'
  assume "s_Reserve memory_store r s = (Inl cause, s')"
  then show "s' = s" by (simp add: Memory_Reserve_def Let_def split: option.splits)
next
  fix i actual s s'
  assume "s_Settle memory_store i actual s = (None, s')"
  then show "map_of (mem_held s') = (map_of (mem_held s))(i := None)"
    by (auto simp: Memory_Settle_def Memory_settle_def delete_conv' split: option.splits)
next
  fix s i actual err s'
  assume "map_of (mem_held s) i = None" "s_Settle memory_store i actual s = (err, s')"
  then show "s' = s" by (simp add: Memory_Settle_def Memory_settle_def)
next
  fix i s b
  assume "s_Reserved memory_store i s = Inr b"
  then show "b \<longleftrightarrow> map_of (mem_held s) i \<noteq> None" by (auto simp: Memory_Reserved_def)
next
  fix periods s u and k :: Key
  assume "s_ReadUsage memory_store periods s = Inr u" "key_Period k \<in> set periods"
  then show "mget u k = mget (Memory_standing s) k" by (auto simp: Memory_ReadUsage_def mget_def)
qed

section \<open>What the counters add up to\<close>

definition amounts_at :: "(Charge \<Rightarrow> int) \<Rightarrow> string \<Rightarrow> Charge list \<Rightarrow> Key \<Rightarrow> int" where
  "amounts_at f p cs k = (\<Sum>c\<leftarrow>cs. if chargeKey p c = k then f c else 0)"

definition charged :: "Reservation \<Rightarrow> Key \<Rightarrow> int" where
  "charged r = amounts_at ch_Amount (rsv_Provider r) (rsv_Charges r)"

definition reserved_sum :: "(ID \<times> Reservation) list \<Rightarrow> Key \<Rightarrow> int" where
  "reserved_sum hs k = (\<Sum>(i, r)\<leftarrow>hs. charged r k)"

definition counted :: "Memory \<Rightarrow> Key \<Rightarrow> int" where
  "counted m k = mget (mem_used m) k + reserved_sum (mem_held m) k"

lemma add_usage_get: "mget (add_usage k a u) k' = (if k' = k then wrap64 (mget u k + a) else mget u k')"
  by (simp add: add_usage_def)

lemma fold_add_usage:
  "int64 (mget u k) \<Longrightarrow> mget (fold (\<lambda>c. add_usage (chargeKey p c) (f c)) cs u) k
     = wrap64 (mget u k + amounts_at f p cs k)"
  by (induction cs arbitrary: u) (auto simp: amounts_at_def add_usage_get add_ac)

lemma standing_counted:
  assumes "int64 (mget (mem_used m) k)"
  shows "mget (Memory_standing m) k = wrap64 (counted m k)"
proof -
  have "mget (fold (\<lambda>(i, r). fold (\<lambda>c. add_usage (chargeKey (rsv_Provider r) c) (ch_Amount c)) (rsv_Charges r)) hs u) k
      = wrap64 (mget u k + reserved_sum hs k)" if "int64 (mget u k)" for hs u
    using that
  proof (induction hs arbitrary: u)
    case (Cons h hs)
    obtain i r where h: "h = (i, r)" by (cases h)
    show ?case using Cons.prems
      by (simp add: h Cons.IH fold_add_usage reserved_sum_def charged_def add_ac)
  qed (simp add: reserved_sum_def)
  from this [OF assms] show ?thesis by (simp add: Memory_standing_def counted_def)
qed

lemma settle_fold:
  "int64 (mget u k) \<Longrightarrow> mget (fold (settle_charge actual p) cs u) k
     = wrap64 (mget u k + amounts_at (\<lambda>c. mget actual (charge_ref c)) p cs k)"
  by (induction cs arbitrary: u) (auto simp: amounts_at_def settle_charge_def Let_def add_usage_get add_ac)

lemma reserved_sum_delete:
  assumes "distinct (map fst hs)" "map_of hs i = Some r"
  shows "reserved_sum (AList.delete i hs) k = reserved_sum hs k - charged r k"
  using assms
proof (induction hs)
  case (Cons h hs)
  obtain j q where h: "h = (j, q)" by (cases h)
  show ?case
  proof (cases "j = i")
    case True
    with Cons.prems have "AList.delete i hs = hs" by (simp add: h delete_id)
    with True Cons.prems show ?thesis by (simp add: h reserved_sum_def)
  next
    case False
    with Cons show ?thesis by (simp add: h reserved_sum_def)
  qed
qed simp

lemma reserved_sum_update:
  assumes "distinct (map fst hs)"
  shows "reserved_sum (AList.update i r hs) k
    = reserved_sum hs k + charged r k - (case map_of hs i of None \<Rightarrow> 0 | Some q \<Rightarrow> charged q k)"
  using assms
proof (induction hs)
  case (Cons h hs)
  obtain j q where h: "h = (j, q)" by (cases h)
  from Cons show ?case by (cases "j = i") (auto simp: h reserved_sum_def)
qed (simp add: reserved_sum_def)

section \<open>Limits are never passed\<close>

text \<open>
  \<open>L\<close> is the limit of every counter.  A reservation is honest when its charges are not
  negative, sit on different counters, carry the limit of theirs, and cannot overflow on top
  of it; a settlement is covered when it costs no more than was reserved.
\<close>

definition honest :: "(Key \<Rightarrow> int) \<Rightarrow> Reservation \<Rightarrow> bool" where
  "honest L r \<longleftrightarrow> distinct (map (chargeKey (rsv_Provider r)) (rsv_Charges r)) \<and>
     (\<forall>c \<in> set (rsv_Charges r). 0 \<le> ch_Amount c \<and> ch_Limit c = L (chargeKey (rsv_Provider r) c) \<and>
        ch_Amount c + L (chargeKey (rsv_Provider r) c) \<le> MaxInt64)"

definition covered :: "Reservation \<Rightarrow> Actual \<Rightarrow> bool" where
  "covered r actual \<longleftrightarrow> (\<forall>c \<in> set (rsv_Charges r).
     0 \<le> mget actual (charge_ref c) \<and> mget actual (charge_ref c) \<le> ch_Amount c)"

definition memory_ok :: "(Key \<Rightarrow> int) \<Rightarrow> Memory \<Rightarrow> bool" where
  "memory_ok L m \<longleftrightarrow> distinct (map fst (mem_held m)) \<and>
     (\<forall>(i, r) \<in> set (mem_held m). \<forall>c \<in> set (rsv_Charges r). 0 \<le> ch_Amount c) \<and>
     (\<forall>k. 0 \<le> mget (mem_used m) k \<and> counted m k \<le> L k)"

lemma amounts_at_nonneg: "\<forall>c \<in> set cs. 0 \<le> f c \<Longrightarrow> 0 \<le> amounts_at f p cs k"
  by (induction cs) (auto simp: amounts_at_def)

lemma amounts_at_mono: "\<forall>c \<in> set cs. f c \<le> g c \<Longrightarrow> amounts_at f p cs k \<le> amounts_at g p cs k"
  by (induction cs) (auto simp: amounts_at_def)

lemma amounts_at_other: "k \<notin> chargeKey p ` set cs \<Longrightarrow> amounts_at f p cs k = 0"
  by (induction cs) (auto simp: amounts_at_def)

lemma amounts_at_key:
  "distinct (map (chargeKey p) cs) \<Longrightarrow> c \<in> set cs \<Longrightarrow> amounts_at f p cs (chargeKey p c) = f c"
proof (induction cs)
  case (Cons d cs)
  then show ?case
    using amounts_at_other [of "chargeKey p d" p cs f] by (auto simp: amounts_at_def image_iff)
qed simp

lemma reserved_sum_nonneg:
  "\<forall>(i, r) \<in> set hs. \<forall>c \<in> set (rsv_Charges r). 0 \<le> ch_Amount c \<Longrightarrow> 0 \<le> reserved_sum hs k"
  by (induction hs) (auto simp: reserved_sum_def charged_def intro!: add_nonneg_nonneg amounts_at_nonneg)

lemma memory_ok_bounds:
  assumes "memory_ok L m"
  shows "0 \<le> reserved_sum (mem_held m) k" "mget (mem_used m) k \<le> L k" "0 \<le> counted m k" "0 \<le> L k"
proof -
  show "0 \<le> reserved_sum (mem_held m) k"
    using assms by (intro reserved_sum_nonneg) (simp add: memory_ok_def)
  with assms have "0 \<le> mget (mem_used m) k" "counted m k \<le> L k" by (simp_all add: memory_ok_def)
  with \<open>0 \<le> reserved_sum (mem_held m) k\<close> show "mget (mem_used m) k \<le> L k" "0 \<le> counted m k" "0 \<le> L k"
    by (simp_all add: counted_def)
qed

lemma memory_ok_standing:
  assumes "memory_ok L m" "L k \<le> MaxInt64"
  shows "mget (Memory_standing m) k = counted m k"
proof -
  note b = memory_ok_bounds [OF assms(1), of k]
  have c: "counted m k \<le> L k" "0 \<le> mget (mem_used m) k" using assms(1) by (simp_all add: memory_ok_def)
  then have "int64 (mget (mem_used m) k)" using b assms(2) by (simp add: int64_def MaxInt64_def)
  moreover have "int64 (counted m k)" using b c assms(2) by (simp add: int64_def MaxInt64_def)
  ultimately show ?thesis by (simp add: standing_counted)
qed

lemma update_set: "(i, r) \<in> set (AList.update j q hs) \<Longrightarrow> (i, r) = (j, q) \<or> (i, r) \<in> set hs"
  by (induction hs) (auto split: if_splits)

lemma Memory_Reserve_ok:
  assumes ok: "memory_ok L m" and h: "honest L r" and L: "\<forall>k. L k \<le> MaxInt64"
    and res: "Memory_Reserve r m = (out, m')"
  shows "memory_ok L m'"
proof (cases "find_first (charge_refused (Memory_standing m) (rsv_Provider r)) (rsv_Charges r)")
  case (Some c)
  with res ok show ?thesis by (simp add: Memory_Reserve_def Let_def)
next
  case None
  let ?hs = "mem_held m" and ?p = "rsv_Provider r"
  have m': "m' = m\<lparr>mem_held := AList.update (rsv_ID r) r ?hs\<rparr>"
    using res unfolding Memory_Reserve_def Let_def None by simp
  have d: "distinct (map fst ?hs)" using ok by (simp add: memory_ok_def)
  have c0: "\<forall>c \<in> set (rsv_Charges r). 0 \<le> ch_Amount c" using h by (simp add: honest_def)
  have old: "0 \<le> (case map_of ?hs (rsv_ID r) of None \<Rightarrow> 0 | Some q \<Rightarrow> charged q k)" for k
    using ok by (auto simp: memory_ok_def charged_def split: option.split
        dest!: map_of_SomeD intro!: amounts_at_nonneg)
  have "counted m' k \<le> L k" for k
  proof -
    have le: "counted m' k \<le> counted m k + charged r k"
      using old [of k] by (simp add: counted_def m' reserved_sum_update [OF d])
    have cm: "counted m k \<le> L k" "0 \<le> counted m k"
      using ok memory_ok_bounds [OF ok] by (simp_all add: memory_ok_def)
    show ?thesis
    proof (cases "\<exists>c \<in> set (rsv_Charges r). chargeKey ?p c = k \<and> 0 < ch_Amount c")
      case True
      then obtain c where c: "c \<in> set (rsv_Charges r)" "k = chargeKey ?p c" "0 < ch_Amount c" by auto
      then have "charged r k = ch_Amount c" using h by (simp add: charged_def honest_def amounts_at_key)
      moreover have "\<not> charge_refused (Memory_standing m) ?p c" using None c(1) by simp
      moreover have "ch_Limit c = L k" "ch_Amount c + L k \<le> MaxInt64" using h c by (simp_all add: honest_def)
      moreover have "int64 (counted m k + ch_Amount c)"
        using cm c(3) \<open>ch_Amount c + L k \<le> MaxInt64\<close> by (simp add: int64_def MaxInt64_def)
      ultimately show ?thesis
        using le c memory_ok_standing [OF ok, of k] L by (simp add: charge_refused_def)
    next
      case False
      then have "amounts_at ch_Amount ?p (rsv_Charges r) k \<le> amounts_at (\<lambda>_. 0) ?p (rsv_Charges r) k"
        unfolding amounts_at_def by (intro sum_list_mono) (auto simp: not_less)
      then have "charged r k \<le> 0" by (simp add: charged_def) (simp add: amounts_at_def)
      with le cm show ?thesis by simp
    qed
  qed
  moreover have "0 \<le> ch_Amount c"
    if "(j, q) \<in> set (AList.update (rsv_ID r) r ?hs)" "c \<in> set (rsv_Charges q)" for j q c
    using update_set [OF that(1)] that(2) c0 ok by (fastforce simp: memory_ok_def)
  ultimately show ?thesis using ok by (auto simp: memory_ok_def m' distinct_update)
qed

lemma Memory_settle_ok:
  assumes ok: "memory_ok L m" and L: "\<forall>k. L k \<le> MaxInt64"
    and cov: "\<And>r. map_of (mem_held m) i = Some r \<Longrightarrow> covered r actual"
  shows "memory_ok L (Memory_settle i actual m)"
proof (cases "map_of (mem_held m) i")
  case None
  with ok show ?thesis by (simp add: Memory_settle_def)
next
  case (Some r)
  let ?m = "Memory_settle i actual m" and ?p = "rsv_Provider r" and ?f = "\<lambda>c. mget actual (charge_ref c)"
  have m': "mem_held ?m = AList.delete i (mem_held m)"
    "mem_used ?m = fold (settle_charge actual ?p) (rsv_Charges r) (mem_used m)"
    by (simp_all add: Memory_settle_def Some)
  have d: "distinct (map fst (mem_held m))" using ok by (simp add: memory_ok_def)
  note cov = cov [OF Some, unfolded covered_def]
  have sub: "set (AList.delete i (mem_held m)) \<subseteq> set (mem_held m)" by (auto simp: AList.delete_eq)
  have pos: "0 \<le> reserved_sum (AList.delete i (mem_held m)) k" for k
    using ok sub by (intro reserved_sum_nonneg) (fastforce simp: memory_ok_def)
  have "0 \<le> mget (mem_used ?m) k \<and> counted ?m k \<le> L k" for k
  proof -
    have a: "0 \<le> amounts_at ?f ?p (rsv_Charges r) k" "amounts_at ?f ?p (rsv_Charges r) k \<le> charged r k"
      using cov by (auto simp: charged_def intro: amounts_at_nonneg amounts_at_mono)
    have u: "0 \<le> mget (mem_used m) k" "counted m k \<le> L k" using ok by (simp_all add: memory_ok_def)
    have sum: "reserved_sum (mem_held m) k = reserved_sum (AList.delete i (mem_held m)) k + charged r k"
      using reserved_sum_delete [OF d Some] by simp
    have le: "mget (mem_used m) k + amounts_at ?f ?p (rsv_Charges r) k \<le> L k"
      using a u sum pos [of k] by (simp add: counted_def)
    have lim: "L k \<le> MaxInt64" using L by simp
    have "int64 (mget (mem_used m) k)" "int64 (mget (mem_used m) k + amounts_at ?f ?p (rsv_Charges r) k)"
      using le lim u(1) a(1) by (simp_all add: int64_def MaxInt64_def)
    then have "mget (mem_used ?m) k = mget (mem_used m) k + amounts_at ?f ?p (rsv_Charges r) k"
      by (simp add: m' settle_fold)
    with a u sum show ?thesis by (simp add: counted_def m')
  qed
  moreover have "0 \<le> ch_Amount c"
    if "(j, q) \<in> set (AList.delete i (mem_held m))" "c \<in> set (rsv_Charges q)" for j q c
    using that sub ok by (fastforce simp: memory_ok_def)
  ultimately show ?thesis using d by (auto simp: memory_ok_def m'(1) distinct_delete)
qed

lemma Reap_loop_ok:
  assumes "memory_ok L m" "\<forall>k. L k \<le> MaxInt64" "distinct (map fst hs)"
    and "\<forall>(i, r) \<in> set hs. map_of (mem_held m) i = Some r"
    and "\<forall>(i, r) \<in> set hs. \<forall>w actual w'. settle (held_of i r) w = (Some actual, w') \<longrightarrow> covered r actual"
    and "Reap_loop before settle hs m w n = (n', m', w')"
  shows "memory_ok L m'"
  using assms
proof (induction hs arbitrary: m w n)
  case Nil
  then show ?case by simp
next
  case (Cons h hs)
  obtain i r where h: "h = (i, r)" by (cases h)
  show ?case
  proof (cases "rsv_Created r < before \<and> fst (settle (held_of i r) w) \<noteq> None")
    case False
    then obtain w2 where "Reap_loop before settle hs m w2 n = (n', m', w')"
      using Cons.prems(6) by (auto simp: h split: if_splits prod.splits)
    then show ?thesis using Cons.prems by (intro Cons.IH [of m w2 n]) (auto simp: h)
  next
    case True
    then obtain actual w2 where s: "settle (held_of i r) w = (Some actual, w2)"
      by (metis option.exhaust prod.collapse)
    let ?m = "Memory_settle i actual m"
    have held: "map_of (mem_held m) i = Some r" using Cons.prems(4) by (simp add: h)
    have "memory_ok L ?m"
      using Cons.prems(1,2,5) held s by (intro Memory_settle_ok) (auto simp: h)
    moreover have "\<forall>(j, q) \<in> set hs. map_of (mem_held ?m) j = Some q"
      using Cons.prems(3,4) by (auto simp: h Memory_settle_def held AList.delete_conv' rev_image_eqI)
    moreover have "Reap_loop before settle hs ?m w2 (n + 1) = (n', m', w')"
      using Cons.prems(6) True by (simp add: h s)
    ultimately show ?thesis using Cons.prems by (intro Cons.IH [of ?m w2 "n + 1"]) (auto simp: h)
  qed
qed

text \<open>Every state an empty store reaches through honest reservations and covered settlements.\<close>

inductive mem_reach :: "(Key \<Rightarrow> int) \<Rightarrow> Memory \<Rightarrow> bool" for L where
  empty: "mem_reach L (NewMemory Map.empty)"
| reserve: "mem_reach L m \<Longrightarrow> honest L r \<Longrightarrow> Memory_Reserve r m = (out :: unit + _, m') \<Longrightarrow> mem_reach L m'"
| settle: "mem_reach L m \<Longrightarrow> (\<And>r. map_of (mem_held m) i = Some r \<Longrightarrow> covered r actual) \<Longrightarrow>
    Memory_Settle i actual m = (err :: unit option, m') \<Longrightarrow> mem_reach L m'"
| reap: "mem_reach L m \<Longrightarrow>
    (\<And>i r w actual w'. (i, r) \<in> set (mem_held m) \<Longrightarrow> callback (held_of i r) w = (Some actual, w') \<Longrightarrow>
      covered r actual) \<Longrightarrow>
    Memory_Reap before callback m (w :: unit) = (out :: unit option \<times> _, m', w') \<Longrightarrow> mem_reach L m'"

lemma mem_reach_ok:
  assumes "mem_reach L m" "\<forall>k. 0 \<le> L k \<and> L k \<le> MaxInt64"
  shows "memory_ok L m"
  using assms(1)
proof (induction rule: mem_reach.induct)
  case empty
  then show ?case using assms(2) by (simp add: memory_ok_def NewMemory_def counted_def reserved_sum_def)
next
  case (reserve m r out m')
  then show ?case using assms(2) by (intro Memory_Reserve_ok [of L m r out m']) auto
next
  case (settle m i actual err m')
  then show ?case using assms(2) Memory_settle_ok [of L m i actual] by (auto simp: Memory_Settle_def)
next
  case (reap m callback before w out m' w')
  obtain n where loop: "Reap_loop before callback (mem_held m) m w 0 = (n, m', w')"
    using reap.hyps(3) by (auto simp: Memory_Reap_def split: prod.splits)
  have "distinct (map fst (mem_held m))" using reap.IH by (simp add: memory_ok_def)
  then show ?case using reap.IH reap.hyps(2) assms(2) loop
    by (intro Reap_loop_ok [of L m "mem_held m" callback before w 0 n m' w']) auto
qed

section \<open>The budgets as limits of the counters\<close>

definition layer :: "Budgets \<Rightarrow> Key \<Rightarrow> Limits" where
  "layer b k = (if key_Namespace k = Total then Budgets_Total b (key_Provider k)
     else Budgets_Share b (key_Namespace k) (key_Provider k))"

definition budget_limit :: "Budgets \<Rightarrow> Key \<Rightarrow> int" where
  "budget_limit b k = (case find_first (\<lambda>q. pool_Name q = key_Pool k) (pools (layer b k)) of
     None \<Rightarrow> 0 | Some q \<Rightarrow> pool_Limit q)"

lemma layer_ok: "budgets_ok b \<Longrightarrow> limits_ok (layer b k)"
  by (auto simp: layer_def)

lemma find_pool:
  "limits_ok l \<Longrightarrow> q \<in> set (pools l) \<Longrightarrow> find_first (\<lambda>r. pool_Name r = pool_Name q) (pools l) = Some q"
proof -
  assume l: "limits_ok l" and q: "q \<in> set (pools l)"
  then obtain r where r: "find_first (\<lambda>r. pool_Name r = pool_Name q) (pools l) = Some r"
    by (cases "find_first (\<lambda>r. pool_Name r = pool_Name q) (pools l)") auto
  from find_first_SomeD [OF r] l q have "r = q" by (auto simp: limits_ok_def dest: inj_onD simp flip: distinct_map)
      (metis distinct_map inj_onD)
  with r show ?thesis by simp
qed

lemma budget_limit_range:
  assumes "budgets_ok b" shows "0 \<le> budget_limit b k" "budget_limit b k \<le> MaxInt64"
  using layer_ok [OF assms, of k]
  by (auto simp: budget_limit_def limits_ok_def pool_ok_def MaxInt64_def split: option.split dest!: find_first_SomeD)

text \<open>No pool is so near the top of its \<open>int64\<close> that adding this execution's charge wraps.\<close>

definition charge_fits :: "Limits \<Rightarrow> Execution \<Rightarrow> bool" where
  "charge_fits l e \<longleftrightarrow> (\<forall>q \<in> set (pools l). max (Meter_charge (pool_Meter q) e) 0 + pool_Limit q \<le> MaxInt64)"

lemma reservation_honest:
  assumes "budgets_ok (led_budgets l)" "n \<noteq> Total"
    and "charge_fits (Budgets_Total (led_budgets l) p) e" "charge_fits (Budgets_Share (led_budgets l) n p) e"
  shows "honest (budget_limit (led_budgets l)) (reservation l i n p e False now)"
proof -
  let ?b = "led_budgets l"
  have ok: "limits_ok (Budgets_Total ?b p)" "limits_ok (Budgets_Share ?b n p)" using assms(1) by auto
  have "budget_limit ?b (pool_key Total p now q) = pool_Limit q" if "q \<in> set (pools (Budgets_Total ?b p))" for q
    using find_pool [OF ok(1) that] by (simp add: budget_limit_def layer_def pool_key_def)
  moreover have "budget_limit ?b (pool_key n p now q) = pool_Limit q" if "q \<in> set (pools (Budgets_Share ?b n p))" for q
    using find_pool [OF ok(2) that] assms(2) by (simp add: budget_limit_def layer_def pool_key_def)
  moreover have "distinct (map (pool_key m p now) (pools k))" if "limits_ok k" for m k
    using that by (auto simp: limits_ok_def distinct_map inj_on_def pool_key_def)
  ultimately show ?thesis
    using assms ok by (auto simp: honest_def reservation_def charges_eq comp_def charge_fits_def)
      (auto simp: pool_charge_def pool_key_def)
qed

section \<open>Properties\<close>

text \<open>C3. Free quota is never overdrawn: in every state the memory store reaches from empty through
  reservations within their limits, settlements of at most what was reserved, and reaping, each
  counter's settled and reserved usage together stay between zero and its limit, and the
  64-bit sum the store computes is that usage.\<close>

theorem limits_never_passed:
  assumes "mem_reach L m" "\<forall>k. 0 \<le> L k \<and> L k \<le> MaxInt64"
  shows "0 \<le> mget (mem_used m) k \<and> mget (mem_used m) k \<le> counted m k \<and> counted m k \<le> L k \<and>
    mget (Memory_standing m) k = counted m k"
proof -
  have ok: "memory_ok L m" by (rule mem_reach_ok [OF assms])
  from memory_ok_bounds [OF ok, of k] ok have "0 \<le> mget (mem_used m) k" "counted m k \<le> L k"
    "mget (mem_used m) k \<le> counted m k"
    by (auto simp: memory_ok_def counted_def)
  with memory_ok_standing [OF ok, of k] assms(2) show ?thesis by simp
qed

theorem limits_never_passed_witness:
  "\<forall>k. counted (snd (Memory_Reserve \<lparr>rsv_ID = 1, rsv_Provider = ''p'', rsv_CPU = 0, rsv_Memory = 0, rsv_Created = 0,
     rsv_Charges = [\<lparr>ch_Namespace = [], ch_Pool = ''runs'', ch_Period = ''d'', ch_Amount = 3, ch_Limit = 10\<rparr>]\<rparr>
     (NewMemory Map.empty) :: (unit + bool \<times> Usage) \<times> Memory)) k \<le> 10"
proof
  fix k
  let ?r = "\<lparr>rsv_ID = 1, rsv_Provider = ''p'', rsv_CPU = 0, rsv_Memory = 0, rsv_Created = 0,
     rsv_Charges = [\<lparr>ch_Namespace = [], ch_Pool = ''runs'', ch_Period = ''d'', ch_Amount = 3, ch_Limit = 10\<rparr>]\<rparr>"
  let ?out = "Memory_Reserve ?r (NewMemory Map.empty) :: (unit + bool \<times> Usage) \<times> Memory"
  have "mem_reach (\<lambda>k. 10) (snd ?out)"
    by (rule mem_reach.reserve [OF mem_reach.empty, of _ ?r "fst ?out"]) (simp_all add: honest_def MaxInt64_def)
  from limits_never_passed [OF this, of k] show "counted (snd ?out) k \<le> 10" by (simp add: MaxInt64_def)
qed

text \<open>Reserving for work that will not pay keeps the ledger within the budgets: on both layers, the
  provider's total and the namespace's share, no counter passes the limit its pool declares.\<close>

theorem reserve_within_budgets:
  fixes err :: "'e ledger_error option"
  assumes "memory_ok (budget_limit (led_budgets l)) m" "budgets_ok (led_budgets l)" "n \<noteq> Total"
    and "charge_fits (Budgets_Total (led_budgets l) p) e" "charge_fits (Budgets_Share (led_budgets l) n p) e"
    and "Ledger_Reserve memory_store l i n p e False now m = (err, m')"
  shows "memory_ok (budget_limit (led_budgets l)) m'"
proof (cases "Ledger_unlimited l n p")
  case True
  with assms(1,6) show ?thesis by (simp add: Ledger_Reserve_def)
next
  case False
  then obtain out :: "'e + bool \<times> Usage" where "Memory_Reserve (reservation l i n p e False now) m = (out, m')"
    using assms(6) by (auto simp: Ledger_Reserve_def split: sum.splits prod.splits if_splits)
  moreover have "honest (budget_limit (led_budgets l)) (reservation l i n p e False now)"
    using assms(2-5) by (rule reservation_honest)
  ultimately show ?thesis
    using Memory_Reserve_ok [OF assms(1)] budget_limit_range [OF assms(2)] by blast
qed

definition sample_budgets :: Budgets where
  "sample_budgets = \<lparr>Totals = [(''p'', \<lparr>pools = [\<lparr>pool_Name = ''runs'', pool_Meter = MeterExecutions,
     pool_Period = PeriodDaily, pool_Limit = 1\<rparr>]\<rparr>)], Namespaces = []\<rparr>"

definition sample_ledger :: Ledger where
  "sample_ledger = \<lparr>led_budgets = sample_budgets, led_snapshot = Map.empty, led_refreshed = 0\<rparr>"

abbreviation unit_store :: "(Memory, unit, unit) Store" where "unit_store \<equiv> memory_store"

abbreviation no_execution :: Execution where
  "no_execution \<equiv> \<lparr>ex_CPU = 0, ex_Memory = 0, ex_Duration = 0\<rparr>"

lemma sample_budgets_ok: "budgets_ok (led_budgets sample_ledger)"
  by code_simp

theorem reserve_within_budgets_witness:
  "memory_ok (budget_limit sample_budgets)
    (snd (Ledger_Reserve unit_store sample_ledger 1 ''n'' ''p'' no_execution False 0 (NewMemory Map.empty)))"
proof -
  have empty: "memory_ok (budget_limit (led_budgets sample_ledger)) (NewMemory Map.empty)"
    using budget_limit_range [OF sample_budgets_ok]
    by (simp add: memory_ok_def NewMemory_def counted_def reserved_sum_def)
  have fits: "charge_fits (Budgets_Total (led_budgets sample_ledger) ''p'') no_execution"
    "charge_fits (Budgets_Share (led_budgets sample_ledger) ''n'' ''p'') no_execution"
    by code_simp+
  have "''n'' \<noteq> Total" by (simp add: Total_def)
  from reserve_within_budgets [OF empty sample_budgets_ok this fits surjective_pairing]
  have "memory_ok (budget_limit (led_budgets sample_ledger))
    (snd (Ledger_Reserve unit_store sample_ledger 1 ''n'' ''p'' no_execution False 0 (NewMemory Map.empty)))" .
  then show ?thesis by (simp add: sample_ledger_def)
qed

text \<open>C39. Every refusal is explained: it leaves the store as it was, and names a pool, of the provider's
  total or of the namespace's share, that has no room for the execution, with what the pool
  holds and what was needed.\<close>

theorem refusal_explained:
  assumes "budgets_ok (led_budgets l)"
    "Ledger_Reserve (memory_store :: (Memory, 'w, 'e) Store) l i n p e pays now m = (Some err, m')"
  shows "m' = m \<and> \<not> pays \<and> (\<exists>k limits q. (k, limits) \<in> {(Total, Budgets_Total (led_budgets l) p),
        (n, Budgets_Share (led_budgets l) n p)} \<and> q \<in> set (pools limits) \<and>
      pool_exceeded (usageOf (Memory_standing m) k p limits now) e q \<and>
      err = Refused \<lparr>rf_Namespace = k, rf_Provider = p, rf_Pool = pool_Name q, rf_Meter = pool_Meter q,
        rf_Limit = pool_Limit q, rf_Used = mget (Memory_standing m) (pool_key k p now q),
        rf_Needed = max (Meter_charge (pool_Meter q) e) 0\<rparr>)"
proof -
  have never: "err \<noteq> ReservingQuota cause" for cause
    using assms(2) by (auto simp: Ledger_Reserve_def Memory_Reserve_def Ledger_refusal_def Let_def
        split: if_splits prod.splits sum.splits option.splits)
  have "\<not> pays"
  proof
    assume pays
    with assms(2) have "Ledger_Reserve (memory_store :: (Memory, 'w, 'e) Store) l i n p e True now m = (Some err, m')" by simp
    from memory.reserve_paid [OF assms(1) this] never show False by blast
  qed
  with never memory.reserve_refused [OF assms] show ?thesis by blast
qed

theorem refusal_explained_witness:
  "\<exists>err m'. Ledger_Reserve unit_store sample_ledger 2 ''n'' ''p'' no_execution False 0
      (NewMemory [\<lparr>key_Namespace = Total, key_Provider = ''p'', key_Pool = ''runs'', key_Period = Period_Key PeriodDaily 0\<rparr> \<mapsto> 1])
    = (Some err, m') \<and>
    m' = NewMemory [\<lparr>key_Namespace = Total, key_Provider = ''p'', key_Pool = ''runs'', key_Period = Period_Key PeriodDaily 0\<rparr> \<mapsto> 1]"
proof -
  let ?m = "NewMemory [\<lparr>key_Namespace = Total, key_Provider = ''p'', key_Pool = ''runs'', key_Period = Period_Key PeriodDaily 0\<rparr> \<mapsto> 1]"
  let ?out = "Ledger_Reserve unit_store sample_ledger 2 ''n'' ''p'' no_execution False 0 ?m"
  have "fst ?out \<noteq> None" by code_simp
  then obtain err m' where out: "?out = (Some err, m')" by (cases ?out) auto
  with refusal_explained [OF sample_budgets_ok out] show ?thesis by blast
qed

text \<open>Work that declared it will pay is never refused for quota, whatever the pools hold.\<close>

theorem paying_never_refused:
  assumes "budgets_ok (led_budgets l)"
  shows "fst (Ledger_Reserve unit_store l i n p e True now m) = None"
proof (rule ccontr)
  let ?out = "Ledger_Reserve unit_store l i n p e True now m"
  assume "\<not> ?thesis"
  then obtain err m' where out: "?out = (Some err, m')" by (cases ?out) auto
  with memory.reserve_paid [OF assms out] show False
    by (auto simp: Ledger_Reserve_def Memory_Reserve_def Ledger_refusal_def Let_def
        split: if_splits prod.splits sum.splits option.splits)
qed

theorem paying_never_refused_witness:
  "fst (Ledger_Reserve unit_store sample_ledger 2 ''n'' ''p'' no_execution True 0
      (NewMemory [\<lparr>key_Namespace = Total, key_Provider = ''p'', key_Pool = ''runs'', key_Period = Period_Key PeriodDaily 0\<rparr> \<mapsto> 1])) = None"
  by (rule paying_never_refused [OF sample_budgets_ok])

text \<open>Settling is idempotent: a second settlement of the same execution charges nothing, whatever it
  reports, and a settled execution holds no reservation.\<close>

theorem settled_once:
  assumes "Ledger_Settle unit_store l i n p a m = (None, m')"
  shows "snd (Ledger_Settle unit_store l i n p b m') = m' \<and>
    (\<not> Ledger_unlimited l n p \<longrightarrow> Ledger_Reserved unit_store i m' = Inr False)"
proof -
  have "Ledger_Reserved unit_store i m' = Inr (map_of (mem_held m') i \<noteq> None)"
    by (simp add: Ledger_Reserved_def Memory_Reserved_def)
  then show ?thesis
    using memory.settle_once [OF assms] memory.settle_releases [OF assms] by (metis prod.collapse)
qed

theorem settled_once_witness:
  "snd (Ledger_Settle unit_store sample_ledger 1 ''n'' ''p'' no_execution
     (snd (Ledger_Settle unit_store sample_ledger 1 ''n'' ''p'' no_execution
        (snd (Ledger_Reserve unit_store sample_ledger 1 ''n'' ''p'' no_execution False 0 (NewMemory Map.empty))))))
   = snd (Ledger_Settle unit_store sample_ledger 1 ''n'' ''p'' no_execution
        (snd (Ledger_Reserve unit_store sample_ledger 1 ''n'' ''p'' no_execution False 0 (NewMemory Map.empty))))"
  (is "snd (Ledger_Settle _ _ _ _ _ _ (snd ?one)) = _")
proof -
  have "?one = (None, snd ?one)"
    by (simp add: Ledger_Settle_def Memory_Settle_def)
  from settled_once [OF this] show ?thesis by blast
qed

end
