(* ===== verification/Plugin.thy ===== *)
theory Plugin
  imports Job Ledger
begin

text \<open>
  \<^verbatim>\<open>internal/plugin\<close>: what a provider advertises, the dotted attributes constraints
  match against, the classification of failures, and the coherence of a submission.  An error
  is a tree of the values the code wraps: a sentinel, a format with its arguments and wrapped
  errors, a join, a classified failure, or a quota refusal.  Rendering an error to text is left
  to its users.
\<close>

section \<open>Capabilities\<close>

record Resources =
  r_CPU :: int
  r_Memory :: int

record ResourceLimits =
  rl_CPU :: "int option"
  rl_Memory :: "int option"

datatype Capabilities = Capabilities
    (cap_Drivers: "DriverName list")
    (cap_Architectures: "Arch list")
    (cap_MaxResources: ResourceLimits)
    (cap_MaxDuration: Duration)
    (cap_DefaultResources: Resources)
    (cap_InternetEgress: bool)
    (cap_PrivateNetwork: bool)
    (cap_ArbitraryImages: bool)
    (cap_EstimatedCost: Cost)
    (cap_ObservedAt: Time)
    (cap_Members: "Member list")
  and Member = Member
    (mem_Name: string)
    (mem_Capabilities: Capabilities)
    (mem_Labels: "(string \<times> string) list")

definition SupportsDriver :: "Capabilities \<Rightarrow> DriverName \<Rightarrow> bool" where
  "SupportsDriver c d \<longleftrightarrow> d \<in> set (cap_Drivers c)"

definition SupportsArch :: "Capabilities \<Rightarrow> Arch \<Rightarrow> bool" where
  "SupportsArch c a \<longleftrightarrow> a \<in> set (cap_Architectures c)"

definition WithinDuration :: "Capabilities \<Rightarrow> Duration \<Rightarrow> bool" where
  "WithinDuration c d \<longleftrightarrow> cap_MaxDuration c = 0 \<or> d \<le> cap_MaxDuration c"

definition Sized :: "Capabilities \<Rightarrow> Resources \<Rightarrow> Resources" where
  "Sized c r =
     (let r = (if r_CPU r = 0 then r\<lparr>r_CPU := r_CPU (cap_DefaultResources c)\<rparr> else r)
      in if r_Memory r = 0 then r\<lparr>r_Memory := r_Memory (cap_DefaultResources c)\<rparr> else r)"

definition WithinResources :: "Capabilities \<Rightarrow> Resources \<Rightarrow> bool" where
  "WithinResources c r \<longleftrightarrow>
     (let r = Sized c r in
      if (case rl_CPU (cap_MaxResources c) of None \<Rightarrow> False | Some limit \<Rightarrow> limit < r_CPU r) then False
      else (case rl_Memory (cap_MaxResources c) of None \<Rightarrow> True | Some limit \<Rightarrow> r_Memory r \<le> limit))"

definition StaleAt :: "Capabilities \<Rightarrow> Time \<Rightarrow> Duration \<Rightarrow> bool" where
  "StaleAt c now maxAge \<longleftrightarrow>
     (if Time_IsZero (cap_ObservedAt c) then True else maxAge < Time_Sub now (cap_ObservedAt c))"

section \<open>Attributes\<close>

definition Prefix :: string where [vocab]: "Prefix = ''provider.''"
definition AttrArchitecture :: string where [vocab]: "AttrArchitecture = ''provider.architecture''"
definition AttrDrivers :: string where [vocab]: "AttrDrivers = ''provider.drivers''"
definition AttrMaxDuration :: string where [vocab]: "AttrMaxDuration = ''provider.max_duration''"
definition AttrMaxCPU :: string where [vocab]: "AttrMaxCPU = ''provider.max_cpu''"
definition AttrMaxMemory :: string where [vocab]: "AttrMaxMemory = ''provider.max_memory''"
definition AttrInternetEgress :: string where [vocab]: "AttrInternetEgress = ''provider.internet''"
definition AttrPrivateNetwork :: string where [vocab]: "AttrPrivateNetwork = ''provider.private_network''"
definition AttrArbitraryImages :: string where [vocab]: "AttrArbitraryImages = ''provider.arbitrary_images''"
definition AttrEstimatedCost :: string where [vocab]: "AttrEstimatedCost = ''provider.estimated_cost''"
definition AttrFreeQuotaPercent :: string where [vocab]: "AttrFreeQuotaPercent = ''provider.free_quota_percent''"
definition AttrTier :: string where [vocab]: "AttrTier = ''provider.tier''"
definition MetaPrefix :: string where [vocab]: "MetaPrefix = ''provider.meta.''"
definition NodeLabelPrefix :: string where [vocab]: "NodeLabelPrefix = ''node.label.''"

definition setValuedAttributes :: "string list" where
  "setValuedAttributes = [AttrArchitecture, AttrDrivers]"

definition knownAttributes :: "string list" where
  "knownAttributes = [AttrArchitecture, AttrDrivers, AttrMaxDuration, AttrMaxCPU, AttrMaxMemory,
     AttrInternetEgress, AttrPrivateNetwork, AttrArbitraryImages, AttrEstimatedCost,
     AttrFreeQuotaPercent, AttrTier]"

type_synonym Attrs = "string \<Rightarrow> string option"

definition Attributes :: "Capabilities \<Rightarrow> Attrs" where
  "Attributes c =
     (let attrs = [AttrInternetEgress \<mapsto> FormatBool (cap_InternetEgress c),
                   AttrPrivateNetwork \<mapsto> FormatBool (cap_PrivateNetwork c),
                   AttrArbitraryImages \<mapsto> FormatBool (cap_ArbitraryImages c),
                   AttrEstimatedCost \<mapsto> Itoa (cap_EstimatedCost c)];
          attrs = (if cap_Architectures c \<noteq> []
                   then attrs(AttrArchitecture \<mapsto> strings_Join (cap_Architectures c) '','') else attrs);
          attrs = (if cap_Drivers c \<noteq> []
                   then attrs(AttrDrivers \<mapsto> strings_Join (cap_Drivers c) '','') else attrs);
          attrs = (if 0 < cap_MaxDuration c
                   then attrs(AttrMaxDuration \<mapsto> Duration_String (cap_MaxDuration c)) else attrs);
          attrs = (case rl_CPU (cap_MaxResources c) of None \<Rightarrow> attrs
                   | Some limit \<Rightarrow> attrs(AttrMaxCPU \<mapsto> Itoa limit))
      in case rl_Memory (cap_MaxResources c) of None \<Rightarrow> attrs
         | Some limit \<Rightarrow> attrs(AttrMaxMemory \<mapsto> Itoa limit))"

definition SetValued :: "string \<Rightarrow> bool" where
  "SetValued name \<longleftrightarrow> name \<in> set setValuedAttributes"

definition Reserved :: "string \<Rightarrow> bool" where
  "Reserved name \<longleftrightarrow> HasPrefix name Prefix"

definition Matchable :: "string \<Rightarrow> bool" where
  "Matchable name \<longleftrightarrow>
     (if HasPrefix name MetaPrefix \<or> HasPrefix name NodeLabelPrefix then True
      else name \<in> set knownAttributes)"

section \<open>Failures\<close>

type_synonym Class = string

definition ClassInfrastructure :: Class where [vocab]: "ClassInfrastructure = ''infrastructure''"
definition ClassInternal :: Class where [vocab]: "ClassInternal = ''internal''"

definition classNames :: "Class list" where "classNames = [ClassInfrastructure, ClassInternal]"

definition Class_Valid :: "Class \<Rightarrow> bool" where
  "Class_Valid c \<longleftrightarrow> c \<in> set classNames"

definition Class_Reroutable :: "Class \<Rightarrow> bool" where
  "Class_Reroutable c \<longleftrightarrow> c = ClassInfrastructure"

datatype arg = S string | N int | I ID

datatype goerror =
    Sentinel string
  | Formatted string "arg list" "goerror list"
  | Joined "goerror list"
  | Classified (err_Class: Class) (err_Retryable: bool) (err_RetryAfter: Duration)
      (err_Provider: string) (err_Op: string) (err_Err: "goerror option")
  | RefusalError Refusal

definition ErrProvider :: string where [vocab]: "ErrProvider = ''provider operation failed''"
definition ErrNotFound :: string where [vocab]: "ErrNotFound = ''not found''"
definition ErrUnauthorized :: string where [vocab]: "ErrUnauthorized = ''unauthorized''"
definition ErrUnsupported :: string where [vocab]: "ErrUnsupported = ''operation not supported by this provider''"
definition ErrInvalidSubmission :: string where [vocab]: "ErrInvalidSubmission = ''invalid submission''"
definition ErrUnknownExecution :: string where [vocab]: "ErrUnknownExecution = ''unknown execution''"

text \<open>
  \<open>errors.Is\<close> against a sentinel, and \<open>errors.As\<close> to a classified failure or a refusal: the
  first match of a depth-first walk over the wrapped errors.
\<close>

fun err_is :: "string \<Rightarrow> goerror \<Rightarrow> bool" where
  "err_is t (Sentinel s) = (s = t)"
| "err_is t (Formatted f args es) = (\<exists>e \<in> set es. err_is t e)"
| "err_is t (Joined es) = (\<exists>e \<in> set es. err_is t e)"
| "err_is t (Classified c r ra p op e) =
     (t = ErrProvider \<or> (case e of None \<Rightarrow> False | Some e \<Rightarrow> err_is t e))"
| "err_is t (RefusalError r) = False"

fun as_classified :: "goerror \<Rightarrow> goerror option"
  and first_classified :: "goerror list \<Rightarrow> goerror option" where
  "as_classified (Sentinel s) = None"
| "as_classified (Formatted f args es) = first_classified es"
| "as_classified (Joined es) = first_classified es"
| "as_classified (Classified c r ra p op e) = Some (Classified c r ra p op e)"
| "as_classified (RefusalError r) = None"
| "first_classified [] = None"
| "first_classified (e # es) =
     (case as_classified e of None \<Rightarrow> first_classified es | Some x \<Rightarrow> Some x)"

fun has_refusal :: "goerror \<Rightarrow> bool" where
  "has_refusal (Sentinel s) = False"
| "has_refusal (Formatted f args es) = (\<exists>e \<in> set es. has_refusal e)"
| "has_refusal (Joined es) = (\<exists>e \<in> set es. has_refusal e)"
| "has_refusal (Classified c r ra p op e) = (case e of None \<Rightarrow> False | Some e \<Rightarrow> has_refusal e)"
| "has_refusal (RefusalError r) = True"

definition Infrastructure :: "goerror \<Rightarrow> goerror" where
  "Infrastructure e = Classified ClassInfrastructure True 0 [] [] (Some e)"

definition Internal :: "goerror \<Rightarrow> goerror" where
  "Internal e = Classified ClassInternal False 0 [] [] (Some e)"

definition WithContext :: "goerror \<Rightarrow> string \<Rightarrow> string \<Rightarrow> goerror" where
  "WithContext e provider op =
     (case e of Classified c r ra p opx cause \<Rightarrow> Classified c r ra provider op cause | _ \<Rightarrow> e)"

definition Reroutable :: "goerror \<Rightarrow> bool" where
  "Reroutable e =
     (case as_classified e of None \<Rightarrow> False | Some c \<Rightarrow> Class_Reroutable (err_Class c))"

definition retry_after :: "Duration \<Rightarrow> goerror \<Rightarrow> goerror" where
  "retry_after d e =
     (case e of Classified c r ra p op cause \<Rightarrow> Classified c r d p op cause | _ \<Rightarrow> e)"

definition ClassifyHTTP :: "int \<Rightarrow> Duration \<Rightarrow> goerror \<Rightarrow> goerror" where
  "ClassifyHTTP status retryAfter err =
     (let wrapped = Formatted ''http %d: %w'' [N status] [err] in
      if status = 408 \<or> status = 429 then retry_after retryAfter (Infrastructure wrapped)
      else if status = 404 then Internal (Formatted ''%w: %w'' [] [Sentinel ErrNotFound, wrapped])
      else if status = 401 \<or> status = 403
        then Internal (Formatted ''%w: %w'' [] [Sentinel ErrUnauthorized, wrapped])
      else if 400 \<le> status \<and> status < 500 then Internal wrapped
      else if 500 \<le> status then retry_after retryAfter (Infrastructure wrapped)
      else Infrastructure wrapped)"

definition ErrInvalidDuration :: string where [vocab]: "ErrInvalidDuration = ''invalid duration''"

text \<open>The errors of \<^verbatim>\<open>Duration.Std\<close>, the only ones \<open>Duration_Std\<close> returns.\<close>

definition duration_error :: "job_error \<Rightarrow> goerror" where
  "duration_error err =
     (case err of
        InvalidDurationText s \<Rightarrow> Formatted ''%w %q: %w'' [S s] [Sentinel ErrInvalidDuration, Sentinel ''invalid duration'']
      | NegativeDuration s \<Rightarrow> Formatted ''%w %q: must not be negative'' [S s] [Sentinel ErrInvalidDuration]
      | _ \<Rightarrow> Formatted '''' [] [])"

text \<open>What a refused transition returns.\<close>

definition unknownState :: "string \<Rightarrow> goerror" where
  "unknownState name =
     Formatted ''%w %q: valid states are %s'' [S name, S (strings_Join stateNames '', '')] [Sentinel ''unknown execution state'']"

definition transition_error :: "state_error \<Rightarrow> goerror" where
  "transition_error e =
     (case e of
        ErrUnknownState s \<Rightarrow> unknownState s
      | ErrIllegalTransition s next_state \<Rightarrow>
          Formatted ''%w: %s to %s'' [S s, S next_state] [Sentinel ''illegal state transition''])"

section \<open>Submissions\<close>

record Submission =
  sub_ProviderID :: string
  sub_State :: State
  sub_Result :: "Result option"

definition Synchronous :: "Submission \<Rightarrow> bool" where
  "Synchronous s \<longleftrightarrow> sub_Result s \<noteq> None"

definition submittableStates :: "State list" where
  "submittableStates = [StateAccepted, StateRunning, StateSucceeded, StateFailed]"

definition Submission_Validate :: "Submission \<Rightarrow> goerror option" where
  "Submission_Validate s =
     (if \<not> State_Valid (sub_State s)
        then Some (Formatted ''%w: submission state %q'' [S (sub_State s)] [Sentinel ErrInvalidSubmission])
      else if sub_State s \<notin> set submittableStates
        then Some (Formatted ''%w: a submission cannot report state %q'' [S (sub_State s)]
          [Sentinel ErrInvalidSubmission])
      else if sub_Result s \<noteq> None \<and> \<not> State_Terminal (sub_State s)
        then Some (Formatted ''%w: state %q carries a result but is not terminal'' [S (sub_State s)]
          [Sentinel ErrInvalidSubmission])
      else if sub_Result s = None \<and> State_Terminal (sub_State s)
        then Some (Formatted ''%w: state %q is terminal but carries no result'' [S (sub_State s)]
          [Sentinel ErrInvalidSubmission])
      else None)"

text \<open>The operations a provider embeds when its platform has no equivalent.\<close>

definition StatusNotSupported :: "goerror + Status" where
  "StatusNotSupported = Inl (Internal (Formatted ''status: %w'' [] [Sentinel ErrUnsupported]))"

definition ResultNotSupported :: "goerror + Result option" where
  "ResultNotSupported = Inl (Internal (Formatted ''result: %w'' [] [Sentinel ErrUnsupported]))"

definition CancelNotSupported :: "goerror option" where
  "CancelNotSupported = Some (Internal (Formatted ''cancel: %w'' [] [Sentinel ErrUnsupported]))"

section \<open>Facts\<close>

lemma attr_distinct [simp]: "distinct knownAttributes"
  by (simp add: knownAttributes_def vocab)

lemma class_distinct [simp]: "ClassInfrastructure \<noteq> ClassInternal" "ClassInternal \<noteq> ClassInfrastructure"
  by (simp_all add: vocab)

lemma sentinel_distinct [simp]:
  "ErrNotFound \<noteq> ErrUnauthorized" "ErrUnauthorized \<noteq> ErrNotFound"
  "ErrUnauthorized \<noteq> ErrProvider" "ErrNotFound \<noteq> ErrProvider"
  "ErrUnknownExecution \<noteq> ErrProvider" "ErrUnsupported \<noteq> ErrProvider" "ErrInvalidSubmission \<noteq> ErrProvider"
  "ErrUnsupported \<noteq> ErrUnknownExecution" "ErrUnknownExecution \<noteq> ErrUnsupported"
  "ErrUnsupported \<noteq> ErrUnauthorized" "ErrUnknownExecution \<noteq> ErrUnauthorized"
  "ErrInvalidSubmission \<noteq> ErrUnauthorized" "ErrUnauthorized \<noteq> ErrInvalidSubmission"
  by (simp_all add: vocab)

lemma Reroutable_simps [simp]:
  "Reroutable (Infrastructure e)" "\<not> Reroutable (Internal e)" "\<not> Reroutable (Sentinel s)"
  "\<not> Reroutable (RefusalError r)" "Reroutable (retry_after d e) \<longleftrightarrow> Reroutable e"
  by (simp_all add: Reroutable_def Infrastructure_def Internal_def Class_Reroutable_def retry_after_def
      split: goerror.split)

lemma err_is_simps [simp]:
  "err_is t (Infrastructure e) \<longleftrightarrow> t = ErrProvider \<or> err_is t e"
  "err_is t (Internal e) \<longleftrightarrow> t = ErrProvider \<or> err_is t e"
  "err_is t (retry_after d e) \<longleftrightarrow> err_is t e"
  by (simp_all add: Infrastructure_def Internal_def retry_after_def split: goerror.split)

lemma Submission_Validate_None:
  "Submission_Validate s = None \<longleftrightarrow>
     sub_State s \<in> set submittableStates \<and> (sub_Result s \<noteq> None \<longleftrightarrow> State_Terminal (sub_State s))"
  by (auto simp: Submission_Validate_def submittableStates_def)

lemma submittable_iff:
  "s \<in> set submittableStates \<longleftrightarrow> s = StateAccepted \<or> s = StateRunning \<or> s = StateSucceeded \<or> s = StateFailed"
  by (auto simp: submittableStates_def)

lemma WithinResources_iff:
  "WithinResources c r \<longleftrightarrow>
     (\<forall>limit. rl_CPU (cap_MaxResources c) = Some limit \<longrightarrow> r_CPU (Sized c r) \<le> limit) \<and>
     (\<forall>limit. rl_Memory (cap_MaxResources c) = Some limit \<longrightarrow> r_Memory (Sized c r) \<le> limit)"
  by (auto simp: WithinResources_def Let_def split: option.split)

lemma Sized_simps:
  "r_CPU (Sized c r) = (if r_CPU r = 0 then r_CPU (cap_DefaultResources c) else r_CPU r)"
  "r_Memory (Sized c r) = (if r_Memory r = 0 then r_Memory (cap_DefaultResources c) else r_Memory r)"
  by (simp_all add: Sized_def Let_def)

lemma Attributes_get:
  "Attributes c AttrInternetEgress = Some (FormatBool (cap_InternetEgress c))"
  "Attributes c AttrPrivateNetwork = Some (FormatBool (cap_PrivateNetwork c))"
  "Attributes c AttrArbitraryImages = Some (FormatBool (cap_ArbitraryImages c))"
  "Attributes c AttrEstimatedCost = Some (Itoa (cap_EstimatedCost c))"
  "Attributes c AttrArchitecture =
     (if cap_Architectures c = [] then None else Some (strings_Join (cap_Architectures c) '',''))"
  "Attributes c AttrDrivers = (if cap_Drivers c = [] then None else Some (strings_Join (cap_Drivers c) '',''))"
  "Attributes c AttrMaxDuration =
     (if 0 < cap_MaxDuration c then Some (Duration_String (cap_MaxDuration c)) else None)"
  "Attributes c AttrMaxCPU = map_option Itoa (rl_CPU (cap_MaxResources c))"
  "Attributes c AttrMaxMemory = map_option Itoa (rl_Memory (cap_MaxResources c))"
  "Attributes c AttrFreeQuotaPercent = None"
  "Attributes c AttrTier = None"
  by (simp_all add: Attributes_def Let_def vocab split: option.split)

lemma Attributes_dom: "dom (Attributes c) \<subseteq> set knownAttributes"
  by (auto simp: Attributes_def Let_def knownAttributes_def split: option.splits if_splits)

lemma StaleAt_mono: "now \<le> now' \<Longrightarrow> StaleAt c now maxAge \<Longrightarrow> StaleAt c now' maxAge"
  using Time_Sub_mono [of now now' "cap_ObservedAt c"] by (auto simp: StaleAt_def split: if_splits)

section \<open>Properties\<close>

text \<open>An HTTP failure is retried elsewhere exactly when it says nothing about the request: timeouts,
  throttling, server errors and anything outside 400 to 599.  A missing resource and a refused
  credential are recognised as such whatever they wrap.\<close>

theorem http_classification:
  "(Reroutable (ClassifyHTTP status after err) \<longleftrightarrow> status = 408 \<or> status = 429 \<or> status < 400 \<or> 500 \<le> status) \<and>
   (status = 404 \<longrightarrow> err_is ErrNotFound (ClassifyHTTP status after err)) \<and>
   (status = 401 \<or> status = 403 \<longrightarrow> err_is ErrUnauthorized (ClassifyHTTP status after err)) \<and>
   err_is ErrProvider (ClassifyHTTP status after err) \<and>
   (err_is t err \<longrightarrow> err_is t (ClassifyHTTP status after err))"
  by (auto simp: ClassifyHTTP_def Let_def)

theorem http_classification_witness:
  "\<not> Reroutable (ClassifyHTTP 404 0 (Sentinel ''gone'')) \<and> err_is ErrNotFound (ClassifyHTTP 404 0 (Sentinel ''gone''))"
  using http_classification [of 404 0 "Sentinel ''gone''"] by simp

text \<open>A provider's answer to a submission is accepted exactly when it names a state a submission can
  reach, and carries a result exactly when that state is final.\<close>

theorem submission_accepted_iff:
  "Submission_Validate s = None \<longleftrightarrow>
     (sub_State s = StateAccepted \<or> sub_State s = StateRunning) \<and> sub_Result s = None \<or>
     (sub_State s = StateSucceeded \<or> sub_State s = StateFailed) \<and> sub_Result s \<noteq> None"
  unfolding Submission_Validate_None submittable_iff
  by (auto simp: terminal_iff StateAccepted_def StateRunning_def StateSucceeded_def StateFailed_def StateCancelled_def)

end
