(* ===== verification/Rendering.thy ===== *)
theory Rendering
  imports Plugin
begin

text \<open>
  The text of an error: \<^verbatim>\<open>fmt\<close>'s verbs over the arguments the model keeps, and the \<^verbatim>\<open>Error\<close> methods of
  \<^verbatim>\<open>internal/plugin\<close> and \<^verbatim>\<open>internal/ledger\<close>.  Quoting, the shortest decimal form of a float64 and
  the form of an identifier are the fields of \<open>Fmt\<close>, a parameter.
\<close>

record Fmt =
  fm_Quote :: "string \<Rightarrow> string"
  fm_Float :: "rat \<Rightarrow> string"
  fm_ID :: "ID \<Rightarrow> string"

section \<open>Formatting\<close>

definition verb_text :: "Fmt \<Rightarrow> char \<Rightarrow> arg \<Rightarrow> string" where
  "verb_text f v a =
     (case a of
        S s \<Rightarrow> if v = CHR ''q'' then fm_Quote f s else s
      | N n \<Rightarrow> Itoa n
      | I i \<Rightarrow> fm_ID f i)"

text \<open>A verb takes the next argument, and \<open>%w\<close> the next error; a verb with none left is rendered as \<open>fmt\<close> does.\<close>

fun Sprintf :: "Fmt \<Rightarrow> string \<Rightarrow> arg list \<Rightarrow> string list \<Rightarrow> string" where
  "Sprintf f [] args errs = []"
| "Sprintf f [c] args errs = [c]"
| "Sprintf f (c # v # text) args errs =
     (if c \<noteq> CHR ''%'' then c # Sprintf f (v # text) args errs
      else if v = CHR ''%'' then v # Sprintf f text args errs
      else if v = CHR ''w''
      then (case errs of [] \<Rightarrow> ''%!w(MISSING)'' @ Sprintf f text args []
                       | e # es \<Rightarrow> e @ Sprintf f text args es)
      else (case args of [] \<Rightarrow> ''%!'' @ [v] @ ''(MISSING)'' @ Sprintf f text [] errs
                       | a # rest \<Rightarrow> verb_text f v a @ Sprintf f text rest errs))"

fun strings_Contains :: "string \<Rightarrow> string \<Rightarrow> bool" where
  "strings_Contains [] sub = HasPrefix [] sub"
| "strings_Contains (c # s) sub = (HasPrefix (c # s) sub \<or> strings_Contains s sub)"

section \<open>Errors\<close>

definition Refusal_Error :: "Fmt \<Rightarrow> Refusal \<Rightarrow> string" where
  "Refusal_Error f r =
     (let owner = (if rf_Namespace r \<noteq> Total
        then Sprintf f ''pool %q of namespace %q on provider %q'' [S (rf_Pool r), S (rf_Namespace r), S (rf_Provider r)] []
        else Sprintf f ''pool %q of provider %q'' [S (rf_Pool r), S (rf_Provider r)] [])
      in owner @ '' has '' @ fm_Float f (Meter_Natural (rf_Meter r) (max (wrap64 (rf_Limit r - rf_Used r)) 0)) @
        '' of '' @ fm_Float f (Meter_Natural (rf_Meter r) (rf_Limit r)) @ '' '' @ Meter_Unit (rf_Meter r) @
        '' left; this task needs '' @ fm_Float f (Meter_Natural (rf_Meter r) (rf_Needed r)))"

definition Failure_Error :: "Class \<Rightarrow> string \<Rightarrow> string \<Rightarrow> string option \<Rightarrow> string" where
  "Failure_Error c provider op cause =
     c @ '' failure'' @ (if provider \<noteq> [] then '' from '' @ provider else []) @
     (if op \<noteq> [] then '' during '' @ op else []) @ (case cause of None \<Rightarrow> [] | Some text \<Rightarrow> '': '' @ text)"

fun err_text :: "Fmt \<Rightarrow> goerror \<Rightarrow> string" where
  "err_text f (Sentinel s) = s"
| "err_text f (Formatted text args es) = Sprintf f text args (map (err_text f) es)"
| "err_text f (Joined es) = strings_Join (map (err_text f) es) [CHR 0x0A]"
| "err_text f (Classified c retryable after provider op e) = Failure_Error c provider op (map_option (err_text f) e)"
| "err_text f (RefusalError r) = Refusal_Error f r"

text \<open>Why a budget does not compile.\<close>

definition quota_text :: "Fmt \<Rightarrow> quota_error \<Rightarrow> string" where
  "quota_text f e =
     (case e of
        PoolHasNoName \<Rightarrow> ''quota pool has no name''
      | PoolDeclaredTwice name \<Rightarrow> Sprintf f ''quota pool %q declared twice'' [S name] []
      | PoolMetersUnknown name meter \<Rightarrow> Sprintf f ''quota pool %q meters unknown %q'' [S name, S meter] []
      | PoolUnknownPeriod name period \<Rightarrow> Sprintf f ''quota pool %q resets on unknown period %q'' [S name, S period] []
      | PoolNoPositiveLimit name \<Rightarrow> Sprintf f ''quota pool %q has no positive limit'' [S name] []
      | PoolLimitTooLarge name limit unit \<Rightarrow>
          Sprintf f ''quota pool %q limit of %d %s is too large to count'' [S name, N limit, S unit] [])"

section \<open>Facts\<close>

lemma Contains_iff: "strings_Contains s sub \<longleftrightarrow> (\<exists>a b. s = a @ sub @ b)"
proof (induction s)
  case Nil
  then show ?case by (auto simp: HasPrefix_iff)
next
  case (Cons c s)
  have "(\<exists>a b. c # s = a @ sub @ b) \<longleftrightarrow> (\<exists>b. c # s = sub @ b) \<or> (\<exists>a b. s = a @ sub @ b)"
    by (metis (no_types, lifting) append_Cons append_Nil list.exhaust list.inject)
  then show ?case by (simp add: HasPrefix_iff Cons.IH)
qed

lemma Contains_append: "strings_Contains t sub \<Longrightarrow> strings_Contains (s @ t) sub"
  by (metis Contains_iff append.assoc)

lemma Contains_prepend: "strings_Contains t sub \<Longrightarrow> strings_Contains (t @ u) sub"
  by (metis Contains_iff append.assoc)

lemma Contains_Cons: "strings_Contains t sub \<Longrightarrow> strings_Contains (c # t) sub"
  using Contains_append [of t sub "[c]"] by simp

lemma Failure_Error_contains:
  "strings_Contains cause sub \<Longrightarrow> strings_Contains (Failure_Error c provider op (Some cause)) sub"
  by (auto simp: Failure_Error_def intro!: Contains_append Contains_Cons)

end
