(* ===== verification/Urls.thy ===== *)
theory Urls
  imports Rendering
begin

text \<open>
  What the client and the server use of \<^verbatim>\<open>net/url\<close>, \<^verbatim>\<open>path\<close> and the patterns of \<^verbatim>\<open>net/http.ServeMux\<close>:
  percent-encoding, cleaning a rooted path, joining one to the base of a server, query values, and
  matching a path against a pattern segment by segment.  Strings are bytes.
\<close>

section \<open>Percent-encoding\<close>

definition hex_digit :: "nat \<Rightarrow> char" where
  "hex_digit d = (if d < 10 then char_of (48 + d) else char_of (55 + d))"

definition unhex :: "char \<Rightarrow> nat option" where
  "unhex c =
     (let b = of_char c :: nat in
      if 48 \<le> b \<and> b \<le> 57 then Some (b - 48)
      else if 65 \<le> b \<and> b \<le> 70 then Some (b - 55)
      else if 97 \<le> b \<and> b \<le> 102 then Some (b - 87)
      else None)"

definition unreserved :: "char \<Rightarrow> bool" where
  "unreserved c \<longleftrightarrow>
     (let b = of_char c :: nat in
      (97 \<le> b \<and> b \<le> 122) \<or> (65 \<le> b \<and> b \<le> 90) \<or> (48 \<le> b \<and> b \<le> 57)) \<or> c \<in> set ''-_.~''"

text \<open>Bytes kept as they are in a path segment.\<close>

definition segment_byte :: "char \<Rightarrow> bool" where
  "segment_byte c \<longleftrightarrow> unreserved c \<or> c \<in> set ''$&+:=@''"

fun escape :: "(char \<Rightarrow> bool) \<Rightarrow> bool \<Rightarrow> string \<Rightarrow> string" where
  "escape kept query [] = []"
| "escape kept query (c # cs) =
     (if query \<and> c = CHR '' '' then CHR ''+'' # escape kept query cs
      else if kept c then c # escape kept query cs
      else CHR ''%'' # hex_digit (of_char c div 16) # hex_digit (of_char c mod 16) # escape kept query cs)"

definition PathEscape :: "string \<Rightarrow> string" where
  "PathEscape s = escape segment_byte False s"

definition QueryEscape :: "string \<Rightarrow> string" where
  "QueryEscape s = escape unreserved True s"

fun unescape :: "bool \<Rightarrow> string \<Rightarrow> string option" where
  "unescape query [] = Some []"
| "unescape query (c # cs) =
     (if c = CHR ''%'' then
        (case cs of
           a # b # rest \<Rightarrow>
             (case (unhex a, unhex b) of
                (Some hi, Some lo) \<Rightarrow> map_option ((#) (char_of (16 * hi + lo))) (unescape query rest)
              | _ \<Rightarrow> None)
         | _ \<Rightarrow> None)
      else map_option ((#) (if query \<and> c = CHR ''+'' then CHR '' '' else c)) (unescape query cs))"

lemma unhex_hex: "d < 16 \<Longrightarrow> unhex (hex_digit d) = Some d"
  by (auto simp: unhex_def hex_digit_def Let_def)

lemma unhex_byte [simp]:
  "unhex (hex_digit ((of_char c :: nat) div 16)) = Some (of_char c div 16)"
  "unhex (hex_digit ((of_char c :: nat) mod 16)) = Some (of_char c mod 16)"
proof -
  have "(of_char c :: nat) < 256" by simp
  then show "unhex (hex_digit ((of_char c :: nat) div 16)) = Some (of_char c div 16)" by (intro unhex_hex) linarith
qed (simp add: unhex_hex)

lemma unescape_escape:
  assumes "\<not> kept (CHR ''%'')" "query \<Longrightarrow> \<not> kept (CHR ''+'')"
  shows "unescape query (escape kept query s) = Some s"
proof (induction s)
  case (Cons c cs)
  have "(16 * (of_char c div 16) + of_char c mod 16 :: nat) = of_char c" by simp
  then show ?case using assms Cons by auto
qed simp

lemma kept_chars [simp]:
  "\<not> segment_byte (CHR ''%'')" "\<not> segment_byte (CHR ''/'')" "segment_byte (CHR ''.'')"
  "\<not> unreserved (CHR ''%'')" "\<not> unreserved (CHR ''+'')" "\<not> unreserved (CHR ''&'')" "\<not> unreserved (CHR '';'')"
  by (simp_all add: segment_byte_def unreserved_def)

lemma PathUnescape_PathEscape [simp]: "unescape False (PathEscape s) = Some s"
  unfolding PathEscape_def by (rule unescape_escape) simp_all

lemma QueryUnescape_QueryEscape [simp]: "unescape True (QueryEscape s) = Some s"
  unfolding QueryEscape_def by (rule unescape_escape) simp_all

lemma escape_bytes: "c \<in> set (escape kept query s) \<Longrightarrow> kept c \<or> c = CHR ''%'' \<or> query \<and> c = CHR ''+'' \<or> unhex c \<noteq> None"
  by (induction s) (auto split: if_splits)

text \<open>An escaped segment has no slash, and is one of the segments cleaning drops only where it was before.\<close>

lemma unhex_slash [simp]: "unhex (CHR ''/'') = None" "unhex (CHR ''&'') = None" "unhex (CHR '';'') = None"
  by (simp_all add: unhex_def Let_def)

lemma PathEscape_slash: "CHR ''/'' \<notin> set (PathEscape s)"
  unfolding PathEscape_def using escape_bytes [of "CHR ''/''" segment_byte False s] by auto

lemma QueryEscape_separators: "CHR ''&'' \<notin> set (QueryEscape s)" "CHR '';'' \<notin> set (QueryEscape s)"
  unfolding QueryEscape_def using escape_bytes [of "CHR ''&''" unreserved True s] escape_bytes [of "CHR '';''" unreserved True s] by auto

lemma PathEscape_dots:
  "PathEscape s = [] \<longleftrightarrow> s = []" "PathEscape s = ''.'' \<longleftrightarrow> s = ''.''" "PathEscape s = ''..'' \<longleftrightarrow> s = ''..''"
proof -
  have "PathEscape s = PathEscape t \<longleftrightarrow> s = t" for t by (metis PathUnescape_PathEscape option.inject)
  moreover have "PathEscape [] = []" "PathEscape ''.'' = ''.''" "PathEscape ''..'' = ''..''" by (simp_all add: PathEscape_def)
  ultimately show "PathEscape s = [] \<longleftrightarrow> s = []" "PathEscape s = ''.'' \<longleftrightarrow> s = ''.''" "PathEscape s = ''..'' \<longleftrightarrow> s = ''..''"
    by metis+
qed

section \<open>Paths\<close>

text \<open>\<^verbatim>\<open>path.Clean\<close> of a rooted path: the segments that stay, then the path of them.\<close>

fun clean_segments :: "string list \<Rightarrow> string list \<Rightarrow> string list" where
  "clean_segments kept [] = kept"
| "clean_segments kept (seg # segs) =
     (if seg = [] \<or> seg = ''.'' then clean_segments kept segs
      else if seg = ''..'' then clean_segments (butlast kept) segs
      else clean_segments (kept @ [seg]) segs)"

definition rooted :: "string list \<Rightarrow> string" where
  "rooted segs = CHR ''/'' # strings_Join segs ''/''"

definition path_Clean :: "string \<Rightarrow> string" where
  "path_Clean p = rooted (clean_segments [] (splitOn (CHR ''/'') p))"

definition ends_in_slash :: "string \<Rightarrow> bool" where
  "ends_in_slash p \<longleftrightarrow> p \<noteq> [] \<and> last p = CHR ''/''"

text \<open>\<^verbatim>\<open>URL.JoinPath\<close>, the path as it is sent: base and element cleaned, keeping a trailing slash.\<close>

definition JoinPath :: "string \<Rightarrow> string \<Rightarrow> string" where
  "JoinPath base elem =
     (let p = path_Clean (CHR ''/'' # base @ CHR ''/'' # elem) in
      if ends_in_slash elem \<and> \<not> ends_in_slash p then p @ ''/'' else p)"

definition plain_segment :: "string \<Rightarrow> bool" where
  "plain_segment seg \<longleftrightarrow> CHR ''/'' \<notin> set seg \<and> seg \<noteq> [] \<and> seg \<noteq> ''.'' \<and> seg \<noteq> ''..''"

lemma clean_plain: "list_all plain_segment segs \<Longrightarrow> clean_segments kept segs = kept @ segs"
  by (induction segs arbitrary: kept) (auto simp: plain_segment_def)

lemma split_rooted: "segs \<noteq> [] \<Longrightarrow> list_all plain_segment segs \<Longrightarrow> splitOn (CHR ''/'') (rooted segs) = [] # segs"
  by (simp add: rooted_def splitOn_Join plain_segment_def list_all_iff)

lemma last_Join: "xs \<noteq> [] \<Longrightarrow> last xs \<noteq> [] \<Longrightarrow> strings_Join xs sep \<noteq> [] \<and> last (strings_Join xs sep) = last (last xs)"
proof (induction xs sep rule: strings_Join.induct)
  case (3 x y ys sep)
  then show ?case by (cases ys) auto
qed simp_all

lemma rooted_no_slash:
  assumes "segs \<noteq> []" "list_all plain_segment segs"
  shows "\<not> ends_in_slash (rooted segs)"
proof -
  have seg: "plain_segment (last segs)" using assms by (simp add: list_all_iff)
  then have "last (last segs) \<noteq> CHR ''/''" "last segs \<noteq> []" by (auto simp: plain_segment_def dest: last_in_set)
  with last_Join [OF assms(1), of "''/''"] show ?thesis by (auto simp: ends_in_slash_def rooted_def)
qed

lemma clean_rooted: "segs \<noteq> [] \<Longrightarrow> list_all plain_segment segs \<Longrightarrow> path_Clean (rooted segs) = rooted segs"
  by (simp add: path_Clean_def split_rooted clean_plain)

lemma JoinPath_plain:
  assumes "base \<in> {[], ''/''}" "segs \<noteq> []" "list_all plain_segment segs"
  shows "JoinPath base (rooted segs) = rooted segs"
proof -
  have "path_Clean (CHR ''/'' # base @ CHR ''/'' # rooted segs) = rooted segs"
    using assms(1) split_rooted [OF assms(2,3)]
    by (auto simp: path_Clean_def clean_plain [OF assms(3)])
  with rooted_no_slash [OF assms(2,3)] show ?thesis by (simp add: JoinPath_def)
qed

section \<open>Query values\<close>

text \<open>\<^verbatim>\<open>url.Values.Encode\<close> of one key, and the first value \<^verbatim>\<open>URL.Query\<close> reads of a key: a setting with a
  semicolon or with a broken escape is left out.\<close>

definition encode_query :: "string \<Rightarrow> string \<Rightarrow> string" where
  "encode_query key v = QueryEscape key @ ''='' @ QueryEscape v"

definition cut_at :: "char \<Rightarrow> string \<Rightarrow> string \<times> string" where
  "cut_at c s = (takeWhile (\<lambda>x. x \<noteq> c) s, drop 1 (dropWhile (\<lambda>x. x \<noteq> c) s))"

definition query_setting :: "string \<Rightarrow> (string \<times> string) option" where
  "query_setting s =
     (if s = [] \<or> CHR '';'' \<in> set s then None
      else case cut_at (CHR ''='') s of (k, v) \<Rightarrow>
        (case (unescape True k, unescape True v) of (Some k, Some v) \<Rightarrow> Some (k, v) | _ \<Rightarrow> None))"

definition Query_Get :: "string \<Rightarrow> string \<Rightarrow> string" where
  "Query_Get raw key =
     (case map_of (List.map_filter query_setting (splitOn (CHR ''&'') raw)) key of None \<Rightarrow> [] | Some v \<Rightarrow> v)"

lemma Query_Get_encode:
  assumes "\<forall>c \<in> set key. unreserved c" "key \<noteq> []"
  shows "Query_Get (encode_query key v) key = v"
proof -
  have kept: "QueryEscape key = key"
  proof -
    have "\<forall>c \<in> set key. unreserved c \<Longrightarrow> escape unreserved True key = key"
      by (induction key) (auto simp: unreserved_def)
    then show ?thesis using assms(1) by (simp add: QueryEscape_def)
  qed
  have free: "c \<notin> set key" if "\<not> unreserved c" for c using that assms(1) by auto
  have none: "CHR ''='' \<notin> set key" "CHR '';'' \<notin> set key" "CHR ''&'' \<notin> set key"
    by (rule free, simp add: unreserved_def)+
  have "query_setting (encode_query key v) = Some (key, v)"
  proof -
    have "cut_at (CHR ''='') (encode_query key v) = (key, QueryEscape v)"
      using none(1) by (simp add: cut_at_def encode_query_def kept takeWhile_append dropWhile_append)
    moreover have "unescape True key = Some key" using QueryUnescape_QueryEscape [of key] by (simp add: kept)
    moreover have "CHR '';'' \<notin> set (encode_query key v)" "encode_query key v \<noteq> []"
      using none(2) QueryEscape_separators by (simp_all add: encode_query_def kept)
    ultimately show ?thesis by (simp add: query_setting_def)
  qed
  moreover have "splitOn (CHR ''&'') (encode_query key v) = [encode_query key v]"
    using none(3) QueryEscape_separators by (intro splitOn_free) (simp add: encode_query_def kept)
  ultimately show ?thesis by (simp add: Query_Get_def map_filter_simps)
qed

section \<open>Routes\<close>

text \<open>A pattern is a method and segments, some of them wildcards with a name.\<close>

datatype Segment = Literal string | Wildcard string

definition segment_of :: "string \<Rightarrow> Segment" where
  "segment_of s = (if s \<noteq> [] \<and> hd s = CHR ''{'' then Wildcard (butlast (tl s)) else Literal s)"

definition pattern_of :: "string \<Rightarrow> string \<times> Segment list" where
  "pattern_of s = (case cut_at (CHR '' '') s of (method, p) \<Rightarrow> (method, map segment_of (tl (splitOn (CHR ''/'') p))))"

text \<open>The segments of an escaped path as the tree of routes meets them: unescaped where they can be, and a
  slash at the end of the path as a segment of its own.\<close>

definition path_segments :: "string \<Rightarrow> string list" where
  "path_segments p =
     (let segs = tl (splitOn (CHR ''/'') p);
          decoded = map (\<lambda>seg. case unescape False seg of None \<Rightarrow> seg | Some t \<Rightarrow> t)
      in if segs \<noteq> [] \<and> last segs = [] then decoded (butlast segs) @ [''/''] else decoded segs)"

text \<open>A wildcard takes any segment but a slash.  No two patterns with the same method match one path, so their
  order does not matter.\<close>

fun match_segments :: "Segment list \<Rightarrow> string list \<Rightarrow> (string \<times> string) list option" where
  "match_segments [] [] = Some []"
| "match_segments (Literal s # pats) (seg # segs) = (if seg = s then match_segments pats segs else None)"
| "match_segments (Wildcard x # pats) (seg # segs) =
     (if seg = ''/'' then None else map_option ((#) (x, seg)) (match_segments pats segs))"
| "match_segments _ _ = None"

lemma path_segments_rooted:
  assumes "segs \<noteq> []" "list_all plain_segment segs"
  shows "path_segments (rooted segs) = map (\<lambda>seg. case unescape False seg of None \<Rightarrow> seg | Some t \<Rightarrow> t) segs"
proof -
  have "last segs \<noteq> []" using assms by (auto simp: list_all_iff plain_segment_def)
  then show ?thesis by (simp add: path_segments_def split_rooted [OF assms])
qed

end
