(* ===== verification/Match.thy ===== *)
theory Match
  imports Plugin
begin

text \<open>
  \<^verbatim>\<open>internal/scheduler/match.go\<close>: constraints and affinities against a provider's
  attributes.  Affinity weights are validated to lie between 1 and 100, so their sums are
  plain integers.
\<close>

section \<open>Comparing\<close>

definition setContains :: "string \<Rightarrow> string \<Rightarrow> bool" where
  "setContains members want =
     (let want = TrimSpace want in
      find_first (\<lambda>m. TrimSpace m = want) (splitOn (CHR '','') members) \<noteq> None)"

definition ordered :: "Operator \<Rightarrow> int \<Rightarrow> bool" where
  "ordered op1 c =
     (if op1 = OperatorLess then c < 0
      else if op1 = OperatorLessEqual then c \<le> 0
      else if op1 = OperatorGreater then 0 < c
      else if op1 = OperatorGreaterEqual then 0 \<le> c
      else False)"

text \<open>Each reader answers \<open>None\<close> where an operand does not parse.\<close>

definition compareDurations :: "Operator \<Rightarrow> string \<Rightarrow> string \<Rightarrow> bool option" where
  "compareDurations op1 got want =
     (case ParseDuration got of None \<Rightarrow> None
      | Some left \<Rightarrow> (case ParseDuration want of None \<Rightarrow> None
          | Some right \<Rightarrow> Some (ordered op1 (cmpCompare left right))))"

definition compareIntegers :: "Operator \<Rightarrow> string \<Rightarrow> string \<Rightarrow> bool option" where
  "compareIntegers op1 got want =
     (case ParseInt got of None \<Rightarrow> None
      | Some left \<Rightarrow> (case ParseInt want of None \<Rightarrow> None
          | Some right \<Rightarrow> Some (ordered op1 (cmpCompare left right))))"

definition compareFloats :: "Operator \<Rightarrow> string \<Rightarrow> string \<Rightarrow> bool option" where
  "compareFloats op1 got want =
     (case ParseFloat got of None \<Rightarrow> None
      | Some left \<Rightarrow> (case ParseFloat want of None \<Rightarrow> None
          | Some right \<Rightarrow> Some (ordered op1 (compareFloat left right))))"

definition compare :: "Operator \<Rightarrow> string \<Rightarrow> string \<Rightarrow> bool" where
  "compare op1 got want =
     (case compareDurations op1 got want of Some res \<Rightarrow> res
      | None \<Rightarrow> (case compareIntegers op1 got want of Some res \<Rightarrow> res
          | None \<Rightarrow> (case compareFloats op1 got want of Some res \<Rightarrow> res
              | None \<Rightarrow> ordered op1 (strCompare got want))))"

section \<open>Matching\<close>

text \<open>An absent attribute reads as the empty string.\<close>

definition match :: "Attrs \<Rightarrow> string \<Rightarrow> Operator \<Rightarrow> string \<Rightarrow> bool" where
  "match attrs name op1 want =
     (let got = (case attrs name of None \<Rightarrow> [] | Some v \<Rightarrow> v); found = (attrs name \<noteq> None) in
      if op1 = OperatorIsSet then found
      else if op1 = OperatorIsNotSet then \<not> found
      else if op1 = OperatorNotEqual then got \<noteq> want
      else if op1 = OperatorEqual then found \<and> got = want
      else if op1 = OperatorSetContains then found \<and> setContains got want
      else if op1 = OperatorLess \<or> op1 = OperatorLessEqual \<or> op1 = OperatorGreater \<or> op1 = OperatorGreaterEqual
        then found \<and> compare op1 got want
      else False)"

definition MatchConstraint :: "Attrs \<Rightarrow> Constraint \<Rightarrow> bool" where
  "MatchConstraint attrs c = match attrs (con_Attribute c) (con_Operator c) (con_Value c)"

definition MatchAffinity :: "Attrs \<Rightarrow> Affinity \<Rightarrow> bool" where
  "MatchAffinity attrs a = match attrs (aff_Attribute a) (aff_Operator a) (aff_Value a)"

definition UnmatchedConstraint :: "Attrs \<Rightarrow> Constraint list \<Rightarrow> Constraint option" where
  "UnmatchedConstraint attrs constraints = find_first (\<lambda>c. \<not> MatchConstraint attrs c) constraints"

definition UnknownAttribute :: "Constraint list \<Rightarrow> Affinity list \<Rightarrow> string" where
  "UnknownAttribute constraints affinities =
     (case find_first (\<lambda>c. \<not> Matchable (con_Attribute c)) constraints of
        Some c \<Rightarrow> con_Attribute c
      | None \<Rightarrow>
          (case find_first (\<lambda>a. \<not> Matchable (aff_Attribute a)) affinities of
             Some a \<Rightarrow> aff_Attribute a
           | None \<Rightarrow> []))"

section \<open>Affinity scores\<close>

definition defaultAffinityWeight :: int where "defaultAffinityWeight = 50"

definition affinityWeight :: "Affinity \<Rightarrow> int" where
  "affinityWeight a = (case aff_Weight a of None \<Rightarrow> defaultAffinityWeight | Some w \<Rightarrow> w)"

fun AffinityWeight :: "Attrs \<Rightarrow> Affinity list \<Rightarrow> int" where
  "AffinityWeight attrs [] = 0"
| "AffinityWeight attrs (a # as) =
     (if \<not> MatchAffinity attrs a then AffinityWeight attrs as
      else affinityWeight a + AffinityWeight attrs as)"

fun TotalAffinityWeight :: "Affinity list \<Rightarrow> int" where
  "TotalAffinityWeight [] = 0"
| "TotalAffinityWeight (a # as) = affinityWeight a + TotalAffinityWeight as"

definition AffinityScore :: "Attrs \<Rightarrow> Affinity list \<Rightarrow> rat" where
  "AffinityScore attrs affinities =
     (let total = TotalAffinityWeight affinities in
      if total = 0 then 0
      else fl_div (fl_of_int (AffinityWeight attrs affinities)) (fl_of_int total))"

section \<open>Facts\<close>

lemma op_distinct [simp]:
  "OperatorLess \<noteq> OperatorLessEqual" "OperatorLess \<noteq> OperatorGreater" "OperatorLess \<noteq> OperatorGreaterEqual"
  "OperatorLessEqual \<noteq> OperatorLess" "OperatorLessEqual \<noteq> OperatorGreater" "OperatorLessEqual \<noteq> OperatorGreaterEqual"
  "OperatorGreater \<noteq> OperatorLess" "OperatorGreater \<noteq> OperatorLessEqual" "OperatorGreater \<noteq> OperatorGreaterEqual"
  "OperatorGreaterEqual \<noteq> OperatorLess" "OperatorGreaterEqual \<noteq> OperatorLessEqual" "OperatorGreaterEqual \<noteq> OperatorGreater"
  "OperatorEqual \<noteq> OperatorIsSet" "OperatorEqual \<noteq> OperatorIsNotSet" "OperatorEqual \<noteq> OperatorNotEqual"
  "OperatorNotEqual \<noteq> OperatorIsSet" "OperatorNotEqual \<noteq> OperatorIsNotSet"
  "OperatorIsNotSet \<noteq> OperatorIsSet"
  "OperatorSetContains \<noteq> OperatorIsSet" "OperatorSetContains \<noteq> OperatorIsNotSet"
  "OperatorSetContains \<noteq> OperatorNotEqual" "OperatorSetContains \<noteq> OperatorEqual"
  "OperatorLess \<noteq> OperatorIsSet" "OperatorLess \<noteq> OperatorIsNotSet" "OperatorLess \<noteq> OperatorNotEqual"
  "OperatorLess \<noteq> OperatorEqual" "OperatorLess \<noteq> OperatorSetContains"
  "OperatorLessEqual \<noteq> OperatorIsSet" "OperatorLessEqual \<noteq> OperatorIsNotSet" "OperatorLessEqual \<noteq> OperatorNotEqual"
  "OperatorLessEqual \<noteq> OperatorEqual" "OperatorLessEqual \<noteq> OperatorSetContains"
  "OperatorGreater \<noteq> OperatorIsSet" "OperatorGreater \<noteq> OperatorIsNotSet" "OperatorGreater \<noteq> OperatorNotEqual"
  "OperatorGreater \<noteq> OperatorEqual" "OperatorGreater \<noteq> OperatorSetContains"
  "OperatorGreaterEqual \<noteq> OperatorIsSet" "OperatorGreaterEqual \<noteq> OperatorIsNotSet" "OperatorGreaterEqual \<noteq> OperatorNotEqual"
  "OperatorGreaterEqual \<noteq> OperatorEqual" "OperatorGreaterEqual \<noteq> OperatorSetContains"
  by (simp_all add: vocab)

lemma ordered_cmp:
  "ordered OperatorLess (cmpCompare a b) \<longleftrightarrow> a < b"
  "ordered OperatorLessEqual (cmpCompare a b) \<longleftrightarrow> a \<le> b"
  "ordered OperatorGreater (cmpCompare a b) \<longleftrightarrow> b < a"
  "ordered OperatorGreaterEqual (cmpCompare a b) \<longleftrightarrow> b \<le> a"
  by (auto simp: ordered_def cmpCompare_def)

text \<open>A decimal number is no duration unless it is a lone zero, which reads the same both ways.\<close>

lemma component_no_unit:
  assumes "\<forall>c \<in> set s. is_digit c" shows "parse_component s = None"
proof -
  have rest: "r = []" if "leadingInt t x = Some (v, r)" "\<forall>c \<in> set t. is_digit c" for t x v r
    using that by (induction t x rule: leadingInt.induct) (auto split: if_splits)
  show ?thesis
    using assms by (cases "leadingInt s 0") (auto simp: parse_component_def Let_def dest!: rest)
qed

lemma ParseDuration_Itoa:
  "ParseDuration (Itoa n) = (if n = 0 then Some 0 else None)"
proof (cases "n = 0")
  case True
  then show ?thesis by (simp add: ParseDuration_def Itoa_def Let_def)
next
  case False
  let ?m = "if n < 0 then nat (- n) else nat n"
  have digits: "\<forall>c \<in> set (show_nat ?m). is_digit c" by (auto dest: show_nat_digits)
  have hd: "hd (show_nat ?m) \<noteq> CHR ''-''" "hd (show_nat ?m) \<noteq> CHR ''+''"
    using show_nat_hd [of ?m] by (auto simp del: show_nat_hd)
  have "?m \<noteq> 0" using False by auto
  then have "show_nat ?m \<noteq> show_nat 0" by (simp only: show_nat_inject not_False_eq_True)
  then have "show_nat ?m \<noteq> ''0''" by (simp only: show_nat_0 not_False_eq_True)
  moreover have "parse_components (show_nat ?m) 0 = None"
    by (subst parse_components.simps) (simp add: component_no_unit digits)
  ultimately show ?thesis
    using False hd by (cases "n < 0") (simp_all add: ParseDuration_def Itoa_def Let_def)
qed

text \<open>Integers published as text are compared as integers.\<close>

lemma compare_Itoa:
  assumes "int64 a" "int64 b"
  shows "compare op1 (Itoa a) (Itoa b) = ordered op1 (cmpCompare a b)"
  using assms
  by (auto simp: compare_def compareDurations_def compareIntegers_def ParseDuration_Itoa ParseInt_Itoa
      split: option.split)

lemma compare_seconds:
  assumes "int a * Second \<le> MaxInt64" "int b * Second \<le> MaxInt64"
  shows "compare op1 (Duration_String (int a * Second)) (Duration_String (int b * Second))
    = ordered op1 (cmpCompare a b)"
proof -
  have "cmpCompare (int a * Second) (int b * Second) = cmpCompare a b"
    by (simp add: cmpCompare_def Second_def)
  with assms show ?thesis by (simp add: compare_def compareDurations_def roundtrip_seconds)
qed

lemma setContains_member:
  "setContains s want \<longleftrightarrow> (\<exists>m \<in> set (splitOn (CHR '','') s). TrimSpace m = TrimSpace want)"
  by (auto simp: setContains_def Let_def simp del: not_None_eq)

definition weights_ok :: "Affinity list \<Rightarrow> bool" where
  "weights_ok as \<longleftrightarrow> (\<forall>a \<in> set as. 1 \<le> affinityWeight a \<and> affinityWeight a \<le> 100)"

lemma AffinityWeight_bounds:
  "weights_ok as \<Longrightarrow> 0 \<le> AffinityWeight attrs as \<and> AffinityWeight attrs as \<le> TotalAffinityWeight as"
  by (induction as) (auto simp: weights_ok_def)

lemma TotalAffinityWeight_le: "weights_ok as \<Longrightarrow> TotalAffinityWeight as \<le> 100 * int (length as)"
  by (induction as) (auto simp: weights_ok_def)

lemma AffinityScore_unit:
  assumes "weights_ok as"
  shows "0 \<le> AffinityScore attrs as" "AffinityScore attrs as \<le> 1"
proof -
  let ?w = "AffinityWeight attrs as" and ?t = "TotalAffinityWeight as"
  have b: "0 \<le> ?w" "?w \<le> ?t" using AffinityWeight_bounds [OF assms] by auto
  have "0 \<le> fl (of_int ?w)" "fl (of_int ?w) \<le> fl (of_int ?t)"
    using b by (auto intro: fl_nonneg fl_mono)
  then have "0 \<le> fl (of_int ?w) / fl (of_int ?t)" "fl (of_int ?w) / fl (of_int ?t) \<le> 1"
    by (auto simp: divide_le_eq_1 intro: divide_nonneg_nonneg)
  then have "0 \<le> AffinityScore attrs as \<and> AffinityScore attrs as \<le> 1"
    using fl_unit by (auto simp: AffinityScore_def Let_def fl_ops)
  then show "0 \<le> AffinityScore attrs as" "AffinityScore attrs as \<le> 1" by auto
qed

section \<open>Properties\<close>

text \<open>Published numbers and durations compare as the quantities they stand for, although an
  attribute's value is text: each of the four ordering operators agrees with the order of the
  integers, and with that of the durations, being compared.\<close>

theorem attributes_compare:
  assumes "int64 a" "int64 b" "int m * Second \<le> MaxInt64" "int n * Second \<le> MaxInt64"
  shows "(compare OperatorLess (Itoa a) (Itoa b) \<longleftrightarrow> a < b) \<and>
    (compare OperatorLessEqual (Itoa a) (Itoa b) \<longleftrightarrow> a \<le> b) \<and>
    (compare OperatorGreater (Itoa a) (Itoa b) \<longleftrightarrow> b < a) \<and>
    (compare OperatorGreaterEqual (Itoa a) (Itoa b) \<longleftrightarrow> b \<le> a) \<and>
    (compare OperatorLess (Duration_String (int m * Second)) (Duration_String (int n * Second)) \<longleftrightarrow> m < n) \<and>
    (compare OperatorGreaterEqual (Duration_String (int m * Second)) (Duration_String (int n * Second)) \<longleftrightarrow> n \<le> m)"
  unfolding compare_Itoa [OF assms(1,2)] compare_seconds [OF assms(3,4)] ordered_cmp by simp

theorem attributes_compare_witness:
  "compare OperatorLess (Itoa 9) (Itoa 10) \<and> compare OperatorLess (Duration_String (int 90 * Second)) (Duration_String (int 3600 * Second))"
  using attributes_compare [of 9 10 90 3600] by (simp add: int64_def Second_def MaxInt64_def)

end
