(* ===== verification/Admission.thy ===== *)
theory Admission
  imports Match
begin

text \<open>
  \<^verbatim>\<open>internal/scheduler\<close>, admission: which providers can run a request.  The thirteen
  checkers are functions of the request and the provider's snapshot, run in the code's order;
  each is shown to reject exactly when its predicate fails (locale \<open>checker\<close>).  The prose of a
  rejection is kept as the values it is formatted from.
\<close>

section \<open>Requests\<close>

record Request =
  rq_Task :: Task
  rq_Routing :: "Routing option"
  rq_Image :: string
  rq_Execution :: Execution
  rq_ServerTiers :: TierMode

definition executionOf :: "Task \<Rightarrow> Execution" where
  "executionOf task =
     (let e = \<lparr>ex_CPU = 0, ex_Memory = 0, ex_Duration = 0\<rparr>;
          e = (case task_Resources task of None \<Rightarrow> e
               | Some res \<Rightarrow>
                   (let e = (case tres_CPU res of None \<Rightarrow> e | Some n \<Rightarrow> e\<lparr>ex_CPU := n\<rparr>)
                    in case tres_Memory res of None \<Rightarrow> e | Some n \<Rightarrow> e\<lparr>ex_Memory := n\<rparr>))
      in case task_Timeout task of None \<Rightarrow> e
         | Some t \<Rightarrow> (case Duration_Std t of Inl err \<Rightarrow> e | Inr timeout \<Rightarrow> e\<lparr>ex_Duration := timeout\<rparr>))"

text \<open>\<open>image_of\<close> is \<open>Task.Image\<close>: the HCL library evaluates the driver's configuration.\<close>

definition NewRequest ::
  "(Task \<Rightarrow> EvalContext option \<Rightarrow> string \<times> 'd list) \<Rightarrow> Task \<Rightarrow> Routing option \<Rightarrow> TierMode
    \<Rightarrow> EvalContext option \<Rightarrow> Request \<times> 'd list" where
  "NewRequest image_of task routing tiers ctx =
     (case image_of task ctx of (img, diags) \<Rightarrow>
        (\<lparr>rq_Task = task, rq_Routing = routing, rq_Image = img, rq_Execution = executionOf task,
          rq_ServerTiers = tiers\<rparr>, diags))"

definition Request_Providers :: "Request \<Rightarrow> string list" where
  "Request_Providers r = (case rq_Routing r of None \<Rightarrow> [] | Some rt \<Rightarrow> rt_Providers rt)"

definition MaxCost :: "Request \<Rightarrow> Cost" where
  "MaxCost r =
     (case rq_Routing r of None \<Rightarrow> 0
      | Some rt \<Rightarrow> (case rt_MaxCost rt of None \<Rightarrow> 0 | Some c \<Rightarrow> c))"

definition WillPay :: "Request \<Rightarrow> bool" where
  "WillPay r \<longleftrightarrow> 0 < MaxCost r"

definition Request_Strategy :: "Request \<Rightarrow> Strategy" where
  "Request_Strategy r =
     (case rq_Routing r of None \<Rightarrow> StrategyFreeFirst
      | Some rt \<Rightarrow> (case rt_Strategy rt of None \<Rightarrow> StrategyFreeFirst | Some s \<Rightarrow> s))"

definition Request_Tiers :: "Request \<Rightarrow> TierMode" where
  "Request_Tiers r =
     (case (case rq_Routing r of None \<Rightarrow> None | Some rt \<Rightarrow> rt_Tiers rt) of
        Some t \<Rightarrow> t
      | None \<Rightarrow> if rq_ServerTiers r \<noteq> [] then rq_ServerTiers r else DefaultTierMode)"

definition Request_Constraints :: "Request \<Rightarrow> Constraint list" where
  "Request_Constraints r = (case rq_Routing r of None \<Rightarrow> [] | Some rt \<Rightarrow> rt_Constraints rt)"

definition Request_Affinities :: "Request \<Rightarrow> Affinity list" where
  "Request_Affinities r = (case rq_Routing r of None \<Rightarrow> [] | Some rt \<Rightarrow> rt_Affinities rt)"

definition Request_Architecture :: "Request \<Rightarrow> Arch option" where
  "Request_Architecture r =
     (case task_Execution (rq_Task r) of None \<Rightarrow> None | Some x \<Rightarrow> req_Architecture x)"

definition Request_CPU :: "Request \<Rightarrow> int" where
  "Request_CPU r =
     (case task_Resources (rq_Task r) of None \<Rightarrow> 0
      | Some res \<Rightarrow> (case tres_CPU res of None \<Rightarrow> 0 | Some n \<Rightarrow> n))"

definition Request_Memory :: "Request \<Rightarrow> int" where
  "Request_Memory r =
     (case task_Resources (rq_Task r) of None \<Rightarrow> 0
      | Some res \<Rightarrow> (case tres_Memory res of None \<Rightarrow> 0 | Some n \<Rightarrow> n))"

definition NeedsInternet :: "Request \<Rightarrow> bool" where
  "NeedsInternet r \<longleftrightarrow>
     (case task_Network (rq_Task r) of None \<Rightarrow> False | Some n \<Rightarrow> net_Internet n = Some True)"

definition NeedsPrivateNetwork :: "Request \<Rightarrow> bool" where
  "NeedsPrivateNetwork r \<longleftrightarrow>
     (case task_Network (rq_Task r) of None \<Rightarrow> False | Some n \<Rightarrow> net_Private n = Some True)"

section \<open>Reasons\<close>

type_synonym Reason = string

definition ReasonDriverUnsupported :: Reason where [vocab]: "ReasonDriverUnsupported = ''driver-unsupported''"
definition ReasonArchUnsupported :: Reason where [vocab]: "ReasonArchUnsupported = ''arch-unsupported''"
definition ReasonResourcesExceeded :: Reason where [vocab]: "ReasonResourcesExceeded = ''resources-exceeded''"
definition ReasonDurationExceeded :: Reason where [vocab]: "ReasonDurationExceeded = ''duration-exceeded''"
definition ReasonNetworkUnsupported :: Reason where [vocab]: "ReasonNetworkUnsupported = ''network-unsupported''"
definition ReasonImageUnsupported :: Reason where [vocab]: "ReasonImageUnsupported = ''image-unsupported''"
definition ReasonAttributeUnknown :: Reason where [vocab]: "ReasonAttributeUnknown = ''attribute-unknown''"
definition ReasonConstraintUnmet :: Reason where [vocab]: "ReasonConstraintUnmet = ''constraint-unmet''"
definition ReasonNotAllowlisted :: Reason where [vocab]: "ReasonNotAllowlisted = ''not-allowlisted''"
definition ReasonCostPolicy :: Reason where [vocab]: "ReasonCostPolicy = ''cost-policy''"
definition ReasonQuotaExhausted :: Reason where [vocab]: "ReasonQuotaExhausted = ''quota-exhausted''"
definition ReasonProviderDisabled :: Reason where [vocab]: "ReasonProviderDisabled = ''provider-disabled''"
definition ReasonUnhealthy :: Reason where [vocab]: "ReasonUnhealthy = ''provider-unhealthy''"

definition reasonNames :: "Reason list" where
  "reasonNames = [ReasonDriverUnsupported, ReasonArchUnsupported, ReasonResourcesExceeded,
     ReasonDurationExceeded, ReasonNetworkUnsupported, ReasonImageUnsupported, ReasonAttributeUnknown,
     ReasonConstraintUnmet, ReasonNotAllowlisted, ReasonCostPolicy, ReasonQuotaExhausted,
     ReasonProviderDisabled, ReasonUnhealthy]"

definition transientReasons :: "Reason list" where
  "transientReasons = [ReasonQuotaExhausted, ReasonProviderDisabled, ReasonUnhealthy]"

definition Reason_Valid :: "Reason \<Rightarrow> bool" where
  "Reason_Valid r \<longleftrightarrow> r \<in> set reasonNames"

definition Transient :: "Reason \<Rightarrow> bool" where
  "Transient r \<longleftrightarrow> r \<in> set transientReasons"

datatype reason_error = ErrUnknownReason string

definition ParseReason :: "string \<Rightarrow> reason_error + Reason" where
  "ParseReason s = (if \<not> Reason_Valid s then Inl (ErrUnknownReason s) else Inr s)"

definition Reason_MarshalText :: "Reason \<Rightarrow> reason_error + string" where
  "Reason_MarshalText r = (if \<not> Reason_Valid r then Inl (ErrUnknownReason r) else Inr r)"

definition Reason_UnmarshalText :: "Reason \<Rightarrow> string \<Rightarrow> reason_error option \<times> Reason" where
  "Reason_UnmarshalText old text =
     (case ParseReason text of Inl err \<Rightarrow> (Some err, old) | Inr parsed \<Rightarrow> (None, parsed))"

interpretation reason_text: vocabulary Reason_Valid ParseReason Reason_MarshalText Reason_UnmarshalText
  by unfold_locales (auto simp: ParseReason_def Reason_MarshalText_def Reason_UnmarshalText_def split: if_splits)

lemma reason_distinct: "distinct reasonNames"
  by (simp add: reasonNames_def vocab)

section \<open>Inputs and results\<close>

record Input =
  in_Provider :: string
  in_Capabilities :: Capabilities
  in_Limits :: Limits
  in_Usage :: PoolUsage
  in_Namespace :: string
  in_Share :: Limits
  in_ShareUsage :: PoolUsage
  in_Tags :: "(string \<times> string) list"
  in_Labels :: "(string \<times> string) list"
  in_Tier :: int
  in_Enabled :: bool
  in_Healthy :: bool

definition Input_FreePercent :: "Input \<Rightarrow> Execution \<Rightarrow> int" where
  "Input_FreePercent inp e =
     min (Limits_FreePercent (in_Limits inp) (in_Usage inp) e)
         (Limits_FreePercent (in_Share inp) (in_ShareUsage inp) e)"

definition Input_Attributes :: "Input \<Rightarrow> Execution \<Rightarrow> Attrs" where
  "Input_Attributes inp e =
     (let attrs = (Attributes (in_Capabilities inp))
            (AttrFreeQuotaPercent \<mapsto> Itoa (Input_FreePercent inp e), AttrTier \<mapsto> Itoa (in_Tier inp));
          attrs = fold (\<lambda>(name, value) attrs. attrs(MetaPrefix @ name \<mapsto> value)) (in_Tags inp) attrs
      in fold (\<lambda>(name, value) attrs. attrs(NodeLabelPrefix @ name \<mapsto> value)) (in_Labels inp) attrs)"

datatype Detail =
    RoutesOnlyTo "string list"
  | ChargesMore Cost Cost
  | OperatorDisabled
  | DidNotAnswer
  | DriversOffered DriverName "DriverName list"
  | ArchesOffered Arch "Arch list"
  | OwnImagesOnly string
  | NoInternetEgress
  | NoPrivateNetwork
  | CPUExceeds int int int
  | MemoryExceeds int int int
  | TimeoutExceeds Duration Duration
  | NothingPublishes string
  | RequirementUnmet Constraint "string option"
  | PoolExhausted "string option" Pool int int
  | ClosestNode string Detail

record Rejection =
  rj_Provider :: string
  rj_Reason :: Reason
  rj_Detail :: Detail
  rj_Also :: "Reason list"

definition reject :: "Reason \<Rightarrow> Detail \<Rightarrow> Rejection option" where
  "reject reason detail =
     Some \<lparr>rj_Provider = [], rj_Reason = reason, rj_Detail = detail, rj_Also = []\<rparr>"

record Candidate = Input +
  cd_EstimatedCost :: Cost
  cd_Members :: "string list"

record Admission =
  res_Candidates :: "Candidate list"
  res_Rejections :: "Rejection list"

section \<open>Checkers\<close>

type_synonym Check = "Request \<Rightarrow> Input \<Rightarrow> Rejection option"

definition allowlistChecker :: Check where
  "allowlistChecker req inp =
     (let allowed = Request_Providers req in
      if allowed = [] \<or> in_Provider inp \<in> set allowed then None
      else reject ReasonNotAllowlisted (RoutesOnlyTo allowed))"

definition costChecker :: Check where
  "costChecker req inp =
     (let cost = cap_EstimatedCost (in_Capabilities inp) in
      if cost \<le> MaxCost req then None else reject ReasonCostPolicy (ChargesMore cost (MaxCost req)))"

definition enabledChecker :: Check where
  "enabledChecker req inp =
     (if in_Enabled inp then None else reject ReasonProviderDisabled OperatorDisabled)"

definition healthyChecker :: Check where
  "healthyChecker req inp = (if in_Healthy inp then None else reject ReasonUnhealthy DidNotAnswer)"

definition driverChecker :: Check where
  "driverChecker req inp =
     (let driver = task_Driver (rq_Task req) in
      if driver \<in> set (cap_Drivers (in_Capabilities inp)) then None
      else reject ReasonDriverUnsupported (DriversOffered driver (cap_Drivers (in_Capabilities inp))))"

definition archChecker :: Check where
  "archChecker req inp =
     (case Request_Architecture req of
        None \<Rightarrow> None
      | Some arch \<Rightarrow>
          if arch \<in> set (cap_Architectures (in_Capabilities inp)) then None
          else reject ReasonArchUnsupported (ArchesOffered arch (cap_Architectures (in_Capabilities inp))))"

definition imageChecker :: Check where
  "imageChecker req inp =
     (if rq_Image req = [] \<or> cap_ArbitraryImages (in_Capabilities inp) then None
      else reject ReasonImageUnsupported (OwnImagesOnly (rq_Image req)))"

definition networkChecker :: Check where
  "networkChecker req inp =
     (if NeedsInternet req \<and> \<not> cap_InternetEgress (in_Capabilities inp)
        then reject ReasonNetworkUnsupported NoInternetEgress
      else if NeedsPrivateNetwork req \<and> \<not> cap_PrivateNetwork (in_Capabilities inp)
        then reject ReasonNetworkUnsupported NoPrivateNetwork
      else None)"

definition over :: "int option \<Rightarrow> int \<Rightarrow> bool" where
  "over limit n \<longleftrightarrow> (case limit of None \<Rightarrow> False | Some l \<Rightarrow> l < n)"

definition resourcesChecker :: Check where
  "resourcesChecker req inp =
     (let declared = \<lparr>r_CPU = Request_CPU req, r_Memory = Request_Memory req\<rparr>;
          sized = Sized (in_Capabilities inp) declared;
          limits = cap_MaxResources (in_Capabilities inp)
      in if over (rl_CPU limits) (r_CPU sized)
         then reject ReasonResourcesExceeded
           (CPUExceeds (r_CPU declared) (r_CPU sized) (the (rl_CPU limits)))
         else if over (rl_Memory limits) (r_Memory sized)
         then reject ReasonResourcesExceeded
           (MemoryExceeds (r_Memory declared) (r_Memory sized) (the (rl_Memory limits)))
         else None)"

definition durationChecker :: Check where
  "durationChecker req inp =
     (let limit = cap_MaxDuration (in_Capabilities inp) in
      if limit = 0 then None
      else case task_Timeout (rq_Task req) of
        None \<Rightarrow> None
      | Some t \<Rightarrow>
          (case Duration_Std t of
             Inl err \<Rightarrow> None
           | Inr timeout \<Rightarrow>
               if timeout \<le> limit then None
               else reject ReasonDurationExceeded (TimeoutExceeds timeout limit)))"

definition attributeChecker :: Check where
  "attributeChecker req inp =
     (let unknown = UnknownAttribute (Request_Constraints req) (Request_Affinities req) in
      if unknown = [] then None else reject ReasonAttributeUnknown (NothingPublishes unknown))"

definition constraintChecker :: Check where
  "constraintChecker req inp =
     (let constraints = Request_Constraints req in
      if constraints = [] then None
      else
        (let attrs = Input_Attributes inp (rq_Execution req) in
         case UnmatchedConstraint attrs constraints of
           None \<Rightarrow> None
         | Some unmet \<Rightarrow>
             reject ReasonConstraintUnmet (RequirementUnmet unmet (attrs (con_Attribute unmet)))))"

definition exhausted :: "string option \<Rightarrow> Limits \<Rightarrow> PoolUsage \<Rightarrow> Execution \<Rightarrow> Rejection option" where
  "exhausted owner limits usage e =
     (case Limits_Exceeded limits usage e of
        None \<Rightarrow> None
      | Some pool \<Rightarrow>
          reject ReasonQuotaExhausted
            (PoolExhausted owner pool (Pool_Remaining pool (mget usage (pool_Name pool)))
              (mget (Limits_Deltas limits e) (pool_Name pool))))"

definition quotaChecker :: Check where
  "quotaChecker req inp =
     (if WillPay req then None
      else case exhausted None (in_Limits inp) (in_Usage inp) (rq_Execution req) of
          Some r \<Rightarrow> Some r
        | None \<Rightarrow> exhausted (Some (in_Namespace inp)) (in_Share inp) (in_ShareUsage inp) (rq_Execution req))"

definition checkers :: "Check list" where
  "checkers = [allowlistChecker, costChecker, enabledChecker, healthyChecker, driverChecker,
     archChecker, imageChecker, networkChecker, resourcesChecker, durationChecker, attributeChecker,
     constraintChecker, quotaChecker]"

section \<open>Admission\<close>

text \<open>The loop of \<open>admitOne\<close>: \<open>first\<close> is the rejection that will be shown.\<close>

fun admitOne_loop :: "Request \<Rightarrow> Input \<Rightarrow> Check list \<Rightarrow> Rejection option \<Rightarrow> Rejection option" where
  "admitOne_loop req inp [] first = first"
| "admitOne_loop req inp (check # rules) first =
     (case check req inp of
        None \<Rightarrow> admitOne_loop req inp rules first
      | Some rejection \<Rightarrow>
          (case first of
             None \<Rightarrow> admitOne_loop req inp rules (Some (rejection\<lparr>rj_Provider := in_Provider inp\<rparr>))
           | Some f \<Rightarrow>
               admitOne_loop req inp rules (Some (f\<lparr>rj_Also := rj_Also f @ [rj_Reason rejection]\<rparr>))))"

definition admitOne :: "Request \<Rightarrow> Input \<Rightarrow> Check list \<Rightarrow> Rejection option" where
  "admitOne req inp rules = admitOne_loop req inp rules None"

text \<open>One member of a pool judged as if it were the whole provider.\<close>

definition as_member :: "Input \<Rightarrow> Member \<Rightarrow> Input" where
  "as_member inp m = inp\<lparr>in_Capabilities := mem_Capabilities m, in_Labels := mem_Labels m\<rparr>"

fun members_loop ::
  "Request \<Rightarrow> Input \<Rightarrow> Check list \<Rightarrow> Member list \<Rightarrow> string list \<Rightarrow> Rejection option
    \<Rightarrow> string list \<times> Rejection option" where
  "members_loop req inp rules [] passed closest = (passed, closest)"
| "members_loop req inp rules (m # ms) passed closest =
     (case admitOne req (as_member inp m) rules of
        None \<Rightarrow> members_loop req inp rules ms (passed @ [mem_Name m]) closest
      | Some rejection \<Rightarrow>
          if (case closest of None \<Rightarrow> True
              | Some c \<Rightarrow> length (rj_Also rejection) < length (rj_Also c))
          then members_loop req inp rules ms passed
            (Some (rejection\<lparr>rj_Detail := ClosestNode (mem_Name m) (rj_Detail rejection)\<rparr>))
          else members_loop req inp rules ms passed closest)"

definition admitProvider ::
  "Request \<Rightarrow> Input \<Rightarrow> Check list \<Rightarrow> string list \<times> Rejection option" where
  "admitProvider req inp rules =
     (if cap_Members (in_Capabilities inp) = [] then ([], admitOne req inp rules)
      else case members_loop req inp rules (cap_Members (in_Capabilities inp)) [] None of
        (passed, closest) \<Rightarrow> if passed \<noteq> [] then (passed, None) else ([], closest))"

definition candidate_of :: "Input \<Rightarrow> string list \<Rightarrow> Candidate" where
  "candidate_of inp members =
     Input.extend inp (Candidate.fields (cap_EstimatedCost (in_Capabilities inp)) members)"

fun Admit_loop :: "Request \<Rightarrow> Input list \<Rightarrow> Admission \<Rightarrow> Admission" where
  "Admit_loop req [] acc = acc"
| "Admit_loop req (inp # inputs) acc =
     (case admitProvider req inp checkers of
        (members, Some rejection) \<Rightarrow>
          Admit_loop req inputs (acc\<lparr>res_Rejections := res_Rejections acc @ [rejection]\<rparr>)
      | (members, None) \<Rightarrow>
          Admit_loop req inputs
            (acc\<lparr>res_Candidates := res_Candidates acc @ [candidate_of inp members]\<rparr>))"

definition Admission_Sort :: "Admission \<Rightarrow> Admission" where
  "Admission_Sort r =
     r\<lparr>res_Candidates := sort_cmp (\<lambda>a b. strCompare (in_Provider a) (in_Provider b)) (res_Candidates r),
       res_Rejections := sort_cmp (\<lambda>a b. strCompare (rj_Provider a) (rj_Provider b)) (res_Rejections r)\<rparr>"

definition Admit :: "Request \<Rightarrow> Input list \<Rightarrow> Admission" where
  "Admit req inputs =
     Admission_Sort (Admit_loop req inputs \<lparr>res_Candidates = [], res_Rejections = []\<rparr>)"

definition Admitted :: "Admission \<Rightarrow> bool" where
  "Admitted r \<longleftrightarrow> res_Candidates r \<noteq> []"

definition Retryable :: "Admission \<Rightarrow> bool" where
  "Retryable r \<longleftrightarrow>
     (if Admitted r then False
      else find_first (\<lambda>rejection. Transient (rj_Reason rejection)) (res_Rejections r) \<noteq> None)"

section \<open>The contract of a checker\<close>

text \<open>
  A checker owns one requirement: it admits exactly the providers that meet it, and rejects
  the others with its own reason and nothing in \<open>Also\<close>.
\<close>

locale checker =
  fixes check :: Check
    and admits :: "Request \<Rightarrow> Input \<Rightarrow> bool"
    and reason :: Reason
  assumes admits_iff: "check req inp = None \<longleftrightarrow> admits req inp"
    and rejection: "check req inp = Some r \<Longrightarrow> rj_Reason r = reason \<and> rj_Also r = [] \<and> Reason_Valid reason"
begin

lemma rejects_iff: "(\<exists>r. check req inp = Some r \<and> rj_Reason r = reason) \<longleftrightarrow> \<not> admits req inp"
  using admits_iff [of req inp] rejection [of req inp] by (cases "check req inp") auto

lemma step:
  "admitOne_loop req inp (check # rules) first =
     (if admits req inp then admitOne_loop req inp rules first
      else case first of
        None \<Rightarrow> admitOne_loop req inp rules
          (Some ((the (check req inp))\<lparr>rj_Provider := in_Provider inp\<rparr>))
      | Some f \<Rightarrow> admitOne_loop req inp rules (Some (f\<lparr>rj_Also := rj_Also f @ [reason]\<rparr>)))"
  using admits_iff [of req inp] rejection [of req inp]
  by (auto split: option.split)

end

definition allowed :: "Request \<Rightarrow> Input \<Rightarrow> bool" where
  "allowed req inp \<longleftrightarrow> Request_Providers req = [] \<or> in_Provider inp \<in> set (Request_Providers req)"

definition affordable :: "Request \<Rightarrow> Input \<Rightarrow> bool" where
  "affordable req inp \<longleftrightarrow> cap_EstimatedCost (in_Capabilities inp) \<le> MaxCost req"

definition driver_ok :: "Request \<Rightarrow> Input \<Rightarrow> bool" where
  "driver_ok req inp \<longleftrightarrow> SupportsDriver (in_Capabilities inp) (task_Driver (rq_Task req))"

definition arch_ok :: "Request \<Rightarrow> Input \<Rightarrow> bool" where
  "arch_ok req inp \<longleftrightarrow>
     (\<forall>arch. Request_Architecture req = Some arch \<longrightarrow> SupportsArch (in_Capabilities inp) arch)"

definition image_ok :: "Request \<Rightarrow> Input \<Rightarrow> bool" where
  "image_ok req inp \<longleftrightarrow> rq_Image req = [] \<or> cap_ArbitraryImages (in_Capabilities inp)"

definition network_ok :: "Request \<Rightarrow> Input \<Rightarrow> bool" where
  "network_ok req inp \<longleftrightarrow>
     (NeedsInternet req \<longrightarrow> cap_InternetEgress (in_Capabilities inp)) \<and>
     (NeedsPrivateNetwork req \<longrightarrow> cap_PrivateNetwork (in_Capabilities inp))"

definition resources_ok :: "Request \<Rightarrow> Input \<Rightarrow> bool" where
  "resources_ok req inp \<longleftrightarrow>
     WithinResources (in_Capabilities inp) \<lparr>r_CPU = Request_CPU req, r_Memory = Request_Memory req\<rparr>"

definition duration_ok :: "Request \<Rightarrow> Input \<Rightarrow> bool" where
  "duration_ok req inp \<longleftrightarrow>
     (\<forall>t d. task_Timeout (rq_Task req) = Some t \<longrightarrow> Duration_Std t = Inr d \<longrightarrow>
        WithinDuration (in_Capabilities inp) d)"

definition attributes_ok :: "Request \<Rightarrow> Input \<Rightarrow> bool" where
  "attributes_ok req inp \<longleftrightarrow> UnknownAttribute (Request_Constraints req) (Request_Affinities req) = []"

definition constraints_ok :: "Request \<Rightarrow> Input \<Rightarrow> bool" where
  "constraints_ok req inp \<longleftrightarrow>
     (\<forall>c \<in> set (Request_Constraints req). MatchConstraint (Input_Attributes inp (rq_Execution req)) c)"

definition quota_ok :: "Request \<Rightarrow> Input \<Rightarrow> bool" where
  "quota_ok req inp \<longleftrightarrow> WillPay req \<or>
     Limits_Within (in_Limits inp) (in_Usage inp) (rq_Execution req) \<and>
     Limits_Within (in_Share inp) (in_ShareUsage inp) (rq_Execution req)"

lemma reject_simps [simp]:
  "reject reason detail \<noteq> None"
  "reject reason detail = Some r \<longleftrightarrow> r = \<lparr>rj_Provider = [], rj_Reason = reason, rj_Detail = detail, rj_Also = []\<rparr>"
  by (auto simp: reject_def)

lemma reasons_valid [simp]:
  "Reason_Valid ReasonDriverUnsupported" "Reason_Valid ReasonArchUnsupported"
  "Reason_Valid ReasonResourcesExceeded" "Reason_Valid ReasonDurationExceeded"
  "Reason_Valid ReasonNetworkUnsupported" "Reason_Valid ReasonImageUnsupported"
  "Reason_Valid ReasonAttributeUnknown" "Reason_Valid ReasonConstraintUnmet"
  "Reason_Valid ReasonNotAllowlisted" "Reason_Valid ReasonCostPolicy"
  "Reason_Valid ReasonQuotaExhausted" "Reason_Valid ReasonProviderDisabled" "Reason_Valid ReasonUnhealthy"
  by (simp_all add: Reason_Valid_def reasonNames_def)

interpretation allowlist: checker allowlistChecker allowed ReasonNotAllowlisted
  by unfold_locales (auto simp: allowlistChecker_def allowed_def Let_def split: if_splits)

interpretation cost: checker costChecker affordable ReasonCostPolicy
  by unfold_locales (auto simp: costChecker_def affordable_def Let_def split: if_splits)

interpretation enabled: checker enabledChecker "\<lambda>req inp. in_Enabled inp" ReasonProviderDisabled
  by unfold_locales (auto simp: enabledChecker_def split: if_splits)

interpretation healthy: checker healthyChecker "\<lambda>req inp. in_Healthy inp" ReasonUnhealthy
  by unfold_locales (auto simp: healthyChecker_def split: if_splits)

interpretation driver: checker driverChecker driver_ok ReasonDriverUnsupported
  by unfold_locales (auto simp: driverChecker_def driver_ok_def SupportsDriver_def Let_def split: if_splits)

interpretation arch: checker archChecker arch_ok ReasonArchUnsupported
  by unfold_locales (auto simp: archChecker_def arch_ok_def SupportsArch_def split: if_splits option.splits)

interpretation image_check: checker imageChecker image_ok ReasonImageUnsupported
  by unfold_locales (auto simp: imageChecker_def image_ok_def split: if_splits)

interpretation network: checker networkChecker network_ok ReasonNetworkUnsupported
  by unfold_locales (auto simp: networkChecker_def network_ok_def split: if_splits)

interpretation resources: checker resourcesChecker resources_ok ReasonResourcesExceeded
  by unfold_locales
    (auto simp: resourcesChecker_def resources_ok_def WithinResources_iff over_def Let_def
      split: if_splits option.splits)

interpretation duration: checker durationChecker duration_ok ReasonDurationExceeded
  by unfold_locales
    (auto simp: durationChecker_def duration_ok_def WithinDuration_def Let_def
      split: if_splits option.splits sum.splits)

interpretation attribute: checker attributeChecker attributes_ok ReasonAttributeUnknown
  by unfold_locales (auto simp: attributeChecker_def attributes_ok_def Let_def split: if_splits)

lemma UnmatchedConstraint_None:
  "UnmatchedConstraint attrs cs = None \<longleftrightarrow> (\<forall>c \<in> set cs. MatchConstraint attrs c)"
  by (simp add: UnmatchedConstraint_def)

interpretation constraint: checker constraintChecker constraints_ok ReasonConstraintUnmet
  by unfold_locales
    (auto simp: constraintChecker_def constraints_ok_def Let_def UnmatchedConstraint_def
      dest: find_first_SomeD split: if_splits option.splits)

lemma exhausted_simps:
  "exhausted owner l u e = None \<longleftrightarrow> Limits_Within l u e"
  "exhausted owner l u e = Some r \<Longrightarrow>
     rj_Reason r = ReasonQuotaExhausted \<and> rj_Also r = [] \<and> \<not> Limits_Within l u e"
  by (auto simp: exhausted_def Limits_Within_def split: option.splits)

interpretation quota_check: checker quotaChecker quota_ok ReasonQuotaExhausted
proof unfold_locales
  fix req inp
  show "quotaChecker req inp = None \<longleftrightarrow> quota_ok req inp"
    by (auto simp: quotaChecker_def quota_ok_def exhausted_simps(1) dest: exhausted_simps(2) split: option.split)
next
  fix req inp r
  assume "quotaChecker req inp = Some r"
  then show "rj_Reason r = ReasonQuotaExhausted \<and> rj_Also r = [] \<and> Reason_Valid ReasonQuotaExhausted"
    by (auto simp: quotaChecker_def dest: exhausted_simps(2) split: if_splits option.splits)
qed

section \<open>What admission decides\<close>

text \<open>The requirements in checking order, each with the reason of its checker.\<close>

definition requirements :: "(Reason \<times> (Request \<Rightarrow> Input \<Rightarrow> bool)) list" where
  "requirements =
     [(ReasonNotAllowlisted, allowed), (ReasonCostPolicy, affordable),
      (ReasonProviderDisabled, \<lambda>req inp. in_Enabled inp), (ReasonUnhealthy, \<lambda>req inp. in_Healthy inp),
      (ReasonDriverUnsupported, driver_ok), (ReasonArchUnsupported, arch_ok),
      (ReasonImageUnsupported, image_ok), (ReasonNetworkUnsupported, network_ok),
      (ReasonResourcesExceeded, resources_ok), (ReasonDurationExceeded, duration_ok),
      (ReasonAttributeUnknown, attributes_ok), (ReasonConstraintUnmet, constraints_ok),
      (ReasonQuotaExhausted, quota_ok)]"

definition failures :: "Request \<Rightarrow> Input \<Rightarrow> (Reason \<times> (Request \<Rightarrow> Input \<Rightarrow> bool)) list \<Rightarrow> Reason list" where
  "failures req inp reqs = map fst (filter (\<lambda>(reason, admits). \<not> admits req inp) reqs)"

definition admissible :: "Request \<Rightarrow> Input \<Rightarrow> bool" where
  "admissible req inp \<longleftrightarrow> allowed req inp \<and> affordable req inp \<and> in_Enabled inp \<and> in_Healthy inp \<and>
     driver_ok req inp \<and> arch_ok req inp \<and> image_ok req inp \<and> network_ok req inp \<and>
     resources_ok req inp \<and> duration_ok req inp \<and> attributes_ok req inp \<and> constraints_ok req inp \<and>
     quota_ok req inp"

definition implements_all :: "Check list \<Rightarrow> (Reason \<times> (Request \<Rightarrow> Input \<Rightarrow> bool)) list \<Rightarrow> bool" where
  "implements_all rules reqs \<longleftrightarrow>
     list_all2 (\<lambda>check (reason, admits). checker check admits reason) rules reqs"

lemma checkers_implement: "implements_all checkers requirements"
  by (simp add: implements_all_def checkers_def requirements_def allowlist.checker_axioms
      cost.checker_axioms enabled.checker_axioms healthy.checker_axioms driver.checker_axioms
      arch.checker_axioms image_check.checker_axioms network.checker_axioms resources.checker_axioms
      duration.checker_axioms attribute.checker_axioms constraint.checker_axioms
      quota_check.checker_axioms)

lemma failures_empty:
  "failures req inp reqs = [] \<longleftrightarrow> (\<forall>(reason, admits) \<in> set reqs. admits req inp)"
  by (induction reqs) (auto simp: failures_def)

lemma failures_admissible: "failures req inp requirements = [] \<longleftrightarrow> admissible req inp"
  unfolding failures_empty requirements_def admissible_def by simp

lemma failures_valid:
  assumes "reason \<in> set (failures req inp requirements)" shows "Reason_Valid reason"
proof -
  have "\<forall>r \<in> fst ` set requirements. Reason_Valid r" by (simp add: requirements_def)
  with assms show ?thesis by (auto simp: failures_def)
qed

lemma admitOne_loop_Some:
  "implements_all rules reqs \<Longrightarrow>
    admitOne_loop req inp rules (Some f) = Some (f\<lparr>rj_Also := rj_Also f @ failures req inp reqs\<rparr>)"
proof (induction rules arbitrary: reqs f)
  case Nil
  then show ?case by (simp add: implements_all_def failures_def)
next
  case (Cons check rules)
  from Cons.prems obtain reason admits reqs' where
    reqs: "reqs = (reason, admits) # reqs'" "checker check admits reason" "implements_all rules reqs'"
    by (auto simp: implements_all_def list_all2_Cons1)
  then show ?case
    by (simp only: checker.step [OF reqs(2)]) (simp add: Cons.IH [OF reqs(3)] failures_def)
qed

text \<open>The reasons reported are the unmet requirements, the first one with its detail.\<close>

lemma admitOne_loop_None:
  "implements_all rules reqs \<Longrightarrow>
    (case admitOne_loop req inp rules None of
       None \<Rightarrow> failures req inp reqs = []
     | Some r \<Rightarrow> rj_Reason r # rj_Also r = failures req inp reqs \<and> rj_Provider r = in_Provider inp)"
proof (induction rules arbitrary: reqs)
  case Nil
  then show ?case by (simp add: implements_all_def failures_def)
next
  case (Cons check rules)
  from Cons.prems obtain reason admits reqs' where
    reqs: "reqs = (reason, admits) # reqs'" "checker check admits reason" "implements_all rules reqs'"
    by (auto simp: implements_all_def list_all2_Cons1)
  show ?case
  proof (cases "admits req inp")
    case True
    with Cons.IH [OF reqs(3)] show ?thesis
      by (simp only: checker.step [OF reqs(2)]) (simp add: reqs(1) failures_def cong: option.case_cong)
  next
    case False
    then obtain r where r: "check req inp = Some r" "rj_Reason r = reason"
      using checker.rejects_iff [OF reqs(2)] by blast
    with reqs(2) have "rj_Also r = []" by (auto dest: checker.rejection)
    with False r show ?thesis
      by (simp only: checker.step [OF reqs(2)])
        (simp add: admitOne_loop_Some [OF reqs(3)] reqs(1) failures_def)
  qed
qed

lemma admitOne_verdict:
  "(case admitOne req inp checkers of
      None \<Rightarrow> admissible req inp
    | Some r \<Rightarrow> rj_Reason r # rj_Also r = failures req inp requirements \<and> rj_Provider r = in_Provider inp)"
  using admitOne_loop_None [OF checkers_implement, of req inp]
  unfolding admitOne_def failures_admissible .

lemma admitOne_None_iff: "admitOne req inp checkers = None \<longleftrightarrow> admissible req inp"
  using admitOne_verdict [of req inp] failures_admissible [of req inp]
  by (auto split: option.splits)

lemma admitOne_SomeD:
  "admitOne req inp checkers = Some r \<Longrightarrow>
     rj_Reason r # rj_Also r = failures req inp requirements \<and> rj_Provider r = in_Provider inp"
  using admitOne_verdict [of req inp] by simp

section \<open>Pools\<close>

definition member_ok :: "Request \<Rightarrow> Input \<Rightarrow> Member \<Rightarrow> bool" where
  "member_ok req inp m \<longleftrightarrow> admissible req (as_member inp m)"

definition provider_ok :: "Request \<Rightarrow> Input \<Rightarrow> bool" where
  "provider_ok req inp \<longleftrightarrow>
     (if cap_Members (in_Capabilities inp) = [] then admissible req inp
      else \<exists>m \<in> set (cap_Members (in_Capabilities inp)). member_ok req inp m)"

definition passing :: "Request \<Rightarrow> Input \<Rightarrow> string list" where
  "passing req inp = map mem_Name (filter (member_ok req inp) (cap_Members (in_Capabilities inp)))"

lemma as_member_provider [simp]: "in_Provider (as_member inp m) = in_Provider inp"
  by (simp add: as_member_def)

lemma members_loop_passed:
  "fst (members_loop req inp checkers ms passed closest) =
     passed @ map mem_Name (filter (member_ok req inp) ms)"
proof (induction ms arbitrary: passed closest)
  case (Cons m ms)
  then show ?case
    by (cases "admitOne req (as_member inp m) checkers")
      (auto simp: member_ok_def simp flip: admitOne_None_iff)
qed simp

lemma members_loop_None:
  "snd (members_loop req inp checkers ms passed closest) = None \<longleftrightarrow>
     closest = None \<and> (\<forall>m \<in> set ms. member_ok req inp m)"
proof (induction ms arbitrary: passed closest)
  case (Cons m ms)
  then show ?case
    by (cases "admitOne req (as_member inp m) checkers")
      (auto simp: member_ok_def simp flip: admitOne_None_iff split: option.splits)
qed simp

text \<open>The rejection kept is one of the members', and none failed fewer checks.\<close>

definition rejection_of :: "Request \<Rightarrow> Input \<Rightarrow> Member \<Rightarrow> Rejection \<Rightarrow> bool" where
  "rejection_of req inp m r \<longleftrightarrow> (\<exists>r0. admitOne req (as_member inp m) checkers = Some r0 \<and>
     r = r0\<lparr>rj_Detail := ClosestNode (mem_Name m) (rj_Detail r0)\<rparr>)"

lemma members_loop_origin:
  "snd (members_loop req inp checkers ms passed closest) = Some r \<Longrightarrow>
     closest = Some r \<or> (\<exists>m \<in> set ms. rejection_of req inp m r)"
proof (induction ms arbitrary: passed closest)
  case (Cons m ms)
  show ?case
  proof (cases "admitOne req (as_member inp m) checkers")
    case None
    with Cons show ?thesis by auto
  next
    case (Some r0)
    let ?r = "r0\<lparr>rj_Detail := ClosestNode (mem_Name m) (rj_Detail r0)\<rparr>"
    have "rejection_of req inp m ?r" using Some by (auto simp: rejection_of_def)
    moreover have "snd (members_loop req inp checkers ms passed (Some ?r)) = Some r \<or>
        snd (members_loop req inp checkers ms passed closest) = Some r"
      using Some Cons.prems by (auto split: if_splits option.splits)
    ultimately show ?thesis using Cons.IH by fastforce
  qed
qed simp

lemma members_loop_least:
  "snd (members_loop req inp checkers ms passed closest) = Some r \<Longrightarrow>
     (\<forall>c. closest = Some c \<longrightarrow> length (rj_Also r) \<le> length (rj_Also c)) \<and>
     (\<forall>m \<in> set ms. \<forall>r0. admitOne req (as_member inp m) checkers = Some r0 \<longrightarrow>
        length (rj_Also r) \<le> length (rj_Also r0))"
proof (induction ms arbitrary: passed closest)
  case (Cons m ms)
  show ?case
  proof (cases "admitOne req (as_member inp m) checkers")
    case None
    with Cons show ?thesis by auto
  next
    case (Some r0)
    let ?r = "r0\<lparr>rj_Detail := ClosestNode (mem_Name m) (rj_Detail r0)\<rparr>"
    show ?thesis
    proof (cases "case closest of None \<Rightarrow> True | Some c \<Rightarrow> length (rj_Also r0) < length (rj_Also c)")
      case True
      with Some Cons.prems have "snd (members_loop req inp checkers ms passed (Some ?r)) = Some r" by simp
      from Cons.IH [OF this] True Some show ?thesis by (auto split: option.splits)
    next
      case False
      with Some Cons.prems have "snd (members_loop req inp checkers ms passed closest) = Some r" by simp
      from Cons.IH [OF this] False Some show ?thesis by (fastforce split: option.splits)
    qed
  qed
qed simp

lemma passing_nonempty: "passing req inp \<noteq> [] \<longleftrightarrow> (\<exists>m \<in> set (cap_Members (in_Capabilities inp)). member_ok req inp m)"
  by (auto simp: passing_def filter_empty_conv)

lemma admitProvider_None_iff: "snd (admitProvider req inp checkers) = None \<longleftrightarrow> provider_ok req inp"
proof (cases "cap_Members (in_Capabilities inp) = []")
  case True
  then show ?thesis by (simp add: admitProvider_def provider_ok_def admitOne_None_iff)
next
  case False
  let ?ms = "cap_Members (in_Capabilities inp)"
  obtain passed closest where loop: "members_loop req inp checkers ?ms [] None = (passed, closest)"
    by fastforce
  then have "passed = passing req inp" "closest = None \<longleftrightarrow> (\<forall>m \<in> set ?ms. member_ok req inp m)"
    using members_loop_passed [of req inp ?ms "[]" None] members_loop_None [of req inp ?ms "[]" None]
    by (simp_all add: passing_def)
  with False loop show ?thesis
    using passing_nonempty [of req inp] by (cases ?ms) (auto simp: admitProvider_def provider_ok_def)
qed

lemma admitProvider_members: "provider_ok req inp \<Longrightarrow> admitProvider req inp checkers = (passing req inp, None)"
  using members_loop_passed [of req inp "cap_Members (in_Capabilities inp)" "[]" None]
    passing_nonempty [of req inp] admitProvider_None_iff [of req inp]
  by (auto simp: admitProvider_def provider_ok_def passing_def split: prod.splits if_splits)

lemma admitOne_provider: "admitOne req inp checkers = Some r \<Longrightarrow> rj_Provider r = in_Provider inp"
  using admitOne_SomeD by blast

lemma admitProvider_rejection:
  assumes "snd (admitProvider req inp checkers) = Some r"
  shows "rj_Provider r = in_Provider inp" "Reason_Valid (rj_Reason r)"
proof -
  have "rj_Provider r = in_Provider inp \<and> Reason_Valid (rj_Reason r)"
  proof (cases "cap_Members (in_Capabilities inp) = []")
    case True
    with assms show ?thesis
      by (auto simp: admitProvider_def dest!: admitOne_SomeD) (metis failures_valid list.set_intros(1))
  next
    case False
    let ?ms = "cap_Members (in_Capabilities inp)"
    have "snd (members_loop req inp checkers ?ms [] None) = Some r"
      using assms False by (auto simp: admitProvider_def split: prod.splits if_splits)
    from members_loop_origin [OF this] obtain m where "rejection_of req inp m r" by auto
    then obtain r0 where r0: "admitOne req (as_member inp m) checkers = Some r0"
      "rj_Reason r = rj_Reason r0" "rj_Provider r = rj_Provider r0" by (auto simp: rejection_of_def)
    have "rj_Reason r0 \<in> set (failures req (as_member inp m) requirements)"
      using admitOne_SomeD [OF r0(1)] by (metis list.set_intros(1))
    with r0 show ?thesis using admitOne_provider [OF r0(1)] failures_valid by simp
  qed
  then show "rj_Provider r = in_Provider inp" "Reason_Valid (rj_Reason r)" by auto
qed

section \<open>The whole verdict\<close>

definition verdict :: "Request \<Rightarrow> Input \<Rightarrow> Rejection option" where
  "verdict req inp = snd (admitProvider req inp checkers)"

definition rejections_of :: "Request \<Rightarrow> Input list \<Rightarrow> Rejection list" where
  "rejections_of req inputs = List.map_filter (verdict req) inputs"

definition candidates_of :: "Request \<Rightarrow> Input list \<Rightarrow> Candidate list" where
  "candidates_of req inputs = map (\<lambda>inp. candidate_of inp (passing req inp)) (filter (provider_ok req) inputs)"

lemma map_filter_set: "y \<in> set (List.map_filter f xs) \<longleftrightarrow> (\<exists>x \<in> set xs. f x = Some y)"
  by (induction xs) (auto simp: map_filter_simps split: option.split)

lemma map_filter_mset:
  "mset xs = mset ys \<Longrightarrow> mset (List.map_filter f xs) = mset (List.map_filter f ys)"
  unfolding map_filter_def by (metis mset_filter mset_map)

lemma verdict_None [simp]: "verdict req inp = None \<longleftrightarrow> provider_ok req inp"
  by (simp add: verdict_def admitProvider_None_iff)

lemma Admit_loop_eq:
  "Admit_loop req inputs acc =
     acc\<lparr>res_Candidates := res_Candidates acc @ candidates_of req inputs,
         res_Rejections := res_Rejections acc @ rejections_of req inputs\<rparr>"
proof (induction inputs arbitrary: acc)
  case Nil
  then show ?case by (simp add: candidates_of_def rejections_of_def map_filter_simps)
next
  case (Cons inp inputs)
  show ?case
  proof (cases "provider_ok req inp")
    case True
    then have "verdict req inp = None" by simp
    with True show ?thesis
      by (simp add: Cons.IH admitProvider_members candidates_of_def rejections_of_def map_filter_simps
          del: verdict_None)
  next
    case False
    then obtain r where r: "verdict req inp = Some r"
      using verdict_None [of req inp] by (cases "verdict req inp") blast+
    then obtain ms where "admitProvider req inp checkers = (ms, Some r)"
      by (metis prod.collapse verdict_def)
    with False r show ?thesis
      by (simp add: Cons.IH candidates_of_def rejections_of_def map_filter_simps)
  qed
qed

lemma Admit_candidates:
  "res_Candidates (Admit req inputs) =
     sort_cmp (\<lambda>a b. strCompare (in_Provider a) (in_Provider b)) (candidates_of req inputs)"
  by (simp add: Admit_def Admission_Sort_def Admit_loop_eq)

lemma Admit_rejections:
  "res_Rejections (Admit req inputs) =
     sort_cmp (\<lambda>a b. strCompare (rj_Provider a) (rj_Provider b)) (rejections_of req inputs)"
  by (simp add: Admit_def Admission_Sort_def Admit_loop_eq)

lemma candidate_of_simps [simp]:
  "in_Provider (candidate_of inp ms) = in_Provider inp"
  "in_Capabilities (candidate_of inp ms) = in_Capabilities inp"
  "in_Limits (candidate_of inp ms) = in_Limits inp" "in_Usage (candidate_of inp ms) = in_Usage inp"
  "in_Share (candidate_of inp ms) = in_Share inp" "in_ShareUsage (candidate_of inp ms) = in_ShareUsage inp"
  "in_Tier (candidate_of inp ms) = in_Tier inp" "in_Tags (candidate_of inp ms) = in_Tags inp"
  "in_Labels (candidate_of inp ms) = in_Labels inp" "in_Namespace (candidate_of inp ms) = in_Namespace inp"
  "cd_Members (candidate_of inp ms) = ms"
  "cd_EstimatedCost (candidate_of inp ms) = cap_EstimatedCost (in_Capabilities inp)"
  "Input.truncate (candidate_of inp ms) = inp"
  by (simp_all add: candidate_of_def Candidate.defs Input.defs)

lemma candidate_iff:
  "c \<in> set (res_Candidates (Admit req inputs)) \<longleftrightarrow>
     (\<exists>inp \<in> set inputs. provider_ok req inp \<and> c = candidate_of inp (passing req inp))"
  by (auto simp: Admit_candidates candidates_of_def)

lemma rejection_iff:
  "r \<in> set (res_Rejections (Admit req inputs)) \<longleftrightarrow> (\<exists>inp \<in> set inputs. verdict req inp = Some r)"
  by (simp add: Admit_rejections rejections_of_def map_filter_set)

lemma verdict_provider: "verdict req inp = Some r \<Longrightarrow> rj_Provider r = in_Provider inp"
  by (simp add: verdict_def admitProvider_rejection)

text \<open>Every provider is answered for exactly once.\<close>

lemma Admit_partition:
  "mset (map in_Provider (res_Candidates (Admit req inputs)))
     + mset (map rj_Provider (res_Rejections (Admit req inputs))) = mset (map in_Provider inputs)"
proof -
  have "mset (map in_Provider (candidates_of req inputs)) + mset (map rj_Provider (rejections_of req inputs))
      = mset (map in_Provider inputs)"
  proof (induction inputs)
    case (Cons inp inputs)
    then show ?case
      by (cases "verdict req inp")
        (auto simp: candidates_of_def rejections_of_def map_filter_simps verdict_provider
          simp flip: verdict_None)
  qed (simp add: candidates_of_def rejections_of_def map_filter_simps)
  moreover have "mset (map f (sort_cmp cmp xs)) = mset (map f xs)" for f :: "Candidate \<Rightarrow> string" and cmp xs
    by (simp only: mset_map mset_sort_cmp)
  moreover have "mset (map f (sort_cmp cmp xs)) = mset (map f xs)" for f :: "Rejection \<Rightarrow> string" and cmp xs
    by (simp only: mset_map mset_sort_cmp)
  ultimately show ?thesis by (simp only: Admit_candidates Admit_rejections)
qed

lemma provider_comparison: "comparison (\<lambda>a b. strCompare (f a) (f b))"
  by (rule comparison_key) (rule strings.comparison_axioms)

lemma Admit_sorted:
  "sorted_wrt (\<lambda>a b. strCompare a b \<le> 0) (map in_Provider (res_Candidates (Admit req inputs)))"
  "sorted_wrt (\<lambda>a b. strCompare a b \<le> 0) (map rj_Provider (res_Rejections (Admit req inputs)))"
  using comparison.sorted_sort [OF provider_comparison [of in_Provider], of "candidates_of req inputs"]
    comparison.sorted_sort [OF provider_comparison [of rj_Provider], of "rejections_of req inputs"]
  by (simp_all add: Admit_candidates Admit_rejections sorted_wrt_map)

text \<open>The order of the inputs does not matter when every provider has its own name.\<close>

lemma Admit_permutation:
  assumes "mset inputs = mset inputs'" "distinct (map in_Provider inputs)"
  shows "Admit req inputs = Admit req inputs'"
proof -
  have inj: "inj_on in_Provider (set inputs)" using assms(2) by (simp add: distinct_map)
  have "mset (candidates_of req inputs) = mset (candidates_of req inputs')"
    using assms(1) by (simp add: candidates_of_def)
  moreover have "x = y" if "x \<in> set (candidates_of req inputs)" "y \<in> set (candidates_of req inputs)"
    "strCompare (in_Provider x) (in_Provider y) = 0" for x y
    using that inj by (auto simp: candidates_of_def dest: inj_onD)
  ultimately have c: "res_Candidates (Admit req inputs) = res_Candidates (Admit req inputs')"
    unfolding Admit_candidates by (intro comparison.sort_unique [OF provider_comparison]) auto
  have "mset (rejections_of req inputs) = mset (rejections_of req inputs')"
    unfolding rejections_of_def by (rule map_filter_mset [OF assms(1)])
  moreover have "x = y" if x: "x \<in> set (rejections_of req inputs)" and y: "y \<in> set (rejections_of req inputs)"
    and eq: "strCompare (rj_Provider x) (rj_Provider y) = 0" for x y
  proof -
    obtain i j where i: "i \<in> set inputs" "verdict req i = Some x" and j: "j \<in> set inputs" "verdict req j = Some y"
      using x y by (auto simp: rejections_of_def map_filter_set)
    then have "in_Provider i = in_Provider j" using eq verdict_provider [OF i(2)] verdict_provider [OF j(2)] by simp
    then have "i = j" using inj i j by (auto dest: inj_onD)
    with i j show "x = y" by simp
  qed
  ultimately have r: "res_Rejections (Admit req inputs) = res_Rejections (Admit req inputs')"
    unfolding Admit_rejections by (intro comparison.sort_unique [OF provider_comparison]) auto
  from c r show ?thesis by simp
qed

lemma Retryable_iff:
  "Retryable (Admit req inputs) \<longleftrightarrow> (\<forall>inp \<in> set inputs. \<not> provider_ok req inp) \<and>
     (\<exists>inp \<in> set inputs. \<exists>r. verdict req inp = Some r \<and> Transient (rj_Reason r))"
proof -
  have "Admitted (Admit req inputs) \<longleftrightarrow> (\<exists>c. c \<in> set (res_Candidates (Admit req inputs)))"
    by (cases "res_Candidates (Admit req inputs)") (auto simp: Admitted_def)
  then have adm: "Admitted (Admit req inputs) \<longleftrightarrow> (\<exists>inp \<in> set inputs. provider_ok req inp)"
    unfolding candidate_iff by blast
  have "Retryable (Admit req inputs) \<longleftrightarrow> \<not> Admitted (Admit req inputs) \<and>
      (\<exists>r. r \<in> set (res_Rejections (Admit req inputs)) \<and> Transient (rj_Reason r))"
    unfolding Retryable_def find_first_None by auto
  then show ?thesis unfolding adm rejection_iff by blast
qed

section \<open>An example\<close>

definition sample_capabilities :: Capabilities where
  "sample_capabilities = Capabilities [DriverContainer] [] \<lparr>rl_CPU = None, rl_Memory = None\<rparr> 0
     \<lparr>r_CPU = 0, r_Memory = 0\<rparr> True False True 0 0 []"

definition sample_input :: Input where
  "sample_input =
     \<lparr>in_Provider = ''fn'', in_Capabilities = sample_capabilities, in_Limits = no_limits,
      in_Usage = Map.empty, in_Namespace = ''default'', in_Share = no_limits, in_ShareUsage = Map.empty,
      in_Tags = [], in_Labels = [], in_Tier = 0, in_Enabled = True, in_Healthy = True\<rparr>"

definition sample_task :: Task where
  "sample_task =
     \<lparr>task_Name = ''build'', task_Driver = DriverContainer, task_Config = None, task_Env = None, task_Source = None,
      task_WorkingDirectory = None, task_Resources = None, task_Timeout = None, task_Network = None,
      task_Execution = None, task_Retry = None, task_Vars = None, task_Meta = []\<rparr>"

definition sample_request :: Request where
  "sample_request =
     \<lparr>rq_Task = sample_task, rq_Routing = None, rq_Image = [], rq_Execution = \<lparr>ex_CPU = 0, ex_Memory = 0, ex_Duration = 0\<rparr>,
      rq_ServerTiers = []\<rparr>"


lemma arch_ok_code [code]:
  "arch_ok req inp \<longleftrightarrow> (case Request_Architecture req of None \<Rightarrow> True
     | Some arch \<Rightarrow> SupportsArch (in_Capabilities inp) arch)"
  by (simp add: arch_ok_def split: option.split)

lemma duration_ok_code [code]:
  "duration_ok req inp \<longleftrightarrow> (case task_Timeout (rq_Task req) of None \<Rightarrow> True
     | Some t \<Rightarrow> (case Duration_Std t of Inl e \<Rightarrow> True | Inr d \<Rightarrow> WithinDuration (in_Capabilities inp) d))"
  by (auto simp: duration_ok_def split: option.split sum.split)

lemma sample_admissible: "admissible sample_request sample_input"
  by code_simp

section \<open>Properties\<close>

text \<open>C6. A provider is admitted exactly when it meets every requirement of the request; one that is not
  is rejected with every requirement it fails, the first in the order of the checks as the
  reason and the others beside it.\<close>

theorem admission_verdict:
  "(admitOne req inp checkers = None \<longleftrightarrow> admissible req inp) \<and>
   (\<forall>r. admitOne req inp checkers = Some r \<longrightarrow>
      rj_Reason r # rj_Also r = failures req inp requirements \<and> rj_Provider r = in_Provider inp)"
  using admitOne_None_iff admitOne_SomeD by blast

theorem admission_verdict_witness:
  "\<exists>r. admitOne sample_request (sample_input\<lparr>in_Enabled := False, in_Healthy := False\<rparr>) checkers = Some r \<and>
     rj_Reason r # rj_Also r = [ReasonProviderDisabled, ReasonUnhealthy]"
proof -
  let ?inp = "sample_input\<lparr>in_Enabled := False, in_Healthy := False\<rparr>"
  have "\<not> admissible sample_request ?inp" by (simp add: admissible_def)
  then obtain r where r: "admitOne sample_request ?inp checkers = Some r"
    using admission_verdict [of sample_request ?inp] by auto
  have "failures sample_request ?inp requirements = [ReasonProviderDisabled, ReasonUnhealthy]" by code_simp
  with r admission_verdict [of sample_request ?inp] show ?thesis by auto
qed

text \<open>Admission accounts for every provider once, as a candidate or as a rejection, and lists both
  sorted by name.\<close>

theorem admission_partition:
  "mset (map in_Provider (res_Candidates (Admit req inputs))) +
     mset (map rj_Provider (res_Rejections (Admit req inputs))) = mset (map in_Provider inputs) \<and>
   sorted_wrt (\<lambda>a b. strCompare a b \<le> 0) (map in_Provider (res_Candidates (Admit req inputs))) \<and>
   sorted_wrt (\<lambda>a b. strCompare a b \<le> 0) (map rj_Provider (res_Rejections (Admit req inputs)))"
  using Admit_partition Admit_sorted by blast

text \<open>The answer does not depend on the order the providers are listed in.\<close>

theorem admission_order_independent:
  assumes "mset inputs = mset inputs'" "distinct (map in_Provider inputs)"
  shows "Admit req inputs = Admit req inputs'"
  by (rule Admit_permutation [OF assms])

theorem admission_order_independent_witness:
  "Admit sample_request [sample_input, sample_input\<lparr>in_Provider := ''b''\<rparr>] =
   Admit sample_request [sample_input\<lparr>in_Provider := ''b''\<rparr>, sample_input]"
  by (rule admission_order_independent) (simp_all add: sample_input_def)

text \<open>A pool of nodes is admitted exactly when one of its members meets the request, and its
  candidate names exactly those members; otherwise the rejection is the one of a member that
  fails the fewest requirements.\<close>

theorem pool_admission:
  assumes "cap_Members (in_Capabilities inp) \<noteq> []"
  shows "case admitProvider req inp checkers of
      (members, None) \<Rightarrow> members \<noteq> [] \<and>
        members = map mem_Name (filter (\<lambda>m. admissible req (as_member inp m)) (cap_Members (in_Capabilities inp)))
    | (members, Some r) \<Rightarrow> members = [] \<and>
        (\<exists>m \<in> set (cap_Members (in_Capabilities inp)). \<exists>r0. admitOne req (as_member inp m) checkers = Some r0 \<and>
           r = r0\<lparr>rj_Detail := ClosestNode (mem_Name m) (rj_Detail r0)\<rparr>) \<and>
        (\<forall>m \<in> set (cap_Members (in_Capabilities inp)).
           length (rj_Also r) < length (failures req (as_member inp m) requirements))"
proof (cases "provider_ok req inp")
  case True
  with assms show ?thesis
    using passing_nonempty [of req inp]
    by (simp add: admitProvider_members provider_ok_def) (simp add: passing_def member_ok_def [abs_def])
next
  case False
  let ?ms = "cap_Members (in_Capabilities inp)" and ?out = "members_loop req inp checkers (cap_Members (in_Capabilities inp)) [] None"
  have none: "\<not> admissible req (as_member inp m)" if "m \<in> set ?ms" for m
    using False assms that by (auto simp: provider_ok_def member_ok_def)
  have "fst ?out = []" using none by (simp add: members_loop_passed member_ok_def filter_empty_conv)
  moreover obtain r where r: "snd ?out = Some r"
    using members_loop_None [of req inp ?ms "[]" None] none assms
    by (cases "snd ?out") (auto simp: member_ok_def neq_Nil_conv)
  ultimately have out: "admitProvider req inp checkers = ([], Some r)"
    using assms by (cases ?out) (simp add: admitProvider_def)
  have "\<exists>m \<in> set ?ms. rejection_of req inp m r" using members_loop_origin [OF r] by simp
  moreover have "length (rj_Also r) < length (failures req (as_member inp m) requirements)" if m: "m \<in> set ?ms" for m
  proof -
    obtain r0 where r0: "admitOne req (as_member inp m) checkers = Some r0"
      using none [OF m] admitOne_None_iff [of req "as_member inp m"] by auto
    have "length (rj_Also r) \<le> length (rj_Also r0)" using members_loop_least [OF r] m r0 by blast
    moreover have "length (failures req (as_member inp m) requirements) = Suc (length (rj_Also r0))"
      using admitOne_SomeD [OF r0] by (metis length_Cons)
    ultimately show ?thesis by simp
  qed
  ultimately show ?thesis by (auto simp: out rejection_of_def)
qed

definition sample_pool :: Input where
  "sample_pool = sample_input\<lparr>in_Capabilities := Capabilities [DriverContainer] [] \<lparr>rl_CPU = None, rl_Memory = None\<rparr> 0
     \<lparr>r_CPU = 0, r_Memory = 0\<rparr> True False True 0 0
     [Member ''n1'' sample_capabilities [], Member ''n2'' (Capabilities [] [] \<lparr>rl_CPU = None, rl_Memory = None\<rparr> 0
        \<lparr>r_CPU = 0, r_Memory = 0\<rparr> True False True 0 0 []) []]\<rparr>"

theorem pool_admission_witness:
  "fst (admitProvider sample_request sample_pool checkers) = [''n1'']"
proof -
  have m: "cap_Members (in_Capabilities sample_pool) \<noteq> []" by (simp add: sample_pool_def)
  have f: "map mem_Name (filter (\<lambda>m. admissible sample_request (as_member sample_pool m))
    (cap_Members (in_Capabilities sample_pool))) = [''n1'']" by code_simp
  have "snd (admitProvider sample_request sample_pool checkers) = None" by code_simp
  with pool_admission [OF m, of sample_request] f show ?thesis
    by (cases "admitProvider sample_request sample_pool checkers") simp
qed

text \<open>Work that did not offer to pay is only ever offered free capacity: a candidate for it has room
  in every pool of the provider's quota and of the namespace's share, and the provider, or
  a member of its pool it may go to, charges nothing.\<close>

theorem free_tier:
  assumes "c \<in> set (res_Candidates (Admit req inputs))" "MaxCost req = 0"
  shows "Limits_Within (in_Limits c) (in_Usage c) (rq_Execution req) \<and>
    Limits_Within (in_Share c) (in_ShareUsage c) (rq_Execution req) \<and>
    (if cap_Members (in_Capabilities c) = [] then cd_EstimatedCost c \<le> 0
     else \<exists>m \<in> set (cap_Members (in_Capabilities c)). mem_Name m \<in> set (cd_Members c) \<and>
       cap_EstimatedCost (mem_Capabilities m) \<le> 0)"
proof -
  obtain inp where inp: "provider_ok req inp" "c = candidate_of inp (passing req inp)"
    using assms(1) by (auto simp: candidate_iff)
  have pays: "\<not> WillPay req" using assms(2) by (simp add: WillPay_def)
  show ?thesis
  proof (cases "cap_Members (in_Capabilities inp) = []")
    case True
    with inp assms(2) pays show ?thesis
      by (simp add: provider_ok_def admissible_def affordable_def quota_ok_def)
  next
    case False
    with inp(1) obtain m where m: "m \<in> set (cap_Members (in_Capabilities inp))" "member_ok req inp m"
      by (auto simp: provider_ok_def)
    then have "mem_Name m \<in> set (passing req inp)" by (auto simp: passing_def)
    with False inp(2) m assms(2) pays show ?thesis
      by (auto simp: member_ok_def admissible_def affordable_def quota_ok_def as_member_def intro!: bexI [of _ m])
  qed
qed

theorem free_tier_witness:
  "cd_EstimatedCost (hd (res_Candidates (Admit sample_request [sample_input]))) \<le> 0"
proof -
  have ne: "res_Candidates (Admit sample_request [sample_input]) \<noteq> []" by code_simp
  have "MaxCost sample_request = 0" by code_simp
  moreover have "cap_Members (in_Capabilities (hd (res_Candidates (Admit sample_request [sample_input])))) = []"
    by code_simp
  ultimately show ?thesis using free_tier [OF hd_in_set [OF ne]] by simp
qed

text \<open>A request is worth retrying exactly when nothing admitted it now and some rejection may pass:
  quota that renews, a provider switched off or one that did not answer.\<close>

theorem retryable_iff:
  "Retryable (Admit req inputs) \<longleftrightarrow> (\<forall>inp \<in> set inputs. \<not> provider_ok req inp) \<and>
     (\<exists>inp \<in> set inputs. \<exists>r. verdict req inp = Some r \<and>
        rj_Reason r \<in> {ReasonQuotaExhausted, ReasonProviderDisabled, ReasonUnhealthy})"
  unfolding Retryable_iff Transient_def transientReasons_def by simp

theorem retryable_iff_witness:
  "Retryable (Admit sample_request [sample_input\<lparr>in_Healthy := False\<rparr>])"
proof -
  let ?inp = "sample_input\<lparr>in_Healthy := False\<rparr>"
  have no: "\<not> provider_ok sample_request ?inp" by code_simp
  then obtain r where r: "verdict sample_request ?inp = Some r"
    using verdict_None [of sample_request ?inp] by (cases "verdict sample_request ?inp") simp_all
  have "map_option rj_Reason (verdict sample_request ?inp) = Some ReasonUnhealthy" by code_simp
  with r have "rj_Reason r = ReasonUnhealthy" by simp
  with no r show ?thesis unfolding retryable_iff by auto
qed

end
