(* ===== verification/Rank.thy ===== *)
theory Rank
  imports Admission
begin

text \<open>
  \<^verbatim>\<open>internal/scheduler\<close>, ranking: scores between zero and one in \<open>float64\<close>
  arithmetic, averaged, and a stable sort by tier and score.
\<close>

section \<open>Scores\<close>

definition ScorerHeadroom :: string where [vocab]: "ScorerHeadroom = ''headroom''"
definition ScorerAffinity :: string where [vocab]: "ScorerAffinity = ''affinity''"
definition ScorerTier :: string where [vocab]: "ScorerTier = ''tier''"

record Score =
  sc_Name :: string
  sc_Value :: rat

record ScoredCandidate = Candidate +
  sd_Score :: rat
  sd_Scores :: "Score list"

type_synonym Ranking = "ScoredCandidate list"

definition Percent :: "ScoredCandidate \<Rightarrow> int" where
  "Percent s = math_Round (fl_mul (sd_Score s) 100)"

definition Selected :: "Ranking \<Rightarrow> ScoredCandidate option" where
  "Selected r = (case r of [] \<Rightarrow> None | s # rest \<Rightarrow> Some s)"

definition Ranking_Providers :: "Ranking \<Rightarrow> string list" where
  "Ranking_Providers r = map in_Provider r"

definition clamp :: "rat \<Rightarrow> rat" where
  "clamp value = max 0 (min 1 value)"

fun mean_loop :: "Score list \<Rightarrow> rat \<Rightarrow> rat" where
  "mean_loop [] acc = acc"
| "mean_loop (s # scores) acc = mean_loop scores (fl_add acc (sc_Value s))"

definition mean :: "Score list \<Rightarrow> rat" where
  "mean scores =
     (if scores = [] then 0 else fl_div (mean_loop scores 0) (fl_of_int (int (length scores))))"

definition headroomScore :: "Candidate \<Rightarrow> Execution \<Rightarrow> rat" where
  "headroomScore c e = clamp (fl_div (fl_of_int (Input_FreePercent (Input.truncate c) e)) 100)"

definition baseScorer :: "Strategy \<Rightarrow> Candidate \<Rightarrow> Execution \<Rightarrow> rat" where
  "baseScorer strategy = (if strategy = StrategyFreeFirst then headroomScore else headroomScore)"

record tierSpan =
  low :: int
  high :: int

fun tierSpan_loop :: "Candidate list \<Rightarrow> tierSpan \<Rightarrow> tierSpan" where
  "tierSpan_loop [] sp = sp"
| "tierSpan_loop (c # cs) sp =
     tierSpan_loop cs \<lparr>low = min (low sp) (in_Tier c), high = max (high sp) (in_Tier c)\<rparr>"

definition tierSpanOf :: "Candidate list \<Rightarrow> tierSpan" where
  "tierSpanOf cs =
     (case cs of [] \<Rightarrow> \<lparr>low = 0, high = 0\<rparr>
      | c # rest \<Rightarrow> tierSpan_loop cs \<lparr>low = in_Tier c, high = in_Tier c\<rparr>)"

definition tierSpan_score :: "tierSpan \<Rightarrow> int \<Rightarrow> rat" where
  "tierSpan_score s tier =
     (if high s = low s then 1
      else clamp (fl_div (fl_of_int (wrap64 (high s - tier))) (fl_of_int (wrap64 (high s - low s)))))"

definition score :: "Request \<Rightarrow> TierMode \<Rightarrow> tierSpan \<Rightarrow> Candidate \<Rightarrow> ScoredCandidate" where
  "score req mode sp c =
     (let scores = [\<lparr>sc_Name = ScorerHeadroom,
                     sc_Value = baseScorer (Request_Strategy req) c (rq_Execution req)\<rparr>];
          scores = (if mode = TiersWeighted
                    then scores @ [\<lparr>sc_Name = ScorerTier, sc_Value = tierSpan_score sp (in_Tier c)\<rparr>]
                    else scores);
          affinities = Request_Affinities req;
          scores = (if affinities \<noteq> []
                    then scores @ [\<lparr>sc_Name = ScorerAffinity,
                      sc_Value = AffinityScore (Input_Attributes (Input.truncate c) (rq_Execution req)) affinities\<rparr>]
                    else scores)
      in Candidate.extend c (ScoredCandidate.fields (mean scores) scores))"

section \<open>Ranking\<close>

definition rank_cmp :: "TierMode \<Rightarrow> ScoredCandidate \<Rightarrow> ScoredCandidate \<Rightarrow> int" where
  "rank_cmp mode a b =
     (let c = cmpCompare (in_Tier a) (in_Tier b) in
      if mode = TiersStrict \<and> c \<noteq> 0 then c else cmpCompare (sd_Score b) (sd_Score a))"

definition Rank :: "Request \<Rightarrow> Candidate list \<Rightarrow> Ranking" where
  "Rank req candidates =
     (let mode = Request_Tiers req; sp = tierSpanOf candidates
      in sort_cmp (rank_cmp mode) (map (score req mode sp) candidates))"

record Plan =
  pl_Ranking :: Ranking
  pl_Rejections :: "Rejection list"
  pl_Retryable :: bool
  pl_Tiers :: TierMode

definition PlanTask :: "Request \<Rightarrow> Input list \<Rightarrow> Plan" where
  "PlanTask req inputs =
     (let result = Admit req inputs in
      \<lparr>pl_Ranking = Rank req (res_Candidates result), pl_Rejections = res_Rejections result,
       pl_Retryable = Retryable result, pl_Tiers = Request_Tiers req\<rparr>)"

section \<open>Facts\<close>

lemma clamp_range [simp]: "0 \<le> clamp x" "clamp x \<le> 1"
  by (auto simp: clamp_def)

lemma mean_loop_bounds:
  assumes "\<forall>s \<in> set scores. 0 \<le> sc_Value s \<and> sc_Value s \<le> 1" "0 \<le> acc" "acc \<le> of_nat n"
    "n + length scores < 2 ^ 53"
  shows "0 \<le> mean_loop scores acc \<and> mean_loop scores acc \<le> of_nat (n + length scores)"
  using assms
proof (induction scores arbitrary: acc n)
  case (Cons s scores)
  let ?acc = "fl_add acc (sc_Value s)"
  have b: "0 \<le> acc + sc_Value s" "acc + sc_Value s \<le> of_int (int (Suc n))" using Cons.prems by auto
  have "0 \<le> ?acc" using b(1) by (simp add: fl_add_def fl_nonneg)
  moreover have "fl (of_int (int (Suc n))) = of_int (int (Suc n))"
    using Cons.prems(4) by (intro fl_of_int_exact) simp
  then have "?acc \<le> of_nat (Suc n)" using fl_mono [OF b(2)] by (simp add: fl_add_def)
  ultimately show ?case using Cons.IH [of ?acc "Suc n"] Cons.prems by simp
qed simp

lemma mean_range:
  assumes "\<forall>s \<in> set scores. 0 \<le> sc_Value s \<and> sc_Value s \<le> 1" "length scores < 2 ^ 53"
  shows "0 \<le> mean scores \<and> mean scores \<le> 1"
proof (cases "scores = []")
  case False
  let ?n = "int (length scores)" and ?s = "mean_loop scores 0"
  have s: "0 \<le> ?s" "?s \<le> of_int ?n" using mean_loop_bounds [OF assms(1), of 0 0] assms(2) by simp_all
  have n: "fl (of_int ?n) = of_int ?n" using assms(2) by (intro fl_of_int_exact) simp
  have "0 < (of_int ?n :: rat)" using False by simp
  with s have "0 \<le> ?s / of_int ?n" "?s / of_int ?n \<le> 1" by (simp_all add: divide_le_eq)
  with fl_unit n False show ?thesis by (simp add: mean_def fl_ops)
qed (simp add: mean_def)

lemma score_parts:
  "sd_Score (score req mode sp c) = mean (sd_Scores (score req mode sp c))"
  "sd_Scores (score req mode sp c) =
     [\<lparr>sc_Name = ScorerHeadroom, sc_Value = headroomScore c (rq_Execution req)\<rparr>] @
     (if mode = TiersWeighted then [\<lparr>sc_Name = ScorerTier, sc_Value = tierSpan_score sp (in_Tier c)\<rparr>] else []) @
     (if Request_Affinities req \<noteq> [] then [\<lparr>sc_Name = ScorerAffinity,
        sc_Value = AffinityScore (Input_Attributes (Input.truncate c) (rq_Execution req)) (Request_Affinities req)\<rparr>]
      else [])"
  "Candidate.truncate (score req mode sp c) = c"
  "in_Tier (score req mode sp c) = in_Tier c" "in_Provider (score req mode sp c) = in_Provider c"
  "cd_Members (score req mode sp c) = cd_Members c"
  by (simp_all add: score_def Let_def baseScorer_def ScoredCandidate.defs Candidate.defs)

lemma score_range:
  assumes "weights_ok (Request_Affinities req)"
  shows "0 \<le> sd_Score (score req mode sp c) \<and> sd_Score (score req mode sp c) \<le> 1"
  unfolding score_parts(1)
proof (rule mean_range)
  show "\<forall>s \<in> set (sd_Scores (score req mode sp c)). 0 \<le> sc_Value s \<and> sc_Value s \<le> 1"
    using AffinityScore_unit [OF assms] by (auto simp: score_parts headroomScore_def tierSpan_score_def)
  show "length (sd_Scores (score req mode sp c)) < 2 ^ 53" by (simp add: score_parts)
qed

lemma rank_comparison: "comparison (rank_cmp mode)"
proof
  fix x y z :: ScoredCandidate
  show "sgn (rank_cmp mode x y) = - sgn (rank_cmp mode y x)"
    by (auto simp: rank_cmp_def cmpCompare_def Let_def)
  show "rank_cmp mode x z \<le> 0" if "rank_cmp mode x y \<le> 0" "rank_cmp mode y z \<le> 0"
    using that by (auto simp: rank_cmp_def cmpCompare_def Let_def split: if_splits)
qed

lemma rank_cmp_le:
  "rank_cmp mode a b \<le> 0 \<longleftrightarrow>
     (if mode = TiersStrict then in_Tier a < in_Tier b \<or> in_Tier a = in_Tier b \<and> sd_Score b \<le> sd_Score a
      else sd_Score b \<le> sd_Score a)"
  by (auto simp: rank_cmp_def cmpCompare_def Let_def)

lemma Rank_sorted: "sorted_wrt (\<lambda>a b. rank_cmp (Request_Tiers req) a b \<le> 0) (Rank req cs)"
  unfolding Rank_def Let_def by (rule comparison.sorted_sort [OF rank_comparison])

lemma Rank_stable:
  "filter (\<lambda>y. rank_cmp (Request_Tiers req) k y = 0) (Rank req cs) =
   filter (\<lambda>y. rank_cmp (Request_Tiers req) k y = 0)
     (map (score req (Request_Tiers req) (tierSpanOf cs)) cs)"
  unfolding Rank_def Let_def by (rule comparison.stable_sort [OF rank_comparison])

lemma Rank_mset: "mset (Rank req cs) = image_mset (score req (Request_Tiers req) (tierSpanOf cs)) (mset cs)"
  by (simp add: Rank_def Let_def)

lemma Rank_candidates: "mset (map Candidate.truncate (Rank req cs)) = mset cs"
  by (simp add: Rank_mset score_parts image_mset.compositionality comp_def)

text \<open>Under strict tiers, without affinities, what a plan prints is the free quota itself.\<close>

lemma Percent_headroom:
  assumes "Request_Affinities req = []" "mode \<noteq> TiersWeighted"
    "0 \<le> Input_FreePercent (Input.truncate c) (rq_Execution req)"
    "Input_FreePercent (Input.truncate c) (rq_Execution req) \<le> 100"
  shows "Percent (score req mode sp c) = Input_FreePercent (Input.truncate c) (rq_Execution req)"
proof -
  let ?p = "Input_FreePercent (Input.truncate c) (rq_Execution req)"
  have p: "fl_of_int ?p = of_int ?p" using assms(3,4) by (simp add: fl_of_int_def fl_of_int_exact)
  let ?q = "fl_div (of_int ?p) 100"
  have "0 \<le> (of_int ?p / 100 :: rat)" "(of_int ?p / 100 :: rat) \<le> 1" using assms(3,4) by simp_all
  then have q: "0 \<le> ?q" "?q \<le> 1" using fl_unit by (simp_all add: fl_div_def)
  then have "clamp ?q = ?q" by (simp add: clamp_def)
  moreover have "fl ?q = ?q" by (simp add: fl_div_def)
  ultimately have "sd_Score (score req mode sp c) = ?q"
    using assms(1,2) p by (simp add: score_parts mean_def headroomScore_def fl_ops)
  then show ?thesis using percent_roundtrip [OF assms(3,4)] by (simp add: Percent_def)
qed

section \<open>Properties\<close>

text \<open>Ranking keeps exactly the admitted candidates, each with its score, puts the better first, the
  lower tier before the score under strict tiers, and leaves candidates that tie in
  admission's order.\<close>

theorem ranking_sorted:
  "sorted_wrt (\<lambda>a b. rank_cmp (Request_Tiers req) a b \<le> 0) (Rank req cs) \<and>
   mset (map Candidate.truncate (Rank req cs)) = mset cs \<and>
   filter (\<lambda>y. rank_cmp (Request_Tiers req) k y = 0) (Rank req cs) =
     filter (\<lambda>y. rank_cmp (Request_Tiers req) k y = 0)
       (map (score req (Request_Tiers req) (tierSpanOf cs)) cs)"
  using Rank_sorted Rank_candidates Rank_stable by blast

text \<open>Every score lies between 0 and 1, so no affinity can outweigh the scale the others share.\<close>

theorem scores_in_range:
  assumes "weights_ok (Request_Affinities req)" "s \<in> set (Rank req cs)"
  shows "0 \<le> sd_Score s \<and> sd_Score s \<le> 1 \<and> 0 \<le> Percent s \<and> Percent s \<le> 100"
proof -
  have "s \<in># mset (Rank req cs)" using assms(2) by simp
  then obtain c where s: "s = score req (Request_Tiers req) (tierSpanOf cs) c" by (auto simp: Rank_mset)
  have r: "0 \<le> sd_Score s" "sd_Score s \<le> 1" using score_range [OF assms(1)] by (simp_all add: s)
  then have "sd_Score s * 100 \<le> 100" "0 \<le> sd_Score s * 100" by simp_all
  then have "0 \<le> fl_mul (sd_Score s) 100" "fl_mul (sd_Score s) 100 \<le> 100"
    using fl_mono [of 0 "sd_Score s * 100"] fl_mono [of "sd_Score s * 100" 100] by (simp_all add: fl_mul_def)
  then show ?thesis using r by (auto simp: Percent_def math_Round_def le_floor_iff floor_le_iff)
qed

theorem scores_in_range_witness:
  "Percent (hd (Rank sample_request (res_Candidates (Admit sample_request [sample_input])))) \<le> 100"
proof -
  have "weights_ok (Request_Affinities sample_request)" by code_simp
  moreover have "Rank sample_request (res_Candidates (Admit sample_request [sample_input])) \<noteq> []" by code_simp
  ultimately show ?thesis using scores_in_range hd_in_set by blast
qed

end
