(* ===== verification/Store.thy ===== *)
theory Store
  imports Plugin
begin

text \<open>
  \<^verbatim>\<open>internal/state/memory\<close>: the stores of dispatches, execution records and jobs with
  no database behind them.  The interface dispatch uses is a record of functions; its laws are
  the locale \<open>execution_store\<close>, which the memory store interprets.  Go maps that are iterated
  are association lists; \<open>id_text\<close> is the UUID package's rendering and \<open>fingerprint\<close> the hash
  of a formatted job file, both from outside the repository.
\<close>

section \<open>Errors and the interface\<close>

definition ErrNotFoundExecution :: string where [vocab]: "ErrNotFoundExecution = ''execution not found''"
definition ErrStale :: string where [vocab]: "ErrStale = ''execution changed since it was read''"

record 's Executions =
  x_CreateDispatch :: "Dispatch \<Rightarrow> 's \<Rightarrow> goerror option \<times> 's"
  x_FinishDispatch :: "Dispatch \<Rightarrow> 's \<Rightarrow> goerror option \<times> 's"
  x_RenewDispatch :: "ID \<Rightarrow> string \<Rightarrow> Time \<Rightarrow> 's \<Rightarrow> goerror option \<times> 's"
  x_DispatchExecutions :: "ID \<Rightarrow> 's \<Rightarrow> goerror + Record list"
  x_Create :: "Record \<Rightarrow> 's \<Rightarrow> goerror option \<times> 's"
  x_Update :: "Record \<Rightarrow> State \<Rightarrow> 's \<Rightarrow> goerror option \<times> 's"
  x_Unreleased :: "Time \<Rightarrow> 's \<Rightarrow> goerror + Record list"
  x_MarkReleased :: "ID \<Rightarrow> Time \<Rightarrow> 's \<Rightarrow> goerror option \<times> 's"

section \<open>The memory store of executions\<close>

record ExecMemory =
  em_dispatches :: "(ID \<times> Dispatch) list"
  em_records :: "(ID \<times> Record) list"

definition NewExecutions :: ExecMemory where
  "NewExecutions = \<lparr>em_dispatches = [], em_records = []\<rparr>"

definition CreateDispatch :: "Dispatch \<Rightarrow> ExecMemory \<Rightarrow> goerror option \<times> ExecMemory" where
  "CreateDispatch d s =
     (case map_of (em_dispatches s) (dis_ID d) of
        Some stored \<Rightarrow> (Some (Formatted ''dispatch %s already recorded'' [I (dis_ID d)] []), s)
      | None \<Rightarrow> (None, s\<lparr>em_dispatches := AList.update (dis_ID d) d (em_dispatches s)\<rparr>))"

text \<open>\<open>held\<close>: the dispatch when it is running under \<open>owner\<close>.\<close>

definition held :: "ExecMemory \<Rightarrow> ID \<Rightarrow> string \<Rightarrow> Dispatch option" where
  "held s i owner =
     (case map_of (em_dispatches s) i of
        None \<Rightarrow> None
      | Some stored \<Rightarrow>
          if dis_State stored = DispatchRunning \<and> dis_Owner stored = owner then Some stored else None)"

definition stale_dispatch :: "ID \<Rightarrow> goerror" where
  "stale_dispatch i = Formatted ''%w: dispatch %s'' [I i] [Sentinel ErrStale]"

definition FinishDispatch :: "Dispatch \<Rightarrow> ExecMemory \<Rightarrow> goerror option \<times> ExecMemory" where
  "FinishDispatch d s =
     (case held s (dis_ID d) (dis_Owner d) of
        None \<Rightarrow> (Some (stale_dispatch (dis_ID d)), s)
      | Some stored \<Rightarrow>
          (let stored = stored\<lparr>dis_State := dis_State d, dis_Error := dis_Error d, dis_Ended := dis_Ended d\<rparr>
           in (None, s\<lparr>em_dispatches := AList.update (dis_ID d) stored (em_dispatches s)\<rparr>)))"

definition RenewDispatch :: "ID \<Rightarrow> string \<Rightarrow> Time \<Rightarrow> ExecMemory \<Rightarrow> goerror option \<times> ExecMemory" where
  "RenewDispatch i owner until s =
     (case held s i owner of
        None \<Rightarrow> (Some (stale_dispatch i), s)
      | Some stored \<Rightarrow>
          (None, s\<lparr>em_dispatches := AList.update i (stored\<lparr>dis_LeaseUntil := until\<rparr>) (em_dispatches s)\<rparr>))"

definition claimable :: "Time \<Rightarrow> ID list \<Rightarrow> ID \<Rightarrow> Dispatch \<Rightarrow> bool" where
  "claimable now skip i d \<longleftrightarrow>
     \<not> (dis_State d \<noteq> DispatchRunning \<or> \<not> dis_LeaseUntil d < now \<or> i \<in> set skip)"

fun ClaimDispatches_loop ::
  "string \<Rightarrow> Time \<Rightarrow> Time \<Rightarrow> ID list \<Rightarrow> (ID \<times> Dispatch) list \<Rightarrow> Dispatch list \<Rightarrow> ExecMemory
    \<Rightarrow> Dispatch list \<times> ExecMemory" where
  "ClaimDispatches_loop owner now until skip [] claimed s = (claimed, s)"
| "ClaimDispatches_loop owner now until skip ((i, stored) # rest) claimed s =
     (if \<not> claimable now skip i stored then ClaimDispatches_loop owner now until skip rest claimed s
      else
        (let stored = stored\<lparr>dis_Owner := owner, dis_LeaseUntil := until\<rparr>
         in ClaimDispatches_loop owner now until skip rest (claimed @ [stored])
              (s\<lparr>em_dispatches := AList.update i stored (em_dispatches s)\<rparr>)))"

definition ClaimDispatches ::
  "string \<Rightarrow> Time \<Rightarrow> Time \<Rightarrow> ID list \<Rightarrow> ExecMemory \<Rightarrow> Dispatch list \<times> ExecMemory" where
  "ClaimDispatches owner now until skip s =
     ClaimDispatches_loop owner now until skip (em_dispatches s) [] s"

definition GetDispatch :: "ID \<Rightarrow> ExecMemory \<Rightarrow> goerror + Dispatch" where
  "GetDispatch i s =
     (case map_of (em_dispatches s) i of
        None \<Rightarrow> Inl (Formatted ''%w: dispatch %s'' [I i] [Sentinel ErrNotFoundExecution])
      | Some stored \<Rightarrow> Inr stored)"

definition clone :: "Record \<Rightarrow> Record" where
  "clone r = r\<lparr>rec_Result := Bounded (rec_Result r)\<rparr>"

definition Create :: "Record \<Rightarrow> ExecMemory \<Rightarrow> goerror option \<times> ExecMemory" where
  "Create r s =
     (case map_of (em_records s) (st_ID r) of
        Some stored \<Rightarrow> (Some (Formatted ''execution %s already recorded'' [I (st_ID r)] []), s)
      | None \<Rightarrow> (None, s\<lparr>em_records := AList.update (st_ID r) (clone r) (em_records s)\<rparr>))"

definition Update :: "Record \<Rightarrow> State \<Rightarrow> ExecMemory \<Rightarrow> goerror option \<times> ExecMemory" where
  "Update r from_state s =
     (case map_of (em_records s) (st_ID r) of
        None \<Rightarrow> (Some (Formatted ''%w: %s'' [I (st_ID r)] [Sentinel ErrStale]), s)
      | Some stored \<Rightarrow>
          if st_State stored \<noteq> from_state
          then (Some (Formatted ''%w: %s'' [I (st_ID r)] [Sentinel ErrStale]), s)
          else
            (let updated = (clone r)\<lparr>rec_Released := rec_Released stored\<rparr>
             in (None, s\<lparr>em_records := AList.update (st_ID r) updated (em_records s)\<rparr>)))"

definition Unreleased :: "Time \<Rightarrow> ExecMemory \<Rightarrow> goerror + Record list" where
  "Unreleased before s =
     Inr (sort_cmp (\<lambda>a b. cmpCompare (st_UpdatedAt a) (st_UpdatedAt b))
       (map (\<lambda>(i, stored). clone stored)
         (filter (\<lambda>(i, stored). Time_IsZero (rec_Released stored) \<and> st_UpdatedAt stored < before)
           (em_records s))))"

definition MarkReleased :: "ID \<Rightarrow> Time \<Rightarrow> ExecMemory \<Rightarrow> goerror option \<times> ExecMemory" where
  "MarkReleased i t s =
     (case map_of (em_records s) i of
        None \<Rightarrow> (Some (Formatted ''%w: %s'' [I i] [Sentinel ErrNotFoundExecution]), s)
      | Some stored \<Rightarrow>
          (None, s\<lparr>em_records := AList.update i (stored\<lparr>rec_Released := t\<rparr>) (em_records s)\<rparr>))"

definition Get :: "ID \<Rightarrow> ExecMemory \<Rightarrow> goerror + Record" where
  "Get i s =
     (case map_of (em_records s) i of
        None \<Rightarrow> Inl (Formatted ''%w: %s'' [I i] [Sentinel ErrNotFoundExecution])
      | Some stored \<Rightarrow> Inr (clone stored))"

definition DispatchExecutions :: "(ID \<Rightarrow> string) \<Rightarrow> ID \<Rightarrow> ExecMemory \<Rightarrow> goerror + Record list" where
  "DispatchExecutions id_text dispatch s =
     Inr (sort_cmp (\<lambda>a b. strCompare (id_text (st_ID a)) (id_text (st_ID b)))
       (map (\<lambda>(i, stored). clone stored)
         (filter (\<lambda>(i, stored). rec_Dispatch stored = dispatch) (em_records s))))"

text \<open>The limit is never negative: the callers bound it.\<close>

definition jobExecutions :: "(ID \<Rightarrow> string) \<Rightarrow> string \<Rightarrow> string \<Rightarrow> nat \<Rightarrow> ExecMemory \<Rightarrow> Record list" where
  "jobExecutions id_text namespace job limit s =
     (let out = sort_cmp (\<lambda>a b. strCompare (id_text (st_ID b)) (id_text (st_ID a)))
          (map (\<lambda>(i, stored). clone stored)
            (filter (\<lambda>(i, stored). rec_Namespace stored = namespace \<and> rec_Job stored = job) (em_records s)))
      in take (min limit (length out)) out)"

definition exec_memory :: "(ID \<Rightarrow> string) \<Rightarrow> ExecMemory Executions" where
  "exec_memory id_text =
     \<lparr>x_CreateDispatch = CreateDispatch, x_FinishDispatch = FinishDispatch,
      x_RenewDispatch = RenewDispatch, x_DispatchExecutions = DispatchExecutions id_text,
      x_Create = Create, x_Update = Update, x_Unreleased = Unreleased, x_MarkReleased = MarkReleased\<rparr>"

section \<open>Registered jobs\<close>

definition ErrNotRegistered :: string where [vocab]: "ErrNotRegistered = ''job not registered''"
definition ErrStopped :: string where [vocab]: "ErrStopped = ''job is stopped''"

record JobStanding =
  js_Namespace :: string
  js_Name :: string
  js_Version :: int
  js_Stopped :: bool
  js_Updated :: Time

record Version =
  v_Namespace :: string
  v_Name :: string
  v_Version :: int
  v_Source :: string
  v_Fingerprint :: string
  v_Created :: Time

type_synonym jobKey = "string \<times> string"

record Jobs =
  jb_jobs :: "(jobKey \<times> JobStanding) list"
  jb_versions :: "jobKey \<Rightarrow> Version list"

definition NewJobs :: Jobs where "NewJobs = \<lparr>jb_jobs = [], jb_versions = \<lambda>k. []\<rparr>"

definition latest :: "Jobs \<Rightarrow> jobKey \<Rightarrow> Version" where
  "latest s key =
     (let stored = jb_versions s key in
      if stored = []
      then \<lparr>v_Namespace = [], v_Name = [], v_Version = 0, v_Source = [], v_Fingerprint = [], v_Created = 0\<rparr>
      else last stored)"

definition no_standing :: JobStanding where
  "no_standing = \<lparr>js_Namespace = [], js_Name = [], js_Version = 0, js_Stopped = False, js_Updated = 0\<rparr>"

definition Register ::
  "(string \<Rightarrow> string) \<Rightarrow> string \<Rightarrow> string \<Rightarrow> string \<Rightarrow> Time \<Rightarrow> Jobs \<Rightarrow> (int \<times> bool) \<times> Jobs" where
  "Register fingerprint namespace name source now s =
     (let key = (namespace, name);
          print = fingerprint source;
          found = map_of (jb_jobs s) key \<noteq> None;
          current = (case map_of (jb_jobs s) key of None \<Rightarrow> no_standing | Some j \<Rightarrow> j)
      in if found \<and> \<not> js_Stopped current \<and> v_Fingerprint (latest s key) = print
         then ((js_Version current, False), s)
         else
           (let version = wrap64 (js_Version current + 1) in
            ((version, True),
             s\<lparr>jb_versions := (jb_versions s)(key := jb_versions s key @
                 [\<lparr>v_Namespace = namespace, v_Name = name, v_Version = version, v_Source = source,
                   v_Fingerprint = print, v_Created = now\<rparr>]),
               jb_jobs := AList.update key \<lparr>js_Namespace = namespace, js_Name = name, js_Version = version,
                 js_Stopped = False, js_Updated = now\<rparr> (jb_jobs s)\<rparr>)))"

definition not_registered :: "string \<Rightarrow> string \<Rightarrow> goerror" where
  "not_registered name namespace =
     Formatted ''%w: %q in namespace %q'' [S name, S namespace] [Sentinel ErrNotRegistered]"

definition Stop :: "string \<Rightarrow> string \<Rightarrow> Time \<Rightarrow> Jobs \<Rightarrow> goerror option \<times> Jobs" where
  "Stop namespace name now s =
     (case map_of (jb_jobs s) (namespace, name) of
        None \<Rightarrow> (Some (not_registered name namespace), s)
      | Some j \<Rightarrow>
          (None, s\<lparr>jb_jobs := AList.update (namespace, name) (j\<lparr>js_Stopped := True, js_Updated := now\<rparr>) (jb_jobs s)\<rparr>))"

definition Jobs_Job :: "string \<Rightarrow> string \<Rightarrow> Jobs \<Rightarrow> goerror + JobStanding" where
  "Jobs_Job namespace name s =
     (case map_of (jb_jobs s) (namespace, name) of
        None \<Rightarrow> Inl (not_registered name namespace)
      | Some j \<Rightarrow> Inr j)"

definition Jobs_Jobs :: "string \<Rightarrow> Jobs \<Rightarrow> JobStanding list" where
  "Jobs_Jobs namespace s =
     sort_cmp (\<lambda>a b. strCompare (js_Name a) (js_Name b))
       (map snd (filter (\<lambda>(key, j). fst key = namespace) (jb_jobs s)))"

definition Jobs_Version :: "string \<Rightarrow> string \<Rightarrow> int \<Rightarrow> Jobs \<Rightarrow> goerror + Version" where
  "Jobs_Version namespace name version s =
     (case find_first (\<lambda>v. v_Version v = version) (jb_versions s (namespace, name)) of
        Some v \<Rightarrow> Inr v
      | None \<Rightarrow> Inl (Formatted ''%w: %q version %d'' [S name, N version] [Sentinel ErrNotRegistered]))"

definition Jobs_Versions :: "string \<Rightarrow> string \<Rightarrow> Jobs \<Rightarrow> Version list" where
  "Jobs_Versions namespace name s =
     map (\<lambda>v. v\<lparr>v_Source := []\<rparr>) (rev (jb_versions s (namespace, name)))"

text \<open>\<^verbatim>\<open>internal/jobs\<close>: the version a dispatch runs.\<close>

definition Current :: "string \<Rightarrow> string \<Rightarrow> Jobs \<Rightarrow> goerror + Version" where
  "Current namespace name s =
     (case Jobs_Job namespace name s of
        Inl err \<Rightarrow> Inl err
      | Inr j \<Rightarrow>
          if js_Stopped j
          then Inl (Formatted ''%w: %q; register it again to dispatch it'' [S name] [Sentinel ErrStopped])
          else Jobs_Version namespace name (js_Version j) s)"

text \<open>The namespace a job runs in: its own, else the requested one, else the default.\<close>

definition Namespace :: "string \<Rightarrow> Job \<Rightarrow> (string \<Rightarrow> bool) \<Rightarrow> goerror + string" where
  "Namespace requested j declared =
     (let conflict = (case job_Namespace j of None \<Rightarrow> False
            | Some n \<Rightarrow> requested \<noteq> [] \<and> requested \<noteq> n)
      in if conflict
         then Inl (Formatted ''job %q names namespace %q, but %q was requested; remove one''
           [S (job_Name j), S (the (job_Namespace j)), S requested] [])
         else
           (let namespace = (case job_Namespace j of None \<Rightarrow> requested | Some n \<Rightarrow> n);
                namespace = (if namespace = [] then DefaultNamespace else namespace)
            in if \<not> declared namespace
               then Inl (Formatted ''namespace %q is not declared in the configuration'' [S namespace] [])
               else Inr namespace))"

section \<open>The store's contract\<close>

text \<open>
  A refused operation changes nothing.  A record is created once, updated only from the state
  the writer read, and never has its release time changed by an update; a dispatch is finished
  or renewed only by its owner while it runs.
\<close>

locale execution_store =
  fixes xs :: "'s Executions"
    and record_of :: "'s \<Rightarrow> ID \<Rightarrow> Record option"
    and dispatch_of :: "'s \<Rightarrow> ID \<Rightarrow> Dispatch option"
  assumes create_ok: "x_Create xs r s = (None, s') \<Longrightarrow>
      record_of s (st_ID r) = None \<and> record_of s' = (record_of s)(st_ID r \<mapsto> clone r) \<and>
      dispatch_of s' = dispatch_of s"
    and create_refused: "x_Create xs r s = (Some err, s') \<Longrightarrow> s' = s"
    and update_ok: "x_Update xs r from_state s = (None, s') \<Longrightarrow>
      (\<exists>old. record_of s (st_ID r) = Some old \<and> st_State old = from_state \<and>
         record_of s' = (record_of s)(st_ID r \<mapsto> (clone r)\<lparr>rec_Released := rec_Released old\<rparr>)) \<and>
      dispatch_of s' = dispatch_of s"
    and update_refused: "x_Update xs r from_state s = (Some err, s') \<Longrightarrow> s' = s"
    and mark_ok: "x_MarkReleased xs i t s = (None, s') \<Longrightarrow>
      (\<exists>old. record_of s i = Some old \<and> record_of s' = (record_of s)(i \<mapsto> old\<lparr>rec_Released := t\<rparr>)) \<and>
      dispatch_of s' = dispatch_of s"
    and mark_refused: "x_MarkReleased xs i t s = (Some err, s') \<Longrightarrow> s' = s"
    and begin_ok: "x_CreateDispatch xs d s = (None, s') \<Longrightarrow>
      dispatch_of s (dis_ID d) = None \<and> dispatch_of s' = (dispatch_of s)(dis_ID d \<mapsto> d) \<and>
      record_of s' = record_of s"
    and begin_refused: "x_CreateDispatch xs d s = (Some err, s') \<Longrightarrow> s' = s"
    and finish_ok: "x_FinishDispatch xs d s = (None, s') \<Longrightarrow>
      (\<exists>old. dispatch_of s (dis_ID d) = Some old \<and> dis_State old = DispatchRunning \<and> dis_Owner old = dis_Owner d \<and>
         dispatch_of s' = (dispatch_of s)(dis_ID d \<mapsto>
           old\<lparr>dis_State := dis_State d, dis_Error := dis_Error d, dis_Ended := dis_Ended d\<rparr>)) \<and>
      record_of s' = record_of s"
    and finish_refused: "x_FinishDispatch xs d s = (Some err, s') \<Longrightarrow> s' = s \<and> err_is ErrStale err"
    and renew_ok: "x_RenewDispatch xs i owner until s = (None, s') \<Longrightarrow>
      (\<exists>old. dispatch_of s i = Some old \<and> dis_State old = DispatchRunning \<and> dis_Owner old = owner \<and>
         dispatch_of s' = (dispatch_of s)(i \<mapsto> old\<lparr>dis_LeaseUntil := until\<rparr>)) \<and>
      record_of s' = record_of s"
    and renew_refused: "x_RenewDispatch xs i owner until s = (Some err, s') \<Longrightarrow> s' = s \<and> err_is ErrStale err"
begin

text \<open>What the owner of a run can do once it belongs to someone else, or is over: nothing.\<close>

lemma not_mine:
  assumes "dispatch_of s i = Some d" "dis_State d \<noteq> DispatchRunning \<or> dis_Owner d \<noteq> owner"
  shows "\<exists>err. x_RenewDispatch xs i owner until s = (Some err, s) \<and> err_is ErrStale err"
    and "dis_ID e = i \<Longrightarrow> dis_Owner e = owner \<Longrightarrow>
      \<exists>err. x_FinishDispatch xs e s = (Some err, s) \<and> err_is ErrStale err"
proof -
  obtain res s' where r: "x_RenewDispatch xs i owner until s = (res, s')" by fastforce
  then show "\<exists>err. x_RenewDispatch xs i owner until s = (Some err, s) \<and> err_is ErrStale err"
    using assms renew_ok [of i owner until s s'] renew_refused [of i owner until s _ s'] by (cases res) auto
  obtain fres fs where f: "x_FinishDispatch xs e s = (fres, fs)" by fastforce
  then show "\<exists>err. x_FinishDispatch xs e s = (Some err, s) \<and> err_is ErrStale err"
    if "dis_ID e = i" "dis_Owner e = owner"
    using that assms finish_ok [of e s fs] finish_refused [of e s _ fs] by (cases fres) auto
qed

lemma update_stale:
  assumes "record_of s (st_ID r) = Some old" "st_State old \<noteq> from_state"
  shows "\<exists>err. x_Update xs r from_state s = (Some err, s)"
proof -
  obtain res s' where r: "x_Update xs r from_state s = (res, s')" by fastforce
  then show ?thesis
    using assms update_ok [of r from_state s s'] update_refused [of r from_state s _ s'] by (cases res) auto
qed

lemma create_once:
  assumes "record_of s (st_ID r) = Some old" shows "\<exists>err. x_Create xs r s = (Some err, s)"
proof -
  obtain res s' where "x_Create xs r s = (res, s')" by fastforce
  then show ?thesis using assms create_ok [of r s s'] create_refused [of r s _ s'] by (cases res) auto
qed

end

lemma exec_memory_simps [simp]:
  "x_CreateDispatch (exec_memory f) = CreateDispatch" "x_FinishDispatch (exec_memory f) = FinishDispatch"
  "x_RenewDispatch (exec_memory f) = RenewDispatch" "x_DispatchExecutions (exec_memory f) = DispatchExecutions f"
  "x_Create (exec_memory f) = Create" "x_Update (exec_memory f) = Update"
  "x_Unreleased (exec_memory f) = Unreleased" "x_MarkReleased (exec_memory f) = MarkReleased"
  by (simp_all add: exec_memory_def)

lemma held_Some: "held s i owner = Some d \<longleftrightarrow>
    map_of (em_dispatches s) i = Some d \<and> dis_State d = DispatchRunning \<and> dis_Owner d = owner"
  by (auto simp: held_def split: option.splits)

lemma stale_is [simp]: "err_is ErrStale (stale_dispatch i)"
  by (simp add: stale_dispatch_def)

interpretation exec_store: execution_store "exec_memory f"
  "\<lambda>s. map_of (em_records s)" "\<lambda>s. map_of (em_dispatches s)" for f
  by unfold_locales
    (auto simp: Create_def Update_def MarkReleased_def CreateDispatch_def FinishDispatch_def
      RenewDispatch_def held_Some Let_def update_conv' split: option.splits if_splits)

section \<open>Claims and leases\<close>

definition keys_ok :: "ExecMemory \<Rightarrow> bool" where
  "keys_ok s \<longleftrightarrow> distinct (map fst (em_dispatches s)) \<and> distinct (map fst (em_records s)) \<and>
     (\<forall>(i, d) \<in> set (em_dispatches s). dis_ID d = i) \<and> (\<forall>(i, r) \<in> set (em_records s). st_ID r = i)"

lemma ClaimDispatches_loop_eq:
  assumes "distinct (map fst ds)"
  shows "ClaimDispatches_loop owner now until skip ds claimed s =
    (claimed @ map (\<lambda>(i, d). d\<lparr>dis_Owner := owner, dis_LeaseUntil := until\<rparr>)
        (filter (\<lambda>(i, d). claimable now skip i d) ds),
     s\<lparr>em_dispatches := fold (\<lambda>(i, d). AList.update i (d\<lparr>dis_Owner := owner, dis_LeaseUntil := until\<rparr>))
        (filter (\<lambda>(i, d). claimable now skip i d) ds) (em_dispatches s)\<rparr>)"
  using assms by (induction ds arbitrary: claimed s) (auto simp: Let_def)

lemma fold_update_map:
  "distinct (map fst (xs @ ds)) \<Longrightarrow> fold (\<lambda>(i, d). AList.update i (f d)) (filter (\<lambda>(i, d). P i d) ds) (xs @ ds) =
     xs @ map (\<lambda>(i, d). (i, if P i d then f d else d)) ds"
proof (induction ds arbitrary: xs)
  case (Cons p ds)
  obtain i d where p: "p = (i, d)" by (cases p)
  have up: "AList.update i v (xs @ (i, d) # ds) = xs @ (i, v) # ds" for v
    using Cons.prems by (induction xs) (auto simp: p)
  show ?case
    using Cons.IH [of "xs @ [(i, f d)]"] Cons.IH [of "xs @ [(i, d)]"] Cons.prems by (simp add: p up)
qed simp

lemma ClaimDispatches_eq:
  assumes "distinct (map fst (em_dispatches s))"
  shows "ClaimDispatches owner now until skip s =
    (map (\<lambda>(i, d). d\<lparr>dis_Owner := owner, dis_LeaseUntil := until\<rparr>) (filter (\<lambda>(i, d). claimable now skip i d) (em_dispatches s)),
     s\<lparr>em_dispatches := map (\<lambda>(i, d). (i, if claimable now skip i d then d\<lparr>dis_Owner := owner, dis_LeaseUntil := until\<rparr> else d))
        (em_dispatches s)\<rparr>)"
  using fold_update_map [of "[]" "em_dispatches s"] assms
  by (simp add: ClaimDispatches_def ClaimDispatches_loop_eq)

lemma fold_update_get:
  "distinct (map fst ds) \<Longrightarrow> map_of (fold (\<lambda>(i, d). AList.update i (f d)) ds m) k =
     (case map_of ds k of None \<Rightarrow> map_of m k | Some d \<Rightarrow> Some (f d))"
proof (induction ds arbitrary: m)
  case (Cons p ds)
  obtain i d where p: "p = (i, d)" by (cases p)
  have "map_of ds i = None" using Cons.prems by (auto simp: p map_of_eq_None_iff)
  with Cons show ?case by (auto simp: p update_conv' split: option.split)
qed simp

lemma map_of_filter:
  "distinct (map fst ds) \<Longrightarrow> map_of (filter (\<lambda>(i, d). P i d) ds) k =
     (case map_of ds k of None \<Rightarrow> None | Some d \<Rightarrow> if P k d then Some d else None)"
proof (induction ds)
  case (Cons p ds)
  obtain i d where p: "p = (i, d)" by (cases p)
  have "map_of ds i = None" using Cons.prems by (auto simp: p map_of_eq_None_iff)
  with Cons show ?case by (auto simp: p split: option.splits)
qed simp

lemma claim_state:
  assumes "keys_ok s" "ClaimDispatches owner now until skip s = (claimed, s')"
  shows "map_of (em_dispatches s') k =
      (case map_of (em_dispatches s) k of
         None \<Rightarrow> None
       | Some d \<Rightarrow> Some (if claimable now skip k d then d\<lparr>dis_Owner := owner, dis_LeaseUntil := until\<rparr> else d))"
    and "em_records s' = em_records s"
    and "d' \<in> set claimed \<longleftrightarrow> (\<exists>i d. map_of (em_dispatches s) i = Some d \<and> claimable now skip i d \<and>
      d' = d\<lparr>dis_Owner := owner, dis_LeaseUntil := until\<rparr>)"
proof -
  have d: "distinct (map fst (em_dispatches s))" using assms(1) by (simp add: keys_ok_def)
  note eq = assms(2) [unfolded ClaimDispatches_def ClaimDispatches_loop_eq [OF d]]
  have df: "distinct (map fst (filter (\<lambda>(i, d). claimable now skip i d) (em_dispatches s)))"
    using d by (rule distinct_map_filter)
  show "em_records s' = em_records s" using eq by auto
  show "map_of (em_dispatches s') k =
      (case map_of (em_dispatches s) k of
         None \<Rightarrow> None
       | Some d \<Rightarrow> Some (if claimable now skip k d then d\<lparr>dis_Owner := owner, dis_LeaseUntil := until\<rparr> else d))"
    using eq fold_update_get [OF df, of "\<lambda>d. d\<lparr>dis_Owner := owner, dis_LeaseUntil := until\<rparr>" "em_dispatches s" k]
      map_of_filter [OF d, of "claimable now skip" k] by (auto split: option.splits)
  have "(i, d) \<in> set (em_dispatches s) \<longleftrightarrow> map_of (em_dispatches s) i = Some d" for i d
    using d by simp
  then show "d' \<in> set claimed \<longleftrightarrow> (\<exists>i d. map_of (em_dispatches s) i = Some d \<and> claimable now skip i d \<and>
      d' = d\<lparr>dis_Owner := owner, dis_LeaseUntil := until\<rparr>)"
    using eq by force
qed

text \<open>What any process sharing the store may do to a dispatch.\<close>

inductive lease_step :: "ExecMemory \<Rightarrow> ExecMemory \<Rightarrow> bool" where
  begins: "CreateDispatch d s = (res, s') \<Longrightarrow> lease_step s s'"
| finishes: "FinishDispatch d s = (res, s') \<Longrightarrow> dis_State d \<noteq> DispatchRunning \<Longrightarrow> lease_step s s'"
| renews: "RenewDispatch i owner until s = (res, s') \<Longrightarrow> lease_step s s'"
| claims: "ClaimDispatches owner now until skip s = (claimed, s') \<Longrightarrow> lease_step s s'"
| creates: "Create r s = (res, s') \<Longrightarrow> lease_step s s'"
| updates: "Update r from_state s = (res, s') \<Longrightarrow> lease_step s s'"
| marks: "MarkReleased i t s = (res, s') \<Longrightarrow> lease_step s s'"

inductive_cases lease_stepE: "lease_step s s'"

lemma keys_ok_dispatch:
  assumes "keys_ok s" "map_of (em_dispatches s) i = Some d" shows "dis_ID d = i"
  using assms by (auto simp: keys_ok_def dest: map_of_SomeD)

lemma keys_ok_record:
  assumes "keys_ok s" "map_of (em_records s) i = Some r" shows "st_ID r = i"
  using assms by (auto simp: keys_ok_def dest: map_of_SomeD)

lemma update_keyed:
  assumes "\<forall>(i, x) \<in> set m. f x = i" "f y = j" shows "\<forall>(i, x) \<in> set (AList.update j y m). f x = i"
  using assms by (induction m) (auto split: if_splits)

lemma clone_ID [simp]: "st_ID (clone r) = st_ID r" "st_State (clone r) = st_State r"
  by (simp_all add: clone_def)

lemma fold_keyed:
  assumes "distinct (map fst m)" "\<forall>(i, x) \<in> set m. f x = i" "\<forall>(i, x) \<in> set ds. f (g x) = i"
  shows "distinct (map fst (fold (\<lambda>(i, d). AList.update i (g d)) ds m)) \<and>
    (\<forall>(i, x) \<in> set (fold (\<lambda>(i, d). AList.update i (g d)) ds m). f x = i)"
  using assms
proof (induction ds arbitrary: m)
  case (Cons p ds)
  obtain i d where p: "p = (i, d)" by (cases p)
  have "\<forall>(j, x) \<in> set (AList.update i (g d) m). f x = j"
    using Cons.prems by (intro update_keyed) (auto simp: p)
  then show ?case using Cons.IH [of "AList.update i (g d) m"] Cons.prems by (simp add: p distinct_update)
qed simp

lemma keys_ok_update_dispatch:
  "keys_ok s \<Longrightarrow> dis_ID d = i \<Longrightarrow> keys_ok (s\<lparr>em_dispatches := AList.update i d (em_dispatches s)\<rparr>)"
  using update_keyed [of "em_dispatches s" dis_ID d i] by (simp add: keys_ok_def distinct_update)

lemma keys_ok_update_record:
  "keys_ok s \<Longrightarrow> st_ID r = i \<Longrightarrow> keys_ok (s\<lparr>em_records := AList.update i r (em_records s)\<rparr>)"
  using update_keyed [of "em_records s" st_ID r i] by (simp add: keys_ok_def distinct_update)

lemma lease_step_keys: "lease_step s s' \<Longrightarrow> keys_ok s \<Longrightarrow> keys_ok s'"
proof (induction rule: lease_step.induct)
  case (claims owner now until skip s claimed s')
  have d: "distinct (map fst (em_dispatches s))" using claims.prems by (simp add: keys_ok_def)
  let ?g = "\<lambda>d. d\<lparr>dis_Owner := owner, dis_LeaseUntil := until\<rparr>"
  let ?ds = "filter (\<lambda>(i, d). claimable now skip i d) (em_dispatches s)"
  have "\<forall>(i, x) \<in> set ?ds. dis_ID (?g x) = i" "\<forall>(i, x) \<in> set (em_dispatches s). dis_ID x = i"
    using claims.prems by (auto simp: keys_ok_def)
  note keyed = fold_keyed [OF d this(2) this(1)]
  have s': "s' = s\<lparr>em_dispatches := fold (\<lambda>(i, d). AList.update i (?g d)) ?ds (em_dispatches s)\<rparr>"
    using claims.hyps by (auto simp: ClaimDispatches_def ClaimDispatches_loop_eq [OF d])
  show ?case using keyed claims.prems unfolding keys_ok_def s' by simp
qed (auto simp: CreateDispatch_def FinishDispatch_def RenewDispatch_def Create_def Update_def
    MarkReleased_def Let_def held_Some split: option.splits if_splits
    intro!: keys_ok_update_dispatch keys_ok_update_record dest: keys_ok_dispatch keys_ok_record)

text \<open>A dispatch that is over is never touched again.\<close>

lemma ended_step:
  assumes "lease_step s s'" "keys_ok s" "map_of (em_dispatches s) i = Some d" "dis_State d \<noteq> DispatchRunning"
  shows "map_of (em_dispatches s') i = Some d"
  using assms
proof (induction rule: lease_step.induct)
  case (claims owner now until skip s claimed s')
  then show ?case using claim_state(1) [OF claims.prems(1) claims.hyps] by (simp add: claimable_def)
qed (auto simp: CreateDispatch_def FinishDispatch_def RenewDispatch_def Create_def Update_def
    MarkReleased_def Let_def held_Some update_conv' split: option.splits if_splits)

lemma ended_forever:
  assumes "lease_step\<^sup>*\<^sup>* s s'" "keys_ok s" "map_of (em_dispatches s) i = Some d" "dis_State d \<noteq> DispatchRunning"
  shows "keys_ok s' \<and> map_of (em_dispatches s') i = Some d"
  using assms(1)
  by (induction rule: rtranclp_induct) (auto simp: assms(2,3) intro: lease_step_keys ended_step [OF _ _ _ assms(4)])

text \<open>A dispatch taken over stays with its new owner against everything the old one tries.\<close>

lemma taken_over:
  assumes "keys_ok s" "ClaimDispatches owner now until skip s = (claimed, s')" "d \<in> set claimed" "old \<noteq> owner"
  shows "\<exists>err. RenewDispatch (dis_ID d) old u s' = (Some err, s') \<and> err_is ErrStale err"
    and "dis_ID e = dis_ID d \<Longrightarrow> dis_Owner e = old \<Longrightarrow>
      \<exists>err. FinishDispatch e s' = (Some err, s') \<and> err_is ErrStale err"
proof -
  obtain i d0 where d0: "map_of (em_dispatches s) i = Some d0" "claimable now skip i d0"
    "d = d0\<lparr>dis_Owner := owner, dis_LeaseUntil := until\<rparr>"
    using assms(3) claim_state(3) [OF assms(1,2)] by auto
  have i: "dis_ID d = i" using keys_ok_dispatch [OF assms(1) d0(1)] d0(3) by simp
  have s': "map_of (em_dispatches s') (dis_ID d) = Some d"
    using claim_state(1) [OF assms(1,2), of i] d0 i by simp
  have owner: "dis_Owner d \<noteq> old" using d0(3) assms(4) by simp
  show "\<exists>err. RenewDispatch (dis_ID d) old u s' = (Some err, s') \<and> err_is ErrStale err"
    using exec_store.not_mine(1) [OF s', where owner = old and until = u] owner by simp
  show "\<exists>err. FinishDispatch e s' = (Some err, s') \<and> err_is ErrStale err"
    if "dis_ID e = dis_ID d" "dis_Owner e = old"
    using exec_store.not_mine(2) [OF s', where owner = old and e = e] owner that by simp
qed

text \<open>A claim takes only lapsed leases, and what it takes cannot be claimed again before the new one lapses.\<close>

lemma claim_exclusive:
  assumes "keys_ok s" "ClaimDispatches a now until skip s = (claimed, s')"
    "ClaimDispatches b now2 until2 skip2 s' = (claimed2, s'')" "now2 \<le> until"
    "d \<in> set claimed" "d2 \<in> set claimed2"
  shows "dis_ID d \<noteq> dis_ID d2"
proof
  assume same: "dis_ID d = dis_ID d2"
  have ok': "keys_ok s'" using lease_step_keys [OF lease_step.claims [OF assms(2)] assms(1)] .
  obtain i d0 where d0: "map_of (em_dispatches s) i = Some d0" "claimable now skip i d0"
    "d = d0\<lparr>dis_Owner := a, dis_LeaseUntil := until\<rparr>"
    using assms(5) claim_state(3) [OF assms(1,2)] by auto
  obtain j d1 where d1: "map_of (em_dispatches s') j = Some d1" "claimable now2 skip2 j d1"
    "d2 = d1\<lparr>dis_Owner := b, dis_LeaseUntil := until2\<rparr>"
    using assms(6) claim_state(3) [OF ok' assms(3)] by auto
  have "i = j"
    using same keys_ok_dispatch [OF assms(1) d0(1)] keys_ok_dispatch [OF ok' d1(1)] d0(3) d1(3) by simp
  then have "d1 = d" using d1(1) claim_state(1) [OF assms(1,2), of i] d0 by simp
  then show False using d1(2) d0(3) assms(4) by (simp add: claimable_def)
qed

section \<open>Versions\<close>

text \<open>A job's versions are numbered from one without gaps, and its standing names the last.\<close>

definition key_ok :: "Version list \<Rightarrow> JobStanding option \<Rightarrow> bool" where
  "key_ok vs standing \<longleftrightarrow> (\<forall>k < length vs. v_Version (vs ! k) = int k + 1) \<and>
     (case standing of None \<Rightarrow> vs = [] | Some j \<Rightarrow> vs \<noteq> [] \<and> js_Version j = int (length vs))"

definition jobs_ok :: "Jobs \<Rightarrow> bool" where
  "jobs_ok s \<longleftrightarrow> (\<forall>n name. key_ok (jb_versions s (n, name)) (map_of (jb_jobs s) (n, name)))"

definition room :: "Jobs \<Rightarrow> bool" where
  "room s \<longleftrightarrow> (\<forall>key. int (length (jb_versions s key)) < MaxInt64)"

lemma NewJobs_ok: "jobs_ok NewJobs"
  by (simp add: jobs_ok_def key_ok_def NewJobs_def)

lemma jobs_okD: "jobs_ok s \<Longrightarrow> key_ok (jb_versions s (n, name)) (map_of (jb_jobs s) (n, name))"
  by (simp add: jobs_ok_def)

lemma jobs_ok_current:
  assumes "jobs_ok s"
  shows "js_Version (case map_of (jb_jobs s) (n, name) of None \<Rightarrow> no_standing | Some j \<Rightarrow> j)
    = int (length (jb_versions s (n, name)))"
  using jobs_okD [OF assms, of n name] by (simp add: key_ok_def no_standing_def split: option.splits)

lemma Register_cases:
  assumes ok: "jobs_ok s" and room: "room s" and reg: "Register fp n name src now s = ((v, changed), s')"
  obtains (same) j where "\<not> changed" "s' = s" "map_of (jb_jobs s) (n, name) = Some j" "\<not> js_Stopped j"
      "v = js_Version j" "v_Fingerprint (latest s (n, name)) = fp src"
  | (new) ver where "changed" "v = int (length (jb_versions s (n, name))) + 1"
      "v_Version ver = v" "v_Fingerprint ver = fp src" "v_Source ver = src"
      "jb_versions s' = (jb_versions s)((n, name) := jb_versions s (n, name) @ [ver])"
      "map_of (jb_jobs s') = (map_of (jb_jobs s))((n, name) \<mapsto>
         \<lparr>js_Namespace = n, js_Name = name, js_Version = v, js_Stopped = False, js_Updated = now\<rparr>)"
proof -
  let ?key = "(n, name)" and ?cur = "case map_of (jb_jobs s) (n, name) of None \<Rightarrow> no_standing | Some j \<Rightarrow> j"
  have "js_Version ?cur = int (length (jb_versions s ?key))"
    by (rule jobs_ok_current [OF ok])
  moreover have "int (length (jb_versions s ?key)) < MaxInt64" using room by (simp add: room_def)
  ultimately have w: "wrap64 (js_Version ?cur + 1) = int (length (jb_versions s ?key)) + 1"
    by (intro wrap64_id [THEN trans]) (simp_all add: int64_def MaxInt64_def)
  show thesis
  proof (cases "map_of (jb_jobs s) ?key \<noteq> None \<and> \<not> js_Stopped ?cur \<and> v_Fingerprint (latest s ?key) = fp src")
    case True
    with reg same show thesis by (auto simp: Register_def Let_def)
  next
    case False
    let ?v = "int (length (jb_versions s ?key)) + 1"
    let ?ver = "\<lparr>v_Namespace = n, v_Name = name, v_Version = ?v, v_Source = src,
      v_Fingerprint = fp src, v_Created = now\<rparr>"
    have "Register fp n name src now s = ((?v, True),
        s\<lparr>jb_versions := (jb_versions s)(?key := jb_versions s ?key @ [?ver]),
          jb_jobs := AList.update ?key \<lparr>js_Namespace = n, js_Name = name, js_Version = ?v,
            js_Stopped = False, js_Updated = now\<rparr> (jb_jobs s)\<rparr>)"
      unfolding Register_def Let_def w if_not_P [OF False] ..
    with reg show thesis by (intro new [of ?ver]) (auto simp: update_conv')
  qed
qed

lemma Register_ok:
  assumes "jobs_ok s" "room s" "Register fp n name src now s = ((v, changed), s')"
  shows "jobs_ok s'"
  using assms
proof (cases rule: Register_cases)
  case (new ver)
  then have "key_ok (jb_versions s' (n, name)) (map_of (jb_jobs s') (n, name))"
    using jobs_okD [OF assms(1), of n name] by (simp add: key_ok_def nth_append less_Suc_eq)
  moreover have "jb_versions s' (a, b) = jb_versions s (a, b)" "map_of (jb_jobs s') (a, b) = map_of (jb_jobs s) (a, b)"
    if "(a, b) \<noteq> (n, name)" for a b
    using that by (auto simp: new(6,7))
  ultimately show ?thesis using jobs_okD [OF assms(1)] unfolding jobs_ok_def by metis
qed (use assms in simp)

lemma Stop_ok:
  assumes "jobs_ok s" "Stop n name now s = (err, s')" shows "jobs_ok s'"
proof (cases "map_of (jb_jobs s) (n, name)")
  case None
  with assms show ?thesis by (simp add: Stop_def)
next
  case (Some j)
  then have s': "jb_versions s' = jb_versions s"
    "map_of (jb_jobs s') = (map_of (jb_jobs s))((n, name) \<mapsto> j\<lparr>js_Stopped := True, js_Updated := now\<rparr>)"
    using assms(2) by (auto simp: Stop_def update_conv')
  have "key_ok (jb_versions s' (n, name)) (map_of (jb_jobs s') (n, name))"
    using jobs_okD [OF assms(1), of n name] Some by (simp add: key_ok_def s')
  moreover have "map_of (jb_jobs s') (a, b) = map_of (jb_jobs s) (a, b)" if "(a, b) \<noteq> (n, name)" for a b
    using that by (auto simp: s')
  ultimately show ?thesis using jobs_okD [OF assms(1)] s'(1) unfolding jobs_ok_def by metis
qed

lemma find_version:
  assumes "\<forall>k < length vs. v_Version (vs ! k) = int k + 1" "vs \<noteq> []"
  shows "find_first (\<lambda>v. v_Version v = int (length vs)) vs = Some (last vs)"
proof -
  have last: "last vs \<in> set vs" "v_Version (last vs) = int (length vs)"
  proof -
    have n: "0 < length vs" using assms(2) by simp
    then have "length vs - 1 < length vs" by simp
    with assms(1) have "v_Version (vs ! (length vs - 1)) = int (length vs - 1) + 1" by blast
    also have "\<dots> = int (length vs)" using n by linarith
    finally show "last vs \<in> set vs" "v_Version (last vs) = int (length vs)"
      using assms(2) by (simp_all add: last_conv_nth)
  qed
  have inj: "x = last vs" if x: "x \<in> set vs" "v_Version x = int (length vs)" for x
  proof -
    obtain k where k: "k < length vs" "x = vs ! k" using x(1) by (metis in_set_conv_nth)
    then have "int k + 1 = int (length vs)" using assms(1) [rule_format, OF k(1)] k(2) x(2) by simp
    then have "k = length vs - 1" by linarith
    then show ?thesis using k assms(2) by (simp add: last_conv_nth)
  qed
  show ?thesis
  proof (cases "find_first (\<lambda>v. v_Version v = int (length vs)) vs")
    case None
    then show ?thesis using last by (simp only: find_first_None)
  next
    case (Some x)
    then show ?thesis using inj find_first_SomeD [OF Some] by simp
  qed
qed

text \<open>What a dispatch of a registered job runs is what was registered last.\<close>

lemma Current_registered:
  assumes "jobs_ok s" "room s" "Register fp n name src now s = ((v, changed), s')"
  shows "\<exists>ver. Current n name s' = Inr ver \<and> v_Fingerprint ver = fp src \<and> v_Version ver = v"
proof -
  have ok': "jobs_ok s'" using Register_ok [OF assms] .
  from assms have "\<exists>j. map_of (jb_jobs s') (n, name) = Some j \<and> \<not> js_Stopped j \<and> js_Version j = v \<and>
      v_Fingerprint (last (jb_versions s' (n, name))) = fp src"
  proof (cases rule: Register_cases)
    case (same j)
    moreover have "jb_versions s (n, name) \<noteq> []"
      using jobs_okD [OF assms(1), of n name] same(3) by (simp add: key_ok_def)
    ultimately show ?thesis by (simp add: latest_def Let_def)
  qed simp
  then obtain j where j: "map_of (jb_jobs s') (n, name) = Some j" "\<not> js_Stopped j" "js_Version j = v"
    "v_Fingerprint (last (jb_versions s' (n, name))) = fp src" by blast
  let ?vs = "jb_versions s' (n, name)"
  have vs: "?vs \<noteq> []" "js_Version j = int (length ?vs)" "\<forall>k < length ?vs. v_Version (?vs ! k) = int k + 1"
    using jobs_okD [OF ok', of n name] j(1) by (simp_all add: key_ok_def)
  have "find_first (\<lambda>x. v_Version x = js_Version j) ?vs = Some (last ?vs)"
    using find_version [OF vs(3,1)] vs(2) by simp
  moreover from this have "v_Version (last ?vs) = js_Version j" by (auto dest: find_first_SomeD)
  ultimately show ?thesis using j by (simp add: Current_def Jobs_Job_def Jobs_Version_def)
qed

section \<open>Properties\<close>

text \<open>Of two claims on the store in memory, one right after the other, the second takes nothing of the first's
  while its leases run.\<close>

theorem claims_exclusive_in_memory:
  assumes "keys_ok s" "ClaimDispatches a now until skip s = (claimed, s')"
    "ClaimDispatches b now2 until2 skip2 s' = (claimed2, s'')" "now2 \<le> until"
  shows "dis_ID ` set claimed \<inter> dis_ID ` set claimed2 = {}"
  using claim_exclusive [OF assms] by blast

definition sample_dispatch :: Dispatch where
  "sample_dispatch = \<lparr>dis_ID = 1, dis_Namespace = ''n'', dis_Job = ''j'', dis_JobVersion = 1, dis_Tasks = 1,
     dis_State = DispatchRunning, dis_Error = [], dis_Owner = ''a'', dis_LeaseUntil = 5, dis_Created = 1, dis_Ended = 0\<rparr>"

definition sample_executions :: ExecMemory where
  "sample_executions = \<lparr>em_dispatches = [(1, sample_dispatch)], em_records = []\<rparr>"

lemma sample_executions_ok: "keys_ok sample_executions"
  by (simp add: keys_ok_def sample_executions_def sample_dispatch_def)

abbreviation claimed_by_b :: "Dispatch list \<times> ExecMemory" where
  "claimed_by_b \<equiv> ClaimDispatches ''b'' 10 20 [] sample_executions"

lemma claimed_by_b: "set (fst claimed_by_b) = {sample_dispatch\<lparr>dis_Owner := ''b'', dis_LeaseUntil := 20\<rparr>}"
  by (simp add: ClaimDispatches_def sample_executions_def sample_dispatch_def claimable_def Let_def)

theorem claims_exclusive_in_memory_witness:
  "dis_ID ` set (fst claimed_by_b) = {1} \<and>
   dis_ID ` set (fst claimed_by_b) \<inter> dis_ID ` set (fst (ClaimDispatches ''c'' 20 30 [] (snd claimed_by_b))) = {}"
  using claims_exclusive_in_memory [OF sample_executions_ok surjective_pairing [of claimed_by_b]
      surjective_pairing [of "ClaimDispatches ''c'' 20 30 [] (snd claimed_by_b)"]]
  by (simp add: claimed_by_b) (simp add: sample_dispatch_def)

text \<open>A process whose dispatch another one claimed can neither renew its lease nor record how the
  run ended: both are refused as stale, and change nothing.\<close>

theorem taken_over_is_stale:
  assumes "keys_ok s" "ClaimDispatches owner now until skip s = (claimed, s')" "d \<in> set claimed"
    "old \<noteq> owner" "dis_ID e = dis_ID d" "dis_Owner e = old"
  shows "(\<exists>err. RenewDispatch (dis_ID d) old u s' = (Some err, s') \<and> err_is ErrStale err) \<and>
    (\<exists>err. FinishDispatch e s' = (Some err, s') \<and> err_is ErrStale err)"
  using taken_over [OF assms(1-4)] assms(5,6) by blast

theorem taken_over_is_stale_witness:
  "fst (RenewDispatch 1 ''a'' 99 (snd claimed_by_b)) \<noteq> None"
proof -
  have d: "sample_dispatch\<lparr>dis_Owner := ''b'', dis_LeaseUntil := 20\<rparr> \<in> set (fst claimed_by_b)"
    by (simp add: claimed_by_b)
  from taken_over_is_stale [OF sample_executions_ok surjective_pairing d, of "''a''" sample_dispatch 99]
  show ?thesis by (auto simp: sample_dispatch_def)
qed

text \<open>A dispatch that ended stays exactly as it ended, through any later sequence of dispatches,
  renewals, claims and execution writes.\<close>

theorem ended_dispatch_final:
  assumes "lease_step\<^sup>*\<^sup>* s s'" "keys_ok s" "map_of (em_dispatches s) i = Some d" "dis_State d \<noteq> DispatchRunning"
  shows "map_of (em_dispatches s') i = Some d"
  using ended_forever [OF assms] by blast

theorem ended_dispatch_final_witness:
  "map_of (em_dispatches (snd (ClaimDispatches ''b'' 10 20 []
     (snd (FinishDispatch (sample_dispatch\<lparr>dis_State := DispatchSucceeded, dis_Ended := 4\<rparr>) sample_executions))))) 1
   = Some (sample_dispatch\<lparr>dis_State := DispatchSucceeded, dis_Ended := 4\<rparr>)"
proof -
  let ?s = "snd (FinishDispatch (sample_dispatch\<lparr>dis_State := DispatchSucceeded, dis_Ended := 4\<rparr>) sample_executions)"
  have ok: "keys_ok ?s"
    by (rule lease_step_keys [OF lease_step.finishes sample_executions_ok, OF surjective_pairing])
      (simp add: vocab)
  have i: "map_of (em_dispatches ?s) 1 = Some (sample_dispatch\<lparr>dis_State := DispatchSucceeded, dis_Ended := 4\<rparr>)"
    by (simp add: FinishDispatch_def held_def sample_executions_def sample_dispatch_def)
  have "lease_step ?s (snd (ClaimDispatches ''b'' 10 20 [] ?s))"
    by (rule lease_step.claims [OF surjective_pairing])
  then have "lease_step\<^sup>*\<^sup>* ?s (snd (ClaimDispatches ''b'' 10 20 [] ?s))" by blast
  from ended_dispatch_final [OF this ok i] show ?thesis by (simp add: vocab)
qed

text \<open>After registering a job its current version is the one registered: the fingerprint is the
  source's, the number is the version returned, and the numbers of a job's versions count from one.\<close>

theorem registered_is_current:
  assumes "jobs_ok s" "room s" "Register fp n name src now s = ((v, changed), s')"
  shows "(\<exists>ver. Current n name s' = Inr ver \<and> v_Fingerprint ver = fp src \<and> v_Version ver = v) \<and> jobs_ok s'"
  using Current_registered [OF assms] Register_ok [OF assms] by blast

theorem registered_is_current_witness:
  "\<exists>ver. Current ''n'' ''j'' (snd (Register id ''n'' ''j'' ''src'' 5 NewJobs)) = Inr ver \<and> v_Version ver = 1"
proof -
  have "room NewJobs" by (simp add: room_def NewJobs_def MaxInt64_def)
  moreover have "Register id ''n'' ''j'' ''src'' 5 NewJobs = ((1, True), snd (Register id ''n'' ''j'' ''src'' 5 NewJobs))"
    by (simp add: Register_def NewJobs_def Let_def no_standing_def wrap64_def)
  ultimately show ?thesis using registered_is_current [OF NewJobs_ok] by blast
qed

end
