(* ===== verification/Nodes.thy ===== *)
theory Nodes
  imports Plugin
begin

text \<open>
  \<^verbatim>\<open>internal/nodes\<close>: the agent nodes connected to a server, by name, with what each last reported,
  and when the departed ones left.  A message of the agent protocol is a record of the fields
  the code reads; an absent message reads as its zero value.  A session is a handle; closing one
  is an effect the operations return.
\<close>

section \<open>The agent protocol\<close>

record NodeResources =
  nr_Cpu :: int
  nr_Memory :: int

record HeldWorkload =
  hw_ExecutionId :: string
  hw_Resources :: NodeResources
  hw_Running :: bool

record NodeRegisterRequest =
  nd_Name :: string
  nd_Pool :: string
  nd_Labels :: "(string \<times> string) list"
  nd_Architecture :: string
  nd_Capacity :: NodeResources
  nd_Held :: "HeldWorkload list"
  nd_Runtimes :: "string list"
  nd_Version :: string

record Workload =
  wl_Image :: string
  wl_Command :: "string list"
  wl_Args :: "string list"
  wl_Env :: "(string \<times> string) list"
  wl_WorkingDir :: string
  wl_Resources :: NodeResources
  wl_Timeout :: "Duration option"
  wl_Runtime :: string

section \<open>Connections\<close>

type_synonym Session = nat

record Conn =
  cn_Node :: NodeRegisterRequest
  cn_Address :: string
  cn_Established :: Time
  cn_Session :: Session

fun Used_loop :: "HeldWorkload list \<Rightarrow> int \<times> int \<times> int \<Rightarrow> int \<times> int \<times> int" where
  "Used_loop [] used = used"
| "Used_loop (h # hs) (cpu, memory, running) =
     Used_loop hs
       (if hw_Running h
        then (wrap64 (cpu + nr_Cpu (hw_Resources h)), wrap64 (memory + nr_Memory (hw_Resources h)), running + 1)
        else (cpu, memory, running))"

definition Conn_Used :: "Conn \<Rightarrow> int \<times> int \<times> int" where
  "Conn_Used c = Used_loop (nd_Held (cn_Node c)) (0, 0, 0)"

record Conns =
  cs_conns :: "(string \<times> Conn) list"
  cs_left :: "string \<Rightarrow> Time option"

definition NewConns :: Conns where
  "NewConns = \<lparr>cs_conns = [], cs_left = Map.empty\<rparr>"

text \<open>\<open>Report\<close> returns the sessions it closes: the one a reconnecting node leaves behind.\<close>

definition Report ::
  "(Session \<Rightarrow> string) \<Rightarrow> NodeRegisterRequest \<Rightarrow> Session \<Rightarrow> Time \<Rightarrow> Conns \<Rightarrow> Session list \<times> Conns" where
  "Report address node session now c =
     (let name = nd_Name node; left = (cs_left c)(name := None); old = map_of (cs_conns c) name;
          fresh = \<lparr>cn_Node = node, cn_Address = address session, cn_Established = now, cn_Session = session\<rparr>
      in case old of
           Some conn \<Rightarrow>
             if cn_Session conn = session
             then ([], c\<lparr>cs_left := left, cs_conns := AList.update name (conn\<lparr>cn_Node := node\<rparr>) (cs_conns c)\<rparr>)
             else ([cn_Session conn], c\<lparr>cs_left := left, cs_conns := AList.update name fresh (cs_conns c)\<rparr>)
         | None \<Rightarrow> ([], c\<lparr>cs_left := left, cs_conns := AList.update name fresh (cs_conns c)\<rparr>))"

fun Remove_loop ::
  "Session \<Rightarrow> Time \<Rightarrow> (string \<times> Conn) list \<Rightarrow> Conns \<Rightarrow> string list \<Rightarrow> string list \<times> Conns" where
  "Remove_loop session now [] c removed = (removed, c)"
| "Remove_loop session now ((name, conn) # conns) c removed =
     (if cn_Session conn = session
      then Remove_loop session now conns
        (c\<lparr>cs_conns := AList.delete name (cs_conns c), cs_left := (cs_left c)(name \<mapsto> now)\<rparr>) (removed @ [name])
      else Remove_loop session now conns c removed)"

definition Remove :: "Session \<Rightarrow> Time \<Rightarrow> Conns \<Rightarrow> string list \<times> Conns" where
  "Remove session now c = Remove_loop session now (cs_conns c) c []"

definition CloseAll :: "Conns \<Rightarrow> Session list" where
  "CloseAll c = map (\<lambda>(name, conn). cn_Session conn) (cs_conns c)"

definition Conns_Get :: "Conns \<Rightarrow> string \<Rightarrow> Conn option" where
  "Conns_Get c name = map_of (cs_conns c) name"

definition conns_filter :: "(Conn \<Rightarrow> bool) \<Rightarrow> Conns \<Rightarrow> Conn list" where
  "conns_filter keep c =
     sort_cmp (\<lambda>a b. strCompare (nd_Name (cn_Node a)) (nd_Name (cn_Node b)))
       (filter keep (map snd (cs_conns c)))"

definition Conns_All :: "Conns \<Rightarrow> Conn list" where
  "Conns_All c = conns_filter (\<lambda>conn. True) c"

definition InPool :: "Conns \<Rightarrow> string \<Rightarrow> Conn list" where
  "InPool c pool = conns_filter (\<lambda>conn. nd_Pool (cn_Node conn) = pool) c"

definition LeftAt :: "Conns \<Rightarrow> string \<Rightarrow> Time option" where
  "LeftAt c name = cs_left c name"

section \<open>The invariant\<close>

text \<open>Each connection is listed once, under its node's name, and a connected node has not left.\<close>

definition conns_ok :: "Conns \<Rightarrow> bool" where
  "conns_ok c \<longleftrightarrow> distinct (map fst (cs_conns c)) \<and>
     (\<forall>(name, conn) \<in> set (cs_conns c). nd_Name (cn_Node conn) = name \<and> cs_left c name = None)"

lemma NewConns_ok [simp]: "conns_ok NewConns"
  by (simp add: conns_ok_def NewConns_def)

lemma set_update: "distinct (map fst xs) \<Longrightarrow>
  set (AList.update k v xs) = insert (k, v) {p \<in> set xs. fst p \<noteq> k}"
  by (induction xs) (auto simp: image_iff)

lemma Report_conns:
  assumes "Report address node session now c = (shut, c')"
  shows "\<exists>conn. cs_conns c' = AList.update (nd_Name node) conn (cs_conns c) \<and> cn_Node conn = node \<and>
      cn_Session conn = session \<and> cs_left c' = (cs_left c)(nd_Name node := None)"
proof (cases "map_of (cs_conns c) (nd_Name node)")
  case None
  with assms show ?thesis by (auto simp: Report_def Let_def)
next
  case (Some conn)
  with assms show ?thesis
    by (intro exI [of _ "if cn_Session conn = session then conn\<lparr>cn_Node := node\<rparr>
        else \<lparr>cn_Node = node, cn_Address = address session, cn_Established = now, cn_Session = session\<rparr>"])
      (auto simp: Report_def Let_def)
qed

lemma Report_ok:
  assumes "conns_ok c" "Report address node session now c = (shut, c')"
  shows "conns_ok c'"
proof -
  from Report_conns [OF assms(2)] obtain conn where
    "cs_conns c' = AList.update (nd_Name node) conn (cs_conns c)" "cn_Node conn = node"
    "cs_left c' = (cs_left c)(nd_Name node := None)" by blast
  with assms(1) show ?thesis
    by (auto simp: conns_ok_def set_update intro: distinct_update)
qed

lemma Remove_loop_eq:
  assumes "distinct (map fst conns)"
  shows "Remove_loop session now conns c removed =
    (let gone = map fst (filter (\<lambda>(n, conn). cn_Session conn = session) conns)
     in (removed @ gone,
        c\<lparr>cs_conns := filter (\<lambda>(n, conn). n \<notin> set gone) (cs_conns c),
          cs_left := (\<lambda>n. if n \<in> set gone then Some now else cs_left c n)\<rparr>))"
  using assms
proof (induction conns arbitrary: c removed)
  case Nil
  then show ?case by (simp add: Let_def case_prod_unfold)
next
  case (Cons p conns)
  obtain n conn where p: "p = (n, conn)" by fastforce
  have delete: "filter P (AList.delete n xs) = filter (\<lambda>q. P q \<and> fst q \<noteq> n) xs" for P and xs :: "(string \<times> Conn) list"
    by (induction xs) auto
  from Cons show ?case
    by (auto simp: p Let_def delete case_prod_unfold fun_eq_iff conj_commute intro!: Conns.equality filter_cong)
qed

lemma key_gone:
  "distinct (map fst xs) \<Longrightarrow> p \<in> set xs \<Longrightarrow> fst p \<in> fst ` {q \<in> set xs. P (snd q)} \<longleftrightarrow> P (snd p)"
  by (cases p) (auto dest: eq_key_imp_eq_value intro: rev_image_eqI)

lemma Remove_eq:
  assumes "conns_ok c"
  shows "Remove session now c =
    (map fst (filter (\<lambda>p. cn_Session (snd p) = session) (cs_conns c)),
     c\<lparr>cs_conns := filter (\<lambda>p. cn_Session (snd p) \<noteq> session) (cs_conns c),
       cs_left := (\<lambda>n. if n \<in> fst ` {p \<in> set (cs_conns c). cn_Session (snd p) = session} then Some now else cs_left c n)\<rparr>)"
proof -
  have d: "distinct (map fst (cs_conns c))" using assms by (simp add: conns_ok_def)
  have "filter (\<lambda>p. fst p \<notin> fst ` {q \<in> set (cs_conns c). cn_Session (snd q) = session}) (cs_conns c)
      = filter (\<lambda>p. cn_Session (snd p) \<noteq> session) (cs_conns c)"
    by (rule filter_cong [OF refl]) (simp only: key_gone [OF d, where P = "\<lambda>conn. cn_Session conn = session"])
  then show ?thesis
    unfolding Remove_def Remove_loop_eq [OF d] Let_def case_prod_unfold by simp
qed

lemma Remove_ok:
  assumes "conns_ok c" "Remove session now c = (removed, c')"
  shows "conns_ok c'"
proof -
  have d: "distinct (map fst (cs_conns c))"
    and ok: "\<And>p. p \<in> set (cs_conns c) \<Longrightarrow> nd_Name (cn_Node (snd p)) = fst p \<and> cs_left c (fst p) = None"
    using assms(1) by (auto simp: conns_ok_def)
  have c': "cs_conns c' = filter (\<lambda>p. cn_Session (snd p) \<noteq> session) (cs_conns c)"
    "cs_left c' = (\<lambda>n. if n \<in> fst ` {p \<in> set (cs_conns c). cn_Session (snd p) = session} then Some now else cs_left c n)"
    using assms(2) unfolding Remove_eq [OF assms(1)] by auto
  have "nd_Name (cn_Node (snd p)) = fst p \<and> cs_left c' (fst p) = None" if "p \<in> set (cs_conns c')" for p
  proof -
    from that have p: "p \<in> set (cs_conns c)" "cn_Session (snd p) \<noteq> session" by (simp_all add: c'(1))
    have "fst p \<notin> fst ` {q \<in> set (cs_conns c). cn_Session (snd q) = session}"
      using key_gone [OF d p(1), where P = "\<lambda>conn. cn_Session conn = session"] p(2) by blast
    then show ?thesis using ok [OF p(1)] by (simp only: c'(2) if_False simp_thms)
  qed
  moreover have "distinct (map fst (cs_conns c'))" by (simp add: c'(1) d distinct_map_filter)
  ultimately show ?thesis by (auto simp: conns_ok_def)
qed

lemma InPool_set: "set (InPool c pool) = {conn \<in> snd ` set (cs_conns c). nd_Pool (cn_Node conn) = pool}"
  by (auto simp: InPool_def conns_filter_def)

lemma InPool_Get:
  assumes "conns_ok c" "conn \<in> set (InPool c pool)"
  shows "Conns_Get c (nd_Name (cn_Node conn)) = Some conn"
  using assms by (auto simp: InPool_set conns_ok_def Conns_Get_def)

lemma InPool_names:
  assumes "conns_ok c"
  shows "distinct (map (\<lambda>conn. nd_Name (cn_Node conn)) (InPool c pool))"
proof -
  let ?keep = "filter (\<lambda>p. nd_Pool (cn_Node (snd p)) = pool) (cs_conns c)"
  have "map (\<lambda>p. nd_Name (cn_Node (snd p))) ?keep = map fst ?keep"
    using assms by (auto simp: conns_ok_def)
  moreover have "distinct (map fst ?keep)"
    using assms by (simp add: conns_ok_def distinct_map_filter)
  ultimately have "distinct (map (\<lambda>p. nd_Name (cn_Node (snd p))) ?keep)" by (simp only:)
  then have "distinct (map (\<lambda>conn. nd_Name (cn_Node conn)) (map snd ?keep))" by (simp only: map_map comp_def)
  moreover have "mset (map (\<lambda>conn. nd_Name (cn_Node conn)) (InPool c pool)) =
      mset (map (\<lambda>conn. nd_Name (cn_Node conn)) (map snd ?keep))"
    by (simp add: InPool_def conns_filter_def filter_map comp_def image_mset.compositionality)
  ultimately show ?thesis using mset_eq_imp_distinct_iff by blast
qed

section \<open>Reachable connections\<close>

inductive conns_reach :: "Conns \<Rightarrow> bool" where
  none: "conns_reach NewConns"
| reports: "conns_reach c \<Longrightarrow> Report address node session now c = (shut, c') \<Longrightarrow> conns_reach c'"
| removes: "conns_reach c \<Longrightarrow> Remove session now c = (removed, c') \<Longrightarrow> conns_reach c'"

lemma conns_reach_ok: "conns_reach c \<Longrightarrow> conns_ok c"
  by (induction rule: conns_reach.induct) (auto intro: Report_ok Remove_ok)

lemma Remove_Get:
  assumes "conns_ok c" "Remove session now c = (removed, c')" "Conns_Get c n = Some conn"
  shows "Conns_Get c' n = (if cn_Session conn = session then None else Some conn)"
    and "n \<in> set removed \<longleftrightarrow> cn_Session conn = session"
    and "LeftAt c' n = (if cn_Session conn = session then Some now else None)"
proof -
  have d: "distinct (map fst (cs_conns c))" using assms(1) by (simp add: conns_ok_def)
  have p: "(n, conn) \<in> set (cs_conns c)" using assms(3) by (simp add: Conns_Get_def map_of_SomeD)
  have left: "cs_left c n = None" using assms(1) p by (auto simp: conns_ok_def)
  have c': "cs_conns c' = filter (\<lambda>p. cn_Session (snd p) \<noteq> session) (cs_conns c)"
    "removed = map fst (filter (\<lambda>p. cn_Session (snd p) = session) (cs_conns c))"
    "cs_left c' = (\<lambda>n. if n \<in> fst ` {p \<in> set (cs_conns c). cn_Session (snd p) = session} then Some now else cs_left c n)"
    using assms(2) unfolding Remove_eq [OF assms(1)] by auto
  have gone: "n \<in> fst ` {q \<in> set (cs_conns c). cn_Session (snd q) = session} \<longleftrightarrow> cn_Session conn = session"
    using key_gone [OF d p, where P = "\<lambda>conn. cn_Session conn = session"] by simp
  have "distinct (map fst (cs_conns c'))" by (simp add: c'(1) d distinct_map_filter)
  then show "Conns_Get c' n = (if cn_Session conn = session then None else Some conn)"
    using p d by (auto simp: Conns_Get_def c'(1) map_of_eq_None_iff dest: eq_key_imp_eq_value)
  show "n \<in> set removed \<longleftrightarrow> cn_Session conn = session" using gone by (auto simp: c'(2))
  show "LeftAt c' n = (if cn_Session conn = session then Some now else None)"
    using gone left by (simp add: LeftAt_def c'(3))
qed

section \<open>Properties\<close>

text \<open>A node that reconnected stays connected: its new session replaces and closes the old one, and
  the end of the old session, noticed later, neither removes the node nor records it as gone.\<close>

theorem reconnected_stays:
  assumes "conns_reach c" "Conns_Get c (nd_Name node) = Some old" "cn_Session old \<noteq> session"
    and "Report address node session now c = (shut, c1)" "Remove (cn_Session old) later c1 = (removed, c2)"
  shows "shut = [cn_Session old] \<and> nd_Name node \<notin> set removed \<and> LeftAt c2 (nd_Name node) = None \<and>
    (\<exists>conn. Conns_Get c2 (nd_Name node) = Some conn \<and> cn_Node conn = node \<and> cn_Session conn = session)"
proof -
  have ok: "conns_ok c1" using conns_reach_ok [OF assms(1)] assms(4) by (rule Report_ok)
  obtain conn where conn: "Conns_Get c1 (nd_Name node) = Some conn" "cn_Node conn = node" "cn_Session conn = session"
    using Report_conns [OF assms(4)] by (auto simp: Conns_Get_def update_conv)
  have "shut = [cn_Session old]"
    using assms(2-4) by (auto simp: Report_def Conns_Get_def Let_def)
  with Remove_Get [OF ok assms(5) conn(1)] conn(2,3) assms(3) show ?thesis by auto
qed

definition sample_node :: NodeRegisterRequest where
  "sample_node = \<lparr>nd_Name = ''n1'', nd_Pool = ''home'', nd_Labels = [], nd_Architecture = ''amd64'',
     nd_Capacity = \<lparr>nr_Cpu = 4000, nr_Memory = 8192\<rparr>, nd_Held = [], nd_Runtimes = [], nd_Version = ''1''\<rparr>"

definition sample_conns :: Conns where
  "sample_conns = snd (Report (\<lambda>s. ''10.0.0.1:1'') sample_node 1 5 NewConns)"

lemma sample_conns_reach: "conns_reach sample_conns"
  unfolding sample_conns_def by (rule conns_reach.reports [OF conns_reach.none surjective_pairing])

theorem reconnected_stays_witness:
  "\<exists>conn. Conns_Get (snd (Remove 1 9 (snd (Report (\<lambda>s. ''10.0.0.1:2'') sample_node 2 7 sample_conns)))) ''n1'' = Some conn \<and>
     cn_Session conn = 2"
proof -
  have "Conns_Get sample_conns (nd_Name sample_node) =
      Some \<lparr>cn_Node = sample_node, cn_Address = ''10.0.0.1:1'', cn_Established = 5, cn_Session = 1\<rparr>"
    by (simp add: sample_conns_def Report_def NewConns_def Conns_Get_def)
  moreover have "nd_Name sample_node = ''n1''" by (simp add: sample_node_def)
  ultimately show ?thesis
    using reconnected_stays [OF sample_conns_reach _ _ surjective_pairing surjective_pairing,
        of sample_node _ 2 "\<lambda>s. ''10.0.0.1:2''" 7 9] by fastforce
qed

end
