(* ===== verification/Api.thy ===== *)
theory Api
  imports Rendering Rank Store Nodes
begin

text \<open>
  \<^verbatim>\<open>internal/api\<close> and \<^verbatim>\<open>internal/server/convert.go\<close>: the bodies of the requests and answers, and what each
  internal value looks like in one.  \<^verbatim>\<open>internal/execution/id.go\<close> comes first: identifiers are those of the
  UUID package, the parameter \<open>UUID\<close>.  Times are instants, so sending one out in UTC changes nothing;
  encoding to JSON is the library's.
\<close>

section \<open>Identifiers\<close>

record UUID =
  uu_Parse :: "string \<Rightarrow> string + ID"
  uu_String :: "ID \<Rightarrow> string"
  uu_Created :: "ID \<Rightarrow> Time"

definition ErrInvalidID :: string where [vocab]: "ErrInvalidID = ''invalid execution id''"

definition NewID :: "string + ID \<Rightarrow> goerror + ID" where
  "NewID minted =
     (case minted of Inl err \<Rightarrow> Inl (Formatted ''minting execution id: %w'' [] [Sentinel err]) | Inr u \<Rightarrow> Inr u)"

definition ParseID :: "UUID \<Rightarrow> string \<Rightarrow> goerror + ID" where
  "ParseID u s =
     (case uu_Parse u s of
        Inl err \<Rightarrow> Inl (Formatted ''%w %q: %w'' [S s] [Sentinel ErrInvalidID, Sentinel err])
      | Inr i \<Rightarrow> Inr i)"

definition ID_String :: "UUID \<Rightarrow> ID \<Rightarrow> string" where
  "ID_String u i = uu_String u i"

definition ID_IsZero :: "ID \<Rightarrow> bool" where
  "ID_IsZero i \<longleftrightarrow> i = 0"

definition Created :: "UUID \<Rightarrow> ID \<Rightarrow> Time" where
  "Created u i = uu_Created u i"

definition MarshalText :: "UUID \<Rightarrow> ID \<Rightarrow> goerror + string" where
  "MarshalText u i =
     (if ID_IsZero i then Inl (Formatted ''%w: the zero id is not an execution'' [] [Sentinel ErrInvalidID])
      else Inr (ID_String u i))"

text \<open>The error, and the identifier it leaves behind.\<close>

definition UnmarshalText :: "UUID \<Rightarrow> string \<Rightarrow> ID \<Rightarrow> goerror option \<times> ID" where
  "UnmarshalText u text_bytes i =
     (case ParseID u text_bytes of Inl err \<Rightarrow> (Some err, i) | Inr parsed \<Rightarrow> (None, parsed))"

section \<open>Requests and answers\<close>

record RegisterRequest =
  rgq_Source :: string

record RegisterResponse =
  rgr_Namespace :: string
  rgr_Name :: string
  rgr_Version :: int
  rgr_Changed :: bool

record ApiJob =
  aj_Namespace :: string
  aj_Name :: string
  aj_Version :: int
  aj_Stopped :: bool
  aj_Updated :: Time

record ApiJobVersion =
  av_Version :: int
  av_Registered :: Time

record DispatchRequest =
  dq_Meta :: "(string \<times> string) list"

record RunRequest =
  rnq_Source :: string
  rnq_Meta :: "(string \<times> string) list"

record DispatchResponse =
  dr_Namespace :: string
  dr_Job :: string
  dr_JobVersion :: int
  dr_DispatchID :: string

record ApiBilled =
  ab_CPU :: int
  ab_Memory :: int
  ab_Duration :: Duration

record ApiExecution =
  ax_ID :: string
  ax_Namespace :: string
  ax_Job :: string
  ax_JobVersion :: int
  ax_DispatchID :: string
  ax_Task :: string
  ax_Provider :: string
  ax_Attempt :: int
  ax_PreviousID :: string
  ax_State :: string
  ax_ProviderID :: string
  ax_Failure :: string
  ax_Created :: Time
  ax_Started :: "Time option"
  ax_Ended :: "Time option"
  ax_Updated :: Time
  ax_HasResult :: bool
  ax_ExitCode :: "int option"
  ax_Duration :: Duration
  ax_Billed :: "ApiBilled option"
  ax_LogsTruncated :: bool

record ApiJobStatus = ApiJob +
  as_Versions :: "ApiJobVersion list"
  as_Executions :: "ApiExecution list"

record ApiDispatch =
  ad_DispatchID :: string
  ad_Namespace :: string
  ad_Job :: string
  ad_JobVersion :: int
  ad_State :: string
  ad_Error :: string
  ad_Created :: Time
  ad_Ended :: "Time option"
  ad_Executions :: "ApiExecution list"

record PlanRequest =
  plq_Source :: string
  plq_Name :: string
  plq_Meta :: "(string \<times> string) list"

record ApiScore =
  asc_Name :: string
  asc_Value :: rat

record ApiCandidate =
  ac_Provider :: string
  ac_Tier :: int
  ac_Score :: int
  ac_Scores :: "ApiScore list"
  ac_Observed :: Time

text \<open>The detail of a rejection keeps its structure.\<close>

record ApiRejection =
  ar_Provider :: string
  ar_Reason :: string
  ar_Detail :: Detail
  ar_Also :: "string list"

record ApiTaskPlan =
  atp_Job :: string
  atp_Task :: string
  atp_Driver :: string
  atp_Candidates :: "ApiCandidate list"
  atp_Rejections :: "ApiRejection list"
  atp_Selected :: string
  atp_EstimatedCost :: int
  atp_Retryable :: bool
  atp_Tiers :: string

record ApiPlan =
  ap_Tasks :: "ApiTaskPlan list"

record NodeListStub =
  nl_Name :: string
  nl_Pool :: string
  nl_Address :: string
  nl_Labels :: "(string \<times> string) list"
  nl_Architecture :: string
  nl_CPU :: int
  nl_Memory :: int
  nl_UsedCPU :: int
  nl_UsedMemory :: int
  nl_Runtimes :: "string list"
  nl_Version :: string
  nl_Executions :: int
  nl_Connected :: Time

record ProviderPool =
  ppl_Name :: string
  ppl_Meter :: string
  ppl_Period :: string
  ppl_Used :: rat
  ppl_Limit :: rat
  ppl_FreePercent :: int

record ProviderListStub =
  prs_Name :: string
  prs_Tier :: int
  prs_Enabled :: bool
  prs_Healthy :: bool
  prs_Pools :: "ProviderPool list"

record ProviderList =
  prl_Refreshed :: Time
  prl_Providers :: "ProviderListStub list"

record ApiHealth =
  ah_Store :: string
  ah_StoreError :: string
  ah_UsageRefreshed :: Time
  ah_Running :: nat

record ApiDiagnostic =
  adg_Severity :: string
  adg_Summary :: Text
  adg_Detail :: Text
  adg_Range :: string

record ApiError =
  ae_Error :: string
  ae_Diagnostics :: "ApiDiagnostic list"

section \<open>Conversions\<close>

definition jobOf :: "JobStanding \<Rightarrow> ApiJob" where
  "jobOf j =
     \<lparr>aj_Namespace = js_Namespace j, aj_Name = js_Name j, aj_Version = js_Version j, aj_Stopped = js_Stopped j,
      aj_Updated = js_Updated j\<rparr>"

definition versionOf :: "Version \<Rightarrow> ApiJobVersion" where
  "versionOf v = \<lparr>av_Version = v_Version v, av_Registered = v_Created v\<rparr>"

text \<open>A time that was never set, and an identifier that was never set, stay absent.\<close>

definition set_time :: "Time \<Rightarrow> Time option" where
  "set_time t = (if \<not> Time_IsZero t then Some t else None)"

definition set_id :: "UUID \<Rightarrow> ID \<Rightarrow> string" where
  "set_id u i = (if \<not> ID_IsZero i then ID_String u i else [])"

definition executionOf_record :: "UUID \<Rightarrow> Record \<Rightarrow> ApiExecution" where
  "executionOf_record u r =
     (let out = \<lparr>ax_ID = ID_String u (st_ID r), ax_Namespace = rec_Namespace r, ax_Job = rec_Job r,
            ax_JobVersion = rec_JobVersion r, ax_DispatchID = set_id u (rec_Dispatch r), ax_Task = rec_Task r,
            ax_Provider = rec_Provider r, ax_Attempt = rec_Attempt r, ax_PreviousID = set_id u (rec_Previous r),
            ax_State = st_State r, ax_ProviderID = st_ProviderID r, ax_Failure = rec_Failure r,
            ax_Created = Created u (st_ID r), ax_Started = set_time (st_StartedAt r),
            ax_Ended = set_time (st_EndedAt r), ax_Updated = st_UpdatedAt r, ax_HasResult = False,
            ax_ExitCode = None, ax_Duration = 0, ax_Billed = None, ax_LogsTruncated = False\<rparr>
      in case rec_Result r of
           None \<Rightarrow> out
         | Some res \<Rightarrow>
             out\<lparr>ax_HasResult := True, ax_ExitCode := res_ExitCode res, ax_Duration := res_Duration res,
               ax_LogsTruncated := res_LogsTruncated res,
               ax_Billed := map_option (\<lambda>b. \<lparr>ab_CPU = ex_CPU b, ab_Memory = ex_Memory b, ab_Duration = ex_Duration b\<rparr>)
                 (res_Billed res)\<rparr>)"

definition executionsOf :: "UUID \<Rightarrow> Record list \<Rightarrow> ApiExecution list" where
  "executionsOf u records = map (executionOf_record u) records"

definition dispatchOf :: "UUID \<Rightarrow> Dispatch \<Rightarrow> Record list \<Rightarrow> ApiDispatch" where
  "dispatchOf u d runs =
     \<lparr>ad_DispatchID = ID_String u (dis_ID d), ad_Namespace = dis_Namespace d, ad_Job = dis_Job d,
      ad_JobVersion = dis_JobVersion d, ad_State = dis_State d, ad_Error = dis_Error d, ad_Created = dis_Created d,
      ad_Ended = set_time (dis_Ended d), ad_Executions = executionsOf u runs\<rparr>"

definition candidateOf :: "ScoredCandidate \<Rightarrow> ApiCandidate" where
  "candidateOf c =
     \<lparr>ac_Provider = in_Provider c, ac_Tier = in_Tier c, ac_Score = Percent c,
      ac_Scores = map (\<lambda>sc. \<lparr>asc_Name = sc_Name sc, asc_Value = sc_Value sc\<rparr>) (sd_Scores c),
      ac_Observed = cap_ObservedAt (in_Capabilities c)\<rparr>"

definition rejectionOf :: "Rejection \<Rightarrow> ApiRejection" where
  "rejectionOf r =
     \<lparr>ar_Provider = rj_Provider r, ar_Reason = rj_Reason r, ar_Detail = rj_Detail r, ar_Also = rj_Also r\<rparr>"

definition taskPlanOf :: "string \<Rightarrow> Task \<Rightarrow> Plan \<Rightarrow> ApiTaskPlan" where
  "taskPlanOf jobName task plan =
     (let out = \<lparr>atp_Job = jobName, atp_Task = task_Name task, atp_Driver = task_Driver task,
            atp_Candidates = map candidateOf (pl_Ranking plan), atp_Rejections = map rejectionOf (pl_Rejections plan),
            atp_Selected = [], atp_EstimatedCost = 0, atp_Retryable = pl_Retryable plan, atp_Tiers = pl_Tiers plan\<rparr>
      in case Selected (pl_Ranking plan) of
           None \<Rightarrow> out
         | Some selected \<Rightarrow> out\<lparr>atp_Selected := in_Provider selected, atp_EstimatedCost := cd_EstimatedCost selected\<rparr>)"

definition poolOf :: "PoolUsage \<Rightarrow> Pool \<Rightarrow> ProviderPool" where
  "poolOf usage p =
     (let used = mget usage (pool_Name p) in
      \<lparr>ppl_Name = pool_Name p, ppl_Meter = pool_Meter p, ppl_Period = pool_Period p,
       ppl_Used = Meter_Natural (pool_Meter p) used, ppl_Limit = Meter_Natural (pool_Meter p) (pool_Limit p),
       ppl_FreePercent = Pool_FreePercent p used\<rparr>)"

definition providerStub :: "Input \<Rightarrow> ProviderListStub" where
  "providerStub i =
     \<lparr>prs_Name = in_Provider i, prs_Tier = in_Tier i, prs_Enabled = in_Enabled i, prs_Healthy = in_Healthy i,
      prs_Pools = map (poolOf (in_Usage i)) (pools (in_Limits i))\<rparr>"

definition nodeStub :: "Conn \<Rightarrow> NodeListStub" where
  "nodeStub conn =
     (let node = cn_Node conn in
      case Conn_Used conn of (usedCPU, usedMemory, running) \<Rightarrow>
        \<lparr>nl_Name = nd_Name node, nl_Pool = nd_Pool node, nl_Address = cn_Address conn, nl_Labels = nd_Labels node,
         nl_Architecture = nd_Architecture node, nl_CPU = nr_Cpu (nd_Capacity node),
         nl_Memory = nr_Memory (nd_Capacity node), nl_UsedCPU = usedCPU, nl_UsedMemory = usedMemory,
         nl_Runtimes = nd_Runtimes node, nl_Version = nd_Version node, nl_Executions = running,
         nl_Connected = cn_Established conn\<rparr>)"

end
