(* ===== verification/Effects.thy ===== *)
theory Effects
  imports Rank Store "HOL-Library.State_Monad"
begin

text \<open>
  The world dispatch acts on, as a state monad.  A provider, the clock, the identifier source
  and the registry are functions of an environment state \<open>'w\<close> of their own: they stand for
  the plugins and platforms, which answer however they like.  \<open>x_calls\<close> lists the effects in the
  order they happen, a reservation and the creation of a record with whether it was accepted; nothing reads
  it, so that theorems can speak of what was submitted, slept or written.  \<open>state_io_rel R\<close> says that every run of a computation relates the state before
  to the state after, and composes along binds when \<open>R\<close> is reflexive and transitive.
\<close>

abbreviation ret :: "'a \<Rightarrow> ('s, 'a) state" where "ret \<equiv> State_Monad.return"

record Event =
  ev_Task :: string
  ev_Provider :: string
  ev_ID :: ID
  ev_State :: State
  ev_Attempt :: int

datatype Call =
    CallSubmit string ID
  | CallStatus string ID
  | CallResult string ID
  | CallCancel string ID
  | CallRelease string ID
  | CallRecredential string
  | CallSleep Duration
  | CallReserve string ID bool
  | CallSettle string ID
  | CallCreate ID bool
  | CallUpdate ID State State
  | CallReport Event

record 'w Ext =
  x_env :: 'w
  x_calls :: "Call list"

record 'w Provider =
  p_Name :: string
  p_Submit :: "ID \<Rightarrow> Task \<Rightarrow> 'w \<Rightarrow> (Submission \<times> goerror option) \<times> 'w"
  p_SubmitTo :: "(ID \<Rightarrow> Task \<Rightarrow> string list \<Rightarrow> 'w \<Rightarrow> (Submission \<times> goerror option) \<times> 'w) option"
  p_Status :: "ID \<Rightarrow> 'w \<Rightarrow> (Status \<times> goerror option) \<times> 'w"
  p_Result :: "ID \<Rightarrow> 'w \<Rightarrow> (Result option \<times> goerror option) \<times> 'w"
  p_Cancel :: "ID \<Rightarrow> 'w \<Rightarrow> goerror option \<times> 'w"
  p_Release :: "(ID \<Rightarrow> 'w \<Rightarrow> goerror option \<times> 'w) option"
  p_Streams :: bool

record ('s, 'x, 'w) World =
  w_store :: 's
  w_led :: Ledger
  w_exec :: 'x
  w_ext :: "'w Ext"

type_synonym ('s, 'x, 'w, 'a) M = "(('s, 'x, 'w) World, 'a) state"
type_synonym ('w, 'a) E = "('w Ext, 'a) state"

record Poll =
  poll_Initial :: Duration
  poll_Max :: Duration

text \<open>
  The dispatcher's collaborators and settings.  \<open>d_fuel\<close> bounds the polls of one watch in the
  model; the code has no such bound, and a result that ran out of it is \<open>None\<close>.
\<close>

record ('s, 'x, 'w) Dispatcher =
  d_provider :: "string \<Rightarrow> 'w Provider option"
  d_inputs :: "string \<Rightarrow> (string \<Rightarrow> string \<Rightarrow> PoolUsage \<times> PoolUsage) \<Rightarrow> 'w \<Rightarrow> Input list"
  d_recredential :: "string \<Rightarrow> 'w \<Rightarrow> (bool \<times> goerror option) \<times> 'w"
  d_store :: "('s, 'w Ext, goerror) Store"
  d_executions :: "'x Executions"
  d_owner :: string
  d_leaseTTL :: Duration
  d_now :: "'w \<Rightarrow> Time \<times> 'w"
  d_newID :: "'w \<Rightarrow> (ID \<times> goerror option) \<times> 'w"
  d_sleep :: "Duration \<Rightarrow> 'w \<Rightarrow> goerror option \<times> 'w"
  d_ctx_done :: "'w \<Rightarrow> bool"
  d_taken :: "'w \<Rightarrow> bool"
  d_wrote :: "'w \<Rightarrow> bool \<times> 'w"
  d_image :: "Task \<Rightarrow> EvalContext option \<Rightarrow> string \<times> goerror list"
  d_render :: "goerror \<Rightarrow> string"
  d_poll :: Poll
  d_linger :: Duration
  d_logs :: bool
  d_progress :: bool
  d_tiers :: TierMode
  d_fuel :: nat

section \<open>Primitive effects\<close>

definition env :: "('w \<Rightarrow> 'a \<times> 'w) \<Rightarrow> ('w, 'a) E" where
  "env f = State (\<lambda>x. case f (x_env x) of (a, w) \<Rightarrow> (a, x\<lparr>x_env := w\<rparr>))"

definition record_call :: "Call \<Rightarrow> ('w, unit) E" where
  "record_call c = State (\<lambda>x. ((), x\<lparr>x_calls := x_calls x @ [c]\<rparr>))"

definition effect :: "Call \<Rightarrow> ('w \<Rightarrow> 'a \<times> 'w) \<Rightarrow> ('w, 'a) E" where
  "effect c f = do { record_call c; env f }"

definition ext :: "('w, 'a) E \<Rightarrow> ('s, 'x, 'w, 'a) M" where
  "ext m = State (\<lambda>s. case run_state m (w_ext s) of (a, x) \<Rightarrow> (a, s\<lparr>w_ext := x\<rparr>))"

definition on_executions :: "('x \<Rightarrow> 'a \<times> 'x) \<Rightarrow> ('s, 'x, 'w, 'a) M" where
  "on_executions f = State (\<lambda>s. case f (w_exec s) of (a, x) \<Rightarrow> (a, s\<lparr>w_exec := x\<rparr>))"

definition on_store :: "(Ledger \<Rightarrow> 's \<Rightarrow> 'a \<times> 's) \<Rightarrow> ('s, 'x, 'w, 'a) M" where
  "on_store f = State (\<lambda>s. case f (w_led s) (w_store s) of (a, x) \<Rightarrow> (a, s\<lparr>w_store := x\<rparr>))"

definition now :: "('s, 'x, 'w) Dispatcher \<Rightarrow> ('w, Time) E" where
  "now d = env (d_now d)"

definition sleep :: "('s, 'x, 'w) Dispatcher \<Rightarrow> Duration \<Rightarrow> ('w, goerror option) E" where
  "sleep d t = effect (CallSleep t) (d_sleep d t)"

definition report :: "('s, 'x, 'w) Dispatcher \<Rightarrow> Event \<Rightarrow> ('w, unit) E" where
  "report d e = (if d_progress d then record_call (CallReport e) else ret ())"

section \<open>Relations along a run\<close>

lemma run_env [simp]: "run_state (env f) x = (case f (x_env x) of (a, w) \<Rightarrow> (a, x\<lparr>x_env := w\<rparr>))"
  by (simp add: env_def)

lemma run_record_call [simp]: "run_state (record_call c) x = ((), x\<lparr>x_calls := x_calls x @ [c]\<rparr>)"
  by (simp add: record_call_def)

lemma run_ext [simp]:
  "run_state (ext m) s = (case run_state m (w_ext s) of (a, x) \<Rightarrow> (a, s\<lparr>w_ext := x\<rparr>))"
  by (simp add: ext_def)

lemma run_on_executions [simp]:
  "run_state (on_executions f) s = (case f (w_exec s) of (a, x) \<Rightarrow> (a, s\<lparr>w_exec := x\<rparr>))"
  by (simp add: on_executions_def)

lemma run_on_store [simp]:
  "run_state (on_store f) s = (case f (w_led s) (w_store s) of (a, x) \<Rightarrow> (a, s\<lparr>w_store := x\<rparr>))"
  by (simp add: on_store_def)

named_theorems relates \<open>composition of relations along a computation\<close>

locale run_relation =
  fixes R :: "'s \<Rightarrow> 's \<Rightarrow> bool"
  assumes refl: "R s s"
    and trans: "R s t \<Longrightarrow> R t u \<Longrightarrow> R s u"
begin

lemma rel_return [simp, intro]: "state_io_rel R (ret x)"
  by (auto simp: refl)

lemma rel_bind [intro]:
  assumes "state_io_rel R m" "\<And>a. state_io_rel R (f a)" shows "state_io_rel R (bind m f)"
proof
  fix b s s'
  assume "run_state (bind m f) s = (b, s')"
  then obtain a t where "run_state m s = (a, t)" "run_state (f a) t = (b, s')"
    by (auto split: prod.splits)
  then show "R s s'" using assms by (blast intro: trans)
qed

lemma rel_if [intro]:
  "(P \<Longrightarrow> state_io_rel R m) \<Longrightarrow> (\<not> P \<Longrightarrow> state_io_rel R n) \<Longrightarrow> state_io_rel R (if P then m else n)"
  by simp

lemma rel_option [intro]:
  "(x = None \<Longrightarrow> state_io_rel R m) \<Longrightarrow> (\<And>y. x = Some y \<Longrightarrow> state_io_rel R (f y)) \<Longrightarrow>
    state_io_rel R (case x of None \<Rightarrow> m | Some y \<Rightarrow> f y)"
  by (simp split: option.split)

lemma rel_sum [intro]:
  "(\<And>y. x = Inl y \<Longrightarrow> state_io_rel R (g y)) \<Longrightarrow> (\<And>y. x = Inr y \<Longrightarrow> state_io_rel R (f y)) \<Longrightarrow>
    state_io_rel R (case x of Inl y \<Rightarrow> g y | Inr y \<Rightarrow> f y)"
  by (simp split: sum.split)

lemma rel_prod [intro]:
  "(\<And>y z. x = (y, z) \<Longrightarrow> state_io_rel R (f y z)) \<Longrightarrow> state_io_rel R (case x of (y, z) \<Rightarrow> f y z)"
  by (simp split: prod.split)

end

end
