(* ===== verification/Clients.thy ===== *)
theory Clients
  imports Urls Api Effects
begin

text \<open>
  \<^verbatim>\<open>internal/api/client.go\<close>: the client of the API, one operation per route.  Sending a request and its answer
  coming back is \<open>http_Do\<close>, over a network of type \<open>'n\<close>; encoding and decoding JSON are parameters, a
  decoder being given the bytes of a body and the error that cut it short, if one did.  A client method
  answers its result or its error; what Go leaves in a result beside an error is dropped.
\<close>

section \<open>HTTP\<close>

text \<open>A base is how it prints, its escaped path and its query.\<close>

record BaseUrl =
  bu_Text :: string
  bu_Path :: string
  bu_RawQuery :: string

text \<open>A body is sent as JSON, so it comes with its content type.\<close>

record ClientRequest =
  hq_Method :: string
  hq_Base :: string
  hq_Path :: string
  hq_RawQuery :: string
  hq_Body :: "string option"

record ClientResponse =
  hp_StatusCode :: int
  hp_Status :: string
  hp_Body :: string
  hp_Broken :: "string option"

record 'n Http =
  http_New :: "ClientRequest \<Rightarrow> string option"
  http_Do :: "ClientRequest \<Rightarrow> 'n \<Rightarrow> (string + ClientResponse) \<times> 'n"

type_synonym 'a Decoder = "string \<Rightarrow> string option \<Rightarrow> string + 'a"

text \<open>Decoding an error leaves what it read beside the error it met.\<close>

record ClientJson =
  cj_RegisterRequest :: "RegisterRequest \<Rightarrow> string + string"
  cj_DispatchRequest :: "DispatchRequest \<Rightarrow> string + string"
  cj_RunRequest :: "RunRequest \<Rightarrow> string + string"
  cj_PlanRequest :: "PlanRequest \<Rightarrow> string + string"
  cj_Registered :: "RegisterResponse Decoder"
  cj_Jobs :: "(ApiJob list) Decoder"
  cj_JobStatus :: "ApiJobStatus Decoder"
  cj_Job :: "ApiJob Decoder"
  cj_Dispatched :: "DispatchResponse Decoder"
  cj_Plan :: "ApiPlan Decoder"
  cj_Dispatch :: "ApiDispatch Decoder"
  cj_Execution :: "ApiExecution Decoder"
  cj_Nodes :: "(NodeListStub list) Decoder"
  cj_Providers :: "ProviderList Decoder"
  cj_Health :: "ApiHealth Decoder"
  cj_Error :: "string \<Rightarrow> string option \<Rightarrow> string option \<times> ApiError"

record 'n ApiClient =
  cl_base :: BaseUrl
  cl_http :: "'n Http"
  cl_json :: ClientJson

text \<open>An answer that is not a success, or anything else that failed.\<close>

datatype ClientError = ResponseError int ApiError | ClientFailed goerror

definition ResponseError_Error :: "int \<Rightarrow> ApiError \<Rightarrow> string" where
  "ResponseError_Error code body = ae_Error body"

definition DefaultAddress :: string where [vocab]: "DefaultAddress = ''http://127.0.0.1:4747''"

definition NewClient ::
  "(string \<Rightarrow> string + BaseUrl) \<Rightarrow> 'n Http \<Rightarrow> ClientJson \<Rightarrow> string \<Rightarrow> 'n Http option \<Rightarrow> goerror + 'n ApiClient" where
  "NewClient parse pooled json address client =
     (let address = (if address = [] then DefaultAddress else address);
          address = (if \<not> strings_Contains address ''://'' then ''http://'' @ address else address)
      in case parse address of
           Inl err \<Rightarrow> Inl (Formatted ''server address %q: %w'' [S address] [Sentinel err])
         | Inr base \<Rightarrow> Inr \<lparr>cl_base = base, cl_http = (case client of None \<Rightarrow> pooled | Some h \<Rightarrow> h), cl_json = json\<rparr>)"

section \<open>Sending a request\<close>

definition client_request :: "'n ApiClient \<Rightarrow> string \<Rightarrow> string \<Rightarrow> string \<Rightarrow> string option \<Rightarrow> ClientRequest" where
  "client_request c method path ns body =
     \<lparr>hq_Method = method, hq_Base = bu_Text (cl_base c), hq_Path = JoinPath (bu_Path (cl_base c)) path,
      hq_RawQuery = (if ns \<noteq> [] then encode_query ''namespace'' ns else bu_RawQuery (cl_base c)), hq_Body = body\<rparr>"

definition failure_body :: "'n ApiClient \<Rightarrow> ClientResponse \<Rightarrow> ApiError" where
  "failure_body c resp =
     (case cj_Error (cl_json c) (hp_Body resp) (hp_Broken resp) of
        (err, body) \<Rightarrow> if err \<noteq> None \<or> ae_Error body = [] then body\<lparr>ae_Error := hp_Status resp\<rparr> else body)"

text \<open>\<open>body\<close> is the value to Client_send, marshalled, if there is one.\<close>

definition Client_send ::
  "'n ApiClient \<Rightarrow> string \<Rightarrow> string \<Rightarrow> string \<Rightarrow> (string + string) option \<Rightarrow> ('n, ClientError + ClientResponse) state" where
  "Client_send c method path ns body =
     (case (case body of None \<Rightarrow> Inr None | Some (Inl err) \<Rightarrow> Inl err | Some (Inr encoded) \<Rightarrow> Inr (Some encoded)) of
        Inl err \<Rightarrow> ret (Inl (ClientFailed (Formatted ''encoding the request: %w'' [] [Sentinel err])))
      | Inr encoded \<Rightarrow>
          (let req = client_request c method path ns encoded in
           case http_New (cl_http c) req of
             Some err \<Rightarrow> ret (Inl (ClientFailed (Formatted ''%s %s: %w'' [S method, S path] [Sentinel err])))
           | None \<Rightarrow> do {
               answer \<leftarrow> State (http_Do (cl_http c) req);
               ret (case answer of
                      Inl err \<Rightarrow> Inl (ClientFailed (Formatted ''contacting the server at %s: %w'' [S (bu_Text (cl_base c))] [Sentinel err]))
                    | Inr resp \<Rightarrow>
                        if go_div (hp_StatusCode resp) 100 = 2 then Inr resp
                        else Inl (ResponseError (hp_StatusCode resp) (failure_body c resp)))
             }))"

definition Client_do ::
  "'n ApiClient \<Rightarrow> string \<Rightarrow> string \<Rightarrow> string \<Rightarrow> (string + string) option \<Rightarrow> 'a Decoder
    \<Rightarrow> ('n, ClientError + 'a) state" where
  "Client_do c method path ns body decoder =
     do {
       resp \<leftarrow> Client_send c method path ns body;
       ret (case resp of
              Inl err \<Rightarrow> Inl err
            | Inr resp \<Rightarrow>
                (case decoder (hp_Body resp) (hp_Broken resp) of
                   Inl err \<Rightarrow> Inl (ClientFailed (Formatted ''%s %s: decoding the answer: %w'' [S method, S path] [Sentinel err]))
                 | Inr v \<Rightarrow> Inr v))
     }"

section \<open>Operations\<close>

definition Client_Register :: "'n ApiClient \<Rightarrow> string \<Rightarrow> string \<Rightarrow> ('n, ClientError + RegisterResponse) state" where
  "Client_Register c ns source = Client_do c ''POST'' ''/v1/jobs'' ns (Some (cj_RegisterRequest (cl_json c) \<lparr>rgq_Source = source\<rparr>)) (cj_Registered (cl_json c))"

definition Client_Jobs :: "'n ApiClient \<Rightarrow> string \<Rightarrow> ('n, ClientError + ApiJob list) state" where
  "Client_Jobs c ns = Client_do c ''GET'' ''/v1/jobs'' ns None (cj_Jobs (cl_json c))"

definition Client_JobStatus :: "'n ApiClient \<Rightarrow> string \<Rightarrow> string \<Rightarrow> ('n, ClientError + ApiJobStatus) state" where
  "Client_JobStatus c ns name = Client_do c ''GET'' (''/v1/job/'' @ PathEscape name) ns None (cj_JobStatus (cl_json c))"

definition Client_StopJob :: "'n ApiClient \<Rightarrow> string \<Rightarrow> string \<Rightarrow> ('n, ClientError + ApiJob) state" where
  "Client_StopJob c ns name = Client_do c ''DELETE'' (''/v1/job/'' @ PathEscape name) ns None (cj_Job (cl_json c))"

definition Client_Dispatch :: "'n ApiClient \<Rightarrow> string \<Rightarrow> string \<Rightarrow> (string \<times> string) list \<Rightarrow> ('n, ClientError + DispatchResponse) state" where
  "Client_Dispatch c ns name meta = Client_do c ''POST'' (''/v1/job/'' @ PathEscape name @ ''/dispatch'') ns (Some (cj_DispatchRequest (cl_json c) \<lparr>dq_Meta = meta\<rparr>)) (cj_Dispatched (cl_json c))"

definition Client_Run :: "'n ApiClient \<Rightarrow> string \<Rightarrow> string \<Rightarrow> (string \<times> string) list \<Rightarrow> ('n, ClientError + DispatchResponse) state" where
  "Client_Run c ns source meta = Client_do c ''POST'' ''/v1/jobs/run'' ns (Some (cj_RunRequest (cl_json c) \<lparr>rnq_Source = source, rnq_Meta = meta\<rparr>)) (cj_Dispatched (cl_json c))"

definition Client_Plan :: "'n ApiClient \<Rightarrow> string \<Rightarrow> PlanRequest \<Rightarrow> ('n, ClientError + ApiPlan) state" where
  "Client_Plan c ns req = Client_do c ''POST'' ''/v1/jobs/plan'' ns (Some (cj_PlanRequest (cl_json c) req)) (cj_Plan (cl_json c))"

definition Client_DispatchStatus :: "'n ApiClient \<Rightarrow> string \<Rightarrow> ('n, ClientError + ApiDispatch) state" where
  "Client_DispatchStatus c i = Client_do c ''GET'' (''/v1/dispatch/'' @ PathEscape i) [] None (cj_Dispatch (cl_json c))"

definition Client_Execution :: "'n ApiClient \<Rightarrow> string \<Rightarrow> ('n, ClientError + ApiExecution) state" where
  "Client_Execution c i = Client_do c ''GET'' (''/v1/execution/'' @ PathEscape i) [] None (cj_Execution (cl_json c))"

definition Client_Cancel :: "'n ApiClient \<Rightarrow> string \<Rightarrow> ('n, ClientError + ApiExecution) state" where
  "Client_Cancel c i = Client_do c ''DELETE'' (''/v1/execution/'' @ PathEscape i) [] None (cj_Execution (cl_json c))"

definition Client_Nodes :: "'n ApiClient \<Rightarrow> ('n, ClientError + NodeListStub list) state" where
  "Client_Nodes c = Client_do c ''GET'' ''/v1/nodes'' [] None (cj_Nodes (cl_json c))"

definition Client_Providers :: "'n ApiClient \<Rightarrow> ('n, ClientError + ProviderList) state" where
  "Client_Providers c = Client_do c ''GET'' ''/v1/providers'' [] None (cj_Providers (cl_json c))"

definition Client_Logs :: "'n ApiClient \<Rightarrow> string \<Rightarrow> ('n, ClientError + string) state" where
  "Client_Logs c i =
     do {
       resp \<leftarrow> Client_send c ''GET'' (''/v1/execution/'' @ PathEscape i @ ''/logs'') [] None;
       ret (case resp of
              Inl err \<Rightarrow> Inl err
            | Inr resp \<Rightarrow>
                (case hp_Broken resp of
                   Some err \<Rightarrow> Inl (ClientFailed (Formatted ''reading logs of %s: %w'' [S i] [Sentinel err]))
                 | None \<Rightarrow> Inr (hp_Body resp)))
     }"

text \<open>The health of a degraded server comes beside the error.\<close>

definition Client_Health :: "'n ApiClient \<Rightarrow> ('n, ApiHealth option \<times> ClientError option) state" where
  "Client_Health c =
     (let req = client_request c ''GET'' ''/v1/health'' [] None in
      case http_New (cl_http c) req of
        Some err \<Rightarrow> ret (None, Some (ClientFailed (Formatted ''GET /v1/health: %w'' [] [Sentinel err])))
      | None \<Rightarrow> do {
          answer \<leftarrow> State (http_Do (cl_http c) req);
          ret (case answer of
                 Inl err \<Rightarrow> (None, Some (ClientFailed (Formatted ''contacting the server at %s: %w'' [S (bu_Text (cl_base c))] [Sentinel err])))
               | Inr resp \<Rightarrow>
                   (case cj_Health (cl_json c) (hp_Body resp) (hp_Broken resp) of
                      Inl err \<Rightarrow> (None, Some (ClientFailed (Formatted ''GET /v1/health: decoding the answer: %w'' [] [Sentinel err])))
                    | Inr out \<Rightarrow>
                        (Some out, if hp_StatusCode resp \<noteq> 200
                          then Some (ResponseError (hp_StatusCode resp) \<lparr>ae_Error = ah_StoreError out, ae_Diagnostics = []\<rparr>)
                          else None)))
        })"

end
