(* ===== verification/Blocks.thy ===== *)
theory Blocks
  imports Job
begin

text \<open>
  \<^verbatim>\<open>internal/job/task.go\<close>: reading the blocks of a task whose keys are the author's or the driver's
  own.  A Go map is an association list in the order the code happens to visit it; values come
  from the HCL library, the parameter \<open>h\<close>.
\<close>

section \<open>Runes\<close>

text \<open>
  A Go string is read rune by rune as UTF-8; a byte that starts no valid encoding is a rune of
  its own.
\<close>

definition byte_at :: "string \<Rightarrow> nat \<Rightarrow> int" where
  "byte_at s i = (if i < length s then byte (s ! i) else 0)"

definition continues :: "int \<Rightarrow> int \<Rightarrow> int \<Rightarrow> bool" where
  "continues lo hi b \<longleftrightarrow> lo \<le> b \<and> b \<le> hi"

definition rune_length :: "string \<Rightarrow> nat" where
  "rune_length s =
     (let a = byte_at s 0; b = byte_at s 1; tail = (\<lambda>i. continues 128 191 (byte_at s i)) in
      if 194 \<le> a \<and> a \<le> 223 \<and> tail 1 then 2
      else if (a = 224 \<and> continues 160 191 b \<or> a = 237 \<and> continues 128 159 b \<or>
          225 \<le> a \<and> a \<le> 239 \<and> a \<noteq> 237 \<and> tail 1) \<and> tail 2 then 3
      else if (a = 240 \<and> continues 144 191 b \<or> a = 244 \<and> continues 128 143 b \<or>
          241 \<le> a \<and> a \<le> 243 \<and> tail 1) \<and> tail 2 \<and> tail 3 then 4
      else 1)"

lemma rune_length_pos: "0 < rune_length s"
  by (auto simp: rune_length_def Let_def)

function runes :: "string \<Rightarrow> string list" where
  "runes s = (if s = [] then [] else take (rune_length s) s # runes (drop (rune_length s) s))"
  by pat_completeness auto
termination
  by (relation "measure length") (auto simp: rune_length_pos)

declare runes.simps [simp del]

lemma byte_less: "byte c < 256" and byte_nonneg: "0 \<le> byte c"
  by (simp_all add: byte_def of_char_def)

lemma rune_length_ascii: "byte c < 128 \<Longrightarrow> rune_length (c # s) = 1"
  by (auto simp: rune_length_def byte_at_def Let_def)

lemma runes_ascii: "\<forall>c \<in> set s. byte c < 128 \<Longrightarrow> runes s = map (\<lambda>c. [c]) s"
proof (induction s)
  case Nil
  then show ?case by (simp add: runes.simps)
next
  case (Cons c s)
  then show ?case by (subst runes.simps) (simp add: rune_length_ascii)
qed

section \<open>The environment of a task\<close>

definition MetaEnvPrefix :: string where "MetaEnvPrefix = ''VAGABOND_META_''"

definition env_rune :: "string \<Rightarrow> char" where
  "env_rune r =
     (case r of
        [c] \<Rightarrow>
          if 97 \<le> byte c \<and> byte c \<le> 122 then char_of (byte c - 97 + 65)
          else if 65 \<le> byte c \<and> byte c \<le> 90 \<or> 48 \<le> byte c \<and> byte c \<le> 57 \<or> c = CHR ''_'' then c
          else CHR ''_''
      | _ \<Rightarrow> CHR ''_'')"

definition envName :: "string \<Rightarrow> string" where
  "envName key = map env_rune (runes key)"

fun Attributes_loop ::
  "Hcl \<Rightarrow> EvalContext option \<Rightarrow> (string \<times> HclAttribute) list \<Rightarrow> (string \<times> string) list \<Rightarrow> Diagnostic list
    \<Rightarrow> (string \<times> string) list \<times> Diagnostic list" where
  "Attributes_loop h ctx [] out diags = (out, diags)"
| "Attributes_loop h ctx ((name, attr) # attrs) out diags =
     (case hcl_Value h (ha_Expr attr) ctx of
        (v, vd) \<Rightarrow>
          (let diags = diags @ vd in
           if v = CtyNull \<or> v = CtyUnknown then Attributes_loop h ctx attrs out diags
           else case hcl_ToString h v of
               Inl err \<Rightarrow> Attributes_loop h ctx attrs out (diags @
                 [diagnostic (''Invalid value'', []) (''The value for %q must be a string: %s.'', [name, err])
                   (Some (hcl_ExprRange h (ha_Expr attr)))])
             | Inr str \<Rightarrow> Attributes_loop h ctx attrs (AList.update name str out) diags))"

definition RawBlock_Attributes ::
  "Hcl \<Rightarrow> HclBody option \<Rightarrow> EvalContext option \<Rightarrow> (string \<times> string) list option \<times> Diagnostic list" where
  "RawBlock_Attributes h b ctx =
     (case b of
        None \<Rightarrow> (None, [])
      | Some body \<Rightarrow>
          (case hcl_JustAttributes h body of
             (None, diags) \<Rightarrow> (None, diags)
           | (Some attrs, diags) \<Rightarrow> map_prod Some id (Attributes_loop h ctx attrs [] diags)))"

fun Environment_loop :: "(string \<times> string) list \<Rightarrow> (string \<times> string) list \<Rightarrow> (string \<times> string) list" where
  "Environment_loop [] env = env"
| "Environment_loop ((key, v) # meta) env =
     (let name = MetaEnvPrefix @ envName key in
      Environment_loop meta (if map_of env name = None then AList.update name v env else env))"

definition Environment :: "Hcl \<Rightarrow> Task \<Rightarrow> (string \<times> string) list \<times> Diagnostic list" where
  "Environment h t =
     (case RawBlock_Attributes h (task_Env t) (task_Vars t) of
        (env, diags) \<Rightarrow>
          (Environment_loop (task_Meta t) (case env of None \<Rightarrow> [] | Some e \<Rightarrow> e), diags))"

section \<open>The configuration of a driver\<close>

definition ConfigImage :: string where "ConfigImage = ''image''"

definition config_attribute :: "Hcl \<Rightarrow> Task \<Rightarrow> string \<Rightarrow> HclAttribute option \<times> Diagnostic list" where
  "config_attribute h t name =
     (case task_Config t of
        None \<Rightarrow> (None, [])
      | Some body \<Rightarrow>
          (case hcl_PartialContent h \<lparr>bs_Attributes = [name], bs_Blocks = []\<rparr> body of
             (content, diags) \<Rightarrow>
               (case content of None \<Rightarrow> None | Some c \<Rightarrow> map_of (hc_Attributes c) name, diags)))"

definition Task_Image :: "Hcl \<Rightarrow> Task \<Rightarrow> EvalContext option \<Rightarrow> string \<times> Diagnostic list" where
  "Task_Image h t ctx =
     (case config_attribute h t ConfigImage of
        (None, diags) \<Rightarrow> ([], diags)
      | (Some attr, diags) \<Rightarrow>
          (case hcl_Value h (ha_Expr attr) ctx of
             (v, vd) \<Rightarrow>
               (let diags = diags @ vd in
                if v = CtyNull \<or> v = CtyUnknown then ([], diags)
                else case hcl_ToString h v of
                    Inl err \<Rightarrow> ([], diags @ [diagnostic (''Invalid image'', [])
                      (''The %s must be a string: %s.'', [ConfigImage, err]) (Some (hcl_ExprRange h (ha_Expr attr)))])
                  | Inr str \<Rightarrow> (str, diags))))"

definition configValue :: "Hcl \<Rightarrow> Task \<Rightarrow> string \<Rightarrow> (Cty \<Rightarrow> string + 'a) \<Rightarrow> 'a option" where
  "configValue h t name want =
     (case fst (config_attribute h t name) of
        None \<Rightarrow> None
      | Some attr \<Rightarrow>
          (case hcl_Value h (ha_Expr attr) (task_Vars t) of
             (v, diags) \<Rightarrow>
               if HasErrors diags \<or> v = CtyNull \<or> v = CtyUnknown then None
               else case want v of Inl err \<Rightarrow> None | Inr converted \<Rightarrow> Some converted))"

definition ConfigString :: "Hcl \<Rightarrow> Task \<Rightarrow> string \<Rightarrow> string option" where
  "ConfigString h t name = configValue h t name (hcl_ToString h)"

definition ConfigStrings :: "Hcl \<Rightarrow> Task \<Rightarrow> string \<Rightarrow> string list option" where
  "ConfigStrings h t name =
     (case configValue h t name (hcl_ToStrings h) of
        None \<Rightarrow> None
      | Some out \<Rightarrow> if out \<noteq> [] then Some out else None)"

section \<open>Facts\<close>

definition env_char :: "char \<Rightarrow> bool" where
  "env_char c \<longleftrightarrow> 65 \<le> byte c \<and> byte c \<le> 90 \<or> 48 \<le> byte c \<and> byte c \<le> 57 \<or> c = CHR ''_''"

lemma byte_char_of [simp]: "0 \<le> n \<Longrightarrow> n < 256 \<Longrightarrow> byte (char_of n) = n"
  by (simp add: byte_def)

lemma env_rune_ok: "env_char (env_rune r)"
  by (auto simp: env_rune_def env_char_def split: list.split)

lemma env_rune_id: "env_char c \<Longrightarrow> env_rune [c] = c"
  by (auto simp: env_rune_def env_char_def) (simp add: byte_def)

lemma env_char_ascii: "env_char c \<Longrightarrow> byte c < 128"
  by (auto simp: env_char_def byte_def)

lemma envName_chars: "c \<in> set (envName key) \<Longrightarrow> env_char c"
  by (auto simp: envName_def env_rune_ok)

lemma envName_id: "\<forall>c \<in> set s. env_char c \<Longrightarrow> envName s = s"
  by (simp add: envName_def runes_ascii env_char_ascii env_rune_id map_idI comp_def)

lemma envName_idem: "envName (envName key) = envName key"
  by (simp add: envName_id envName_chars)

lemma Environment_loop_map:
  "map_of (Environment_loop meta env) n =
     (case map_of env n of Some v \<Rightarrow> Some v
      | None \<Rightarrow> map_of (map (\<lambda>(k, v). (MetaEnvPrefix @ envName k, v)) meta) n)"
  by (induction meta env rule: Environment_loop.induct)
    (auto simp: Let_def update_conv split: option.split)

end
