(* ===== verification/Validation.thy ===== *)
theory Validation
  imports Blocks Plugin
begin

text \<open>
  \<^verbatim>\<open>internal/jobspec/validate.go\<close>: the rules a decoded job has to meet, each reported as a diagnostic
  without a source range.  \<open>job_wf\<close> says what a valid job is; validation reports nothing exactly
  for a file that declares one such job.
\<close>

section \<open>Diagnostics\<close>

definition simple :: "Text \<Rightarrow> Text \<Rightarrow> Diagnostic" where
  "simple summary detail = diagnostic summary detail None"

definition comma :: "string list \<Rightarrow> string" where "comma names = strings_Join names '', ''"

definition jobNames :: "Job list \<Rightarrow> string list" where "jobNames js = map job_Name js"

section \<open>Jobs\<close>

definition validateJobType :: "Job \<Rightarrow> Diagnostic list" where
  "validateJobType j =
     (case job_Type j of
        None \<Rightarrow> []
      | Some t \<Rightarrow>
          if Type_Valid t then []
          else [simple (''Unknown job type in %q'', [job_Name j])
            (''Type %q is not one Vagabond implements. Valid types are %s.'', [t, comma typeNames])])"

definition validateAttribute :: "string \<Rightarrow> string \<Rightarrow> string \<Rightarrow> Diagnostic list" where
  "validateAttribute jobName kind attribute =
     (if Matchable attribute then []
      else [simple (''Unknown %s attribute in %q'', [kind, jobName])
        (''Attribute %q is not one Vagabond publishes about a provider. Known attributes are %s. Anything under %q is an operator's own and is not checked.'',
         [attribute, comma knownAttributes, MetaPrefix])])"

definition validateOperator :: "string \<Rightarrow> string \<Rightarrow> Operator \<Rightarrow> string \<Rightarrow> Diagnostic list" where
  "validateOperator jobName kind op v =
     (if \<not> Operator_Valid op
      then [simple (''Unknown %s operator in %q'', [kind, jobName])
        (''Operator %q is not one Vagabond implements. Valid operators are %s.'', [op, comma operatorNames])]
      else if Operator_Presence op \<and> v \<noteq> []
      then [simple (''Unexpected %s value in %q'', [kind, jobName])
        (''Operator %q asks only whether the attribute is published, so the value %q is not used. Remove it, or use a comparison.'', [op, v])]
      else if \<not> Operator_Presence op \<and> v = []
      then [simple (''Missing %s value in %q'', [kind, jobName])
        (''Operator %q compares against a value, and none was given.'', [op])]
      else [])"

definition validateConstraint :: "string \<Rightarrow> Constraint \<Rightarrow> Diagnostic list" where
  "validateConstraint jobName c =
     validateAttribute jobName ''constraint'' (con_Attribute c) @
     validateOperator jobName ''constraint'' (con_Operator c) (con_Value c)"

definition validateAffinity :: "string \<Rightarrow> Affinity \<Rightarrow> Diagnostic list" where
  "validateAffinity jobName a =
     validateAttribute jobName ''affinity'' (aff_Attribute a) @
     validateOperator jobName ''affinity'' (aff_Operator a) (aff_Value a) @
     (case aff_Weight a of
        None \<Rightarrow> []
      | Some w \<Rightarrow>
          if w \<le> 0 then [simple (''Invalid affinity weight in %q'', [jobName])
            (''Weight %d does not raise a provider's score. Use a positive weight, or remove the affinity.'', [Itoa w])]
          else [])"

definition validateRouting :: "Job \<Rightarrow> Diagnostic list" where
  "validateRouting j =
     (case job_Routing j of
        None \<Rightarrow> []
      | Some rt \<Rightarrow>
          (case rt_Strategy rt of
             None \<Rightarrow> []
           | Some s \<Rightarrow>
               if \<not> Strategy_Valid s then [simple (''Unknown routing strategy in %q'', [job_Name j])
                 (''Strategy %q is not one Vagabond implements. Valid strategies are %s.'', [s, comma strategyNames])]
               else []) @
          (case rt_Tiers rt of
             None \<Rightarrow> []
           | Some t \<Rightarrow>
               if \<not> TierMode_Valid t then [simple (''Unknown tier mode in %q'', [job_Name j])
                 (''Tiers %q is not a mode Vagabond implements. Valid modes are %s.'', [t, comma tierModeNames])]
               else []) @
          concat (map (validateConstraint (job_Name j)) (rt_Constraints rt)) @
          concat (map (validateAffinity (job_Name j)) (rt_Affinities rt)))"

section \<open>Tasks\<close>

definition validateDriver :: "string \<Rightarrow> Task \<Rightarrow> Diagnostic list" where
  "validateDriver jobName task =
     (if DriverName_Valid (task_Driver task) then []
      else [simple (''Unknown driver in %q task %q'', [jobName, task_Name task])
        (''Driver %q is not an execution contract Vagabond implements. Valid drivers are %s.'',
         [task_Driver task, comma driverNames])])"

definition validateConfig :: "Hcl \<Rightarrow> string \<Rightarrow> Task \<Rightarrow> Diagnostic list" where
  "validateConfig h jobName task =
     (if task_Driver task \<noteq> DriverContainer then []
      else
        (let missing = [simple (''Missing image in %q task %q'', [jobName, task_Name task])
               (''A container task runs an image, so its config block must set one.'', [])]
         in case task_Config task of
              None \<Rightarrow> missing
            | Some body \<Rightarrow>
                (case hcl_JustAttributes h body of
                   (attrs, diags) \<Rightarrow>
                     if HasErrors diags then diags
                     else if map_of (case attrs of None \<Rightarrow> [] | Some as \<Rightarrow> as) ''image'' = None then missing
                     else [])))"

definition validateExecution :: "string \<Rightarrow> Task \<Rightarrow> Diagnostic list" where
  "validateExecution jobName task =
     (case task_Execution task of
        None \<Rightarrow> []
      | Some x \<Rightarrow>
          (case req_Architecture x of
             None \<Rightarrow> []
           | Some arch \<Rightarrow>
               if Arch_Valid arch then []
               else [simple (''Unknown architecture in %q task %q'', [jobName, task_Name task])
                 (''Architecture %q is not one Vagabond schedules against. Valid architectures are %s.'',
                  [arch, comma archNames])]))"

definition validateResources :: "string \<Rightarrow> Task \<Rightarrow> Diagnostic list" where
  "validateResources jobName task =
     (case task_Resources task of
        None \<Rightarrow> []
      | Some res \<Rightarrow>
          (case tres_CPU res of
             None \<Rightarrow> []
           | Some n \<Rightarrow>
               if n \<le> 0 then [simple (''Invalid CPU request in %q task %q'', [jobName, task_Name task])
                 (''CPU is %d. Request a positive number of millicores, where 1000 is one vCPU, or omit it to state no requirement.'', [Itoa n])]
               else []) @
          (case tres_Memory res of
             None \<Rightarrow> []
           | Some n \<Rightarrow>
               if n \<le> 0 then [simple (''Invalid memory request in %q task %q'', [jobName, task_Name task])
                 (''Memory is %d. Request a positive number of MiB, or omit it to state no requirement.'', [Itoa n])]
               else []))"

definition validateTimeout :: "string \<Rightarrow> Task \<Rightarrow> Diagnostic list" where
  "validateTimeout jobName task =
     (case task_Timeout task of
        None \<Rightarrow> []
      | Some timeout \<Rightarrow>
          (case Duration_Std timeout of
             Inl err \<Rightarrow> [simple (''Invalid timeout in %q task %q'', [jobName, task_Name task])
               (''Timeout %q is not a duration. Write one as 15m, 90s, or 1h30m.'', [timeout])]
           | Inr parsed \<Rightarrow>
               if parsed = 0 then [simple (''Invalid timeout in %q task %q'', [jobName, task_Name task])
                 (''A timeout of zero bounds nothing. Give the task a duration, or omit the attribute to leave it unbounded.'', [])]
               else []))"

text \<open>\<open>checkDuration\<close> adds to the diagnostics it is handed; its value is absent when unusable.\<close>

definition checkDuration ::
  "string \<Rightarrow> Task \<Rightarrow> string \<Rightarrow> DurationText option \<Rightarrow> Diagnostic list \<Rightarrow> int option \<times> Diagnostic list" where
  "checkDuration jobName task field v diags =
     (case v of
        None \<Rightarrow> (None, diags)
      | Some text \<Rightarrow>
          (case Duration_Std text of
             Inl err \<Rightarrow> (None, diags @ [simple (''Invalid %s in %q task %q'', [field, jobName, task_Name task])
               (''Value %q is not a duration. Write one as 15m, 90s, or 1h30m.'', [text])])
           | Inr parsed \<Rightarrow> (Some parsed, diags)))"

definition validateBackoff :: "string \<Rightarrow> Task \<Rightarrow> Retry \<Rightarrow> Diagnostic list" where
  "validateBackoff jobName task retry =
     (case rty_Backoff retry of
        None \<Rightarrow> []
      | Some backoff \<Rightarrow>
          (case checkDuration jobName task ''backoff initial'' (bo_Initial backoff) [] of
             (initial, diags) \<Rightarrow>
               (case checkDuration jobName task ''backoff max'' (bo_Max backoff) diags of
                  (maximum, diags) \<Rightarrow>
                    (case (initial, maximum) of
                       (Some i, Some m) \<Rightarrow>
                         if m < i then diags @ [simple (''Invalid backoff in %q task %q'', [jobName, task_Name task])
                           (''Backoff max %q is below initial %q, so the maximum is never reached.'',
                            [the (bo_Max backoff), the (bo_Initial backoff)])]
                         else diags
                     | _ \<Rightarrow> diags))))"

definition validateRetry :: "string \<Rightarrow> Task \<Rightarrow> Diagnostic list" where
  "validateRetry jobName task =
     (case task_Retry task of
        None \<Rightarrow> []
      | Some retry \<Rightarrow>
          (case rty_Attempts retry of
             None \<Rightarrow> []
           | Some n \<Rightarrow>
               if n < 0 then [simple (''Invalid retry attempts in %q task %q'', [jobName, task_Name task])
                 (''Attempts is %d. Use zero to forbid retrying, or a positive number to allow it.'', [Itoa n])]
               else []) @
          validateBackoff jobName task retry)"

definition validateTask :: "Hcl \<Rightarrow> string \<Rightarrow> Task \<Rightarrow> Diagnostic list" where
  "validateTask h jobName task =
     (if TrimSpace (task_Name task) = []
      then [simple (''Missing task name in %q'', [jobName]) (''A task block must carry a name.'', [])] else []) @
     validateDriver jobName task @
     validateConfig h jobName task @
     validateExecution jobName task @
     validateResources jobName task @
     validateTimeout jobName task @
     validateRetry jobName task"

fun validateTasks_loop :: "Hcl \<Rightarrow> string \<Rightarrow> Task list \<Rightarrow> string set \<Rightarrow> Diagnostic list" where
  "validateTasks_loop h jobName [] seen = []"
| "validateTasks_loop h jobName (task # tasks) seen =
     (if task_Name task \<in> seen
      then [simple (''Duplicate task name in %q'', [jobName])
        (''Two tasks are named %q. Task names identify a task in results and logs, so they must differ.'',
         [task_Name task])] else []) @
     validateTask h jobName task @
     validateTasks_loop h jobName tasks (insert (task_Name task) seen)"

definition validateTasks :: "Hcl \<Rightarrow> Job \<Rightarrow> Diagnostic list" where
  "validateTasks h j =
     (if job_Tasks j = []
      then [simple (''No tasks in %q'', [job_Name j])
        (''A job must declare at least one task; there is nothing to run otherwise.'', [])]
      else validateTasks_loop h (job_Name j) (job_Tasks j) {})"

definition validateJob :: "Hcl \<Rightarrow> Job \<Rightarrow> Diagnostic list" where
  "validateJob h j =
     (if TrimSpace (job_Name j) = []
      then [simple (''Missing job name'', []) (''A job block must carry a name.'', [])] else []) @
     (if (case job_Namespace j of None \<Rightarrow> False | Some n \<Rightarrow> TrimSpace n = [])
      then [simple (''Empty namespace in %q'', [job_Name j])
        (''Remove the attribute to use the default namespace.'', [])] else []) @
     validateJobType j @
     validateRouting j @
     validateTasks h j"

definition Validate :: "Hcl \<Rightarrow> JobFile option \<Rightarrow> Diagnostic list" where
  "Validate h file =
     (case file of
        None \<Rightarrow> []
      | Some f \<Rightarrow>
          if file_Jobs f = []
          then [simple (''Empty specification'', []) (''A job file must declare a job.'', [])]
          else
            (if 1 < length (file_Jobs f)
             then [simple (''Too many jobs'', [])
               (''A job file declares one job, and this one declares %d: %s.'',
                Itoa (int (length (file_Jobs f))) # jobNames (file_Jobs f))] else []) @
            concat (map (validateJob h) (file_Jobs f)))"

section \<open>Valid jobs\<close>

definition operator_wf :: "Operator \<Rightarrow> string \<Rightarrow> bool" where
  "operator_wf op v \<longleftrightarrow> Operator_Valid op \<and> (Operator_Presence op \<longleftrightarrow> v = [])"

definition constraint_wf :: "Constraint \<Rightarrow> bool" where
  "constraint_wf c \<longleftrightarrow> Matchable (con_Attribute c) \<and> operator_wf (con_Operator c) (con_Value c)"

definition affinity_wf :: "Affinity \<Rightarrow> bool" where
  "affinity_wf a \<longleftrightarrow> Matchable (aff_Attribute a) \<and> operator_wf (aff_Operator a) (aff_Value a) \<and>
     (\<forall>w. aff_Weight a = Some w \<longrightarrow> 0 < w)"

definition routing_wf :: "Routing \<Rightarrow> bool" where
  "routing_wf rt \<longleftrightarrow> (\<forall>s. rt_Strategy rt = Some s \<longrightarrow> Strategy_Valid s) \<and>
     (\<forall>t. rt_Tiers rt = Some t \<longrightarrow> TierMode_Valid t) \<and>
     (\<forall>c \<in> set (rt_Constraints rt). constraint_wf c) \<and> (\<forall>a \<in> set (rt_Affinities rt). affinity_wf a)"

definition readable :: "DurationText option \<Rightarrow> bool" where
  "readable t \<longleftrightarrow> (\<forall>d. t = Some d \<longrightarrow> Duration_Valid d)"

definition backoff_wf :: "Backoff \<Rightarrow> bool" where
  "backoff_wf b \<longleftrightarrow> readable (bo_Initial b) \<and> readable (bo_Max b) \<and>
     (\<forall>i m ti tm. bo_Initial b = Some ti \<longrightarrow> bo_Max b = Some tm \<longrightarrow>
        Duration_Std ti = Inr i \<longrightarrow> Duration_Std tm = Inr m \<longrightarrow> i \<le> m)"

definition retry_wf :: "Retry \<Rightarrow> bool" where
  "retry_wf r \<longleftrightarrow> (\<forall>n. rty_Attempts r = Some n \<longrightarrow> 0 \<le> n) \<and> (\<forall>b. rty_Backoff r = Some b \<longrightarrow> backoff_wf b)"

definition image_wf :: "Hcl \<Rightarrow> Task \<Rightarrow> bool" where
  "image_wf h task \<longleftrightarrow> (task_Driver task = DriverContainer \<longrightarrow>
     (\<exists>body attrs diags. task_Config task = Some body \<and> hcl_JustAttributes h body = (Some attrs, diags) \<and>
        \<not> HasErrors diags \<and> ''image'' \<in> fst ` set attrs))"

definition resources_wf :: "TaskResources \<Rightarrow> bool" where
  "resources_wf r \<longleftrightarrow> (\<forall>n. tres_CPU r = Some n \<longrightarrow> 0 < n) \<and> (\<forall>n. tres_Memory r = Some n \<longrightarrow> 0 < n)"

definition task_wf :: "Hcl \<Rightarrow> Task \<Rightarrow> bool" where
  "task_wf h task \<longleftrightarrow> TrimSpace (task_Name task) \<noteq> [] \<and> DriverName_Valid (task_Driver task) \<and> image_wf h task \<and>
     (\<forall>x a. task_Execution task = Some x \<longrightarrow> req_Architecture x = Some a \<longrightarrow> Arch_Valid a) \<and>
     (\<forall>r. task_Resources task = Some r \<longrightarrow> resources_wf r) \<and>
     (\<forall>t. task_Timeout task = Some t \<longrightarrow> (\<exists>d. Duration_Std t = Inr d \<and> 0 < d)) \<and>
     (\<forall>r. task_Retry task = Some r \<longrightarrow> retry_wf r)"

definition job_wf :: "Hcl \<Rightarrow> Job \<Rightarrow> bool" where
  "job_wf h j \<longleftrightarrow> TrimSpace (job_Name j) \<noteq> [] \<and>
     (\<forall>n. job_Namespace j = Some n \<longrightarrow> TrimSpace n \<noteq> []) \<and>
     (\<forall>t. job_Type j = Some t \<longrightarrow> Type_Valid t) \<and>
     (\<forall>rt. job_Routing j = Some rt \<longrightarrow> routing_wf rt) \<and>
     job_Tasks j \<noteq> [] \<and> distinct (map task_Name (job_Tasks j)) \<and> (\<forall>t \<in> set (job_Tasks j). task_wf h t)"

section \<open>Each rule accepts exactly what it should\<close>

named_theorems accepts \<open>when a rule reports nothing\<close>

lemma validateAttribute_Nil [accepts]: "validateAttribute n k a = [] \<longleftrightarrow> Matchable a"
  by (simp add: validateAttribute_def)

lemma validateOperator_Nil [accepts]: "validateOperator n k op v = [] \<longleftrightarrow> operator_wf op v"
  by (auto simp: validateOperator_def operator_wf_def)

lemma validateConstraint_Nil [accepts]: "validateConstraint n c = [] \<longleftrightarrow> constraint_wf c"
  by (simp add: validateConstraint_def constraint_wf_def accepts)

lemma validateAffinity_Nil [accepts]: "validateAffinity n a = [] \<longleftrightarrow> affinity_wf a"
  by (auto simp: validateAffinity_def affinity_wf_def accepts split: option.split)

lemma validateRouting_Nil [accepts]:
  "validateRouting j = [] \<longleftrightarrow> (\<forall>rt. job_Routing j = Some rt \<longrightarrow> routing_wf rt)"
  by (auto simp: validateRouting_def routing_wf_def accepts split: option.split)

lemma validateConfig_Nil [accepts]: "validateConfig h n t = [] \<longleftrightarrow> image_wf h t"
  by (auto simp: validateConfig_def image_wf_def Let_def map_of_eq_None_iff split: option.split prod.split)

lemma Duration_Std_nonneg: "Duration_Std t = Inr d \<Longrightarrow> 0 \<le> d"
  by (simp add: Duration_Std_Inr)

lemma validateTimeout_Nil [accepts]:
  "validateTimeout n t = [] \<longleftrightarrow> (\<forall>x. task_Timeout t = Some x \<longrightarrow> (\<exists>d. Duration_Std x = Inr d \<and> 0 < d))"
  using Duration_Std_nonneg
  by (force simp: validateTimeout_def split: option.split sum.split)

lemma checkDuration_eq:
  "checkDuration n t f v diags =
     (case v of None \<Rightarrow> (None, diags)
      | Some x \<Rightarrow> if Duration_Valid x then (Some (projr (Duration_Std x)), diags)
          else (None, diags @ [simple (''Invalid %s in %q task %q'', [f, n, task_Name t])
             (''Value %q is not a duration. Write one as 15m, 90s, or 1h30m.'', [x])]))"
  by (auto simp: checkDuration_def Duration_Valid_def split: option.split sum.split)

lemma validateBackoff_Nil [accepts]:
  "validateBackoff n t r = [] \<longleftrightarrow> (\<forall>b. rty_Backoff r = Some b \<longrightarrow> backoff_wf b)"
  by (auto simp: validateBackoff_def backoff_wf_def checkDuration_eq readable_def Duration_Valid_iff
      split: option.splits prod.splits if_splits)

lemma validateRetry_Nil [accepts]:
  "validateRetry n t = [] \<longleftrightarrow> (\<forall>r. task_Retry t = Some r \<longrightarrow> retry_wf r)"
  by (auto simp: validateRetry_def retry_wf_def accepts split: option.split)

lemma validateTask_Nil [accepts]: "validateTask h n t = [] \<longleftrightarrow> task_wf h t"
  by (auto simp: validateTask_def task_wf_def accepts validateDriver_def validateExecution_def
      validateResources_def resources_wf_def split: option.splits)

lemma validateTasks_loop_Nil:
  "validateTasks_loop h n ts seen = [] \<longleftrightarrow>
     distinct (map task_Name ts) \<and> seen \<inter> task_Name ` set ts = {} \<and> (\<forall>t \<in> set ts. task_wf h t)"
  by (induction ts arbitrary: seen) (auto simp: accepts)

lemma validateJob_Nil [accepts]: "validateJob h j = [] \<longleftrightarrow> job_wf h j"
  by (auto simp: validateJob_def job_wf_def accepts validateJobType_def validateTasks_def
      validateTasks_loop_Nil split: option.splits)

lemma Validate_Nil: "Validate h (Some f) = [] \<longleftrightarrow> (\<exists>j. file_Jobs f = [j] \<and> job_wf h j)"
proof (cases "file_Jobs f")
  case Nil
  then show ?thesis by (simp add: Validate_def)
next
  case (Cons j js)
  then show ?thesis by (cases js) (auto simp: Validate_def accepts)
qed

section \<open>Every diagnostic is an error\<close>

text \<open>So a caller that only asks for errors misses nothing.\<close>

definition loud :: "Diagnostic list \<Rightarrow> bool" where
  "loud ds \<longleftrightarrow> (ds \<noteq> [] \<longrightarrow> HasErrors ds)"

lemma loud_simps [simp]: "loud []" "loud (simple s d # ds)"
  by (simp_all add: loud_def simple_def)

lemma loud_append [intro]: "loud xs \<Longrightarrow> loud ys \<Longrightarrow> loud (xs @ ys)"
  by (auto simp: loud_def)

lemma loud_concat: "(\<And>x. x \<in> set xs \<Longrightarrow> loud (f x)) \<Longrightarrow> loud (concat (map f xs))"
  by (induction xs) auto

lemma loud_routing: "loud (validateRouting j)"
proof -
  have "loud (validateAttribute n k a)" "loud (validateOperator n k op v)" for n k a op v
    by (simp_all add: validateAttribute_def validateOperator_def)
  then have "loud (validateConstraint n c)" "loud (validateAffinity n a)" for n c a
    by (auto simp: validateConstraint_def validateAffinity_def split: option.split intro!: loud_append)
  then show ?thesis
    by (auto simp: validateRouting_def split: option.split intro!: loud_append loud_concat)
qed

lemma loud_rules:
  "loud (validateDriver n t)" "loud (validateConfig h n t)" "loud (validateExecution n t)"
  "loud (validateTimeout n t)" "loud (validateBackoff n t r)"
  by (auto simp: validateDriver_def validateConfig_def validateExecution_def validateTimeout_def
      validateBackoff_def checkDuration_eq loud_def simple_def Let_def split: option.split prod.split sum.split)

lemma loud_resources: "loud (validateResources n t)"
  by (auto simp: validateResources_def intro!: loud_append split: option.split)

lemma loud_retry: "loud (validateRetry n t)"
  by (auto simp: validateRetry_def loud_rules(5) intro!: loud_append split: option.split)

lemma loud_task: "loud (validateTask h n t)"
  unfolding validateTask_def by (intro loud_append loud_rules loud_resources loud_retry) simp

lemma loud_tasks_loop: "loud (validateTasks_loop h n ts seen)"
  by (induction ts arbitrary: seen) (auto simp: loud_task intro!: loud_append)

lemma loud_job: "loud (validateJob h j)"
proof -
  have "loud (validateJobType j)" "loud (validateTasks h j)"
    by (auto simp: validateJobType_def validateTasks_def loud_tasks_loop split: option.split)
  then show ?thesis
    by (auto simp: validateJob_def loud_routing simp del: append_assoc intro!: loud_append split: option.split)
qed

lemma Validate_HasErrors: "HasErrors (Validate h file) \<longleftrightarrow> Validate h file \<noteq> []"
proof -
  have "loud (Validate h file)"
    by (auto simp: Validate_def loud_job intro!: loud_append loud_concat split: option.split)
  then show ?thesis by (auto simp: loud_def)
qed

end
