(* ===== verification/Jobspec.thy ===== *)
theory Jobspec
  imports Validation Store
begin

text \<open>
  \<^verbatim>\<open>internal/jobspec\<close> and \<^verbatim>\<open>internal/jobs/load.go\<close>: the metadata a job declares and a submission
  supplies, parsing a job file around the HCL library, and loading it to be registered or
  dispatched.  The library is the parameter \<open>h\<close>; \<open>decode\<close> is \<^verbatim>\<open>gohcl.DecodeBody\<close> on the job types.
\<close>

section \<open>Metadata\<close>

definition MetaNamespace :: string where "MetaNamespace = ''meta''"

definition metaObject :: "(string \<times> Cty) list \<Rightarrow> Cty" where
  "metaObject values = CtyObject values"

definition evalContext :: "(string \<times> string) list \<Rightarrow> EvalContext" where
  "evalContext meta = EvalContext [(MetaNamespace, metaObject (map (\<lambda>(k, v). (k, CtyString v)) meta))]"

definition requiredMetaSchema :: BodySchema where
  "requiredMetaSchema = \<lparr>bs_Attributes = [], bs_Blocks = [(''job'', [''name''])]\<rparr>"

definition parameterizedSchema :: BodySchema where
  "parameterizedSchema = \<lparr>bs_Attributes = [], bs_Blocks = [(''parameterized'', [])]\<rparr>"

definition metaRequiredSchema :: BodySchema where
  "metaRequiredSchema = \<lparr>bs_Attributes = [''meta_required'', ''meta_optional''], bs_Blocks = []\<rparr>"

record Requirement =
  rm_Job :: string
  rm_Keys :: "string list"
  rm_Range :: HclRange

text \<open>The elements of a value that is known, not null and can be iterated.\<close>

definition cty_elements :: "Cty \<Rightarrow> Cty list option" where
  "cty_elements v =
     (case v of CtyList xs \<Rightarrow> Some xs | CtyObject attrs \<Rightarrow> Some (map snd attrs) | _ \<Rightarrow> None)"

fun stringList_loop ::
  "Hcl \<Rightarrow> HclAttribute \<Rightarrow> Cty list \<Rightarrow> string list \<Rightarrow> Diagnostic list \<Rightarrow> string list \<times> Diagnostic list" where
  "stringList_loop h attr [] keys diags = (keys, diags)"
| "stringList_loop h attr (element # elements) keys diags =
     (case element of
        CtyString s \<Rightarrow> stringList_loop h attr elements (keys @ [s]) diags
      | _ \<Rightarrow> stringList_loop h attr elements keys (diags @
          [diagnostic (''Invalid metadata key'', []) (''Every entry in %s must be a string.'', [ha_Name attr])
            (Some (hcl_ExprRange h (ha_Expr attr)))]))"

definition stringList :: "Hcl \<Rightarrow> HclAttribute \<Rightarrow> Diagnostic list \<Rightarrow> string list \<times> Diagnostic list" where
  "stringList h attr diags =
     (case hcl_Value h (ha_Expr attr) None of
        (v, vd) \<Rightarrow>
          (case cty_elements v of
             None \<Rightarrow> ([], diags @ vd)
           | Some elements \<Rightarrow> stringList_loop h attr elements [] (diags @ vd)))"

definition jobRequiredMeta :: "Hcl \<Rightarrow> HclBody \<Rightarrow> string list \<times> HclRange \<times> Diagnostic list" where
  "jobRequiredMeta h body =
     (case hcl_PartialContent h parameterizedSchema body of
        (content, diags) \<Rightarrow>
          (case (case content of None \<Rightarrow> [] | Some c \<Rightarrow> hc_Blocks c) of
             [] \<Rightarrow> ([], 0, diags)
           | block # _ \<Rightarrow>
               (case hcl_PartialContent h metaRequiredSchema (hb_Body block) of
                  (None, ad) \<Rightarrow> ([], 0, diags @ ad)
                | (Some attrs, ad) \<Rightarrow>
                    (case map_of (hc_Attributes attrs) ''meta_required'' of
                       None \<Rightarrow> ([], 0, diags @ ad)
                     | Some attr \<Rightarrow>
                         (case stringList h attr (diags @ ad) of (keys, diags) \<Rightarrow> (keys, ha_Range attr, diags))))))"

definition block_label :: "HclBlock \<Rightarrow> string" where
  "block_label block = (case hb_Labels block of [] \<Rightarrow> [] | l # _ \<Rightarrow> l)"

fun RequiredMeta_loop ::
  "Hcl \<Rightarrow> HclBlock list \<Rightarrow> Requirement list \<Rightarrow> Diagnostic list \<Rightarrow> Requirement list \<times> Diagnostic list" where
  "RequiredMeta_loop h [] required diags = (required, diags)"
| "RequiredMeta_loop h (block # blocks) required diags =
     (case jobRequiredMeta h (hb_Body block) of
        (keys, decl_range, kd) \<Rightarrow>
          RequiredMeta_loop h blocks
            (if keys = [] then required
             else required @ [\<lparr>rm_Job = block_label block, rm_Keys = keys, rm_Range = decl_range\<rparr>])
            (diags @ kd))"

definition RequiredMeta :: "Hcl \<Rightarrow> HclBody \<Rightarrow> Requirement list \<times> Diagnostic list" where
  "RequiredMeta h body =
     (case hcl_PartialContent h requiredMetaSchema body of
        (None, diags) \<Rightarrow> ([], diags)
      | (Some content, diags) \<Rightarrow> RequiredMeta_loop h (hc_Blocks content) [] diags)"

definition missingKeys :: "string list \<Rightarrow> (string \<times> string) list \<Rightarrow> string list" where
  "missingKeys required supplied = filter (\<lambda>key. map_of supplied key = None) required"

fun CheckRequiredMeta :: "Requirement list \<Rightarrow> (string \<times> string) list \<Rightarrow> Diagnostic list" where
  "CheckRequiredMeta [] supplied = []"
| "CheckRequiredMeta (req # required) supplied =
     (let missing = missingKeys (rm_Keys req) supplied in
      if missing = [] then CheckRequiredMeta required supplied
      else diagnostic (''Unset metadata for job %q'', [rm_Job req])
          (''This job requires metadata that was not supplied: %s. Pass each one with -meta <key>=<value>.'',
           [comma missing]) (Some (rm_Range req)) # CheckRequiredMeta required supplied)"

section \<open>Declarations\<close>

record Declaration =
  dc_Job :: string
  dc_Parameterized :: bool
  dc_Required :: "string list"
  dc_Optional :: "string list"

definition no_declaration :: Declaration where
  "no_declaration = \<lparr>dc_Job = [], dc_Parameterized = False, dc_Required = [], dc_Optional = []\<rparr>"

definition sourceName :: "string \<Rightarrow> string" where
  "sourceName filename = (if filename = [] then ''<stdin>'' else filename)"

definition parseSource :: "Hcl \<Rightarrow> string \<Rightarrow> string \<Rightarrow> HclBody option \<times> Diagnostic list" where
  "parseSource h filename source = hcl_ParseConfig h source (sourceName filename)"

definition declared_keys ::
  "Hcl \<Rightarrow> HclContent \<Rightarrow> string \<Rightarrow> Diagnostic list \<Rightarrow> string list \<times> Diagnostic list" where
  "declared_keys h attrs name diags =
     (case map_of (hc_Attributes attrs) name of
        None \<Rightarrow> ([], diags) | Some attr \<Rightarrow> stringList h attr diags)"

definition Declared_block :: "Hcl \<Rightarrow> HclBlock \<Rightarrow> Diagnostic list \<Rightarrow> Declaration \<times> Diagnostic list" where
  "Declared_block h block diags =
     (let d = no_declaration\<lparr>dc_Job := block_label block\<rparr> in
      case hcl_PartialContent h parameterizedSchema (hb_Body block) of
        (params, pd) \<Rightarrow>
          (case (case params of None \<Rightarrow> [] | Some c \<Rightarrow> hc_Blocks c) of
             [] \<Rightarrow> (d, diags @ pd)
           | param # _ \<Rightarrow>
               (let d = d\<lparr>dc_Parameterized := True\<rparr> in
                case hcl_PartialContent h metaRequiredSchema (hb_Body param) of
                  (None, ad) \<Rightarrow> (d, diags @ pd @ ad)
                | (Some attrs, ad) \<Rightarrow>
                    (case declared_keys h attrs ''meta_required'' (diags @ pd @ ad) of
                       (required, diags) \<Rightarrow>
                         (case declared_keys h attrs ''meta_optional'' diags of
                            (optional, diags) \<Rightarrow>
                              (d\<lparr>dc_Required := required, dc_Optional := optional\<rparr>, diags))))))"

definition Declared :: "Hcl \<Rightarrow> string \<Rightarrow> string \<Rightarrow> Declaration \<times> Diagnostic list" where
  "Declared h filename source =
     (case parseSource h filename source of
        (None, diags) \<Rightarrow> (no_declaration, diags)
      | (Some body, diags) \<Rightarrow>
          (case hcl_PartialContent h requiredMetaSchema body of
             (content, cd) \<Rightarrow>
               (case (case content of None \<Rightarrow> [] | Some c \<Rightarrow> hc_Blocks c) of
                  [] \<Rightarrow> (no_declaration, diags @ cd)
                | block # _ \<Rightarrow> Declared_block h block (diags @ cd))))"

definition reference :: "string \<Rightarrow> string" where
  "reference key = ''${'' @ MetaNamespace @ ''.'' @ key @ ''}''"

definition References :: "Declaration \<Rightarrow> (string \<times> string) list" where
  "References d = fold (\<lambda>key. AList.update key (reference key)) (dc_Required d @ dc_Optional d) []"

definition CheckDispatch :: "Declaration \<Rightarrow> (string \<times> string) list \<Rightarrow> goerror option" where
  "CheckDispatch d supplied =
     (if \<not> dc_Parameterized d
      then (if supplied \<noteq> []
            then Some (Formatted ''job %q is not parameterized, so dispatch takes no metadata'' [S (dc_Job d)] [])
            else None)
      else
        (let unpermitted = filter (\<lambda>key. key \<notin> set (dc_Required d) \<and> key \<notin> set (dc_Optional d)) (map fst supplied);
             missing = missingKeys (dc_Required d) supplied
         in if unpermitted \<noteq> []
            then Some (Formatted ''job %q does not declare metadata %s; declare it in meta_required or meta_optional''
              [S (dc_Job d), S (comma (sort_cmp strCompare unpermitted))] [])
            else if missing \<noteq> []
            then Some (Formatted ''job %q requires metadata that was not supplied: %s'' [S (dc_Job d), S (comma missing)] [])
            else None))"

section \<open>Parsing\<close>

record Parsed =
  ps_Spec :: "JobFile option"
  ps_Filename :: string
  ps_Source :: HclBody

fun config_values ::
  "Hcl \<Rightarrow> EvalContext option \<Rightarrow> (string \<times> HclAttribute) list \<Rightarrow> Diagnostic list" where
  "config_values h ctx [] = []"
| "config_values h ctx ((name, attr) # attrs) =
     (let vd = snd (hcl_Value h (ha_Expr attr) ctx)
      in (if HasErrors vd then vd else []) @ config_values h ctx attrs)"

definition checkReferences :: "Hcl \<Rightarrow> Task \<Rightarrow> Diagnostic list" where
  "checkReferences h task =
     (case task_Config task of
        None \<Rightarrow> []
      | Some body \<Rightarrow>
          (case hcl_JustAttributes h body of
             (attrs, ad) \<Rightarrow>
               if \<not> HasErrors ad
               then config_values h (task_Vars task) (case attrs of None \<Rightarrow> [] | Some as \<Rightarrow> as)
               else [])) @
     (let ed = snd (RawBlock_Attributes h (task_Env task) (task_Vars task))
      in if HasErrors ed then ed else [])"

definition copy_meta :: "(string \<times> string) list \<Rightarrow> (string \<times> string) list \<Rightarrow> (string \<times> string) list" where
  "copy_meta supplied meta = fold (\<lambda>(k, v). AList.update k v) supplied meta"

definition bind_task :: "EvalContext \<Rightarrow> (string \<times> string) list \<Rightarrow> Task \<Rightarrow> Task" where
  "bind_task ctx meta task = task\<lparr>task_Vars := Some ctx, task_Meta := meta\<rparr>"

definition bind_job ::
  "Hcl \<Rightarrow> EvalContext \<Rightarrow> (string \<times> string) list \<Rightarrow> Job \<Rightarrow> Job \<times> Diagnostic list" where
  "bind_job h ctx supplied j =
     (case RawBlock_Attributes h (job_Meta j) (Some ctx) of
        (meta, md) \<Rightarrow>
          (let meta = copy_meta supplied (case meta of None \<Rightarrow> [] | Some m \<Rightarrow> m);
               tasks = map (bind_task ctx meta) (job_Tasks j)
           in (j\<lparr>job_Tasks := tasks\<rparr>, md @ concat (map (checkReferences h) tasks))))"

definition bindTasks ::
  "Hcl \<Rightarrow> JobFile \<Rightarrow> EvalContext \<Rightarrow> (string \<times> string) list \<Rightarrow> JobFile \<times> Diagnostic list" where
  "bindTasks h file ctx supplied =
     (let bound = map (bind_job h ctx supplied) (file_Jobs file)
      in (file\<lparr>file_Jobs := map fst bound\<rparr>, concat (map snd bound)))"

definition checkTaskConfig :: "Hcl \<Rightarrow> Task \<Rightarrow> Diagnostic list" where
  "checkTaskConfig h task =
     (case task_Config task of
        None \<Rightarrow> []
      | Some body \<Rightarrow>
          (case hcl_NestedBlocks h body of
             None \<Rightarrow> []
           | Some blocks \<Rightarrow> map (\<lambda>(kind, def_range). diagnostic (''Blocks are not supported in config'', [])
               (''A task config block holds attributes only, and %q is a block. Write it as an attribute instead, for example %s = { ... }.'',
                [kind, kind]) (Some def_range)) blocks))"

definition checkConfigBlocks :: "Hcl \<Rightarrow> JobFile \<Rightarrow> Diagnostic list" where
  "checkConfigBlocks h file =
     concat (map (\<lambda>j. concat (map (checkTaskConfig h) (job_Tasks j))) (file_Jobs file))"

type_synonym Decode = "HclBody \<Rightarrow> EvalContext \<Rightarrow> JobFile \<times> Diagnostic list"

definition Parse ::
  "Hcl \<Rightarrow> Decode \<Rightarrow> string \<Rightarrow> string \<Rightarrow> (string \<times> string) list \<Rightarrow> Parsed option \<times> Diagnostic list" where
  "Parse h decode filename source meta =
     (case parseSource h filename source of
        (None, diags) \<Rightarrow> (None, diags)
      | (Some body, diags) \<Rightarrow>
          (let parsed = \<lparr>ps_Spec = None, ps_Filename = sourceName filename, ps_Source = body\<rparr> in
           case RequiredMeta h body of
             (required, rd) \<Rightarrow>
               (let diags = diags @ rd; missing = CheckRequiredMeta required meta in
                if HasErrors missing then (Some parsed, diags @ missing)
                else
                  (let ctx = evalContext meta in
                   case decode body ctx of
                     (spec, dd) \<Rightarrow>
                       (case bindTasks h spec ctx meta of
                          (bound, bd) \<Rightarrow>
                            (Some (parsed\<lparr>ps_Spec := Some bound\<rparr>), diags @ dd @ checkConfigBlocks h spec @ bd))))))"

definition ParseFile ::
  "Hcl \<Rightarrow> Decode \<Rightarrow> (string \<Rightarrow> string + string) \<Rightarrow> string \<Rightarrow> (string \<times> string) list
    \<Rightarrow> Parsed option \<times> Diagnostic list" where
  "ParseFile h decode read path meta =
     (case read path of
        Inl err \<Rightarrow> (None, [diagnostic (''Cannot read job file'', []) (''Reading %s: %s.'', [path, err]) None])
      | Inr src \<Rightarrow> Parse h decode path src meta)"

section \<open>Loading\<close>

definition Load ::
  "Hcl \<Rightarrow> Decode \<Rightarrow> string \<Rightarrow> string \<Rightarrow> (string \<times> string) list \<Rightarrow> Parsed option \<times> Diagnostic list" where
  "Load h decode filename source meta =
     (case Parse h decode filename source meta of
        (parsed, diags) \<Rightarrow>
          (parsed, if \<not> HasErrors diags
             then diags @ Validate h (case parsed of None \<Rightarrow> None | Some p \<Rightarrow> ps_Spec p) else diags))"

definition ForRegister :: "Hcl \<Rightarrow> Decode \<Rightarrow> string \<Rightarrow> string \<Rightarrow> Parsed option \<times> Diagnostic list" where
  "ForRegister h decode filename source =
     (case Declared h filename source of
        (decl, diags) \<Rightarrow>
          if HasErrors diags then (None, diags) else Load h decode filename source (References decl))"

definition ForDispatch ::
  "Hcl \<Rightarrow> Decode \<Rightarrow> string \<Rightarrow> string \<Rightarrow> (string \<times> string) list
    \<Rightarrow> Parsed option \<times> Diagnostic list \<times> goerror option" where
  "ForDispatch h decode filename source meta =
     (case Declared h filename source of
        (decl, diags) \<Rightarrow>
          if HasErrors diags then (None, diags, None)
          else case CheckDispatch decl meta of
              Some err \<Rightarrow> (None, [], Some err)
            | None \<Rightarrow> (case Load h decode filename source meta of (parsed, diags) \<Rightarrow> (parsed, diags, None)))"

section \<open>Metadata that fits its declaration\<close>

lemma missingKeys_Nil: "missingKeys required supplied = [] \<longleftrightarrow> set required \<subseteq> fst ` set supplied"
  by (auto simp: missingKeys_def filter_empty_conv map_of_eq_None_iff)

lemma CheckDispatch_None:
  "CheckDispatch d supplied = None \<longleftrightarrow>
     (if dc_Parameterized d
      then set (dc_Required d) \<subseteq> fst ` set supplied \<and>
        fst ` set supplied \<subseteq> set (dc_Required d) \<union> set (dc_Optional d)
      else supplied = [])"
  by (auto simp: CheckDispatch_def missingKeys_Nil filter_empty_conv Let_def)

lemma CheckRequiredMeta_Nil:
  "CheckRequiredMeta required supplied = [] \<longleftrightarrow>
     (\<forall>req \<in> set required. set (rm_Keys req) \<subseteq> fst ` set supplied)"
  by (induction required) (auto simp: missingKeys_Nil Let_def)

lemma CheckRequiredMeta_HasErrors:
  "HasErrors (CheckRequiredMeta required supplied) \<longleftrightarrow> CheckRequiredMeta required supplied \<noteq> []"
  by (induction required) (auto simp: Let_def)

lemma fold_update_map_of:
  "distinct (map fst kvs) \<Longrightarrow>
     map_of (fold (\<lambda>(k, v). AList.update k v) kvs m) k = (case map_of kvs k of None \<Rightarrow> map_of m k | Some v \<Rightarrow> Some v)"
proof (induction kvs arbitrary: m)
  case Nil
  then show ?case by simp
next
  case (Cons kv kvs)
  then have "map_of kvs (fst kv) = None" by (simp add: map_of_eq_None_iff)
  with Cons show ?case by (cases kv) (auto simp: update_conv split: option.split)
qed

lemma copy_meta_map:
  "distinct (map fst supplied) \<Longrightarrow>
     map_of (copy_meta supplied m) k = (case map_of supplied k of None \<Rightarrow> map_of m k | Some v \<Rightarrow> Some v)"
  by (simp add: copy_meta_def fold_update_map_of)

lemma fold_update_fun:
  "map_of (fold (\<lambda>k. AList.update k (f k)) ks m) k = (if k \<in> set ks then Some (f k) else map_of m k)"
  by (induction ks arbitrary: m) (auto simp: update_conv)

lemma References_map:
  "map_of (References d) k =
     (if k \<in> set (dc_Required d) \<union> set (dc_Optional d) then Some (reference k) else None)"
  by (auto simp: References_def fold_update_fun simp del: fold_append)

lemma References_keys: "fst ` set (References d) = set (dc_Required d) \<union> set (dc_Optional d)"
proof -
  have "k \<in> fst ` set (References d) \<longleftrightarrow> map_of (References d) k \<noteq> None" for k
    by (simp add: map_of_eq_None_iff)
  then have "k \<in> fst ` set (References d) \<longleftrightarrow> k \<in> set (dc_Required d) \<union> set (dc_Optional d)" for k
    by (simp only: References_map split: if_split) simp
  then show ?thesis by blast
qed

lemma References_distinct: "distinct (map fst (References d))"
proof -
  have "distinct (map fst (fold (\<lambda>k. AList.update k (reference k)) ks m))" if "distinct (map fst m)" for ks m
    using that by (induction ks arbitrary: m) (auto intro: distinct_update)
  then show ?thesis unfolding References_def by simp
qed

text \<open>What is read of an attribute does not depend on what was reported before.\<close>

lemma stringList_loop_keys: "fst (stringList_loop h attr es keys diags) = fst (stringList_loop h attr es keys diags')"
  by (induction es arbitrary: keys diags diags') (auto split: Cty.split)

lemma stringList_keys: "fst (stringList h attr diags) = fst (stringList h attr diags')"
  unfolding stringList_def by (simp split: prod.split option.split) (metis stringList_loop_keys)

text \<open>The requirement checked at parse time is the declaration a dispatch is checked against.\<close>

lemma jobRequiredMeta_Declared:
  "fst (jobRequiredMeta h (hb_Body block)) = dc_Required (fst (Declared_block h block diags))"
  by (auto simp: jobRequiredMeta_def Declared_block_def declared_keys_def no_declaration_def Let_def
      split: prod.split list.split option.split) (metis fst_conv stringList_keys)

lemma RequiredMeta_single:
  assumes "parseSource h filename source = (Some body, diags)"
    and "hcl_PartialContent h requiredMetaSchema body = (Some content, cd)" "hc_Blocks content = [block]"
    and "req \<in> set (fst (RequiredMeta h body))"
  shows "rm_Keys req = dc_Required (fst (Declared h filename source))"
proof -
  have "rm_Keys req = fst (jobRequiredMeta h (hb_Body block))"
    using assms(2-4) by (auto simp: RequiredMeta_def split: prod.splits if_splits)
  also have "\<dots> = dc_Required (fst (Declared h filename source))"
    using assms(1-3) by (simp add: Declared_def jobRequiredMeta_Declared)
  finally show ?thesis .
qed

lemma Declared_unparameterized:
  "\<not> dc_Parameterized (fst (Declared h filename source)) \<Longrightarrow> dc_Required (fst (Declared h filename source)) = []"
  by (auto simp: Declared_def Declared_block_def no_declaration_def Let_def
      split: prod.splits option.splits list.splits)

section \<open>Loaded jobs\<close>

lemma Parse_spec:
  assumes "Parse h decode filename source meta = (Some p, diags)" "\<not> HasErrors diags"
  shows "\<exists>spec. ps_Spec p = Some (fst (bindTasks h spec (evalContext meta) meta))"
proof -
  from assms obtain body ds where body: "parseSource h filename source = (Some body, ds)"
    by (auto simp: Parse_def split: option.splits prod.splits)
  obtain required rd where required: "RequiredMeta h body = (required, rd)" by fastforce
  have "\<not> HasErrors (CheckRequiredMeta required meta)"
    using assms by (auto simp: Parse_def body required Let_def split: if_splits)
  with assms(1) show ?thesis
    by (intro exI [of _ "fst (decode body (evalContext meta))"])
      (auto simp: Parse_def body required Let_def split: prod.splits)
qed

lemma bind_job_tasks: "fst (bind_job h ctx supplied j) =
  j\<lparr>job_Tasks := map (bind_task ctx (copy_meta supplied
    (case fst (RawBlock_Attributes h (job_Meta j) (Some ctx)) of None \<Rightarrow> [] | Some m \<Rightarrow> m))) (job_Tasks j)\<rparr>"
  by (simp add: bind_job_def Let_def split: prod.split)

lemma Load_valid:
  assumes "Load h decode filename source meta = (Some p, diags)" "\<not> HasErrors diags"
  shows "\<exists>j m. ps_Spec p = Some \<lparr>file_Jobs = [j]\<rparr> \<and> job_wf h j \<and>
    (\<forall>t \<in> set (job_Tasks j). task_Vars t = Some (evalContext meta) \<and> task_Meta t = copy_meta meta m)"
proof -
  from assms obtain ds where parse: "Parse h decode filename source meta = (Some p, ds)" "\<not> HasErrors ds"
    and valid: "Validate h (ps_Spec p) = []"
    by (auto simp: Load_def Validate_HasErrors split: prod.splits if_splits)
  from Parse_spec [OF parse] obtain spec
    where spec: "ps_Spec p = Some (fst (bindTasks h spec (evalContext meta) meta))" by blast
  with valid obtain j where j: "file_Jobs (the (ps_Spec p)) = [j]" "job_wf h j"
    by (auto simp: Validate_Nil)
  then obtain j0 where j0: "file_Jobs spec = [j0]" "j = fst (bind_job h (evalContext meta) meta j0)"
    by (auto simp: spec bindTasks_def Let_def map_eq_Cons_conv)
  show ?thesis
    using j spec j0(2)
    by (intro exI [of _ j] exI [of _ "case fst (RawBlock_Attributes h (job_Meta j0) (Some (evalContext meta)))
          of None \<Rightarrow> [] | Some m \<Rightarrow> m"]) (auto simp: bind_job_tasks bind_task_def)
qed

section \<open>A concrete library\<close>

text \<open>A library that reads one job: parameterised by \<open>version\<close>, with a container task.\<close>

definition sample_hcl :: Hcl where
  "sample_hcl =
     \<lparr>hcl_ParseConfig = (\<lambda>source filename. (Some (HclBody 0), [])),
      hcl_PartialContent = (\<lambda>schema body.
        if body = HclBody 0 then (Some \<lparr>hc_Attributes = [], hc_Blocks = [\<lparr>hb_Labels = [''j''], hb_Body = HclBody 1\<rparr>]\<rparr>, [])
        else if body = HclBody 1 then (Some \<lparr>hc_Attributes = [], hc_Blocks = [\<lparr>hb_Labels = [], hb_Body = HclBody 2\<rparr>]\<rparr>, [])
        else (Some \<lparr>hc_Attributes = [(''meta_required'', \<lparr>ha_Name = ''meta_required'', ha_Expr = HclExpr 0, ha_Range = 7\<rparr>)],
          hc_Blocks = []\<rparr>, [])),
      hcl_JustAttributes = (\<lambda>body. (Some [(''image'', \<lparr>ha_Name = ''image'', ha_Expr = HclExpr 1, ha_Range = 8\<rparr>)], [])),
      hcl_Value = (\<lambda>e ctx. (if e = HclExpr 0 then CtyList [CtyString ''version''] else CtyString ''alpine'', [])),
      hcl_ExprRange = (\<lambda>e. 0), hcl_NestedBlocks = (\<lambda>body. Some []),
      hcl_ToString = (\<lambda>v. case v of CtyString s \<Rightarrow> Inr s | _ \<Rightarrow> Inl ''a string is required''),
      hcl_ToStrings = (\<lambda>v. Inl ''a list is required''), hcl_Error = (\<lambda>ds. ''diagnostics'')\<rparr>"

definition sample_spec :: Job where
  "sample_spec =
     \<lparr>job_Name = ''j'', job_Namespace = None, job_Type = None, job_Meta = None, job_Parameterized = None, job_Routing = None,
      job_Tasks = [\<lparr>task_Name = ''build'', task_Driver = DriverContainer, task_Config = Some (HclBody 3),
        task_Env = None, task_Source = None, task_WorkingDirectory = None, task_Resources = None, task_Timeout = None,
        task_Network = None, task_Execution = None, task_Retry = None, task_Vars = None, task_Meta = []\<rparr>]\<rparr>"

definition sample_decode :: Decode where
  "sample_decode body ctx = (\<lparr>file_Jobs = [sample_spec]\<rparr>, [])"

section \<open>Properties\<close>

text \<open>C27. A job file is accepted exactly when it declares one job and that job is well formed: names,
  closed vocabularies, operators with the values they need, attributes a provider can have, an
  image for every container, positive sizes and timeouts, and retry policies that mean what
  they say.\<close>

theorem validation_exact:
  "Validate h (Some f) = [] \<longleftrightarrow> (\<exists>j. file_Jobs f = [j] \<and> job_wf h j)"
  by (rule Validate_Nil)

text \<open>A dispatch is accepted exactly when it supplies every key the job requires and none it does
  not declare, and what it accepts is what parsing asks for: for a file of one job, metadata
  that passes at dispatch, and the references that stand for it at registration, never fail the
  parser's own check.\<close>

theorem dispatch_metadata:
  assumes "parseSource h filename source = (Some body, diags)"
    and "hcl_PartialContent h requiredMetaSchema body = (Some content, cd)" "hc_Blocks content = [block]"
  defines "d \<equiv> fst (Declared h filename source)"
  shows "(CheckDispatch d meta = None \<longleftrightarrow>
      (if dc_Parameterized d
       then set (dc_Required d) \<subseteq> fst ` set meta \<and> fst ` set meta \<subseteq> set (dc_Required d) \<union> set (dc_Optional d)
       else meta = [])) \<and>
    (CheckDispatch d meta = None \<longrightarrow> CheckRequiredMeta (fst (RequiredMeta h body)) meta = []) \<and>
    CheckRequiredMeta (fst (RequiredMeta h body)) (References d) = []"
  using RequiredMeta_single [OF assms(1-3)]
  using Declared_unparameterized [of h filename source]
  by (auto simp: CheckDispatch_None CheckRequiredMeta_Nil References_keys d_def split: if_splits)

theorem dispatch_metadata_witness:
  "CheckDispatch (fst (Declared sample_hcl [] ''src'')) [(''version'', ''v1'')] = None \<and>
   CheckDispatch (fst (Declared sample_hcl [] ''src'')) [] \<noteq> None"
proof -
  have d: "fst (Declared sample_hcl [] ''src'') =
      \<lparr>dc_Job = ''j'', dc_Parameterized = True, dc_Required = [''version''], dc_Optional = []\<rparr>"
    by code_simp
  have parse: "parseSource sample_hcl [] ''src'' = (Some (HclBody 0), [])"
    and content: "hcl_PartialContent sample_hcl requiredMetaSchema (HclBody 0) =
      (Some \<lparr>hc_Attributes = [], hc_Blocks = [\<lparr>hb_Labels = [''j''], hb_Body = HclBody 1\<rparr>]\<rparr>, [])"
    by (simp_all add: parseSource_def sample_hcl_def)
  note iff = dispatch_metadata [OF parse content, unfolded d, of "\<lparr>hb_Labels = [''j''], hb_Body = HclBody 1\<rparr>",
      THEN conjunct1]
  show ?thesis using iff [of "[(''version'', ''v1'')]"] iff [of "[]"] by (simp add: d)
qed

text \<open>C40. A job that loads for a dispatch without errors is one well-formed job, and every task of it is
  bound to what the dispatch supplied: its expressions are evaluated against that metadata, which
  also overrides the job's own.\<close>

theorem dispatched_job_bound:
  assumes "ForDispatch h decode filename source meta = (Some p, diags, None)" "\<not> HasErrors diags"
    and "distinct (map fst meta)"
  shows "\<exists>j. ps_Spec p = Some \<lparr>file_Jobs = [j]\<rparr> \<and> job_wf h j \<and>
    CheckDispatch (fst (Declared h filename source)) meta = None \<and>
    (\<forall>t \<in> set (job_Tasks j). task_Vars t = Some (evalContext meta) \<and>
      (\<forall>k v. map_of meta k = Some v \<longrightarrow> map_of (task_Meta t) k = Some v))"
proof -
  have load: "Load h decode filename source meta = (Some p, diags)"
    and check: "CheckDispatch (fst (Declared h filename source)) meta = None"
    using assms(1) by (auto simp: ForDispatch_def split: prod.splits if_splits option.splits)
  from Load_valid [OF load assms(2)] check show ?thesis
    by (auto simp: copy_meta_map [OF assms(3)])
qed

theorem dispatched_job_bound_witness:
  "job_wf sample_hcl (sample_spec\<lparr>job_Tasks := map (bind_task (evalContext [(''version'', ''v1'')]) [(''version'', ''v1'')])
     (job_Tasks sample_spec)\<rparr>)"
proof -
  let ?meta = "[(''version'', ''v1'')]"
  let ?j = "sample_spec\<lparr>job_Tasks := map (bind_task (evalContext ?meta) ?meta) (job_Tasks sample_spec)\<rparr>"
  have "ForDispatch sample_hcl sample_decode [] ''src'' ?meta =
      (Some \<lparr>ps_Spec = Some \<lparr>file_Jobs = [?j]\<rparr>, ps_Filename = ''<stdin>'', ps_Source = HclBody 0\<rparr>, [], None)"
    by code_simp
  from dispatched_job_bound [OF this] show ?thesis by simp
qed

end
