(* ===== verification/Dispatch.thy ===== *)
theory Dispatch
  imports Effects
begin

text \<open>
  \<^verbatim>\<open>internal/dispatch\<close>: running tasks on the providers admission passed.  A function of
  the code that mutates a record in place returns it; a Go pair of a value and an error is a
  pair with an optional error.  Computations that watch an execution answer \<open>None\<close> when the
  polls of the model's fuel ran out.
\<close>

section \<open>Errors and outcomes\<close>

definition ErrNoCandidates :: string where [vocab]: "ErrNoCandidates = ''no provider can run this task''"
definition ErrExhausted :: string where [vocab]: "ErrExhausted = ''every attempt failed''"
definition ErrNoProvider :: string where [vocab]: "ErrNoProvider = ''provider is not registered''"
definition ErrLeaseLost :: string where [vocab]: "ErrLeaseLost = ''dispatch was taken over by another process''"

record Attempt =
  at_Provider :: string
  at_ID :: ID
  at_Err :: "goerror option"
  at_Refused :: bool

record TaskOutcome =
  to_Task :: string
  to_Provider :: string
  to_ID :: ID
  to_State :: State
  to_Result :: "Result option"
  to_Streamed :: bool
  to_Attempts :: "Attempt list"
  to_Rejections :: "Rejection list"

definition TaskOutcome_Succeeded :: "TaskOutcome \<Rightarrow> bool" where
  "TaskOutcome_Succeeded o1 \<longleftrightarrow> to_Result o1 \<noteq> None \<and> to_State o1 = StateSucceeded"

fun tried_count :: "Attempt list \<Rightarrow> int \<Rightarrow> int" where
  "tried_count [] n = n"
| "tried_count (a # as) n = tried_count as (if \<not> at_Refused a then n + 1 else n)"

definition Tried :: "TaskOutcome \<Rightarrow> int" where
  "Tried o1 = tried_count (to_Attempts o1) 0"

definition Rerouted :: "TaskOutcome \<Rightarrow> bool" where
  "Rerouted o1 \<longleftrightarrow> 1 < Tried o1"

record JobOutcome =
  jo_Job :: string
  jo_Dispatch :: ID
  jo_Tasks :: "TaskOutcome list"

definition JobOutcome_Succeeded :: "JobOutcome \<Rightarrow> bool" where
  "JobOutcome_Succeeded o1 \<longleftrightarrow>
     (if jo_Tasks o1 = [] then False
      else find_first (\<lambda>t. \<not> TaskOutcome_Succeeded t) (jo_Tasks o1) = None)"

record Origin =
  or_Namespace :: string
  or_Job :: string
  or_JobVersion :: int
  or_Dispatch :: ID

section \<open>Retry policy\<close>

record policy =
  po_attempts :: int
  po_reroute :: bool
  po_initial :: Duration
  po_max :: Duration

definition defaultAttempts :: int where "defaultAttempts = 1"
definition defaultBackoffInitial :: Duration where "defaultBackoffInitial = 5 * Second"
definition defaultBackoffMax :: Duration where "defaultBackoffMax = 30 * Second"

definition duration :: "DurationText option \<Rightarrow> Duration option" where
  "duration d =
     (case d of
        None \<Rightarrow> None
      | Some t \<Rightarrow>
          (case Duration_Std t of
             Inl err \<Rightarrow> None
           | Inr parsed \<Rightarrow> if parsed \<le> 0 then None else Some parsed))"

definition retryPolicy :: "Task \<Rightarrow> policy" where
  "retryPolicy task =
     (let p = \<lparr>po_attempts = defaultAttempts, po_reroute = False,
               po_initial = defaultBackoffInitial, po_max = defaultBackoffMax\<rparr> in
      case task_Retry task of
        None \<Rightarrow> p
      | Some retry \<Rightarrow>
          (let p = (case rty_Attempts retry of
                None \<Rightarrow> p
              | Some n \<Rightarrow> if 0 < n then p\<lparr>po_attempts := n\<rparr> else p);
               p = (case rty_Reroute retry of None \<Rightarrow> p | Some b \<Rightarrow> p\<lparr>po_reroute := b\<rparr>)
           in case rty_Backoff retry of
                None \<Rightarrow> p
              | Some backoff \<Rightarrow>
                  (let p = (case duration (bo_Initial backoff) of None \<Rightarrow> p | Some d \<Rightarrow> p\<lparr>po_initial := d\<rparr>)
                   in case duration (bo_Max backoff) of None \<Rightarrow> p | Some d \<Rightarrow> p\<lparr>po_max := d\<rparr>)))"

definition budget :: "policy \<Rightarrow> int" where
  "budget p = (if \<not> po_reroute p then 1 else po_attempts p)"

text \<open>The doubling loop shared by \<open>backoff\<close> and \<open>interval\<close>: \<open>n\<close> rounds, capped by \<open>limit\<close>.\<close>

fun doubling :: "nat \<Rightarrow> Duration \<Rightarrow> Duration \<Rightarrow> Duration" where
  "doubling 0 wait limit = wait"
| "doubling (Suc n) wait limit =
     (let wait = wrap64 (wait * 2) in if limit \<le> wait then limit else doubling n wait limit)"

definition backoff :: "policy \<Rightarrow> int \<Rightarrow> Duration" where
  "backoff p attempt =
     (if attempt < 1 then 0 else doubling (nat (attempt - 1)) (po_initial p) (po_max p))"

definition interval :: "Poll \<Rightarrow> nat \<Rightarrow> Duration" where
  "interval p n = doubling n (poll_Initial p) (poll_Max p)"

section \<open>Calls with a credential\<close>

definition authorized ::
  "('s, 'x, 'w) Dispatcher \<Rightarrow> 'w Provider \<Rightarrow> ('w, 'a \<times> goerror option) E \<Rightarrow> ('w, 'a \<times> goerror option) E" where
  "authorized d p call =
     do {
       (out, err) \<leftarrow> call;
       (case err of
          None \<Rightarrow> ret (out, err)
        | Some e \<Rightarrow>
            if \<not> err_is ErrUnauthorized e then ret (out, err)
            else do {
              (retry, refreshErr) \<leftarrow> effect (CallRecredential (p_Name p)) (d_recredential d (p_Name p));
              (case refreshErr of
                 Some r \<Rightarrow> ret (out, Some (Joined [e, r]))
               | None \<Rightarrow> if \<not> retry then ret (out, err) else call)
            })
     }"

definition status ::
  "('s, 'x, 'w) Dispatcher \<Rightarrow> 'w Provider \<Rightarrow> ID \<Rightarrow> ('w, Status \<times> goerror option) E" where
  "status d p i = authorized d p (effect (CallStatus (p_Name p) i) (p_Status p i))"

definition authorizedErr ::
  "('s, 'x, 'w) Dispatcher \<Rightarrow> 'w Provider \<Rightarrow> ('w, goerror option) E \<Rightarrow> ('w, goerror option) E" where
  "authorizedErr d p call =
     do {
       (out, err) \<leftarrow> authorized d p (do { err \<leftarrow> call; ret ((), err) });
       ret err
     }"

definition submit ::
  "('s, 'x, 'w) Dispatcher \<Rightarrow> 'w Provider \<Rightarrow> ID \<Rightarrow> Task \<Rightarrow> string list
    \<Rightarrow> ('w, Submission \<times> goerror option) E" where
  "submit d p i task members =
     authorized d p
       (case p_SubmitTo p of
          Some submitTo \<Rightarrow>
            if members \<noteq> [] then effect (CallSubmit (p_Name p) i) (submitTo i task members)
            else effect (CallSubmit (p_Name p) i) (p_Submit p i task)
        | None \<Rightarrow> effect (CallSubmit (p_Name p) i) (p_Submit p i task))"

definition fetch_result ::
  "('s, 'x, 'w) Dispatcher \<Rightarrow> 'w Provider \<Rightarrow> ID \<Rightarrow> ('w, Result option \<times> goerror option) E" where
  "fetch_result d p i = authorized d p (effect (CallResult (p_Name p) i) (p_Result p i))"

section \<open>Tracking an attempt\<close>

definition track_to ::
  "('s, 'x, 'w) Dispatcher \<Rightarrow> State \<Rightarrow> Record \<Rightarrow> ('s, 'x, 'w, Record) M" where
  "track_to d next_state rec =
     (let from_state = st_State rec in
      if from_state = next_state then ret rec
      else do {
        t \<leftarrow> ext (now d);
        (case Status_To next_state t rec of
           Inl err \<Rightarrow> ret rec
         | Inr rec' \<Rightarrow> do {
             ext (record_call (CallUpdate (st_ID rec') from_state next_state));
             err \<leftarrow> on_executions (x_Update (d_executions d) rec' from_state);
             ret rec'
           })
      })"

definition track_finish ::
  "('s, 'x, 'w) Dispatcher \<Rightarrow> State \<Rightarrow> Result option \<Rightarrow> Record \<Rightarrow> ('s, 'x, 'w, Record) M" where
  "track_finish d st1 result rec = track_to d st1 (rec\<lparr>rec_Result := Bounded result\<rparr>)"

definition track_submitted ::
  "('s, 'x, 'w) Dispatcher \<Rightarrow> Submission \<Rightarrow> Record \<Rightarrow> ('s, 'x, 'w, Record) M" where
  "track_submitted d sub rec =
     do {
       rec \<leftarrow> track_to d StateSubmitted (rec\<lparr>st_ProviderID := sub_ProviderID sub\<rparr>);
       if sub_Result sub \<noteq> None then track_finish d (sub_State sub) (sub_Result sub) rec
       else track_to d (sub_State sub) rec
     }"

definition failure_class :: "goerror \<Rightarrow> string" where
  "failure_class err = (case as_classified err of None \<Rightarrow> ClassInternal | Some c \<Rightarrow> err_Class c)"

definition track_failed ::
  "('s, 'x, 'w) Dispatcher \<Rightarrow> goerror \<Rightarrow> Record \<Rightarrow> ('s, 'x, 'w, Record) M" where
  "track_failed d err rec =
     (let rec = rec\<lparr>rec_Failure := failure_class err\<rparr> in
      if st_State rec = StatePending then track_to d StateFailed rec else track_to d StateLost rec)"

section \<open>One attempt\<close>

record answer =
  an_state :: State
  an_result :: "Result option"
  an_streamed :: bool

definition no_answer :: answer where
  "no_answer = \<lparr>an_state = [], an_result = None, an_streamed = False\<rparr>"

definition release ::
  "('s, 'x, 'w) Dispatcher \<Rightarrow> 'w Provider \<Rightarrow> ID \<Rightarrow> ('s, 'x, 'w, unit) M" where
  "release d p i =
     do {
       err \<leftarrow> ext (case p_Release p of
           None \<Rightarrow> ret None
         | Some rel \<Rightarrow> authorizedErr d p (effect (CallRelease (p_Name p) i) (rel i)));
       (if (case err of None \<Rightarrow> False | Some e \<Rightarrow> \<not> err_is ErrUnknownExecution e) then ret ()
        else do {
          t \<leftarrow> ext (now d);
          err \<leftarrow> on_executions (x_MarkReleased (d_executions d) i t);
          ret ()
        })
     }"

definition abandon :: "('s, 'x, 'w) Dispatcher \<Rightarrow> 'w Provider \<Rightarrow> ID \<Rightarrow> ('s, 'x, 'w, unit) M" where
  "abandon d p i =
     do {
       err \<leftarrow> ext (authorizedErr d p (effect (CallCancel (p_Name p) i) (p_Cancel p i)));
       ret ()
     }"

text \<open>\<open>watch\<close> answers \<open>None\<close> when the fuel is spent; \<open>n\<close> counts the polls so far.\<close>

fun watch_loop ::
  "nat \<Rightarrow> ('s, 'x, 'w) Dispatcher \<Rightarrow> 'w Provider \<Rightarrow> Event \<Rightarrow> State \<Rightarrow> nat \<Rightarrow> Record
    \<Rightarrow> ('s, 'x, 'w, (State \<times> goerror option \<times> Record) option) M" where
  "watch_loop 0 d p event last_state n rec = ret None"
| "watch_loop (Suc fuel) d p event last_state n rec =
     do {
       slept \<leftarrow> ext (sleep d (interval (d_poll d) n));
       (case slept of
          Some err \<Rightarrow> ret (Some ([], Some err, rec))
        | None \<Rightarrow> do {
            (st1, err) \<leftarrow> ext (status d p (st_ID rec));
            (case err of
               Some e \<Rightarrow> ret (Some ([], Some e, rec))
             | None \<Rightarrow>
                 if State_Terminal (st_State st1) then ret (Some (st_State st1, None, rec))
                 else if st_State st1 \<noteq> last_state then do {
                   rec \<leftarrow> track_to d (st_State st1) rec;
                   ext (report d (event\<lparr>ev_State := st_State st1\<rparr>));
                   watch_loop fuel d p (event\<lparr>ev_State := st_State st1\<rparr>) (st_State st1) (Suc n) rec
                 }
                 else watch_loop fuel d p event last_state (Suc n) rec)
          })
     }"

definition watch ::
  "('s, 'x, 'w) Dispatcher \<Rightarrow> 'w Provider \<Rightarrow> Event \<Rightarrow> Record
    \<Rightarrow> ('s, 'x, 'w, (State \<times> goerror option \<times> Record) option) M" where
  "watch d p event rec = watch_loop (d_fuel d) d p event (ev_State event) 0 rec"

text \<open>Whether this execution's output is streamed, and whether anything reached the caller.\<close>

definition settle_stream :: "('s, 'x, 'w) Dispatcher \<Rightarrow> 'w Provider \<Rightarrow> ('w, bool) E" where
  "settle_stream d p =
     (if d_logs d \<and> p_Streams p then do { err \<leftarrow> sleep d (d_linger d); env (d_wrote d) } else ret False)"

definition cancelled_by_provider :: "ID \<Rightarrow> goerror" where
  "cancelled_by_provider i = Infrastructure (Formatted ''execution %s was cancelled by the provider'' [I i] [])"

definition follow ::
  "('s, 'x, 'w) Dispatcher \<Rightarrow> 'w Provider \<Rightarrow> Event \<Rightarrow> Record
    \<Rightarrow> ('s, 'x, 'w, (answer \<times> goerror option \<times> Record) option) M" where
  "follow d p event rec =
     do {
       watched \<leftarrow> watch d p event rec;
       (case watched of
          None \<Rightarrow> ret None
        | Some (st1, err, rec) \<Rightarrow> do {
            streamed \<leftarrow> ext (settle_stream d p);
            (case err of
               Some e \<Rightarrow> do {
                 gone \<leftarrow> ext (env (\<lambda>w. (d_ctx_done d w, w)));
                 rec \<leftarrow> (if gone
                   then do { abandon d p (st_ID rec); track_to d StateCancelled rec }
                   else track_failed d e rec);
                 ret (Some (no_answer\<lparr>an_streamed := streamed\<rparr>, Some e, rec))
               }
             | None \<Rightarrow> do {
                 (result, err) \<leftarrow> ext (fetch_result d p (st_ID rec));
                 rec \<leftarrow> track_finish d st1 result rec;
                 (case err of
                    Some e \<Rightarrow> ret (Some (no_answer\<lparr>an_streamed := streamed\<rparr>, Some e, rec))
                  | None \<Rightarrow> do {
                      release d p (st_ID rec);
                      (let ended = \<lparr>an_state = st1, an_result = result, an_streamed = streamed\<rparr> in
                       if st1 = StateCancelled
                       then ret (Some (ended, Some (cancelled_by_provider (st_ID rec)), rec))
                       else ret (Some (ended, None, rec)))
                    })
               })
          })
     }"

definition execute ::
  "('s, 'x, 'w) Dispatcher \<Rightarrow> 'w Provider \<Rightarrow> Task \<Rightarrow> string list \<Rightarrow> Record
    \<Rightarrow> ('s, 'x, 'w, (answer \<times> goerror option \<times> Record) option) M" where
  "execute d p task members rec =
     do {
       (let event = \<lparr>ev_Task = task_Name task, ev_Provider = p_Name p, ev_ID = st_ID rec,
                     ev_State = [], ev_Attempt = rec_Attempt rec\<rparr> in do {
       (submission, err) \<leftarrow> ext (submit d p (st_ID rec) task members);
       (let err = (case err of Some e \<Rightarrow> Some e
                   | None \<Rightarrow> map_option Internal (Submission_Validate submission)) in
        case err of
          Some e \<Rightarrow> do {
            rec \<leftarrow> track_failed d e rec;
            ret (Some (no_answer, Some e, rec))
          }
        | None \<Rightarrow> do {
            rec \<leftarrow> track_submitted d submission rec;
            (let event = event\<lparr>ev_State := sub_State submission\<rparr> in do {
               ext (if \<not> State_Terminal (sub_State submission) then report d event else ret ());
               (if Synchronous submission then do {
                  release d p (st_ID rec);
                  ret (Some (\<lparr>an_state = sub_State submission, an_result = sub_Result submission,
                              an_streamed = False\<rparr>, None, rec))
                }
                else follow d p event rec)
             })
          })
       })
     }"

section \<open>Working down the ranking\<close>

definition ledger_goerror :: "goerror ledger_error \<Rightarrow> goerror" where
  "ledger_goerror err =
     (case err of
        ReservingQuota e \<Rightarrow> Formatted ''reserving quota: %w'' [] [e]
      | SettlingQuota e \<Rightarrow> Formatted ''settling quota: %w'' [] [e]
      | ReapingQuota e \<Rightarrow> Formatted ''reaping quota reservations: %w'' [] [e]
      | ReadingQuota e \<Rightarrow> Formatted ''reading quota usage: %w'' [] [e]
      | Refused r \<Rightarrow> RefusalError r
      | RefusedWithRoom p \<Rightarrow>
          Formatted ''provider %q refused a reservation its usage has room for'' [S p] [])"

definition refused :: "goerror option \<Rightarrow> bool" where
  "refused err = (case err of None \<Rightarrow> False | Some e \<Rightarrow> has_refusal e)"

definition charge ::
  "('s, 'x, 'w) Dispatcher \<Rightarrow> Record \<Rightarrow> Result option \<Rightarrow> ('s, 'x, 'w, unit) M" where
  "charge d rec result =
     (case result of
        None \<Rightarrow> ret ()
      | Some r \<Rightarrow>
          (let actual = \<lparr>ex_CPU = rec_CPU rec, ex_Memory = rec_Memory rec, ex_Duration = res_Duration r\<rparr>;
               actual = (case res_Billed r of None \<Rightarrow> actual | Some billed \<Rightarrow> billed)
           in do {
             ext (record_call (CallSettle (rec_Provider rec) (st_ID rec)));
             err \<leftarrow> on_store (\<lambda>l. Ledger_Settle (d_store d) l (st_ID rec) (rec_Namespace rec) (rec_Provider rec) actual);
             ret ()
           }))"

definition pause :: "('s, 'x, 'w) Dispatcher \<Rightarrow> policy \<Rightarrow> int \<Rightarrow> ('w, goerror option) E" where
  "pause d p tried = (if tried = 0 then ret None else sleep d (backoff p tried))"

definition pending_record :: "Origin \<Rightarrow> Request \<Rightarrow> string \<Rightarrow> int \<Rightarrow> ID \<Rightarrow> ID \<Rightarrow> Time \<Rightarrow> Record" where
  "pending_record origin req name attempt previous i t =
     \<lparr>st_ID = i, st_State = StatePending, st_ProviderID = [], st_StartedAt = 0, st_EndedAt = 0,
      st_UpdatedAt = t, rec_Namespace = or_Namespace origin, rec_Job = or_Job origin,
      rec_JobVersion = or_JobVersion origin, rec_Dispatch = or_Dispatch origin,
      rec_Task = task_Name (rq_Task req), rec_Provider = name, rec_Attempt = attempt,
      rec_Previous = previous, rec_CPU = ex_CPU (rq_Execution req), rec_Memory = ex_Memory (rq_Execution req),
      rec_Result = None, rec_Failure = [], rec_Released = 0\<rparr>"

text \<open>The record is present whenever the code returns a tracked run.\<close>

definition prepare ::
  "('s, 'x, 'w) Dispatcher \<Rightarrow> Origin \<Rightarrow> Request \<Rightarrow> string \<Rightarrow> int \<Rightarrow> ID
    \<Rightarrow> ('s, 'x, 'w, Record option \<times> goerror option) M" where
  "prepare d origin req name attempt previous =
     do {
       (i, err) \<leftarrow> ext (env (d_newID d));
       (case err of
          Some e \<Rightarrow> ret (None, Some (Internal (Formatted ''generating an execution id: %w'' [] [e])))
        | None \<Rightarrow> do {
            t \<leftarrow> ext (now d);
            (let rec = pending_record origin req name attempt previous i t in do {
               reserved_at \<leftarrow> ext (now d);
               err \<leftarrow> on_store (\<lambda>l. Ledger_Reserve (d_store d) l i (or_Namespace origin) name
                 (rq_Execution req) (WillPay req) reserved_at);
               ext (record_call (CallReserve name i (err = None)));
               (case map_option ledger_goerror err of
                  Some e \<Rightarrow>
                    if refused (Some e) then ret (Some rec, Some e)
                    else ret (None, Some (Formatted ''reserving quota on %s: %w'' [S name] [e]))
                | None \<Rightarrow> do {
                    err \<leftarrow> on_executions (x_Create (d_executions d) rec);
                    ext (record_call (CallCreate i (err = None)));
                    (case err of
                       Some e \<Rightarrow> ret (None, Some (Formatted ''recording execution %s: %w'' [I i] [e]))
                     | None \<Rightarrow> ret (Some rec, None))
                  })
             })
          })
     }"

definition add_attempt :: "Attempt \<Rightarrow> TaskOutcome \<Rightarrow> TaskOutcome" where
  "add_attempt a o1 = o1\<lparr>to_Attempts := to_Attempts o1 @ [a]\<rparr>"

definition exhausted_error :: "int \<Rightarrow> goerror option \<Rightarrow> goerror" where
  "exhausted_error tried lastErr =
     Formatted ''%w: %w'' []
       (Sentinel (if tried = 0 then ErrNoCandidates else ErrExhausted)
         # (case lastErr of None \<Rightarrow> [] | Some e \<Rightarrow> [e]))"

definition answered :: "string \<Rightarrow> ID \<Rightarrow> answer \<Rightarrow> TaskOutcome \<Rightarrow> TaskOutcome" where
  "answered name i ended o1 =
     o1\<lparr>to_Provider := name, to_ID := i, to_State := an_state ended, to_Result := an_result ended,
        to_Streamed := an_streamed ended\<rparr>"

fun attempt_loop ::
  "('s, 'x, 'w) Dispatcher \<Rightarrow> Origin \<Rightarrow> Request \<Rightarrow> policy \<Rightarrow> ScoredCandidate list
    \<Rightarrow> goerror option \<Rightarrow> int \<Rightarrow> ID \<Rightarrow> TaskOutcome
    \<Rightarrow> ('s, 'x, 'w, (TaskOutcome \<times> goerror option) option) M" where
  "attempt_loop d origin req policy [] lastErr tried previous outcome =
     ret (Some (outcome, Some (exhausted_error tried lastErr)))"
| "attempt_loop d origin req policy (c # ranking) lastErr tried previous outcome =
     (if \<not> tried < budget policy then ret (Some (outcome, Some (exhausted_error tried lastErr)))
      else
        (let name = in_Provider c in
         case d_provider d name of
           None \<Rightarrow> ret (Some (outcome, Some (Formatted ''%w: %s'' [S name] [Sentinel ErrNoProvider])))
         | Some provider \<Rightarrow> do {
             (run, err) \<leftarrow> prepare d origin req name (tried + 1) previous;
             (case run of
                None \<Rightarrow> ret (Some (outcome, err))
              | Some rec \<Rightarrow>
                  if refused err then
                    attempt_loop d origin req policy ranking err tried previous
                      (add_attempt \<lparr>at_Provider = name, at_ID = st_ID rec, at_Err = err, at_Refused = True\<rparr> outcome)
                  else if err \<noteq> None then ret (Some (outcome, err))
                  else do {
                    paused \<leftarrow> ext (pause d policy tried);
                    (case paused of
                       Some e \<Rightarrow> ret (Some (outcome, Some e))
                     | None \<Rightarrow> do {
                         executed \<leftarrow> execute d provider (rq_Task req) (cd_Members c) rec;
                         (case executed of
                            None \<Rightarrow> ret None
                          | Some (ended, err, rec') \<Rightarrow> do {
                              charge d rec' (an_result ended);
                              (let outcome = add_attempt \<lparr>at_Provider = name, at_ID = st_ID rec,
                                     at_Err = err, at_Refused = False\<rparr> outcome in
                               case err of
                                 None \<Rightarrow> ret (Some (answered name (st_ID rec) ended outcome, None))
                               | Some e \<Rightarrow>
                                   if \<not> Plugin.Reroutable e then ret (Some (outcome, Some e))
                                   else attempt_loop d origin req policy ranking (Some e) (tried + 1)
                                     (st_ID rec) outcome)
                            })
                       })
                  })
           }))"

definition attempt ::
  "('s, 'x, 'w) Dispatcher \<Rightarrow> Origin \<Rightarrow> Request \<Rightarrow> Ranking \<Rightarrow> TaskOutcome
    \<Rightarrow> ('s, 'x, 'w, (TaskOutcome \<times> goerror option) option) M" where
  "attempt d origin req ranking outcome =
     attempt_loop d origin req (retryPolicy (rq_Task req)) ranking None 0 0 outcome"

definition refresh :: "('s, 'x, 'w) Dispatcher \<Rightarrow> ('s, 'x, 'w, unit) M" where
  "refresh d =
     do {
       t \<leftarrow> ext (now d);
       State (\<lambda>s. ((), s\<lparr>w_led := snd (Ledger_Refresh (d_store d) (w_led s) t (w_store s))\<rparr>))
     }"

definition inputs :: "('s, 'x, 'w) Dispatcher \<Rightarrow> string \<Rightarrow> ('s, 'x, 'w, Input list) M" where
  "inputs d namespace =
     do {
       t \<leftarrow> ext (now d);
       State (\<lambda>s. (d_inputs d namespace (\<lambda>n p. Ledger_PoolUsage (w_led s) n p t) (x_env (w_ext s)), s))
     }"

text \<open>A task outcome is absent where the code returns nil beside its error.\<close>

definition RunTask ::
  "('s, 'x, 'w) Dispatcher \<Rightarrow> Origin \<Rightarrow> Task \<Rightarrow> Routing option \<Rightarrow> EvalContext option
    \<Rightarrow> ('s, 'x, 'w, (TaskOutcome option \<times> goerror option) option) M" where
  "RunTask d origin task routing eval =
     (case NewRequest (d_image d) task routing (d_tiers d) eval of
        (req, diags) \<Rightarrow>
          if diags \<noteq> [] then ret (Some (None, Some (Formatted ''building the request: %s'' [] diags)))
          else do {
            refresh d;
            ins \<leftarrow> inputs d (or_Namespace origin);
            (let admitted = Admit req ins;
                 outcome = \<lparr>to_Task = task_Name task, to_Provider = [], to_ID = 0, to_State = [],
                   to_Result = None, to_Streamed = False, to_Attempts = [],
                   to_Rejections = res_Rejections admitted\<rparr>
             in if res_Candidates admitted = []
                then ret (Some (Some outcome, Some (Sentinel ErrNoCandidates)))
                else do {
                  tried \<leftarrow> attempt d origin req (Rank req (res_Candidates admitted)) outcome;
                  ret (map_option (\<lambda>(o1, err). (Some o1, err)) tried)
                })
          })"

section \<open>Running a job\<close>

fun Run_loop ::
  "('s, 'x, 'w) Dispatcher \<Rightarrow> Origin \<Rightarrow> Routing option \<Rightarrow> EvalContext option \<Rightarrow> Task list \<Rightarrow> JobOutcome
    \<Rightarrow> ('s, 'x, 'w, (JobOutcome \<times> goerror option) option) M" where
  "Run_loop d origin routing eval [] outcome = ret (Some (outcome, None))"
| "Run_loop d origin routing eval (task # tasks) outcome =
     do {
       taken \<leftarrow> ext (env (\<lambda>w. (d_taken d w, w)));
       (if taken then ret (Some (outcome, Some (Sentinel ErrLeaseLost)))
        else do {
          ran \<leftarrow> RunTask d origin task routing eval;
          (case ran of
             None \<Rightarrow> ret None
           | Some (result, err) \<Rightarrow>
               (let outcome = (case result of None \<Rightarrow> outcome
                      | Some r \<Rightarrow> outcome\<lparr>jo_Tasks := jo_Tasks outcome @ [r]\<rparr>) in
                case err of
                  Some e \<Rightarrow> ret (Some (outcome, Some (Formatted ''task %q: %w'' [S (task_Name task)] [e])))
                | None \<Rightarrow>
                    if \<not> (case result of None \<Rightarrow> False | Some r \<Rightarrow> TaskOutcome_Succeeded r)
                    then ret (Some (outcome, None))
                    else Run_loop d origin routing eval tasks outcome))
        })
     }"

definition Run ::
  "('s, 'x, 'w) Dispatcher \<Rightarrow> Origin \<Rightarrow> Job \<Rightarrow> EvalContext option
    \<Rightarrow> ('s, 'x, 'w, (JobOutcome option \<times> goerror option) option) M" where
  "Run d origin j eval =
     (if or_Dispatch origin = 0
      then ret (Some (None, Some (Internal (Sentinel ''run of a dispatch that was never begun''))))
      else do {
        ran \<leftarrow> Run_loop d (origin\<lparr>or_Job := job_Name j\<rparr>) (job_Routing j) eval (job_Tasks j)
          \<lparr>jo_Job = job_Name j, jo_Dispatch = or_Dispatch origin, jo_Tasks = []\<rparr>;
        ret (map_option (\<lambda>(o1, err). (Some o1, err)) ran)
      })"

definition Begin ::
  "('s, 'x, 'w) Dispatcher \<Rightarrow> Origin \<Rightarrow> Job \<Rightarrow> ('s, 'x, 'w, Origin \<times> goerror option) M" where
  "Begin d origin j =
     do {
       (let origin = origin\<lparr>or_Job := job_Name j\<rparr> in do {
          (minted, err) \<leftarrow> (if or_Dispatch origin = 0 then ext (env (d_newID d))
                           else ret (or_Dispatch origin, None));
          (case err of
             Some e \<Rightarrow> ret (origin, Some (Internal (Formatted ''generating a dispatch id: %w'' [] [e])))
           | None \<Rightarrow>
               (let origin = origin\<lparr>or_Dispatch := minted\<rparr> in do {
                  t \<leftarrow> ext (now d);
                  err \<leftarrow> on_executions (x_CreateDispatch (d_executions d)
                    \<lparr>dis_ID = or_Dispatch origin, dis_Namespace = or_Namespace origin, dis_Job = job_Name j,
                     dis_JobVersion = or_JobVersion origin, dis_Tasks = int (length (job_Tasks j)),
                     dis_State = DispatchRunning, dis_Error = [], dis_Owner = d_owner d,
                     dis_LeaseUntil = t + d_leaseTTL d, dis_Created = t, dis_Ended = 0\<rparr>);
                  (case err of
                     Some e \<Rightarrow> ret (origin, Some (Formatted ''recording dispatch %s: %w'' [I (or_Dispatch origin)] [e]))
                   | None \<Rightarrow> ret (origin, None))
                }))
        })
     }"

definition end_dispatch ::
  "('s, 'x, 'w) Dispatcher \<Rightarrow> Origin \<Rightarrow> DispatchState \<Rightarrow> string \<Rightarrow> ('s, 'x, 'w, unit) M" where
  "end_dispatch d origin st1 reason =
     do {
       taken \<leftarrow> ext (env (\<lambda>w. (d_taken d w, w)));
       (if taken then ret ()
        else do {
          t \<leftarrow> ext (now d);
          err \<leftarrow> on_executions (x_FinishDispatch (d_executions d)
            \<lparr>dis_ID = or_Dispatch origin, dis_Namespace = or_Namespace origin, dis_Job = or_Job origin,
             dis_JobVersion = or_JobVersion origin, dis_Tasks = 0, dis_State = st1, dis_Error = reason,
             dis_Owner = d_owner d, dis_LeaseUntil = 0, dis_Created = 0, dis_Ended = t\<rparr>);
          ret ()
        })
     }"

definition finish_state ::
  "('s, 'x, 'w) Dispatcher \<Rightarrow> JobOutcome \<Rightarrow> goerror option \<Rightarrow> DispatchState \<times> string" where
  "finish_state d outcome runErr =
     (case runErr of
        Some e \<Rightarrow> (DispatchUnanswered, d_render d e)
      | None \<Rightarrow> if JobOutcome_Succeeded outcome then (DispatchSucceeded, []) else (DispatchFailed, []))"

definition Finish ::
  "('s, 'x, 'w) Dispatcher \<Rightarrow> Origin \<Rightarrow> JobOutcome \<Rightarrow> goerror option \<Rightarrow> ('s, 'x, 'w, unit) M" where
  "Finish d origin outcome runErr =
     (case finish_state d outcome runErr of (st1, reason) \<Rightarrow> end_dispatch d origin st1 reason)"

text \<open>One renewal of a held lease, and whether it found the dispatch taken over or over.\<close>

definition renew :: "('s, 'x, 'w) Dispatcher \<Rightarrow> ID \<Rightarrow> ('s, 'x, 'w, goerror option) M" where
  "renew d i =
     do {
       t \<leftarrow> ext (now d);
       on_executions (x_RenewDispatch (d_executions d) i (d_owner d) (t + d_leaseTTL d))
     }"

definition renewal_lost :: "goerror option \<Rightarrow> bool" where
  "renewal_lost err = (case err of None \<Rightarrow> False | Some e \<Rightarrow> err_is ErrStale e)"

end
