(* ===== verification/Reconcile.thy ===== *)
theory Reconcile
  imports Dispatch
begin

text \<open>
  \<^verbatim>\<open>internal/dispatch\<close>, after a run: resuming a claimed dispatch, resolving stale
  reservations by asking their providers, and releasing what providers still hold for
  executions that are over.
\<close>

section \<open>Resuming\<close>

text \<open>\<open>resume\<close> leaves the record where the execution ended.\<close>

definition resume :: "('s, 'x, 'w) Dispatcher \<Rightarrow> Record \<Rightarrow> ('s, 'x, 'w, Record option) M" where
  "resume d rec =
     (case d_provider d (rec_Provider rec) of
        None \<Rightarrow> do {
          rec \<leftarrow> track_failed d (Internal (Formatted ''%w: %s'' [S (rec_Provider rec)] [Sentinel ErrNoProvider])) rec;
          ret (Some rec)
        }
      | Some p \<Rightarrow> do {
          (st1, err) \<leftarrow> ext (status d p (st_ID rec));
          (case err of
             Some e \<Rightarrow> do { rec \<leftarrow> track_failed d (Infrastructure e) rec; ret (Some rec) }
           | None \<Rightarrow> do {
               rec \<leftarrow> (if st_State rec = StatePending then track_to d StateSubmitted rec else ret rec);
               followed \<leftarrow> follow d p
                 \<lparr>ev_Task = rec_Task rec, ev_Provider = rec_Provider rec, ev_ID = st_ID rec,
                  ev_State = st_State st1, ev_Attempt = rec_Attempt rec\<rparr> rec;
               (case followed of
                  None \<Rightarrow> ret None
                | Some (ended, err, rec) \<Rightarrow> do {
                    charge d rec (an_result ended);
                    ret (Some rec)
                  })
             })
        })"

datatype Reason_text =
    NoReason
  | BeforeAnyTask
  | AfterTasks nat int
  | ExecutionEnded ID State

definition ended :: "int \<Rightarrow> Record list \<Rightarrow> DispatchState \<times> Reason_text" where
  "ended tasks records =
     (if records = [] then (DispatchUnanswered, BeforeAnyTask)
      else
        (let ran_tasks = card (rec_Task ` set records);
             final = last records;
             got_answer = (st_State final = StateSucceeded \<or> st_State final = StateFailed) \<and>
               rec_Result final \<noteq> None \<and> rec_Failure final = []
         in if got_answer \<and> st_State final = StateSucceeded \<and> tasks \<le> int ran_tasks
            then (DispatchSucceeded, NoReason)
            else if got_answer \<and> st_State final = StateSucceeded
            then (DispatchUnanswered, AfterTasks ran_tasks tasks)
            else if got_answer then (DispatchFailed, NoReason)
            else (DispatchUnanswered, ExecutionEnded (st_ID final) (st_State final))))"

fun resume_loop ::
  "('s, 'x, 'w) Dispatcher \<Rightarrow> Record list \<Rightarrow> ('s, 'x, 'w, Record list option) M" where
  "resume_loop d [] = ret (Some [])"
| "resume_loop d (rec # records) =
     do {
       resumed \<leftarrow> (if \<not> Status_Terminal rec then resume d rec else ret (Some rec));
       (case resumed of
          None \<Rightarrow> ret None
        | Some rec \<Rightarrow> do {
            rest \<leftarrow> resume_loop d records;
            ret (map_option (\<lambda>rs. rec # rs) rest)
          })
     }"

text \<open>\<open>text_of\<close> renders the reason of a verdict.\<close>

definition Resume ::
  "(Reason_text \<Rightarrow> string) \<Rightarrow> ('s, 'x, 'w) Dispatcher \<Rightarrow> Dispatch
    \<Rightarrow> ('s, 'x, 'w, (DispatchState \<times> Reason_text \<times> goerror option) option) M" where
  "Resume text_of d claimed =
     (let origin = \<lparr>or_Namespace = dis_Namespace claimed, or_Job = dis_Job claimed,
                    or_JobVersion = dis_JobVersion claimed, or_Dispatch = dis_ID claimed\<rparr> in
      do {
        read \<leftarrow> on_executions (\<lambda>x. (x_DispatchExecutions (d_executions d) (dis_ID claimed) x, x));
        (case read of
           Inl e \<Rightarrow> ret (Some ([], NoReason,
             Some (Formatted ''reading executions of dispatch %s: %w'' [I (dis_ID claimed)] [e])))
         | Inr records \<Rightarrow> do {
             resumed \<leftarrow> resume_loop d records;
             (case resumed of
                None \<Rightarrow> ret None
              | Some records \<Rightarrow>
                  (case ended (dis_Tasks claimed) records of
                     (st1, reason) \<Rightarrow> do {
                       end_dispatch d origin st1 (text_of reason);
                       ret (Some (st1, reason, None))
                     }))
           })
      })"

section \<open>Reaping reservations\<close>

definition resolve :: "('s, 'x, 'w) Dispatcher \<Rightarrow> Held \<Rightarrow> ('w, Verdict \<times> Duration) E" where
  "resolve d h =
     (case d_provider d (held_Provider h) of
        None \<Rightarrow> ret (Keep, 0)
      | Some p \<Rightarrow> do {
          (st1, err) \<leftarrow> status d p (held_ID h);
          ret (if (case err of None \<Rightarrow> False | Some e \<Rightarrow> err_is ErrUnknownExecution e) then (Drop, 0)
               else if (case err of None \<Rightarrow> False | Some e \<Rightarrow> err_is ErrUnsupported e) then (Stand, 0)
               else if err \<noteq> None \<or> \<not> State_Terminal (st_State st1) then (Keep, 0)
               else if Time_IsZero (st_StartedAt st1) then (Finished, 0)
               else if Time_IsZero (st_EndedAt st1) then (Stand, 0)
               else (Finished, Time_Sub (st_EndedAt st1) (st_StartedAt st1)))
        })"

definition Dispatcher_Reap ::
  "('s, 'x, 'w) Dispatcher \<Rightarrow> ('s, 'x, 'w, int \<times> goerror option) M" where
  "Dispatcher_Reap d =
     do {
       t \<leftarrow> ext (now d);
       State (\<lambda>s. case Ledger_Reap (d_store d) (w_led s) (\<lambda>h. run_state (resolve d h)) t (w_store s) (w_ext s) of
          ((err, reaped), st1, x) \<Rightarrow>
            ((reaped, map_option ledger_goerror err), s\<lparr>w_store := st1, w_ext := x\<rparr>))
     }"

section \<open>Releasing leftovers\<close>

definition ReleaseAfter :: Duration where "ReleaseAfter = 10 * Minute"

definition resolveLost ::
  "('s, 'x, 'w) Dispatcher \<Rightarrow> Record \<Rightarrow> State \<Rightarrow> Result option \<Rightarrow> ('s, 'x, 'w, goerror option \<times> Record) M" where
  "resolveLost d rec st1 result =
     do {
       t \<leftarrow> ext (now d);
       (case Status_To st1 t (rec\<lparr>rec_Result := Bounded result\<rparr>) of
          Inl e \<Rightarrow> ret (Some (Formatted ''resolving lost %s: %w'' [I (st_ID rec)]
            [transition_error e]), rec)
        | Inr resolved \<Rightarrow> do {
            ext (record_call (CallUpdate (st_ID rec) StateLost st1));
            err \<leftarrow> on_executions (x_Update (d_executions d) resolved StateLost);
            (case err of
               Some e \<Rightarrow> ret (Some (Formatted ''recording lost %s as %s: %w'' [I (st_ID rec), S st1] [e]), rec)
             | None \<Rightarrow> ret (None, resolved))
          })
     }"

definition expire_lost ::
  "('s, 'x, 'w) Dispatcher \<Rightarrow> Record \<Rightarrow> goerror option \<Rightarrow> ('s, 'x, 'w, goerror option \<times> Record) M" where
  "expire_lost d rec err =
     do {
       t \<leftarrow> ext (now d);
       (if LostExpired rec t then resolveLost d rec StateFailed None
        else case err of
          Some e \<Rightarrow> ret (Some (Formatted ''reconciling lost %s on %s: %w'' [I (st_ID rec), S (rec_Provider rec)] [e]), rec)
        | None \<Rightarrow> ret (None, rec))
     }"

definition reconcileLost ::
  "('s, 'x, 'w) Dispatcher \<Rightarrow> Record \<Rightarrow> ('s, 'x, 'w, goerror option \<times> Record) M" where
  "reconcileLost d rec =
     (case d_provider d (rec_Provider rec) of
        None \<Rightarrow> resolveLost d rec StateFailed None
      | Some p \<Rightarrow> do {
          (st1, err) \<leftarrow> ext (status d p (st_ID rec));
          (case err of
             Some e \<Rightarrow>
               if err_is ErrUnknownExecution e then resolveLost d rec StateFailed None
               else expire_lost d rec (Some e)
           | None \<Rightarrow>
               if State_Terminal (st_State st1) then do {
                 (result, resultErr) \<leftarrow> ext (fetch_result d p (st_ID rec));
                 (case resultErr of
                    None \<Rightarrow> resolveLost d rec (st_State st1) result
                  | Some e \<Rightarrow> expire_lost d rec (Some e))
               }
               else expire_lost d rec None)
        })"

definition markReleased :: "('s, 'x, 'w) Dispatcher \<Rightarrow> ID \<Rightarrow> ('s, 'x, 'w, goerror option) M" where
  "markReleased d i =
     do {
       t \<leftarrow> ext (now d);
       err \<leftarrow> on_executions (x_MarkReleased (d_executions d) i t);
       ret (map_option (\<lambda>e. Formatted ''marking %s released: %w'' [I i] [e]) err)
     }"

text \<open>The call to the provider's releaser, once the execution is known to be over.\<close>

definition release_call ::
  "('s, 'x, 'w) Dispatcher \<Rightarrow> 'w Provider \<Rightarrow> (ID \<Rightarrow> 'w \<Rightarrow> goerror option \<times> 'w) \<Rightarrow> Record
    \<Rightarrow> ('s, 'x, 'w, bool \<times> goerror option) M" where
  "release_call d p rel rec =
     do {
       err \<leftarrow> ext (authorizedErr d p (effect (CallRelease (p_Name p) (st_ID rec)) (rel (st_ID rec))));
       (case err of
          Some e \<Rightarrow>
            if \<not> err_is ErrUnknownExecution e
            then ret (False, Some (Formatted ''releasing %s on %s: %w'' [I (st_ID rec), S (rec_Provider rec)] [e]))
            else do { err \<leftarrow> markReleased d (st_ID rec); ret (True, err) }
        | None \<Rightarrow> do { err \<leftarrow> markReleased d (st_ID rec); ret (True, err) })
     }"

definition release_over ::
  "('s, 'x, 'w) Dispatcher \<Rightarrow> Record \<Rightarrow> ('s, 'x, 'w, bool \<times> goerror option) M" where
  "release_over d rec =
     (case d_provider d (rec_Provider rec) of
        None \<Rightarrow> do { err \<leftarrow> markReleased d (st_ID rec); ret (True, err) }
      | Some p \<Rightarrow>
          (case p_Release p of
             None \<Rightarrow> do { err \<leftarrow> markReleased d (st_ID rec); ret (True, err) }
           | Some rel \<Rightarrow>
               if rec_Result rec = None then do {
                 (st1, err) \<leftarrow> ext (status d p (st_ID rec));
                 (case err of
                    Some e \<Rightarrow>
                      if err_is ErrUnknownExecution e
                      then do { err \<leftarrow> markReleased d (st_ID rec); ret (True, err) }
                      else ret (False, Some (Formatted ''status of %s on %s: %w''
                        [I (st_ID rec), S (rec_Provider rec)] [e]))
                  | None \<Rightarrow>
                      if \<not> State_Terminal (st_State st1) then ret (False, None)
                      else release_call d p rel rec)
               }
               else release_call d p rel rec))"

definition releaseLeftover ::
  "('s, 'x, 'w) Dispatcher \<Rightarrow> Record \<Rightarrow> ('s, 'x, 'w, bool \<times> goerror option) M" where
  "releaseLeftover d rec =
     do {
       (err, rec) \<leftarrow> (if st_State rec = StateLost then reconcileLost d rec else ret (None, rec));
       (case err of
          Some e \<Rightarrow> ret (False, Some e)
        | None \<Rightarrow>
            if st_State rec = StateLost then ret (False, None)
            else do {
              reserved \<leftarrow> on_store (\<lambda>l s. (Ledger_Reserved (d_store d) (st_ID rec) s, s));
              (case reserved of
                 Inl e \<Rightarrow> ret (False, Some e)
               | Inr b \<Rightarrow> if b then ret (False, None) else release_over d rec)
            })
     }"

fun ReleaseLeftovers_loop ::
  "('s, 'x, 'w) Dispatcher \<Rightarrow> Record list \<Rightarrow> int \<Rightarrow> goerror list \<Rightarrow> ('s, 'x, 'w, int \<times> goerror list) M" where
  "ReleaseLeftovers_loop d [] released errs = ret (released, errs)"
| "ReleaseLeftovers_loop d (rec # records) released errs =
     do {
       (done, err) \<leftarrow> releaseLeftover d rec;
       (case err of
          Some e \<Rightarrow> ReleaseLeftovers_loop d records released (errs @ [e])
        | None \<Rightarrow> ReleaseLeftovers_loop d records (if done then released + 1 else released) errs)
     }"

definition ReleaseLeftovers :: "('s, 'x, 'w) Dispatcher \<Rightarrow> ('s, 'x, 'w, int \<times> goerror option) M" where
  "ReleaseLeftovers d =
     do {
       t \<leftarrow> ext (now d);
       listed \<leftarrow> on_executions (\<lambda>x. (x_Unreleased (d_executions d) (t - ReleaseAfter) x, x));
       (case listed of
          Inl e \<Rightarrow> ret (0, Some (Formatted ''listing unreleased executions: %w'' [] [e]))
        | Inr records \<Rightarrow> do {
            (released, errs) \<leftarrow> ReleaseLeftovers_loop d records 0 [];
            ret (released, if errs = [] then None else Some (Joined errs))
          })
     }"

end
