(* ===== verification/Server.thy ===== *)
theory Server
  imports Api Jobspec Reconcile
begin

text \<open>
  \<^verbatim>\<open>internal/server\<close>: the handlers of the API, what they keep, and the tasks the server repeats.  A handler
  answers a body or an error that maps to a status.  A run started in the background is an entry of
  \<open>sg_started\<close> until \<open>background\<close> takes it to its end, whenever that is; \<open>sg_running\<close> is the key set of the
  map of cancel functions.  The stores are records of functions, of which the memory stores are one
  implementation; JSON, the identifiers and the HCL library are parameters.
\<close>

section \<open>Collaborators\<close>

record 'x ServerExecutions = "'x Executions" +
  x_GetDispatch :: "ID \<Rightarrow> 'x \<Rightarrow> goerror + Dispatch"
  x_Get :: "ID \<Rightarrow> 'x \<Rightarrow> goerror + Record"
  x_ClaimDispatches :: "string \<Rightarrow> Time \<Rightarrow> Time \<Rightarrow> ID list \<Rightarrow> 'x \<Rightarrow> (goerror + Dispatch list) \<times> 'x"
  x_Ping :: "'x \<Rightarrow> goerror option"

record ('j, 'x) ServerJobs =
  j_Job :: "string \<Rightarrow> string \<Rightarrow> 'j \<Rightarrow> goerror + JobStanding"
  j_Version :: "string \<Rightarrow> string \<Rightarrow> int \<Rightarrow> 'j \<Rightarrow> goerror + Version"
  j_Register :: "string \<Rightarrow> string \<Rightarrow> string \<Rightarrow> Time \<Rightarrow> 'j \<Rightarrow> (goerror + int \<times> bool) \<times> 'j"
  j_Jobs :: "string \<Rightarrow> 'j \<Rightarrow> goerror + JobStanding list"
  j_Versions :: "string \<Rightarrow> string \<Rightarrow> 'j \<Rightarrow> goerror + Version list"
  j_Stop :: "string \<Rightarrow> string \<Rightarrow> Time \<Rightarrow> 'j \<Rightarrow> goerror option \<times> 'j"
  j_JobExecutions :: "string \<Rightarrow> string \<Rightarrow> nat \<Rightarrow> 'j \<Rightarrow> 'x \<Rightarrow> goerror + Record list"

text \<open>What the JSON decoder makes of the bytes a bounded body delivers, and whether it was cut short.\<close>

record JsonDecoder =
  jd_Register :: "string \<Rightarrow> bool \<Rightarrow> string + RegisterRequest"
  jd_Dispatch :: "string \<Rightarrow> bool \<Rightarrow> string + DispatchRequest"
  jd_Run :: "string \<Rightarrow> bool \<Rightarrow> string + RunRequest"
  jd_Plan :: "string \<Rightarrow> bool \<Rightarrow> string + PlanRequest"

text \<open>
  \<open>sv_dispatch\<close> holds what the dispatcher is given by its own options; \<open>sv_cancel\<close> is what calling a run's
  cancel function does to the world, \<open>sv_diagnostic\<close> the diagnostic behind an error of a task's image, and
  \<open>sv_refresh\<close> the registry's refresh.
\<close>

record ('s, 'x, 'j, 'w) Server =
  sv_HasNamespace :: "string \<Rightarrow> bool"
  sv_refresh :: "'w \<Rightarrow> goerror option \<times> 'w"
  sv_executions :: "'x ServerExecutions"
  sv_jobs :: "('j, 'x) ServerJobs"
  sv_dispatch :: "('s, 'x, 'w) Dispatcher"
  sv_owner :: string
  sv_leaseTTL :: Duration
  sv_leaseRenew :: Duration
  sv_claimEvery :: Duration
  sv_tiers :: TierMode
  sv_cancel :: "ID \<Rightarrow> 'w \<Rightarrow> 'w"
  sv_hcl :: Hcl
  sv_decode :: Decode
  sv_json :: JsonDecoder
  sv_uuid :: UUID
  sv_fmt :: Fmt
  sv_range :: "HclRange \<Rightarrow> string"
  sv_diagnostic :: "goerror \<Rightarrow> Diagnostic"
  sv_reason :: "Reason_text \<Rightarrow> string"
  sv_address :: "Session \<Rightarrow> string"
  sv_identity :: "Session \<Rightarrow> string"

text \<open>The dispatcher records to the server's executions, and holds leases as the server.\<close>

definition dispatcher :: "('s, 'x, 'j, 'w) Server \<Rightarrow> ('s, 'x, 'w) Dispatcher" where
  "dispatcher sv =
     (sv_dispatch sv)\<lparr>d_executions := Executions.truncate (sv_executions sv), d_owner := sv_owner sv,
       d_leaseTTL := sv_leaseTTL sv, d_tiers := sv_tiers sv\<rparr>"

text \<open>The defaults, the options a server is built with, and the options themselves.\<close>

definition LeaseTTL :: Duration where "LeaseTTL = 60 * Second"
definition LeaseRenew :: Duration where "LeaseRenew = 20 * Second"
definition claimInterval :: Duration where "claimInterval = 30 * Second"

definition ProcessOwner :: "string option \<Rightarrow> int \<Rightarrow> string \<Rightarrow> string" where
  "ProcessOwner host pid role =
     role @ '':'' @ (case host of None \<Rightarrow> ''unknown'' | Some name \<Rightarrow> name) @ '':'' @ Itoa pid"

type_synonym ('s, 'x, 'j, 'w) ServerOption = "('s, 'x, 'j, 'w) Server \<Rightarrow> ('s, 'x, 'j, 'w) Server"

definition WithOwner :: "string \<Rightarrow> ('s, 'x, 'j, 'w) ServerOption" where
  "WithOwner owner sv = sv\<lparr>sv_owner := owner\<rparr>"

definition WithLeases :: "Duration \<Rightarrow> Duration \<Rightarrow> Duration \<Rightarrow> ('s, 'x, 'j, 'w) ServerOption" where
  "WithLeases ttl renewal claims sv = sv\<lparr>sv_leaseTTL := ttl, sv_leaseRenew := renewal, sv_claimEvery := claims\<rparr>"

definition WithTierMode :: "TierMode \<Rightarrow> ('s, 'x, 'j, 'w) ServerOption" where
  "WithTierMode mode sv = sv\<lparr>sv_tiers := mode\<rparr>"

definition Server_New ::
  "string option \<Rightarrow> int \<Rightarrow> ('s, 'x, 'j, 'w) Server \<Rightarrow> ('s, 'x, 'j, 'w) ServerOption list \<Rightarrow> ('s, 'x, 'j, 'w) Server" where
  "Server_New host pid given opts =
     fold (\<lambda>opt sv. opt sv) opts
       (given\<lparr>sv_owner := ProcessOwner host pid ''server'', sv_leaseTTL := LeaseTTL, sv_leaseRenew := LeaseRenew,
          sv_claimEvery := claimInterval, sv_tiers := []\<rparr>)"

datatype Started = Launched Origin Job EvalContext | Resumed Dispatch

fun started_ID :: "Started \<Rightarrow> ID" where
  "started_ID (Launched origin j eval) = or_Dispatch origin"
| "started_ID (Resumed d) = dis_ID d"

text \<open>A server starts with nothing running and the node connections it is given, or none.\<close>

record ('s, 'x, 'j, 'w) Serving =
  sg_world :: "('s, 'x, 'w) World"
  sg_store :: 'j
  sg_running :: "ID list"
  sg_started :: "Started list"
  sg_conns :: Conns

definition NewServing :: "('s, 'x, 'w) World \<Rightarrow> 'j \<Rightarrow> Conns option \<Rightarrow> ('s, 'x, 'j, 'w) Serving" where
  "NewServing w jobs conns =
     \<lparr>sg_world = w, sg_store = jobs, sg_running = [], sg_started = [],
      sg_conns = (case conns of None \<Rightarrow> NewConns | Some c \<Rightarrow> c)\<rparr>"

type_synonym ('s, 'x, 'j, 'w, 'a) H = "(('s, 'x, 'j, 'w) Serving, 'a) state"

section \<open>Errors\<close>

text \<open>A handler that panics is answered by nobody: the HTTP server drops the connection.\<close>

datatype HandlerError = StatusError int ApiError | PlainError goerror | Panicked

datatype Body =
    RegisterBody RegisterResponse
  | JobsBody "ApiJob list"
  | JobStatusBody ApiJobStatus
  | JobBody ApiJob
  | DispatchedBody DispatchResponse
  | DispatchBody ApiDispatch
  | PlanBody ApiPlan
  | ExecutionBody ApiExecution
  | NodesBody "NodeListStub list"
  | ProvidersBody ProviderList
  | HealthBody ApiHealth
  | LogsBody string
  | ErrorBody ApiError

definition StatusOK :: int where [vocab]: "StatusOK = 200"
definition StatusBadRequest :: int where [vocab]: "StatusBadRequest = 400"
definition StatusNotFound :: int where [vocab]: "StatusNotFound = 404"
definition StatusConflict :: int where [vocab]: "StatusConflict = 409"
definition StatusInternalServerError :: int where [vocab]: "StatusInternalServerError = 500"
definition StatusServiceUnavailable :: int where [vocab]: "StatusServiceUnavailable = 503"

definition ErrUnavailable :: string where [vocab]: "ErrUnavailable = ''the store is unreachable''"

definition api_error :: "('s, 'x, 'j, 'w) Server \<Rightarrow> goerror \<Rightarrow> ApiError" where
  "api_error sv err = \<lparr>ae_Error = err_text (sv_fmt sv) err, ae_Diagnostics = []\<rparr>"

definition badRequest :: "('s, 'x, 'j, 'w) Server \<Rightarrow> goerror \<Rightarrow> HandlerError" where
  "badRequest sv err = StatusError StatusBadRequest (api_error sv err)"

definition invalidJob :: "('s, 'x, 'j, 'w) Server \<Rightarrow> Diagnostic list \<Rightarrow> HandlerError" where
  "invalidJob sv diags =
     StatusError StatusBadRequest
       \<lparr>ae_Error = ''the job is not valid'',
        ae_Diagnostics = map (\<lambda>d. \<lparr>adg_Severity = (if dg_Error d then ''error'' else ''warning''),
          adg_Summary = dg_Summary d, adg_Detail = dg_Detail d,
          adg_Range = (case dg_Subject d of None \<Rightarrow> [] | Some r \<Rightarrow> sv_range sv r)\<rparr>) diags\<rparr>"

definition failure :: "('s, 'x, 'j, 'w) Server \<Rightarrow> HandlerError \<Rightarrow> (int \<times> ApiError) option" where
  "failure sv err =
     (case err of
        Panicked \<Rightarrow> None
      | StatusError code body \<Rightarrow> Some (code, body)
      | PlainError e \<Rightarrow>
          if err_is ErrNotRegistered e \<or> err_is ErrNotFoundExecution e then Some (StatusNotFound, api_error sv e)
          else if err_is ErrStopped e \<or> err_is ErrStale e then Some (StatusConflict, api_error sv e)
          else if err_is ErrUnavailable e then Some (StatusServiceUnavailable, api_error sv e)
          else Some (StatusInternalServerError, api_error sv e))"

section \<open>Requests\<close>

record ServerRequest =
  sr_Namespace :: string
  sr_Name :: string
  sr_ID :: string
  sr_Body :: string

definition maxBody :: nat where "maxBody = 1048576"

definition decode :: "('s, 'x, 'j, 'w) Server \<Rightarrow> (string \<Rightarrow> bool \<Rightarrow> string + 'r) \<Rightarrow> ServerRequest \<Rightarrow> HandlerError + 'r" where
  "decode sv json r =
     (case json (take maxBody (sr_Body r)) (maxBody < length (sr_Body r)) of
        Inl err \<Rightarrow> Inl (badRequest sv (Formatted ''reading the request body: %w'' [] [Sentinel err]))
      | Inr v \<Rightarrow> Inr v)"

definition no_job :: Job where
  "no_job =
     \<lparr>job_Name = [], job_Namespace = None, job_Type = None, job_Meta = None, job_Parameterized = None,
      job_Routing = None, job_Tasks = []\<rparr>"

definition request_namespace :: "('s, 'x, 'j, 'w) Server \<Rightarrow> ServerRequest \<Rightarrow> Job option \<Rightarrow> HandlerError + string" where
  "request_namespace sv r j =
     (case Namespace (sr_Namespace r) (case j of None \<Rightarrow> no_job | Some j \<Rightarrow> j) (sv_HasNamespace sv) of
        Inl err \<Rightarrow> Inl (badRequest sv err)
      | Inr ns \<Rightarrow> Inr ns)"

definition executionID :: "('s, 'x, 'j, 'w) Server \<Rightarrow> ServerRequest \<Rightarrow> HandlerError + ID" where
  "executionID sv r =
     (case ParseID (sv_uuid sv) (sr_ID r) of Inl err \<Rightarrow> Inl (badRequest sv err) | Inr i \<Rightarrow> Inr i)"

section \<open>Steps of a handler\<close>

definition in_world :: "('s, 'x, 'w, 'a) M \<Rightarrow> ('s, 'x, 'j, 'w, 'a) H" where
  "in_world m = State (\<lambda>s. case run_state m (sg_world s) of (a, w) \<Rightarrow> (a, s\<lparr>sg_world := w\<rparr>))"

definition on_jobs :: "('j \<Rightarrow> 'a \<times> 'j) \<Rightarrow> ('s, 'x, 'j, 'w, 'a) H" where
  "on_jobs f = State (\<lambda>s. case f (sg_store s) of (a, j) \<Rightarrow> (a, s\<lparr>sg_store := j\<rparr>))"

definition read_serving :: "(('s, 'x, 'j, 'w) Serving \<Rightarrow> 'a) \<Rightarrow> ('s, 'x, 'j, 'w, 'a) H" where
  "read_serving f = State (\<lambda>s. (f s, s))"

definition change_serving :: "(('s, 'x, 'j, 'w) Serving \<Rightarrow> ('s, 'x, 'j, 'w) Serving) \<Rightarrow> ('s, 'x, 'j, 'w, unit) H" where
  "change_serving f = State (\<lambda>s. ((), f s))"

text \<open>The rest of a handler, unless there was an error to return.\<close>

definition checked :: "'e + 'a \<Rightarrow> ('a \<Rightarrow> ('s, 'e + 'b) state) \<Rightarrow> ('s, 'e + 'b) state" where
  "checked r k = (case r of Inl err \<Rightarrow> ret (Inl err) | Inr a \<Rightarrow> k a)"

definition plain_error :: "goerror + 'a \<Rightarrow> HandlerError + 'a" where
  "plain_error r = map_sum PlainError id r"

definition server_now :: "('s, 'x, 'j, 'w) Server \<Rightarrow> ('s, 'x, 'j, 'w, Time) H" where
  "server_now sv = in_world (ext (now (dispatcher sv)))"

text \<open>A job that loaded without errors; the code would panic on a file without one.\<close>

definition first_job :: "Parsed option \<Rightarrow> Job option" where
  "first_job parsed =
     (case parsed of
        None \<Rightarrow> None
      | Some p \<Rightarrow> (case ps_Spec p of None \<Rightarrow> None | Some spec \<Rightarrow> (case file_Jobs spec of [] \<Rightarrow> None | j # js \<Rightarrow> Some j)))"

datatype Loaded = Valid Job | Invalid "Diagnostic list" | Panics

definition loaded :: "Parsed option \<times> Diagnostic list \<Rightarrow> Loaded" where
  "loaded result =
     (case result of (parsed, diags) \<Rightarrow>
        if HasErrors diags then Invalid diags
        else case first_job parsed of None \<Rightarrow> Panics | Some j \<Rightarrow> Valid j)"

definition loaded_job :: "('s, 'x, 'j, 'w) Server \<Rightarrow> Parsed option \<times> Diagnostic list \<Rightarrow> HandlerError + Job" where
  "loaded_job sv result =
     (case loaded result of Valid j \<Rightarrow> Inr j | Invalid diags \<Rightarrow> Inl (invalidJob sv diags) | Panics \<Rightarrow> Inl Panicked)"

section \<open>Job routes\<close>

definition statusExecutions :: nat where "statusExecutions = 20"

definition registerJob :: "('s, 'x, 'j, 'w) Server \<Rightarrow> ServerRequest \<Rightarrow> ('s, 'x, 'j, 'w, HandlerError + Body) H" where
  "registerJob sv r =
     checked (decode sv (jd_Register (sv_json sv)) r) (\<lambda>req.
     checked (loaded_job sv (ForRegister (sv_hcl sv) (sv_decode sv) ''job'' (rgq_Source req))) (\<lambda>j.
     checked (request_namespace sv r (Some j)) (\<lambda>ns. do {
       t \<leftarrow> server_now sv;
       registered \<leftarrow> on_jobs (j_Register (sv_jobs sv) ns (job_Name j) (rgq_Source req) t);
       checked (plain_error registered) (\<lambda>(version, changed). ret (Inr (RegisterBody
         \<lparr>rgr_Namespace = ns, rgr_Name = job_Name j, rgr_Version = version, rgr_Changed = changed\<rparr>)))
     })))"

definition listJobs :: "('s, 'x, 'j, 'w) Server \<Rightarrow> ServerRequest \<Rightarrow> ('s, 'x, 'j, 'w, HandlerError + Body) H" where
  "listJobs sv r =
     checked (request_namespace sv r None) (\<lambda>ns. do {
       all \<leftarrow> read_serving (\<lambda>s. j_Jobs (sv_jobs sv) ns (sg_store s));
       checked (plain_error all) (\<lambda>js. ret (Inr (JobsBody (map jobOf js))))
     })"

definition jobStatus :: "('s, 'x, 'j, 'w) Server \<Rightarrow> ServerRequest \<Rightarrow> ('s, 'x, 'j, 'w, HandlerError + Body) H" where
  "jobStatus sv r =
     checked (request_namespace sv r None) (\<lambda>ns. do {
       j \<leftarrow> read_serving (\<lambda>s. j_Job (sv_jobs sv) ns (sr_Name r) (sg_store s));
       checked (plain_error j) (\<lambda>j. do {
         versions \<leftarrow> read_serving (\<lambda>s. j_Versions (sv_jobs sv) ns (sr_Name r) (sg_store s));
         checked (plain_error versions) (\<lambda>versions. do {
           runs \<leftarrow> read_serving (\<lambda>s. j_JobExecutions (sv_jobs sv) ns (sr_Name r) statusExecutions (sg_store s)
             (w_exec (sg_world s)));
           checked (plain_error runs) (\<lambda>runs. ret (Inr (JobStatusBody
             (ApiJob.extend (jobOf j) (ApiJobStatus.fields (map versionOf versions) (executionsOf (sv_uuid sv) runs))))))
         })
       })
     })"

definition stopJob :: "('s, 'x, 'j, 'w) Server \<Rightarrow> ServerRequest \<Rightarrow> ('s, 'x, 'j, 'w, HandlerError + Body) H" where
  "stopJob sv r =
     checked (request_namespace sv r None) (\<lambda>ns. do {
       t \<leftarrow> server_now sv;
       stopped \<leftarrow> on_jobs (j_Stop (sv_jobs sv) ns (sr_Name r) t);
       (case stopped of
          Some err \<Rightarrow> ret (Inl (PlainError err))
        | None \<Rightarrow> do {
            j \<leftarrow> read_serving (\<lambda>s. j_Job (sv_jobs sv) ns (sr_Name r) (sg_store s));
            checked (plain_error j) (\<lambda>j. ret (Inr (JobBody (jobOf j))))
          })
     })"

section \<open>Dispatch routes\<close>

definition track :: "ID \<Rightarrow> ('s, 'x, 'j, 'w, unit) H" where
  "track i = change_serving (\<lambda>s. s\<lparr>sg_running := List.insert i (sg_running s)\<rparr>)"

definition untrack :: "ID \<Rightarrow> ('s, 'x, 'j, 'w, unit) H" where
  "untrack i = change_serving (\<lambda>s. s\<lparr>sg_running := removeAll i (sg_running s)\<rparr>)"

definition runningIDs :: "('s, 'x, 'j, 'w, ID list) H" where
  "runningIDs = read_serving sg_running"

definition stopDispatch :: "('s, 'x, 'j, 'w) Server \<Rightarrow> ID \<Rightarrow> ('s, 'x, 'j, 'w, bool) H" where
  "stopDispatch sv i =
     do {
       running \<leftarrow> runningIDs;
       (if i \<in> set running
        then do { in_world (ext (env (\<lambda>w. ((), sv_cancel sv i w)))); ret True }
        else ret False)
     }"

definition start :: "Started \<Rightarrow> ('s, 'x, 'j, 'w, unit) H" where
  "start st = change_serving (\<lambda>s. s\<lparr>sg_started := sg_started s @ [st]\<rparr>)"

definition launch ::
  "('s, 'x, 'j, 'w) Server \<Rightarrow> Origin \<Rightarrow> Job \<Rightarrow> (string \<times> string) list
    \<Rightarrow> ('s, 'x, 'j, 'w, HandlerError + Body) H" where
  "launch sv origin j meta =
     do {
       (origin, err) \<leftarrow> in_world (Begin (dispatcher sv) origin j);
       (case err of
          Some e \<Rightarrow> ret (Inl (PlainError e))
        | None \<Rightarrow> do {
            track (or_Dispatch origin);
            start (Launched origin j (evalContext meta));
            ret (Inr (DispatchedBody
              \<lparr>dr_Namespace = or_Namespace origin, dr_Job = job_Name j, dr_JobVersion = or_JobVersion origin,
               dr_DispatchID = ID_String (sv_uuid sv) (or_Dispatch origin)\<rparr>))
          })
     }"

text \<open>The current version of a registered job, from any store of jobs.\<close>

definition jobs_Current :: "('j, 'x) ServerJobs \<Rightarrow> string \<Rightarrow> string \<Rightarrow> 'j \<Rightarrow> goerror + Version" where
  "jobs_Current js namespace name s =
     (case j_Job js namespace name s of
        Inl err \<Rightarrow> Inl err
      | Inr j \<Rightarrow>
          if js_Stopped j
          then Inl (Formatted ''%w: %q; register it again to dispatch it'' [S name] [Sentinel ErrStopped])
          else j_Version js namespace name (js_Version j) s)"

definition version_name :: "string \<Rightarrow> Version \<Rightarrow> string" where
  "version_name name v = name @ '' (version '' @ Itoa (v_Version v) @ '')''"

definition registered_job ::
  "('s, 'x, 'j, 'w) Server \<Rightarrow> string \<Rightarrow> Version \<Rightarrow> (string \<times> string) list \<Rightarrow> HandlerError + Job" where
  "registered_job sv name version meta =
     (case ForDispatch (sv_hcl sv) (sv_decode sv) (version_name name version) (v_Source version) meta of
        (parsed, diags, Some err) \<Rightarrow> Inl (badRequest sv err)
      | (parsed, diags, None) \<Rightarrow> loaded_job sv (parsed, diags))"

definition new_origin :: "string \<Rightarrow> int \<Rightarrow> Origin" where
  "new_origin ns version = \<lparr>or_Namespace = ns, or_Job = [], or_JobVersion = version, or_Dispatch = 0\<rparr>"

definition dispatchJob :: "('s, 'x, 'j, 'w) Server \<Rightarrow> ServerRequest \<Rightarrow> ('s, 'x, 'j, 'w, HandlerError + Body) H" where
  "dispatchJob sv r =
     checked (decode sv (jd_Dispatch (sv_json sv)) r) (\<lambda>req.
     checked (request_namespace sv r None) (\<lambda>ns. do {
       version \<leftarrow> read_serving (\<lambda>s. jobs_Current (sv_jobs sv) ns (sr_Name r) (sg_store s));
       checked (plain_error version) (\<lambda>version.
       checked (registered_job sv (sr_Name r) version (dq_Meta req)) (\<lambda>j.
         launch sv (new_origin ns (v_Version version)) j (dq_Meta req)))
     }))"

definition runJob :: "('s, 'x, 'j, 'w) Server \<Rightarrow> ServerRequest \<Rightarrow> ('s, 'x, 'j, 'w, HandlerError + Body) H" where
  "runJob sv r =
     checked (decode sv (jd_Run (sv_json sv)) r) (\<lambda>req.
     checked (loaded_job sv (Load (sv_hcl sv) (sv_decode sv) ''job'' (rnq_Source req) (rnq_Meta req))) (\<lambda>j.
     checked (request_namespace sv r (Some j)) (\<lambda>ns. launch sv (new_origin ns 0) j (rnq_Meta req))))"

definition dispatchStatus :: "('s, 'x, 'j, 'w) Server \<Rightarrow> ServerRequest \<Rightarrow> ('s, 'x, 'j, 'w, HandlerError + Body) H" where
  "dispatchStatus sv r =
     checked (executionID sv r) (\<lambda>i. do {
       d \<leftarrow> read_serving (\<lambda>s. x_GetDispatch (sv_executions sv) i (w_exec (sg_world s)));
       checked (plain_error d) (\<lambda>d. do {
         runs \<leftarrow> read_serving (\<lambda>s. x_DispatchExecutions (sv_executions sv) i (w_exec (sg_world s)));
         checked (plain_error runs) (\<lambda>runs. ret (Inr (DispatchBody (dispatchOf (sv_uuid sv) d runs))))
       })
     })"

text \<open>The goroutine of a run: it takes the run to its end, records that, and forgets it.  The watches of the
  dispatcher's model have fuel; \<open>None\<close> is a run still going when it is spent.\<close>

definition no_job_outcome :: "Origin \<Rightarrow> Job \<Rightarrow> JobOutcome" where
  "no_job_outcome origin j = \<lparr>jo_Job = job_Name j, jo_Dispatch = or_Dispatch origin, jo_Tasks = []\<rparr>"

fun background :: "('s, 'x, 'j, 'w) Server \<Rightarrow> Started \<Rightarrow> ('s, 'x, 'j, 'w, unit option) H" where
  "background sv (Launched origin j eval) =
     do {
       ran \<leftarrow> in_world (Run (dispatcher sv) origin j (Some eval));
       (case ran of
          None \<Rightarrow> ret None
        | Some (outcome, err) \<Rightarrow> do {
            in_world (Finish (dispatcher sv) origin (case outcome of None \<Rightarrow> no_job_outcome origin j | Some o1 \<Rightarrow> o1) err);
            untrack (or_Dispatch origin);
            ret (Some ())
          })
     }"
| "background sv (Resumed d) =
     do {
       resumed \<leftarrow> in_world (Resume (sv_reason sv) (dispatcher sv) d);
       (case resumed of
          None \<Rightarrow> ret None
        | Some finished \<Rightarrow> do { untrack (dis_ID d); ret (Some ()) })
     }"

section \<open>Execution routes\<close>

definition executionStatus :: "('s, 'x, 'j, 'w) Server \<Rightarrow> ServerRequest \<Rightarrow> ('s, 'x, 'j, 'w, HandlerError + Body) H" where
  "executionStatus sv r =
     checked (executionID sv r) (\<lambda>i. do {
       rec \<leftarrow> read_serving (\<lambda>s. x_Get (sv_executions sv) i (w_exec (sg_world s)));
       checked (plain_error rec) (\<lambda>rec. ret (Inr (ExecutionBody (executionOf_record (sv_uuid sv) rec))))
     })"

definition executionLogs :: "('s, 'x, 'j, 'w) Server \<Rightarrow> ServerRequest \<Rightarrow> ('s, 'x, 'j, 'w, HandlerError + Body) H" where
  "executionLogs sv r =
     checked (executionID sv r) (\<lambda>i. do {
       rec \<leftarrow> read_serving (\<lambda>s. x_Get (sv_executions sv) i (w_exec (sg_world s)));
       checked (plain_error rec) (\<lambda>rec. ret (Inr (LogsBody
         (case rec_Result rec of None \<Rightarrow> [] | Some result \<Rightarrow> res_Logs result))))
     })"

text \<open>The error and the record, cancelled or not.\<close>

definition cancelUnwatched :: "('s, 'x, 'j, 'w) Server \<Rightarrow> Record \<Rightarrow> ('s, 'x, 'w, goerror option \<times> Record) M" where
  "cancelUnwatched sv rec =
     (case d_provider (dispatcher sv) (rec_Provider rec) of
        None \<Rightarrow> ret (Some (Formatted ''execution %s ran on %q, which is no longer configured''
          [I (st_ID rec), S (rec_Provider rec)] []), rec)
      | Some p \<Rightarrow> do {
          err \<leftarrow> ext (effect (CallCancel (p_Name p) (st_ID rec)) (p_Cancel p (st_ID rec)));
          (case err of
             Some e \<Rightarrow> ret (Some (Formatted ''cancelling %s on %s: %w'' [I (st_ID rec), S (rec_Provider rec)] [e]), rec)
           | None \<Rightarrow> do {
               t \<leftarrow> ext (now (dispatcher sv));
               (case Status_To StateCancelled t rec of
                  Inl e \<Rightarrow> ret (Some (transition_error e), rec)
                | Inr cancelled \<Rightarrow> do {
                    ext (record_call (CallUpdate (st_ID rec) (st_State rec) StateCancelled));
                    err \<leftarrow> on_executions (x_Update (sv_executions sv) cancelled (st_State rec));
                    ret (case err of
                           None \<Rightarrow> (None, cancelled)
                         | Some e \<Rightarrow> (if \<not> err_is ErrStale e then Some e else None, cancelled))
                  })
             })
        })"

definition cancelExecution :: "('s, 'x, 'j, 'w) Server \<Rightarrow> ServerRequest \<Rightarrow> ('s, 'x, 'j, 'w, HandlerError + Body) H" where
  "cancelExecution sv r =
     checked (executionID sv r) (\<lambda>i. do {
       rec \<leftarrow> read_serving (\<lambda>s. x_Get (sv_executions sv) i (w_exec (sg_world s)));
       checked (plain_error rec) (\<lambda>rec. do {
         over \<leftarrow> (if Status_Terminal rec then ret True else stopDispatch sv (rec_Dispatch rec));
         (if over then ret (Inr (ExecutionBody (executionOf_record (sv_uuid sv) rec)))
          else do {
            (err, rec) \<leftarrow> in_world (cancelUnwatched sv rec);
            ret (case err of
                   Some e \<Rightarrow> Inl (PlainError e)
                 | None \<Rightarrow> Inr (ExecutionBody (executionOf_record (sv_uuid sv) rec)))
          })
       })
     })"

section \<open>Plans\<close>

definition planned :: "('s, 'x, 'j, 'w) Server \<Rightarrow> ServerRequest \<Rightarrow> PlanRequest \<Rightarrow> ('s, 'x, 'j, 'w, HandlerError + Job \<times> string) H" where
  "planned sv r req =
     (if plq_Source req \<noteq> [] \<and> plq_Name req \<noteq> []
      then ret (Inl (badRequest sv (Sentinel ''a plan names a Source or a Name, not both'')))
      else if plq_Name req \<noteq> [] then
        checked (request_namespace sv r None) (\<lambda>ns. do {
          version \<leftarrow> read_serving (\<lambda>s. jobs_Current (sv_jobs sv) ns (plq_Name req) (sg_store s));
          checked (plain_error version) (\<lambda>version.
          checked (registered_job sv (plq_Name req) version (plq_Meta req)) (\<lambda>j. ret (Inr (j, ns))))
        })
      else
        checked (loaded_job sv (Load (sv_hcl sv) (sv_decode sv) ''job'' (plq_Source req) (plq_Meta req))) (\<lambda>j.
        checked (request_namespace sv r (Some j)) (\<lambda>ns. ret (Inr (j, ns)))))"

fun plan_tasks ::
  "('s, 'x, 'j, 'w) Server \<Rightarrow> Job \<Rightarrow> EvalContext \<Rightarrow> Input list \<Rightarrow> Task list \<Rightarrow> HandlerError + ApiTaskPlan list" where
  "plan_tasks sv j eval ins [] = Inr []"
| "plan_tasks sv j eval ins (task # tasks) =
     (case NewRequest (d_image (dispatcher sv)) task (job_Routing j) (sv_tiers sv) (Some eval) of
        (req, diags) \<Rightarrow>
          if diags \<noteq> [] then Inl (invalidJob sv (map (sv_diagnostic sv) diags))
          else case plan_tasks sv j eval ins tasks of
              Inl err \<Rightarrow> Inl err
            | Inr plans \<Rightarrow> Inr (taskPlanOf (job_Name j) task (PlanTask req ins) # plans))"

definition planJob :: "('s, 'x, 'j, 'w) Server \<Rightarrow> ServerRequest \<Rightarrow> ('s, 'x, 'j, 'w, HandlerError + Body) H" where
  "planJob sv r =
     checked (decode sv (jd_Plan (sv_json sv)) r) (\<lambda>req. do {
       p \<leftarrow> planned sv r req;
       checked p (\<lambda>(j, ns). do {
         ins \<leftarrow> in_world (inputs (dispatcher sv) ns);
         ret (map_sum id (\<lambda>plans. PlanBody \<lparr>ap_Tasks = plans\<rparr>)
           (plan_tasks sv j (evalContext (plq_Meta req)) ins (job_Tasks j)))
       })
     })"

section \<open>Providers, nodes and health\<close>

definition refreshed_at :: "('s, 'x, 'j, 'w, Time) H" where
  "refreshed_at = read_serving (\<lambda>s. led_refreshed (w_led (sg_world s)))"

definition listProviders :: "('s, 'x, 'j, 'w) Server \<Rightarrow> ServerRequest \<Rightarrow> ('s, 'x, 'j, 'w, HandlerError + Body) H" where
  "listProviders sv r =
     do {
       ins \<leftarrow> in_world (inputs (dispatcher sv) DefaultNamespace);
       t \<leftarrow> refreshed_at;
       ret (Inr (ProvidersBody \<lparr>prl_Refreshed = t, prl_Providers = map providerStub ins\<rparr>))
     }"

definition listNodes :: "('s, 'x, 'j, 'w) Server \<Rightarrow> ServerRequest \<Rightarrow> ('s, 'x, 'j, 'w, HandlerError + Body) H" where
  "listNodes sv r = do {
     conns \<leftarrow> read_serving sg_conns;
     ret (Inr (NodesBody (map nodeStub (Conns_All conns))))
   }"

definition health :: "('s, 'x, 'j, 'w) Server \<Rightarrow> ('s, 'x, 'j, 'w, int \<times> Body) H" where
  "health sv =
     do {
       t \<leftarrow> refreshed_at;
       running \<leftarrow> runningIDs;
       err \<leftarrow> read_serving (\<lambda>s. x_Ping (sv_executions sv) (w_exec (sg_world s)));
       (let out = \<lparr>ah_Store = ''ok'', ah_StoreError = [], ah_UsageRefreshed = t, ah_Running = length running\<rparr> in
        ret (case err of
          None \<Rightarrow> (StatusOK, HealthBody out)
        | Some e \<Rightarrow> (StatusServiceUnavailable,
            HealthBody (out\<lparr>ah_Store := ''unreachable'', ah_StoreError := err_text (sv_fmt sv) e\<rparr>))))
     }"

section \<open>The route table\<close>

datatype Route = RegisterJob | ListJobs | RunJob | PlanJob | JobStatusRoute | StopJob | DispatchJob | DispatchStatus
  | ExecutionStatus | ExecutionLogs | CancelExecution | HealthRoute | ListNodes | ListProviders

fun route_pattern :: "Route \<Rightarrow> string" where
  "route_pattern RegisterJob = ''POST /v1/jobs''"
| "route_pattern ListJobs = ''GET /v1/jobs''"
| "route_pattern RunJob = ''POST /v1/jobs/run''"
| "route_pattern PlanJob = ''POST /v1/jobs/plan''"
| "route_pattern JobStatusRoute = ''GET /v1/job/{name}''"
| "route_pattern StopJob = ''DELETE /v1/job/{name}''"
| "route_pattern DispatchJob = ''POST /v1/job/{name}/dispatch''"
| "route_pattern DispatchStatus = ''GET /v1/dispatch/{id}''"
| "route_pattern ExecutionStatus = ''GET /v1/execution/{id}''"
| "route_pattern ExecutionLogs = ''GET /v1/execution/{id}/logs''"
| "route_pattern CancelExecution = ''DELETE /v1/execution/{id}''"
| "route_pattern HealthRoute = ''GET /v1/health''"
| "route_pattern ListNodes = ''GET /v1/nodes''"
| "route_pattern ListProviders = ''GET /v1/providers''"

text \<open>The status and body of the answer, or none when the handler panicked.\<close>

definition answer_of :: "('s, 'x, 'j, 'w) Server \<Rightarrow> HandlerError + Body \<Rightarrow> (int \<times> Body) option" where
  "answer_of sv result =
     (case result of
        Inl err \<Rightarrow> map_option (\<lambda>(code, body). (code, ErrorBody body)) (failure sv err)
      | Inr body \<Rightarrow> Some (StatusOK, body))"

definition wrap ::
  "('s, 'x, 'j, 'w) Server \<Rightarrow> ('s, 'x, 'j, 'w, HandlerError + Body) H \<Rightarrow> ('s, 'x, 'j, 'w, (int \<times> Body) option) H" where
  "wrap sv h = do { result \<leftarrow> h; ret (answer_of sv result) }"

fun Handler :: "('s, 'x, 'j, 'w) Server \<Rightarrow> Route \<Rightarrow> ServerRequest \<Rightarrow> ('s, 'x, 'j, 'w, (int \<times> Body) option) H" where
  "Handler sv RegisterJob r = wrap sv (registerJob sv r)"
| "Handler sv ListJobs r = wrap sv (listJobs sv r)"
| "Handler sv RunJob r = wrap sv (runJob sv r)"
| "Handler sv PlanJob r = wrap sv (planJob sv r)"
| "Handler sv JobStatusRoute r = wrap sv (jobStatus sv r)"
| "Handler sv StopJob r = wrap sv (stopJob sv r)"
| "Handler sv DispatchJob r = wrap sv (dispatchJob sv r)"
| "Handler sv DispatchStatus r = wrap sv (dispatchStatus sv r)"
| "Handler sv ExecutionStatus r = wrap sv (executionStatus sv r)"
| "Handler sv ExecutionLogs r = wrap sv (executionLogs sv r)"
| "Handler sv CancelExecution r = wrap sv (cancelExecution sv r)"
| "Handler sv HealthRoute r = do { answer \<leftarrow> health sv; ret (Some answer) }"
| "Handler sv ListNodes r = wrap sv (listNodes sv r)"
| "Handler sv ListProviders r = wrap sv (listProviders sv r)"

section \<open>Agents\<close>

definition identity_refused :: "string \<Rightarrow> string \<Rightarrow> goerror" where
  "identity_refused identity name =
     Formatted ''node %q cannot register as %q: its certificate names %q'' [S identity, S name, S identity] []"

text \<open>What a session's \<open>Register\<close> call does; a reconnection closes the session it replaces, which is returned.\<close>

definition nodeEndpoint_Register ::
  "('s, 'x, 'j, 'w) Server \<Rightarrow> Session \<Rightarrow> NodeRegisterRequest \<Rightarrow> ('s, 'x, 'j, 'w, goerror + Session list) H" where
  "nodeEndpoint_Register sv session req =
     (let identity = sv_identity sv session in
      if identity \<noteq> [] \<and> nd_Name req \<noteq> identity then ret (Inl (identity_refused identity (nd_Name req)))
      else do {
        t \<leftarrow> server_now sv;
        State (\<lambda>s. case Report (sv_address sv) req session t (sg_conns s) of
          (replaced, conns) \<Rightarrow> (Inr replaced, s\<lparr>sg_conns := conns\<rparr>))
      })"

definition removeNodeConn :: "('s, 'x, 'j, 'w) Server \<Rightarrow> Session \<Rightarrow> ('s, 'x, 'j, 'w, string list) H" where
  "removeNodeConn sv session =
     do {
       t \<leftarrow> server_now sv;
       State (\<lambda>s. case Remove session t (sg_conns s) of (names, conns) \<Rightarrow> (names, s\<lparr>sg_conns := conns\<rparr>))
     }"

section \<open>Upkeep\<close>

definition server_resume :: "Dispatch \<Rightarrow> ('s, 'x, 'j, 'w, unit) H" where
  "server_resume d = do { track (dis_ID d); start (Resumed d) }"

fun resume_each :: "Dispatch list \<Rightarrow> ('s, 'x, 'j, 'w, unit) H" where
  "resume_each [] = ret ()"
| "resume_each (d # ds) = do { server_resume d; resume_each ds }"

definition claim :: "('s, 'x, 'j, 'w) Server \<Rightarrow> ('s, 'x, 'j, 'w, unit) H" where
  "claim sv =
     do {
       t \<leftarrow> server_now sv;
       running \<leftarrow> runningIDs;
       claimed \<leftarrow> in_world (on_executions
         (x_ClaimDispatches (sv_executions sv) (sv_owner sv) t (t + sv_leaseTTL sv) running));
       (case claimed of Inl err \<Rightarrow> ret () | Inr ds \<Rightarrow> resume_each ds)
     }"

definition refreshCapabilities :: "('s, 'x, 'j, 'w) Server \<Rightarrow> ('s, 'x, 'j, 'w, unit) H" where
  "refreshCapabilities sv = do { err \<leftarrow> in_world (ext (env (sv_refresh sv))); ret () }"

definition refreshUsage :: "('s, 'x, 'j, 'w) Server \<Rightarrow> ('s, 'x, 'j, 'w, unit) H" where
  "refreshUsage sv = in_world (refresh (dispatcher sv))"

definition reap :: "('s, 'x, 'j, 'w) Server \<Rightarrow> ('s, 'x, 'j, 'w, unit) H" where
  "reap sv = do { reaped \<leftarrow> in_world (Dispatcher_Reap (dispatcher sv)); ret () }"

definition release_leftovers :: "('s, 'x, 'j, 'w) Server \<Rightarrow> ('s, 'x, 'j, 'w, unit) H" where
  "release_leftovers sv = do { released \<leftarrow> in_world (ReleaseLeftovers (dispatcher sv)); ret () }"

datatype UpkeepTask = CapabilitiesTask | UsageTask | ReapTask | ReleaseTask | ClaimTask

definition capabilitiesInterval :: Duration where "capabilitiesInterval = Minute"
definition usageInterval :: Duration where "usageInterval = 15 * Second"
definition reapInterval :: Duration where "reapInterval = 5 * Minute"
definition releaseInterval :: Duration where "releaseInterval = 5 * Minute"

text \<open>What each task does on its tick, and how far apart its ticks are.\<close>

fun upkeep :: "('s, 'x, 'j, 'w) Server \<Rightarrow> UpkeepTask \<Rightarrow> Duration \<times> ('s, 'x, 'j, 'w, unit) H" where
  "upkeep sv CapabilitiesTask = (capabilitiesInterval, refreshCapabilities sv)"
| "upkeep sv UsageTask = (usageInterval, refreshUsage sv)"
| "upkeep sv ReapTask = (reapInterval, reap sv)"
| "upkeep sv ReleaseTask = (releaseInterval, release_leftovers sv)"
| "upkeep sv ClaimTask = (sv_claimEvery sv, claim sv)"

text \<open>What is done once before serving.\<close>

definition before_serving :: "('s, 'x, 'j, 'w) Server \<Rightarrow> ('s, 'x, 'j, 'w, unit) H" where
  "before_serving sv = do { claim sv; reap sv }"

end
