(* ===== verification/Runs.thy ===== *)
theory Runs
  imports Reconcile
begin

text \<open>
  What every run of the dispatcher keeps.  \<open>dispatch_run\<close> states the laws of a relation between
  the world before and after one effect; inside it, every computation of \<open>Dispatch\<close> and
  \<open>Reconcile\<close> is shown to keep the relation.  It is interpreted twice: on the calls a run makes,
  and on the states execution records move through.
\<close>

section \<open>Effects of the environment, in the world\<close>

lemma ext_ret: "ext (ret a) = ret a"
  by (rule state_ext) simp

lemma ext_bind: "ext (bind m f) = bind (ext m) (\<lambda>a. ext (f a))"
  by (rule state_ext) (simp split: prod.split)

lemmas ext_push = ext_ret ext_bind if_distrib [of ext] option.case_distrib [of ext]
  prod.case_distrib [of ext] Let_def

definition logged :: "Call \<Rightarrow> ('s, 'x, 'w) World \<Rightarrow> ('s, 'x, 'w) World" where
  "logged c s = s\<lparr>w_ext := (w_ext s)\<lparr>x_calls := x_calls (w_ext s) @ [c]\<rparr>\<rparr>"

text \<open>Calls every run may make: all but a submission, and the update of a record to a state it cannot reach.\<close>

fun plain :: "Call \<Rightarrow> bool" where
  "plain (CallSubmit name i) = False"
| "plain (CallUpdate i a b) = CanTransition a b"
| "plain c = True"

lemma Status_To_legal: "Status_To n t rec = Inr rec' \<Longrightarrow> CanTransition (st_State rec) n"
  by (auto simp: Status_To_def Transition_def split: option.splits if_splits)

text \<open>A provider some admission of the request, on the pools of a namespace, would pass.\<close>

definition permitted :: "('s, 'x, 'w) Dispatcher \<Rightarrow> Request \<Rightarrow> string \<Rightarrow> string \<Rightarrow> bool" where
  "permitted d req namespace name \<longleftrightarrow> (\<exists>usage w. \<exists>c \<in> set (res_Candidates
     (Admit req (d_inputs d namespace usage w))). in_Provider c = name)"

lemma Rank_candidate: "c \<in> set (Rank req cs) \<Longrightarrow> Candidate.truncate c \<in> set cs"
  using mset_eq_setD [OF Rank_candidates, of req cs] by (metis image_eqI list.set_map)

lemma permitted_ranked:
  assumes "c \<in> set (Rank req (res_Candidates (Admit req (d_inputs d n usage w))))"
  shows "permitted d req n (in_Provider c)"
proof -
  have "in_Provider (Candidate.truncate c) = in_Provider c" by (simp add: Candidate.truncate_def)
  then show ?thesis using Rank_candidate [OF assms] unfolding permitted_def by blast
qed

lemma inputs_origin: "run_state (inputs d n) s = (ins, t) \<Longrightarrow> \<exists>usage w. ins = d_inputs d n usage w"
  unfolding inputs_def now_def by (auto split: prod.splits)

locale dispatch_run = run_relation R for R :: "('s, 'x, 'w) World \<Rightarrow> ('s, 'x, 'w) World \<Rightarrow> bool" +
  fixes d :: "('s, 'x, 'w) Dispatcher"
    and ok :: "Call \<Rightarrow> bool"
  assumes env: "R s (s\<lparr>w_ext := (w_ext s)\<lparr>x_env := w\<rparr>\<rparr>)"
    and call: "ok c \<Longrightarrow> R s (logged c s)"
    and plain_ok: "plain c \<Longrightarrow> ok c"
    and update: "Status_To next_state t rec = Inr rec' \<Longrightarrow>
      x_Update (d_executions d) rec' (st_State rec) (w_exec s) = (err, x) \<Longrightarrow> R s (s\<lparr>w_exec := x\<rparr>)"
    and create: "x_Create (d_executions d) rec (w_exec s) = (err, x) \<Longrightarrow> R s (s\<lparr>w_exec := x\<rparr>)"
    and mark: "x_MarkReleased (d_executions d) i t (w_exec s) = (err, x) \<Longrightarrow> R s (s\<lparr>w_exec := x\<rparr>)"
    and begins: "x_CreateDispatch (d_executions d) disp (w_exec s) = (err, x) \<Longrightarrow> R s (s\<lparr>w_exec := x\<rparr>)"
    and finish: "x_FinishDispatch (d_executions d) disp (w_exec s) = (err, x) \<Longrightarrow> R s (s\<lparr>w_exec := x\<rparr>)"
    and renews: "x_RenewDispatch (d_executions d) i owner t (w_exec s) = (err, x) \<Longrightarrow> R s (s\<lparr>w_exec := x\<rparr>)"
    and store: "R s (s\<lparr>w_store := st\<rparr>)"
    and ledger: "R s (s\<lparr>w_led := l\<rparr>)"
begin

text \<open>A computation that keeps the relation, whatever it returns.\<close>

abbreviation keeps :: "('s, 'x, 'w, 'a) M \<Rightarrow> bool" where "keeps \<equiv> state_io_rel R"

lemma keeps_env: "keeps (ext (Effects.env f))"
  by (rule state_io_relI) (auto simp: env split: prod.splits)

lemma keeps_call: "ok c \<Longrightarrow> keeps (ext (record_call c))"
  by (rule state_io_relI) (auto dest: call simp: logged_def)

lemma keeps_plain: "plain c \<Longrightarrow> keeps (ext (record_call c))"
  by (simp add: keeps_call plain_ok)

lemma keeps_store: "keeps (on_store f)"
  by (rule state_io_relI) (auto simp: store split: prod.splits)

lemma keeps_read: "keeps (on_executions (\<lambda>x. (f x, x)))"
  by (rule state_io_relI) (auto simp: refl)

lemma keeps_executions:
  assumes "\<And>s err x. f (w_exec s) = (err, x) \<Longrightarrow> R s (s\<lparr>w_exec := x\<rparr>)" shows "keeps (on_executions f)"
  using assms by (intro state_io_relI) (auto split: prod.splits)

lemmas keeps_writes = keeps_executions [OF create] keeps_executions [OF mark] keeps_executions [OF begins]
  keeps_executions [OF finish] keeps_executions [OF renews]

lemmas steps = rel_bind rel_return rel_if rel_option rel_sum rel_prod keeps_env keeps_store keeps_read
  keeps_writes

lemma keeps_now: "keeps (ext (now d))"
  unfolding now_def by (rule keeps_env)

lemma keeps_sleep: "keeps (ext (sleep d t))"
  unfolding sleep_def effect_def ext_push by (intro steps keeps_plain) simp

lemma keeps_report: "keeps (ext (report d e))"
  unfolding report_def ext_push by (intro steps keeps_plain) simp

lemma keeps_authorized:
  assumes "keeps (ext c)" shows "keeps (ext (authorized d p c))"
  unfolding authorized_def effect_def ext_push by (intro steps keeps_plain assms) simp

lemma keeps_authorizedErr: "keeps (ext c) \<Longrightarrow> keeps (ext (authorizedErr d p c))"
  unfolding authorizedErr_def ext_bind
  by (rule rel_bind, rule keeps_authorized) (auto simp: ext_ret ext_bind intro!: rel_bind split: prod.split)

lemma keeps_effect: "ok c \<Longrightarrow> keeps (ext (effect c f))"
  unfolding effect_def ext_push by (intro steps keeps_call)

lemmas asks = keeps_now keeps_sleep keeps_report keeps_authorized keeps_authorizedErr
  keeps_effect [OF plain_ok]

lemma keeps_status: "keeps (ext (status d p i))"
  unfolding status_def by (intro asks) simp

lemma keeps_fetch: "keeps (ext (fetch_result d p i))"
  unfolding fetch_result_def by (intro asks) simp

lemma keeps_submit:
  assumes "ok (CallSubmit (p_Name p) i)" shows "keeps (ext (submit d p i task members))"
  unfolding submit_def
  by (intro keeps_authorized) (auto simp: ext_push intro!: rel_option rel_if keeps_effect assms)

section \<open>One execution\<close>

lemma keeps_track_to: "keeps (track_to d n rec)"
proof -
  have "keeps (bind (ext (record_call (CallUpdate (st_ID r') (st_State rec) n))) (\<lambda>_.
      bind (on_executions (x_Update (d_executions d) r' (st_State rec))) (\<lambda>_. ret r')))"
    if "Status_To n t rec = Inr r'" for t r'
  proof -
    have "plain (CallUpdate (st_ID r') (st_State rec) n)" using that by (simp add: Status_To_legal)
    moreover have "keeps (on_executions (x_Update (d_executions d) r' (st_State rec)))"
      using update [OF that] by (rule keeps_executions)
    ultimately show ?thesis by (intro rel_bind rel_return keeps_plain)
  qed
  then show ?thesis
    unfolding track_to_def Let_def by (intro rel_if rel_return rel_bind [OF keeps_now] rel_sum) auto
qed

lemma keeps_track_finish: "keeps (track_finish d n res rec)"
  unfolding track_finish_def by (rule keeps_track_to)

lemma keeps_track_submitted: "keeps (track_submitted d sub rec)"
  unfolding track_submitted_def by (intro steps keeps_track_to keeps_track_finish)

lemma keeps_track_failed: "keeps (track_failed d e rec)"
  unfolding track_failed_def Let_def by (intro steps keeps_track_to)

lemmas tracks = keeps_track_to keeps_track_finish keeps_track_submitted keeps_track_failed

lemma keeps_release: "keeps (release d p i)"
  unfolding release_def option.case_distrib [of ext] ext_ret by (intro steps asks) simp_all

lemma keeps_abandon: "keeps (abandon d p i)"
  unfolding abandon_def by (intro steps asks) simp

lemma keeps_watch_loop: "keeps (watch_loop fuel d p event last_state n rec)"
proof (induction fuel arbitrary: event last_state n rec)
  case 0
  show ?case by (simp add: rel_return)
next
  case (Suc fuel)
  show ?case unfolding watch_loop.simps by (intro steps asks tracks keeps_status Suc)
qed

lemma keeps_settle_stream: "keeps (ext (settle_stream d p))"
  unfolding settle_stream_def ext_push by (intro steps asks)

lemma keeps_follow: "keeps (follow d p event rec)"
  unfolding follow_def watch_def Let_def
  by (intro steps asks tracks keeps_watch_loop keeps_settle_stream keeps_abandon keeps_fetch keeps_release)

lemma keeps_execute:
  assumes "ok (CallSubmit (p_Name p) (st_ID rec))" shows "keeps (execute d p task members rec)"
  unfolding execute_def Let_def if_distrib [of ext] ext_ret
  by (intro steps asks tracks keeps_submit keeps_release keeps_follow assms)

section \<open>A task, a job\<close>

lemma keeps_prepare: "keeps (prepare d origin req name k previous)"
  unfolding prepare_def Let_def by (intro steps asks keeps_plain) simp_all

lemma keeps_charge: "keeps (charge d rec res)"
  unfolding charge_def Let_def by (intro steps keeps_plain) simp

lemma keeps_pause: "keeps (ext (pause d po k))"
  unfolding pause_def ext_push by (intro steps asks)

lemma keeps_attempt_loop:
  assumes "\<And>c p i. c \<in> set ranking \<Longrightarrow> d_provider d (in_Provider c) = Some p \<Longrightarrow> ok (CallSubmit (p_Name p) i)"
  shows "keeps (attempt_loop d origin req po ranking lastErr tried previous outcome)"
  using assms
proof (induction ranking arbitrary: lastErr tried previous outcome)
  case Nil
  show ?case by (simp add: rel_return)
next
  case (Cons c ranking)
  then show ?case unfolding attempt_loop.simps Let_def
    by (intro steps keeps_prepare keeps_pause keeps_execute keeps_charge Cons.IH) (auto | blast)+
qed

lemma keeps_refresh: "keeps (refresh d)"
  unfolding refresh_def by (intro steps asks) (auto intro!: state_io_relI ledger)

lemma keeps_inputs: "keeps (inputs d n)"
  unfolding inputs_def by (intro steps asks) (auto intro!: state_io_relI refl)

lemma rel_bind_run:
  "keeps m \<Longrightarrow> (\<And>a s t. run_state m s = (a, t) \<Longrightarrow> keeps (f a)) \<Longrightarrow> keeps (bind m f)"
  by (rule state_io_relI) (auto split: prod.splits, blast intro: trans)

lemma keeps_RunTask:
  assumes "\<And>req diags n p i. NewRequest (d_image d) task routing (d_tiers d) eval = (req, diags) \<Longrightarrow>
    permitted d req (or_Namespace origin) n \<Longrightarrow> d_provider d n = Some p \<Longrightarrow> ok (CallSubmit (p_Name p) i)"
  shows "keeps (RunTask d origin task routing eval)"
proof -
  obtain req diags where req: "NewRequest (d_image d) task routing (d_tiers d) eval = (req, diags)"
    by fastforce
  have "keeps (attempt d origin req (Rank req (res_Candidates (Admit req ins))) o1)"
    if ins: "run_state (inputs d (or_Namespace origin)) s = (ins, t)" for ins o1 s t
    unfolding attempt_def
  proof (rule keeps_attempt_loop)
    fix c p i
    assume c: "c \<in> set (Rank req (res_Candidates (Admit req ins)))" "d_provider d (in_Provider c) = Some p"
    have "permitted d req (or_Namespace origin) (in_Provider c)"
      using inputs_origin [OF ins] c(1) by (auto intro: permitted_ranked)
    with c(2) show "ok (CallSubmit (p_Name p) i)" by (intro assms [OF req])
  qed
  then show ?thesis
    unfolding RunTask_def Let_def req prod.case
    by (intro rel_bind_run keeps_refresh keeps_inputs rel_if rel_return) (assumption | blast)+
qed

lemma keeps_Run_loop:
  assumes "\<And>task req diags n p i. task \<in> set tasks \<Longrightarrow>
    NewRequest (d_image d) task routing (d_tiers d) eval = (req, diags) \<Longrightarrow>
    permitted d req (or_Namespace origin) n \<Longrightarrow> d_provider d n = Some p \<Longrightarrow> ok (CallSubmit (p_Name p) i)"
  shows "keeps (Run_loop d origin routing eval tasks outcome)"
  using assms
proof (induction tasks arbitrary: outcome)
  case Nil
  show ?case by (simp add: rel_return)
next
  case (Cons task tasks)
  have "keeps (RunTask d origin task routing eval)"
    by (rule keeps_RunTask) (rule Cons.prems, auto)
  moreover have "keeps (Run_loop d origin routing eval tasks o1)" for o1
    using Cons.prems by (intro Cons.IH) (meson list.set_intros(2))
  ultimately show ?case unfolding Run_loop.simps Let_def
    by (intro rel_bind keeps_env rel_if rel_return rel_option rel_prod) auto
qed

lemma keeps_Run:
  assumes "\<And>task req diags n p i. task \<in> set (job_Tasks j) \<Longrightarrow>
    NewRequest (d_image d) task (job_Routing j) (d_tiers d) eval = (req, diags) \<Longrightarrow>
    permitted d req (or_Namespace origin) n \<Longrightarrow> d_provider d n = Some p \<Longrightarrow> ok (CallSubmit (p_Name p) i)"
  shows "keeps (Run d origin j eval)"
  unfolding Run_def Let_def
  by (intro steps keeps_Run_loop, rule assms) simp_all

lemma keeps_Begin: "keeps (Begin d origin j)"
  unfolding Begin_def Let_def by (intro steps keeps_now)

lemma keeps_end_dispatch: "keeps (end_dispatch d origin st1 reason)"
  unfolding end_dispatch_def by (intro steps keeps_now)

lemma keeps_Finish: "keeps (Finish d origin outcome err)"
  unfolding Finish_def by (intro steps keeps_end_dispatch)

lemma keeps_renew: "keeps (renew d i)"
  unfolding renew_def by (intro steps keeps_now)

section \<open>After a run\<close>

lemma keeps_resume: "keeps (resume d rec)"
  unfolding resume_def by (intro steps tracks keeps_status keeps_follow keeps_charge)

lemma keeps_resume_loop: "keeps (resume_loop d recs)"
proof (induction recs)
  case Nil
  show ?case by (simp add: rel_return)
next
  case (Cons rec recs)
  then show ?case unfolding resume_loop.simps by (intro steps keeps_resume)
qed

lemma keeps_Resume: "keeps (Resume text_of d claimed)"
  unfolding Resume_def Let_def by (intro steps keeps_resume_loop keeps_end_dispatch)

lemma keeps_resolveLost:
  assumes "st_State rec = StateLost" shows "keeps (resolveLost d rec st1 res)"
proof -
  have lost: "keeps (bind (ext (record_call (CallUpdate (st_ID rec) StateLost st1))) (\<lambda>_.
      bind (on_executions (x_Update (d_executions d) r' StateLost)) f))"
    if "Status_To st1 t (rec\<lparr>rec_Result := Bounded res\<rparr>) = Inr r'" "\<And>err. keeps (f err)" for t r' f
  proof -
    have "plain (CallUpdate (st_ID rec) StateLost st1)" using Status_To_legal [OF that(1)] assms by simp
    moreover have "keeps (on_executions (x_Update (d_executions d) r' StateLost))"
      using update [OF that(1)] assms by (intro keeps_executions) simp
    ultimately show ?thesis using that(2) by (intro rel_bind keeps_plain)
  qed
  then show ?thesis unfolding resolveLost_def
    by (intro rel_bind [OF keeps_now] rel_sum rel_return) (rule lost, assumption, intro rel_option rel_return)
qed

lemma keeps_expire_lost: "st_State rec = StateLost \<Longrightarrow> keeps (expire_lost d rec err)"
  unfolding expire_lost_def by (intro steps keeps_now keeps_resolveLost)

lemma keeps_reconcileLost: "st_State rec = StateLost \<Longrightarrow> keeps (reconcileLost d rec)"
  unfolding reconcileLost_def
  by (intro steps keeps_status keeps_fetch keeps_resolveLost keeps_expire_lost)

lemma keeps_markReleased: "keeps (markReleased d i)"
  unfolding markReleased_def by (intro steps keeps_now)

lemma keeps_release_over: "keeps (release_over d rec)"
  unfolding release_over_def release_call_def
  by (intro steps keeps_status keeps_markReleased asks) simp_all

lemma keeps_releaseLeftover: "keeps (releaseLeftover d rec)"
  unfolding releaseLeftover_def by (intro steps keeps_reconcileLost keeps_release_over)

lemma keeps_ReleaseLeftovers_loop: "keeps (ReleaseLeftovers_loop d recs released errs)"
proof (induction recs arbitrary: released errs)
  case Nil
  show ?case by (simp add: rel_return)
next
  case (Cons rec recs)
  then show ?case unfolding ReleaseLeftovers_loop.simps by (intro steps keeps_releaseLeftover)
qed

lemma keeps_ReleaseLeftovers: "keeps (ReleaseLeftovers d)"
  unfolding ReleaseLeftovers_def by (intro steps keeps_now keeps_ReleaseLeftovers_loop)

end

section \<open>The calls of a run\<close>

abbreviation calls_of :: "('s, 'x, 'w) World \<Rightarrow> Call list" where "calls_of s \<equiv> x_calls (w_ext s)"

text \<open>Submissions only where \<open>P\<close> allows them; every other call is plain.\<close>

definition allowed :: "(string \<Rightarrow> ID \<Rightarrow> bool) \<Rightarrow> Call \<Rightarrow> bool" where
  "allowed P c \<longleftrightarrow> plain c \<or> (\<exists>n i. c = CallSubmit n i \<and> P n i)"

definition emits :: "(Call \<Rightarrow> bool) \<Rightarrow> ('s, 'x, 'w) World \<Rightarrow> ('s, 'x, 'w) World \<Rightarrow> bool" where
  "emits ok s t \<longleftrightarrow> (\<exists>cs. calls_of t = calls_of s @ cs \<and> (\<forall>c \<in> set cs. ok c))"

lemma allowed_simps [simp]:
  "allowed P (CallSubmit n i) \<longleftrightarrow> P n i" "plain c \<Longrightarrow> allowed P c"
  by (auto simp: allowed_def)

lemma emits_same: "calls_of t = calls_of s \<Longrightarrow> emits ok s t"
  by (simp add: emits_def)

interpretation calls: dispatch_run "emits (allowed P)" d "allowed P" for P and d :: "('s, 'x, 'w) Dispatcher"
proof unfold_locales
  fix s t u :: "('s, 'x, 'w) World"
  assume "emits (allowed P) s t" "emits (allowed P) t u"
  then show "emits (allowed P) s u" unfolding emits_def by (metis append.assoc Un_iff set_append)
next
  fix c and s :: "('s, 'x, 'w) World"
  assume "allowed P c"
  then show "emits (allowed P) s (logged c s)" by (simp add: emits_def logged_def)
qed (simp_all add: emits_same)

lemma emits_run:
  assumes "state_io_rel (emits ok) m" "run_state m s = (a, t)"
  obtains cs where "calls_of t = calls_of s @ cs" "\<forall>c \<in> set cs. ok c"
  using state_io_relD [OF assms] by (auto simp: emits_def)

text \<open>Every submission comes after the reservation and the record of its execution.\<close>

definition prepared :: "Call list \<Rightarrow> bool" where
  "prepared cs \<longleftrightarrow> (\<forall>pre n i post. cs = pre @ CallSubmit n i # post \<longrightarrow>
     CallReserve n i True \<in> set pre \<and> CallCreate i True \<in> set pre)"

lemma prepared_Nil [simp]: "prepared []"
  by (simp add: prepared_def)

lemma prepared_append:
  assumes "prepared cs" "\<forall>c \<in> set ds. allowed (\<lambda>n i. CallReserve n i True \<in> set cs \<and> CallCreate i True \<in> set cs) c"
  shows "prepared (cs @ ds)"
  unfolding prepared_def
proof (intro allI impI)
  fix pre n i post
  assume e: "cs @ ds = pre @ CallSubmit n i # post"
  then consider us where "cs = pre @ us" "us @ ds = CallSubmit n i # post"
    | us where "cs @ us = pre" "ds = us @ CallSubmit n i # post"
    by (auto simp: append_eq_append_conv2)
  then show "CallReserve n i True \<in> set pre \<and> CallCreate i True \<in> set pre"
  proof cases
    case 1
    with assms show ?thesis by (cases us) (auto simp: prepared_def)
  next
    case 2
    with assms(2) show ?thesis by auto
  qed
qed

text \<open>\<open>prepares cs m\<close>: once the calls \<open>cs\<close> are made, \<open>m\<close> keeps every submission prepared.\<close>

definition prepares :: "Call set \<Rightarrow> ('s, 'x, 'w, 'a) M \<Rightarrow> bool" where
  "prepares C m \<longleftrightarrow> (\<forall>s a t. run_state m s = (a, t) \<longrightarrow> set (calls_of s) \<subseteq> set (calls_of t) \<and>
     (prepared (calls_of s) \<longrightarrow> C \<subseteq> set (calls_of s) \<longrightarrow> prepared (calls_of t)))"

lemma preparesD:
  assumes "prepares C m" "run_state m s = (a, t)"
  shows "set (calls_of s) \<subseteq> set (calls_of t)"
    and "prepared (calls_of s) \<Longrightarrow> C \<subseteq> set (calls_of s) \<Longrightarrow> prepared (calls_of t)"
  using assms unfolding prepares_def by blast+

lemma prepares_emits:
  assumes "state_io_rel (emits (allowed (\<lambda>n i. CallReserve n i True \<in> C \<and> CallCreate i True \<in> C))) m"
  shows "prepares C m"
  unfolding prepares_def
proof (intro allI impI)
  fix s a t
  assume run: "run_state m s = (a, t)"
  obtain cs where "calls_of t = calls_of s @ cs"
    "\<forall>c \<in> set cs. allowed (\<lambda>n i. CallReserve n i True \<in> C \<and> CallCreate i True \<in> C) c"
    using emits_run [OF assms run] .
  then show "set (calls_of s) \<subseteq> set (calls_of t) \<and>
    (prepared (calls_of s) \<longrightarrow> C \<subseteq> set (calls_of s) \<longrightarrow> prepared (calls_of t))"
    by (auto intro!: prepared_append) (auto simp: allowed_def)
qed

lemma prepares_bind:
  assumes "prepares C m" "\<And>a. prepares C (f a)" shows "prepares C (bind m f)"
  unfolding prepares_def
proof (intro allI impI)
  fix s b u
  assume "run_state (bind m f) s = (b, u)"
  then obtain a t where r: "run_state m s = (a, t)" "run_state (f a) t = (b, u)"
    by (auto split: prod.splits)
  note m = preparesD [OF assms(1) r(1)] and n = preparesD [OF assms(2) r(2)]
  then show "set (calls_of s) \<subseteq> set (calls_of u) \<and>
    (prepared (calls_of s) \<longrightarrow> C \<subseteq> set (calls_of s) \<longrightarrow> prepared (calls_of u))" by auto
qed

lemma prepares_weaken: "prepares {} m \<Longrightarrow> prepares C m"
  by (auto simp: prepares_def)

lemma prepares_if:
  "(P \<Longrightarrow> prepares C m) \<Longrightarrow> (\<not> P \<Longrightarrow> prepares C n) \<Longrightarrow> prepares C (if P then m else n)"
  by simp

lemma prepares_option:
  "(x = None \<Longrightarrow> prepares C m) \<Longrightarrow> (\<And>y. x = Some y \<Longrightarrow> prepares C (f y)) \<Longrightarrow>
    prepares C (case x of None \<Rightarrow> m | Some y \<Rightarrow> f y)"
  by (simp split: option.split)

lemma prepares_prod:
  "(\<And>y z. x = (y, z) \<Longrightarrow> prepares C (f y z)) \<Longrightarrow> prepares C (case x of (y, z) \<Rightarrow> f y z)"
  by (simp split: prod.split)

lemmas prepares_quiet = prepares_emits [OF calls.rel_return]
  prepares_emits [OF calls.keeps_pause] prepares_emits [OF calls.keeps_charge]
  prepares_emits [OF calls.keeps_refresh] prepares_emits [OF calls.keeps_inputs]
  prepares_emits [OF calls.keeps_env]

text \<open>Registered providers answer to the name they are registered under.\<close>

definition named :: "('s, 'x, 'w) Dispatcher \<Rightarrow> bool" where
  "named d \<longleftrightarrow> (\<forall>n p. d_provider d n = Some p \<longrightarrow> p_Name p = n)"

text \<open>An execution is handed over only once its quota is reserved and its record is stored.\<close>

lemma prepare_ready:
  assumes "run_state (prepare d origin req name k previous) s = ((Some rec, None), t)"
  shows "calls_of t = calls_of s @ [CallReserve name (st_ID rec) True, CallCreate (st_ID rec) True]"
    and "\<exists>now. Ledger_Reserve (d_store d) (w_led s) (st_ID rec) (or_Namespace origin) name
      (rq_Execution req) (WillPay req) now (w_store s) = (None, w_store t)"
    and "x_Create (d_executions d) rec (w_exec s) = (None, w_exec t)"
    and "\<exists>i now. rec = pending_record origin req name k previous i now"
  using assms
  by (auto simp: prepare_def now_def pending_record_def ext_push split: prod.splits option.splits if_splits)

lemma prepare_unready:
  "run_state (prepare d origin req name k previous) s = ((None, err), t) \<Longrightarrow> err \<noteq> None"
  by (auto simp: prepare_def now_def ext_push split: prod.splits option.splits if_splits)

lemma prepares_prepare:
  assumes "\<And>err. prepares {} (f (None, err))" "\<And>rec e. prepares {} (f (Some rec, Some e))"
    and "\<And>rec. prepares {CallReserve name (st_ID rec) True, CallCreate (st_ID rec) True} (f (Some rec, None))"
  shows "prepares {} (bind (prepare d origin req name k previous) f)"
  unfolding prepares_def
proof (intro allI impI)
  fix s b u
  assume "run_state (bind (prepare d origin req name k previous) f) s = (b, u)"
  then obtain a t where r: "run_state (prepare d origin req name k previous) s = (a, t)"
    "run_state (f a) t = (b, u)"
    by (auto split: prod.splits)
  have "prepares {} (prepare d origin req name k previous)"
    by (intro prepares_emits calls.keeps_prepare)
  note p = preparesD [OF this r(1)]
  show "set (calls_of s) \<subseteq> set (calls_of u) \<and> (prepared (calls_of s) \<longrightarrow> {} \<subseteq> set (calls_of s) \<longrightarrow> prepared (calls_of u))"
  proof (cases "snd a = None \<and> fst a \<noteq> None")
    case True
    then obtain rec where a: "a = (Some rec, None)" by (cases a) auto
    note ready = prepare_ready(1) [OF r(1) [unfolded a]]
    show ?thesis using p preparesD [OF assms(3) r(2) [unfolded a]] ready by auto
  next
    case False
    then have "prepares {} (f a)" using assms(1,2) by (cases a; cases "fst a"; cases "snd a") auto
    from preparesD [OF this r(2)] p show ?thesis by auto
  qed
qed

lemma attempt_loop_prepared:
  assumes "named d"
  shows "prepares {} (attempt_loop d origin req po ranking lastErr tried previous outcome)"
proof (induction ranking arbitrary: lastErr tried previous outcome)
  case Nil
  show ?case by (simp add: prepares_quiet)
next
  case (Cons c ranking)
  have run: "prepares {CallReserve (in_Provider c) (st_ID rec) True, CallCreate (st_ID rec) True} (execute d p task members rec)"
    if "d_provider d (in_Provider c) = Some p" for p task members rec
    using assms that by (intro prepares_emits calls.keeps_execute) (simp add: named_def)
  show ?case unfolding attempt_loop.simps Let_def
    by (intro prepares_if prepares_option prepares_quiet prepares_prepare)
      (auto simp: refused_def intro!: prepares_bind prepares_if prepares_option prepares_prod prepares_quiet run
        intro: Cons.IH prepares_weaken [OF Cons.IH])
qed

lemma attempt_prepared: "named d \<Longrightarrow> prepares {} (attempt d origin req ranking outcome)"
  unfolding attempt_def by (rule attempt_loop_prepared)

lemma RunTask_prepared: "named d \<Longrightarrow> prepares {} (RunTask d origin task routing eval)"
  unfolding RunTask_def Let_def
  by (intro prepares_prod prepares_if prepares_bind prepares_quiet attempt_prepared)

lemma Run_loop_prepared: "named d \<Longrightarrow> prepares {} (Run_loop d origin routing eval tasks outcome)"
proof (induction tasks arbitrary: outcome)
  case (Cons task tasks)
  then show ?case unfolding Run_loop.simps Let_def
    by (intro prepares_prod prepares_if prepares_bind prepares_quiet prepares_option RunTask_prepared)
qed (simp add: prepares_quiet)

lemma Run_prepared: "named d \<Longrightarrow> prepares {} (Run d origin j eval)"
  unfolding Run_def Let_def by (intro prepares_if prepares_bind prepares_quiet Run_loop_prepared)

section \<open>The stored executions\<close>

text \<open>
  What dispatch does to the execution store over any number of steps: no record disappears,
  every record's state moves along the state machine, and a dispatch that is over stays as it is.
\<close>

definition advanced :: "(ID \<Rightarrow> Record option) \<Rightarrow> (ID \<Rightarrow> Record option) \<Rightarrow> bool" where
  "advanced f g \<longleftrightarrow> (\<forall>i r. f i = Some r \<longrightarrow>
     (\<exists>r'. g i = Some r' \<and> CanTransition\<^sup>*\<^sup>* (st_State r) (st_State r')))"

definition over_stays :: "(ID \<Rightarrow> Dispatch option) \<Rightarrow> (ID \<Rightarrow> Dispatch option) \<Rightarrow> bool" where
  "over_stays f g \<longleftrightarrow> (\<forall>i e. f i = Some e \<longrightarrow>
     (\<exists>e'. g i = Some e' \<and> (dis_State e \<noteq> DispatchRunning \<longrightarrow> e' = e)))"

definition moved ::
  "('x \<Rightarrow> ID \<Rightarrow> Record option) \<Rightarrow> ('x \<Rightarrow> ID \<Rightarrow> Dispatch option)
    \<Rightarrow> ('s, 'x, 'w) World \<Rightarrow> ('s, 'x, 'w) World \<Rightarrow> bool" where
  "moved record_of dispatch_of s t \<longleftrightarrow>
     advanced (record_of (w_exec s)) (record_of (w_exec t)) \<and>
     over_stays (dispatch_of (w_exec s)) (dispatch_of (w_exec t))"

lemma advanced_refl [simp]: "advanced f f"
  by (auto simp: advanced_def)

lemma over_stays_refl [simp]: "over_stays f f"
  by (auto simp: over_stays_def)

lemma advanced_trans: "advanced f g \<Longrightarrow> advanced g h \<Longrightarrow> advanced f h"
  unfolding advanced_def by (meson rtranclp_trans)

lemma over_stays_trans: "over_stays f g \<Longrightarrow> over_stays g h \<Longrightarrow> over_stays f h"
  unfolding over_stays_def by metis

lemma moved_refl: "w_exec t = w_exec s \<Longrightarrow> moved record_of dispatch_of s t"
  by (simp add: moved_def)

lemma moved_trans:
  "moved record_of dispatch_of s t \<Longrightarrow> moved record_of dispatch_of t u \<Longrightarrow> moved record_of dispatch_of s u"
  unfolding moved_def by (blast intro: advanced_trans over_stays_trans)

lemma clone_state [simp]: "st_State (clone r) = st_State r" "st_ID (clone r) = st_ID r"
  by (simp_all add: clone_def)

locale dispatch_store = execution_store xs record_of dispatch_of
  for xs :: "'x Executions" and record_of dispatch_of +
  fixes d :: "('s, 'x, 'w) Dispatcher"
  assumes executions: "d_executions d = xs"
begin

lemma update_moves:
  assumes "Status_To n t rec = Inr rec'" "x_Update xs rec' (st_State rec) (w_exec s) = (err, x)"
  shows "moved record_of dispatch_of s (s\<lparr>w_exec := x\<rparr>)"
proof (cases err)
  case None
  with update_ok [of rec' "st_State rec" "w_exec s" x] assms(2) obtain old where old:
    "record_of (w_exec s) (st_ID rec') = Some old" "st_State old = st_State rec"
    "record_of x = (record_of (w_exec s))(st_ID rec' \<mapsto> (clone rec')\<lparr>rec_Released := rec_Released old\<rparr>)"
    "dispatch_of x = dispatch_of (w_exec s)" by auto
  moreover have "CanTransition (st_State rec) n" "st_State rec' = n"
    using assms(1) by (auto simp: Status_To_Inr)
  ultimately show ?thesis by (auto simp: moved_def advanced_def)
next
  case (Some e)
  with update_refused assms(2) show ?thesis by (auto intro: moved_refl)
qed

lemma write_moves:
  shows "x_Create xs rec (w_exec s) = (err, x) \<Longrightarrow> moved record_of dispatch_of s (s\<lparr>w_exec := x\<rparr>)"
    and "x_MarkReleased xs i t (w_exec s) = (err, x) \<Longrightarrow> moved record_of dispatch_of s (s\<lparr>w_exec := x\<rparr>)"
    and "x_CreateDispatch xs disp (w_exec s) = (err, x) \<Longrightarrow> moved record_of dispatch_of s (s\<lparr>w_exec := x\<rparr>)"
    and "x_FinishDispatch xs disp (w_exec s) = (err, x) \<Longrightarrow> moved record_of dispatch_of s (s\<lparr>w_exec := x\<rparr>)"
    and "x_RenewDispatch xs i owner t (w_exec s) = (err, x) \<Longrightarrow> moved record_of dispatch_of s (s\<lparr>w_exec := x\<rparr>)"
proof -
  show "x_Create xs rec (w_exec s) = (err, x) \<Longrightarrow> moved record_of dispatch_of s (s\<lparr>w_exec := x\<rparr>)"
    using create_ok [of rec "w_exec s" x] create_refused [of rec "w_exec s" _ x]
    by (cases err) (auto simp: moved_def advanced_def over_stays_def)
  show "x_MarkReleased xs i t (w_exec s) = (err, x) \<Longrightarrow> moved record_of dispatch_of s (s\<lparr>w_exec := x\<rparr>)"
    using mark_ok [of i t "w_exec s" x] mark_refused [of i t "w_exec s" _ x]
    by (cases err) (auto simp: moved_def advanced_def over_stays_def)
  show "x_CreateDispatch xs disp (w_exec s) = (err, x) \<Longrightarrow> moved record_of dispatch_of s (s\<lparr>w_exec := x\<rparr>)"
    using begin_ok [of disp "w_exec s" x] begin_refused [of disp "w_exec s" _ x]
    by (cases err) (auto simp: moved_def advanced_def over_stays_def)
  show "x_FinishDispatch xs disp (w_exec s) = (err, x) \<Longrightarrow> moved record_of dispatch_of s (s\<lparr>w_exec := x\<rparr>)"
    using finish_ok [of disp "w_exec s" x] finish_refused [of disp "w_exec s" _ x]
    by (cases err) (auto simp: moved_def advanced_def over_stays_def)
  show "x_RenewDispatch xs i owner t (w_exec s) = (err, x) \<Longrightarrow> moved record_of dispatch_of s (s\<lparr>w_exec := x\<rparr>)"
    using renew_ok [of i owner t "w_exec s" x] renew_refused [of i owner t "w_exec s" _ x]
    by (cases err) (auto simp: moved_def advanced_def over_stays_def)
qed

end

sublocale dispatch_store \<subseteq> stored: dispatch_run "moved record_of dispatch_of" d "\<lambda>c. True"
proof unfold_locales
  fix s t u :: "('s, 'x, 'w) World"
  show "moved record_of dispatch_of s t \<Longrightarrow> moved record_of dispatch_of t u \<Longrightarrow> moved record_of dispatch_of s u"
    by (rule moved_trans)
qed (auto simp: executions logged_def intro: moved_refl dest: update_moves write_moves)

interpretation exec_runs: dispatch_store "exec_memory f" "\<lambda>s. map_of (em_records s)"
  "\<lambda>s. map_of (em_dispatches s)" "d\<lparr>d_executions := exec_memory f\<rparr>" for f and d :: "('s, ExecMemory, 'w) Dispatcher"
  by unfold_locales simp

lemma terminal_final: "State_Terminal a \<Longrightarrow> CanTransition\<^sup>*\<^sup>* a b \<Longrightarrow> b = a"
  by (erule converse_rtranclpE) (auto dest: CanTransition_facts(1))

end
