(* ===== verification/Attempts.thy ===== *)
theory Attempts
  imports Runs
begin

text \<open>
  What the dispatcher answers: the attempts of a task against an inductive specification of
  working down a ranking, the tasks of a job run in order, waiting times in closed form, and
  the verdicts of reconciliation.
\<close>

section \<open>What a computation answers\<close>

definition answers :: "('a \<Rightarrow> bool) \<Rightarrow> ('s, 'a) state \<Rightarrow> bool" where
  "answers Q m \<longleftrightarrow> (\<forall>s. Q (fst (run_state m s)))"

lemma answersD: "answers Q m \<Longrightarrow> run_state m s = (a, t) \<Longrightarrow> Q a"
  unfolding answers_def by (metis fst_conv)

lemma answers_ret: "Q a \<Longrightarrow> answers Q (ret a)"
  by (simp add: answers_def)

lemma answers_mono: "answers P m \<Longrightarrow> (\<And>a. P a \<Longrightarrow> Q a) \<Longrightarrow> answers Q m"
  by (simp add: answers_def)

lemma answers_bind: "(\<And>a. answers Q (f a)) \<Longrightarrow> answers Q (bind m f)"
  by (simp add: answers_def split: prod.split)

lemma answers_bind_with:
  "answers P m \<Longrightarrow> (\<And>a. P a \<Longrightarrow> answers Q (f a)) \<Longrightarrow> answers Q (bind m f)"
  unfolding answers_def by (auto split: prod.split) (metis fst_conv)

lemma answers_if:
  "(P \<Longrightarrow> answers Q m) \<Longrightarrow> (\<not> P \<Longrightarrow> answers Q n) \<Longrightarrow> answers Q (if P then m else n)"
  by simp

lemma answers_option:
  "(x = None \<Longrightarrow> answers Q m) \<Longrightarrow> (\<And>y. x = Some y \<Longrightarrow> answers Q (f y)) \<Longrightarrow>
    answers Q (case x of None \<Rightarrow> m | Some y \<Rightarrow> f y)"
  by (simp split: option.split)

lemma answers_sum:
  "(\<And>y. x = Inl y \<Longrightarrow> answers Q (g y)) \<Longrightarrow> (\<And>y. x = Inr y \<Longrightarrow> answers Q (f y)) \<Longrightarrow>
    answers Q (case x of Inl y \<Rightarrow> g y | Inr y \<Rightarrow> f y)"
  by (simp split: sum.split)

lemma answers_prod:
  "(\<And>y z. x = (y, z) \<Longrightarrow> answers Q (f y z)) \<Longrightarrow> answers Q (case x of (y, z) \<Rightarrow> f y z)"
  by (simp split: prod.split)

lemmas answers_intros = answers_bind answers_if answers_option answers_sum answers_prod answers_ret

lemma answers_prepare:
  assumes "\<And>e. answers Q (f (None, Some e))" "\<And>rec e. answers Q (f (Some rec, Some e))"
    and "\<And>rec. answers Q (f (Some rec, None))"
  shows "answers Q (bind (prepare d origin req name k previous) f)"
proof (rule answers_bind_with [where P = "\<lambda>(out, err). out = None \<longrightarrow> err \<noteq> None"])
  show "answers (\<lambda>(out, err). out = None \<longrightarrow> err \<noteq> None) (prepare d origin req name k previous)"
    unfolding answers_def
    by (auto split: prod.split) (metis prepare_unready option.exhaust prod.collapse)
next
  fix a :: "Record option \<times> goerror option"
  assume "case a of (out, err) \<Rightarrow> out = None \<longrightarrow> err \<noteq> None"
  then show "answers Q (f a)" using assms by (cases a; cases "fst a"; cases "snd a") auto
qed

section \<open>Working down a ranking\<close>

text \<open>
  The specification: each provider is tried at most once, in order, while \<open>tried\<close> is below the
  budget; a reservation the ledger refused costs nothing, a failure another provider may not
  repeat costs one, and anything else is final.
\<close>

inductive attempts :: "int \<Rightarrow> string list \<Rightarrow> int \<Rightarrow> Attempt list \<Rightarrow> bool" for limit where
  stop: "attempts limit ns k []"
| refused: "k < limit \<Longrightarrow> has_refusal e \<Longrightarrow> attempts limit ns k as \<Longrightarrow>
    attempts limit (n # ns) k (\<lparr>at_Provider = n, at_ID = i, at_Err = Some e, at_Refused = True\<rparr> # as)"
| rerouted: "k < limit \<Longrightarrow> Plugin.Reroutable e \<Longrightarrow> attempts limit ns (k + 1) as \<Longrightarrow>
    attempts limit (n # ns) k (\<lparr>at_Provider = n, at_ID = i, at_Err = Some e, at_Refused = False\<rparr> # as)"
| final: "k < limit \<Longrightarrow> (\<And>e. err = Some e \<Longrightarrow> \<not> Plugin.Reroutable e) \<Longrightarrow>
    attempts limit (n # ns) k [\<lparr>at_Provider = n, at_ID = i, at_Err = err, at_Refused = False\<rparr>]"

lemma attempts_order: "attempts limit ns k as \<Longrightarrow> map at_Provider as = take (length as) ns"
  by (induction rule: attempts.induct) auto

lemma attempts_budget:
  "attempts limit ns k as \<Longrightarrow> k + int (length (filter (\<lambda>a. \<not> at_Refused a) as)) \<le> max k limit"
  by (induction rule: attempts.induct) auto

lemma attempts_butlast:
  "attempts limit ns k as \<Longrightarrow> a \<in> set (butlast as) \<Longrightarrow>
    \<exists>e. at_Err a = Some e \<and> (if at_Refused a then has_refusal e else Plugin.Reroutable e)"
  by (induction rule: attempts.induct) (auto split: if_splits)

lemma tried_count_filter: "tried_count as k = k + int (length (filter (\<lambda>a. \<not> at_Refused a) as))"
  by (induction as arbitrary: k) auto

text \<open>How an outcome grows: its attempts, and its answer when the last attempt gave one.\<close>

definition grown :: "TaskOutcome \<Rightarrow> Attempt list \<Rightarrow> goerror option \<Rightarrow> TaskOutcome \<Rightarrow> bool" where
  "grown o1 as err o2 \<longleftrightarrow> to_Attempts o2 = to_Attempts o1 @ as \<and>
     to_Task o2 = to_Task o1 \<and> to_Rejections o2 = to_Rejections o1 \<and>
     (case err of
        None \<Rightarrow> as \<noteq> [] \<and> last as = \<lparr>at_Provider = to_Provider o2, at_ID = to_ID o2, at_Err = None, at_Refused = False\<rparr>
      | Some e \<Rightarrow> to_Provider o2 = to_Provider o1 \<and> to_ID o2 = to_ID o1 \<and> to_State o2 = to_State o1 \<and>
          to_Result o2 = to_Result o1 \<and> (\<forall>a \<in> set as. at_Err a \<noteq> None))"

lemma grown_Cons:
  assumes "grown (add_attempt a o1) as err o2" "at_Err a \<noteq> None"
  shows "grown o1 (a # as) err o2"
  using assms by (auto simp: grown_def add_attempt_def split: option.splits)

definition attempted :: "int \<Rightarrow> string list \<Rightarrow> int \<Rightarrow> TaskOutcome \<Rightarrow> (TaskOutcome \<times> goerror option) option \<Rightarrow> bool" where
  "attempted limit ns k o1 out = (case out of None \<Rightarrow> True
     | Some (o2, err) \<Rightarrow> \<exists>as. attempts limit ns k as \<and> grown o1 as err o2)"

lemma attempted_failed [simp]: "attempted limit ns k o1 (Some (o1, Some e))"
  by (auto simp: attempted_def grown_def intro!: exI [of _ "[]"] attempts.stop)

lemma attempted_None [simp]: "attempted limit ns k o1 None"
  by (simp add: attempted_def)

lemma attempted_refused:
  assumes "attempted limit ns k (add_attempt \<lparr>at_Provider = n, at_ID = i, at_Err = Some e, at_Refused = True\<rparr> o1) out"
    and "k < limit" "has_refusal e"
  shows "attempted limit (n # ns) k o1 out"
  using assms by (auto simp: attempted_def split: option.splits intro!: grown_Cons attempts.refused)

lemma attempted_rerouted:
  assumes "attempted limit ns (k + 1) (add_attempt \<lparr>at_Provider = n, at_ID = i, at_Err = Some e, at_Refused = False\<rparr> o1) out"
    and "k < limit" "Plugin.Reroutable e"
  shows "attempted limit (n # ns) k o1 out"
  using assms by (auto simp: attempted_def split: option.splits intro!: grown_Cons attempts.rerouted)

lemma attempted_final:
  assumes "k < limit" "\<not> Plugin.Reroutable e"
  shows "attempted limit (n # ns) k o1
    (Some (add_attempt \<lparr>at_Provider = n, at_ID = i, at_Err = Some e, at_Refused = False\<rparr> o1, Some e))"
  using assms by (auto simp: attempted_def grown_def add_attempt_def intro!: exI attempts.final)

lemma attempted_answered:
  assumes "k < limit"
  shows "attempted limit (n # ns) k o1
    (Some (answered n i an (add_attempt \<lparr>at_Provider = n, at_ID = i, at_Err = None, at_Refused = False\<rparr> o1), None))"
  using assms by (auto simp: attempted_def grown_def add_attempt_def answered_def intro!: exI attempts.final)

lemma attempt_loop_attempts:
  "answers (attempted (budget po) (map in_Provider ranking) k o1)
     (attempt_loop d origin req po ranking lastErr k previous o1)"
proof (induction ranking arbitrary: lastErr k previous o1)
  case Nil
  show ?case by (simp add: answers_ret)
next
  case (Cons c ranking)
  note more = answers_mono [OF Cons.IH attempted_rerouted] answers_mono [OF Cons.IH attempted_refused]
  show ?case unfolding attempt_loop.simps Let_def
    by (intro answers_if answers_option answers_ret answers_prepare attempted_failed)
      (auto simp: refused_def intro!: answers_intros attempted_answered attempted_final
        intro: more)
qed

section \<open>Running a job\<close>

lemma attempted_task:
  "attempted limit ns k o1 (Some (o2, err)) \<Longrightarrow> to_Task o2 = to_Task o1 \<and> to_Rejections o2 = to_Rejections o1"
  by (auto simp: attempted_def grown_def)

definition task_answer :: "Task \<Rightarrow> (TaskOutcome option \<times> goerror option) option \<Rightarrow> bool" where
  "task_answer task out = (case out of None \<Rightarrow> True
     | Some (r, err) \<Rightarrow> (\<forall>o2. r = Some o2 \<longrightarrow> to_Task o2 = task_Name task) \<and> (err = None \<longrightarrow> r \<noteq> None))"

lemma RunTask_answers: "answers (task_answer task) (RunTask d origin task routing eval)"
proof -
  have att: "answers (\<lambda>out. \<forall>o2 err. out = Some (o2, err) \<longrightarrow> to_Task o2 = to_Task o1) (attempt d origin req ranking o1)"
    for req ranking and o1 :: TaskOutcome
    unfolding attempt_def
    by (rule answers_mono [OF attempt_loop_attempts]) (auto dest: attempted_task)
  show ?thesis
    unfolding RunTask_def Let_def
    by (intro answers_prod answers_if answers_bind_with [OF att] answers_bind answers_ret)
      (auto simp: task_answer_def split: option.split)
qed

text \<open>The tasks of a job that ran: a prefix of the job, all but the last of them succeeded.\<close>

definition ran_in_order :: "Task list \<Rightarrow> JobOutcome \<Rightarrow> (JobOutcome \<times> goerror option) option \<Rightarrow> bool" where
  "ran_in_order tasks o1 out = (case out of None \<Rightarrow> True
     | Some (o2, err) \<Rightarrow> \<exists>ts. jo_Tasks o2 = jo_Tasks o1 @ ts \<and>
         map to_Task ts = take (length ts) (map task_Name tasks) \<and>
         (\<forall>t \<in> set (butlast ts). TaskOutcome_Succeeded t) \<and>
         (err = None \<and> (\<forall>t \<in> set ts. TaskOutcome_Succeeded t) \<longrightarrow> length ts = length tasks))"

lemma ran_in_order_Cons:
  assumes "ran_in_order tasks (o1\<lparr>jo_Tasks := jo_Tasks o1 @ [r]\<rparr>) out"
    "TaskOutcome_Succeeded r" "to_Task r = task_Name task"
  shows "ran_in_order (task # tasks) o1 out"
proof (cases out)
  case (Some x)
  obtain o2 err where x: "x = (o2, err)" by (cases x)
  from assms(1) obtain ts where "jo_Tasks o2 = jo_Tasks o1 @ [r] @ ts"
    "map to_Task ts = take (length ts) (map task_Name tasks)"
    "\<forall>t \<in> set (butlast ts). TaskOutcome_Succeeded t"
    "err = None \<and> (\<forall>t \<in> set ts. TaskOutcome_Succeeded t) \<longrightarrow> length ts = length tasks"
    by (auto simp: ran_in_order_def Some x)
  with assms(2,3) show ?thesis
    by (auto simp: ran_in_order_def Some x intro!: exI [of _ "r # ts"])
qed (simp add: ran_in_order_def)

lemma ran_in_order_stop:
  assumes "task_answer task (Some (r, err))"
  shows "ran_in_order (task # tasks) o1
      (Some (case r of None \<Rightarrow> o1 | Some r \<Rightarrow> o1\<lparr>jo_Tasks := jo_Tasks o1 @ [r]\<rparr>, Some e))"
    and "r = Some r' \<Longrightarrow> \<not> TaskOutcome_Succeeded r' \<Longrightarrow>
      ran_in_order (task # tasks) o1 (Some (o1\<lparr>jo_Tasks := jo_Tasks o1 @ [r']\<rparr>, None))"
  using assms by (cases r; force simp: ran_in_order_def task_answer_def)+

lemma Run_loop_answers:
  "answers (ran_in_order tasks o1) (Run_loop d origin routing eval tasks o1)"
proof (induction tasks arbitrary: o1)
  case Nil
  show ?case by (auto intro!: answers_ret simp: ran_in_order_def)
next
  case (Cons task tasks)
  have lost: "ran_in_order (task # tasks) o1 (Some (o1, Some e))" for e
    by (auto simp: ran_in_order_def intro!: exI [of _ "[]"])
  have one: "answers (ran_in_order (task # tasks) o1)
      (let outcome = (case r of None \<Rightarrow> o1 | Some r \<Rightarrow> o1\<lparr>jo_Tasks := jo_Tasks o1 @ [r]\<rparr>) in
       case err of
         Some e \<Rightarrow> ret (Some (outcome, Some (Formatted ''task %q: %w'' [S (task_Name task)] [e])))
       | None \<Rightarrow>
           if \<not> (case r of None \<Rightarrow> False | Some r \<Rightarrow> TaskOutcome_Succeeded r)
           then ret (Some (outcome, None))
           else Run_loop d origin routing eval tasks outcome)"
    if "task_answer task (Some (r, err))" for r err
  proof (cases err)
    case (Some e)
    then show ?thesis using ran_in_order_stop(1) [OF that] by (simp add: Let_def answers_ret)
  next
    case None
    with that obtain r' where r: "r = Some r'" "to_Task r' = task_Name task"
      by (auto simp: task_answer_def)
    show ?thesis
    proof (cases "TaskOutcome_Succeeded r'")
      case True
      with r None show ?thesis
        by (auto simp: Let_def intro!: answers_mono [OF Cons.IH] ran_in_order_Cons)
    next
      case False
      with r None ran_in_order_stop(2) [OF that r(1)] show ?thesis by (simp add: Let_def answers_ret)
    qed
  qed
  show ?case unfolding Run_loop.simps
    by (intro answers_bind_with [OF RunTask_answers] answers_bind answers_if answers_option answers_prod
        answers_ret lost) (auto simp: ran_in_order_def [of _ _ None] intro!: one)
qed

section \<open>Waiting\<close>

lemma doubling_eq:
  assumes "0 < w" "w \<le> l" "l \<le> MaxInt64 div 2"
  shows "doubling n w l = min (w * 2 ^ n) l"
  using assms
proof (induction n arbitrary: w)
  case (Suc n)
  have "int64 (w * 2)" using Suc.prems by (simp add: int64_def MaxInt64_def)
  then have w: "wrap64 (w * 2) = w * 2" by simp
  show ?case
  proof (cases "l \<le> w * 2")
    case True
    have "w * 2 * 1 \<le> w * 2 * 2 ^ n" using Suc.prems(1) by (intro mult_left_mono) auto
    with True have "l \<le> w * 2 ^ Suc n" by (simp add: mult_ac)
    with True show ?thesis by (simp add: w min_def)
  next
    case False
    with Suc.IH [of "w * 2"] Suc.prems show ?thesis by (simp add: w mult_ac)
  qed
qed simp

lemma duration_pos: "duration d = Some v \<Longrightarrow> 0 < v"
  by (auto simp: duration_def split: option.splits sum.splits if_splits)

text \<open>What a task's policy always has: at least one attempt, and waits that are positive.\<close>

lemma retryPolicy_pos:
  "1 \<le> po_attempts (retryPolicy task)" "0 < po_initial (retryPolicy task)" "0 < po_max (retryPolicy task)"
  by (auto simp: retryPolicy_def Let_def defaultAttempts_def defaultBackoffInitial_def
      defaultBackoffMax_def Second_def split: option.split dest: duration_pos)

section \<open>Every run ends\<close>

text \<open>
  \<open>m\<close> bounds the polls an environment can still answer with an execution under way: sleeping,
  reading the clock and replacing a credential do not raise it, and a status that is neither
  final nor an error lowers it.
\<close>

definition settles :: "('s, 'x, 'w) Dispatcher \<Rightarrow> ('w \<Rightarrow> nat) \<Rightarrow> bool" where
  "settles d m \<longleftrightarrow>
     (\<forall>t w. m (snd (d_sleep d t w)) \<le> m w) \<and> (\<forall>w. m (snd (d_now d w)) \<le> m w) \<and>
     (\<forall>n w. m (snd (d_recredential d n w)) \<le> m w) \<and>
     (\<forall>n p i w st1 err w'. d_provider d n = Some p \<longrightarrow> p_Status p i w = ((st1, err), w') \<longrightarrow>
        m w' < m w \<or> m w' \<le> m w \<and> (err \<noteq> None \<or> State_Terminal (st_State st1)))"

definition calm :: "('w \<Rightarrow> nat) \<Rightarrow> ('s, 'x, 'w) World \<Rightarrow> ('s, 'x, 'w) World \<Rightarrow> bool" where
  "calm m s t \<longleftrightarrow> m (x_env (w_ext t)) \<le> m (x_env (w_ext s))"

interpretation calm: run_relation "calm m" for m
  by unfold_locales (auto simp: calm_def)

lemma calm_now: "settles d m \<Longrightarrow> state_io_rel (calm m) (ext (now d))"
  by (auto simp: settles_def calm_def now_def intro!: state_io_relI split: prod.splits) (metis snd_conv)

lemma calm_sleep: "settles d m \<Longrightarrow> state_io_rel (calm m) (ext (sleep d t))"
  by (auto simp: settles_def calm_def sleep_def effect_def intro!: state_io_relI split: prod.splits)
    (metis snd_conv)

lemma calm_call: "state_io_rel (calm m) (ext (record_call c))"
  by (auto simp: calm_def intro!: state_io_relI)

lemma calm_executions: "state_io_rel (calm m) (on_executions f)"
  by (auto simp: calm_def intro!: state_io_relI split: prod.splits)

lemma calm_track_to: "settles d m \<Longrightarrow> state_io_rel (calm m) (track_to d n rec)"
  unfolding track_to_def Let_def
  by (intro calm.rel_bind calm.rel_if calm.rel_sum calm.rel_return calm_now calm_call calm_executions)

lemma status_settles:
  assumes "settles d m" "d_provider d n = Some p" "run_state (ext (status d p i)) s = ((st1, err), t)"
  shows "m (x_env (w_ext t)) < m (x_env (w_ext s)) \<or>
    m (x_env (w_ext t)) \<le> m (x_env (w_ext s)) \<and> (err \<noteq> None \<or> State_Terminal (st_State st1))"
proof -
  note c = assms(1) [unfolded settles_def]
  have p: "m w' < m w \<or> m w' \<le> m w \<and> (e \<noteq> None \<or> State_Terminal (st_State a))"
    if "p_Status p i w = ((a, e), w')" for a e w w'
    using c assms(2) that by blast
  have r: "m w' \<le> m w" if "d_recredential d k w = (r, w')" for k w r w'
  proof -
    from c have "m (snd (d_recredential d k w)) \<le> m w" by blast
    with that show ?thesis by simp
  qed
  let ?w = "x_env (w_ext s)"
  obtain a e w1 where one: "p_Status p i ?w = ((a, e), w1)" by (metis surj_pair)
  note one' = p [OF one]
  show ?thesis
  proof (cases "e \<noteq> None \<and> err_is ErrUnauthorized (the e)")
    case False
    then have "x_env (w_ext t) = w1" "st1 = a" "err = e"
      using assms(3) one by (auto simp: status_def authorized_def effect_def split: option.splits)
    with one' show ?thesis by simp
  next
    case True
    obtain retry rerr w2 where rec: "d_recredential d (p_Name p) w1 = ((retry, rerr), w2)" by (metis surj_pair)
    obtain b f w3 where two: "p_Status p i w2 = ((b, f), w3)" by (metis surj_pair)
    have "m w2 \<le> m ?w" using r [OF rec] one' by auto
    moreover have "rerr \<noteq> None \<or> \<not> retry \<Longrightarrow> x_env (w_ext t) = w2 \<and> err \<noteq> None"
      and "rerr = None \<Longrightarrow> retry \<Longrightarrow> x_env (w_ext t) = w3 \<and> st1 = b \<and> err = f"
      using assms(3) one rec two True
      by (auto simp: status_def authorized_def effect_def split: option.splits if_splits)
    ultimately show ?thesis using p [OF two] by (cases "rerr = None \<and> retry") auto
  qed
qed

lemma watch_loop_returns:
  assumes "settles d m" "d_provider d n = Some p" "m (x_env (w_ext s)) < fuel"
  shows "fst (run_state (watch_loop fuel d p event last_state k rec) s) \<noteq> None"
  using assms(3)
proof (induction fuel arbitrary: event last_state k rec s)
  case (Suc fuel)
  obtain slept u where sl: "run_state (ext (sleep d (interval (d_poll d) k))) s = (slept, u)" by fastforce
  have u: "m (x_env (w_ext u)) \<le> m (x_env (w_ext s))"
    using state_io_relD [OF calm_sleep [OF assms(1)] sl] by (simp add: calm_def)
  obtain st1 err v where st: "run_state (ext (status d p (st_ID rec))) u = ((st1, err), v)" by (metis surj_pair)
  note v = status_settles [OF assms(1,2) st]
  obtain rec' w where tr: "run_state (track_to d (st_State st1) rec) v = (rec', w)" by fastforce
  have w: "m (x_env (w_ext w)) \<le> m (x_env (w_ext v))"
    using state_io_relD [OF calm_track_to [OF assms(1)] tr] by (simp add: calm_def)
  obtain e' x where rp: "run_state (ext (report d (event\<lparr>ev_State := st_State st1\<rparr>))) w = (e', x)"
    by (metis surj_pair)
  have x: "x_env (w_ext x) = x_env (w_ext w)" using rp by (auto simp: report_def split: if_splits)
  show ?case
  proof (cases "slept = None \<and> err = None \<and> \<not> State_Terminal (st_State st1)")
    case False
    then show ?thesis using sl st by (auto simp del: run_ext split: option.split)
  next
    case True
    with v u Suc.prems have "m (x_env (w_ext v)) < fuel" by auto
    moreover with w x have "m (x_env (w_ext x)) < fuel" by simp
    ultimately show ?thesis
      using True sl st tr rp Suc.IH by (auto simp del: run_ext)
  qed
qed simp

text \<open>Enough fuel: more than any execution has polls left.\<close>

definition enough_fuel :: "('s, 'x, 'w) Dispatcher \<Rightarrow> bool" where
  "enough_fuel d \<longleftrightarrow> (\<exists>m. settles d m \<and> (\<forall>w. m w < d_fuel d))"

abbreviation ends :: "('s, 'a option) state \<Rightarrow> bool" where "ends \<equiv> answers (\<lambda>r. r \<noteq> None)"

lemma ends_case:
  "ends m \<Longrightarrow> (\<And>y. ends (f y)) \<Longrightarrow> ends (bind m (\<lambda>r. case r of None \<Rightarrow> ret None | Some y \<Rightarrow> f y))"
  by (rule answers_bind_with, assumption) auto

lemma ends_Some: "ends (ret (Some a))"
  by (simp add: answers_ret)

lemma ends_map: "ends m \<Longrightarrow> ends (bind m (\<lambda>r. ret (map_option f r)))"
  by (rule answers_bind_with, assumption) (auto intro: answers_ret)

lemma follow_ends:
  assumes fuel: "enough_fuel d"
  shows "d_provider d n = Some p \<Longrightarrow> ends (follow d p event rec)"
proof -
  assume p: "d_provider d n = Some p"
  obtain m where "settles d m" "\<forall>w. m w < d_fuel d" using fuel by (auto simp: enough_fuel_def)
  then have "ends (watch d p event rec)"
    unfolding answers_def watch_def using watch_loop_returns [OF _ p] by blast
  then show ?thesis
    unfolding follow_def Let_def
    by (intro ends_case answers_prod answers_bind answers_option answers_if ends_Some)
qed

lemma execute_ends:
  assumes fuel: "enough_fuel d"
  shows "d_provider d n = Some p \<Longrightarrow> ends (execute d p task members rec)"
  unfolding execute_def Let_def
  by (intro answers_prod answers_bind answers_option answers_if ends_Some follow_ends [OF fuel])

lemma attempt_loop_ends:
  assumes fuel: "enough_fuel d"
  shows "ends (attempt_loop d origin req po ranking lastErr k previous o1)"
proof (induction ranking arbitrary: lastErr k previous o1)
  case (Cons c ranking)
  show ?case unfolding attempt_loop.simps Let_def
    by (intro answers_if answers_option ends_Some answers_bind answers_prod ends_case execute_ends [OF fuel] Cons.IH)
qed (simp add: answers_ret)

lemma RunTask_ends:
  assumes fuel: "enough_fuel d"
  shows "ends (RunTask d origin task routing eval)"
  unfolding RunTask_def Let_def attempt_def
  by (intro answers_prod answers_if ends_Some ends_map answers_bind attempt_loop_ends [OF fuel])

lemma Run_loop_ends:
  assumes fuel: "enough_fuel d"
  shows "ends (Run_loop d origin routing eval tasks o1)"
proof (induction tasks arbitrary: o1)
  case (Cons task tasks)
  show ?case unfolding Run_loop.simps Let_def
    by (intro ends_case RunTask_ends [OF fuel] answers_bind answers_prod answers_if answers_option ends_Some Cons.IH)
qed (simp add: answers_ret)

lemma Run_ends:
  assumes fuel: "enough_fuel d"
  shows "ends (Run d origin j eval)"
  unfolding Run_def Let_def by (intro answers_if ends_Some ends_map Run_loop_ends [OF fuel])

lemma resume_ends:
  assumes fuel: "enough_fuel d"
  shows "ends (resume d rec)"
  unfolding resume_def
  by (intro answers_option ends_case follow_ends [OF fuel] answers_bind answers_prod ends_Some)

lemma resume_loop_ends:
  assumes fuel: "enough_fuel d"
  shows "ends (resume_loop d recs)"
proof (induction recs)
  case (Cons rec recs)
  show ?case unfolding resume_loop.simps
    by (intro ends_case answers_if resume_ends [OF fuel] ends_Some ends_map Cons.IH)
qed (simp add: answers_ret)

lemma Resume_ends:
  assumes fuel: "enough_fuel d"
  shows "ends (Resume text_of d claimed)"
  unfolding Resume_def Let_def
  by (intro answers_bind answers_sum ends_case resume_loop_ends [OF fuel] answers_prod ends_Some)

end
