(* ===== verification/Recovery.thy ===== *)
theory Recovery
  imports Attempts
begin

text \<open>
  What cleaning up after a run may do: a reservation is settled by the reaper only on a
  provider's final word, and an execution is released at its provider only once its quota is.
\<close>

section \<open>The reaper\<close>

definition final_word :: "Status \<Rightarrow> goerror option \<Rightarrow> bool" where
  "final_word st1 err \<longleftrightarrow>
     (case err of
        Some e \<Rightarrow> err_is ErrUnknownExecution e \<or> err_is ErrUnsupported e
      | None \<Rightarrow> State_Terminal (st_State st1))"

lemma resolve_final:
  assumes "run_state (resolve d h) x = ((v, dur), y)" "v \<noteq> Keep"
  shows "\<exists>p st1 err. d_provider d (held_Provider h) = Some p \<and>
    run_state (status d p (held_ID h)) x = ((st1, err), y) \<and> final_word st1 err"
  using assms
  by (auto simp: resolve_def final_word_def split: option.splits prod.splits if_splits)

lemma Memory_settle_held:
  "map_of (mem_held (Memory_settle i actual m)) = (map_of (mem_held m))(i := None)"
  by (auto simp: Memory_settle_def delete_conv' split: option.split)

text \<open>One pass: a reservation it finds is kept as it is, or was old and its callback settled it.\<close>

lemma Reap_loop_held:
  assumes "Reap_loop before settle hs m w n = (n', m', w')" "distinct (map fst hs)"
    and "\<forall>(j, q) \<in> set hs. map_of (mem_held m) j = Some q"
    and "map_of (mem_held m) i = Some r" "map_of (mem_held m') i \<noteq> Some r"
  shows "rsv_Created r < before \<and> (\<exists>actual u u'. settle (held_of i r) u = (Some actual, u'))"
  using assms
proof (induction hs arbitrary: m w n)
  case (Cons h hs)
  obtain j q where h: "h = (j, q)" by (cases h)
  show ?case
  proof (cases "rsv_Created q < before \<and> fst (settle (held_of j q) w) \<noteq> None")
    case False
    then obtain w2 where "Reap_loop before settle hs m w2 n = (n', m', w')"
      using Cons.prems(1) by (auto simp: h split: if_splits prod.splits)
    then show ?thesis using Cons.prems by (intro Cons.IH [of m w2 n]) (auto simp: h)
  next
    case True
    then obtain actual w2 where s: "settle (held_of j q) w = (Some actual, w2)"
      by (metis option.exhaust prod.collapse)
    show ?thesis
    proof (cases "i = j")
      case True
      with Cons.prems(3,4) s \<open>rsv_Created q < before \<and> _\<close> show ?thesis by (auto simp: h)
    next
      case False
      let ?m = "Memory_settle j actual m"
      have "Reap_loop before settle hs ?m w2 (n + 1) = (n', m', w')"
        using Cons.prems(1) True by (simp add: h s)
      moreover have "\<forall>(k, q) \<in> set hs. map_of (mem_held ?m) k = Some q"
        using Cons.prems(2,3) by (auto simp: h Memory_settle_held rev_image_eqI)
      ultimately show ?thesis using Cons.prems False
        by (intro Cons.IH [of ?m w2 "n + 1"]) (auto simp: h Memory_settle_held)
    qed
  qed
qed simp

lemma reap_settle_final:
  assumes "reap_settle l (\<lambda>h. run_state (resolve d h)) h x = (Some actual, y)"
  shows "\<exists>p st1 err. d_provider d (held_Provider h) = Some p \<and>
    run_state (status d p (held_ID h)) x = ((st1, err), y) \<and> final_word st1 err"
proof -
  obtain v dur where "run_state (resolve d h) x = ((v, dur), y)" "v \<noteq> Keep"
    using assms by (auto simp: reap_settle_def split: prod.splits Verdict.splits)
  then show ?thesis by (rule resolve_final)
qed

lemma held_of_simps [simp]: "held_ID (held_of i r) = i" "held_Provider (held_of i r) = rsv_Provider r"
  by (simp_all add: held_of_def)

lemma Reap_final:
  assumes "run_state (Dispatcher_Reap d) s = (out, t)" "d_store d = memory_store"
    and "distinct (map fst (mem_held (w_store s)))"
    and "map_of (mem_held (w_store s)) i = Some r" "map_of (mem_held (w_store t)) i \<noteq> Some r"
  shows "rsv_Created r < fst (d_now d (x_env (w_ext s))) - StaleAfter"
    and "\<exists>p x st1 err y. d_provider d (rsv_Provider r) = Some p \<and>
      run_state (status d p i) x = ((st1, err), y) \<and> final_word st1 err"
proof -
  obtain n x u w where loop: "Reap_loop (fst (d_now d (x_env (w_ext s))) - StaleAfter) (reap_settle (w_led s) (\<lambda>h. run_state (resolve d h)))
      (mem_held (w_store s)) (w_store s) u 0 = (n, x, w)" "w_store t = x"
    using assms(1,2)
    by (auto simp: Dispatcher_Reap_def now_def Ledger_Reap_def Memory_Reap_def split: prod.splits)
  have keys: "\<forall>(j, q) \<in> set (mem_held (w_store s)). map_of (mem_held (w_store s)) j = Some q"
    using assms(3) by auto
  note held = Reap_loop_held [OF loop(1) assms(3) keys assms(4)]
  show "rsv_Created r < fst (d_now d (x_env (w_ext s))) - StaleAfter" using held assms(5) loop(2) by auto
  obtain actual a b where "reap_settle (w_led s) (\<lambda>h. run_state (resolve d h)) (held_of i r) a = (Some actual, b)"
    using held assms(5) loop(2) by auto
  from reap_settle_final [OF this] show "\<exists>p x st1 err y. d_provider d (rsv_Provider r) = Some p \<and>
      run_state (status d p i) x = ((st1, err), y) \<and> final_word st1 err"
    unfolding held_of_simps by blast
qed

section \<open>Releasing leftovers\<close>

text \<open>No release, and the same reservations.\<close>

definition unreleased :: "('s, 'x, 'w) World \<Rightarrow> ('s, 'x, 'w) World \<Rightarrow> bool" where
  "unreleased s t \<longleftrightarrow> emits (\<lambda>c. \<forall>n i. c \<noteq> CallRelease n i) s t \<and> w_store t = w_store s"

interpretation unreleased: run_relation unreleased
proof unfold_locales
  fix s t u :: "('s, 'x, 'w) World"
  assume "unreleased s t" "unreleased t u"
  then show "unreleased s u" unfolding unreleased_def emits_def
    by (metis append.assoc Un_iff set_append)
qed (simp add: unreleased_def emits_def)

lemma unreleased_env: "state_io_rel unreleased (ext (Effects.env f))"
  by (auto simp: unreleased_def emits_def intro!: state_io_relI split: prod.splits)

lemma unreleased_call: "(\<And>n i. c \<noteq> CallRelease n i) \<Longrightarrow> state_io_rel unreleased (ext (record_call c))"
  by (auto simp: unreleased_def emits_def intro!: state_io_relI)

lemma unreleased_executions: "state_io_rel unreleased (on_executions f)"
  by (auto simp: unreleased_def emits_def intro!: state_io_relI split: prod.splits)

lemmas unreleased_steps = unreleased.rel_bind unreleased.rel_return unreleased.rel_if
  unreleased.rel_option unreleased.rel_sum unreleased.rel_prod unreleased_env unreleased_executions

lemma unreleased_now: "state_io_rel unreleased (ext (now d))"
  unfolding now_def by (rule unreleased_env)

lemma unreleased_asks:
  "state_io_rel unreleased (ext (status d p i))" "state_io_rel unreleased (ext (fetch_result d p i))"
  unfolding status_def fetch_result_def authorized_def effect_def ext_push
  by (intro unreleased_steps unreleased_call; simp)+

lemma unreleased_resolveLost: "state_io_rel unreleased (resolveLost d rec st1 res)"
  unfolding resolveLost_def by (intro unreleased_steps unreleased_now unreleased_call) simp

lemma unreleased_reconcileLost: "state_io_rel unreleased (reconcileLost d rec)"
  unfolding reconcileLost_def expire_lost_def
  by (intro unreleased_steps unreleased_now unreleased_asks unreleased_resolveLost)

lemma resolveLost_same: "answers (\<lambda>(err, rec'). st_ID rec' = st_ID rec) (resolveLost d rec st1 res)"
  unfolding resolveLost_def
  by (intro answers_bind answers_sum answers_option answers_ret) (auto simp: Status_To_Inr)

lemma reconcileLost_same: "answers (\<lambda>(err, rec'). st_ID rec' = st_ID rec) (reconcileLost d rec)"
  unfolding reconcileLost_def expire_lost_def
  by (intro answers_bind answers_option answers_if answers_prod answers_ret resolveLost_same) simp_all

lemma releaseLeftover_reserved:
  assumes "run_state (releaseLeftover d rec) s = ((released, err), t)"
    and "Ledger_Reserved (d_store d) (st_ID rec) (w_store s) \<noteq> Inr False"
  shows "\<not> released \<and> unreleased s t"
proof -
  obtain lerr rec' u where lost: "run_state (if st_State rec = StateLost then reconcileLost d rec
      else ret (None, rec)) s = ((lerr, rec'), u)" by (metis surj_pair)
  have "unreleased s u \<and> st_ID rec' = st_ID rec"
    using lost state_io_relD [OF unreleased_reconcileLost] answersD [OF reconcileLost_same]
    by (fastforce split: if_splits intro: unreleased.refl)
  moreover from this assms lost have "released = False \<and> t = u"
    unfolding releaseLeftover_def
    by (auto simp: unreleased_def split: option.splits if_splits sum.splits)
  ultimately show ?thesis by simp
qed

end
