(* ===== verification/Serving.thy ===== *)
theory Serving
  imports Server Recovery
begin

text \<open>
  What the server promises of its handlers and of the runs it starts.  \<open>server_step\<close> is one thing that
  happens in a serving process: a request, a run coming to its end, an upkeep task, or an agent's session.
\<close>

section \<open>Running a handler\<close>

lemma run_in_world [simp]:
  "run_state (in_world m) s = (case run_state m (sg_world s) of (a, w) \<Rightarrow> (a, s\<lparr>sg_world := w\<rparr>))"
  by (simp add: in_world_def)

lemma run_on_jobs [simp]:
  "run_state (on_jobs f) s = (case f (sg_store s) of (a, j) \<Rightarrow> (a, s\<lparr>sg_store := j\<rparr>))"
  by (simp add: on_jobs_def)

lemma run_read_serving [simp]: "run_state (read_serving f) s = (f s, s)"
  by (simp add: read_serving_def)

lemma run_change_serving [simp]: "run_state (change_serving f) s = ((), f s)"
  by (simp add: change_serving_def)

lemma checked_simps [simp]: "checked (Inl err) k = ret (Inl err)" "checked (Inr a) k = k a"
  by (simp_all add: checked_def)

lemma plain_error_simps [simp]:
  "plain_error (Inl err) = Inl (PlainError err)" "plain_error (Inr a) = Inr a"
  by (simp_all add: plain_error_def)

section \<open>No request panics\<close>

text \<open>The parser reports an error whenever it has no body to answer with.\<close>

definition parses :: "Hcl \<Rightarrow> bool" where
  "parses h \<longleftrightarrow> (\<forall>source name diags. hcl_ParseConfig h source name = (None, diags) \<longrightarrow> HasErrors diags)"

lemma Validate_None [simp]: "Validate h None = []"
  by (simp add: Validate_def)

lemma loaded_Panics: "loaded (parsed, diags) = Panics \<longleftrightarrow> \<not> HasErrors diags \<and> first_job parsed = None"
  by (simp add: loaded_def split: option.split)

lemma Load_first:
  assumes "parses h" "Load h dec filename source meta = (parsed, diags)" "\<not> HasErrors diags"
  shows "\<exists>j. first_job parsed = Some j \<and> job_wf h j"
proof (cases parsed)
  case None
  with assms(2,3) have "hcl_ParseConfig h source (sourceName filename) = (None, diags)"
    by (auto simp: Load_def Parse_def parseSource_def Let_def split: prod.splits option.splits if_splits)
  with assms show ?thesis by (auto simp: parses_def)
next
  case (Some p)
  from Load_valid [OF assms(2) [unfolded Some] assms(3)] obtain j
    where "ps_Spec p = Some \<lparr>file_Jobs = [j]\<rparr>" "job_wf h j" by blast
  then show ?thesis by (simp add: Some first_job_def)
qed

lemma loaded_Load:
  assumes "parses h" shows "loaded (Load h dec filename source meta) \<noteq> Panics"
proof -
  obtain parsed diags where load: "Load h dec filename source meta = (parsed, diags)" by fastforce
  show ?thesis using Load_first [OF assms load] by (auto simp: load loaded_Panics)
qed

lemma loaded_ForRegister:
  assumes "parses h" shows "loaded (ForRegister h dec filename source) \<noteq> Panics"
proof -
  obtain decl ds where d: "Declared h filename source = (decl, ds)" by fastforce
  show ?thesis
    using loaded_Load [OF assms, of dec filename source "References decl"]
    by (simp add: ForRegister_def d loaded_Panics)
qed

lemma loaded_ForDispatch:
  assumes "parses h" "ForDispatch h dec filename source meta = (parsed, diags, None)"
  shows "loaded (parsed, diags) \<noteq> Panics"
proof -
  from assms(2) consider "HasErrors diags" | "Load h dec filename source meta = (parsed, diags)"
    by (auto simp: ForDispatch_def split: prod.splits if_splits option.splits)
  then show ?thesis
    using loaded_Load [OF assms(1), of dec filename source meta] by cases (simp_all add: loaded_Panics)
qed

lemma loaded_job_Panicked: "loaded_job sv result = Inl Panicked \<longleftrightarrow> loaded result = Panics"
  by (simp add: loaded_job_def invalidJob_def split: Loaded.split)

text \<open>A handler that never panics, whatever it answers.\<close>

definition unpanicked :: "('s, 'x, 'j, 'w, HandlerError + 'b) H \<Rightarrow> bool" where
  "unpanicked m \<longleftrightarrow> (\<forall>s. fst (run_state m s) \<noteq> Inl Panicked)"

lemma unpanicked_ret: "x \<noteq> Inl Panicked \<Longrightarrow> unpanicked (ret x)"
  by (simp add: unpanicked_def)

lemma unpanicked_bind: "(\<And>a. unpanicked (f a)) \<Longrightarrow> unpanicked (bind m f)"
  by (simp add: unpanicked_def split: prod.split)

lemma unpanicked_checked:
  "r \<noteq> Inl Panicked \<Longrightarrow> (\<And>a. r = Inr a \<Longrightarrow> unpanicked (k a)) \<Longrightarrow> unpanicked (checked r k)"
  by (cases r) (simp_all add: unpanicked_ret)

lemma unpanicked_if: "(P \<Longrightarrow> unpanicked m) \<Longrightarrow> (\<not> P \<Longrightarrow> unpanicked n) \<Longrightarrow> unpanicked (if P then m else n)"
  by simp

lemma unpanicked_option:
  "unpanicked m \<Longrightarrow> (\<And>y. unpanicked (f y)) \<Longrightarrow> unpanicked (case x of None \<Rightarrow> m | Some y \<Rightarrow> f y)"
  by (simp split: option.split)

lemma unpanicked_prod: "(\<And>y z. x = (y, z) \<Longrightarrow> unpanicked (f y z)) \<Longrightarrow> unpanicked (case x of (y, z) \<Rightarrow> f y z)"
  by (simp split: prod.split)

lemmas unpanicking = unpanicked_bind unpanicked_checked unpanicked_if unpanicked_option unpanicked_prod unpanicked_ret

text \<open>The values handlers check are errors of their own.\<close>

lemma decode_calm [simp]: "decode sv json r \<noteq> Inl Panicked"
  by (simp add: decode_def badRequest_def split: sum.split)

lemma request_namespace_calm [simp]: "request_namespace sv r j \<noteq> Inl Panicked"
  by (simp add: request_namespace_def badRequest_def split: sum.split)

lemma executionID_calm [simp]: "executionID sv r \<noteq> Inl Panicked"
  by (simp add: executionID_def badRequest_def split: sum.split)

lemma plain_error_calm [simp]: "plain_error x \<noteq> Inl Panicked"
  by (cases x) simp_all

lemma registered_job_calm:
  assumes "parses (sv_hcl sv)" shows "registered_job sv name version meta \<noteq> Inl Panicked"
  using loaded_ForDispatch [OF assms]
  by (auto simp: registered_job_def badRequest_def loaded_job_Panicked split: prod.splits option.splits)

lemma plan_tasks_calm: "plan_tasks sv j eval ins tasks \<noteq> Inl Panicked"
  by (induction tasks) (auto simp: invalidJob_def split: prod.splits sum.splits)

lemma launch_unpanicked: "unpanicked (launch sv origin j meta)"
  unfolding launch_def by (intro unpanicking) simp_all

lemma planned_unpanicked: "parses (sv_hcl sv) \<Longrightarrow> unpanicked (planned sv r req)"
  unfolding planned_def
  by (intro unpanicking) (simp_all add: badRequest_def registered_job_calm loaded_job_Panicked loaded_Load)

lemma unpanicked_answer:
  "unpanicked h \<Longrightarrow> run_state (wrap sv h) s = (answer, s') \<Longrightarrow> answer \<noteq> None"
  by (auto simp: unpanicked_def wrap_def answer_of_def failure_def split: prod.splits sum.splits HandlerError.splits)
    (metis fst_conv)

lemma handlers_unpanicked:
  assumes "parses (sv_hcl sv)"
  shows "unpanicked (registerJob sv r)" "unpanicked (listJobs sv r)" "unpanicked (runJob sv r)"
    "unpanicked (jobStatus sv r)" "unpanicked (stopJob sv r)" "unpanicked (dispatchJob sv r)"
    "unpanicked (dispatchStatus sv r)" "unpanicked (executionStatus sv r)" "unpanicked (executionLogs sv r)"
    "unpanicked (listNodes sv r)" "unpanicked (listProviders sv r)"
  unfolding registerJob_def listJobs_def runJob_def jobStatus_def stopJob_def dispatchJob_def dispatchStatus_def
    executionStatus_def executionLogs_def listNodes_def listProviders_def
  by (intro unpanicking launch_unpanicked; simp add: assms registered_job_calm loaded_job_Panicked loaded_Load
      loaded_ForRegister)+

lemma cancelExecution_unpanicked: "unpanicked (cancelExecution sv r)"
  unfolding cancelExecution_def by (intro unpanicking) (simp_all split: option.split)

lemma unpanicked_then:
  "unpanicked m \<Longrightarrow> (\<And>a. unpanicked (k a)) \<Longrightarrow> unpanicked (bind m (\<lambda>p. checked p k))"
  by (auto simp: unpanicked_def checked_def split: prod.splits sum.splits) (metis fst_conv)

lemma map_sum_Inl: "map_sum id f x = Inl e \<longleftrightarrow> x = Inl e"
  by (cases x) simp_all

lemma planJob_unpanicked: "parses (sv_hcl sv) \<Longrightarrow> unpanicked (planJob sv r)"
  unfolding planJob_def
  by (intro unpanicking unpanicked_then planned_unpanicked) (simp_all add: map_sum_Inl plan_tasks_calm)

lemma handler_answers:
  assumes "parses (sv_hcl sv)" "run_state (Handler sv route r) s = (answer, s')"
  shows "answer \<noteq> None"
  using assms(2)
  by (cases route)
    (auto dest: handlers_unpanicked [OF assms(1), THEN unpanicked_answer] planJob_unpanicked [OF assms(1), THEN unpanicked_answer]
      cancelExecution_unpanicked [THEN unpanicked_answer] split: prod.splits)

section \<open>The memory stores as the server sees them\<close>

definition memory_executions :: "UUID \<Rightarrow> ExecMemory ServerExecutions" where
  "memory_executions u =
     Executions.extend (exec_memory (uu_String u))
       \<lparr>x_GetDispatch = GetDispatch, x_Get = Get,
        x_ClaimDispatches = (\<lambda>owner clock until skip s. map_prod Inr id (ClaimDispatches owner clock until skip s)),
        x_Ping = (\<lambda>s. None)\<rparr>"

definition memory_jobs :: "UUID \<Rightarrow> (string \<Rightarrow> string) \<Rightarrow> (Jobs, ExecMemory) ServerJobs" where
  "memory_jobs u fingerprint =
     \<lparr>j_Job = Jobs_Job, j_Version = Jobs_Version,
      j_Register = (\<lambda>ns name source clock s. map_prod Inr id (Register fingerprint ns name source clock s)),
      j_Jobs = (\<lambda>ns s. Inr (Jobs_Jobs ns s)), j_Versions = (\<lambda>ns name s. Inr (Jobs_Versions ns name s)),
      j_Stop = Stop, j_JobExecutions = (\<lambda>ns name limit s x. Inr (jobExecutions (uu_String u) ns name limit x))\<rparr>"

lemma memory_executions_simps [simp]:
  "Executions.truncate (memory_executions u) = exec_memory (uu_String u)"
  "x_GetDispatch (memory_executions u) = GetDispatch" "x_Get (memory_executions u) = Get"
  "x_ClaimDispatches (memory_executions u) owner clock until skip s = map_prod Inr id (ClaimDispatches owner clock until skip s)"
  "x_Update (memory_executions u) = Update" "x_Ping (memory_executions u) s = None"
  by (simp_all add: memory_executions_def Executions.defs exec_memory_def)

lemma memory_jobs_simps [simp]:
  "j_Job (memory_jobs u fp) = Jobs_Job" "j_Version (memory_jobs u fp) = Jobs_Version"
  "j_Register (memory_jobs u fp) ns name source clock s = map_prod Inr id (Register fp ns name source clock s)"
  "j_Stop (memory_jobs u fp) = Stop"
  by (simp_all add: memory_jobs_def)

section \<open>What the server needs of its stores\<close>

text \<open>A store of jobs whose current version is always what was registered last.\<close>

locale job_store =
  fixes js :: "('j, 'x) ServerJobs" and fp :: "string \<Rightarrow> string" and good :: "'j \<Rightarrow> bool"
  assumes current: "good s \<Longrightarrow> j_Register js ns name source clock s = (Inr (v, changed), s') \<Longrightarrow>
      \<exists>ver. jobs_Current js ns name s' = Inr ver \<and> v_Version ver = v \<and> fp (v_Source ver) = fp source"

text \<open>The text a version was registered with has its fingerprint.\<close>

definition printed :: "(string \<Rightarrow> string) \<Rightarrow> Jobs \<Rightarrow> bool" where
  "printed fp s \<longleftrightarrow> (\<forall>key. \<forall>ver \<in> set (jb_versions s key). v_Fingerprint ver = fp (v_Source ver))"

definition jobs_good :: "(string \<Rightarrow> string) \<Rightarrow> Jobs \<Rightarrow> bool" where
  "jobs_good fp s \<longleftrightarrow> jobs_ok s \<and> room s \<and> printed fp s"

lemma Register_printed:
  assumes "jobs_ok s" "room s" "Register fp n name src clock s = ((v, changed), s')" "printed fp s"
  shows "printed fp s'"
  using assms(1-3)
proof (cases rule: Register_cases)
  case (new ver)
  with assms(4) show ?thesis by (auto simp: printed_def)
qed (use assms(4) in simp)

lemma memory_Current: "jobs_Current (memory_jobs u fp) ns name s = Current ns name s"
  by (simp add: jobs_Current_def Current_def split: sum.split)

lemma Current_printed:
  assumes "Current ns name s = Inr ver" "printed fp s" shows "v_Fingerprint ver = fp (v_Source ver)"
  using assms
  by (auto simp: Current_def Jobs_Version_def printed_def split: sum.splits if_splits option.splits
      dest!: find_first_SomeD)

interpretation jobs_memory: job_store "memory_jobs u fp" fp "jobs_good fp" for u fp
proof
  fix s ns name source clock v changed s'
  assume good: "jobs_good fp s" and reg: "j_Register (memory_jobs u fp) ns name source clock s = (Inr (v, changed), s')"
  then have r: "Register fp ns name source clock s = ((v, changed), s')"
    by (cases "Register fp ns name source clock s") auto
  obtain ver where ver: "Current ns name s' = Inr ver" "v_Fingerprint ver = fp source" "v_Version ver = v"
    using Current_registered [OF _ _ r] good by (auto simp: jobs_good_def)
  moreover have "v_Fingerprint ver = fp (v_Source ver)"
    using Current_printed [OF ver(1)] Register_printed [OF _ _ r] good by (simp add: jobs_good_def)
  ultimately show "\<exists>ver. jobs_Current (memory_jobs u fp) ns name s' = Inr ver \<and> v_Version ver = v \<and> fp (v_Source ver) = fp source"
    by (auto simp: memory_Current)
qed

text \<open>A store of executions with the laws dispatch relies on, and what claiming and reading add to them.\<close>

locale server_store = dispatch_store xs record_of dispatch_of d
  for xs :: "'x Executions" and record_of dispatch_of and d :: "('s, 'x, 'w) Dispatcher" +
  fixes sx :: "'x ServerExecutions" and good :: "'x \<Rightarrow> bool"
  assumes base: "Executions.truncate sx = xs"
    and get: "good x \<Longrightarrow> x_Get sx i x = Inr r \<Longrightarrow> \<exists>r0. record_of x i = Some r0 \<and> r = clone r0 \<and> st_ID r = i"
    and claimed: "good x \<Longrightarrow> x_ClaimDispatches sx owner clock until skip x = (Inr ds, x') \<Longrightarrow>
      distinct (map dis_ID ds) \<and> dis_ID ` set ds \<inter> set skip = {} \<and> dis_ID ` set ds \<subseteq> dom (dispatch_of x) \<and>
      dom (dispatch_of x') = dom (dispatch_of x) \<and> good x'"
    and claim_refused: "x_ClaimDispatches sx owner clock until skip x = (Inl err, x') \<Longrightarrow> x' = x"
    and good_update: "good x \<Longrightarrow> x_Update xs r from_state x = (None, x') \<Longrightarrow> good x'"
    and good_create: "good x \<Longrightarrow> x_Create xs r x = (None, x') \<Longrightarrow> good x'"
    and good_mark: "good x \<Longrightarrow> x_MarkReleased xs i t x = (None, x') \<Longrightarrow> good x'"
    and good_begin: "good x \<Longrightarrow> x_CreateDispatch xs e x = (None, x') \<Longrightarrow> good x'"
    and good_finish: "good x \<Longrightarrow> x_FinishDispatch xs e x = (None, x') \<Longrightarrow> good x'"
    and good_renew: "good x \<Longrightarrow> x_RenewDispatch xs i owner until x = (None, x') \<Longrightarrow> good x'"
begin

text \<open>Whatever dispatch does, the store stays well formed and no dispatch disappears from it.\<close>

definition recorded :: "('s, 'x, 'w) World \<Rightarrow> ('s, 'x, 'w) World \<Rightarrow> bool" where
  "recorded s t \<longleftrightarrow> (good (w_exec s) \<longrightarrow> good (w_exec t)) \<and> dom (dispatch_of (w_exec s)) \<subseteq> dom (dispatch_of (w_exec t))"

lemma recorded_same: "w_exec t = w_exec s \<Longrightarrow> recorded s t"
  by (simp add: recorded_def)

lemma write_recorded:
  shows "x_Update xs r from_state (w_exec s) = (err, x) \<Longrightarrow> recorded s (s\<lparr>w_exec := x\<rparr>)"
    and "x_Create xs r (w_exec s) = (err, x) \<Longrightarrow> recorded s (s\<lparr>w_exec := x\<rparr>)"
    and "x_MarkReleased xs i t (w_exec s) = (err, x) \<Longrightarrow> recorded s (s\<lparr>w_exec := x\<rparr>)"
    and "x_CreateDispatch xs e (w_exec s) = (err, x) \<Longrightarrow> recorded s (s\<lparr>w_exec := x\<rparr>)"
    and "x_FinishDispatch xs e (w_exec s) = (err, x) \<Longrightarrow> recorded s (s\<lparr>w_exec := x\<rparr>)"
    and "x_RenewDispatch xs i owner t (w_exec s) = (err, x) \<Longrightarrow> recorded s (s\<lparr>w_exec := x\<rparr>)"
proof -
  show "x_Update xs r from_state (w_exec s) = (err, x) \<Longrightarrow> recorded s (s\<lparr>w_exec := x\<rparr>)"
    using update_ok [of r from_state "w_exec s" x] update_refused [of r from_state "w_exec s" _ x] good_update [of "w_exec s" r from_state x]
    by (cases err) (auto simp: recorded_def)
  show "x_Create xs r (w_exec s) = (err, x) \<Longrightarrow> recorded s (s\<lparr>w_exec := x\<rparr>)"
    using create_ok [of r "w_exec s" x] create_refused [of r "w_exec s" _ x] good_create [of "w_exec s" r x]
    by (cases err) (auto simp: recorded_def)
  show "x_MarkReleased xs i t (w_exec s) = (err, x) \<Longrightarrow> recorded s (s\<lparr>w_exec := x\<rparr>)"
    using mark_ok [of i t "w_exec s" x] mark_refused [of i t "w_exec s" _ x] good_mark [of "w_exec s" i t x]
    by (cases err) (auto simp: recorded_def)
  show "x_CreateDispatch xs e (w_exec s) = (err, x) \<Longrightarrow> recorded s (s\<lparr>w_exec := x\<rparr>)"
    using begin_ok [of e "w_exec s" x] begin_refused [of e "w_exec s" _ x] good_begin [of "w_exec s" e x]
    by (cases err) (auto simp: recorded_def)
  show "x_FinishDispatch xs e (w_exec s) = (err, x) \<Longrightarrow> recorded s (s\<lparr>w_exec := x\<rparr>)"
    using finish_ok [of e "w_exec s" x] finish_refused [of e "w_exec s" _ x] good_finish [of "w_exec s" e x]
    by (cases err) (auto simp: recorded_def)
  show "x_RenewDispatch xs i owner t (w_exec s) = (err, x) \<Longrightarrow> recorded s (s\<lparr>w_exec := x\<rparr>)"
    using renew_ok [of i owner t "w_exec s" x] renew_refused [of i owner t "w_exec s" _ x] good_renew [of "w_exec s" i owner t x]
    by (cases err) (auto simp: recorded_def)
qed

end

sublocale server_store \<subseteq> kept: dispatch_run recorded d "\<lambda>c. True"
proof unfold_locales
  fix s t u :: "('s, 'x, 'w) World"
  show "recorded s t \<Longrightarrow> recorded t u \<Longrightarrow> recorded s u" by (auto simp: recorded_def)
qed (auto simp: executions logged_def intro: recorded_same write_recorded)

lemma memory_claimed:
  assumes "keys_ok x" "ClaimDispatches owner clock until skip x = (ds, x')"
  shows "distinct (map dis_ID ds) \<and> dis_ID ` set ds \<inter> set skip = {} \<and>
    dis_ID ` set ds \<subseteq> dom (map_of (em_dispatches x)) \<and>
    dom (map_of (em_dispatches x')) = dom (map_of (em_dispatches x)) \<and> keys_ok x'"
proof -
  have d: "distinct (map fst (em_dispatches x))" using assms(1) by (simp add: keys_ok_def)
  let ?taken = "filter (\<lambda>(i, d). claimable clock skip i d) (em_dispatches x)"
  have ds: "ds = map (\<lambda>(i, d). d\<lparr>dis_Owner := owner, dis_LeaseUntil := until\<rparr>) ?taken"
    using assms(2) by (simp add: ClaimDispatches_def ClaimDispatches_loop_eq [OF d])
  have keyed: "\<forall>(i, d) \<in> set ?taken. dis_ID d = i" using assms(1) by (auto simp: keys_ok_def)
  then have ids: "map dis_ID ds = map fst ?taken" by (auto simp: ds)
  have "distinct (map fst ?taken)" using d by (rule distinct_map_filter)
  moreover have "dis_ID ` set ds = fst ` set ?taken" using ids by (metis list.set_map)
  moreover have "fst ` set ?taken \<inter> set skip = {}" by (auto simp: claimable_def)
  moreover have "fst ` set ?taken \<subseteq> dom (map_of (em_dispatches x))" by (auto simp: dom_map_of_conv_image_fst) 
  moreover have "dom (map_of (em_dispatches x')) = dom (map_of (em_dispatches x))"
    using claim_state(1) [OF assms] by (auto simp: dom_def split: option.splits)
  moreover have "keys_ok x'" using lease_step_keys [OF lease_step.claims [OF assms(2)] assms(1)] .
  ultimately show ?thesis using ids by simp
qed

interpretation memory_server: server_store "exec_memory (uu_String u)" "\<lambda>x. map_of (em_records x)"
  "\<lambda>x. map_of (em_dispatches x)" "d\<lparr>d_executions := exec_memory (uu_String u)\<rparr>" "memory_executions u" keys_ok
  for u and d :: "('s, ExecMemory, 'w) Dispatcher"
proof unfold_locales
  fix x i r assume "keys_ok x" "x_Get (memory_executions u) i x = Inr r"
  then show "\<exists>r0. map_of (em_records x) i = Some r0 \<and> r = clone r0 \<and> st_ID r = i"
    by (auto simp: Get_def split: option.splits dest: keys_ok_record)
next
  fix x owner clock until skip ds x'
  assume "keys_ok x" "x_ClaimDispatches (memory_executions u) owner clock until skip x = (Inr ds, x')"
  then show "distinct (map dis_ID ds) \<and> dis_ID ` set ds \<inter> set skip = {} \<and>
      dis_ID ` set ds \<subseteq> dom (map_of (em_dispatches x)) \<and>
      dom (map_of (em_dispatches x')) = dom (map_of (em_dispatches x)) \<and> keys_ok x'"
    by (intro memory_claimed [of x owner clock until skip]) (auto simp: map_prod_def split: prod.splits)
next
  fix x e t i owner until r from_state x'
  assume ok: "keys_ok x"
  show "x_Update (exec_memory (uu_String u)) r from_state x = (None, x') \<Longrightarrow> keys_ok x'"
    using lease_step_keys [OF lease_step.updates ok] by simp
  show "x_Create (exec_memory (uu_String u)) r x = (None, x') \<Longrightarrow> keys_ok x'"
    using lease_step_keys [OF lease_step.creates ok] by simp
  show "x_MarkReleased (exec_memory (uu_String u)) i t x = (None, x') \<Longrightarrow> keys_ok x'"
    using lease_step_keys [OF lease_step.marks ok] by simp
  show "x_CreateDispatch (exec_memory (uu_String u)) e x = (None, x') \<Longrightarrow> keys_ok x'"
    using lease_step_keys [OF lease_step.begins ok] by simp
  show "x_RenewDispatch (exec_memory (uu_String u)) i owner until x = (None, x') \<Longrightarrow> keys_ok x'"
    using lease_step_keys [OF lease_step.renews ok] by simp
  show "x_FinishDispatch (exec_memory (uu_String u)) e x = (None, x') \<Longrightarrow> keys_ok x'"
    using ok by (auto simp: FinishDispatch_def held_Some split: option.splits
        intro!: keys_ok_update_dispatch dest: keys_ok_dispatch)
qed (auto simp: map_prod_def split: prod.splits)

section \<open>A serving process\<close>

text \<open>One thing that happens: \<open>other\<close> is what another process may do to the store both use.\<close>

inductive server_step ::
  "('x \<Rightarrow> 'x \<Rightarrow> bool) \<Rightarrow> ('s, 'x, 'j, 'w) Server \<Rightarrow> ('s, 'x, 'j, 'w) Serving \<Rightarrow> ('s, 'x, 'j, 'w) Serving \<Rightarrow> bool"
  for other sv where
  request: "run_state (Handler sv route r) s = (answer, s') \<Longrightarrow> server_step other sv s s'"
| run_ends: "sg_started s = pre @ st # post \<Longrightarrow>
    run_state (background sv st) (s\<lparr>sg_started := pre @ post\<rparr>) = (Some (), s') \<Longrightarrow> server_step other sv s s'"
| tick: "run_state (snd (upkeep sv task)) s = ((), s') \<Longrightarrow> server_step other sv s s'"
| node_registers: "run_state (nodeEndpoint_Register sv session req) s = (res, s') \<Longrightarrow> server_step other sv s s'"
| node_leaves: "run_state (removeNodeConn sv session) s = (names, s') \<Longrightarrow> server_step other sv s s'"
| elsewhere: "other (w_exec (sg_world s)) x \<Longrightarrow>
    server_step other sv s (s\<lparr>sg_world := (sg_world s)\<lparr>w_exec := x\<rparr>\<rparr>)"

definition serving_ok ::
  "('x \<Rightarrow> ID \<Rightarrow> Dispatch option) \<Rightarrow> ('x \<Rightarrow> bool) \<Rightarrow> ('s, 'x, 'j, 'w) Serving \<Rightarrow> bool" where
  "serving_ok dispatch_of good s \<longleftrightarrow>
     good (w_exec (sg_world s)) \<and> distinct (map started_ID (sg_started s)) \<and>
     set (sg_running s) = started_ID ` set (sg_started s) \<and>
     started_ID ` set (sg_started s) \<subseteq> dom (dispatch_of (w_exec (sg_world s)))"

lemma new_origin_dispatch [simp]: "or_Dispatch (new_origin ns v) = 0"
  by (simp add: new_origin_def)

text \<open>The record of a dispatch as it begins.\<close>

definition new_dispatch :: "('s, 'x, 'j, 'w) Server \<Rightarrow> Origin \<Rightarrow> Job \<Rightarrow> ID \<Rightarrow> Time \<Rightarrow> Dispatch" where
  "new_dispatch sv origin j i t =
     \<lparr>dis_ID = i, dis_Namespace = or_Namespace origin, dis_Job = job_Name j, dis_JobVersion = or_JobVersion origin,
      dis_Tasks = int (length (job_Tasks j)), dis_State = DispatchRunning, dis_Error = [], dis_Owner = sv_owner sv,
      dis_LeaseUntil = t + sv_leaseTTL sv, dis_Created = t, dis_Ended = 0\<rparr>"

locale serving = server_store xs record_of dispatch_of "dispatcher sv" "sv_executions sv" good
  for xs :: "'x Executions" and record_of dispatch_of and sv :: "('s, 'x, 'j, 'w) Server" and good +
  fixes other :: "'x \<Rightarrow> 'x \<Rightarrow> bool"
  assumes others: "other x x' \<Longrightarrow> good x \<Longrightarrow> good x' \<and> dom (dispatch_of x) \<subseteq> dom (dispatch_of x')"
begin

abbreviation okay :: "('s, 'x, 'j, 'w) Serving \<Rightarrow> bool" where "okay \<equiv> serving_ok dispatch_of good"

text \<open>What leaves the runs of the process alone, and what keeps its invariant.\<close>

definition steady :: "('s, 'x, 'j, 'w) Serving \<Rightarrow> ('s, 'x, 'j, 'w) Serving \<Rightarrow> bool" where
  "steady s t \<longleftrightarrow> sg_running t = sg_running s \<and> sg_started t = sg_started s \<and> recorded (sg_world s) (sg_world t)"

lemma steady_okay:
  assumes "steady s t" "okay s" shows "okay t"
proof -
  have "started_ID ` set (sg_started s) \<subseteq> dom (dispatch_of (w_exec (sg_world s)))" using assms(2) by (simp add: serving_ok_def)
  also have "\<dots> \<subseteq> dom (dispatch_of (w_exec (sg_world t)))" using assms(1) by (simp add: steady_def recorded_def)
  finally show ?thesis using assms by (simp add: steady_def recorded_def serving_ok_def)
qed

end

sublocale serving \<subseteq> quiet: run_relation steady
  by unfold_locales (auto simp: steady_def recorded_def)

sublocale serving \<subseteq> sound: run_relation "\<lambda>s t. okay s \<longrightarrow> okay t"
  by unfold_locales auto

context serving begin

lemma quiet_world: "kept.keeps m \<Longrightarrow> state_io_rel steady (in_world m)"
  by (rule state_io_relI) (auto simp: steady_def dest: state_io_relD split: prod.splits)

lemma quiet_jobs: "state_io_rel steady (on_jobs f)"
  by (rule state_io_relI) (auto simp: steady_def recorded_def split: prod.splits)

lemma quiet_read: "state_io_rel steady (read_serving f)"
  by (rule state_io_relI) (auto simp: steady_def recorded_def)

lemma quiet_checked: "(\<And>a. state_io_rel steady (k a)) \<Longrightarrow> state_io_rel steady (checked r k)"
  by (cases r) (simp_all add: quiet.rel_return)

lemma quiet_now: "state_io_rel steady (server_now sv)"
  unfolding server_now_def by (intro quiet_world kept.keeps_now)

lemmas quiets = quiet.rel_bind quiet.rel_return quiet.rel_if quiet.rel_option quiet.rel_sum quiet.rel_prod quiet_jobs
  quiet_read quiet_checked quiet_now

lemma sound_checked:
  "(\<And>a. state_io_rel (\<lambda>s t. okay s \<longrightarrow> okay t) (k a)) \<Longrightarrow> state_io_rel (\<lambda>s t. okay s \<longrightarrow> okay t) (checked r k)"
  by (cases r) (simp_all add: sound.rel_return)

lemma quiet_sound: "state_io_rel steady m \<Longrightarrow> state_io_rel (\<lambda>s t. okay s \<longrightarrow> okay t) m"
  by (auto simp: state_io_rel_def intro: steady_okay)

lemma quiet_wrap: "state_io_rel steady h \<Longrightarrow> state_io_rel steady (wrap sv h)"
  unfolding wrap_def by (intro quiets)

lemma quiet_handlers:
  "state_io_rel steady (registerJob sv r)" "state_io_rel steady (listJobs sv r)" "state_io_rel steady (jobStatus sv r)"
  "state_io_rel steady (stopJob sv r)" "state_io_rel steady (dispatchStatus sv r)"
  "state_io_rel steady (executionStatus sv r)" "state_io_rel steady (executionLogs sv r)"
  "state_io_rel steady (listNodes sv r)"
  unfolding registerJob_def listJobs_def jobStatus_def stopJob_def dispatchStatus_def executionStatus_def
    executionLogs_def listNodes_def
  by (intro quiets)+

lemma same_update: "x_Update (sv_executions sv) = x_Update xs"
  by (simp add: base [symmetric] Executions.defs)

lemma recorded_cancelUnwatched: "kept.keeps (cancelUnwatched sv rec)"
proof -
  have "kept.keeps (ext (effect (CallCancel n i) f))" for n i f by (rule kept.keeps_effect) simp
  moreover have "kept.keeps (ext (record_call c))" for c by (rule kept.keeps_call) simp
  moreover have "kept.keeps (on_executions (x_Update (sv_executions sv) r (st_State rec)))" for r
    by (rule kept.keeps_executions) (simp add: same_update write_recorded(1))
  ultimately show ?thesis unfolding cancelUnwatched_def
    by (intro kept.rel_bind kept.rel_return kept.rel_option kept.rel_sum kept.keeps_now)
qed

lemma quiet_cancelExecution: "state_io_rel steady (cancelExecution sv r)"
proof -
  have "state_io_rel steady (stopDispatch sv i)" for i
    unfolding stopDispatch_def runningIDs_def by (intro quiets quiet_world kept.keeps_env)
  then show ?thesis unfolding cancelExecution_def by (intro quiets quiet_world recorded_cancelUnwatched)
qed

lemma quiet_planJob: "state_io_rel steady (planJob sv r)"
  unfolding planJob_def planned_def by (intro quiets quiet_world kept.keeps_inputs)

lemma quiet_status:
  "state_io_rel steady (listProviders sv r)" "state_io_rel steady (health sv)"
  unfolding listProviders_def health_def refreshed_at_def runningIDs_def Let_def
  by (intro quiets quiet_world kept.keeps_inputs)+

text \<open>A run starts under an identifier no other run has.\<close>

lemma dispatcher_simps [simp]:
  "d_executions (dispatcher sv) = xs" "d_owner (dispatcher sv) = sv_owner sv"
  "d_leaseTTL (dispatcher sv) = sv_leaseTTL sv" "d_tiers (dispatcher sv) = sv_tiers sv"
  by (simp_all add: dispatcher_def base)

lemma Begin_refused:
  assumes "run_state (Begin (dispatcher sv) origin j) w = ((o1, Some err), w')"
  shows "w_exec w' = w_exec w"
  using assms by (auto simp: Begin_def now_def Let_def split: prod.splits option.splits if_splits dest!: begin_refused)

lemma Begin_begun:
  assumes "run_state (Begin (dispatcher sv) origin j) w = ((o1, None), w')" "or_Dispatch origin = 0"
  shows "\<exists>i t. o1 = origin\<lparr>or_Job := job_Name j, or_Dispatch := i\<rparr> \<and>
    dispatch_of (w_exec w) i = None \<and>
    dispatch_of (w_exec w') = (dispatch_of (w_exec w))(i \<mapsto> new_dispatch sv origin j i t)"
proof -
  from assms obtain i t where o1: "o1 = origin\<lparr>or_Job := job_Name j, or_Dispatch := i\<rparr>"
    and made: "x_CreateDispatch xs (new_dispatch sv origin j i t) (w_exec w) = (None, w_exec w')"
    by (auto simp: Begin_def now_def Let_def new_dispatch_def split: prod.splits option.splits if_splits)
  have "dis_ID (new_dispatch sv origin j i t) = i" by (simp add: new_dispatch_def)
  with begin_ok [OF made] o1 show ?thesis by (intro exI [of _ i] exI [of _ t]) simp
qed

lemma launched:
  assumes "run_state (launch sv origin j meta) s = (Inr body, t)" "or_Dispatch origin = 0"
  shows "\<exists>o1 clock. o1 = origin\<lparr>or_Job := job_Name j, or_Dispatch := or_Dispatch o1\<rparr> \<and>
    sg_store t = sg_store s \<and> sg_started t = sg_started s @ [Launched o1 j (evalContext meta)] \<and>
    sg_running t = List.insert (or_Dispatch o1) (sg_running s) \<and>
    body = DispatchedBody \<lparr>dr_Namespace = or_Namespace origin, dr_Job = job_Name j, dr_JobVersion = or_JobVersion origin,
      dr_DispatchID = ID_String (sv_uuid sv) (or_Dispatch o1)\<rparr> \<and>
    dispatch_of (w_exec (sg_world s)) (or_Dispatch o1) = None \<and>
    dispatch_of (w_exec (sg_world t)) = (dispatch_of (w_exec (sg_world s)))
      (or_Dispatch o1 \<mapsto> new_dispatch sv origin j (or_Dispatch o1) clock) \<and>
    recorded (sg_world s) (sg_world t)"
proof -
  obtain o1 err w where r: "run_state (Begin (dispatcher sv) origin j) (sg_world s) = ((o1, err), w)"
    by (metis surj_pair)
  with assms(1) have err: "err = None" by (cases err) (auto simp: launch_def)
  obtain i clock where i: "o1 = origin\<lparr>or_Job := job_Name j, or_Dispatch := i\<rparr>"
    "dispatch_of (w_exec (sg_world s)) i = None"
    "dispatch_of (w_exec w) = (dispatch_of (w_exec (sg_world s)))(i \<mapsto> new_dispatch sv origin j i clock)"
    using Begin_begun [OF r [unfolded err] assms(2)] by blast
  have "recorded (sg_world s) w" using state_io_relD [OF kept.keeps_Begin r] .
  with assms(1) r i show ?thesis
    by (intro exI [of _ o1] exI [of _ clock]) (auto simp: launch_def track_def start_def err)
qed

lemma launch_refused:
  assumes "run_state (launch sv origin j meta) s = (Inl err, t)"
  shows "steady s t \<and> sg_store t = sg_store s \<and> sg_conns t = sg_conns s \<and> w_exec (sg_world t) = w_exec (sg_world s)"
proof -
  obtain o1 err' w where r: "run_state (Begin (dispatcher sv) origin j) (sg_world s) = ((o1, err'), w)"
    by (metis surj_pair)
  with assms obtain e where e: "err' = Some e" by (cases err') (auto simp: launch_def split: prod.splits)
  have "recorded (sg_world s) w" using state_io_relD [OF kept.keeps_Begin r] .
  with assms r Begin_refused [OF r [unfolded e]] show ?thesis by (auto simp: launch_def e steady_def)
qed

lemma sound_launch:
  assumes "or_Dispatch origin = 0" shows "state_io_rel (\<lambda>s t. okay s \<longrightarrow> okay t) (launch sv origin j meta)"
proof (rule state_io_relI, rule impI)
  fix s res t
  assume r: "run_state (launch sv origin j meta) s = (res, t)" and ok: "okay s"
  show "okay t"
  proof (cases res)
    case (Inl err)
    then show ?thesis using launch_refused [OF r [unfolded Inl]] steady_okay ok by blast
  next
    case (Inr body)
    obtain o1 clock where o1: "sg_started t = sg_started s @ [Launched o1 j (evalContext meta)]"
      "sg_running t = List.insert (or_Dispatch o1) (sg_running s)"
      "dispatch_of (w_exec (sg_world s)) (or_Dispatch o1) = None"
      "dispatch_of (w_exec (sg_world t)) = (dispatch_of (w_exec (sg_world s)))
        (or_Dispatch o1 \<mapsto> new_dispatch sv origin j (or_Dispatch o1) clock)"
      "recorded (sg_world s) (sg_world t)"
      using launched [OF r [unfolded Inr] assms] by blast
    have "or_Dispatch o1 \<notin> started_ID ` set (sg_started s)" using ok o1(3) by (auto simp: serving_ok_def)
    moreover have "started_ID ` set (sg_started s) \<subseteq> dom (dispatch_of (w_exec (sg_world t)))"
      using ok o1(4) by (auto simp: serving_ok_def)
    ultimately show ?thesis using ok o1 by (simp add: serving_ok_def recorded_def)
  qed
qed

lemmas sounds = sound.rel_bind sound.rel_return sound.rel_if sound.rel_option sound.rel_sum sound.rel_prod sound_checked
  quiet_sound [OF quiet_read] quiet_sound [OF quiet_now]

lemma sound_starting:
  "state_io_rel (\<lambda>s t. okay s \<longrightarrow> okay t) (runJob sv r)" "state_io_rel (\<lambda>s t. okay s \<longrightarrow> okay t) (dispatchJob sv r)"
  unfolding runJob_def dispatchJob_def by (intro sounds sound_launch, simp)+

lemma sound_wrap:
  "state_io_rel (\<lambda>s t. okay s \<longrightarrow> okay t) h \<Longrightarrow> state_io_rel (\<lambda>s t. okay s \<longrightarrow> okay t) (wrap sv h)"
  unfolding wrap_def by (intro sounds)

lemma sound_Handler: "state_io_rel (\<lambda>s t. okay s \<longrightarrow> okay t) (Handler sv route r)"
proof -
  have "state_io_rel (\<lambda>s t. okay s \<longrightarrow> okay t) (bind (health sv) (\<lambda>answer. ret (Some answer)))"
    by (intro sounds quiet_sound [OF quiet_status(2)])
  then show ?thesis
    by (cases route) (simp_all add: sound_wrap sound_starting quiet_sound quiet_handlers quiet_cancelExecution
      quiet_planJob quiet_status)
qed

text \<open>What is claimed is not running here, and was recorded by whoever began it.\<close>

lemma resumed:
  assumes "okay s" "distinct (map dis_ID ds)" "dis_ID ` set ds \<inter> set (sg_running s) = {}"
    and "dis_ID ` set ds \<subseteq> dom (dispatch_of (w_exec (sg_world s)))"
  shows "okay (snd (run_state (resume_each ds) s))"
  using assms
proof (induction ds arbitrary: s)
  case (Cons d ds)
  let ?t = "s\<lparr>sg_running := List.insert (dis_ID d) (sg_running s), sg_started := sg_started s @ [Resumed d]\<rparr>"
  have "okay ?t" using Cons.prems by (auto simp: serving_ok_def)
  then have "okay (snd (run_state (resume_each ds) ?t))" by (rule Cons.IH) (use Cons.prems in auto)
  then show ?case by (simp add: server_resume_def track_def start_def)
qed simp

lemma sound_claim: "state_io_rel (\<lambda>s t. okay s \<longrightarrow> okay t) (claim sv)"
proof (rule state_io_relI, rule impI)
  fix s res t
  assume r: "run_state (claim sv) s = (res, t)" and ok: "okay s"
  obtain clock w where now: "run_state (ext (now (dispatcher sv))) (sg_world s) = (clock, w)" by fastforce
  then have w: "w_exec w = w_exec (sg_world s)" by (auto simp: now_def split: prod.splits)
  obtain got x where c: "x_ClaimDispatches (sv_executions sv) (sv_owner sv) clock (clock + sv_leaseTTL sv)
      (sg_running s) (w_exec w) = (got, x)" by fastforce
  let ?u = "s\<lparr>sg_world := w\<lparr>w_exec := x\<rparr>\<rparr>"
  have t: "t = (case got of Inl err \<Rightarrow> ?u | Inr ds \<Rightarrow> snd (run_state (resume_each ds) ?u))"
    using r now c by (auto simp: claim_def server_now_def runningIDs_def split: sum.splits prod.splits)
  show "okay t"
  proof (cases got)
    case (Inl err)
    with c claim_refused have "x = w_exec w" by blast
    with ok w t Inl show ?thesis by (simp add: serving_ok_def)
  next
    case (Inr ds)
    have "good (w_exec w)" using ok w by (simp add: serving_ok_def)
    note got = claimed [OF this c [unfolded Inr]]
    have "okay ?u" using ok w got by (simp add: serving_ok_def)
    moreover have "dis_ID ` set ds \<subseteq> dom (dispatch_of (w_exec (sg_world ?u)))" using got by simp
    ultimately show ?thesis using got resumed [of ?u ds] by (simp add: t Inr)
  qed
qed

lemma recorded_Reap: "kept.keeps (Dispatcher_Reap (dispatcher sv))"
  unfolding Dispatcher_Reap_def
  by (intro kept.rel_bind kept.keeps_now state_io_relI) (auto intro!: recorded_same split: prod.splits)

lemma sound_upkeep: "state_io_rel (\<lambda>s t. okay s \<longrightarrow> okay t) (snd (upkeep sv task))"
proof -
  have "state_io_rel steady (refreshCapabilities sv)" "state_io_rel steady (refreshUsage sv)"
    "state_io_rel steady (reap sv)" "state_io_rel steady (release_leftovers sv)"
    unfolding refreshCapabilities_def refreshUsage_def reap_def release_leftovers_def
    by (intro quiets quiet_world kept.keeps_env kept.keeps_refresh recorded_Reap kept.keeps_ReleaseLeftovers)+
  then show ?thesis by (cases task) (auto intro: quiet_sound sound_claim)
qed

text \<open>A run that ends leaves the map of running dispatches without it.\<close>

lemma ended_okay:
  assumes "okay s" "sg_started s = pre @ st # post"
    and "run_state (background sv st) (s\<lparr>sg_started := pre @ post\<rparr>) = (Some (), t)"
  shows "okay t"
proof -
  let ?s = "s\<lparr>sg_started := pre @ post\<rparr>"
  have "\<exists>w. recorded (sg_world s) w \<and> t = ?s\<lparr>sg_world := w, sg_running := removeAll (started_ID st) (sg_running s)\<rparr>"
  proof (cases st)
    case (Launched origin j eval)
    obtain ran w where run: "run_state (Run (dispatcher sv) origin j (Some eval)) (sg_world s) = (ran, w)" by fastforce
    with assms(3) obtain outcome err where ran: "ran = Some (outcome, err)"
      by (cases ran) (auto simp: Launched split: prod.splits)
    let ?o = "case outcome of None \<Rightarrow> no_job_outcome origin j | Some o1 \<Rightarrow> o1"
    obtain v where fin: "run_state (Finish (dispatcher sv) origin ?o err) w = ((), v)" by (cases "run_state (Finish (dispatcher sv) origin ?o err) w") simp
    have "recorded (sg_world s) w" by (rule state_io_relD [OF kept.keeps_Run run]) simp
    moreover have "recorded w v" by (rule state_io_relD [OF kept.keeps_Finish fin])
    ultimately have "recorded (sg_world s) v" by (rule kept.trans)
    with assms(3) run ran fin show ?thesis by (intro exI [of _ v]) (auto simp: Launched untrack_def)
  next
    case (Resumed d)
    obtain ran w where run: "run_state (Resume (sv_reason sv) (dispatcher sv) d) (sg_world s) = (ran, w)" by fastforce
    with assms(3) obtain finished where ran: "ran = Some finished"
      by (cases ran) (auto simp: Resumed split: prod.splits)
    have "recorded (sg_world s) w" by (rule state_io_relD [OF kept.keeps_Resume run])
    with assms(3) run ran show ?thesis by (intro exI [of _ w]) (auto simp: Resumed untrack_def)
  qed
  then obtain w where w: "recorded (sg_world s) w"
    "t = ?s\<lparr>sg_world := w, sg_running := removeAll (started_ID st) (sg_running s)\<rparr>" by blast
  have "started_ID st \<notin> started_ID ` set (pre @ post)" using assms(1,2) by (auto simp: serving_ok_def)
  moreover have "set (sg_running s) = insert (started_ID st) (started_ID ` set (pre @ post))"
    using assms(1,2) by (auto simp: serving_ok_def)
  moreover have "started_ID ` set (pre @ post) \<subseteq> dom (dispatch_of (w_exec w))"
  proof (rule subset_trans)
    show "started_ID ` set (pre @ post) \<subseteq> dom (dispatch_of (w_exec (sg_world s)))"
      using assms(1,2) by (simp add: serving_ok_def image_Un)
    show "dom (dispatch_of (w_exec (sg_world s))) \<subseteq> dom (dispatch_of (w_exec w))"
      using w(1) by (simp add: recorded_def)
  qed
  ultimately show ?thesis using assms(1,2) w by (auto simp: serving_ok_def recorded_def)
qed

lemma step_okay: "server_step other sv s t \<Longrightarrow> okay s \<Longrightarrow> okay t"
proof (induction rule: server_step.induct)
  case (request route r s answer s')
  then show ?case using state_io_relD [OF sound_Handler] by blast
next
  case (run_ends s pre st post s')
  then show ?case using ended_okay by blast
next
  case (tick task s s')
  then show ?case using state_io_relD [OF sound_upkeep] by blast
next
  case (node_registers session req s res s')
  have "state_io_rel steady (nodeEndpoint_Register sv session req)"
    unfolding nodeEndpoint_Register_def Let_def
    by (intro quiets state_io_relI) (auto simp: steady_def recorded_def split: prod.splits)
  then show ?case using node_registers state_io_relD steady_okay by blast
next
  case (node_leaves session s names s')
  have "state_io_rel steady (removeNodeConn sv session)"
    unfolding removeNodeConn_def
    by (intro quiets state_io_relI) (auto simp: steady_def recorded_def split: prod.splits)
  then show ?case using node_leaves state_io_relD steady_okay by blast
next
  case (elsewhere s x)
  with others [of "w_exec (sg_world s)" x]
    subset_trans [of "started_ID ` set (sg_started s)" "dom (dispatch_of (w_exec (sg_world s)))" "dom (dispatch_of x)"]
  show ?case by (simp add: serving_ok_def)
qed

lemma reach_okay: "(server_step other sv)\<^sup>*\<^sup>* s t \<Longrightarrow> okay s \<Longrightarrow> okay t"
  by (induction rule: rtranclp_induct) (auto intro: step_okay)

end

end
