(* ===== verification/Example.thy ===== *)
theory Example
  imports Recovery
begin

text \<open>
  A small system to instantiate the development on: one provider without quota, the stores in
  memory, and an environment that is a counter, used as the clock and as the source of
  identifiers.  Its run of a job is evaluated at the end.
\<close>

definition sample_result :: Result where
  "sample_result = \<lparr>res_ID = 0, res_ExitCode = Some 0, res_Duration = Second, res_Billed = None,
     res_Logs = ''ok'', res_LogsTruncated = False\<rparr>"

text \<open>It accepts every task, and reports it finished at the first poll.\<close>

definition sample_provider :: "nat Provider" where
  "sample_provider =
     \<lparr>p_Name = ''fn'',
      p_Submit = (\<lambda>i task w. ((\<lparr>sub_ProviderID = ''p1'', sub_State = StateAccepted, sub_Result = None\<rparr>, None), w)),
      p_SubmitTo = None,
      p_Status = (\<lambda>i w. ((\<lparr>st_ID = i, st_State = StateSucceeded, st_ProviderID = ''p1'',
        st_StartedAt = 1, st_EndedAt = 2, st_UpdatedAt = 2\<rparr>, None), w)),
      p_Result = (\<lambda>i w. ((Some sample_result, None), w)),
      p_Cancel = (\<lambda>i w. (None, w)),
      p_Release = Some (\<lambda>i w. (None, w)),
      p_Streams = False\<rparr>"

definition sample_dispatcher :: "(Memory, ExecMemory, nat) Dispatcher" where
  "sample_dispatcher =
     \<lparr>d_provider = (\<lambda>n. if n = ''fn'' then Some sample_provider else None),
      d_inputs = (\<lambda>namespace usage w. [sample_input]),
      d_recredential = (\<lambda>n w. ((False, None), w)),
      d_store = memory_store, d_executions = exec_memory (\<lambda>i. Itoa (uint i)),
      d_owner = ''a'', d_leaseTTL = Minute,
      d_now = (\<lambda>w. (int w + 1, w + 1)), d_newID = (\<lambda>w. ((word_of_int (int w + 1), None), w + 1)),
      d_sleep = (\<lambda>t w. (None, w)), d_ctx_done = (\<lambda>w. False), d_taken = (\<lambda>w. False),
      d_wrote = (\<lambda>w. (False, w)), d_image = (\<lambda>task eval. ('''', [])), d_render = (\<lambda>e. ''error''),
      d_poll = \<lparr>poll_Initial = Second, poll_Max = 8 * Second\<rparr>, d_linger = 0, d_logs = False,
      d_progress = False, d_tiers = [], d_fuel = 1\<rparr>"

definition sample_world :: "(Memory, ExecMemory, nat) World" where
  "sample_world =
     \<lparr>w_store = NewMemory Map.empty,
      w_led = \<lparr>led_budgets = \<lparr>Totals = [], Namespaces = []\<rparr>, led_snapshot = Map.empty, led_refreshed = 0\<rparr>,
      w_exec = NewExecutions, w_ext = \<lparr>x_env = 0, x_calls = []\<rparr>\<rparr>"

definition sample_job :: Job where
  "sample_job =
     \<lparr>job_Name = ''ci'', job_Namespace = None, job_Type = None, job_Meta = None, job_Parameterized = None,
      job_Routing = None, job_Tasks = [sample_task]\<rparr>"

definition sample_origin :: Origin where
  "sample_origin = \<lparr>or_Namespace = ''default'', or_Job = ''ci'', or_JobVersion = 1, or_Dispatch = 7\<rparr>"

definition sample_ranking :: Ranking where
  "sample_ranking = Rank sample_request (res_Candidates (Admit sample_request [sample_input]))"

section \<open>Its parts\<close>

lemma sample_dispatcher_simps [simp]:
  "d_provider sample_dispatcher n = (if n = ''fn'' then Some sample_provider else None)"
  "d_inputs sample_dispatcher ns us w = [sample_input]"
  "d_store sample_dispatcher = memory_store" "d_executions sample_dispatcher = exec_memory (\<lambda>i. Itoa (uint i))"
  "d_now sample_dispatcher w = (int w + 1, w + 1)"
  "d_newID sample_dispatcher w = ((word_of_int (int w + 1), None), w + 1)"
  "d_sleep sample_dispatcher t w = (None, w)" "d_taken sample_dispatcher w = False"
  "d_recredential sample_dispatcher k w = ((False, None), w)"
  "d_poll sample_dispatcher = \<lparr>poll_Initial = Second, poll_Max = 8 * Second\<rparr>"
  "d_logs sample_dispatcher = False" "d_progress sample_dispatcher = False" "d_fuel sample_dispatcher = 1"
  "d_tiers sample_dispatcher = []" "d_image sample_dispatcher = (\<lambda>task eval. ([], []))"
  by (simp_all add: sample_dispatcher_def)

lemma sample_provider_simps [simp]:
  "p_Name sample_provider = ''fn''" "p_SubmitTo sample_provider = None" "p_Streams sample_provider = False"
  "p_Submit sample_provider i task w =
     ((\<lparr>sub_ProviderID = ''p1'', sub_State = StateAccepted, sub_Result = None\<rparr>, None), w)"
  "p_Status sample_provider i w = ((\<lparr>st_ID = i, st_State = StateSucceeded, st_ProviderID = ''p1'',
     st_StartedAt = 1, st_EndedAt = 2, st_UpdatedAt = 2\<rparr>, None), w)"
  "p_Result sample_provider i w = ((Some sample_result, None), w)"
  "p_Release sample_provider = Some (\<lambda>i w. (None, w))"
  by (simp_all add: sample_provider_def)

lemma sample_request_simps [simp]:
  "rq_Task sample_request = sample_task" "rq_Execution sample_request = \<lparr>ex_CPU = 0, ex_Memory = 0, ex_Duration = 0\<rparr>"
  "WillPay sample_request = False" "retryPolicy sample_task = \<lparr>po_attempts = 1, po_reroute = False,
    po_initial = 5 * Second, po_max = 30 * Second\<rparr>"
  "NewRequest (\<lambda>task eval. ([], [])) sample_task None [] None = (sample_request, [])"
  by (simp_all add: sample_request_def WillPay_def MaxCost_def retryPolicy_def sample_task_def NewRequest_def
      executionOf_def defaultAttempts_def defaultBackoffInitial_def defaultBackoffMax_def)

lemma sample_ranking_one:
  "map (\<lambda>c. (in_Provider c, cd_Members c)) sample_ranking = [(''fn'', [])]"
  by code_simp

text \<open>Weak congruences: a step is evaluated before the computation it is bound to.\<close>

lemma bind_weak_cong: "m = m' \<Longrightarrow> State_Monad.bind m f = State_Monad.bind m' f"
  by simp

lemma Let_weak_cong: "a = b \<Longrightarrow> Let a f = Let b f"
  by simp

lemmas step_by_step = bind_weak_cong Let_weak_cong option.case_cong_weak sum.case_cong_weak

lemmas store_steps = Ledger_Reserve_def Ledger_Settle_def Ledger_unlimited_def Budgets_Total_def
  Budgets_Share_def Limits_Unlimited_def limits_of_def no_limits_def exec_memory_def Create_def Update_def
  MarkReleased_def NewExecutions_def

section \<open>Its run\<close>

definition sample_run ::
  "(JobOutcome option \<times> goerror option) option \<times> (Memory, ExecMemory, nat) World" where
  "sample_run = run_state (Run sample_dispatcher sample_origin sample_job None) sample_world"

lemmas run_steps = attempt_def prepare_def now_def ext_push pending_record_def refused_def ledger_goerror_def
  clone_def budget_def pause_def execute_def submit_def authorized_def effect_def Submission_Validate_def
  submittableStates_def Synchronous_def track_submitted_def track_to_def track_finish_def report_def
  follow_def watch_def sleep_def status_def fetch_result_def settle_stream_def release_def
  authorizedErr_def charge_def sample_result_def interval_def Status_To_def Transition_def
  Time_IsZero_def terminal_iff valid_iff CanTransition_iff

definition sample_executing :: "(Memory, ExecMemory, nat) World" where
  "sample_executing = snd (run_state (prepare sample_dispatcher sample_origin sample_request ''fn'' 1 0)
     sample_world)"

lemma sample_prepare:
  "run_state (prepare sample_dispatcher sample_origin sample_request ''fn'' 1 0) sample_world =
    ((Some (pending_record sample_origin sample_request ''fn'' 1 0 1 2), None), sample_executing)"
  by (simp add: sample_executing_def sample_world_def prepare_def now_def ext_push store_steps
      pending_record_def refused_def ledger_goerror_def clone_def cong: step_by_step)

lemma sample_admitted:
  "res_Candidates (Admit sample_request [sample_input]) \<noteq> []"
  by code_simp

lemmas task_steps = RunTask_def refresh_def inputs_def Ledger_Refresh_def Memory_ReadUsage_def sample_admitted

lemma sample_run_calls:
  "x_calls (w_ext (snd sample_run)) =
    [CallReserve ''fn'' 3 True, CallCreate 3 True, CallSubmit ''fn'' 3, CallUpdate 3 StatePending StateSubmitted,
     CallUpdate 3 StateSubmitted StateAccepted, CallSleep Second, CallStatus ''fn'' 3, CallResult ''fn'' 3,
     CallUpdate 3 StateAccepted StateSucceeded, CallRelease ''fn'' 3, CallSettle ''fn'' 3]"
  and sample_run_succeeds: "\<exists>o1. fst sample_run = Some (Some o1, None) \<and> JobOutcome_Succeeded o1"
proof -
  obtain c where c: "sample_ranking = [c]" "in_Provider c = ''fn''" "cd_Members c = []"
    using sample_ranking_one by auto
  note steps = Run_def sample_job_def sample_origin_def task_steps sample_world_def run_steps store_steps c
  show "x_calls (w_ext (snd sample_run)) =
    [CallReserve ''fn'' 3 True, CallCreate 3 True, CallSubmit ''fn'' 3, CallUpdate 3 StatePending StateSubmitted,
     CallUpdate 3 StateSubmitted StateAccepted, CallSleep Second, CallStatus ''fn'' 3, CallResult ''fn'' 3,
     CallUpdate 3 StateAccepted StateSucceeded, CallRelease ''fn'' 3, CallSettle ''fn'' 3]"
    unfolding sample_run_def by (simp add: steps flip: sample_ranking_def cong: step_by_step)
  show "\<exists>o1. fst sample_run = Some (Some o1, None) \<and> JobOutcome_Succeeded o1"
    unfolding sample_run_def
    by (simp add: steps answered_def add_attempt_def JobOutcome_Succeeded_def TaskOutcome_Succeeded_def
        flip: sample_ranking_def cong: step_by_step)
qed

end
