(* ===== verification/Routes.thy ===== *)
theory Routes
  imports Serving Example
begin

text \<open>
  The properties of the server: every request is answered, a run is one process's alone, what is dispatched
  is what was registered, planning changes nothing, and a cancellation is recorded only once the provider
  has stopped the execution.  The locale \<open>serving\<close> is interpreted on the memory store, which other processes
  may use at the same time.
\<close>

section \<open>The memory store under a server\<close>

lemma lease_step_recorded:
  assumes "lease_step s s'" "keys_ok s"
  shows "keys_ok s' \<and> dom (map_of (em_dispatches s)) \<subseteq> dom (map_of (em_dispatches s'))"
proof -
  have "dom (map_of (em_dispatches s)) \<subseteq> dom (map_of (em_dispatches s'))"
    using assms
  proof (cases rule: lease_step.cases)
    case (claims owner clock until skip claimed)
    then show ?thesis using memory_claimed [OF assms(2)] by blast
  qed (auto simp: CreateDispatch_def FinishDispatch_def RenewDispatch_def Create_def Update_def MarkReleased_def
      Let_def update_conv' dom_def split: option.splits if_splits)
  then show ?thesis using lease_step_keys [OF assms] by blast
qed

lemma memory_server_dispatcher:
  fixes sv :: "('s, ExecMemory, 'j, 'w) Server"
  shows "server_store (exec_memory (uu_String u)) (\<lambda>x. map_of (em_records x)) (\<lambda>x. map_of (em_dispatches x))
    (dispatcher (sv\<lparr>sv_executions := memory_executions u\<rparr>))
    (sv_executions (sv\<lparr>sv_executions := memory_executions u\<rparr>)) keys_ok"
proof -
  let ?d = "dispatcher (sv\<lparr>sv_executions := memory_executions u\<rparr>)"
  have "?d\<lparr>d_executions := exec_memory (uu_String u)\<rparr> = ?d" by (simp add: dispatcher_def)
  then show ?thesis using memory_server.server_store_axioms [of u ?d] by simp
qed

interpretation memory_serving: serving "exec_memory (uu_String u)" "\<lambda>x. map_of (em_records x)"
  "\<lambda>x. map_of (em_dispatches x)" "sv\<lparr>sv_executions := memory_executions u\<rparr>" keys_ok lease_step
  for u and sv :: "('s, ExecMemory, 'j, 'w) Server"
  by (intro serving.intro serving_axioms.intro memory_server_dispatcher) (rule lease_step_recorded)

lemma with_memory: "sv_executions sv = memory_executions u \<Longrightarrow> sv\<lparr>sv_executions := memory_executions u\<rparr> = sv"
  by (cases sv) simp

section \<open>What a handler did when it answered\<close>

lemma plain_error_Inr [simp]: "plain_error x = Inr a \<longleftrightarrow> x = Inr a"
  by (cases x) simp_all

lemma checked_Inr: "run_state (checked r k) s = (Inr b, t) \<longleftrightarrow> (\<exists>a. r = Inr a \<and> run_state (k a) s = (Inr b, t))"
  by (cases r) auto

lemma registerJob_run:
  assumes "run_state (registerJob sv r) s = (Inr (RegisterBody reg), t)"
  obtains req j ns clock v changed where "decode sv (jd_Register (sv_json sv)) r = Inr req"
    "loaded_job sv (ForRegister (sv_hcl sv) (sv_decode sv) ''job'' (rgq_Source req)) = Inr j"
    "request_namespace sv r (Some j) = Inr ns"
    "j_Register (sv_jobs sv) ns (job_Name j) (rgq_Source req) clock (sg_store s) = (Inr (v, changed), sg_store t)"
    "reg = \<lparr>rgr_Namespace = ns, rgr_Name = job_Name j, rgr_Version = v, rgr_Changed = changed\<rparr>"
  using assms
  by (fastforce simp: registerJob_def checked_Inr server_now_def now_def split: prod.splits)

lemma dispatchJob_run:
  assumes "run_state (dispatchJob sv r) s = (Inr body, t)"
  obtains req ns version j where "decode sv (jd_Dispatch (sv_json sv)) r = Inr req"
    "request_namespace sv r None = Inr ns"
    "jobs_Current (sv_jobs sv) ns (sr_Name r) (sg_store s) = Inr version"
    "registered_job sv (sr_Name r) version (dq_Meta req) = Inr j"
    "run_state (launch sv (new_origin ns (v_Version version)) j (dq_Meta req)) s = (Inr body, t)"
  using assms by (auto simp: dispatchJob_def checked_Inr)

lemma registered_job_Inr:
  assumes "registered_job sv name version meta = Inr j"
  shows "\<exists>parsed diags. ForDispatch (sv_hcl sv) (sv_decode sv) (version_name name version) (v_Source version) meta
    = (parsed, diags, None) \<and> loaded (parsed, diags) = Valid j"
  using assms
  by (auto simp: registered_job_def loaded_job_def split: prod.splits option.splits Loaded.splits)

section \<open>Requests that change nothing\<close>

definition unchanged :: "('s, 'x, 'j, 'w) Serving \<Rightarrow> ('s, 'x, 'j, 'w) Serving \<Rightarrow> bool" where
  "unchanged s t \<longleftrightarrow> sg_store t = sg_store s \<and> w_exec (sg_world t) = w_exec (sg_world s) \<and> w_store (sg_world t) = w_store (sg_world s) \<and>
     w_led (sg_world t) = w_led (sg_world s) \<and> sg_running t = sg_running s \<and> sg_started t = sg_started s \<and> sg_conns t = sg_conns s"

interpretation still: run_relation unchanged
  by unfold_locales (simp_all add: unchanged_def)

text \<open>A handler that leaves everything as it was, and one that does when it answers an error.\<close>

definition refuses :: "('s, 'x, 'j, 'w, 'e + 'b) H \<Rightarrow> bool" where
  "refuses h \<longleftrightarrow> (\<forall>s err t. run_state h s = (Inl err, t) \<longrightarrow> unchanged s t)"

lemma still_refuses: "state_io_rel unchanged h \<Longrightarrow> refuses h"
  by (auto simp: refuses_def dest: state_io_relD)

lemma refuses_ret [simp]: "refuses (ret x)"
  by (simp add: refuses_def still.refl)

lemma refuses_checked: "(\<And>a. r = Inr a \<Longrightarrow> refuses (k a)) \<Longrightarrow> refuses (checked r k)"
  by (cases r) simp_all

lemma refuses_bind:
  assumes "state_io_rel unchanged m" "\<And>a. refuses (f a)" shows "refuses (bind m f)"
  unfolding refuses_def
proof (intro allI impI)
  fix s err u
  assume "run_state (bind m f) s = (Inl err, u)"
  then obtain a t where r: "run_state m s = (a, t)" "run_state (f a) t = (Inl err, u)" by (auto split: prod.splits)
  then have "unchanged s t" "unchanged t u"
    using assms state_io_relD [OF assms(1) r(1)] by (auto simp: refuses_def)
  then show "unchanged s u" by (rule still.trans)
qed

lemma still_world: "state_io_rel (\<lambda>v w. w_exec w = w_exec v \<and> w_store w = w_store v \<and> w_led w = w_led v) m \<Longrightarrow>
    state_io_rel unchanged (in_world m)"
  by (rule state_io_relI) (auto simp: unchanged_def dest: state_io_relD split: prod.splits)

lemma still_read: "state_io_rel unchanged (read_serving f)"
  by (rule state_io_relI) (auto simp: unchanged_def)

lemma still_checked: "(\<And>a. r = Inr a \<Longrightarrow> state_io_rel unchanged (k a)) \<Longrightarrow> state_io_rel unchanged (checked r k)"
  by (cases r) (simp_all add: still.rel_return)

lemma still_now: "state_io_rel unchanged (server_now sv)"
  unfolding server_now_def now_def by (intro still_world state_io_relI) (auto split: prod.splits)

lemma still_inputs: "state_io_rel unchanged (in_world (inputs d ns))"
  by (intro still_world state_io_relI) (auto simp: inputs_def now_def split: prod.splits)

lemmas stills = still.rel_bind still.rel_return still.rel_if still.rel_option still.rel_sum still.rel_prod
  still_read still_checked still_now still_inputs

lemma still_handlers:
  "state_io_rel unchanged (listJobs sv r)" "state_io_rel unchanged (jobStatus sv r)"
  "state_io_rel unchanged (dispatchStatus sv r)" "state_io_rel unchanged (executionStatus sv r)"
  "state_io_rel unchanged (executionLogs sv r)" "state_io_rel unchanged (listNodes sv r)"
  "state_io_rel unchanged (listProviders sv r)" "state_io_rel unchanged (planJob sv r)"
  "state_io_rel unchanged (health sv)"
  unfolding listJobs_def jobStatus_def dispatchStatus_def executionStatus_def executionLogs_def listNodes_def
    listProviders_def planJob_def planned_def health_def refreshed_at_def runningIDs_def Let_def
  by (intro stills)+

lemma refuses_registerJob: "sv_jobs sv = memory_jobs u fp \<Longrightarrow> refuses (registerJob sv r)"
  unfolding registerJob_def
  by (intro refuses_checked refuses_bind [OF still_now])
    (auto simp: refuses_def checked_def map_prod_def split: prod.splits sum.splits)

lemma refuses_stopJob:
  assumes "sv_jobs sv = memory_jobs u fp" shows "refuses (stopJob sv r)"
proof -
  have "refuses (bind (on_jobs (Stop ns name clock)) (\<lambda>stopped. case stopped of
      Some err \<Rightarrow> ret (Inl (PlainError err))
    | None \<Rightarrow> bind (read_serving (\<lambda>s. Jobs_Job ns name (sg_store s))) (\<lambda>j. checked (plain_error j) (\<lambda>j. ret (Inr (JobBody (jobOf j)))))))"
    for ns name clock
    by (auto simp: update_conv' refuses_def unchanged_def Stop_def Jobs_Job_def checked_def split: prod.splits option.splits sum.splits)
  then show ?thesis unfolding stopJob_def assms memory_jobs_simps
    by (intro refuses_checked refuses_bind [OF still_now]) blast
qed

lemma launch_ledger:
  "run_state (launch sv origin j meta) s = (res, t) \<Longrightarrow>
    w_store (sg_world t) = w_store (sg_world s) \<and> w_led (sg_world t) = w_led (sg_world s)"
  by (auto simp: launch_def track_def start_def Begin_def now_def Let_def split: prod.splits option.splits if_splits)

lemma refuses_launch:
  assumes "sv_executions sv = memory_executions u" shows "refuses (launch sv origin j meta)"
  using memory_serving.launch_refused [of u sv]
  by (auto simp: refuses_def with_memory [OF assms] unchanged_def memory_serving.steady_def dest: launch_ledger)

lemma refuses_starting:
  assumes "sv_executions sv = memory_executions u" shows "refuses (runJob sv r)" "refuses (dispatchJob sv r)"
  unfolding runJob_def dispatchJob_def
  by (intro refuses_checked refuses_bind [OF still_read] refuses_launch [OF assms])+

text \<open>What cancelling an execution nobody here is running does to the store.\<close>

lemma cancelUnwatched_run:
  assumes "run_state (cancelUnwatched sv rec) w = ((err, rec'), w')"
  shows "w_store w' = w_store w \<and> w_led w' = w_led w \<and>
    (w_exec w' = w_exec w \<or>
      (\<exists>p t cancelled res. d_provider (dispatcher sv) (rec_Provider rec) = Some p \<and>
        fst (p_Cancel p (st_ID rec) (x_env (w_ext w))) = None \<and> Status_To StateCancelled t rec = Inr cancelled \<and>
        x_Update (sv_executions sv) cancelled (st_State rec) (w_exec w) = (res, w_exec w') \<and>
        (err = None \<longleftrightarrow> res = None \<or> (\<exists>e. res = Some e \<and> err_is ErrStale e))))"
proof (cases "d_provider (dispatcher sv) (rec_Provider rec)")
  case None
  with assms show ?thesis by (auto simp: cancelUnwatched_def)
next
  case (Some p)
  obtain cerr e where c: "p_Cancel p (st_ID rec) (x_env (w_ext w)) = (cerr, e)" by fastforce
  show ?thesis
  proof (cases cerr)
    case None
    obtain t e' where t: "d_now (dispatcher sv) e = (t, e')" by fastforce
    show ?thesis
    proof (cases "Status_To StateCancelled t rec")
      case (Inl err')
      with assms Some None c t show ?thesis by (auto simp: cancelUnwatched_def effect_def ext_push now_def)
    next
      case (Inr cancelled)
      obtain res x where u: "x_Update (sv_executions sv) cancelled (st_State rec) (w_exec w) = (res, x)" by fastforce
      have "w_store w' = w_store w \<and> w_led w' = w_led w \<and> w_exec w' = x \<and>
          (err = None \<longleftrightarrow> res = None \<or> (\<exists>e. res = Some e \<and> err_is ErrStale e))"
        using assms Some None c t Inr u
        by (auto simp: cancelUnwatched_def effect_def ext_push now_def split: option.splits if_splits)
      with Some None c Inr u show ?thesis by (metis fst_conv)
    qed
  next
    case (Some err')
    with assms \<open>d_provider _ _ = Some p\<close> c show ?thesis by (auto simp: cancelUnwatched_def effect_def ext_push)
  qed
qed

lemma refuses_cancelExecution:
  assumes "sv_executions sv = memory_executions u" shows "refuses (cancelExecution sv r)"
proof -
  have "unchanged s t" if "run_state (bind (in_world (cancelUnwatched sv rec)) (\<lambda>(err, rec). ret (case err of
      Some e \<Rightarrow> Inl (PlainError e) | None \<Rightarrow> Inr (B rec)))) s = (Inl e, t)" for rec s t e and B :: "Record \<Rightarrow> Body"
  proof -
    obtain err rec' w where c: "run_state (cancelUnwatched sv rec) (sg_world s) = ((err, rec'), w)" by (metis surj_pair)
    then have t: "t = s\<lparr>sg_world := w\<rparr>" "err \<noteq> None" using that by (auto split: option.splits)
    have "x = w_exec (sg_world s)" if "Update cancelled from_state (w_exec (sg_world s)) = (Some e, x)" for cancelled from_state x e
      using exec_store.update_refused that by (metis exec_memory_simps(6))
    then show ?thesis
      using cancelUnwatched_run [OF c] t by (auto simp: unchanged_def assms)
  qed
  moreover have "state_io_rel unchanged (stopDispatch sv i)" for i
    unfolding stopDispatch_def runningIDs_def by (intro stills still_world state_io_relI) (auto split: prod.splits)
  ultimately show ?thesis unfolding cancelExecution_def
    by (intro refuses_checked refuses_bind [OF still_read] refuses_bind [OF still.rel_if [OF still.rel_return]])
      (auto simp: refuses_def still.refl)
qed

lemma Update_writes:
  "Update r from_state x = (None, x') \<Longrightarrow> em_dispatches x' = em_dispatches x \<and>
    (\<exists>rel. map_of (em_records x') = (map_of (em_records x))(st_ID r \<mapsto> (clone r)\<lparr>rec_Released := rel\<rparr>))"
  by (auto simp: Update_def Let_def update_conv' split: option.splits if_splits)

lemma cancelExecution_run:
  assumes "run_state (cancelExecution sv r) s = (res, t)" "w_exec (sg_world t) \<noteq> w_exec (sg_world s)"
  shows "\<exists>i rec out. ParseID (sv_uuid sv) (sr_ID r) = Inr i \<and> x_Get (sv_executions sv) i (w_exec (sg_world s)) = Inr rec \<and>
    rec_Dispatch rec \<notin> set (sg_running s) \<and> run_state (cancelUnwatched sv rec) (sg_world s) = (out, sg_world t)"
proof -
  obtain i where i: "ParseID (sv_uuid sv) (sr_ID r) = Inr i"
    using assms by (auto simp: cancelExecution_def executionID_def split: sum.splits)
  obtain rec where rec: "x_Get (sv_executions sv) i (w_exec (sg_world s)) = Inr rec"
    using assms i by (cases "x_Get (sv_executions sv) i (w_exec (sg_world s))") (auto simp: cancelExecution_def executionID_def)
  have "\<not> Status_Terminal rec \<and> rec_Dispatch rec \<notin> set (sg_running s)"
    using assms i rec
    by (auto simp: cancelExecution_def executionID_def stopDispatch_def runningIDs_def split: if_splits prod.splits)
  with assms(1) i rec show ?thesis
    by (auto simp: cancelExecution_def executionID_def stopDispatch_def runningIDs_def split: prod.splits)
qed

section \<open>Properties\<close>

text \<open>C24. Every request is answered: whatever it carries, no handler panics on it, given that the parser reports
  an error whenever it has no body to answer with.\<close>

theorem requests_answered:
  assumes "parses (sv_hcl sv)" "run_state (Handler sv route r) s = (answer, s')"
  shows "answer \<noteq> None"
  by (rule handler_answers [OF assms])

text \<open>What a server keeps of its runs: from its start over a store in memory, through any requests, runs ending,
  upkeep, agents coming and going and other processes writing to that store, the runs it has under way have
  distinct identifiers, they are exactly the ones it can cancel, and each is recorded.\<close>

theorem runs_tracked:
  assumes "(server_step lease_step sv)\<^sup>*\<^sup>* (NewServing w jobs conns) s"
    and "sv_executions sv = memory_executions u" "keys_ok (w_exec w)"
  shows "distinct (map started_ID (sg_started s)) \<and> set (sg_running s) = started_ID ` set (sg_started s) \<and>
    set (sg_running s) \<subseteq> fst ` set (em_dispatches (w_exec (sg_world s)))"
proof -
  have "serving_ok (\<lambda>x. map_of (em_dispatches x)) keys_ok (NewServing w jobs conns)"
    using assms(3) by (simp add: serving_ok_def NewServing_def)
  then have "serving_ok (\<lambda>x. map_of (em_dispatches x)) keys_ok s"
    using memory_serving.reach_okay [of u sv] assms(1) by (simp only: with_memory [OF assms(2)])
  then show ?thesis by (simp add: serving_ok_def dom_map_of_conv_image_fst)
qed

text \<open>C12. What is dispatched is what was registered: once a job is registered, a dispatch of it under the same
  namespace starts a run of that version, loaded from a source of the registered one's fingerprint with
  the metadata the dispatch supplied, and recorded as running under this server before it is answered.\<close>

theorem registered_then_dispatched:
  assumes "sv_executions sv = memory_executions u" "sv_jobs sv = memory_jobs u fp" "jobs_good fp (sg_store s)"
    and "run_state (registerJob sv q) s = (Inr (RegisterBody reg), s')"
    and "sg_store t = sg_store s'" "sr_Name r = rgr_Name reg" "request_namespace sv r None = Inr (rgr_Namespace reg)"
    and "run_state (dispatchJob sv r) t = (Inr (DispatchedBody resp), t')"
  shows "\<exists>registered dispatched source j o1 clock parsed diags.
    decode sv (jd_Register (sv_json sv)) q = Inr registered \<and> decode sv (jd_Dispatch (sv_json sv)) r = Inr dispatched \<and>
    fp source = fp (rgq_Source registered) \<and> dr_JobVersion resp = rgr_Version reg \<and>
    ForDispatch (sv_hcl sv) (sv_decode sv) (sr_Name r @ '' (version '' @ Itoa (rgr_Version reg) @ '')'') source (dq_Meta dispatched)
      = (parsed, diags, None) \<and> loaded (parsed, diags) = Valid j \<and>
    sg_started t' = sg_started t @ [Launched o1 j (evalContext (dq_Meta dispatched))] \<and>
    map_of (em_dispatches (w_exec (sg_world t'))) (or_Dispatch o1) = Some (new_dispatch sv
      (new_origin (rgr_Namespace reg) (rgr_Version reg)) j (or_Dispatch o1) clock)"
proof -
  obtain req ns clock v changed and j :: Job where q: "decode sv (jd_Register (sv_json sv)) q = Inr req"
    "j_Register (sv_jobs sv) ns (job_Name j) (rgq_Source req) clock (sg_store s) = (Inr (v, changed), sg_store s')"
    "reg = \<lparr>rgr_Namespace = ns, rgr_Name = job_Name j, rgr_Version = v, rgr_Changed = changed\<rparr>"
    by (rule registerJob_run [OF assms(4)]) (rule that, assumption+)
  obtain version where version: "jobs_Current (sv_jobs sv) ns (job_Name j) (sg_store t) = Inr version" "v_Version version = v"
    "fp (v_Source version) = fp (rgq_Source req)"
    using jobs_memory.current [OF assms(3), of u ns "job_Name j" "rgq_Source req" clock v changed "sg_store s'"] q(2)
    by (auto simp: assms(2,5))
  obtain dreq ns2 ver dj where d: "decode sv (jd_Dispatch (sv_json sv)) r = Inr dreq"
    "request_namespace sv r None = Inr ns2" "jobs_Current (sv_jobs sv) ns2 (sr_Name r) (sg_store t) = Inr ver"
    "registered_job sv (sr_Name r) ver (dq_Meta dreq) = Inr dj"
    "run_state (launch sv (new_origin ns2 (v_Version ver)) dj (dq_Meta dreq)) t = (Inr (DispatchedBody resp), t')"
    by (rule dispatchJob_run [OF assms(8)]) (rule that, assumption+)
  have name: "sr_Name r = job_Name j" "ns2 = ns" using assms(6,7) d(2) q(3) by simp_all
  note r = d(1) d(3,4) [unfolded name] d(5) [unfolded name]
  with version have ver: "ver = version" by simp
  obtain parsed diags where load: "ForDispatch (sv_hcl sv) (sv_decode sv) (version_name (job_Name j) version)
      (v_Source version) (dq_Meta dreq) = (parsed, diags, None)" "loaded (parsed, diags) = Valid dj"
    using registered_job_Inr [OF r(3)] by (auto simp: ver)
  have "or_Dispatch (new_origin ns (v_Version ver)) = 0" by (simp add: new_origin_def)
  from memory_serving.launched [of u sv, OF _ this] r(4)
  obtain o1 clock where "sg_started t' = sg_started t @ [Launched o1 dj (evalContext (dq_Meta dreq))]"
    "DispatchedBody resp = DispatchedBody \<lparr>dr_Namespace = or_Namespace (new_origin ns v), dr_Job = job_Name dj,
      dr_JobVersion = or_JobVersion (new_origin ns v), dr_DispatchID = ID_String (sv_uuid sv) (or_Dispatch o1)\<rparr>"
    "map_of (em_dispatches (w_exec (sg_world t'))) = (map_of (em_dispatches (w_exec (sg_world t))))
      (or_Dispatch o1 \<mapsto> new_dispatch sv (new_origin ns v) dj (or_Dispatch o1) clock)"
    by (simp only: with_memory [OF assms(1)] ver version(2)) blast
  with q load r(1) version show ?thesis
    by (intro exI [of _ req] exI [of _ dreq] exI [of _ "v_Source version"] exI [of _ dj] exI [of _ o1] exI [of _ clock]
        exI [of _ parsed] exI [of _ diags]) (simp add: version_name_def new_origin_def assms(6))
qed

text \<open>C23. On a server whose executions and jobs are kept in memory, a request that is refused changes nothing, and
  neither does one that only asks: with an answer other than success, or on a route that reads or plans,
  every job, dispatch, execution, budget and connection stays as it was, and no run starts.  (On the
  database a write whose commit answers an error may have taken effect.)\<close>

theorem refused_changes_nothing:
  assumes "run_state (Handler sv route r) s = (Some (code, body), t)"
    and "sv_executions sv = memory_executions u" "sv_jobs sv = memory_jobs u fp"
    and "code \<noteq> StatusOK \<or> route \<notin> {RegisterJob, RunJob, StopJob, DispatchJob, CancelExecution}"
  shows "unchanged s t"
proof -
  have refused: "unchanged s t" if "refuses h" "run_state (wrap sv h) s = (Some (code, body), t)" "code \<noteq> StatusOK" for h
    using that by (auto simp: refuses_def wrap_def answer_of_def split: prod.splits sum.splits)
  have asked: "unchanged s t" if "state_io_rel unchanged h" "run_state (wrap sv h) s = (Some (code, body), t)" for h
    using that by (auto simp: wrap_def dest: state_io_relD split: prod.splits)
  note refusals = refused [OF refuses_registerJob [OF assms(3)]] refused [OF refuses_stopJob [OF assms(3)]]
    refused [OF refuses_starting(1) [OF assms(2)]] refused [OF refuses_starting(2) [OF assms(2)]]
    refused [OF refuses_cancelExecution [OF assms(2)]]
  show ?thesis
    using assms(1,4)
    by (cases route) (auto dest: refusals still_handlers(1-8) [THEN asked] state_io_relD [OF still_handlers(9)] split: prod.splits)
qed

text \<open>C13. The cancellation of an execution no run of this server is watching is recorded only on its provider's word:
  if handling the request writes to the store in memory, no run here held the execution, its provider,
  asked there and then, answered the cancellation without an error, the stored state allowed being
  cancelled, and that execution alone changed, to cancelled.  (One that a run here is watching is left to
  that run, which records the cancellation whatever its provider answers.)\<close>

theorem cancelled_once_stopped:
  assumes "run_state (cancelExecution sv r) s = (res, t)" "w_exec (sg_world t) \<noteq> w_exec (sg_world s)"
    and "sv_executions sv = memory_executions u" "keys_ok (w_exec (sg_world s))"
  shows "\<exists>i rec p rec'. ParseID (sv_uuid sv) (sr_ID r) = Inr i \<and>
    map_of (em_records (w_exec (sg_world s))) i = Some rec \<and> rec_Dispatch rec \<notin> set (sg_running s) \<and>
    d_provider (dispatcher sv) (rec_Provider rec) = Some p \<and>
    fst (p_Cancel p i (x_env (w_ext (sg_world s)))) = None \<and> CanTransition (st_State rec) StateCancelled \<and> st_State rec' = StateCancelled \<and>
    map_of (em_records (w_exec (sg_world t))) = (map_of (em_records (w_exec (sg_world s))))(i \<mapsto> rec') \<and>
    em_dispatches (w_exec (sg_world t)) = em_dispatches (w_exec (sg_world s))"
proof -
  obtain i rec where i: "ParseID (sv_uuid sv) (sr_ID r) = Inr i" "Get i (w_exec (sg_world s)) = Inr rec"
    "rec_Dispatch rec \<notin> set (sg_running s)"
    and c: "\<exists>out. run_state (cancelUnwatched sv rec) (sg_world s) = (out, sg_world t)"
    using cancelExecution_run [OF assms(1,2)] assms(3) by auto
  from i(2) assms(4) obtain r0 where r0: "map_of (em_records (w_exec (sg_world s))) i = Some r0" "rec = clone r0" "st_ID rec = i"
    using memory_server.get by fastforce
  from c obtain err rec' where "run_state (cancelUnwatched sv rec) (sg_world s) = ((err, rec'), sg_world t)" by (metis surj_pair)
  from cancelUnwatched_run [OF this, unfolded assms(3) r0(3) memory_executions_simps] assms(2) obtain p clock cancelled res where p:
    "d_provider (dispatcher sv) (rec_Provider rec) = Some p" "fst (p_Cancel p i (x_env (w_ext (sg_world s)))) = None"
    "Status_To StateCancelled clock rec = Inr cancelled"
    "Update cancelled (st_State rec) (w_exec (sg_world s)) = (res, w_exec (sg_world t))"
    by blast
  have legal: "CanTransition (st_State rec) StateCancelled" "st_State cancelled = StateCancelled" "st_ID cancelled = i"
    using p(3) r0(3) by (auto simp: Status_To_Inr)
  have "res = None" using p(4) assms(2) by (auto simp: Update_def Let_def split: option.splits if_splits)
  with Update_writes [of cancelled "st_State rec" "w_exec (sg_world s)" "w_exec (sg_world t)"] p(4) legal(3)
  obtain rel where "em_dispatches (w_exec (sg_world t)) = em_dispatches (w_exec (sg_world s))"
    "map_of (em_records (w_exec (sg_world t))) =
      (map_of (em_records (w_exec (sg_world s))))(i \<mapsto> (clone cancelled)\<lparr>rec_Released := rel\<rparr>)"
    by auto
  with i r0 p legal show ?thesis
    by (intro exI [of _ i] exI [of _ r0] exI [of _ p] exI [of _ "(clone cancelled)\<lparr>rec_Released := rel\<rparr>"])
      (simp add: clone_def)
qed

text \<open>C25. An agent connected over TLS speaks only for its certificate's node: what it registers touches no node of
  another name, and when it is accepted the node of that name is connected on its session.\<close>

theorem node_identity:
  assumes "run_state (nodeEndpoint_Register sv session req) s = (res, t)" "sv_identity sv session \<noteq> []"
  shows "(name \<noteq> sv_identity sv session \<longrightarrow> Conns_Get (sg_conns t) name = Conns_Get (sg_conns s) name) \<and>
    (\<forall>replaced. res = Inr replaced \<longrightarrow>
      (\<exists>conn. Conns_Get (sg_conns t) (sv_identity sv session) = Some conn \<and> cn_Session conn = session \<and> cn_Node conn = req))"
  using assms
  by (auto simp: nodeEndpoint_Register_def Let_def server_now_def now_def Report_def Conns_Get_def update_conv'
      split: prod.splits option.splits if_splits)

section \<open>A server to instantiate them on\<close>

definition served_uuid :: UUID where
  "served_uuid = \<lparr>uu_Parse = (\<lambda>s. if s = ''9'' then Inr 9 else Inl ''invalid UUID length''), uu_String = (\<lambda>i. Itoa (uint i)),
     uu_Created = (\<lambda>i. 0)\<rparr>"

definition served_json :: JsonDecoder where
  "served_json =
     \<lparr>jd_Register = (\<lambda>body short. Inr \<lparr>rgq_Source = body\<rparr>), jd_Dispatch = (\<lambda>body short. Inr \<lparr>dq_Meta = [(''version'', body)]\<rparr>),
      jd_Run = (\<lambda>body short. Inl ''unexpected end of JSON input''), jd_Plan = (\<lambda>body short. Inl ''unexpected end of JSON input'')\<rparr>"

definition sample_server :: "(Memory, ExecMemory, Jobs, nat) Server" where
  "sample_server =
     \<lparr>sv_HasNamespace = (\<lambda>n. n = DefaultNamespace), sv_refresh = (\<lambda>w. (None, w)),
      sv_executions = memory_executions served_uuid, sv_jobs = memory_jobs served_uuid id, sv_dispatch = sample_dispatcher,
      sv_owner = ''a'', sv_leaseTTL = Minute, sv_leaseRenew = 20 * Second, sv_claimEvery = 30 * Second, sv_tiers = [],
      sv_cancel = (\<lambda>i w. w), sv_hcl = sample_hcl, sv_decode = sample_decode, sv_json = served_json, sv_uuid = served_uuid,
      sv_fmt = \<lparr>fm_Quote = id, fm_Float = (\<lambda>r. []), fm_ID = (\<lambda>i. Itoa (uint i))\<rparr>, sv_range = (\<lambda>r. []),
      sv_diagnostic = (\<lambda>e. diagnostic ([], []) ([], []) None), sv_reason = (\<lambda>r. []), sv_address = (\<lambda>i. ''addr''),
      sv_identity = (\<lambda>i. ''n1'')\<rparr>"

definition sample_serving :: "(Memory, ExecMemory, Jobs, nat) Serving" where
  "sample_serving = NewServing sample_world NewJobs None"

definition sample_call :: "string \<Rightarrow> ServerRequest" where
  "sample_call body = \<lparr>sr_Namespace = [], sr_Name = ''j'', sr_ID = ''9'', sr_Body = body\<rparr>"

lemma sample_server_simps [simp]:
  "sv_executions sample_server = memory_executions served_uuid" "sv_jobs sample_server = memory_jobs served_uuid id"
  "sv_hcl sample_server = sample_hcl" "sv_decode sample_server = sample_decode" "sv_json sample_server = served_json"
  "sv_HasNamespace sample_server n \<longleftrightarrow> n = DefaultNamespace" "sv_identity sample_server i = ''n1''"
  "sv_uuid sample_server = served_uuid" "sv_address sample_server i = ''addr''"
  "sv_dispatch sample_server = sample_dispatcher" "sv_owner sample_server = ''a''" "sv_leaseTTL sample_server = Minute"
  "sv_tiers sample_server = []"
  by (simp_all add: sample_server_def)

lemma sample_parses: "parses sample_hcl"
  by (simp add: parses_def sample_hcl_def)

lemma sample_kept: "keys_ok (w_exec sample_world)"
  by (simp add: keys_ok_def sample_world_def NewExecutions_def)

definition registered_job_sample :: Job where
  "registered_job_sample = sample_spec\<lparr>job_Tasks := map (bind_task (evalContext [(''version'', ''${meta.version}'')])
     [(''version'', ''${meta.version}'')]) (job_Tasks sample_spec)\<rparr>"

definition dispatched_job_sample :: Job where
  "dispatched_job_sample = sample_spec\<lparr>job_Tasks := map (bind_task (evalContext [(''version'', ''v1'')])
     [(''version'', ''v1'')]) (job_Tasks sample_spec)\<rparr>"

lemma sample_ForRegister:
  "ForRegister sample_hcl sample_decode ''job'' ''src'' =
     (Some \<lparr>ps_Spec = Some \<lparr>file_Jobs = [registered_job_sample]\<rparr>, ps_Filename = ''job'', ps_Source = HclBody 0\<rparr>, [])"
  by code_simp

definition sample_version :: Version where
  "sample_version = \<lparr>v_Namespace = DefaultNamespace, v_Name = ''j'', v_Version = 1, v_Source = ''src'', v_Fingerprint = ''src'',
     v_Created = 1\<rparr>"

lemma sample_version_fields [simp]: "v_Version sample_version = 1" "v_Source sample_version = ''src''"
  by (simp_all add: sample_version_def)

lemma sample_ForDispatch:
  "ForDispatch sample_hcl sample_decode (version_name ''j'' sample_version) ''src'' [(''version'', ''v1'')] =
     (Some \<lparr>ps_Spec = Some \<lparr>file_Jobs = [dispatched_job_sample]\<rparr>, ps_Filename = version_name ''j'' sample_version,
        ps_Source = HclBody 0\<rparr>, [], None)"
  by code_simp

lemma sample_jobs:
  "job_Name registered_job_sample = ''j''" "job_Namespace registered_job_sample = None"
  "job_Name dispatched_job_sample = ''j''"
  by (simp_all add: registered_job_sample_def dispatched_job_sample_def sample_spec_def)

lemma sample_requests [simp]:
  "decode sample_server (jd_Register served_json) (sample_call ''src'') = Inr \<lparr>rgq_Source = ''src''\<rparr>"
  "decode sample_server (jd_Dispatch served_json) (sample_call ''v1'') = Inr \<lparr>dq_Meta = [(''version'', ''v1'')]\<rparr>"
  "request_namespace sample_server (sample_call b) None = Inr DefaultNamespace"
  "request_namespace sample_server (sample_call b) (Some registered_job_sample) = Inr DefaultNamespace"
  "sr_Name (sample_call b) = ''j''"
  by (simp_all add: decode_def served_json_def request_namespace_def Namespace_def sample_call_def no_job_def sample_jobs Let_def maxBody_def)

lemma sample_registered:
  "run_state (registerJob sample_server (sample_call ''src'')) sample_serving =
     (Inr (RegisterBody \<lparr>rgr_Namespace = DefaultNamespace, rgr_Name = ''j'', rgr_Version = 1, rgr_Changed = True\<rparr>),
      sample_serving\<lparr>sg_world := sample_world\<lparr>w_ext := \<lparr>x_env = 1, x_calls = []\<rparr>\<rparr>,
        sg_store := snd (Register id DefaultNamespace ''j'' ''src'' 1 NewJobs)\<rparr>)"
  by (simp add: registerJob_def sample_ForRegister loaded_job_def loaded_def first_job_def server_now_def now_def
      sample_serving_def NewServing_def sample_world_def dispatcher_def sample_jobs Register_def
      NewJobs_def Let_def no_standing_def wrap64_def)

definition registered_serving :: "(Memory, ExecMemory, Jobs, nat) Serving" where
  "registered_serving = snd (run_state (registerJob sample_server (sample_call ''src'')) sample_serving)"

lemma sample_current:
  "jobs_Current (memory_jobs served_uuid id) DefaultNamespace ''j'' (sg_store registered_serving) =
     Inr sample_version"
  by (simp add: registered_serving_def sample_registered memory_Current Current_def Jobs_Job_def Jobs_Version_def Register_def
      NewJobs_def Let_def no_standing_def wrap64_def sample_version_def)

lemma sample_loaded: "registered_job sample_server ''j'' sample_version [(''version'', ''v1'')] = Inr dispatched_job_sample"
  by (simp add: registered_job_def sample_ForDispatch loaded_job_def loaded_def first_job_def)

lemma sample_dispatching:
  "run_state (dispatchJob sample_server (sample_call ''v1'')) registered_serving =
     run_state (launch sample_server (new_origin DefaultNamespace 1) dispatched_job_sample [(''version'', ''v1'')]) registered_serving"
  by (simp add: dispatchJob_def sample_current sample_loaded)

lemma registered_world: "sg_world registered_serving = sample_world\<lparr>w_ext := \<lparr>x_env = 1, x_calls = []\<rparr>\<rparr>"
  by (simp add: registered_serving_def sample_registered)

lemma sample_dispatched:
  "\<exists>name. fst (run_state (dispatchJob sample_server (sample_call ''v1'')) registered_serving) =
     Inr (DispatchedBody \<lparr>dr_Namespace = DefaultNamespace, dr_Job = ''j'', dr_JobVersion = 1, dr_DispatchID = name\<rparr>)"
  unfolding sample_dispatching
  by (simp add: launch_def Begin_def now_def track_def start_def registered_world new_origin_def sample_jobs
      dispatcher_def CreateDispatch_def sample_world_def NewExecutions_def Let_def ID_String_def)

definition held_record :: Record where
  "held_record =
     \<lparr>st_ID = 9, st_State = StateRunning, st_ProviderID = ''p1'', st_StartedAt = 1, st_EndedAt = 0, st_UpdatedAt = 1,
      rec_Namespace = DefaultNamespace, rec_Job = ''j'', rec_JobVersion = 1, rec_Dispatch = 7, rec_Task = ''build'',
      rec_Provider = ''fn'', rec_Attempt = 1, rec_Previous = 0, rec_CPU = 0, rec_Memory = 0, rec_Result = None,
      rec_Failure = [], rec_Released = 0\<rparr>"

definition held_serving :: "(Memory, ExecMemory, Jobs, nat) Serving" where
  "held_serving = sample_serving\<lparr>sg_world := sample_world\<lparr>w_exec := \<lparr>em_dispatches = [], em_records = [(9, held_record)]\<rparr>\<rparr>\<rparr>"

lemma held_facts: "clone held_record = held_record" "\<not> Status_Terminal held_record" "rec_Dispatch held_record = 7"
  "rec_Provider held_record = ''fn''" "st_ID held_record = 9"
  by (simp_all add: clone_def held_record_def Bounded_def Status_Terminal_def)

lemma held_to_cancelled: "\<exists>c. Status_To StateCancelled t held_record = Inr c \<and> st_ID c = 9 \<and> st_State c = StateCancelled"
proof -
  have "CanTransition (st_State held_record) StateCancelled" by code_simp
  then show ?thesis by (auto simp: Status_To_Inr held_facts)
qed

lemma held_cancelled:
  "w_exec (sg_world (snd (run_state (cancelExecution sample_server (sample_call [])) held_serving))) \<noteq>
     w_exec (sg_world held_serving)"
proof -
  obtain c where c: "Status_To StateCancelled 1 held_record = Inr c" "st_ID c = 9" "st_State c = StateCancelled"
    using held_to_cancelled by blast
  have i: "executionID sample_server (sample_call []) = Inr 9"
    by (simp add: executionID_def ParseID_def sample_call_def served_uuid_def)
  have x: "w_exec (sg_world held_serving) = \<lparr>em_dispatches = [], em_records = [(9, held_record)]\<rparr>" "sg_running held_serving = []"
    "x_env (w_ext (sg_world held_serving)) = 0"
    by (simp_all add: held_serving_def sample_serving_def NewServing_def sample_world_def)
  have "Update c (st_State held_record) (w_exec (sg_world held_serving)) =
      (None, \<lparr>em_dispatches = [], em_records = [(9, (clone c)\<lparr>rec_Released := rec_Released held_record\<rparr>)]\<rparr>)"
    by (simp add: Update_def x c Let_def)
  moreover have "(clone c)\<lparr>rec_Released := rec_Released held_record\<rparr> \<noteq> held_record"
    using c(3) by (auto simp: held_record_def clone_def vocab dest: arg_cong [where f = st_State])
  ultimately show ?thesis
    by (simp add: cancelExecution_def i Get_def x held_facts stopDispatch_def runningIDs_def cancelUnwatched_def dispatcher_def
        effect_def ext_push now_def sample_provider_def c)
qed

lemma sample_registers:
  "run_state (registerJob sample_server (sample_call ''src'')) sample_serving =
     (Inr (RegisterBody \<lparr>rgr_Namespace = DefaultNamespace, rgr_Name = ''j'', rgr_Version = 1, rgr_Changed = True\<rparr>), registered_serving)"
  by (simp add: registered_serving_def sample_registered)

theorem requests_answered_witness:
  "fst (run_state (Handler sample_server RegisterJob (sample_call ''src'')) sample_serving) \<noteq> None"
  using requests_answered [OF _ surjective_pairing, of sample_server RegisterJob "sample_call ''src''" sample_serving]
  by (simp add: sample_parses)

theorem runs_tracked_witness:
  "distinct (map started_ID (sg_started (snd (run_state (Handler sample_server DispatchJob (sample_call ''v1''))
      registered_serving)))) \<and>
   set (sg_running (snd (run_state (Handler sample_server DispatchJob (sample_call ''v1'')) registered_serving))) \<noteq> {}"
proof -
  let ?t = "snd (run_state (Handler sample_server DispatchJob (sample_call ''v1'')) registered_serving)"
  obtain name where name: "fst (run_state (dispatchJob sample_server (sample_call ''v1'')) registered_serving) =
     Inr (DispatchedBody \<lparr>dr_Namespace = DefaultNamespace, dr_Job = ''j'', dr_JobVersion = 1, dr_DispatchID = name\<rparr>)"
    using sample_dispatched by blast
  have "server_step lease_step sample_server sample_serving registered_serving"
    by (rule server_step.request [where route = RegisterJob and r = "sample_call ''src''"])
      (simp add: wrap_def sample_registers)
  moreover have "server_step lease_step sample_server registered_serving ?t"
    by (rule server_step.request [where route = DispatchJob]) (rule surjective_pairing)
  ultimately have steps: "(server_step lease_step sample_server)\<^sup>*\<^sup>* (NewServing sample_world NewJobs None) ?t"
    unfolding sample_serving_def by (meson rtranclp.rtrancl_refl rtranclp.rtrancl_into_rtrancl)
  have t: "?t = snd (run_state (dispatchJob sample_server (sample_call ''v1'')) registered_serving)"
    by (simp add: wrap_def split: prod.split)
  have "sg_started ?t \<noteq> []"
    using memory_serving.launched [of served_uuid sample_server, unfolded with_memory [OF sample_server_simps(1)]] name
    unfolding t sample_dispatching by (metis new_origin_dispatch append_is_Nil_conv list.distinct(1) surjective_pairing)
  with runs_tracked [OF steps sample_server_simps(1) sample_kept] show ?thesis by simp
qed

theorem registered_then_dispatched_witness:
  "\<exists>o1 j. sg_started (snd (run_state (dispatchJob sample_server (sample_call ''v1'')) registered_serving)) =
     [Launched o1 j (evalContext [(''version'', ''v1'')])]"
proof -
  obtain name where name: "fst (run_state (dispatchJob sample_server (sample_call ''v1'')) registered_serving) =
     Inr (DispatchedBody \<lparr>dr_Namespace = DefaultNamespace, dr_Job = ''j'', dr_JobVersion = 1, dr_DispatchID = name\<rparr>)"
    using sample_dispatched by blast
  have "jobs_good id (sg_store sample_serving)"
    using NewJobs_ok by (simp add: sample_serving_def NewServing_def jobs_good_def room_def printed_def NewJobs_def MaxInt64_def)
  moreover have "sg_started registered_serving = []"
    by (simp add: registered_serving_def sample_registered) (simp add: sample_serving_def NewServing_def)
  ultimately show ?thesis
    using registered_then_dispatched [OF sample_server_simps(1,2) _ sample_registers refl _ _ prod_eqI [OF trans [OF name fst_conv [symmetric]] snd_conv [symmetric]]]
    by auto
qed

theorem refused_changes_nothing_witness:
  "unchanged sample_serving (snd (run_state (Handler sample_server ListNodes (sample_call [])) sample_serving))"
proof -
  obtain code body t where "run_state (Handler sample_server ListNodes (sample_call [])) sample_serving = (Some (code, body), t)"
    by (simp add: wrap_def listNodes_def answer_of_def)
  from refused_changes_nothing [OF this sample_server_simps(1,2)] this show ?thesis by simp
qed

theorem cancelled_once_stopped_witness:
  "\<exists>rec'. st_State rec' = StateCancelled \<and> map_of (em_records (w_exec (sg_world
     (snd (run_state (cancelExecution sample_server (sample_call [])) held_serving))))) 9 = Some rec'"
proof -
  have "keys_ok (w_exec (sg_world held_serving))"
    by (simp add: keys_ok_def held_serving_def held_record_def)
  from cancelled_once_stopped [OF surjective_pairing held_cancelled sample_server_simps(1) this]
  show ?thesis by (auto simp: ParseID_def sample_call_def served_uuid_def)
qed

theorem node_identity_witness:
  "Conns_Get (sg_conns (snd (run_state (nodeEndpoint_Register sample_server 3 sample_node) sample_serving))) ''n2'' = None"
  using node_identity [OF surjective_pairing [of "run_state (nodeEndpoint_Register sample_server 3 sample_node) sample_serving"],
    of "''n2''"]
  by (simp add: sample_serving_def NewServing_def NewConns_def Conns_Get_def)

end
