(* ===== verification/Wire.thy ===== *)
theory Wire
  imports Clients Routes
begin

text \<open>
  The client on the wire to the server: the patterns of \<^verbatim>\<open>Server.Handler\<close> as \<^verbatim>\<open>net/http\<close> matches them, the
  bytes of an answer, and what a client method sees of a handler.  What \<^verbatim>\<open>net/http\<close> answers by itself, to a
  path that is not clean or that no route takes, is the parameter \<open>other\<close>.
\<close>

section \<open>The server's end\<close>

definition all_routes :: "Route list" where
  "all_routes =
     [RegisterJob, ListJobs, RunJob, PlanJob, JobStatusRoute, StopJob, DispatchJob, DispatchStatus, ExecutionStatus,
      ExecutionLogs, CancelExecution, HealthRoute, ListNodes, ListProviders]"

definition takes_method :: "string \<Rightarrow> string \<Rightarrow> bool" where
  "takes_method pattern_method method \<longleftrightarrow>
     pattern_method = method \<or> pattern_method = ''GET'' \<and> method = ''HEAD''"

definition route_match :: "string \<Rightarrow> string list \<Rightarrow> Route \<Rightarrow> (string \<times> string) list option" where
  "route_match method segs route =
     (case pattern_of (route_pattern route) of (pattern_method, pats) \<Rightarrow>
        if takes_method pattern_method method then match_segments pats segs else None)"

definition http_cleanPath :: "string \<Rightarrow> string" where
  "http_cleanPath p =
     (let p = (if p = [] \<or> hd p \<noteq> CHR ''/'' then CHR ''/'' # p else p);
          np = path_Clean p
      in if ends_in_slash p \<and> np \<noteq> ''/'' then np @ ''/'' else np)"

definition route_request :: "ClientRequest \<Rightarrow> (Route \<times> ServerRequest) option" where
  "route_request req =
     (if http_cleanPath (hq_Path req) \<noteq> hq_Path req then None
      else let segs = path_segments (hq_Path req) in
        case find_first (\<lambda>r. route_match (hq_Method req) segs r \<noteq> None) all_routes of
          None \<Rightarrow> None
        | Some r \<Rightarrow>
            (let bound = the (route_match (hq_Method req) segs r);
                 value_of = \<lambda>x. (case map_of bound x of None \<Rightarrow> [] | Some v \<Rightarrow> v)
             in Some (r, \<lparr>sr_Namespace = Query_Get (hq_RawQuery req) ''namespace'', sr_Name = value_of ''name'',
                sr_ID = value_of ''id'', sr_Body = (case hq_Body req of None \<Rightarrow> [] | Some b \<Rightarrow> b)\<rparr>)))"

text \<open>Output is written as it is, every other body as JSON.\<close>

definition body_bytes :: "(Body \<Rightarrow> string) \<Rightarrow> Body \<Rightarrow> string" where
  "body_bytes encode body = (case body of LogsBody logs \<Rightarrow> logs | _ \<Rightarrow> encode body)"

definition served ::
  "('s, 'x, 'j, 'w) Server \<Rightarrow> (Body \<Rightarrow> string) \<Rightarrow> (int \<Rightarrow> string) \<Rightarrow> (ClientRequest \<Rightarrow> string + ClientResponse)
    \<Rightarrow> ClientRequest \<Rightarrow> ('s, 'x, 'j, 'w) Serving \<Rightarrow> (string + ClientResponse) \<times> ('s, 'x, 'j, 'w) Serving" where
  "served sv encode status_line other req s =
     (case route_request req of
        None \<Rightarrow> (other req, s)
      | Some (route, r) \<Rightarrow>
          (case run_state (Handler sv route r) s of
             (None, t) \<Rightarrow> (Inl ''EOF'', t)
           | (Some (code, body), t) \<Rightarrow>
               (Inr \<lparr>hp_StatusCode = code, hp_Status = status_line code, hp_Body = body_bytes encode body, hp_Broken = None\<rparr>, t)))"

section \<open>The client's end\<close>

datatype ClientCall =
    AskRegister string string
  | AskJobs string
  | AskJobStatus string string
  | AskStopJob string string
  | AskDispatch string string "(string \<times> string) list"
  | AskRun string string "(string \<times> string) list"
  | AskPlan string PlanRequest
  | AskDispatchStatus string
  | AskExecution string
  | AskLogs string
  | AskCancel string
  | AskNodes
  | AskProviders
  | AskHealth

definition seen :: "('a \<Rightarrow> Body) \<Rightarrow> ('n, ClientError + 'a) state \<Rightarrow> ('n, ClientError + Body) state" where
  "seen f m = do { r \<leftarrow> m; ret (map_sum id f r) }"

fun client_call :: "'n ApiClient \<Rightarrow> ClientCall \<Rightarrow> ('n, ClientError + Body) state" where
  "client_call c (AskRegister ns source) = seen RegisterBody (Client_Register c ns source)"
| "client_call c (AskJobs ns) = seen JobsBody (Client_Jobs c ns)"
| "client_call c (AskJobStatus ns name) = seen JobStatusBody (Client_JobStatus c ns name)"
| "client_call c (AskStopJob ns name) = seen JobBody (Client_StopJob c ns name)"
| "client_call c (AskDispatch ns name meta) = seen DispatchedBody (Client_Dispatch c ns name meta)"
| "client_call c (AskRun ns source meta) = seen DispatchedBody (Client_Run c ns source meta)"
| "client_call c (AskPlan ns req) = seen PlanBody (Client_Plan c ns req)"
| "client_call c (AskDispatchStatus i) = seen DispatchBody (Client_DispatchStatus c i)"
| "client_call c (AskExecution i) = seen ExecutionBody (Client_Execution c i)"
| "client_call c (AskLogs i) = seen LogsBody (Client_Logs c i)"
| "client_call c (AskCancel i) = seen ExecutionBody (Client_Cancel c i)"
| "client_call c AskNodes = seen NodesBody (Client_Nodes c)"
| "client_call c AskProviders = seen ProvidersBody (Client_Providers c)"
| "client_call c AskHealth =
     do { r \<leftarrow> Client_Health c; ret (case r of (out, Some err) \<Rightarrow> Inl err | (out, None) \<Rightarrow> Inr (HealthBody (the out))) }"

text \<open>The route of each call, what it says, and what it reads of a good answer.\<close>

fun call_route :: "ClientCall \<Rightarrow> Route" where
  "call_route (AskRegister ns source) = RegisterJob"
| "call_route (AskJobs ns) = ListJobs"
| "call_route (AskJobStatus ns name) = JobStatusRoute"
| "call_route (AskStopJob ns name) = StopJob"
| "call_route (AskDispatch ns name meta) = DispatchJob"
| "call_route (AskRun ns source meta) = RunJob"
| "call_route (AskPlan ns req) = PlanJob"
| "call_route (AskDispatchStatus i) = DispatchStatus"
| "call_route (AskExecution i) = ExecutionStatus"
| "call_route (AskLogs i) = ExecutionLogs"
| "call_route (AskCancel i) = CancelExecution"
| "call_route AskNodes = ListNodes"
| "call_route AskProviders = ListProviders"
| "call_route AskHealth = HealthRoute"

fun call_payload :: "ClientJson \<Rightarrow> ClientCall \<Rightarrow> (string + string) option" where
  "call_payload cj (AskRegister ns source) = Some (cj_RegisterRequest cj \<lparr>rgq_Source = source\<rparr>)"
| "call_payload cj (AskDispatch ns name meta) = Some (cj_DispatchRequest cj \<lparr>dq_Meta = meta\<rparr>)"
| "call_payload cj (AskRun ns source meta) = Some (cj_RunRequest cj \<lparr>rnq_Source = source, rnq_Meta = meta\<rparr>)"
| "call_payload cj (AskPlan ns req) = Some (cj_PlanRequest cj req)"
| "call_payload cj _ = None"

fun call_target :: "ClientCall \<Rightarrow> string \<times> string \<times> string" where
  "call_target (AskRegister ns source) = (ns, [], [])"
| "call_target (AskJobs ns) = (ns, [], [])"
| "call_target (AskJobStatus ns name) = (ns, name, [])"
| "call_target (AskStopJob ns name) = (ns, name, [])"
| "call_target (AskDispatch ns name meta) = (ns, name, [])"
| "call_target (AskRun ns source meta) = (ns, [], [])"
| "call_target (AskPlan ns req) = (ns, [], [])"
| "call_target (AskDispatchStatus i) = ([], [], i)"
| "call_target (AskExecution i) = ([], [], i)"
| "call_target (AskLogs i) = ([], [], i)"
| "call_target (AskCancel i) = ([], [], i)"
| "call_target _ = ([], [], [])"

definition call_request :: "ClientCall \<Rightarrow> string \<Rightarrow> ServerRequest" where
  "call_request call payload =
     (case call_target call of (ns, name, i) \<Rightarrow> \<lparr>sr_Namespace = ns, sr_Name = name, sr_ID = i, sr_Body = payload\<rparr>)"

fun call_decoder :: "ClientJson \<Rightarrow> ClientCall \<Rightarrow> string \<Rightarrow> string + Body" where
  "call_decoder cj (AskRegister ns source) b = map_sum id RegisterBody (cj_Registered cj b None)"
| "call_decoder cj (AskJobs ns) b = map_sum id JobsBody (cj_Jobs cj b None)"
| "call_decoder cj (AskJobStatus ns name) b = map_sum id JobStatusBody (cj_JobStatus cj b None)"
| "call_decoder cj (AskStopJob ns name) b = map_sum id JobBody (cj_Job cj b None)"
| "call_decoder cj (AskDispatch ns name meta) b = map_sum id DispatchedBody (cj_Dispatched cj b None)"
| "call_decoder cj (AskRun ns source meta) b = map_sum id DispatchedBody (cj_Dispatched cj b None)"
| "call_decoder cj (AskPlan ns req) b = map_sum id PlanBody (cj_Plan cj b None)"
| "call_decoder cj (AskDispatchStatus i) b = map_sum id DispatchBody (cj_Dispatch cj b None)"
| "call_decoder cj (AskExecution i) b = map_sum id ExecutionBody (cj_Execution cj b None)"
| "call_decoder cj (AskLogs i) b = Inr (LogsBody b)"
| "call_decoder cj (AskCancel i) b = map_sum id ExecutionBody (cj_Execution cj b None)"
| "call_decoder cj AskNodes b = map_sum id NodesBody (cj_Nodes cj b None)"
| "call_decoder cj AskProviders b = map_sum id ProvidersBody (cj_Providers cj b None)"
| "call_decoder cj AskHealth b = map_sum id HealthBody (cj_Health cj b None)"

text \<open>A name or identifier that a path can carry as one segment: cleaning takes the dots away, and a wildcard
  takes neither nothing nor a slash by itself.\<close>

definition addressable :: "string \<Rightarrow> bool" where
  "addressable s \<longleftrightarrow> s \<notin> {[], ''.'', ''..'', ''/''}"

fun call_ok :: "ClientCall \<Rightarrow> bool" where
  "call_ok (AskJobStatus ns name) = addressable name"
| "call_ok (AskStopJob ns name) = addressable name"
| "call_ok (AskDispatch ns name meta) = addressable name"
| "call_ok (AskDispatchStatus i) = addressable i"
| "call_ok (AskExecution i) = addressable i"
| "call_ok (AskLogs i) = addressable i"
| "call_ok (AskCancel i) = addressable i"
| "call_ok _ = True"

text \<open>The bytes of this answer are read as what was written.\<close>

definition reads_back :: "ClientJson \<Rightarrow> (Body \<Rightarrow> string) \<Rightarrow> ClientCall \<Rightarrow> (int \<times> Body) option \<Rightarrow> bool" where
  "reads_back cj encode call answer =
     (case answer of
        None \<Rightarrow> True
      | Some (code, body) \<Rightarrow>
          if call = AskHealth \<or> go_div code 100 = 2
          then call_decoder cj call (body_bytes encode body) = Inr body
          else case body of ErrorBody e \<Rightarrow> cj_Error cj (encode body) None = (None, e) | _ \<Rightarrow> False)"

definition client_sees ::
  "string \<Rightarrow> (int \<Rightarrow> string) \<Rightarrow> ClientCall \<Rightarrow> (int \<times> Body) option \<Rightarrow> ClientError + Body" where
  "client_sees base status_line call answer =
     (case answer of
        None \<Rightarrow> Inl (ClientFailed (Formatted ''contacting the server at %s: %w'' [S base] [Sentinel ''EOF'']))
      | Some (code, body) \<Rightarrow>
          (case body of
             HealthBody h \<Rightarrow>
               if code = 200 then Inr body else Inl (ResponseError code \<lparr>ae_Error = ah_StoreError h, ae_Diagnostics = []\<rparr>)
           | ErrorBody e \<Rightarrow>
               Inl (ResponseError code (if ae_Error e = [] then e\<lparr>ae_Error := status_line code\<rparr> else e))
           | _ \<Rightarrow> Inr body))"

section \<open>Requests reach their routes\<close>

lemma route_patterns [simp]:
  "pattern_of (route_pattern RegisterJob) = (''POST'', [Literal ''v1'', Literal ''jobs''])"
  "pattern_of (route_pattern ListJobs) = (''GET'', [Literal ''v1'', Literal ''jobs''])"
  "pattern_of (route_pattern RunJob) = (''POST'', [Literal ''v1'', Literal ''jobs'', Literal ''run''])"
  "pattern_of (route_pattern PlanJob) = (''POST'', [Literal ''v1'', Literal ''jobs'', Literal ''plan''])"
  "pattern_of (route_pattern JobStatusRoute) = (''GET'', [Literal ''v1'', Literal ''job'', Wildcard ''name''])"
  "pattern_of (route_pattern StopJob) = (''DELETE'', [Literal ''v1'', Literal ''job'', Wildcard ''name''])"
  "pattern_of (route_pattern DispatchJob) = (''POST'', [Literal ''v1'', Literal ''job'', Wildcard ''name'', Literal ''dispatch''])"
  "pattern_of (route_pattern DispatchStatus) = (''GET'', [Literal ''v1'', Literal ''dispatch'', Wildcard ''id''])"
  "pattern_of (route_pattern ExecutionStatus) = (''GET'', [Literal ''v1'', Literal ''execution'', Wildcard ''id''])"
  "pattern_of (route_pattern ExecutionLogs) = (''GET'', [Literal ''v1'', Literal ''execution'', Wildcard ''id'', Literal ''logs''])"
  "pattern_of (route_pattern CancelExecution) = (''DELETE'', [Literal ''v1'', Literal ''execution'', Wildcard ''id''])"
  "pattern_of (route_pattern HealthRoute) = (''GET'', [Literal ''v1'', Literal ''health''])"
  "pattern_of (route_pattern ListNodes) = (''GET'', [Literal ''v1'', Literal ''nodes''])"
  "pattern_of (route_pattern ListProviders) = (''GET'', [Literal ''v1'', Literal ''providers''])"
  by code_simp+

declare route_pattern.simps [simp del]

lemma plain_words [simp]:
  "plain_segment ''v1''" "plain_segment ''jobs''" "plain_segment ''job''" "plain_segment ''run''" "plain_segment ''plan''"
  "plain_segment ''dispatch''" "plain_segment ''execution''" "plain_segment ''logs''" "plain_segment ''nodes''"
  "plain_segment ''providers''" "plain_segment ''health''"
  by (simp_all add: plain_segment_def)

lemma plain_PathEscape: "addressable s \<Longrightarrow> plain_segment (PathEscape s)"
  by (simp add: plain_segment_def addressable_def PathEscape_slash PathEscape_dots)

lemma unescape_plain: "CHR ''%'' \<notin> set s \<Longrightarrow> unescape False s = Some s"
  by (induction s) auto

definition plain_base :: "BaseUrl \<Rightarrow> bool" where
  "plain_base b \<longleftrightarrow> bu_Path b \<in> {[], ''/''} \<and> bu_RawQuery b = []"

lemma Query_Get_empty [simp]: "Query_Get [] key = []"
  by (simp add: Query_Get_def query_setting_def map_filter_simps)

lemma namespace_sent:
  "plain_base (cl_base c) \<Longrightarrow> Query_Get (hq_RawQuery (client_request c method p ns body)) ''namespace'' = ns"
  by (simp add: client_request_def plain_base_def Query_Get_encode unreserved_def)

lemma request_routed:
  assumes base: "plain_base (cl_base c)" and segs: "segs \<noteq> []" "list_all plain_segment segs"
    and path: "p = rooted segs"
    and dec: "map (\<lambda>seg. case unescape False seg of None \<Rightarrow> seg | Some t \<Rightarrow> t) segs = decoded"
    and r: "find_first (\<lambda>r. route_match method decoded r \<noteq> None) all_routes = Some route"
      "route_match method decoded route = Some bound"
  shows "route_request (client_request c method p ns body) =
    Some (route, \<lparr>sr_Namespace = ns, sr_Name = (case map_of bound ''name'' of None \<Rightarrow> [] | Some v \<Rightarrow> v),
      sr_ID = (case map_of bound ''id'' of None \<Rightarrow> [] | Some v \<Rightarrow> v), sr_Body = (case body of None \<Rightarrow> [] | Some b \<Rightarrow> b)\<rparr>)"
proof -
  have joined: "JoinPath (bu_Path (cl_base c)) p = rooted segs"
    using base JoinPath_plain [OF _ segs] by (simp add: plain_base_def path)
  have clean: "http_cleanPath (rooted segs) = rooted segs"
    using rooted_no_slash [OF segs] clean_rooted [OF segs] by (simp add: http_cleanPath_def rooted_def)
  have fields: "hq_Path (client_request c method p ns body) = rooted segs" "hq_Method (client_request c method p ns body) = method"
    "hq_Body (client_request c method p ns body) = body"
    by (simp_all add: client_request_def joined)
  have ms: "path_segments (rooted segs) = decoded" using path_segments_rooted [OF segs] dec by simp
  show ?thesis
    unfolding route_request_def fields clean ms namespace_sent [OF base] Let_def r(1)
    by (simp add: r(2))
qed

lemmas routing = all_routes_def route_match_def takes_method_def rooted_def unescape_plain addressable_def

fun call_method :: "ClientCall \<Rightarrow> string" where
  "call_method (AskRegister ns source) = ''POST''"
| "call_method (AskDispatch ns name meta) = ''POST''"
| "call_method (AskRun ns source meta) = ''POST''"
| "call_method (AskPlan ns req) = ''POST''"
| "call_method (AskStopJob ns name) = ''DELETE''"
| "call_method (AskCancel i) = ''DELETE''"
| "call_method _ = ''GET''"

fun call_path :: "ClientCall \<Rightarrow> string" where
  "call_path (AskJobStatus ns name) = ''/v1/job/'' @ PathEscape name"
| "call_path (AskStopJob ns name) = ''/v1/job/'' @ PathEscape name"
| "call_path (AskDispatch ns name meta) = ''/v1/job/'' @ PathEscape name @ ''/dispatch''"
| "call_path (AskRun ns source meta) = ''/v1/jobs/run''"
| "call_path (AskPlan ns req) = ''/v1/jobs/plan''"
| "call_path (AskDispatchStatus i) = ''/v1/dispatch/'' @ PathEscape i"
| "call_path (AskExecution i) = ''/v1/execution/'' @ PathEscape i"
| "call_path (AskLogs i) = ''/v1/execution/'' @ PathEscape i @ ''/logs''"
| "call_path (AskCancel i) = ''/v1/execution/'' @ PathEscape i"
| "call_path AskNodes = ''/v1/nodes''"
| "call_path AskProviders = ''/v1/providers''"
| "call_path AskHealth = ''/v1/health''"
| "call_path _ = ''/v1/jobs''"

text \<open>The segments of each path, and what they are read as.\<close>

fun call_segments :: "(string \<Rightarrow> string) \<Rightarrow> ClientCall \<Rightarrow> string list" where
  "call_segments e (AskJobStatus ns name) = [''v1'', ''job'', e name]"
| "call_segments e (AskStopJob ns name) = [''v1'', ''job'', e name]"
| "call_segments e (AskDispatch ns name meta) = [''v1'', ''job'', e name, ''dispatch'']"
| "call_segments e (AskRun ns source meta) = [''v1'', ''jobs'', ''run'']"
| "call_segments e (AskPlan ns req) = [''v1'', ''jobs'', ''plan'']"
| "call_segments e (AskDispatchStatus i) = [''v1'', ''dispatch'', e i]"
| "call_segments e (AskExecution i) = [''v1'', ''execution'', e i]"
| "call_segments e (AskLogs i) = [''v1'', ''execution'', e i, ''logs'']"
| "call_segments e (AskCancel i) = [''v1'', ''execution'', e i]"
| "call_segments e AskNodes = [''v1'', ''nodes'']"
| "call_segments e AskProviders = [''v1'', ''providers'']"
| "call_segments e AskHealth = [''v1'', ''health'']"
| "call_segments e _ = [''v1'', ''jobs'']"

lemma call_paths:
  "call_segments e call \<noteq> []" "call_path call = rooted (call_segments PathEscape call)"
  "call_ok call \<Longrightarrow> list_all plain_segment (call_segments PathEscape call)"
  "map (\<lambda>seg. case unescape False seg of None \<Rightarrow> seg | Some t \<Rightarrow> t) (call_segments PathEscape call) = call_segments id call"
  by (cases call; simp add: rooted_def plain_PathEscape unescape_plain)+

lemma call_matched:
  assumes "call_ok call"
  shows "find_first (\<lambda>r. route_match (call_method call) (call_segments id call) r \<noteq> None) all_routes = Some (call_route call) \<and>
    (\<exists>bound. route_match (call_method call) (call_segments id call) (call_route call) = Some bound \<and>
      (case map_of bound ''name'' of None \<Rightarrow> [] | Some v \<Rightarrow> v) = fst (snd (call_target call)) \<and>
      (case map_of bound ''id'' of None \<Rightarrow> [] | Some v \<Rightarrow> v) = snd (snd (call_target call)))"
  using assms by (cases call) (simp_all add: routing)

lemma call_routed:
  assumes "plain_base (cl_base c)" "call_ok call"
  shows "route_request (client_request c (call_method call) (call_path call) (fst (call_target call)) body) =
    Some (call_route call, call_request call (case body of None \<Rightarrow> [] | Some b \<Rightarrow> b))"
proof -
  from call_matched [OF assms(2)] obtain bound
    where m: "find_first (\<lambda>r. route_match (call_method call) (call_segments id call) r \<noteq> None) all_routes = Some (call_route call)"
      "route_match (call_method call) (call_segments id call) (call_route call) = Some bound"
      "(case map_of bound ''name'' of None \<Rightarrow> [] | Some v \<Rightarrow> v) = fst (snd (call_target call))"
      "(case map_of bound ''id'' of None \<Rightarrow> [] | Some v \<Rightarrow> v) = snd (snd (call_target call))" by auto
  from request_routed [OF assms(1) call_paths(1) call_paths(3) [OF assms(2)] call_paths(2) call_paths(4) m(1,2)]
  show ?thesis by (simp add: m(3,4) call_request_def split: prod.split)
qed

section \<open>What a client method sees\<close>

text \<open>A client over this server; \<open>other\<close> answers what no route takes.\<close>

definition over_server ::
  "'n ApiClient \<Rightarrow> (ClientRequest \<Rightarrow> 'n \<Rightarrow> (string + ClientResponse) \<times> 'n) \<Rightarrow> bool" where
  "over_server c serve \<longleftrightarrow> http_Do (cl_http c) = serve \<and> http_New (cl_http c) = (\<lambda>_. None) \<and> plain_base (cl_base c)"

definition unreachable :: "'n ApiClient \<Rightarrow> ClientError" where
  "unreachable c = ClientFailed (Formatted ''contacting the server at %s: %w'' [S (bu_Text (cl_base c))] [Sentinel ''EOF''])"

definition response :: "(Body \<Rightarrow> string) \<Rightarrow> (int \<Rightarrow> string) \<Rightarrow> int \<Rightarrow> Body \<Rightarrow> ClientResponse" where
  "response encode status_line code body =
     \<lparr>hp_StatusCode = code, hp_Status = status_line code, hp_Body = body_bytes encode body, hp_Broken = None\<rparr>"

lemma send_served:
  assumes "over_server c (served sv encode status_line other)"
    and "route_request (client_request c m p ns body) = Some (route, r)"
    and "payload = map_option Inr body" "run_state (Handler sv route r) s = (answer, t)"
  shows "run_state (Client_send c m p ns payload) s =
    (case answer of
       None \<Rightarrow> Inl (unreachable c)
     | Some (code, b) \<Rightarrow>
         if go_div code 100 = 2 then Inr (response encode status_line code b)
         else Inl (ResponseError code (failure_body c (response encode status_line code b))), t)"
  using assms
  by (cases body; cases answer)
    (auto simp: Client_send_def over_server_def served_def unreachable_def response_def Let_def)

lemma do_served:
  assumes "over_server c (served sv encode status_line other)"
    and "route_request (client_request c m p ns body) = Some (route, r)"
    and "payload = map_option Inr body" "run_state (Handler sv route r) s = (answer, t)"
  shows "run_state (Client_do c m p ns payload decoder) s =
    (case answer of
       None \<Rightarrow> Inl (unreachable c)
     | Some (code, b) \<Rightarrow>
         if go_div code 100 = 2
         then (case decoder (body_bytes encode b) None of
             Inl err \<Rightarrow> Inl (ClientFailed (Formatted ''%s %s: decoding the answer: %w'' [S m, S p] [Sentinel err]))
           | Inr v \<Rightarrow> Inr v)
         else Inl (ResponseError code (failure_body c (response encode status_line code b))), t)"
  by (auto simp: Client_do_def send_served [OF assms] response_def split: option.split)

lemma failure_read:
  "cj_Error (cl_json c) (encode (ErrorBody e)) None = (None, e) \<Longrightarrow>
    failure_body c (response encode status_line code (ErrorBody e)) = (if ae_Error e = [] then e\<lparr>ae_Error := status_line code\<rparr> else e)"
  by (simp add: failure_body_def response_def body_bytes_def)

lemma seen_served:
  assumes c: "over_server c (served sv encode status_line other)"
    and routed: "route_request (client_request c m p ns body) = Some (call_route call, r)"
    and p: "payload = map_option Inr body" and ran: "run_state (Handler sv (call_route call) r) s = (answer, t)"
    and reads: "reads_back (cl_json c) encode call answer" "call \<noteq> AskHealth"
    and dec: "\<And>b. call_decoder (cl_json c) call b = map_sum id f (decoder b None)"
    and f: "\<And>v. (case f v of HealthBody h \<Rightarrow> False | ErrorBody e \<Rightarrow> False | _ \<Rightarrow> True)"
  shows "run_state (seen f (Client_do c m p ns payload decoder)) s =
    (client_sees (bu_Text (cl_base c)) status_line call answer, t)"
proof (cases answer)
  case None
  then show ?thesis by (simp add: seen_def do_served [OF c routed p ran] client_sees_def unreachable_def)
next
  case (Some cb)
  then obtain code b where cb: "answer = Some (code, b)" by (cases cb) simp
  show ?thesis
  proof (cases "go_div code 100 = 2")
    case True
    then have "map_sum id f (decoder (body_bytes encode b) None) = Inr b"
      using reads dec by (simp add: cb reads_back_def)
    then obtain v where "decoder (body_bytes encode b) None = Inr v" "b = f v"
      by (cases "decoder (body_bytes encode b) None") auto
    then show ?thesis using True f [of v]
      by (auto simp: seen_def do_served [OF c routed p ran] cb client_sees_def split: Body.splits)
  next
    case False
    then obtain e where "b = ErrorBody e" "cj_Error (cl_json c) (encode (ErrorBody e)) None = (None, e)"
      using reads by (auto simp: cb reads_back_def split: Body.splits)
    then show ?thesis using False
      by (simp add: seen_def do_served [OF c routed p ran] cb client_sees_def failure_read)
  qed
qed

lemma logs_served:
  assumes c: "over_server c (served sv encode status_line other)" and "addressable i"
    and ran: "run_state (Handler sv ExecutionLogs (call_request (AskLogs i) [])) s = (answer, t)"
    and reads: "reads_back (cl_json c) encode (AskLogs i) answer"
  shows "run_state (seen LogsBody (Client_Logs c i)) s = (client_sees (bu_Text (cl_base c)) status_line (AskLogs i) answer, t)"
proof -
  have base: "plain_base (cl_base c)" using c by (simp add: over_server_def)
  have routed: "route_request (client_request c ''GET'' (''/v1/execution/'' @ PathEscape i @ ''/logs'') [] None) =
      Some (ExecutionLogs, call_request (AskLogs i) [])"
    using call_routed [OF base, of "AskLogs i" None] assms(2) by simp
  note sent = send_served [OF c routed _ ran, of None, simplified]
  show ?thesis
  proof (cases answer)
    case None
    then show ?thesis by (simp add: seen_def Client_Logs_def sent client_sees_def unreachable_def)
  next
    case (Some cb)
    then obtain code b where cb: "answer = Some (code, b)" by (cases cb) simp
    show ?thesis
    proof (cases "go_div code 100 = 2")
      case True
      then have "b = LogsBody (body_bytes encode b)" using reads by (simp add: cb reads_back_def)
      then obtain logs where "b = LogsBody logs" by metis
      then show ?thesis using True
        by (simp add: seen_def Client_Logs_def sent cb client_sees_def response_def body_bytes_def)
    next
      case False
      then obtain e where "b = ErrorBody e" "cj_Error (cl_json c) (encode (ErrorBody e)) None = (None, e)"
        using reads by (auto simp: cb reads_back_def split: Body.splits)
      then show ?thesis using False
        by (simp add: seen_def Client_Logs_def sent cb client_sees_def failure_read)
    qed
  qed
qed

lemma health_served:
  assumes c: "over_server c (served sv encode status_line other)"
    and ran: "run_state (Handler sv HealthRoute (call_request AskHealth [])) s = (answer, t)"
    and reads: "reads_back (cl_json c) encode AskHealth answer"
  shows "run_state (client_call c AskHealth) s = (client_sees (bu_Text (cl_base c)) status_line AskHealth answer, t)"
proof -
  have base: "plain_base (cl_base c)" and io: "http_Do (cl_http c) = served sv encode status_line other"
    "http_New (cl_http c) = (\<lambda>_. None)" using c by (simp_all add: over_server_def)
  have routed: "route_request (client_request c ''GET'' ''/v1/health'' [] None) = Some (HealthRoute, call_request AskHealth [])"
    using call_routed [OF base, of AskHealth None] by simp
  obtain code h where cb: "answer = Some (code, HealthBody h)"
    using ran by (auto simp: health_def Let_def split: prod.splits option.splits)
  then have "cj_Health (cl_json c) (encode (HealthBody h)) None = Inr h"
    using reads by (cases "cj_Health (cl_json c) (encode (HealthBody h)) None") (simp_all add: reads_back_def body_bytes_def)
  then show ?thesis
    using ran by (simp add: Client_Health_def io served_def routed cb client_sees_def body_bytes_def Let_def)
qed

lemma methods_served:
  assumes "over_server c (served sv encode status_line other)" "call_ok call" "\<And>i. call \<noteq> AskLogs i" "call \<noteq> AskHealth"
    and "call_payload (cl_json c) call = map_option Inr body"
    and "run_state (Handler sv (call_route call) (call_request call (case body of None \<Rightarrow> [] | Some b \<Rightarrow> b))) s = (answer, t)"
    and "reads_back (cl_json c) encode call answer"
  shows "run_state (client_call c call) s = (client_sees (bu_Text (cl_base c)) status_line call answer, t)"
proof -
  have base: "plain_base (cl_base c)" using assms(1) by (simp add: over_server_def)
  note via = seen_served [OF assms(1) call_routed [OF base assms(2)] assms(5,6,7,4)]
  show ?thesis
  proof (cases call)
    case (AskRegister ns source)
    with via [where f = RegisterBody and decoder = "cj_Registered (cl_json c)"] show ?thesis by (simp add: Client_Register_def)
  next
    case (AskJobs ns)
    with via [where f = JobsBody and decoder = "cj_Jobs (cl_json c)"] show ?thesis by (simp add: Client_Jobs_def)
  next
    case (AskJobStatus ns name)
    with via [where f = JobStatusBody and decoder = "cj_JobStatus (cl_json c)"] show ?thesis by (simp add: Client_JobStatus_def)
  next
    case (AskStopJob ns name)
    with via [where f = JobBody and decoder = "cj_Job (cl_json c)"] show ?thesis by (simp add: Client_StopJob_def)
  next
    case (AskDispatch ns name meta)
    with via [where f = DispatchedBody and decoder = "cj_Dispatched (cl_json c)"] show ?thesis by (simp add: Client_Dispatch_def)
  next
    case (AskRun ns source meta)
    with via [where f = DispatchedBody and decoder = "cj_Dispatched (cl_json c)"] show ?thesis by (simp add: Client_Run_def)
  next
    case (AskPlan ns req)
    with via [where f = PlanBody and decoder = "cj_Plan (cl_json c)"] show ?thesis by (simp add: Client_Plan_def)
  next
    case (AskDispatchStatus i)
    with via [where f = DispatchBody and decoder = "cj_Dispatch (cl_json c)"] show ?thesis by (simp add: Client_DispatchStatus_def)
  next
    case (AskExecution i)
    with via [where f = ExecutionBody and decoder = "cj_Execution (cl_json c)"] show ?thesis by (simp add: Client_Execution_def)
  next
    case (AskCancel i)
    with via [where f = ExecutionBody and decoder = "cj_Execution (cl_json c)"] show ?thesis by (simp add: Client_Cancel_def)
  next
    case AskNodes
    with via [where f = NodesBody and decoder = "cj_Nodes (cl_json c)"] show ?thesis by (simp add: Client_Nodes_def)
  next
    case AskProviders
    with via [where f = ProvidersBody and decoder = "cj_Providers (cl_json c)"] show ?thesis by (simp add: Client_Providers_def)
  qed (use assms(3,4) in simp_all)
qed

section \<open>Property\<close>

text \<open>C11. A method of the client is the handler of its route, called over HTTP: of a server at the root of its address,
  a call whose name or identifier a path can carry (not empty, a dot, two dots or a slash alone) is routed
  there with the namespace, name, identifier and body it was given, whatever characters they have; and where
  JSON reads back what was written, the method returns what the handler answered, an error as its status and
  the server's message, and leaves the server as the handler did.\<close>

theorem client_served:
  assumes "over_server c (served sv encode status_line other)" "call_ok call"
    and "call_payload (cl_json c) call = map_option Inr body"
    and "run_state (Handler sv (call_route call) (call_request call (case body of None \<Rightarrow> [] | Some b \<Rightarrow> b))) s = (answer, t)"
    and "reads_back (cl_json c) encode call answer"
  shows "run_state (client_call c call) s = (client_sees (bu_Text (cl_base c)) status_line call answer, t)"
proof -
  have none: "body = None" if "call_payload (cl_json c) call = None" using assms(3) that by (cases body) auto
  show ?thesis
  proof (cases "\<exists>i. call = AskLogs i")
    case True
    then obtain i where i: "call = AskLogs i" by blast
    with none have "body = None" by simp
    with logs_served [OF assms(1) _ _ assms(5) [unfolded i]] assms(2,4) i show ?thesis by simp
  next
    case logs: False
    show ?thesis
    proof (cases "call = AskHealth")
      case True
      with none have "body = None" by simp
      with health_served [OF assms(1) _ assms(5) [unfolded True]] assms(4) True show ?thesis by simp
    next
      case False
      with methods_served [OF assms(1,2) _ _ assms(3,4,5)] logs show ?thesis by blast
    qed
  qed
qed

text \<open>A job nobody registered, whose name needs escaping, asked of the sample server.\<close>

definition sample_json :: ClientJson where
  "sample_json =
     \<lparr>cj_RegisterRequest = (\<lambda>r. Inr (rgq_Source r)), cj_DispatchRequest = (\<lambda>r. Inr []), cj_RunRequest = (\<lambda>r. Inr (rnq_Source r)),
      cj_PlanRequest = (\<lambda>r. Inr (plq_Source r)), cj_Registered = (\<lambda>b e. Inl []), cj_Jobs = (\<lambda>b e. Inl []),
      cj_JobStatus = (\<lambda>b e. Inl []), cj_Job = (\<lambda>b e. Inl []), cj_Dispatched = (\<lambda>b e. Inl []), cj_Plan = (\<lambda>b e. Inl []),
      cj_Dispatch = (\<lambda>b e. Inl []), cj_Execution = (\<lambda>b e. Inl []), cj_Nodes = (\<lambda>b e. Inl []), cj_Providers = (\<lambda>b e. Inl []),
      cj_Health = (\<lambda>b e. Inl []), cj_Error = (\<lambda>b e. (e, \<lparr>ae_Error = b, ae_Diagnostics = []\<rparr>))\<rparr>"

definition sample_encode :: "Body \<Rightarrow> string" where
  "sample_encode b = (case b of ErrorBody e \<Rightarrow> ae_Error e | _ \<Rightarrow> [])"

definition own_client :: "(Memory, ExecMemory, Jobs, nat) Serving ApiClient" where
  "own_client =
     \<lparr>cl_base = \<lparr>bu_Text = DefaultAddress, bu_Path = [], bu_RawQuery = []\<rparr>,
      cl_http = \<lparr>http_New = (\<lambda>_. None), http_Do = served sample_server sample_encode (\<lambda>code. []) (\<lambda>_. Inl [])\<rparr>,
      cl_json = sample_json\<rparr>"

theorem client_served_witness:
  "\<exists>e. run_state (client_call own_client (AskJobStatus [] ''a/b'')) sample_serving = (Inl (ResponseError 404 e), sample_serving)"
proof -
  let ?call = "AskJobStatus [] ''a/b''"
  have c: "over_server own_client (served sample_server sample_encode (\<lambda>code. []) (\<lambda>_. Inl []))"
    by (simp add: over_server_def own_client_def plain_base_def)
  have ok: "call_ok ?call" "call_payload (cl_json own_client) ?call = map_option Inr None"
    by (simp_all add: addressable_def)
  obtain e where e: "ae_Diagnostics e = []"
    and ran: "run_state (Handler sample_server (call_route ?call) (call_request ?call (case None of None \<Rightarrow> [] | Some b \<Rightarrow> b))) sample_serving =
      (Some (404, ErrorBody e), sample_serving)"
  proof
    show "run_state (Handler sample_server (call_route ?call) (call_request ?call (case None of None \<Rightarrow> [] | Some b \<Rightarrow> b))) sample_serving =
      (Some (404, ErrorBody (api_error sample_server (not_registered ''a/b'' DefaultNamespace))), sample_serving)"
    proof -
      have "Jobs_Job DefaultNamespace ''a/b'' (sg_store sample_serving) = Inl (not_registered ''a/b'' DefaultNamespace)"
        by (simp add: Jobs_Job_def sample_serving_def NewServing_def NewJobs_def)
      moreover have "err_is ErrNotRegistered (not_registered ''a/b'' DefaultNamespace)" by (simp add: not_registered_def)
      ultimately show ?thesis
        by (simp add: wrap_def jobStatus_def call_request_def request_namespace_def Namespace_def no_job_def Let_def
            plain_error_def checked_def answer_of_def failure_def StatusNotFound_def)
    qed
  qed (simp add: api_error_def)
  have "reads_back (cl_json own_client) sample_encode ?call (Some (404, ErrorBody e))"
    using e by (simp add: reads_back_def own_client_def sample_json_def sample_encode_def go_div_def)
  from client_served [OF c ok ran this] show ?thesis by (auto simp: client_sees_def)
qed

end
