(* ===== verification/Fingerprint.thy ===== *)
theory Fingerprint
  imports Urls Effects
begin

text \<open>
  \<^verbatim>\<open>internal/agent/fingerprint\<close> and \<^verbatim>\<open>internal/agent/cgroups.go\<close>: what an agent may use of its host, the least
  of what the host has, what its cgroup and every one above it allows, and what the operator capped it at;
  and the cgroup its workloads are put under.  Reading a file is a function, an \<open>fs.FS\<close>; the cgroup library
  is a record of functions over a state of its own.
\<close>

section \<open>Text\<close>

text \<open>\<^verbatim>\<open>strings.Fields\<close>, skipping the rest of a space of several bytes.\<close>

fun fields_loop :: "string \<Rightarrow> nat \<Rightarrow> string \<Rightarrow> string list" where
  "fields_loop word skip [] = (if word = [] then [] else [rev word])"
| "fields_loop word (Suc skip) (c # cs) = fields_loop word skip cs"
| "fields_loop word 0 (c # cs) =
     (case find_first (HasPrefix (c # cs)) spaces of
        None \<Rightarrow> fields_loop (c # word) 0 cs
      | Some w \<Rightarrow> (if word = [] then [] else [rev word]) @ fields_loop [] (length w - 1) cs)"

definition strings_Fields :: "string \<Rightarrow> string list" where
  "strings_Fields s = fields_loop [] 0 s"

definition CutPrefix :: "string \<Rightarrow> string \<Rightarrow> string option" where
  "CutPrefix s p = (if HasPrefix s p then Some (drop (length p) s) else None)"

definition TrimSuffix :: "string \<Rightarrow> string \<Rightarrow> string" where
  "TrimSuffix s suffix = (if HasPrefix (rev s) (rev suffix) then take (length s - length suffix) s else s)"

text \<open>The lines \<^verbatim>\<open>bufio.Scanner\<close> reads, until one fills its buffer.\<close>

definition drop_cr :: "string \<Rightarrow> string" where
  "drop_cr l = (if l \<noteq> [] \<and> last l = CHR 0x0D then butlast l else l)"

definition scan_lines :: "string \<Rightarrow> string list" where
  "scan_lines s =
     (let ls = splitOn (CHR 0x0A) s;
          ls = (if last ls = [] then butlast ls else ls)
      in map drop_cr (takeWhile (\<lambda>l. length l < 65536) ls))"

text \<open>The error of \<^verbatim>\<open>strconv.ParseInt\<close> when it has one.\<close>

definition ParseInt_error :: "string \<Rightarrow> goerror" where
  "ParseInt_error s =
     (let rest = (if s \<noteq> [] \<and> (hd s = CHR ''-'' \<or> hd s = CHR ''+'') then tl s else s) in
      Formatted ''strconv.ParseInt: parsing %q: %w'' [S s]
        [Sentinel (if rest = [] \<or> parse_digits 0 rest = None then ''invalid syntax'' else ''value out of range'')])"

section \<open>Relative paths\<close>

fun clean_relative :: "string list \<Rightarrow> string list \<Rightarrow> string list" where
  "clean_relative kept [] = kept"
| "clean_relative kept (seg # segs) =
     (if seg = [] \<or> seg = ''.'' then clean_relative kept segs
      else if seg = ''..'' then
        (if kept = [] \<or> last kept = ''..'' then clean_relative (kept @ [seg]) segs else clean_relative (butlast kept) segs)
      else clean_relative (kept @ [seg]) segs)"

definition any_Clean :: "string \<Rightarrow> string" where
  "any_Clean p =
     (if p \<noteq> [] \<and> hd p = CHR ''/'' then path_Clean p
      else case clean_relative [] (splitOn (CHR ''/'') p) of
          [] \<Rightarrow> ''.''
        | segs \<Rightarrow> strings_Join segs ''/'')"

text \<open>Everything up to the last slash, cleaned.\<close>

definition up_to_slash :: "string \<Rightarrow> string" where
  "up_to_slash p = rev (dropWhile (\<lambda>c. c \<noteq> CHR ''/'') (rev p))"

definition path_Dir :: "string \<Rightarrow> string" where
  "path_Dir p = any_Clean (up_to_slash p)"

definition path_Base :: "string \<Rightarrow> string" where
  "path_Base p =
     (if p = [] then ''.''
      else let p = rev (dropWhile (\<lambda>c. c = CHR ''/'') (rev p));
               p = rev (takeWhile (\<lambda>c. c \<noteq> CHR ''/'') (rev p))
           in if p = [] then ''/'' else p)"

text \<open>\<^verbatim>\<open>path.Join\<close> of two elements, the first of them not empty.\<close>

definition path_Join :: "string \<Rightarrow> string \<Rightarrow> string" where
  "path_Join a b = any_Clean (if b = [] then a else a @ ''/'' @ b)"

section \<open>Limits\<close>

record NodePrint =
  np_Architecture :: string
  np_CPU :: int
  np_Memory :: int
  np_Cgroup :: string

record Caps =
  caps_CPU :: int
  caps_Memory :: int

text \<open>The architecture the agent was built for and the processors it sees.\<close>

record HostInfo =
  ho_GOARCH :: string
  ho_NumCPU :: int

type_synonym FS = "string \<Rightarrow> goerror + string"

definition ErrNotExist :: string where [vocab]: "ErrNotExist = ''file does not exist''"

fun smallest :: "int \<Rightarrow> int list \<Rightarrow> int" where
  "smallest least [] = least"
| "smallest least (v # vs) = smallest (if 0 < v \<and> v < least then v else least) vs"

definition tighter :: "int \<Rightarrow> int \<Rightarrow> int" where
  "tighter a b = (if a = 0 then b else if b = 0 then a else min a b)"

fun MemTotal_loop :: "string list \<Rightarrow> goerror + int" where
  "MemTotal_loop [] = Inl (Sentinel ''no MemTotal in /proc/meminfo'')"
| "MemTotal_loop (l # ls) =
     (case CutPrefix l ''MemTotal:'' of
        None \<Rightarrow> MemTotal_loop ls
      | Some value \<Rightarrow>
          (let number = TrimSpace (TrimSuffix (TrimSpace value) ''kB'') in
           case ParseInt number of
             None \<Rightarrow> Inl (Formatted ''parsing MemTotal: %w'' [] [ParseInt_error number])
           | Some kib \<Rightarrow> Inr (go_div kib 1024)))"

definition hostMemory :: "FS \<Rightarrow> goerror + int" where
  "hostMemory fs =
     (case fs ''proc/meminfo'' of
        Inl err \<Rightarrow> Inl (Formatted ''reading host memory: %w'' [] [err])
      | Inr content \<Rightarrow> MemTotal_loop (scan_lines content))"

definition ownCgroup :: "FS \<Rightarrow> goerror + string" where
  "ownCgroup fs =
     (case fs ''proc/self/cgroup'' of
        Inl err \<Rightarrow> Inl (Formatted ''reading the agent's cgroup: %w'' [] [err])
      | Inr content \<Rightarrow>
          (case List.map_filter (\<lambda>l. CutPrefix l ''0::'') (splitOn (CHR 0x0A) (TrimSpace content)) of
             [] \<Rightarrow> Inl (Sentinel ''the host is not on cgroup v2, which the agent requires'')
           | cgroup # _ \<Rightarrow> Inr cgroup))"

text \<open>The fields of a file, or none when there is no such file.\<close>

definition readFields :: "FS \<Rightarrow> string \<Rightarrow> goerror + string list option" where
  "readFields fs name =
     (case fs name of
        Inl err \<Rightarrow> if err_is ErrNotExist err then Inr None else Inl (Formatted ''reading %s: %w'' [S name] [err])
      | Inr content \<Rightarrow> Inr (Some (strings_Fields content)))"

definition cpuMax :: "FS \<Rightarrow> string \<Rightarrow> goerror + int" where
  "cpuMax fs dir =
     (case readFields fs (path_Join dir ''cpu.max'') of
        Inl err \<Rightarrow> Inl err
      | Inr (Some [quota, period]) \<Rightarrow>
          if quota = ''max'' then Inr 0
          else (case ParseInt quota of
              None \<Rightarrow> Inl (Formatted ''parsing %s/cpu.max: %w'' [S dir] [ParseInt_error quota])
            | Some q \<Rightarrow>
                (case ParseInt period of
                   None \<Rightarrow> Inl (Formatted ''parsing %s/cpu.max period: %q'' [S dir, S period] [])
                 | Some p \<Rightarrow>
                     if p = 0 then Inl (Formatted ''parsing %s/cpu.max period: %q'' [S dir, S period] [])
                     else Inr (wrap64 (go_div (wrap64 (q * 1000)) p))))
      | Inr _ \<Rightarrow> Inr 0)"

definition memoryMax :: "FS \<Rightarrow> string \<Rightarrow> goerror + int" where
  "memoryMax fs dir =
     (case readFields fs (path_Join dir ''memory.max'') of
        Inl err \<Rightarrow> Inl err
      | Inr (Some [limit]) \<Rightarrow>
          if limit = ''max'' then Inr 0
          else (case ParseInt limit of
              None \<Rightarrow> Inl (Formatted ''parsing %s/memory.max: %w'' [S dir] [ParseInt_error limit])
            | Some n \<Rightarrow> Inr (go_div n (2 ^ 20)))
      | Inr _ \<Rightarrow> Inr 0)"

section \<open>Up the tree\<close>

text \<open>A directory's parent is shorter, unless it is the end of the way.\<close>

definition segments_size :: "string list \<Rightarrow> nat" where
  "segments_size segs = sum_list (map (\<lambda>s. if s = [] then 0 else length s + 1) segs)"

lemma segments_size_simps [simp]:
  "segments_size [] = 0" "segments_size (s # segs) = (if s = [] then 0 else length s + 1) + segments_size segs"
  "segments_size (xs @ ys) = segments_size xs + segments_size ys"
  by (simp_all add: segments_size_def)

lemma segments_size_butlast: "segments_size (butlast xs) \<le> segments_size xs"
  by (induction xs) auto

lemma size_split: "segments_size (splitOn c s) \<le> length s + 1"
proof -
  have "sum_list (map (\<lambda>s. length s + 1) (splitOn c s)) = length s + 1"
    by (induction s) (auto split: list.splits)
  moreover have "segments_size segs \<le> sum_list (map (\<lambda>s. length s + 1) segs)" for segs
    by (induction segs) auto
  ultimately show ?thesis by metis
qed

lemma split_last: "splitOn c (s @ [c]) = splitOn c s @ [[]]"
  by (induction s) (auto split: list.splits)

lemma size_clean: "segments_size (clean_segments kept segs) \<le> segments_size kept + segments_size segs"
proof (induction kept segs rule: clean_segments.induct)
  case (2 kept seg segs)
  then show ?case using segments_size_butlast [of kept] by (auto split: if_splits)
qed simp

lemma size_relative: "segments_size (clean_relative kept segs) \<le> segments_size kept + segments_size segs"
proof (induction kept segs rule: clean_relative.induct)
  case (2 kept seg segs)
  then show ?case using segments_size_butlast [of kept] by (auto split: if_splits)
qed simp

lemma clean_nonempty: "[] \<notin> set kept \<Longrightarrow> [] \<notin> set (clean_segments kept segs)"
  by (induction kept segs rule: clean_segments.induct) (auto dest: in_set_butlastD)

lemma relative_nonempty: "[] \<notin> set kept \<Longrightarrow> [] \<notin> set (clean_relative kept segs)"
  by (induction kept segs rule: clean_relative.induct) (auto dest: in_set_butlastD)

lemma length_joined: "xs \<noteq> [] \<Longrightarrow> [] \<notin> set xs \<Longrightarrow> length (strings_Join xs ''/'') + 1 = segments_size xs"
  by (induction xs "''/''" rule: strings_Join.induct) auto

lemma Clean_shorter: "any_Clean (q @ ''/'') \<in> {''/'', ''.''} \<or> length (any_Clean (q @ ''/'')) < length (q @ ''/'')"
proof (cases "q @ ''/'' \<noteq> [] \<and> hd (q @ ''/'') = CHR ''/''")
  case True
  let ?segs = "clean_segments [] (splitOn (CHR ''/'') (q @ ''/''))"
  have "any_Clean (q @ ''/'') = rooted ?segs" using True by (simp add: any_Clean_def path_Clean_def)
  moreover have "segments_size ?segs \<le> length q"
  proof (cases q)
    case (Cons x r)
    then have "splitOn (CHR ''/'') (q @ ''/'') = [] # splitOn (CHR ''/'') r @ [[]]" using True by (simp add: split_last)
    then show ?thesis using size_clean [of "[]" "splitOn (CHR ''/'') (q @ ''/'')"] size_split [of "CHR ''/''" r] Cons by simp
  qed simp
  ultimately show ?thesis
    using length_joined [of ?segs] clean_nonempty [of "[]"] by (cases "?segs = []") (auto simp: rooted_def)
next
  case False
  let ?segs = "clean_relative [] (splitOn (CHR ''/'') (q @ ''/''))"
  have "segments_size ?segs \<le> length q + 1"
    using size_relative [of "[]" "splitOn (CHR ''/'') (q @ ''/'')"] size_split [of "CHR ''/''" q] by (simp add: split_last)
  moreover have "any_Clean (q @ ''/'') = (case ?segs of [] \<Rightarrow> ''.'' | segs \<Rightarrow> strings_Join segs ''/'')"
    using False by (simp add: any_Clean_def del: splitOn.simps)
  ultimately show ?thesis
    using length_joined [of ?segs, OF _ relative_nonempty] by (cases "?segs") auto
qed

lemma up_to_slash_cases: "up_to_slash p = [] \<or> (\<exists>q. up_to_slash p = q @ ''/'' \<and> length (up_to_slash p) \<le> length p)"
proof (cases "dropWhile (\<lambda>c. c \<noteq> CHR ''/'') (rev p)")
  case (Cons c cs)
  then have "c = CHR ''/''" using hd_dropWhile [of "\<lambda>c. c \<noteq> CHR ''/''" "rev p"] by simp
  moreover have "length (dropWhile (\<lambda>c. c \<noteq> CHR ''/'') (rev p)) \<le> length p"
    by (metis length_dropWhile_le length_rev)
  ultimately show ?thesis using Cons by (auto simp: up_to_slash_def)
qed (simp add: up_to_slash_def)

definition dir_measure :: "string \<Rightarrow> nat" where
  "dir_measure d = (if d = ''/'' \<or> d = ''.'' then 0 else length d + 1)"

lemma path_Dir_shorter: "d \<noteq> ''/'' \<Longrightarrow> d \<noteq> ''.'' \<Longrightarrow> dir_measure (path_Dir d) < dir_measure d"
  using up_to_slash_cases [of d]
proof (elim disjE exE conjE)
  assume "up_to_slash d = []" "d \<noteq> ''/''" "d \<noteq> ''.''"
  then show ?thesis by (simp add: path_Dir_def any_Clean_def dir_measure_def)
next
  fix q assume "up_to_slash d = q @ ''/''" "length (up_to_slash d) \<le> length d" "d \<noteq> ''/''" "d \<noteq> ''.''"
  with Clean_shorter [of q] show ?thesis by (auto simp: path_Dir_def dir_measure_def)
qed

text \<open>The loop of \<open>cgroupLimits\<close>: the directory it is at and the limits so far.\<close>

function limits_loop :: "FS \<Rightarrow> string \<Rightarrow> int \<Rightarrow> int \<Rightarrow> goerror + int \<times> int" where
  "limits_loop fs dir cpu memory =
     (let base = path_Join ''sys/fs/cgroup'' dir in
      case cpuMax fs base of
        Inl err \<Rightarrow> Inl err
      | Inr c \<Rightarrow>
          (case memoryMax fs base of
             Inl err \<Rightarrow> Inl err
           | Inr m \<Rightarrow>
               if dir = ''/'' \<or> dir = ''.'' then Inr (tighter cpu c, tighter memory m)
               else limits_loop fs (path_Dir dir) (tighter cpu c) (tighter memory m)))"
  by pat_completeness auto
termination
  by (relation "measure (\<lambda>(fs, dir, cpu, memory). dir_measure dir)") (auto intro: path_Dir_shorter)

declare limits_loop.simps [simp del]

definition cgroupLimits :: "FS \<Rightarrow> string \<Rightarrow> goerror + int \<times> int" where
  "cgroupLimits fs cgroup = limits_loop fs cgroup 0 0"

definition Take :: "HostInfo \<Rightarrow> FS \<Rightarrow> Caps \<Rightarrow> goerror + NodePrint" where
  "Take host fs caps =
     (case hostMemory fs of
        Inl err \<Rightarrow> Inl err
      | Inr memory \<Rightarrow>
          (case ownCgroup fs of
             Inl err \<Rightarrow> Inl err
           | Inr cgroup \<Rightarrow>
               (case cgroupLimits fs cgroup of
                  Inl err \<Rightarrow> Inl err
                | Inr (limitCPU, limitMemory) \<Rightarrow>
                    Inr \<lparr>np_Architecture = ho_GOARCH host,
                      np_CPU = smallest (ho_NumCPU host * 1000) [limitCPU, caps_CPU caps],
                      np_Memory = smallest memory [limitMemory, caps_Memory caps], np_Cgroup = cgroup\<rparr>)))"

section \<open>Delegation\<close>

text \<open>The cgroup library: a group, its children, the process moved into one, the controllers enabled.\<close>

record ('g, 'k) CgroupLib =
  cg_Load :: "string \<Rightarrow> 'k \<Rightarrow> (string + 'g) \<times> 'k"
  cg_NewChild :: "'g \<Rightarrow> string \<Rightarrow> 'k \<Rightarrow> (string + 'g) \<times> 'k"
  cg_AddProc :: "'g \<Rightarrow> int \<Rightarrow> 'k \<Rightarrow> string option \<times> 'k"
  cg_ToggleControllers :: "'g \<Rightarrow> string list \<Rightarrow> 'k \<Rightarrow> string option \<times> 'k"

definition agentLeaf :: string where [vocab]: "agentLeaf = ''agent''"

definition notDelegated :: "string \<Rightarrow> string \<Rightarrow> goerror" where
  "notDelegated grp err =
     Formatted (''cannot manage cgroups under %s: %w. Under systemd, set Delegate=yes on the agent's unit; '' @
       ''in a container, mount /sys/fs/cgroup writable with --cgroupns=host'') [S grp] [Sentinel err]"

definition delegate_parent :: "string \<Rightarrow> string" where
  "delegate_parent own = (if path_Base own = agentLeaf then path_Dir own else own)"

definition Delegate :: "('g, 'k) CgroupLib \<Rightarrow> int \<Rightarrow> string \<Rightarrow> ('k, goerror + string) state" where
  "Delegate lib pid own =
     (let parent = delegate_parent own in
      if parent = ''/'' then ret (Inl (Sentinel (''the agent's cgroup is the root. In a container, run it with --cgroupns=host '' @
        ''so it sees its real cgroup, or pass -cgroup-parent'')))
      else do {
        grp \<leftarrow> State (cg_Load lib parent);
        (case grp of
           Inl err \<Rightarrow> ret (Inl (Formatted ''loading cgroup %s: %w'' [S parent] [Sentinel err]))
         | Inr grp \<Rightarrow> do {
             leaf \<leftarrow> State (cg_NewChild lib grp agentLeaf);
             (case leaf of
                Inl err \<Rightarrow> ret (Inl (notDelegated parent err))
              | Inr leaf \<Rightarrow> do {
                  moved \<leftarrow> State (cg_AddProc lib leaf pid);
                  (case moved of
                     Some err \<Rightarrow> ret (Inl (notDelegated parent err))
                   | None \<Rightarrow> do {
                       enabled \<leftarrow> State (cg_ToggleControllers lib grp [''cpu'', ''memory'']);
                       ret (case enabled of Some err \<Rightarrow> Inl (notDelegated parent err) | None \<Rightarrow> Inr parent)
                     })
                })
           })
      })"

section \<open>What the capacity is\<close>

text \<open>A cgroup and every one above it.\<close>

function ancestors :: "string \<Rightarrow> string list" where
  "ancestors dir = dir # (if dir = ''/'' \<or> dir = ''.'' then [] else ancestors (path_Dir dir))"
  by pat_completeness auto
termination
  by (relation "measure dir_measure") (auto intro: path_Dir_shorter)

declare ancestors.simps [simp del]

definition limit_of :: "(FS \<Rightarrow> string \<Rightarrow> goerror + int) \<Rightarrow> FS \<Rightarrow> string \<Rightarrow> goerror + int" where
  "limit_of read fs dir = read fs (path_Join ''sys/fs/cgroup'' dir)"

lemma limits_loop_result:
  "limits_loop fs dir cpu memory = Inr (c, m) \<Longrightarrow>
     \<exists>cpus memories. map (limit_of cpuMax fs) (ancestors dir) = map Inr cpus \<and>
       map (limit_of memoryMax fs) (ancestors dir) = map Inr memories \<and>
       c = foldl tighter cpu cpus \<and> m = foldl tighter memory memories"
proof (induction fs dir cpu memory rule: limits_loop.induct)
  case (1 fs dir cpu memory)
  let ?base = "path_Join ''sys/fs/cgroup'' dir"
  obtain x y where xy: "cpuMax fs ?base = Inr x" "memoryMax fs ?base = Inr y"
    using "1.prems" by (subst (asm) limits_loop.simps) (auto simp: Let_def split: sum.splits)
  show ?case
  proof (cases "dir = ''/'' \<or> dir = ''.''")
    case True
    then have "ancestors dir = [dir]" by (subst ancestors.simps) auto
    moreover have "c = tighter cpu x" "m = tighter memory y"
      using "1.prems" xy True by (subst (asm) limits_loop.simps, auto)+
    ultimately show ?thesis using xy by - (rule exI [of _ "[x]"], rule exI [of _ "[y]"], simp add: limit_of_def)
  next
    case False
    have up: "ancestors dir = dir # ancestors (path_Dir dir)" using False by (subst ancestors.simps) simp
    have "limits_loop fs (path_Dir dir) (tighter cpu x) (tighter memory y) = Inr (c, m)"
      using "1.prems" xy False by (subst (asm) limits_loop.simps) simp
    from "1.IH" [OF refl xy False this] obtain cpus memories
      where "map (limit_of cpuMax fs) (ancestors (path_Dir dir)) = map Inr cpus"
        "map (limit_of memoryMax fs) (ancestors (path_Dir dir)) = map Inr memories"
        "c = foldl tighter (tighter cpu x) cpus" "m = foldl tighter (tighter memory y) memories" by blast
    moreover have "limit_of cpuMax fs dir = Inr x" "limit_of memoryMax fs dir = Inr y" using xy by (simp_all add: limit_of_def)
    ultimately show ?thesis
      by - (rule exI [of _ "x # cpus"], rule exI [of _ "y # memories"], simp add: up)
  qed
qed

lemma smallest_least: "smallest least vs = Min (insert least {v \<in> set vs. 0 < v})"
proof (induction vs arbitrary: least)
  case (Cons v vs)
  define A where "A = {w \<in> set vs. 0 < w}"
  have fin: "finite A" by (simp add: A_def)
  have set: "{w \<in> set (v # vs). 0 < w} = (if 0 < v then insert v A else A)" by (auto simp: A_def)
  have "Min (insert (if 0 < v \<and> v < least then v else least) A) = Min (insert least (if 0 < v then insert v A else A))"
  proof (cases "A = {}")
    case False
    then have "Min (insert least (if 0 < v then insert v A else A)) = (if 0 < v then min least (min v (Min A)) else min least (Min A))"
      "Min (insert w A) = min w (Min A)" for w using fin by simp_all
    moreover have "min (if 0 < v \<and> v < least then v else least) m = (if 0 < v then min least (min v m) else min least m)" for m
      by (simp add: min_def)
    ultimately show ?thesis by metis
  qed simp
  moreover have "smallest least (v # vs) = Min (insert (if 0 < v \<and> v < least then v else least) A)"
    by (simp add: Cons A_def)
  ultimately show ?case unfolding set by simp
qed simp

text \<open>The tightest of the limits that are set, or none.\<close>

definition tightest_of :: "int \<Rightarrow> int set \<Rightarrow> bool" where
  "tightest_of t A \<longleftrightarrow> (t = 0 \<and> (\<forall>v \<in> A. v \<le> 0)) \<or> (0 < t \<and> t \<in> A \<and> (\<forall>v \<in> A. 0 < v \<longrightarrow> t \<le> v))"

lemma tightest: "\<forall>v \<in> set (c # vs). 0 \<le> v \<Longrightarrow> tightest_of (foldl tighter c vs) (set (c # vs))"
proof (induction vs arbitrary: c)
  case (Cons v vs)
  have pos: "0 \<le> c" "0 \<le> v" "0 \<le> tighter c v" using Cons.prems by (simp_all add: tighter_def)
  with Cons have ih: "tightest_of (foldl tighter (tighter c v) vs) (set (tighter c v # vs))" by simp
  have "tightest_of t (set (c # v # vs))" if "tightest_of t (set (tighter c v # vs))" for t
  proof (cases "c = 0 \<or> v = 0")
    case True
    then have "tighter c v = (if c = 0 then v else c)" using True by (auto simp: tighter_def)
    with that True pos show ?thesis by (auto simp: tightest_of_def split: if_splits)
  next
    case False
    then have "tighter c v = min c v" "0 < c" "0 < v" using pos by (simp_all add: tighter_def)
    with that show ?thesis by (auto simp: tightest_of_def min_def split: if_splits)
  qed
  with ih show ?case by simp
qed (auto simp: tightest_of_def)

lemma least_of_limits:
  assumes "\<forall>v \<in> set vs. 0 \<le> v"
  shows "smallest first [foldl tighter 0 vs, cap] = Min (insert first {v \<in> set (cap # vs). 0 < v})"
proof -
  have t: "tightest_of (foldl tighter 0 vs) (set (0 # vs))" using assms by (intro tightest) simp
  have least: "smallest first [t, cap] = Min (insert first {v \<in> set (cap # vs). 0 < v})"
    if "tightest_of t (set (0 # vs))" for t
  proof (rule Min_eqI [symmetric])
    show "smallest first [t, cap] \<in> insert first {v \<in> set (cap # vs). 0 < v}"
      using that by (auto simp: tightest_of_def)
    show "smallest first [t, cap] \<le> v" if "v \<in> insert first {v \<in> set (cap # vs). 0 < v}" for v
    proof -
      have "v \<in> set vs \<and> 0 < v \<Longrightarrow> 0 < t \<and> t \<le> v" using \<open>tightest_of t (set (0 # vs))\<close> by (force simp: tightest_of_def)
      with that show ?thesis by auto
    qed
  qed simp
  from least [OF t] show ?thesis .
qed

text \<open>A limit that is set but rounds to nothing reads as none.\<close>

lemma small_limit_ignored: "fs (path_Join dir ''memory.max'') = Inr ''4096'' \<Longrightarrow> memoryMax fs dir = Inr 0"
proof -
  assume r: "fs (path_Join dir ''memory.max'') = Inr ''4096''"
  have "strings_Fields ''4096'' = [''4096'']" by code_simp
  moreover have "ParseInt ''4096'' = Some 4096" by (simp add: ParseInt_def is_digit_def digit_val_def byte_def)
  ultimately show ?thesis by (simp add: memoryMax_def readFields_def r go_div_def)
qed

section \<open>Property\<close>

definition limit_set :: "goerror + int \<Rightarrow> bool" where
  "limit_set r = (case r of Inl err \<Rightarrow> True | Inr v \<Rightarrow> 0 \<le> v)"

text \<open>C38. Where no limit reads as negative, the capacity an agent reports is the least of what its host has, of every
  limit set on its cgroup or on one above it, and of what the operator allows it, for processors and for
  memory.  A limit reads as none when it is rounded down to nothing.\<close>

theorem capacity_least:
  assumes "Take host fs caps = Inr node"
    and "\<forall>d \<in> set (ancestors (np_Cgroup node)). limit_set (limit_of cpuMax fs d) \<and> limit_set (limit_of memoryMax fs d)"
  shows "\<exists>memory cpus memories. hostMemory fs = Inr memory \<and> ownCgroup fs = Inr (np_Cgroup node) \<and>
    map (limit_of cpuMax fs) (ancestors (np_Cgroup node)) = map Inr cpus \<and>
    map (limit_of memoryMax fs) (ancestors (np_Cgroup node)) = map Inr memories \<and>
    np_CPU node = Min (insert (ho_NumCPU host * 1000) {v \<in> set (caps_CPU caps # cpus). 0 < v}) \<and>
    np_Memory node = Min (insert memory {v \<in> set (caps_Memory caps # memories). 0 < v})"
proof -
  obtain memory c m where t: "hostMemory fs = Inr memory" "ownCgroup fs = Inr (np_Cgroup node)"
    "limits_loop fs (np_Cgroup node) 0 0 = Inr (c, m)"
    "np_CPU node = smallest (ho_NumCPU host * 1000) [c, caps_CPU caps]"
    "np_Memory node = smallest memory [m, caps_Memory caps]"
    using assms(1) by (auto simp: Take_def cgroupLimits_def split: sum.splits)
  from limits_loop_result [OF t(3)] obtain cpus memories
    where l: "map (limit_of cpuMax fs) (ancestors (np_Cgroup node)) = map Inr cpus"
      "map (limit_of memoryMax fs) (ancestors (np_Cgroup node)) = map Inr memories"
      "c = foldl tighter 0 cpus" "m = foldl tighter 0 memories" by blast
  have "\<forall>v \<in> set vs. 0 \<le> v" if "map (limit_of read fs) (ancestors (np_Cgroup node)) = map Inr vs"
    "\<forall>d \<in> set (ancestors (np_Cgroup node)). limit_set (limit_of read fs d)" for read and vs :: "int list"
  proof
    fix v assume "v \<in> set vs"
    then have "Inr v \<in> set (map (limit_of read fs) (ancestors (np_Cgroup node)))" by (simp add: that(1))
    then obtain d where d: "d \<in> set (ancestors (np_Cgroup node))" "Inr v = limit_of read fs d" by auto
    then have "limit_set (limit_of read fs d)" using that(2) by blast
    then show "0 \<le> v" by (simp add: limit_set_def flip: d(2))
  qed
  with l(1,2) assms(2) have "\<forall>v \<in> set cpus. 0 \<le> v" "\<forall>v \<in> set memories. 0 \<le> v" by blast+
  then have "np_CPU node = Min (insert (ho_NumCPU host * 1000) {v \<in> set (caps_CPU caps # cpus). 0 < v})"
    "np_Memory node = Min (insert memory {v \<in> set (caps_Memory caps # memories). 0 < v})"
    by (simp_all only: t(4,5) l(3,4) least_of_limits)
  with t(1,2) l(1,2) show ?thesis by blast
qed

text \<open>An agent in a service of two processors' time, on a host of four.\<close>

definition sample_fs :: FS where
  "sample_fs name =
     (if name = ''proc/meminfo'' then Inr ''MemTotal: 8388608 kB''
      else if name = ''proc/self/cgroup'' then Inr ''0::/a/b''
      else if name = ''sys/fs/cgroup/a/cpu.max'' then Inr ''200000 100000''
      else Inl (Sentinel ErrNotExist))"

lemma sample_reads:
  "hostMemory sample_fs = Inr 8192" "ownCgroup sample_fs = Inr ''/a/b''" "ancestors ''/a/b'' = [''/a/b'', ''/a'', ''/'']"
  "limit_of cpuMax sample_fs ''/a/b'' = Inr 0" "limit_of cpuMax sample_fs ''/a'' = Inr 2000" "limit_of cpuMax sample_fs ''/'' = Inr 0"
  "limit_of memoryMax sample_fs ''/a/b'' = Inr 0" "limit_of memoryMax sample_fs ''/a'' = Inr 0" "limit_of memoryMax sample_fs ''/'' = Inr 0"
proof -
  have numbers: "ParseInt ''8388608'' = Some 8388608" "ParseInt ''200000'' = Some 200000" "ParseInt ''100000'' = Some 100000"
    by (simp_all add: ParseInt_def is_digit_def digit_val_def byte_def)
  have trimmed: "TrimSpace (TrimSuffix (TrimSpace '' 8388608 kB'') ''kB'') = ''8388608''" by code_simp
  have lines: "scan_lines ''MemTotal: 8388608 kB'' = [''MemTotal: 8388608 kB'']" by (simp add: scan_lines_def drop_cr_def)
  have memory: "sample_fs ''proc/meminfo'' = Inr ''MemTotal: 8388608 kB''" by (simp add: sample_fs_def)
  show "hostMemory sample_fs = Inr 8192"
    by (simp add: hostMemory_def memory lines CutPrefix_def trimmed numbers go_div_def)
  show "ownCgroup sample_fs = Inr ''/a/b''" by code_simp
  show "ancestors ''/a/b'' = [''/a/b'', ''/a'', ''/'']" by code_simp
  have joins: "path_Join (path_Join ''sys/fs/cgroup'' ''/a/b'') f = ''sys/fs/cgroup/a/b/'' @ f \<and>
     path_Join (path_Join ''sys/fs/cgroup'' ''/a'') f = ''sys/fs/cgroup/a/'' @ f \<and>
     path_Join (path_Join ''sys/fs/cgroup'' ''/'') f = ''sys/fs/cgroup/'' @ f" if "f = ''cpu.max'' \<or> f = ''memory.max''" for f
    using that by (elim disjE) (simp_all add: path_Join_def any_Clean_def)
  have fields: "strings_Fields ''200000 100000'' = [''200000'', ''100000'']" by code_simp
  show "limit_of cpuMax sample_fs ''/a/b'' = Inr 0" "limit_of cpuMax sample_fs ''/'' = Inr 0"
    "limit_of memoryMax sample_fs ''/a/b'' = Inr 0" "limit_of memoryMax sample_fs ''/a'' = Inr 0" "limit_of memoryMax sample_fs ''/'' = Inr 0"
    by (simp_all add: limit_of_def cpuMax_def memoryMax_def readFields_def joins sample_fs_def)
  show "limit_of cpuMax sample_fs ''/a'' = Inr 2000"
    by (simp add: limit_of_def cpuMax_def readFields_def joins sample_fs_def fields numbers go_div_def int64_def)
qed

theorem capacity_least_witness:
  "\<exists>cpus. map (limit_of cpuMax sample_fs) [''/a/b'', ''/a'', ''/''] = map Inr cpus \<and> 2000 = Min (insert 4000 {v \<in> set (0 # cpus). 0 < v})"
proof -
  have "limits_loop sample_fs ''/a/b'' 0 0 = Inr (2000, 0)"
  proof -
    have up: "path_Dir ''/a/b'' = ''/a''" "path_Dir ''/a'' = ''/''" by code_simp+
    show ?thesis
      using sample_reads(4-9)
      by (subst limits_loop.simps, simp add: limit_of_def up, subst limits_loop.simps, simp add: up,
          subst limits_loop.simps, simp add: tighter_def)
  qed
  then have run: "Take \<lparr>ho_GOARCH = ''amd64'', ho_NumCPU = 4\<rparr> sample_fs \<lparr>caps_CPU = 0, caps_Memory = 4096\<rparr> =
      Inr \<lparr>np_Architecture = ''amd64'', np_CPU = 2000, np_Memory = 4096, np_Cgroup = ''/a/b''\<rparr>"
    by (simp add: Take_def cgroupLimits_def sample_reads(1,2))
  let ?node = "\<lparr>np_Architecture = ''amd64'', np_CPU = 2000, np_Memory = 4096, np_Cgroup = ''/a/b''\<rparr>"
  have "\<forall>d \<in> set (ancestors (np_Cgroup ?node)). limit_set (limit_of cpuMax sample_fs d) \<and> limit_set (limit_of memoryMax sample_fs d)"
    by (simp add: sample_reads limit_set_def)
  from capacity_least [OF run this] obtain cpus
    where "map (limit_of cpuMax sample_fs) (ancestors (np_Cgroup ?node)) = map Inr cpus"
      "np_CPU ?node = Min (insert (ho_NumCPU \<lparr>ho_GOARCH = ''amd64'', ho_NumCPU = 4\<rparr> * 1000)
        {v \<in> set (caps_CPU \<lparr>caps_CPU = 0, caps_Memory = 4096\<rparr> # cpus). 0 < v})" by blast
  then show ?thesis by (intro exI [of _ cpus]) (simp add: sample_reads(3))
qed

end
