(* ===== verification/Flags.thy ===== *)
theory Flags
  imports Urls Plugin "HOL-Library.AList"
begin

text \<open>
  \<^verbatim>\<open>internal/cli/metaflags.go\<close> and the flags of the commands: repeated \<open>key=value\<close> flags, and \<^verbatim>\<open>flag.FlagSet\<close>
  of the standard library with the kinds of flag the commands define.  A set of flags is the list of their
  names with their values, the defaults at first.
\<close>

section \<open>Key and value\<close>

text \<open>\<^verbatim>\<open>strings.Cut\<close> at a byte.\<close>

fun cut_byte :: "char \<Rightarrow> string \<Rightarrow> (string \<times> string) option" where
  "cut_byte c [] = None"
| "cut_byte c (x # xs) = (if x = c then Some ([], xs) else map_option (apfst ((#) x)) (cut_byte c xs))"

lemma cut_byte_free: "c \<notin> set k \<Longrightarrow> cut_byte c (k @ c # v) = Some (k, v)"
  by (induction k) auto

definition metaFlags_Set :: "(string \<times> string) list \<Rightarrow> string \<Rightarrow> goerror + (string \<times> string) list" where
  "metaFlags_Set m value =
     (case cut_byte (CHR ''='') value of
        None \<Rightarrow> Inl (Formatted ''expected key=value, got %q'' [S value] [])
      | Some (key, val) \<Rightarrow>
          (let key = TrimSpace key in
           if key = [] then Inl (Formatted ''key is empty in %q'' [S value] [])
           else if key \<in> fst ` set m then Inl (Formatted ''key %q was given more than once'' [S key] [])
           else Inr (m @ [(key, val)])))"

definition metaFlags_String :: "(string \<times> string) list \<Rightarrow> string" where
  "metaFlags_String m = strings_Join (map (\<lambda>(k, v). k @ ''='' @ v) m) '',''"

section \<open>Flags\<close>

datatype FlagValue = VBool bool | VString string | VMeta "(string \<times> string) list"

type_synonym Flags = "(string \<times> FlagValue) list"

definition ParseBool :: "string \<Rightarrow> bool option" where
  "ParseBool s =
     (if s \<in> {''1'', ''t'', ''T'', ''true'', ''TRUE'', ''True''} then Some True
      else if s \<in> {''0'', ''f'', ''F'', ''false'', ''FALSE'', ''False''} then Some False
      else None)"

fun flag_Set :: "FlagValue \<Rightarrow> string \<Rightarrow> goerror + FlagValue" where
  "flag_Set (VBool b) s = (case ParseBool s of None \<Rightarrow> Inl (Sentinel ''parse error'') | Some v \<Rightarrow> Inr (VBool v))"
| "flag_Set (VString t) s = Inr (VString s)"
| "flag_Set (VMeta m) s = (case metaFlags_Set m s of Inl err \<Rightarrow> Inl err | Inr m' \<Rightarrow> Inr (VMeta m'))"

text \<open>What stops the parsing of flags: the end of them, or an error, which \<^verbatim>\<open>-h\<close> is without a message.\<close>

datatype FlagStop = NoMoreFlags | AskedForHelp | BadFlag goerror

text \<open>One argument as a flag: its name and the value after an equals sign.\<close>

definition flag_name :: "string \<Rightarrow> string \<Rightarrow> goerror + string \<times> string option" where
  "flag_name arg name =
     (if name = [] \<or> hd name = CHR ''-'' \<or> hd name = CHR ''=''
      then Inl (Formatted ''bad flag syntax: %s'' [S arg] [])
      else case cut_byte (CHR ''='') name of
          None \<Rightarrow> Inr (name, None)
        | Some (n, v) \<Rightarrow> Inr (n, Some v))"

fun flags_Parse :: "Flags \<Rightarrow> string list \<Rightarrow> FlagStop \<times> Flags \<times> string list" where
  "flags_Parse flags [] = (NoMoreFlags, flags, [])"
| "flags_Parse flags (arg # args) =
     (if length arg < 2 \<or> hd arg \<noteq> CHR ''-'' then (NoMoreFlags, flags, arg # args)
      else if arg = ''--'' then (NoMoreFlags, flags, args)
      else case flag_name arg (if arg ! 1 = CHR ''-'' then drop 2 arg else drop 1 arg) of
          Inl err \<Rightarrow> (BadFlag err, flags, args)
        | Inr (name, value) \<Rightarrow>
            (case map_of flags name of
               None \<Rightarrow>
                 (if name = ''help'' \<or> name = ''h'' then AskedForHelp
                  else BadFlag (Formatted ''flag provided but not defined: -%s'' [S name] []), flags, args)
             | Some old \<Rightarrow>
                 (case (value, old) of
                    (Some v, VBool b) \<Rightarrow>
                      (case flag_Set old v of
                         Inl err \<Rightarrow> (BadFlag (Formatted ''invalid boolean value %q for -%s: %v'' [S v, S name] [err]), flags, args)
                       | Inr new \<Rightarrow> flags_Parse (AList.update name new flags) args)
                  | (None, VBool b) \<Rightarrow> flags_Parse (AList.update name (VBool True) flags) args
                  | (Some v, _) \<Rightarrow>
                      (case flag_Set old v of
                         Inl err \<Rightarrow> (BadFlag (Formatted ''invalid value %q for flag -%s: %v'' [S v, S name] [err]), flags, args)
                       | Inr new \<Rightarrow> flags_Parse (AList.update name new flags) args)
                  | (None, _) \<Rightarrow>
                      (case args of
                         [] \<Rightarrow> (BadFlag (Formatted ''flag needs an argument: -%s'' [S name] []), flags, [])
                       | v # rest \<Rightarrow>
                           (case flag_Set old v of
                              Inl err \<Rightarrow> (BadFlag (Formatted ''invalid value %q for flag -%s: %v'' [S v, S name] [err]), flags, rest)
                            | Inr new \<Rightarrow> flags_Parse (AList.update name new flags) rest)))))"

section \<open>What is collected\<close>

text \<open>The arguments that give each of some keys its value.\<close>

definition meta_args :: "string \<Rightarrow> (string \<times> string) list \<Rightarrow> string list" where
  "meta_args name pairs = concat (map (\<lambda>(k, v). [CHR ''-'' # name, k @ CHR ''='' # v]) pairs)"

definition meta_key :: "string \<Rightarrow> bool" where
  "meta_key k \<longleftrightarrow> k \<noteq> [] \<and> CHR ''='' \<notin> set k \<and> TrimSpace k = k"

lemma flags_Parse_meta:
  assumes name: "name \<noteq> []" "hd name \<noteq> CHR ''-''" "CHR ''='' \<notin> set name" "map_of flags name = Some (VMeta m)"
    and key: "meta_key k" "k \<notin> fst ` set m"
  shows "flags_Parse flags ((CHR ''-'' # name) # (k @ CHR ''='' # v) # args) = flags_Parse (AList.update name (VMeta (m @ [(k, v)])) flags) args"
proof -
  have "cut_byte (CHR ''='') name = None" if "CHR ''='' \<notin> set name" for name :: string using that by (induction name) auto
  then have "flag_name (CHR ''-'' # name) name = Inr (name, None)"
    using name by (auto simp: flag_name_def dest: hd_in_set)
  moreover have "metaFlags_Set m (k @ CHR ''='' # v) = Inr (m @ [(k, v)])"
    using key by (simp add: metaFlags_Set_def meta_key_def cut_byte_free)
  moreover have "(CHR ''-'' # name) ! 1 \<noteq> CHR ''-''" using name(1,2) by (cases name) auto
  moreover have "CHR ''-'' # name \<noteq> ''--''" using name(2) by auto
  moreover have "2 \<le> length (CHR ''-'' # name)" using name(1) by (cases name) auto
  ultimately show ?thesis using name(1,4) by simp
qed

text \<open>Every \<^verbatim>\<open>-meta\<close> a command line gives is collected, in any number: keys that differ, are not blank and carry no
  equals sign come out with the values they were given, whatever those are, and parsing goes on behind them.\<close>

theorem metadata_collected:
  assumes "name \<noteq> []" "hd name \<noteq> CHR ''-''" "CHR ''='' \<notin> set name" "map_of flags name = Some (VMeta m)"
    and "list_all (\<lambda>(k, v). meta_key k) pairs" "distinct (map fst (m @ pairs))"
  shows "flags_Parse flags (meta_args name pairs @ args) = flags_Parse (AList.update name (VMeta (m @ pairs)) flags) args"
  using assms(4-6)
proof (induction pairs arbitrary: flags m)
  case Nil
  have "AList.update name x al = al" if "map_of al name = Some x" for x :: FlagValue and al
    using that by (induction al) (auto split: if_splits)
  with Nil show ?case by (simp add: meta_args_def)
next
  case (Cons p pairs)
  obtain k v where p: "p = (k, v)" by (cases p)
  let ?flags = "AList.update name (VMeta (m @ [(k, v)])) flags"
  have twice: "AList.update name y (AList.update name x al) = AList.update name y al" for x y :: FlagValue and al
    by (induction al) auto
  have "meta_args name (p # pairs) @ args = (CHR ''-'' # name) # (k @ CHR ''='' # v) # meta_args name pairs @ args"
    by (simp add: meta_args_def p)
  moreover have "flags_Parse flags ((CHR ''-'' # name) # (k @ CHR ''='' # v) # meta_args name pairs @ args) =
      flags_Parse ?flags (meta_args name pairs @ args)"
    using Cons.prems by (intro flags_Parse_meta [OF assms(1-3)]) (auto simp: p)
  moreover have "flags_Parse ?flags (meta_args name pairs @ args) =
      flags_Parse (AList.update name (VMeta ((m @ [(k, v)]) @ pairs)) ?flags) args"
    using Cons.prems by (intro Cons.IH) (auto simp: p update_conv')
  ultimately show ?case by (simp add: p twice)
qed

theorem metadata_collected_witness:
  "flags_Parse [(''meta'', VMeta [])] [''-meta'', ''a=b=c'', ''-meta'', ''k='', ''job''] =
    (NoMoreFlags, [(''meta'', VMeta [(''a'', ''b=c''), (''k'', [])])], [''job''])"
proof -
  have "meta_key ''a'' \<and> meta_key ''k''" by (simp add: meta_key_def) code_simp
  then show ?thesis
    using metadata_collected [of "''meta''" "[(''meta'', VMeta [])]" "[]" "[(''a'', ''b=c''), (''k'', [])]" "[''job'']"]
    by (simp add: meta_args_def)
qed

end
