(* ===== verification/Cli.thy ===== *)
theory Cli
  imports Flags Clients Jobspec
begin

text \<open>
  \<^verbatim>\<open>internal/cli\<close>: the commands a user gives, over the client of the API.  A command adds lines to the terminal
  and answers an exit code; what stands in the terminal's way of the network is \<open>tm_net\<close>.  A line keeps the
  format and arguments it was made of, and a table its cells, whose alignment \<^verbatim>\<open>tabwriter\<close> makes.  Files,
  standard input, the environment and the HCL library are the parameter \<open>Cx\<close>.
\<close>

section \<open>The terminal\<close>

datatype Shown =
    Said string "arg list"
  | Plain string
  | Failing string goerror
  | Diagnosed Diagnostic
  | Described Text string Text
  | Table "string list list"
  | Because Detail
  | Grid "Shown list list"
  | Parts "Shown list"

datatype Line = Output Shown | ErrorLine Shown | Warning Shown

record 'n Term =
  tm_net :: 'n
  tm_lines :: "Line list"

type_synonym ('n, 'a) T = "('n Term, 'a) state"

definition say :: "Line \<Rightarrow> ('n, unit) T" where
  "say l = State (\<lambda>s. ((), s\<lparr>tm_lines := tm_lines s @ [l]\<rparr>))"

definition on_net :: "('n, 'a) state \<Rightarrow> ('n, 'a) T" where
  "on_net m = State (\<lambda>s. case run_state m (tm_net s) of (a, n) \<Rightarrow> (a, s\<lparr>tm_net := n\<rparr>))"

text \<open>\<open>cx_render\<close> is the writer of diagnostics of the HCL library, which may fail; \<open>cx_float\<close> and \<open>cx_hundredths\<close> print a
  number for \<^verbatim>\<open>%g\<close> and \<^verbatim>\<open>%.2f\<close>; \<open>cx_interrupt\<close> answers
  whether the command was interrupted before a wait was over.\<close>

record 'n Cx =
  cx_stdin :: "string + string"
  cx_ReadFile :: "string \<Rightarrow> string + string"
  cx_Stat :: "string \<Rightarrow> bool"
  cx_env :: "string \<Rightarrow> string"
  cx_hcl :: Hcl
  cx_decode :: Decode
  cx_render :: "Parsed option \<Rightarrow> Diagnostic \<Rightarrow> string option"
  cx_parse :: "string \<Rightarrow> string + BaseUrl"
  cx_http :: "'n Http"
  cx_json :: ClientJson
  cx_float :: "rat \<Rightarrow> string"
  cx_hundredths :: "rat \<Rightarrow> string"
  cx_interrupt :: "Duration \<Rightarrow> 'n \<Rightarrow> bool \<times> 'n"

definition ExitSuccess :: int where "ExitSuccess = 0"
definition ExitFailure :: int where "ExitFailure = 1"
definition ExitNoCapacity :: int where "ExitNoCapacity = 2"

definition normalizeExit :: "int \<Rightarrow> int" where
  "normalizeExit code =
     (if code = ExitSuccess \<or> code = ExitFailure \<or> code = ExitNoCapacity then code else ExitFailure)"

definition Errorf :: "Shown \<Rightarrow> ('n, int) T" where
  "Errorf text = do { say (ErrorLine text); ret ExitFailure }"

section \<open>Arguments\<close>

record operands =
  op_min :: nat
  op_max :: nat
  op_usage :: string

definition noArgs :: operands where
  "noArgs = \<lparr>op_min = 0, op_max = 0, op_usage = ''no arguments.''\<rparr>"

definition oneArg :: "string \<Rightarrow> operands" where
  "oneArg name = \<lparr>op_min = 1, op_max = 1, op_usage = ''one argument: '' @ name\<rparr>"

definition optionalArg :: "string \<Rightarrow> operands" where
  "optionalArg name = \<lparr>op_min = 0, op_max = 1, op_usage = ''at most one argument: '' @ name\<rparr>"

text \<open>The flags as they were set, and the arguments left; a flag that is wrong is reported as it is met.\<close>

definition parse :: "Flags \<Rightarrow> string list \<Rightarrow> operands \<Rightarrow> string \<Rightarrow> ('n, (Flags \<times> string list) option) T" where
  "parse flags args want help =
     (case flags_Parse flags args of
        (BadFlag err, _, _) \<Rightarrow> do { say (ErrorLine (Failing ''%s'' err)); ret None }
      | (AskedForHelp, _, _) \<Rightarrow> ret None
      | (NoMoreFlags, flags, got) \<Rightarrow>
          if length got < op_min want \<or> op_max want < length got
          then do { say (ErrorLine (Said ''This command takes %s'' [S (op_usage want), S help])); ret None }
          else ret (Some (flags, got)))"

definition string_flag :: "Flags \<Rightarrow> string \<Rightarrow> string" where
  "string_flag flags name = (case map_of flags name of Some (VString s) \<Rightarrow> s | _ \<Rightarrow> [])"

definition bool_flag :: "Flags \<Rightarrow> string \<Rightarrow> bool" where
  "bool_flag flags name = (case map_of flags name of Some (VBool b) \<Rightarrow> b | _ \<Rightarrow> False)"

definition meta_flag :: "Flags \<Rightarrow> string \<Rightarrow> (string \<times> string) list" where
  "meta_flag flags name = (case map_of flags name of Some (VMeta m) \<Rightarrow> m | _ \<Rightarrow> [])"

definition addressEnv :: string where [vocab]: "addressEnv = ''VAGABOND_ADDR''"
definition namespaceEnv :: string where [vocab]: "namespaceEnv = ''VAGABOND_NAMESPACE''"

definition clientFlags :: "'n Cx \<Rightarrow> Flags" where
  "clientFlags cx = [(''address'', VString (cx_env cx addressEnv)), (''namespace'', VString (cx_env cx namespaceEnv))]"

text \<open>A client for the server the flags name, with the flags and what is left.\<close>

definition connect ::
  "'n Cx \<Rightarrow> Flags \<Rightarrow> string list \<Rightarrow> operands \<Rightarrow> string \<Rightarrow> ('n, ('n ApiClient \<times> Flags \<times> string list) option) T" where
  "connect cx flags args want help =
     do {
       parsed \<leftarrow> parse (flags @ clientFlags cx) args want help;
       (case parsed of
          None \<Rightarrow> ret None
        | Some (flags, got) \<Rightarrow>
            (case NewClient (cx_parse cx) (cx_http cx) (cx_json cx) (string_flag flags ''address'') None of
               Inl err \<Rightarrow> do { say (ErrorLine (Failing ''%s'' err)); ret None }
             | Inr client \<Rightarrow> ret (Some (client, flags, got))))
     }"

section \<open>Failures\<close>

fun client_error_text :: "ClientError \<Rightarrow> string \<Rightarrow> Shown" where
  "client_error_text (ResponseError code body) prefix = Said (prefix @ ''%s'') [S (ResponseError_Error code body)]"
| "client_error_text (ClientFailed err) prefix = Failing (prefix @ ''%s'') err"

fun say_all :: "Line list \<Rightarrow> ('n, unit) T" where
  "say_all [] = ret ()"
| "say_all (l # ls) = do { say l; say_all ls }"

definition apiFailure :: "ClientError \<Rightarrow> ('n, int) T" where
  "apiFailure err =
     (case err of
        ResponseError code body \<Rightarrow>
          if ae_Diagnostics body = [] then Errorf (client_error_text err ''Error: '')
          else do {
            say_all (map (\<lambda>d. ErrorLine (Described (adg_Summary d) (adg_Range d) (adg_Detail d))) (ae_Diagnostics body));
            ret ExitFailure
          }
      | ClientFailed e \<Rightarrow> Errorf (client_error_text err ''Error: ''))"

definition splitByPosition :: "Diagnostic list \<Rightarrow> Diagnostic list \<times> Diagnostic list" where
  "splitByPosition diags = (filter (\<lambda>d. dg_Subject d \<noteq> None) diags, filter (\<lambda>d. dg_Subject d = None) diags)"

definition trim_newlines :: "string \<Rightarrow> string" where
  "trim_newlines s = rev (dropWhile (\<lambda>c. c = CHR 0x0A) (rev s))"

definition renderPositioned :: "'n Cx \<Rightarrow> Parsed option \<Rightarrow> Diagnostic list \<Rightarrow> Shown list" where
  "renderPositioned cx parsed diags =
     map (\<lambda>d. case cx_render cx parsed d of None \<Rightarrow> Diagnosed d | Some text \<Rightarrow> Plain (trim_newlines text)) diags"

definition renderDiagnostics :: "'n Cx \<Rightarrow> Parsed option \<Rightarrow> Diagnostic list \<Rightarrow> ('n, unit) T" where
  "renderDiagnostics cx parsed diags =
     (case splitByPosition diags of
        (positioned, plain) \<Rightarrow> say_all (map ErrorLine (renderPositioned cx parsed positioned @ map Diagnosed plain)))"

section \<open>Job files\<close>

definition stdinPath :: string where [vocab]: "stdinPath = ''-''"

definition readSource :: "'n Cx \<Rightarrow> string \<Rightarrow> goerror + string" where
  "readSource cx path =
     (if path = stdinPath then
        (case cx_stdin cx of Inl err \<Rightarrow> Inl (Formatted ''reading standard input: %w'' [] [Sentinel err]) | Inr src \<Rightarrow> Inr src)
      else
        (case cx_ReadFile cx path of Inl err \<Rightarrow> Inl (Formatted ''reading %s: %w'' [S path] [Sentinel err]) | Inr src \<Rightarrow> Inr src))"

definition filename :: "string \<Rightarrow> string" where
  "filename path = (if path = stdinPath then [] else path)"

text \<open>The source, or the exit code with which the problem was reported.\<close>

definition checked_source :: "'n Cx \<Rightarrow> string \<Rightarrow> Parsed option \<times> Diagnostic list \<Rightarrow> ('n, int + string) T" where
  "checked_source cx src result =
     (case result of (parsed, diags) \<Rightarrow>
        if \<not> HasErrors diags then ret (Inr src)
        else do { renderDiagnostics cx parsed diags; ret (Inl ExitFailure) })"

definition checkJob :: "'n Cx \<Rightarrow> string \<Rightarrow> (string \<times> string) list \<Rightarrow> ('n, int + string) T" where
  "checkJob cx path meta =
     (case readSource cx path of
        Inl err \<Rightarrow> do { code \<leftarrow> Errorf (Failing ''%s'' err); ret (Inl code) }
      | Inr src \<Rightarrow> checked_source cx src (Load (cx_hcl cx) (cx_decode cx) (filename path) src meta))"

definition checkRegister :: "'n Cx \<Rightarrow> string \<Rightarrow> ('n, int + string) T" where
  "checkRegister cx path =
     (case readSource cx path of
        Inl err \<Rightarrow> do { code \<leftarrow> Errorf (Failing ''%s'' err); ret (Inl code) }
      | Inr src \<Rightarrow> checked_source cx src (ForRegister (cx_hcl cx) (cx_decode cx) (filename path) src))"

definition parseJob :: "'n Cx \<Rightarrow> string \<Rightarrow> (string \<times> string) list \<Rightarrow> Parsed option \<times> Diagnostic list" where
  "parseJob cx path meta =
     (if path \<noteq> stdinPath then ParseFile (cx_hcl cx) (cx_decode cx) (cx_ReadFile cx) path meta
      else case cx_stdin cx of
          Inl err \<Rightarrow> (None, [diagnostic (''Cannot read standard input'', []) (''Reading the specification: %s.'', [err]) None])
        | Inr src \<Rightarrow> Parse (cx_hcl cx) (cx_decode cx) [] src meta)"

definition describe :: "string \<Rightarrow> string" where
  "describe path = (if path = stdinPath then ''The specification'' else ''Job specification '' @ path)"

definition JobValidate_Run :: "'n Cx \<Rightarrow> string \<Rightarrow> string list \<Rightarrow> ('n, int) T" where
  "JobValidate_Run cx help args =
     do {
       parsed \<leftarrow> parse [(''meta'', VMeta [])] args (oneArg ''<path>'') help;
       (case parsed of
          None \<Rightarrow> ret ExitFailure
        | Some (flags, paths) \<Rightarrow>
            (case parseJob cx (hd paths) (meta_flag flags ''meta'') of
               (parsed, diags) \<Rightarrow>
                 (let diags = (if \<not> HasErrors diags
                    then diags @ Validate (cx_hcl cx) (case parsed of None \<Rightarrow> None | Some p \<Rightarrow> ps_Spec p) else diags) in
                  if HasErrors diags then do { renderDiagnostics cx parsed diags; ret ExitFailure }
                  else do { say (Output (Said ''%s is valid.'' [S (describe (hd paths))])); ret ExitSuccess })))
     }"

section \<open>Showing values\<close>

text \<open>\<^verbatim>\<open>time.Format\<close> of \<^verbatim>\<open>2006-01-02 15:04:05Z\<close> in UTC.\<close>

definition two_digits :: "int \<Rightarrow> string" where
  "two_digits n = zero_pad 2 (show_nat (nat n))"

definition stamp :: "Time \<Rightarrow> string" where
  "stamp t =
     (let secs = (t mod dayNanos) div Second in
      Format_daily t @ '' '' @ two_digits (secs div 3600) @ '':'' @ two_digits (secs div 60 mod 60) @ '':'' @
        two_digits (secs mod 60) @ ''Z'')"

definition optionalStamp :: "Time option \<Rightarrow> string" where
  "optionalStamp t = (case t of None \<Rightarrow> [] | Some t \<Rightarrow> stamp t)"

definition standing :: "ApiJob \<Rightarrow> string" where
  "standing j = (if aj_Stopped j then ''stopped'' else ''registered'')"

definition short :: "string \<Rightarrow> string" where
  "short i = (if 8 < length i then drop (length i - 8) i else i)"

definition cost :: "int \<Rightarrow> string" where
  "cost c = (if c = 0 then ''free'' else Itoa c)"

definition amount :: "'n Cx \<Rightarrow> rat \<Rightarrow> string" where
  "amount cx v = cx_float cx (fl (of_int (math_Round (fl (v * 10))) / 10))"

section \<open>Reading commands\<close>

definition JobRegister_Run :: "'n Cx \<Rightarrow> string \<Rightarrow> string list \<Rightarrow> ('n, int) T" where
  "JobRegister_Run cx help args =
     do {
       connected \<leftarrow> connect cx [] args (oneArg ''<path>'') help;
       (case connected of
          None \<Rightarrow> ret ExitFailure
        | Some (client, flags, paths) \<Rightarrow> do {
            src \<leftarrow> checkRegister cx (hd paths);
            (case src of
               Inl code \<Rightarrow> ret code
             | Inr src \<Rightarrow> do {
                 registered \<leftarrow> on_net (Client_Register client (string_flag flags ''namespace'') src);
                 (case registered of
                    Inl err \<Rightarrow> apiFailure err
                  | Inr r \<Rightarrow> do {
                      say (Output (Said (if rgr_Changed r then ''Job %q registered as version %d in namespace %q.''
                        else ''Job %q is unchanged at version %d in namespace %q.'')
                        [S (rgr_Name r), N (rgr_Version r), S (rgr_Namespace r)]));
                      ret ExitSuccess
                    })
               })
          })
     }"

definition JobStop_Run :: "'n Cx \<Rightarrow> string \<Rightarrow> string list \<Rightarrow> ('n, int) T" where
  "JobStop_Run cx help args =
     do {
       connected \<leftarrow> connect cx [] args (oneArg ''<name>'') help;
       (case connected of
          None \<Rightarrow> ret ExitFailure
        | Some (client, flags, names) \<Rightarrow> do {
            stopped \<leftarrow> on_net (Client_StopJob client (string_flag flags ''namespace'') (hd names));
            (case stopped of
               Inl err \<Rightarrow> apiFailure err
             | Inr j \<Rightarrow> do {
                 say (Output (Said ''Job %q stopped in namespace %q.'' [S (aj_Name j), S (aj_Namespace j)]));
                 ret ExitSuccess
               })
          })
     }"

definition JobStatus_list :: "'n ApiClient \<Rightarrow> string \<Rightarrow> ('n, int) T" where
  "JobStatus_list client ns =
     do {
       jobs \<leftarrow> on_net (Client_Jobs client ns);
       (case jobs of
          Inl err \<Rightarrow> apiFailure err
        | Inr [] \<Rightarrow> do {
            say (Output (Said ''No jobs are registered in namespace %q.'' [S (if ns = [] then DefaultNamespace else ns)]));
            ret ExitSuccess
          }
        | Inr js \<Rightarrow> do {
            say (Output (Table ([''NAME'', ''VERSION'', ''STATUS'', ''UPDATED''] #
              map (\<lambda>j. [aj_Name j, Itoa (aj_Version j), standing j, stamp (aj_Updated j)]) js)));
            ret ExitSuccess
          })
     }"

definition JobStatus_show :: "'n ApiClient \<Rightarrow> string \<Rightarrow> string \<Rightarrow> ('n, int) T" where
  "JobStatus_show client ns name =
     do {
       status \<leftarrow> on_net (Client_JobStatus client ns name);
       (case status of
          Inl err \<Rightarrow> apiFailure err
        | Inr st \<Rightarrow> do {
            say (Output (Parts
              [Table [[''Name'', aj_Name st], [''Namespace'', aj_Namespace st], [''Version'', Itoa (aj_Version st)],
                 [''Status'', standing (ApiJob.truncate st)]],
               Plain ''Versions'',
               Table ([''VERSION'', ''REGISTERED''] # map (\<lambda>v. [Itoa (av_Version v), stamp (av_Registered v)]) (as_Versions st)),
               Plain ''Recent executions'',
               (if as_Executions st = [] then Plain ''None.''
                else Table ([''DISPATCH'', ''VERSION'', ''TASK'', ''PROVIDER'', ''STATE'', ''CREATED''] #
                  map (\<lambda>e. [short (ax_DispatchID e), Itoa (ax_JobVersion e), ax_Task e, ax_Provider e, ax_State e,
                    stamp (ax_Created e)]) (as_Executions st)))]));
            ret ExitSuccess
          })
     }"

definition JobStatus_Run :: "'n Cx \<Rightarrow> string \<Rightarrow> string list \<Rightarrow> ('n, int) T" where
  "JobStatus_Run cx help args =
     do {
       connected \<leftarrow> connect cx [] args (optionalArg ''[name]'') help;
       (case connected of
          None \<Rightarrow> ret ExitFailure
        | Some (client, flags, names) \<Rightarrow>
            (case names of
               [] \<Rightarrow> JobStatus_list client (string_flag flags ''namespace'')
             | name # _ \<Rightarrow> JobStatus_show client (string_flag flags ''namespace'') name))
     }"

text \<open>The lines of an execution; one whose value is empty is left out.\<close>

definition execution_lines :: "ApiExecution \<Rightarrow> string list list" where
  "execution_lines e =
     filter (\<lambda>f. f ! 1 \<noteq> [])
       ([[''ID'', ax_ID e], [''Namespace'', ax_Namespace e],
         [''Job'', ax_Job e @ '' (version '' @ Itoa (ax_JobVersion e) @ '')''], [''Dispatch'', ax_DispatchID e],
         [''Task'', ax_Task e], [''Provider'', ax_Provider e], [''Attempt'', Itoa (ax_Attempt e)],
         [''Previous'', ax_PreviousID e], [''State'', ax_State e], [''Provider ID'', ax_ProviderID e],
         [''Failure'', ax_Failure e], [''Created'', stamp (ax_Created e)], [''Started'', optionalStamp (ax_Started e)],
         [''Ended'', optionalStamp (ax_Ended e)]] @
        (if ax_HasResult e then
           [[''Duration'', Duration_String (ax_Duration e)]] @
           (case ax_ExitCode e of None \<Rightarrow> [] | Some code \<Rightarrow> [[''Exit Code'', Itoa code]]) @
           (case ax_Billed e of
              None \<Rightarrow> []
            | Some b \<Rightarrow> [[''Billed'', Itoa (ab_CPU b) @ '' millicores, '' @ Itoa (ab_Memory b) @ '' MiB, '' @
                Duration_String (ab_Duration b)]])
         else []))"

definition ExecutionStatus_Run :: "'n Cx \<Rightarrow> string \<Rightarrow> string list \<Rightarrow> ('n, int) T" where
  "ExecutionStatus_Run cx help args =
     do {
       connected \<leftarrow> connect cx [] args (oneArg ''<id>'') help;
       (case connected of
          None \<Rightarrow> ret ExitFailure
        | Some (client, flags, ids) \<Rightarrow> do {
            e \<leftarrow> on_net (Client_Execution client (hd ids));
            (case e of
               Inl err \<Rightarrow> apiFailure err
             | Inr e \<Rightarrow> do { say (Output (Table (execution_lines e))); ret ExitSuccess })
          })
     }"

definition ExecutionLogs_Run :: "'n Cx \<Rightarrow> string \<Rightarrow> string list \<Rightarrow> ('n, int) T" where
  "ExecutionLogs_Run cx help args =
     do {
       connected \<leftarrow> connect cx [] args (oneArg ''<id>'') help;
       (case connected of
          None \<Rightarrow> ret ExitFailure
        | Some (client, flags, ids) \<Rightarrow> do {
            logs \<leftarrow> on_net (Client_Logs client (hd ids));
            (case logs of
               Inl err \<Rightarrow> apiFailure err
             | Inr logs \<Rightarrow> do {
                 (if logs \<noteq> [] then say (Output (Plain (trim_newlines logs))) else ret ());
                 ret ExitSuccess
               })
          })
     }"

definition node_row :: "NodeListStub \<Rightarrow> string list" where
  "node_row n =
     [nl_Name n, nl_Pool n, nl_Address n, nl_Architecture n, Itoa (nl_UsedCPU n) @ ''/'' @ Itoa (nl_CPU n) @ ''m'',
      Itoa (nl_UsedMemory n) @ ''/'' @ Itoa (nl_Memory n) @ ''MiB'', Itoa (nl_Executions n), stamp (nl_Connected n)]"

definition NodeStatus_Run :: "'n Cx \<Rightarrow> string \<Rightarrow> string list \<Rightarrow> ('n, int) T" where
  "NodeStatus_Run cx help args =
     do {
       connected \<leftarrow> connect cx [] args noArgs help;
       (case connected of
          None \<Rightarrow> ret ExitFailure
        | Some (client, flags, none) \<Rightarrow> do {
            nodes \<leftarrow> on_net (Client_Nodes client);
            (case nodes of
               Inl err \<Rightarrow> apiFailure err
             | Inr [] \<Rightarrow> do { say (Output (Plain ''No agent nodes are connected.'')); ret ExitSuccess }
             | Inr ns \<Rightarrow> do {
                 say (Output (Table ([''NAME'', ''POOL'', ''ADDRESS'', ''ARCH'', ''CPU USED'', ''MEMORY USED'', ''WORKLOADS'',
                   ''CONNECTED''] # map node_row ns)));
                 ret ExitSuccess
               })
          })
     }"

text \<open>A provider's pools, its own cells given once.\<close>

fun pool_rows :: "'n Cx \<Rightarrow> string list \<Rightarrow> ProviderPool list \<Rightarrow> string list list" where
  "pool_rows cx provider [] = []"
| "pool_rows cx provider (p # ps) =
     (provider @ [ppl_Name p, ppl_Meter p, amount cx (ppl_Used p), amount cx (ppl_Limit p), Itoa (ppl_FreePercent p) @ ''%'',
        ppl_Period p]) # pool_rows cx [[], [], [], []] ps"

definition providerRows :: "'n Cx \<Rightarrow> ProviderListStub \<Rightarrow> string list list" where
  "providerRows cx p =
     (let provider = [prs_Name p, Itoa (prs_Tier p), FormatBool (prs_Enabled p), FormatBool (prs_Healthy p)] in
      if prs_Pools p = [] then [provider @ replicate 6 ''-''] else pool_rows cx provider (prs_Pools p))"

definition ProviderStatus_Run :: "'n Cx \<Rightarrow> string \<Rightarrow> string list \<Rightarrow> ('n, int) T" where
  "ProviderStatus_Run cx help args =
     do {
       connected \<leftarrow> connect cx [] args noArgs help;
       (case connected of
          None \<Rightarrow> ret ExitFailure
        | Some (client, flags, none) \<Rightarrow> do {
            listing \<leftarrow> on_net (Client_Providers client);
            (case listing of
               Inl err \<Rightarrow> apiFailure err
             | Inr l \<Rightarrow> do {
                 say (Output (Table ([''NAME'', ''TIER'', ''ENABLED'', ''HEALTHY'', ''POOL'', ''METER'', ''USED'', ''LIMIT'',
                   ''FREE'', ''PERIOD''] # concat (map (providerRows cx) (prl_Providers l)))));
                 say (Output (Plain []));
                 say (Output (Said ''Usage refreshed %s'' [S (stamp (prl_Refreshed l))]));
                 ret ExitSuccess
               })
          })
     }"

end
