(* ===== verification/Follow.thy ===== *)
theory Follow
  imports Cli
begin

text \<open>
  \<^verbatim>\<open>internal/cli\<close>: starting a run, following it to its end, and planning one.  The loop that follows a run is
  given fuel and answers \<open>None\<close> without it; \<open>run_followed\<close> says when it needs no more than a bound.  Of the
  maps a follower keeps, one is only looked up and the other is a set.
\<close>

section \<open>Following a run\<close>

definition pollInterval :: Duration where "pollInterval = Second"

definition dispatchRunning :: string where [vocab]: "dispatchRunning = ''running''"
definition dispatchSucceeded :: string where [vocab]: "dispatchSucceeded = ''succeeded''"
definition dispatchFailed :: string where [vocab]: "dispatchFailed = ''failed''"
definition executionFailed :: string where [vocab]: "executionFailed = ''failed''"

definition ErrCanceled :: string where [vocab]: "ErrCanceled = ''context canceled''"

fun client_canceled :: "ClientError \<Rightarrow> bool" where
  "client_canceled (ResponseError code body) = False"
| "client_canceled (ClientFailed err) = err_is ErrCanceled err"

record 'n follower =
  fw_client :: "'n ApiClient"
  fw_noLogs :: bool
  fw_states :: "string \<Rightarrow> string"
  fw_reported :: "string set"

definition new_follower :: "'n ApiClient \<Rightarrow> bool \<Rightarrow> 'n follower" where
  "new_follower client noLogs = \<lparr>fw_client = client, fw_noLogs = noLogs, fw_states = (\<lambda>i. []), fw_reported = {}\<rparr>"

text \<open>How an execution ended, with its exit code when it failed with one.\<close>

definition verdict_text :: "ApiExecution \<Rightarrow> string" where
  "verdict_text e =
     (case ax_ExitCode e of
        Some code \<Rightarrow> if ax_State e = executionFailed then ''failed (exit '' @ Itoa code @ '')'' else ax_State e
      | None \<Rightarrow> ax_State e)"

definition follower_logs :: "'n follower \<Rightarrow> ApiExecution \<Rightarrow> ('n, unit) T" where
  "follower_logs f e =
     do {
       logs \<leftarrow> on_net (Client_Logs (fw_client f) (ax_ID e));
       (case logs of
          Inl err \<Rightarrow> say (Warning (client_error_text err (''Could not read the output of '' @ ax_ID e @ '': '')))
        | Inr logs \<Rightarrow>
            if logs = [] then ret ()
            else do {
              say (Output (Plain (trim_newlines logs)));
              (if ax_LogsTruncated e then say (Warning (Plain ''Output was truncated.'')) else ret ())
            })
     }"

definition follower_result :: "'n follower \<Rightarrow> ApiExecution \<Rightarrow> ('n, 'n follower) T" where
  "follower_result f e =
     (if ax_ID e \<in> fw_reported f then ret f
      else do {
        (if \<not> fw_noLogs f then follower_logs f e else ret ());
        say (ErrorLine (Said ''==> %s %s on %s in %s'' [S (ax_Task e), S (verdict_text e), S (ax_Provider e), S (Duration_String (ax_Duration e))]));
        ret (f\<lparr>fw_reported := insert (ax_ID e) (fw_reported f)\<rparr>)
      })"

definition state_line :: "ApiExecution \<Rightarrow> string" where
  "state_line e =
     ''==> '' @ ax_Task e @ '' '' @ ax_State e @ '' on '' @ ax_Provider e @
     (if 1 < ax_Attempt e then '' (attempt '' @ Itoa (ax_Attempt e) @ '')'' else []) @
     (if ax_Failure e \<noteq> [] then '' ('' @ ax_Failure e @ '' failure)'' else [])"

definition report_execution :: "'n follower \<Rightarrow> ApiExecution \<Rightarrow> ('n, 'n follower) T" where
  "report_execution f e =
     (if ax_HasResult e then follower_result f e
      else if fw_states f (ax_ID e) = ax_State e then ret f
      else do {
        say (ErrorLine (Plain (state_line e)));
        ret (f\<lparr>fw_states := (fw_states f)(ax_ID e := ax_State e)\<rparr>)
      })"

fun follower_report :: "'n follower \<Rightarrow> ApiExecution list \<Rightarrow> ('n, 'n follower) T" where
  "follower_report f [] = ret f"
| "follower_report f (e # es) = do { f \<leftarrow> report_execution f e; follower_report f es }"

definition follower_finished :: "ApiDispatch \<Rightarrow> ('n, int) T" where
  "follower_finished d =
     (if ad_State d = dispatchSucceeded then ret ExitSuccess
      else if ad_State d = dispatchFailed then ret ExitFailure
      else do {
        say (ErrorLine (Said ''Job %q did not run: %s'' [S (ad_Job d), S (ad_Error d)]));
        say (ErrorLine (Plain ''Run vagabond job plan to see where it can run.''));
        ret ExitNoCapacity
      })"

fun cancel_unfinished :: "'n ApiClient \<Rightarrow> ApiExecution list \<Rightarrow> ('n, unit) T" where
  "cancel_unfinished c [] = ret ()"
| "cancel_unfinished c (e # es) =
     do {
       (if \<not> ax_HasResult e \<and> ax_Ended e = None
        then do {
          cancelled \<leftarrow> on_net (Client_Cancel c (ax_ID e));
          (case cancelled of
             Inl err \<Rightarrow> say (Warning (client_error_text err (''Could not stop '' @ ax_ID e @ '': '')))
           | Inr e \<Rightarrow> ret ())
        }
        else ret ());
       cancel_unfinished c es
     }"

definition follower_interrupted :: "'n ApiClient \<Rightarrow> string \<Rightarrow> ApiDispatch option \<Rightarrow> ('n, int) T" where
  "follower_interrupted c job previous =
     do {
       (case previous of None \<Rightarrow> ret () | Some d \<Rightarrow> cancel_unfinished c (ad_Executions d));
       say (ErrorLine (Said ''Job %q was interrupted. The execution was stopped.'' [S job]));
       ret ExitNoCapacity
     }"

fun follow_loop :: "nat \<Rightarrow> 'n Cx \<Rightarrow> DispatchResponse \<Rightarrow> 'n follower \<Rightarrow> ApiDispatch option \<Rightarrow> ('n, int option) T" where
  "follow_loop 0 cx started f previous = ret None"
| "follow_loop (Suc fuel) cx started f previous =
     do {
       status \<leftarrow> on_net (Client_DispatchStatus (fw_client f) (dr_DispatchID started));
       (case status of
          Inl err \<Rightarrow> do {
            code \<leftarrow> (if client_canceled err then follower_interrupted (fw_client f) (dr_Job started) previous else apiFailure err);
            ret (Some code)
          }
        | Inr d \<Rightarrow> do {
            f \<leftarrow> follower_report f (ad_Executions d);
            (if ad_State d \<noteq> dispatchRunning then do { code \<leftarrow> follower_finished d; ret (Some code) }
             else do {
               interrupted \<leftarrow> on_net (State (cx_interrupt cx pollInterval));
               (if interrupted then do {
                  code \<leftarrow> follower_interrupted (fw_client f) (dr_Job started) (Some d);
                  ret (Some code)
                }
                else follow_loop fuel cx started f (Some d))
             })
          })
     }"

definition Meta_follow :: "nat \<Rightarrow> 'n Cx \<Rightarrow> 'n ApiClient \<Rightarrow> DispatchResponse \<Rightarrow> bool \<Rightarrow> ('n, int option) T" where
  "Meta_follow fuel cx client started noLogs =
     do {
       say (ErrorLine (Said ''==> dispatch %s of %q'' [S (dr_DispatchID started), S (dr_Job started)]));
       follow_loop fuel cx started (new_follower client noLogs) None
     }"

section \<open>Starting a run\<close>

definition JobRun_Run :: "nat \<Rightarrow> 'n Cx \<Rightarrow> string \<Rightarrow> string list \<Rightarrow> ('n, int option) T" where
  "JobRun_Run fuel cx help args =
     do {
       connected \<leftarrow> connect cx [(''meta'', VMeta []), (''no-logs'', VBool False)] args (oneArg ''<path>'') help;
       (case connected of
          None \<Rightarrow> ret (Some ExitFailure)
        | Some (client, flags, paths) \<Rightarrow> do {
            src \<leftarrow> checkJob cx (hd paths) (meta_flag flags ''meta'');
            (case src of
               Inl code \<Rightarrow> ret (Some code)
             | Inr src \<Rightarrow> do {
                 started \<leftarrow> on_net (Client_Run client (string_flag flags ''namespace'') src (meta_flag flags ''meta''));
                 (case started of
                    Inl err \<Rightarrow> do { code \<leftarrow> apiFailure err; ret (Some code) }
                  | Inr started \<Rightarrow> Meta_follow fuel cx client started (bool_flag flags ''no-logs''))
               })
          })
     }"

definition JobDispatch_Run :: "nat \<Rightarrow> 'n Cx \<Rightarrow> string \<Rightarrow> string list \<Rightarrow> ('n, int option) T" where
  "JobDispatch_Run fuel cx help args =
     do {
       connected \<leftarrow> connect cx [(''meta'', VMeta []), (''no-logs'', VBool False)] args (oneArg ''<name>'') help;
       (case connected of
          None \<Rightarrow> ret (Some ExitFailure)
        | Some (client, flags, names) \<Rightarrow> do {
            started \<leftarrow> on_net (Client_Dispatch client (string_flag flags ''namespace'') (hd names) (meta_flag flags ''meta''));
            (case started of
               Inl err \<Rightarrow> do { code \<leftarrow> apiFailure err; ret (Some code) }
             | Inr started \<Rightarrow> Meta_follow fuel cx client started (bool_flag flags ''no-logs''))
          })
     }"

section \<open>Planning\<close>

text \<open>\<^verbatim>\<open>filepath.Ext\<close>: what follows the last dot of the last element, with the dot.\<close>

definition filepath_Ext :: "string \<Rightarrow> string" where
  "filepath_Ext path =
     (let back = takeWhile (\<lambda>c. c \<noteq> CHR ''/'') (rev path) in
      if CHR ''.'' \<in> set back then CHR ''.'' # rev (takeWhile (\<lambda>c. c \<noteq> CHR ''.'') back) else [])"

definition isFile :: "'n Cx \<Rightarrow> string \<Rightarrow> bool" where
  "isFile cx arg \<longleftrightarrow> arg = stdinPath \<or> CHR ''/'' \<in> set arg \<or> filepath_Ext arg = ''.hcl'' \<or> cx_Stat cx arg"

text \<open>When a candidate's snapshot was taken.\<close>

definition candidate_observed :: "ApiCandidate \<Rightarrow> string" where
  "candidate_observed c = (if Time_IsZero (ac_Observed c) then ''never observed'' else ''observed '' @ stamp (ac_Observed c))"

definition candidateRows :: "'n Cx \<Rightarrow> ApiCandidate list \<Rightarrow> bool \<Rightarrow> Shown list list" where
  "candidateRows cx candidates verbose =
     concat (map (\<lambda>c.
       [Plain (ac_Provider c), Plain ''admitted'', Said ''tier %d'' [N (ac_Tier c)], Said ''score %d'' [N (ac_Score c)],
        Plain (candidate_observed c)] #
       (if verbose
        then map (\<lambda>s. [Plain [], Plain [], Said ''  %s %.2f'' [S (asc_Name s), S (cx_hundredths cx (asc_Value s))]]) (ac_Scores c)
        else [])) candidates)"

definition rejectionRows :: "ApiRejection list \<Rightarrow> bool \<Rightarrow> Shown list list" where
  "rejectionRows rejections verbose =
     concat (map (\<lambda>r.
       [Plain (ar_Provider r), Plain ''rejected'', Plain (ar_Reason r), Because (ar_Detail r)] #
       (if verbose then map (\<lambda>also. [Plain [], Plain [], Said ''  %s'' [S also]]) (ar_Also r) else [])) rejections)"

definition plan_table :: "'n Cx \<Rightarrow> ApiTaskPlan \<Rightarrow> bool \<Rightarrow> Shown" where
  "plan_table cx t verbose =
     Grid (candidateRows cx (atp_Candidates t) verbose @ rejectionRows (atp_Rejections t) verbose)"

definition renderTask :: "'n Cx \<Rightarrow> ApiTaskPlan \<Rightarrow> bool \<Rightarrow> ('n, bool) T" where
  "renderTask cx t verbose =
     do {
       say (Output (Said ''%s.%s (%s)'' [S (atp_Job t), S (atp_Task t), S (atp_Driver t)]));
       say (Output (plan_table cx t verbose));
       (if atp_Selected t = [] then do {
          say (Output (Plain ''No provider can run this task.''));
          (if atp_Retryable t
           then say (Output (Plain ''At least one rejection is transient, so this may be admitted later.'')) else ret ());
          ret False
        }
        else do {
          say (Output (Said ''Tiers: %s'' [S (atp_Tiers t)]));
          say (Output (Said ''Selected: %s'' [S (atp_Selected t)]));
          say (Output (Said ''Estimated cost: %s'' [S (cost (atp_EstimatedCost t))]));
          ret True
        })
     }"

text \<open>\<open>later\<close> tells that a task came before, so that a blank line separates them.\<close>

fun render_loop :: "'n Cx \<Rightarrow> ApiTaskPlan list \<Rightarrow> bool \<Rightarrow> bool \<Rightarrow> int \<Rightarrow> ('n, int) T" where
  "render_loop cx [] verbose later code = ret code"
| "render_loop cx (t # ts) verbose later code =
     do {
       (if later then say (Output (Plain [])) else ret ());
       runs \<leftarrow> renderTask cx t verbose;
       render_loop cx ts verbose True (if runs then code else ExitFailure)
     }"

definition render :: "'n Cx \<Rightarrow> ApiPlan \<Rightarrow> bool \<Rightarrow> ('n, int) T" where
  "render cx plan verbose = render_loop cx (ap_Tasks plan) verbose False ExitSuccess"

definition plan_request :: "'n Cx \<Rightarrow> string \<Rightarrow> (string \<times> string) list \<Rightarrow> ('n, int + PlanRequest) T" where
  "plan_request cx arg meta =
     (if \<not> isFile cx arg then ret (Inr \<lparr>plq_Source = [], plq_Name = arg, plq_Meta = meta\<rparr>)
      else do {
        src \<leftarrow> checkJob cx arg meta;
        ret (case src of
               Inl code \<Rightarrow> Inl code
             | Inr src \<Rightarrow> Inr \<lparr>plq_Source = src, plq_Name = [], plq_Meta = meta\<rparr>)
      })"

definition JobPlan_Run :: "'n Cx \<Rightarrow> string \<Rightarrow> string list \<Rightarrow> ('n, int) T" where
  "JobPlan_Run cx help args =
     do {
       connected \<leftarrow> connect cx [(''meta'', VMeta []), (''verbose'', VBool False)] args (oneArg ''<path or name>'') help;
       (case connected of
          None \<Rightarrow> ret ExitFailure
        | Some (client, flags, paths) \<Rightarrow> do {
            req \<leftarrow> plan_request cx (hd paths) (meta_flag flags ''meta'');
            (case req of
               Inl code \<Rightarrow> ret code
             | Inr req \<Rightarrow> do {
                 plan \<leftarrow> on_net (Client_Plan client (string_flag flags ''namespace'') req);
                 (case plan of
                    Inl err \<Rightarrow> apiFailure err
                  | Inr plan \<Rightarrow> render cx plan (bool_flag flags ''verbose''))
               })
          })
     }"


section \<open>The end of a run\<close>

text \<open>
  \<open>left\<close> measures how much of the run the server still has to do: no request adds to it, a wait that is not
  interrupted takes from it, and nothing is left once the server stops answering that the run is running.
\<close>

definition winding_down :: "('n \<Rightarrow> nat) \<Rightarrow> 'n Cx \<Rightarrow> 'n ApiClient \<Rightarrow> string \<Rightarrow> bool" where
  "winding_down left cx c i \<longleftrightarrow>
     (\<forall>q n. left (snd (http_Do (cl_http c) q n)) \<le> left n) \<and>
     (\<forall>n. fst (cx_interrupt cx pollInterval n) \<or> left (snd (cx_interrupt cx pollInterval n)) \<le> left n - 1) \<and>
     (\<forall>n d n'. run_state (Client_DispatchStatus c i) n = (Inr d, n') \<longrightarrow> ad_State d = dispatchRunning \<longrightarrow> 0 < left n')"

text \<open>One round: an answer that the run is running, its report, and a wait nothing interrupts.\<close>

inductive round_of :: "'n Cx \<Rightarrow> string \<Rightarrow> 'n follower \<times> 'n Term \<Rightarrow> 'n follower \<times> 'n Term \<Rightarrow> bool"
  for cx i where
  another_round:
    "run_state (on_net (Client_DispatchStatus (fw_client f) i)) s = (Inr d, t) \<Longrightarrow> ad_State d = dispatchRunning \<Longrightarrow>
     run_state (follower_report f (ad_Executions d)) t = (g, u) \<Longrightarrow>
     run_state (on_net (State (cx_interrupt cx pollInterval))) u = (False, v) \<Longrightarrow> round_of cx i (f, s) (g, v)"

inductive_cases round_ofE: "round_of cx i p q"

text \<open>The exit code after a last answer; one that the run is running was followed by an interrupt.\<close>

definition exit_of :: "ClientError + ApiDispatch \<Rightarrow> int" where
  "exit_of answer =
     (case answer of
        Inl err \<Rightarrow> if client_canceled err then ExitNoCapacity else ExitFailure
      | Inr d \<Rightarrow> if ad_State d = dispatchSucceeded then ExitSuccess
          else if ad_State d = dispatchFailed then ExitFailure else ExitNoCapacity)"

abbreviation wears :: "('n \<Rightarrow> nat) \<Rightarrow> 'n Term \<Rightarrow> 'n Term \<Rightarrow> bool" where
  "wears left s t \<equiv> left (tm_net t) \<le> left (tm_net s)"

lemma wears_relation: "run_relation (wears left)"
  by unfold_locales auto

lemmas wears_rules =
  run_relation.rel_return [OF wears_relation] run_relation.rel_bind [OF wears_relation] run_relation.rel_if [OF wears_relation]
  run_relation.rel_option [OF wears_relation] run_relation.rel_sum [OF wears_relation]

lemma say_wears [relates]: "state_io_rel (wears left) (say l)"
  by (auto simp: say_def)

lemma run_say [simp]: "run_state (say l) s = ((), s\<lparr>tm_lines := tm_lines s @ [l]\<rparr>)"
  by (simp add: say_def)

lemma run_on_net [simp]:
  "run_state (on_net m) s = (case run_state m (tm_net s) of (a, n) \<Rightarrow> (a, s\<lparr>tm_net := n\<rparr>))"
  by (simp add: on_net_def)

lemma on_net_wears:
  fixes left :: "'n \<Rightarrow> nat"
  assumes down: "\<And>n. left (snd (run_state m n)) \<le> left n"
  shows "state_io_rel (wears left) (on_net m)"
proof (rule state_io_relI)
  fix a s t
  assume "run_state (on_net m) s = (a, t)"
  then have "t = s\<lparr>tm_net := snd (run_state m (tm_net s))\<rparr>" by (auto split: prod.splits)
  then show "wears left s t" by (simp add: down)
qed

lemma send_wears:
  fixes left :: "'n \<Rightarrow> nat"
  assumes "\<And>q n. left (snd (http_Do (cl_http c) q n)) \<le> left n"
  shows "left (snd (run_state (Client_send c verb target ns body) n)) \<le> left n"
proof -
  have down: "left m \<le> left n" if "http_Do (cl_http c) q n = (a, m)" for q a n m
    using assms [of q n] that by simp
  show ?thesis by (auto simp: Client_send_def Let_def down split: option.splits sum.splits prod.splits)
qed

lemma do_wears:
  fixes left :: "'n \<Rightarrow> nat"
  assumes "\<And>q n. left (snd (http_Do (cl_http c) q n)) \<le> left n"
  shows "left (snd (run_state (Client_do c verb target ns body decoder) n)) \<le> left n"
proof -
  obtain a m where "run_state (Client_send c verb target ns body) n = (a, m)" by fastforce
  then show ?thesis using send_wears [of left c verb target ns body n, OF assms] by (simp add: Client_do_def)
qed

lemma logs_wears:
  fixes left :: "'n \<Rightarrow> nat"
  assumes "\<And>q n. left (snd (http_Do (cl_http c) q n)) \<le> left n"
  shows "left (snd (run_state (Client_Logs c i) n)) \<le> left n"
proof -
  let ?path = "''/v1/execution/'' @ PathEscape i @ ''/logs''"
  obtain a m where "run_state (Client_send c ''GET'' ?path [] None) n = (a, m)" by fastforce
  then show ?thesis using send_wears [of left c "''GET''" ?path "[]" None n, OF assms] by (simp add: Client_Logs_def)
qed

lemma execution_reported:
  fixes left :: "'n \<Rightarrow> nat"
  assumes "\<And>q n. left (snd (http_Do (cl_http (fw_client f)) q n)) \<le> left n"
    and "run_state (report_execution f e) s = (g, t)"
  shows "fw_client g = fw_client f \<and> wears left s t"
proof -
  have "state_io_rel (wears left) (follower_logs f e)"
    unfolding follower_logs_def by (intro wears_rules say_wears on_net_wears logs_wears assms(1))
  then have "state_io_rel (wears left) (report_execution f e)"
    unfolding report_execution_def follower_result_def by (intro wears_rules say_wears)
  then have "wears left s t" using assms(2) by blast
  moreover have "fw_client g = fw_client f"
    using assms(2) by (auto simp: report_execution_def follower_result_def split: if_splits prod.splits)
  ultimately show ?thesis by simp
qed

lemma report_wears:
  fixes left :: "'n \<Rightarrow> nat"
  assumes "\<And>q n. left (snd (http_Do (cl_http (fw_client f)) q n)) \<le> left n"
    and "run_state (follower_report f es) s = (g, t)"
  shows "fw_client g = fw_client f \<and> wears left s t"
  using assms
proof (induction es arbitrary: f s)
  case (Cons e es)
  obtain h u where step: "run_state (report_execution f e) s = (h, u)" by fastforce
  have first: "fw_client h = fw_client f \<and> wears left s u" by (rule execution_reported [OF Cons.prems(1) step])
  then have "fw_client g = fw_client h \<and> wears left u t"
    using Cons.prems(1,2) step by (intro Cons.IH) auto
  then show ?case using first by auto
qed simp

lemma finished_exit:
  "ad_State d \<noteq> dispatchRunning \<Longrightarrow> fst (run_state (follower_finished d) s) = exit_of (Inr d)"
  by (simp add: follower_finished_def exit_of_def)

lemma interrupted_exit: "fst (run_state (follower_interrupted c job seen) s) = ExitNoCapacity"
  by (simp add: follower_interrupted_def split: prod.splits)

lemma failure_exit: "fst (run_state (apiFailure err) s) = ExitFailure"
  by (auto simp: apiFailure_def Errorf_def split: ClientError.splits prod.splits)

lemma loop_ends:
  assumes "winding_down left cx c (dr_DispatchID started)" "fw_client f = c" "left (tm_net s) < fuel"
  shows "\<exists>t g v. run_state (follow_loop fuel cx started f seen) s =
      (Some (exit_of (fst (run_state (Client_DispatchStatus c (dr_DispatchID started)) (tm_net v)))), t) \<and>
    (round_of cx (dr_DispatchID started))\<^sup>*\<^sup>* (f, s) (g, v)"
  using assms(2,3)
proof (induction fuel arbitrary: f s seen)
  case (Suc fuel)
  let ?i = "dr_DispatchID started"
  have requests: "left (snd (http_Do (cl_http c) q n)) \<le> left n" for q n
    using assms(1) by (simp add: winding_down_def)
  obtain answer n where asked: "run_state (Client_DispatchStatus c ?i) (tm_net s) = (answer, n)" by fastforce
  show ?case
  proof (cases answer)
    case (Inl err)
    have "\<exists>t. run_state (follow_loop (Suc fuel) cx started f seen) s = (Some (exit_of answer), t)"
      using Suc.prems(1) asked Inl interrupted_exit [of c "dr_Job started" seen "s\<lparr>tm_net := n\<rparr>"]
        failure_exit [of err "s\<lparr>tm_net := n\<rparr>"]
      by (auto simp: exit_of_def split: prod.splits)
    then show ?thesis using asked by (metis fst_conv rtranclp.rtrancl_refl)
  next
    case (Inr d)
    let ?s = "s\<lparr>tm_net := n\<rparr>"
    obtain g u where reported: "run_state (follower_report f (ad_Executions d)) ?s = (g, u)" by fastforce
    have client: "fw_client g = c" and lower: "left (tm_net u) \<le> left n"
      using report_wears [of left f, OF _ reported] requests Suc.prems(1) by auto
    obtain b m where waited: "cx_interrupt cx pollInterval (tm_net u) = (b, m)" by fastforce
    show ?thesis
    proof (cases "ad_State d = dispatchRunning \<and> \<not> b")
      case False
      have "\<exists>t. run_state (follow_loop (Suc fuel) cx started f seen) s = (Some (exit_of answer), t)"
        using False Suc.prems(1) asked Inr reported waited client finished_exit [of d u]
          interrupted_exit [of c "dr_Job started" "Some d" "u\<lparr>tm_net := m\<rparr>"]
        by (auto simp: exit_of_def dispatchRunning_def dispatchSucceeded_def dispatchFailed_def split: prod.splits)
      then show ?thesis using asked by (metis fst_conv rtranclp.rtrancl_refl)
    next
      case True
      let ?v = "u\<lparr>tm_net := m\<rparr>"
      have "0 < left n" using assms(1) asked Inr True by (auto simp: winding_down_def)
      moreover have "left n \<le> left (tm_net s)"
        using do_wears [of left c, OF requests] asked by (metis Client_DispatchStatus_def snd_conv)
      moreover have "left m \<le> left (tm_net u) - 1"
        using assms(1) waited True by (auto simp: winding_down_def dest: spec [of _ "tm_net u"])
      ultimately have "left (tm_net ?v) < fuel" using lower Suc.prems(2) by simp
      from Suc.IH [OF client this, of "Some d"] obtain t h v where
        rest: "run_state (follow_loop fuel cx started g (Some d)) ?v =
          (Some (exit_of (fst (run_state (Client_DispatchStatus c ?i) (tm_net v)))), t)"
        and on: "(round_of cx ?i)\<^sup>*\<^sup>* (g, ?v) (h, v)" by blast
      have "round_of cx ?i (f, s) (g, ?v)"
        using asked Inr True reported waited Suc.prems(1) by (intro another_round) auto
      then have "(round_of cx ?i)\<^sup>*\<^sup>* (f, s) (h, v)" using on by (rule converse_rtranclp_into_rtranclp)
      moreover have "run_state (follow_loop (Suc fuel) cx started f seen) s = run_state (follow_loop fuel cx started g (Some d)) ?v"
        using asked Inr True reported waited Suc.prems(1) by simp
      ultimately show ?thesis using rest by metis
    qed
  qed
qed simp

text \<open>C18. Following a run ends once the run does.  Provided that no request adds to what the server has left to do of it,
  that a wait nothing interrupts takes from it, and that with nothing left the run is no longer answered to be
  running, the command returns within as many rounds, each of which found it running; and its exit code is
  what the last answer says: 0 only for a run that succeeded, 1 for one that failed or could not be read, and
  2 for one that never ran or was interrupted.\<close>

theorem run_followed:
  assumes "winding_down left cx c (dr_DispatchID started)" "left (tm_net s) < fuel"
  shows "\<exists>t f v. run_state (Meta_follow fuel cx c started no_logs) s =
      (Some (exit_of (fst (run_state (Client_DispatchStatus c (dr_DispatchID started)) (tm_net v)))), t) \<and>
    (round_of cx (dr_DispatchID started))\<^sup>*\<^sup>*
      (new_follower c no_logs,
       s\<lparr>tm_lines := tm_lines s @ [ErrorLine (Said ''==> dispatch %s of %q'' [S (dr_DispatchID started), S (dr_Job started)])]\<rparr>)
      (f, v)"
proof -
  let ?s = "s\<lparr>tm_lines := tm_lines s @ [ErrorLine (Said ''==> dispatch %s of %q'' [S (dr_DispatchID started), S (dr_Job started)])]\<rparr>"
  have "fw_client (new_follower c no_logs) = c" "left (tm_net ?s) < fuel" using assms(2) by (simp_all add: new_follower_def)
  from loop_ends [OF assms(1) this, of None] show ?thesis by (simp add: Meta_follow_def)
qed

text \<open>A server whose run succeeds at the third time of asking.\<close>

definition shown_dispatch :: "string \<Rightarrow> ApiDispatch" where
  "shown_dispatch state =
     \<lparr>ad_DispatchID = ''d'', ad_Namespace = ''default'', ad_Job = ''build'', ad_JobVersion = 0, ad_State = state, ad_Error = [],
      ad_Created = 0, ad_Ended = None, ad_Executions = []\<rparr>"

definition counting_http :: "nat Http" where
  "counting_http =
     \<lparr>http_New = (\<lambda>_. None),
      http_Do = (\<lambda>q n. (Inr \<lparr>hp_StatusCode = 200, hp_Status = [],
        hp_Body = (if 0 < n then dispatchRunning else dispatchSucceeded), hp_Broken = None\<rparr>, n))\<rparr>"

definition counting_cx :: "nat Cx \<Rightarrow> nat Cx" where
  "counting_cx cx = cx\<lparr>cx_interrupt := \<lambda>d n. (False, n - 1)\<rparr>"

definition counting_client :: "ClientJson \<Rightarrow> nat ApiClient" where
  "counting_client json =
     \<lparr>cl_base = \<lparr>bu_Text = DefaultAddress, bu_Path = [], bu_RawQuery = []\<rparr>, cl_http = counting_http,
      cl_json = json\<lparr>cj_Dispatch := \<lambda>body err. Inr (shown_dispatch body)\<rparr>\<rparr>"

definition sample_started :: DispatchResponse where
  "sample_started = \<lparr>dr_Namespace = ''default'', dr_Job = ''build'', dr_JobVersion = 0, dr_DispatchID = ''d''\<rparr>"

lemma counting_status:
  "run_state (Client_DispatchStatus (counting_client json) i) n =
     (Inr (shown_dispatch (if 0 < n then dispatchRunning else dispatchSucceeded)), n)"
  by (simp add: Client_DispatchStatus_def Client_do_def Client_send_def Let_def counting_client_def counting_http_def go_div_def)

theorem run_followed_witness:
  "\<forall>cx json. \<exists>t. run_state (Meta_follow 3 (counting_cx cx) (counting_client json) sample_started True)
    \<lparr>tm_net = 2, tm_lines = []\<rparr> = (Some ExitSuccess, t)"
proof (intro allI)
  fix cx :: "nat Cx" and json
  let ?s = "\<lparr>tm_net = 2, tm_lines = []\<rparr> :: nat Term"
  have "winding_down (\<lambda>n. n) (counting_cx cx) (counting_client json) (dr_DispatchID sample_started)"
    unfolding winding_down_def counting_status
    by (auto simp: shown_dispatch_def dispatchRunning_def dispatchSucceeded_def
      counting_cx_def counting_client_def counting_http_def)
  from run_followed [OF this, of ?s 3 True] obtain code t where
    "run_state (Meta_follow 3 (counting_cx cx) (counting_client json) sample_started True) ?s = (Some code, t)"
    by (auto simp del: counting_status)
  moreover have "fst (run_state (Meta_follow 3 (counting_cx cx) (counting_client json) sample_started True) ?s) = Some ExitSuccess"
    by (simp add: Meta_follow_def eval_nat_numeral counting_status new_follower_def shown_dispatch_def dispatchRunning_def
      dispatchSucceeded_def counting_cx_def follower_finished_def)
  ultimately show "\<exists>t. run_state (Meta_follow 3 (counting_cx cx) (counting_client json) sample_started True) ?s = (Some ExitSuccess, t)"
    by simp
qed

end
