(* ===== verification/Containerd.thy ===== *)
theory Containerd
  imports Plugin "HOL-Library.State_Monad"
begin

text \<open>
  \<^verbatim>\<open>internal/agent/executor\<close>: workloads as containers on a node's containerd.  The containerd client,
  the image reference parser, the clock and the files are the parameters of \<open>Client\<close>; each call is
  a function of the environment it may change.  The executor's own state is the set of watched
  workloads.  A path is the list of the elements the code joins.
\<close>

definition labelStarted :: string where [vocab]: "labelStarted = ''vagabond.started''"
definition labelTimeout :: string where [vocab]: "labelTimeout = ''vagabond.timeout''"
definition labelCancelled :: string where [vocab]: "labelCancelled = ''vagabond.cancelled''"
definition labelCPU :: string where [vocab]: "labelCPU = ''vagabond.cpu''"
definition labelMemory :: string where [vocab]: "labelMemory = ''vagabond.memory''"

definition maxTailBytes :: nat where "maxTailBytes = MaxStoredLogs"
definition DefaultRuntime :: string where [vocab]: "DefaultRuntime = ''io.containerd.runc.v2''"
definition ErrUnknown :: string where [vocab]: "ErrUnknown = ''no such workload''"

section \<open>The executor and its client\<close>

record Spec =
  sp_Image :: string
  sp_Command :: "string list"
  sp_Args :: "string list"
  sp_Env :: "(string \<times> string) list"
  sp_WorkingDir :: string
  sp_CPU :: int
  sp_Memory :: int
  sp_Timeout :: Duration
  sp_Runtime :: string

record Held =
  hd_ID :: string
  hd_CPU :: int
  hd_Memory :: int
  hd_Running :: bool

type_synonym path = "string list"
type_synonym Image = nat

datatype Container = Container (ctr_ID: string)
datatype ContainerTask = ContainerTask (tk_ID: string)

datatype SpecOpt =
    WithImageConfig Image
  | WithProcessArgs "string list"
  | WithImageConfigArgs Image "string list"
  | WithEnv "string list"
  | WithProcessCwd string
  | WithMemoryLimit int
  | WithCPUCFS int int
  | WithCgroup path
  | WithHostNetwork
  | WithHostResolvconf
  | WithHostHostsFile

record ContainerOpts =
  co_Snapshot :: Image
  co_Spec :: "SpecOpt list"
  co_Runtime :: string
  co_Labels :: "(string \<times> string) list"

datatype ProcessStatus = Created | Running | Stopped | OtherStatus string
datatype Signal = SIGTERM | SIGKILL

record TaskStatus =
  ts_Status :: ProcessStatus
  ts_ExitStatus :: int
  ts_ExitTime :: Time

type_synonym ('w, 'a) effect = "'w \<Rightarrow> 'a \<times> 'w"

record 'w Client =
  ct_ParseDockerRef :: "string \<Rightarrow> goerror + string"
  ct_Pull :: "string \<Rightarrow> ('w, goerror + Image) effect"
  ct_LoadContainer :: "string \<Rightarrow> ('w, goerror + Container) effect"
  ct_Containers :: "('w, goerror + Container list) effect"
  ct_NewContainer :: "string \<Rightarrow> ContainerOpts \<Rightarrow> ('w, goerror + Container) effect"
  ct_NewTask :: "Container \<Rightarrow> path \<Rightarrow> ('w, goerror + ContainerTask) effect"
  ct_Labels :: "Container \<Rightarrow> ('w, goerror + (string \<times> string) list) effect"
  ct_SetLabels :: "Container \<Rightarrow> (string \<times> string) list \<Rightarrow> ('w, goerror + unit) effect"
  ct_Task :: "Container \<Rightarrow> ('w, goerror + ContainerTask) effect"
  ct_Delete :: "Container \<Rightarrow> ('w, goerror + unit) effect"
  ct_Start :: "ContainerTask \<Rightarrow> ('w, goerror + unit) effect"
  ct_Status :: "ContainerTask \<Rightarrow> ('w, goerror + TaskStatus) effect"
  ct_Wait :: "ContainerTask \<Rightarrow> ('w, goerror + unit) effect"
  ct_Kill :: "ContainerTask \<Rightarrow> Signal \<Rightarrow> ('w, goerror + unit) effect"
  ct_DeleteTask :: "ContainerTask \<Rightarrow> ('w, goerror + unit) effect"
  ct_IsNotFound :: "goerror \<Rightarrow> bool"
  ct_ReadFile :: "path \<Rightarrow> ('w, goerror + string) effect"
  ct_Remove :: "path \<Rightarrow> ('w, goerror + unit) effect"
  ct_NotExist :: "goerror \<Rightarrow> bool"
  ct_now :: "('w, Time) effect"
  ct_FormatTime :: "Time \<Rightarrow> string"
  ct_ParseTime :: "string \<Rightarrow> Time option"
  ct_DataDir :: string
  ct_Cgroup :: string

record 'w ExecutorWorld =
  xw_watched :: "string set"
  xw_env :: 'w

type_synonym ('w, 'a) XM = "('w ExecutorWorld, 'a) state"

definition call :: "('w, 'a) effect \<Rightarrow> ('w, 'a) XM" where
  "call f = State (\<lambda>s. case f (xw_env s) of (r, w) \<Rightarrow> (r, s\<lparr>xw_env := w\<rparr>))"

text \<open>Go on with the value of a call, or return its error wrapped.\<close>

definition attempting ::
  "(goerror \<Rightarrow> goerror) \<Rightarrow> ('w, goerror + 'a) XM \<Rightarrow> ('a \<Rightarrow> ('w, goerror + 'b) XM) \<Rightarrow> ('w, goerror + 'b) XM" where
  "attempting wrap m k =
     do { r \<leftarrow> m; (case r of Inl err \<Rightarrow> State_Monad.return (Inl (wrap err)) | Inr v \<Rightarrow> k v) }"

definition wrapped :: "string \<Rightarrow> arg list \<Rightarrow> goerror \<Rightarrow> goerror" where
  "wrapped text args err = Formatted text args [err]"

definition Runtimes :: "string list" where "Runtimes = [DefaultRuntime]"

definition logPath :: "'w Client \<Rightarrow> string \<Rightarrow> path" where
  "logPath c i = [ct_DataDir c, ''logs'', i @ ''.log'']"

definition load :: "'w Client \<Rightarrow> string \<Rightarrow> ('w, goerror + Container \<times> ContainerTask option) XM" where
  "load c i =
     do {
       loaded \<leftarrow> call (ct_LoadContainer c i);
       (case loaded of
          Inl err \<Rightarrow> State_Monad.return (Inl
            (if ct_IsNotFound c err then Formatted ''%w: %s'' [S i] [Sentinel ErrUnknown]
             else wrapped ''loading %s: %w'' [S i] err))
        | Inr container \<Rightarrow> do {
            task \<leftarrow> call (ct_Task c container);
            State_Monad.return (case task of
              Inl err \<Rightarrow> if ct_IsNotFound c err then Inr (container, None)
                else Inl (wrapped ''loading the task of %s: %w'' [S i] err)
            | Inr t \<Rightarrow> Inr (container, Some t))
          })
     }"

section \<open>Running\<close>

definition specOpts :: "'w Client \<Rightarrow> string \<Rightarrow> Image \<Rightarrow> Spec \<Rightarrow> SpecOpt list" where
  "specOpts c i img spec =
     [WithImageConfig img] @
     (if sp_Command spec \<noteq> [] then [WithProcessArgs (sp_Command spec @ sp_Args spec)]
      else if sp_Args spec \<noteq> [] then [WithImageConfigArgs img (sp_Args spec)] else []) @
     (if sp_Env spec \<noteq> [] then [WithEnv (map (\<lambda>(k, v). k @ ''='' @ v) (sp_Env spec))] else []) @
     (if sp_WorkingDir spec \<noteq> [] then [WithProcessCwd (sp_WorkingDir spec)] else []) @
     (if 0 < sp_Memory spec then [WithMemoryLimit ((sp_Memory spec * 2 ^ 20) mod 2 ^ 64)] else []) @
     (if 0 < sp_CPU spec then [WithCPUCFS (wrap64 (sp_CPU spec * 100)) 100000] else []) @
     [WithCgroup [ct_Cgroup c, i], WithHostNetwork, WithHostResolvconf, WithHostHostsFile]"

text \<open>Whether a watcher was started; \<open>watcher\<close> is what it then runs.\<close>

definition watch :: "string \<Rightarrow> Duration \<Rightarrow> Time \<Rightarrow> ('w, bool) XM" where
  "watch i timeout started =
     (if timeout \<le> 0 \<or> Time_IsZero started then State_Monad.return False
      else State (\<lambda>s. if i \<in> xw_watched s then (False, s) else (True, s\<lparr>xw_watched := insert i (xw_watched s)\<rparr>)))"

definition submit_labels :: "Spec \<Rightarrow> (string \<times> string) list" where
  "submit_labels spec =
     [(labelTimeout, Duration_String (sp_Timeout spec)), (labelCPU, Itoa (sp_CPU spec)), (labelMemory, Itoa (sp_Memory spec))]"

text \<open>The steps of a submission, from the last one back.\<close>

definition start_task :: "'w Client \<Rightarrow> string \<Rightarrow> Spec \<Rightarrow> Container \<Rightarrow> ContainerTask \<Rightarrow> ('w, goerror + unit) XM" where
  "start_task c i spec container task =
     do {
       t \<leftarrow> call (ct_now c);
       attempting (wrapped ''labelling the container: %w'' [])
         (call (ct_SetLabels c container [(labelStarted, ct_FormatTime c t)])) (\<lambda>u.
       attempting (wrapped ''starting the task: %w'' []) (call (ct_Start c task)) (\<lambda>u. do {
         t \<leftarrow> call (ct_now c);
         watching \<leftarrow> watch i (sp_Timeout spec) t;
         State_Monad.return (Inr ())
       }))
     }"

definition create_task :: "'w Client \<Rightarrow> string \<Rightarrow> Spec \<Rightarrow> Container \<Rightarrow> ('w, goerror + unit) XM" where
  "create_task c i spec container =
     do {
       created \<leftarrow> call (ct_NewTask c container (logPath c i));
       (case created of
          Inl err \<Rightarrow> do {
            ignored \<leftarrow> call (ct_Delete c container);
            State_Monad.return (Inl (wrapped ''creating the task: %w'' [] err))
          }
        | Inr task \<Rightarrow> start_task c i spec container task)
     }"

definition container_opts :: "'w Client \<Rightarrow> string \<Rightarrow> Spec \<Rightarrow> Image \<Rightarrow> ContainerOpts" where
  "container_opts c i spec img =
     \<lparr>co_Snapshot = img, co_Spec = specOpts c i img spec,
      co_Runtime = (if sp_Runtime spec = [] then DefaultRuntime else sp_Runtime spec),
      co_Labels = submit_labels spec\<rparr>"

definition Executor_Submit :: "'w Client \<Rightarrow> string \<Rightarrow> Spec \<Rightarrow> ('w, goerror + unit) XM" where
  "Executor_Submit c i spec =
     do {
       loaded \<leftarrow> call (ct_LoadContainer c i);
       (case loaded of
          Inr container \<Rightarrow> State_Monad.return (Inr ())
        | Inl notLoaded \<Rightarrow>
            (case ct_ParseDockerRef c (sp_Image spec) of
               Inl err \<Rightarrow> State_Monad.return (Inl (wrapped ''image %q: %w'' [S (sp_Image spec)] err))
             | Inr ref \<Rightarrow>
                 attempting (wrapped ''pulling %s: %w'' [S ref]) (call (ct_Pull c ref)) (\<lambda>img.
                 attempting (wrapped ''creating the container: %w'' [])
                   (call (ct_NewContainer c i (container_opts c i spec img))) (create_task c i spec))))
     }"

text \<open>\<open>stop\<close> sends the first signal and leaves \<open>stop_after\<close>, run once the task exited or the grace ended.\<close>

definition stop :: "'w Client \<Rightarrow> ContainerTask \<Rightarrow> ('w, goerror + unit) XM" where
  "stop c task =
     attempting (wrapped ''waiting on the task: %w'' []) (call (ct_Wait c task)) (\<lambda>exited. do {
       killed \<leftarrow> call (ct_Kill c task SIGTERM);
       State_Monad.return (case killed of
         Inl err \<Rightarrow> if ct_IsNotFound c err then Inr () else Inl (wrapped ''stopping the task: %w'' [] err)
       | Inr u \<Rightarrow> Inr ())
     })"

definition stop_after :: "'w Client \<Rightarrow> ContainerTask \<Rightarrow> bool \<Rightarrow> ('w, unit) XM" where
  "stop_after c task exited =
     (if exited then State_Monad.return () else do { ignored \<leftarrow> call (ct_Kill c task SIGKILL); State_Monad.return () })"

text \<open>The watcher's run: \<open>exited\<close> says which of the task's exit and the timeout came first.\<close>

definition watcher :: "'w Client \<Rightarrow> string \<Rightarrow> bool \<Rightarrow> ('w, unit) XM" where
  "watcher c i exited =
     do {
       loaded \<leftarrow> load c i;
       (case loaded of
          Inr (container, Some task) \<Rightarrow> do {
            waiting \<leftarrow> call (ct_Wait c task);
            (case waiting of
               Inl err \<Rightarrow> State_Monad.return ()
             | Inr u \<Rightarrow> if exited then State_Monad.return () else do { ignored \<leftarrow> stop c task; State_Monad.return () })
          }
        | _ \<Rightarrow> State_Monad.return ());
       State (\<lambda>s. ((), s\<lparr>xw_watched := xw_watched s - {i}\<rparr>))
     }"

definition Executor_Cancel :: "'w Client \<Rightarrow> string \<Rightarrow> ('w, goerror + unit) XM" where
  "Executor_Cancel c i =
     attempting id (load c i) (\<lambda>(container, task).
       attempting (wrapped ''labelling the container: %w'' [])
         (call (ct_SetLabels c container [(labelCancelled, ''true'')])) (\<lambda>u.
           case task of None \<Rightarrow> State_Monad.return (Inr ()) | Some t \<Rightarrow> stop c t))"

text \<open>A deletion whose only failure that counts is one the test does not excuse.\<close>

definition unless_gone ::
  "(goerror \<Rightarrow> bool) \<Rightarrow> (goerror \<Rightarrow> goerror) \<Rightarrow> ('w, goerror + unit) XM \<Rightarrow> ('w, goerror + 'b) XM \<Rightarrow> ('w, goerror + 'b) XM" where
  "unless_gone excused wrap m k =
     do { r \<leftarrow> m;
       (case r of
          Inl err \<Rightarrow> if excused err then k else State_Monad.return (Inl (wrap err))
        | Inr u \<Rightarrow> k) }"

definition Executor_Release :: "'w Client \<Rightarrow> string \<Rightarrow> ('w, goerror + unit) XM" where
  "Executor_Release c i =
     do {
       loaded \<leftarrow> load c i;
       (case loaded of
          Inl err \<Rightarrow> State_Monad.return (if err_is ErrUnknown err then Inr () else Inl err)
        | Inr (container, task) \<Rightarrow>
            unless_gone (ct_IsNotFound c) (wrapped ''deleting the task: %w'' [])
              (case task of None \<Rightarrow> State_Monad.return (Inr ()) | Some t \<Rightarrow> call (ct_DeleteTask c t))
            (unless_gone (ct_IsNotFound c) (wrapped ''deleting the container: %w'' []) (call (ct_Delete c container))
            (unless_gone (ct_NotExist c) (wrapped ''removing the log: %w'' []) (call (ct_Remove c (logPath c i)))
            (State_Monad.return (Inr ())))))
     }"

section \<open>Reading\<close>

definition label :: "(string \<times> string) list \<Rightarrow> string \<Rightarrow> string" where
  "label labels name = (case map_of labels name of None \<Rightarrow> [] | Some v \<Rightarrow> v)"

definition terminal :: "int \<Rightarrow> bool \<Rightarrow> State" where
  "terminal exit cancelled = (if cancelled then StateCancelled else if exit = 0 then StateSucceeded else StateFailed)"

definition parsed_time :: "'w Client \<Rightarrow> string \<Rightarrow> Time" where
  "parsed_time c s = (case ct_ParseTime c s of None \<Rightarrow> 0 | Some t \<Rightarrow> t)"

definition Executor_Status :: "'w Client \<Rightarrow> string \<Rightarrow> ('w, goerror + Status) XM" where
  "Executor_Status c i =
     attempting id (load c i) (\<lambda>(container, task).
     attempting (wrapped ''reading labels: %w'' []) (call (ct_Labels c container)) (\<lambda>labels. do {
       t \<leftarrow> call (ct_now c);
       let out = \<lparr>st_ID = 0, st_State = StateAccepted, st_ProviderID = i,
         st_StartedAt = parsed_time c (label labels labelStarted), st_EndedAt = 0, st_UpdatedAt = t\<rparr>;
       (case task of
          None \<Rightarrow> State_Monad.return (Inr out)
        | Some task \<Rightarrow>
            attempting (wrapped ''reading the task: %w'' []) (call (ct_Status c task)) (\<lambda>status.
              State_Monad.return (Inr (case ts_Status status of
                Created \<Rightarrow> out\<lparr>st_State := StateAccepted\<rparr>
              | Stopped \<Rightarrow> out\<lparr>st_EndedAt := ts_ExitTime status,
                  st_State := terminal (ts_ExitStatus status) (label labels labelCancelled = ''true'')\<rparr>
              | _ \<Rightarrow> out\<lparr>st_State := StateRunning\<rparr>))))
     }))"

definition tail :: "'w Client \<Rightarrow> string \<Rightarrow> ('w, goerror + string \<times> bool) XM" where
  "tail c i =
     do {
       read \<leftarrow> call (ct_ReadFile c (logPath c i));
       State_Monad.return (case read of
         Inl err \<Rightarrow> if ct_NotExist c err then Inr ([], False) else Inl (wrapped ''reading the log of %s: %w'' [S i] err)
       | Inr data \<Rightarrow> if length data \<le> maxTailBytes then Inr (data, False)
           else Inr (drop (length data - maxTailBytes) data, True))
     }"

text \<open>\<open>None\<close> is the nil task the code would dereference.\<close>

definition Executor_Result :: "'w Client \<Rightarrow> string \<Rightarrow> ('w, (goerror + Result) option) XM" where
  "Executor_Result c i =
     do {
       status \<leftarrow> Executor_Status c i;
       (case status of
          Inl err \<Rightarrow> State_Monad.return (Some (Inl err))
        | Inr st1 \<Rightarrow>
            if \<not> State_Terminal (st_State st1)
            then State_Monad.return (Some (Inl (Formatted ''workload %s has not finished'' [S i] [])))
            else do {
              loaded \<leftarrow> load c i;
              (case loaded of
                 Inl err \<Rightarrow> State_Monad.return (Some (Inl err))
               | Inr (container, None) \<Rightarrow> State_Monad.return None
               | Inr (container, Some task) \<Rightarrow> do {
                   out \<leftarrow> attempting (wrapped ''reading the task: %w'' []) (call (ct_Status c task)) (\<lambda>exit.
                     attempting id (tail c i) (\<lambda>(logs, truncated).
                       State_Monad.return (Inr \<lparr>res_ID = 0, res_ExitCode = Some (ts_ExitStatus exit),
                         res_Duration = (if Time_IsZero (st_StartedAt st1) then 0
                           else Time_Sub (st_EndedAt st1) (st_StartedAt st1)),
                         res_Billed = None, res_Logs = logs, res_LogsTruncated = truncated\<rparr>)));
                   State_Monad.return (Some out)
                 })
            })
     }"

text \<open>The number \<open>strconv.ParseInt\<close> returns besides its error: zero, or the bound passed.\<close>

definition ParseInt_value :: "string \<Rightarrow> int" where
  "ParseInt_value s =
     (let neg = (s \<noteq> [] \<and> hd s = CHR ''-'');
          rest = (if s \<noteq> [] \<and> (hd s = CHR ''-'' \<or> hd s = CHR ''+'') then tl s else s)
      in if rest = [] then 0
         else case parse_digits 0 rest of
             None \<Rightarrow> 0
           | Some n \<Rightarrow> max (- MaxInt64 - 1) (min MaxInt64 (if neg then - int n else int n)))"

definition held_of :: "string \<Rightarrow> (string \<times> string) list \<Rightarrow> bool \<Rightarrow> Held" where
  "held_of i labels stopped =
     \<lparr>hd_ID = i, hd_CPU = ParseInt_value (label labels labelCPU),
      hd_Memory = ParseInt_value (label labels labelMemory), hd_Running = (\<not> stopped)\<rparr>"

definition is_stopped :: "'w Client \<Rightarrow> Container \<Rightarrow> ('w, bool) XM" where
  "is_stopped c container =
     do {
       task \<leftarrow> call (ct_Task c container);
       (case task of
          Inl err \<Rightarrow> State_Monad.return False
        | Inr t \<Rightarrow> do {
            status \<leftarrow> call (ct_Status c t);
            State_Monad.return (case status of Inl err \<Rightarrow> False | Inr st1 \<Rightarrow> ts_Status st1 = Stopped)
          })
     }"

fun Held_loop :: "'w Client \<Rightarrow> Container list \<Rightarrow> Held list \<Rightarrow> ('w, goerror + Held list) XM" where
  "Held_loop c [] held = State_Monad.return (Inr held)"
| "Held_loop c (container # containers) held =
     attempting (wrapped ''reading labels of %s: %w'' [S (ctr_ID container)]) (call (ct_Labels c container)) (\<lambda>labels. do {
       stopped \<leftarrow> is_stopped c container;
       Held_loop c containers (held @ [held_of (ctr_ID container) labels stopped])
     })"

definition Executor_Held :: "'w Client \<Rightarrow> ('w, goerror + Held list) XM" where
  "Executor_Held c =
     attempting (wrapped ''listing containers: %w'' []) (call (ct_Containers c)) (\<lambda>containers. Held_loop c containers [])"

fun Recover_loop :: "'w Client \<Rightarrow> Container list \<Rightarrow> ('w, unit) XM" where
  "Recover_loop c [] = State_Monad.return ()"
| "Recover_loop c (container # containers) =
     do {
       read \<leftarrow> call (ct_Labels c container);
       (case read of
          Inl err \<Rightarrow> State_Monad.return ()
        | Inr labels \<Rightarrow> do {
            watching \<leftarrow> watch (ctr_ID container)
              (case ParseDuration (label labels labelTimeout) of None \<Rightarrow> 0 | Some d \<Rightarrow> d)
              (parsed_time c (label labels labelStarted));
            State_Monad.return ()
          });
       Recover_loop c containers
     }"

definition Executor_Recover :: "'w Client \<Rightarrow> ('w, goerror + unit) XM" where
  "Executor_Recover c =
     attempting (wrapped ''listing containers: %w'' []) (call (ct_Containers c)) (\<lambda>containers. do {
       Recover_loop c containers;
       State_Monad.return (Inr ())
     })"

section \<open>What containerd promises\<close>

text \<open>
  \<open>view\<close> reads the containers off the environment: the labels of each, and where its task stands.
  The laws are what the client's documentation says of one call, none other running meanwhile.
\<close>

type_synonym containers = "string \<rightharpoonup> (string \<rightharpoonup> string) \<times> ProcessStatus option"

definition reads :: "('w \<Rightarrow> containers) \<Rightarrow> ('w, 'a) effect \<Rightarrow> ('a \<Rightarrow> containers \<Rightarrow> bool) \<Rightarrow> bool" where
  "reads view f P \<longleftrightarrow> (\<forall>w. view (snd (f w)) = view w \<and> P (fst (f w)) (view w))"

definition changes ::
  "('w \<Rightarrow> containers) \<Rightarrow> ('w, goerror + 'a) effect \<Rightarrow> ('a \<Rightarrow> containers \<Rightarrow> containers \<Rightarrow> bool) \<Rightarrow> bool" where
  "changes view f P \<longleftrightarrow>
     (\<forall>w. case fst (f w) of Inl err \<Rightarrow> view (snd (f w)) = view w | Inr v \<Rightarrow> P v (view w) (view (snd (f w))))"

definition with_task :: "ProcessStatus option \<Rightarrow> string \<Rightarrow> containers \<Rightarrow> containers" where
  "with_task st i v = v(i := map_option (\<lambda>(labels, old). (labels, st)) (v i))"

definition lawful :: "'w Client \<Rightarrow> ('w \<Rightarrow> containers) \<Rightarrow> bool" where
  "lawful c view \<longleftrightarrow>
     (\<forall>ref. reads view (ct_Pull c ref) (\<lambda>r v. True)) \<and> reads view (ct_now c) (\<lambda>r v. True) \<and>
     (\<forall>i. reads view (ct_LoadContainer c i) (\<lambda>r v. \<forall>k. r = Inr k \<longrightarrow> ctr_ID k = i \<and> v i \<noteq> None)) \<and>
     reads view (ct_Containers c) (\<lambda>r v. \<forall>ks. r = Inr ks \<longrightarrow> distinct (map ctr_ID ks) \<and> ctr_ID ` set ks = dom v) \<and>
     (\<forall>k. reads view (ct_Labels c k) (\<lambda>r v. \<forall>ls. r = Inr ls \<longrightarrow> (\<exists>st. v (ctr_ID k) = Some (map_of ls, st)))) \<and>
     (\<forall>k. reads view (ct_Task c k) (\<lambda>r v. \<forall>t. r = Inr t \<longrightarrow> tk_ID t = ctr_ID k)) \<and>
     (\<forall>t. reads view (ct_Status c t) (\<lambda>r v. \<forall>st. r = Inr st \<longrightarrow> (\<exists>ls. v (tk_ID t) = Some (ls, Some (ts_Status st))))) \<and>
     (\<forall>i opts. changes view (ct_NewContainer c i opts) (\<lambda>k v v'. ctr_ID k = i \<and> v i = None \<and>
        v' = v(i \<mapsto> (map_of (co_Labels opts), None)))) \<and>
     (\<forall>k path. changes view (ct_NewTask c k path) (\<lambda>t v v'. tk_ID t = ctr_ID k \<and> v' = with_task (Some Created) (ctr_ID k) v)) \<and>
     (\<forall>k ls. changes view (ct_SetLabels c k ls) (\<lambda>u v v'.
        v' = v(ctr_ID k := map_option (\<lambda>(labels, st). (labels ++ map_of ls, st)) (v (ctr_ID k))))) \<and>
     (\<forall>k. changes view (ct_Delete c k) (\<lambda>u v v'. v' = v(ctr_ID k := None))) \<and>
     (\<forall>t. changes view (ct_Start c t) (\<lambda>u v v'. v' = with_task (Some Running) (tk_ID t) v))"

lemma readsD: "reads view f P \<Longrightarrow> f w = (r, w') \<Longrightarrow> view w' = view w \<and> P r (view w)"
  unfolding reads_def by (metis fst_conv snd_conv)

lemma changesD: "changes view f P \<Longrightarrow> f w = (r, w') \<Longrightarrow>
  (\<forall>err. r = Inl err \<longrightarrow> view w' = view w) \<and> (\<forall>v. r = Inr v \<longrightarrow> P v (view w) (view w'))"
  unfolding changes_def by (drule spec [of _ w]) (auto split: sum.splits)

lemma lawful_reads:
  assumes "lawful c view"
  shows "reads view (ct_Pull c ref) (\<lambda>r v. True)" "reads view (ct_now c) (\<lambda>r v. True)"
    "reads view (ct_LoadContainer c i) (\<lambda>r v. \<forall>k. r = Inr k \<longrightarrow> ctr_ID k = i \<and> v i \<noteq> None)"
    "reads view (ct_Containers c) (\<lambda>r v. \<forall>ks. r = Inr ks \<longrightarrow> distinct (map ctr_ID ks) \<and> ctr_ID ` set ks = dom v)"
    "reads view (ct_Labels c k) (\<lambda>r v. \<forall>ls. r = Inr ls \<longrightarrow> (\<exists>st. v (ctr_ID k) = Some (map_of ls, st)))"
    "reads view (ct_Task c k) (\<lambda>r v. \<forall>t. r = Inr t \<longrightarrow> tk_ID t = ctr_ID k)"
    "reads view (ct_Status c t) (\<lambda>r v. \<forall>st. r = Inr st \<longrightarrow> (\<exists>ls. v (tk_ID t) = Some (ls, Some (ts_Status st))))"
  using assms unfolding lawful_def by blast+

lemma lawful_changes:
  assumes "lawful c view"
  shows "changes view (ct_NewContainer c i opts) (\<lambda>k v v'. ctr_ID k = i \<and> v i = None \<and> v' = v(i \<mapsto> (map_of (co_Labels opts), None)))"
    "changes view (ct_NewTask c k path) (\<lambda>t v v'. tk_ID t = ctr_ID k \<and> v' = with_task (Some Created) (ctr_ID k) v)"
    "changes view (ct_SetLabels c k ls) (\<lambda>u v v'.
        v' = v(ctr_ID k := map_option (\<lambda>(labels, st). (labels ++ map_of ls, st)) (v (ctr_ID k))))"
    "changes view (ct_Delete c k) (\<lambda>u v v'. v' = v(ctr_ID k := None))"
    "changes view (ct_Start c t) (\<lambda>u v v'. v' = with_task (Some Running) (tk_ID t) v)"
  using assms unfolding lawful_def by blast+

lemma call_run: "run_state (call f) s = (case f (xw_env s) of (r, w) \<Rightarrow> (r, s\<lparr>xw_env := w\<rparr>))"
  by (simp add: call_def)

lemma attempting_run:
  "run_state (attempting wrap m k) s =
     (case run_state m s of (Inl err, s') \<Rightarrow> (Inl (wrap err), s') | (Inr v, s') \<Rightarrow> run_state (k v) s')"
  by (simp add: attempting_def State_Monad.bind_def State_Monad.return_def split: prod.split sum.split)

lemma watch_env [simp]: "xw_env (snd (run_state (watch i timeout started) s)) = xw_env s"
  by (simp add: watch_def State_Monad.return_def)

section \<open>What a submission leaves behind\<close>

text \<open>A container that carries what \<open>spec\<close> declared, and whose task has not stopped.\<close>

definition carries :: "Spec \<Rightarrow> (string \<rightharpoonup> string) \<times> ProcessStatus option \<Rightarrow> bool" where
  "carries spec entry \<longleftrightarrow>
     fst entry labelCPU = Some (Itoa (sp_CPU spec)) \<and> fst entry labelMemory = Some (Itoa (sp_Memory spec)) \<and>
     fst entry labelTimeout = Some (Duration_String (sp_Timeout spec)) \<and> snd entry \<noteq> Some Stopped"

definition submitted :: "string \<Rightarrow> Spec \<Rightarrow> goerror + unit \<Rightarrow> containers \<Rightarrow> containers \<Rightarrow> bool" where
  "submitted i spec out v v' \<longleftrightarrow>
     (case out of
        Inr u \<Rightarrow> if v i = None then \<exists>labels. v' = v(i \<mapsto> (labels, Some Running)) \<and> carries spec (labels, Some Running)
          else v' = v
      | Inl err \<Rightarrow> v' = v \<or> (v i = None \<and> (\<exists>entry. v' = v(i \<mapsto> entry) \<and> carries spec entry)))"

lemma carries_labels:
  "carries spec (map_of (submit_labels spec), st) \<longleftrightarrow> st \<noteq> Some Stopped"
  "carries spec ((map_of (submit_labels spec))(labelStarted \<mapsto> t), st) \<longleftrightarrow> st \<noteq> Some Stopped"
  by (simp_all add: carries_def submit_labels_def vocab)

lemma submittedI:
  "submitted i spec (Inl err) v v"
  "v i = None \<Longrightarrow> v' = v(i \<mapsto> entry) \<Longrightarrow> carries spec entry \<Longrightarrow> submitted i spec (Inl err) v v'"
  "v i = None \<Longrightarrow> v' = v(i \<mapsto> (labels, Some Running)) \<Longrightarrow> carries spec (labels, Some Running) \<Longrightarrow> submitted i spec (Inr u) v v'"
  by (simp_all add: submitted_def del: split_paired_Ex) blast+

lemma start_task_submitted:
  assumes "lawful c view" "view (xw_env s) = v(i \<mapsto> (map_of (submit_labels spec), Some Created))"
    and "tk_ID task = i" "ctr_ID container = i" "v i = None"
    and "run_state (start_task c i spec container task) s = (out, s')"
  shows "submitted i spec out v (view (xw_env s'))"
proof -
  obtain t0 w0 where n0: "ct_now c (xw_env s) = (t0, w0)" by fastforce
  let ?started = "ct_FormatTime c t0"
  obtain r1 w1 where l: "ct_SetLabels c container [(labelStarted, ?started)] w0 = (r1, w1)" by fastforce
  obtain r2 w2 where st: "ct_Start c task w1 = (r2, w2)" by fastforce
  obtain t w3 where n: "ct_now c w2 = (t, w3)" by fastforce
  note laws = changesD [OF lawful_changes(3) [OF assms(1)] l] changesD [OF lawful_changes(5) [OF assms(1)] st]
    readsD [OF lawful_reads(2) [OF assms(1)] n] readsD [OF lawful_reads(2) [OF assms(1)] n0]
  note run = assms(6) [unfolded start_task_def] n0 l st n
  show ?thesis
  proof (cases r1)
    case (Inl e)
    with run have "out = Inl (wrapped ''labelling the container: %w'' [] e)" "xw_env s' = w1"
      by (auto simp: attempting_run call_run)
    with Inl laws(1,4) assms(2,5) show ?thesis by (auto intro!: submittedI(2) simp: carries_labels)
  next
    case (Inr u)
    then have v1: "view w1 = v(i \<mapsto> ((map_of (submit_labels spec))(labelStarted \<mapsto> ?started), Some Created))"
      using laws(1,4) assms(2,4) by (auto simp: fun_eq_iff)
    show ?thesis
    proof (cases r2)
      case (Inl e)
      with run Inr have "out = Inl (wrapped ''starting the task: %w'' [] e)" "xw_env s' = w2"
        by (auto simp: attempting_run call_run)
      with Inl laws(2) v1 assms(5) show ?thesis by (auto intro!: submittedI(2) simp: carries_labels)
    next
      case ok: (Inr u2)
      then have v2: "view w2 = v(i \<mapsto> ((map_of (submit_labels spec))(labelStarted \<mapsto> ?started), Some Running))"
        using laws(2) assms(3) v1 by (auto simp: with_task_def)
      have "out = Inr () \<and> xw_env s' = w3"
        using run Inr ok
        by (auto simp: attempting_run call_run State_Monad.bind_def State_Monad.return_def split: prod.splits)
          (metis select_convs(2) snd_conv surjective update_convs(2) watch_env)
      with laws(3) v2 assms(5) show ?thesis by (auto intro!: submittedI(3) simp: carries_labels)
    qed
  qed
qed

lemma create_task_submitted:
  assumes "lawful c view" "view (xw_env s) = v(i \<mapsto> (map_of (submit_labels spec), None))" "ctr_ID container = i" "v i = None"
    and "run_state (create_task c i spec container) s = (out, s')"
  shows "submitted i spec out v (view (xw_env s'))"
proof -
  obtain created w1 where t: "ct_NewTask c container (logPath c i) (xw_env s) = (created, w1)" by fastforce
  note v1 = changesD [OF lawful_changes(2) [OF assms(1)] t]
  show ?thesis
  proof (cases created)
    case bad: (Inl err)
    obtain ignored w2 where d: "ct_Delete c container w1 = (ignored, w2)" by fastforce
    have out: "out = Inl (wrapped ''creating the task: %w'' [] err)" "xw_env s' = w2"
      using assms(5) t bad d by (auto simp: create_task_def call_run State_Monad.bind_def State_Monad.return_def)
    have "view w2 = v \<or> view w2 = v(i \<mapsto> (map_of (submit_labels spec), None))"
      using changesD [OF lawful_changes(4) [OF assms(1)] d] assms(2-4) v1 bad by (cases ignored) (auto simp: fun_eq_iff)
    moreover have "submitted i spec out v (v(i \<mapsto> (map_of (submit_labels spec), None)))"
      unfolding out using assms(4)
      by (intro submittedI(2) [where entry = "(map_of (submit_labels spec), None)"]) (simp_all add: carries_labels)
    ultimately show ?thesis by (auto simp: out submittedI(1))
  next
    case task: (Inr task)
    then have "tk_ID task = i" "view w1 = v(i \<mapsto> (map_of (submit_labels spec), Some Created))"
      using v1 assms(2,3) by (auto simp: with_task_def)
    moreover have "run_state (start_task c i spec container task) (s\<lparr>xw_env := w1\<rparr>) = (out, s')"
      using assms(5) t task by (simp add: create_task_def call_run State_Monad.bind_def)
    ultimately show ?thesis using assms(3,4)
      by (intro start_task_submitted [OF assms(1), where s = "s\<lparr>xw_env := w1\<rparr>" and task = task and container = container]) simp_all
  qed
qed

lemma Executor_Submit_submitted:
  assumes "lawful c view" "run_state (Executor_Submit c i spec) s = (out, s')"
  shows "submitted i spec out (view (xw_env s)) (view (xw_env s'))"
proof -
  obtain loaded w1 where l: "ct_LoadContainer c i (xw_env s) = (loaded, w1)" by fastforce
  note v1 = readsD [OF lawful_reads(3) [OF assms(1)] l]
  note run = assms(2) [unfolded Executor_Submit_def] l
  show ?thesis
  proof (cases "\<exists>k. loaded = Inr k \<or> (\<exists>err. ct_ParseDockerRef c (sp_Image spec) = Inl err)")
    case True
    then have "xw_env s' = w1 \<and> (case out of Inl err \<Rightarrow> True | Inr u \<Rightarrow> view (xw_env s) i \<noteq> None)"
      using run v1 by (auto simp: call_run State_Monad.bind_def State_Monad.return_def split: sum.splits)
    with v1 show ?thesis by (auto simp: submitted_def split: sum.splits)
  next
    case False
    then obtain notLoaded ref where ref: "loaded = Inl notLoaded" "ct_ParseDockerRef c (sp_Image spec) = Inr ref"
      by (metis sumE)
    obtain pulled w2 where p: "ct_Pull c ref w1 = (pulled, w2)" by fastforce
    note v2 = readsD [OF lawful_reads(1) [OF assms(1)] p]
    note go = call_run attempting_run State_Monad.bind_def State_Monad.return_def
    show ?thesis
    proof (cases pulled)
      case (Inl err)
      with run ref p have "out = Inl (wrapped ''pulling %s: %w'' [S ref] err)" "xw_env s' = w2" by (auto simp: go)
      with v1 v2 show ?thesis by (auto intro!: submittedI(1))
    next
      case img: (Inr img)
      obtain made w3 where m: "ct_NewContainer c i (container_opts c i spec img) w2 = (made, w3)" by fastforce
      note v3 = changesD [OF lawful_changes(1) [OF assms(1)] m]
      show ?thesis
      proof (cases made)
        case (Inl err)
        with run ref p img m have "out = Inl (wrapped ''creating the container: %w'' [] err)" "xw_env s' = w3" by (auto simp: go)
        with v1 v2 v3 Inl show ?thesis by (auto intro!: submittedI(1))
      next
        case (Inr container)
        with v1 v2 v3 have "ctr_ID container = i" "view (xw_env s) i = None"
          "view w3 = (view (xw_env s))(i \<mapsto> (map_of (submit_labels spec), None))"
          by (auto simp: container_opts_def)
        moreover have "run_state (create_task c i spec container) (s\<lparr>xw_env := w3\<rparr>) = (out, s')"
          using run ref p img m Inr by (simp add: go)
        ultimately show ?thesis using create_task_submitted [OF assms(1), of "s\<lparr>xw_env := w3\<rparr>"] by simp
      qed
    qed
  qed
qed

section \<open>What is held\<close>

text \<open>A held workload agrees with its container: it is the size its labels say, and if it does not count as
  running its task has stopped.\<close>

definition agrees :: "containers \<Rightarrow> Held \<Rightarrow> bool" where
  "agrees v h \<longleftrightarrow>
     (\<exists>labels st. v (hd_ID h) = Some (labels, st) \<and>
       hd_CPU h = ParseInt_value (case labels labelCPU of None \<Rightarrow> [] | Some x \<Rightarrow> x) \<and>
       hd_Memory h = ParseInt_value (case labels labelMemory of None \<Rightarrow> [] | Some x \<Rightarrow> x) \<and>
       (\<not> hd_Running h \<longrightarrow> st = Some Stopped))"

lemma is_stopped_view:
  assumes "lawful c view" "run_state (is_stopped c k) s = (stopped, s')"
  shows "view (xw_env s') = view (xw_env s) \<and>
    (stopped \<longrightarrow> (\<exists>ls. view (xw_env s) (ctr_ID k) = Some (ls, Some Stopped)))"
proof -
  obtain task w1 where t: "ct_Task c k (xw_env s) = (task, w1)" by fastforce
  note v1 = readsD [OF lawful_reads(6) [OF assms(1)] t]
  show ?thesis
  proof (cases task)
    case (Inl err)
    with assms(2) t v1 show ?thesis
      by (auto simp: is_stopped_def call_run State_Monad.bind_def State_Monad.return_def)
  next
    case (Inr tk)
    obtain status w2 where st: "ct_Status c tk w1 = (status, w2)" by fastforce
    from readsD [OF lawful_reads(7) [OF assms(1)] st] assms(2) t Inr st v1 show ?thesis
      by (auto simp: is_stopped_def call_run State_Monad.bind_def State_Monad.return_def split: sum.splits)
  qed
qed

lemma Held_loop_agrees:
  assumes "lawful c view"
  shows "run_state (Held_loop c ks acc) s = (Inr out, s') \<Longrightarrow> \<forall>h \<in> set acc. agrees (view (xw_env s)) h \<Longrightarrow>
    view (xw_env s') = view (xw_env s) \<and> map hd_ID out = map hd_ID acc @ map ctr_ID ks \<and>
    (\<forall>h \<in> set out. agrees (view (xw_env s)) h)"
proof (induction ks arbitrary: acc s)
  case Nil
  then show ?case by (simp add: State_Monad.return_def)
next
  case (Cons k ks)
  obtain read w1 where l: "ct_Labels c k (xw_env s) = (read, w1)" by fastforce
  note v1 = readsD [OF lawful_reads(5) [OF assms] l]
  obtain labels where read: "read = Inr labels"
    using Cons.prems(1) l by (cases read) (auto simp: attempting_run call_run)
  obtain stopped s2 where st: "run_state (is_stopped c k) (s\<lparr>xw_env := w1\<rparr>) = (stopped, s2)" by fastforce
  note v2 = is_stopped_view [OF assms st]
  have run: "run_state (Held_loop c ks (acc @ [held_of (ctr_ID k) labels stopped])) s2 = (Inr out, s')"
    using Cons.prems(1) l read st by (simp add: attempting_run call_run State_Monad.bind_def)
  have "agrees (view (xw_env s)) (held_of (ctr_ID k) labels stopped)"
    using v1 v2 read by (auto simp: agrees_def held_of_def label_def)
  then have "\<forall>h \<in> set (acc @ [held_of (ctr_ID k) labels stopped]). agrees (view (xw_env s2)) h"
    using Cons.prems(2) v1 v2 by simp
  from Cons.IH [OF run this] v1 v2 show ?case by (simp add: held_of_def)
qed

lemma Executor_Held_agrees:
  assumes "lawful c view" "run_state (Executor_Held c) s = (Inr out, s')"
  shows "distinct (map hd_ID out) \<and> hd_ID ` set out = dom (view (xw_env s)) \<and> (\<forall>h \<in> set out. agrees (view (xw_env s)) h)"
proof -
  obtain listed w1 where l: "ct_Containers c (xw_env s) = (listed, w1)" by fastforce
  note v1 = readsD [OF lawful_reads(4) [OF assms(1)] l]
  obtain ks where ks: "listed = Inr ks"
    using assms(2) l by (cases listed) (auto simp: Executor_Held_def attempting_run call_run)
  then have "run_state (Held_loop c ks []) (s\<lparr>xw_env := w1\<rparr>) = (Inr out, s')"
    using assms(2) l by (simp add: Executor_Held_def attempting_run call_run)
  from Held_loop_agrees [OF assms(1) this] have out: "map hd_ID out = map ctr_ID ks" "\<forall>h \<in> set out. agrees (view w1) h"
    by simp_all
  then have "hd_ID ` set out = ctr_ID ` set ks" by (metis list.set_map)
  with out v1 ks show ?thesis by simp
qed

lemma show_nat_unsigned: "hd (show_nat n) \<noteq> CHR ''-''" "hd (show_nat n) \<noteq> CHR ''+''"
  using show_nat_hd [of n] not_digit by metis+

lemma ParseInt_value_Itoa: "int64 n \<Longrightarrow> ParseInt_value (Itoa n) = n"
  using show_nat_unsigned [of "nat n"] show_nat_hd [of "nat n"] parse_show_nat [of "nat n"] parse_show_nat [of "nat (- n)"]
  by (auto simp: ParseInt_value_def Itoa_def int64_def MaxInt64_def Let_def)

section \<open>Properties\<close>

text \<open>Room is accounted for from the moment a workload is created: after a submission of a new workload
  the executor holds it once at the size it declared and as running if it succeeded, and if it failed
  it either holds nothing new or the workload at its declared size; everything else it held is unchanged.\<close>

theorem submitted_size_held:
  assumes "lawful c view" "run_state (Executor_Submit c i spec) s = (out, s1)" "view (xw_env s) i = None"
    and "int64 (sp_CPU spec)" "int64 (sp_Memory spec)"
    and "run_state (Executor_Held c) s1 = (Inr held, s2)"
  shows "distinct (map hd_ID held) \<and>
    (\<forall>h \<in> set held. hd_ID h = i \<longrightarrow> hd_CPU h = sp_CPU spec \<and> hd_Memory h = sp_Memory spec \<and> hd_Running h) \<and>
    (out = Inr () \<longrightarrow> i \<in> hd_ID ` set held) \<and>
    hd_ID ` set held - {i} = dom (view (xw_env s)) \<and> (\<forall>h \<in> set held. hd_ID h \<noteq> i \<longrightarrow> agrees (view (xw_env s)) h)"
proof -
  let ?v = "view (xw_env s)" and ?v' = "view (xw_env s1)"
  note held = Executor_Held_agrees [OF assms(1,6)]
  have v': "?v' = ?v \<and> out \<noteq> Inr () \<or> (\<exists>entry. ?v' = ?v(i \<mapsto> entry) \<and> carries spec entry)"
    using Executor_Submit_submitted [OF assms(1,2)] assms(3)
    by (auto simp: submitted_def split: sum.splits)
  have "hd_CPU h = sp_CPU spec \<and> hd_Memory h = sp_Memory spec \<and> hd_Running h" if "h \<in> set held" "hd_ID h = i" for h
  proof -
    have a: "agrees ?v' h" using held that(1) by blast
    from v' show ?thesis
      using a that(2) assms(3-5) by (auto simp: agrees_def carries_def ParseInt_value_Itoa)
  qed
  moreover have "agrees ?v h" if "h \<in> set held" "hd_ID h \<noteq> i" for h
  proof -
    have "agrees ?v' h" using held that(1) by blast
    moreover have "?v' (hd_ID h) = ?v (hd_ID h)" using v' that(2) by auto
    ultimately show ?thesis by (simp add: agrees_def)
  qed
  moreover have "dom ?v' - {i} = dom ?v" "out = Inr () \<longrightarrow> i \<in> dom ?v'" using v' assms(3) by auto
  ultimately show ?thesis using held by auto
qed

text \<open>A containerd with room for one container, \<open>''e''\<close>.\<close>

type_synonym slot = "((string \<times> string) list \<times> ProcessStatus option) option"

definition slot_view :: "slot \<Rightarrow> containers" where
  "slot_view w i = (if i = ''e'' then map_option (\<lambda>(ls, st). (map_of ls, st)) w else None)"

abbreviation refused :: "slot \<Rightarrow> (goerror + 'a) \<times> slot" where
  "refused w \<equiv> (Inl (Sentinel ''refused''), w)"

definition sample_client :: "slot Client" where
  "sample_client =
     \<lparr>ct_ParseDockerRef = Inr, ct_Pull = (\<lambda>ref w. (Inr 1, w)),
      ct_LoadContainer = (\<lambda>i w. if i = ''e'' \<and> w \<noteq> None then (Inr (Container ''e''), w) else refused w),
      ct_Containers = (\<lambda>w. (Inr (if w = None then [] else [Container ''e'']), w)),
      ct_NewContainer = (\<lambda>i opts w. if i = ''e'' \<and> w = None then (Inr (Container ''e''), Some (co_Labels opts, None)) else refused w),
      ct_NewTask = (\<lambda>k path w. case w of Some (ls, st) \<Rightarrow> if ctr_ID k = ''e''
        then (Inr (ContainerTask ''e''), Some (ls, Some Created)) else refused w | None \<Rightarrow> refused w),
      ct_Labels = (\<lambda>k w. case w of Some (ls, st) \<Rightarrow> if ctr_ID k = ''e'' then (Inr ls, w) else refused w | None \<Rightarrow> refused w),
      ct_SetLabels = (\<lambda>k new w. case w of Some (ls, st) \<Rightarrow> if ctr_ID k = ''e'' then (Inr (), Some (new @ ls, st)) else refused w
        | None \<Rightarrow> refused w),
      ct_Task = (\<lambda>k w. case w of Some (ls, Some st) \<Rightarrow> (Inr (ContainerTask (ctr_ID k)), w) | _ \<Rightarrow> refused w),
      ct_Delete = (\<lambda>k w. if ctr_ID k = ''e'' then (Inr (), None) else refused w),
      ct_Start = (\<lambda>t w. case w of Some (ls, st) \<Rightarrow> if tk_ID t = ''e'' then (Inr (), Some (ls, Some Running)) else refused w
        | None \<Rightarrow> refused w),
      ct_Status = (\<lambda>t w. case w of Some (ls, Some st) \<Rightarrow> if tk_ID t = ''e''
        then (Inr \<lparr>ts_Status = st, ts_ExitStatus = 0, ts_ExitTime = 0\<rparr>, w) else refused w | _ \<Rightarrow> refused w),
      ct_Wait = (\<lambda>t w. (Inr (), w)), ct_Kill = (\<lambda>t s w. (Inr (), w)), ct_DeleteTask = (\<lambda>t w. (Inr (), w)),
      ct_IsNotFound = (\<lambda>e. True), ct_ReadFile = (\<lambda>p w. (Inr [], w)), ct_Remove = (\<lambda>p w. (Inr (), w)),
      ct_NotExist = (\<lambda>e. True), ct_now = (\<lambda>w. (7, w)), ct_FormatTime = (\<lambda>t. ''7''), ct_ParseTime = (\<lambda>s. Some 7),
      ct_DataDir = ''data'', ct_Cgroup = ''pods''\<rparr>"

lemma sample_client_lawful: "lawful sample_client slot_view"
  unfolding lawful_def
  by (intro conjI)
    (auto simp: reads_def changes_def sample_client_def slot_view_def with_task_def dom_def
      intro!: ext split: option.splits prod.splits if_splits)

definition sample_container_spec :: Spec where
  "sample_container_spec = \<lparr>sp_Image = ''alpine'', sp_Command = [], sp_Args = [], sp_Env = [], sp_WorkingDir = [],
     sp_CPU = 500, sp_Memory = 128, sp_Timeout = 90 * Second, sp_Runtime = []\<rparr>"

definition sample_node_world :: "slot ExecutorWorld" where
  "sample_node_world = \<lparr>xw_watched = {}, xw_env = None\<rparr>"

lemmas container_run = Executor_Submit_def create_task_def start_task_def container_opts_def watch_def Executor_Held_def
  is_stopped_def call_run attempting_run State_Monad.bind_def State_Monad.return_def sample_client_def sample_node_world_def

lemma container_submit:
  "fst (run_state (Executor_Submit sample_client ''e'' sample_container_spec) sample_node_world) = Inr ()"
  "case fst (run_state (Executor_Held sample_client)
      (snd (run_state (Executor_Submit sample_client ''e'' sample_container_spec) sample_node_world))) of
     Inr held \<Rightarrow> map hd_ID held = [''e''] | Inl err \<Rightarrow> False"
  by (simp_all add: container_run held_of_def)

theorem submitted_size_held_witness:
  "\<exists>held s2. run_state (Executor_Held sample_client)
      (snd (run_state (Executor_Submit sample_client ''e'' sample_container_spec) sample_node_world)) = (Inr held, s2) \<and>
    (\<forall>h \<in> set held. hd_ID h = ''e'' \<and> hd_CPU h = 500 \<and> hd_Memory h = 128 \<and> hd_Running h)"
proof -
  let ?s1 = "snd (run_state (Executor_Submit sample_client ''e'' sample_container_spec) sample_node_world)"
  obtain held s2 where held: "run_state (Executor_Held sample_client) ?s1 = (Inr held, s2)" "map hd_ID held = [''e'']"
    using container_submit(2) by (cases "run_state (Executor_Held sample_client) ?s1") (auto split: sum.splits)
  then have only: "\<forall>h \<in> set held. hd_ID h = ''e''" by auto
  have sub: "run_state (Executor_Submit sample_client ''e'' sample_container_spec) sample_node_world = (Inr (), ?s1)"
    using container_submit(1) by (metis prod.collapse)
  have "slot_view (xw_env sample_node_world) ''e'' = None" by (simp add: slot_view_def sample_node_world_def)
  from submitted_size_held [OF sample_client_lawful sub this _ _ held(1)] held(1) only show ?thesis
    by (intro exI [of _ held] exI [of _ s2]) (simp add: int64_def sample_container_spec_def)
qed

text \<open>A submission whose task could not start leaves its container behind: asking again reports success
  without starting anything, and the node keeps counting the workload as running.\<close>

theorem failed_start_counted_running:
  "\<exists>err s1 s2 held s3. run_state (Executor_Submit (sample_client\<lparr>ct_Start := \<lambda>t. refused\<rparr>) ''e'' sample_container_spec)
      sample_node_world = (Inl err, s1) \<and>
    run_state (Executor_Submit (sample_client\<lparr>ct_Start := \<lambda>t. refused\<rparr>) ''e'' sample_container_spec) s1 = (Inr (), s2) \<and>
    run_state (Executor_Held (sample_client\<lparr>ct_Start := \<lambda>t. refused\<rparr>)) s2 = (Inr held, s3) \<and>
    map hd_ID held = [''e''] \<and> list_all hd_Running held"
proof -
  let ?c = "sample_client\<lparr>ct_Start := \<lambda>t. refused\<rparr>"
  let ?first = "run_state (Executor_Submit ?c ''e'' sample_container_spec) sample_node_world"
  let ?again = "run_state (Executor_Submit ?c ''e'' sample_container_spec) (snd ?first)"
  have "case fst ?first of Inr u \<Rightarrow> False | Inl err \<Rightarrow> True" "fst ?again = Inr ()"
    "case fst (run_state (Executor_Held ?c) (snd ?again)) of
       Inr held \<Rightarrow> map hd_ID held = [''e''] \<and> list_all hd_Running held | Inl err \<Rightarrow> False"
    by (simp_all add: container_run held_of_def)
  then show ?thesis by (auto simp: prod_eq_iff split: sum.splits)
qed

end
