(* ===== verification/Agent.thy ===== *)
theory Agent
  imports Containerd Nodes
begin

text \<open>
  \<^verbatim>\<open>internal/agent/executions_endpoint.go\<close> and the registration of \<^verbatim>\<open>agent.go\<close>: the node's side of the
  agent protocol.  Claiming room is one step under the endpoint's mutex; the start of a workload
  and everything the executor does run outside it, so what submissions leave the node with is
  stated over their interleavings.  gRPC statuses are errors with a code.
\<close>

datatype GrpcStatus = NotFoundStatus goerror | InternalStatus goerror
  | ResourceExhaustedStatus int int int int | ContextStatus goerror

definition failure :: "goerror \<Rightarrow> GrpcStatus" where
  "failure err = (if err_is ErrUnknown err then NotFoundStatus err else InternalStatus err)"

definition answer_of :: "goerror + unit \<Rightarrow> GrpcStatus option" where
  "answer_of r = (case r of Inl err \<Rightarrow> Some (failure err) | Inr u \<Rightarrow> None)"

definition specOf :: "Workload \<Rightarrow> Spec" where
  "specOf w =
     \<lparr>sp_Image = wl_Image w, sp_Command = wl_Command w, sp_Args = wl_Args w, sp_Env = wl_Env w,
      sp_WorkingDir = wl_WorkingDir w, sp_CPU = nr_Cpu (wl_Resources w), sp_Memory = nr_Memory (wl_Resources w),
      sp_Timeout = (case wl_Timeout w of None \<Rightarrow> 0 | Some d \<Rightarrow> d), sp_Runtime = wl_Runtime w\<rparr>"

definition timestamp :: "Time \<Rightarrow> Time option" where
  "timestamp t = (if Time_IsZero t then None else Some t)"

section \<open>Claiming room\<close>

type_synonym reservations = "(string \<times> Spec) list"

text \<open>\<open>None\<close> is a workload held under the same identifier, for which there is always room.\<close>

fun fits_held :: "string \<Rightarrow> reservations \<Rightarrow> Held list \<Rightarrow> int \<times> int \<Rightarrow> (int \<times> int) option" where
  "fits_held i reserved [] taken = Some taken"
| "fits_held i reserved (h # held) (cpu, memory) =
     (if hd_ID h = i then None
      else fits_held i reserved held
        (if hd_Running h \<and> map_of reserved (hd_ID h) = None
         then (wrap64 (cpu + hd_CPU h), wrap64 (memory + hd_Memory h)) else (cpu, memory)))"

fun fits_reserved :: "reservations \<Rightarrow> int \<times> int \<Rightarrow> int \<times> int" where
  "fits_reserved [] taken = taken"
| "fits_reserved ((i, r) # reserved) (cpu, memory) =
     fits_reserved reserved (wrap64 (cpu + sp_CPU r), wrap64 (memory + sp_Memory r))"

definition fits :: "NodeResources \<Rightarrow> reservations \<Rightarrow> goerror + Held list \<Rightarrow> string \<Rightarrow> Spec \<Rightarrow> GrpcStatus option" where
  "fits capacity reserved listed i spec =
     (case listed of
        Inl err \<Rightarrow> Some (failure err)
      | Inr held \<Rightarrow>
          (case fits_held i reserved held (0, 0) of
             None \<Rightarrow> None
           | Some taken \<Rightarrow>
               (case fits_reserved reserved taken of
                  (cpu, memory) \<Rightarrow>
                    if nr_Cpu capacity < wrap64 (cpu + sp_CPU spec) \<or> nr_Memory capacity < wrap64 (memory + sp_Memory spec)
                    then Some (ResourceExhaustedStatus (wrap64 (nr_Cpu capacity - cpu)) (wrap64 (nr_Memory capacity - memory))
                      (sp_CPU spec) (sp_Memory spec))
                    else None)))"

datatype claim = Claimed reservations | Busy | Refused GrpcStatus

definition tryClaim :: "NodeResources \<Rightarrow> reservations \<Rightarrow> goerror + Held list \<Rightarrow> string \<Rightarrow> Spec \<Rightarrow> claim" where
  "tryClaim capacity reserved listed i spec =
     (if map_of reserved i \<noteq> None then Busy
      else case fits capacity reserved listed i spec of
          Some err \<Rightarrow> Refused err
        | None \<Rightarrow> Claimed (AList.update i spec reserved))"

definition release_claim :: "reservations \<Rightarrow> string \<Rightarrow> reservations" where
  "release_claim reserved i = AList.delete i reserved"

section \<open>The endpoint\<close>

text \<open>
  The steps of one submission in between: \<open>Submit_start\<close> runs once its claim stands, and the claim is
  released after it, whatever it answers.  \<open>notified\<close> says whether the agent was told to report.
\<close>

definition Submit_start ::
  "'w Client \<Rightarrow> string \<Rightarrow> Workload \<Rightarrow> ('w, (GrpcStatus + State \<times> string) \<times> bool) XM" where
  "Submit_start c i w =
     do {
       out \<leftarrow> Executor_Submit c i (specOf w);
       (case out of
          Inl err \<Rightarrow> State_Monad.return (Inl (failure err), False)
        | Inr u \<Rightarrow> do {
            st1 \<leftarrow> Executor_Status c i;
            State_Monad.return (case st1 of
              Inl err \<Rightarrow> (Inl (failure err), True)
            | Inr s \<Rightarrow> (Inr (st_State s, st_ProviderID s), True))
          })
     }"

definition Endpoint_Status :: "'w Client \<Rightarrow> string \<Rightarrow> ('w, GrpcStatus + State \<times> string \<times> Time option \<times> Time option) XM" where
  "Endpoint_Status c i =
     do {
       st1 \<leftarrow> Executor_Status c i;
       State_Monad.return (case st1 of
         Inl err \<Rightarrow> Inl (failure err)
       | Inr s \<Rightarrow> Inr (st_State s, st_ProviderID s, timestamp (st_StartedAt s), timestamp (st_EndedAt s)))
     }"

definition wrap32 :: "int \<Rightarrow> int" where
  "wrap32 x = (x + 2147483648) mod 4294967296 - 2147483648"

definition Endpoint_Result :: "'w Client \<Rightarrow> string \<Rightarrow> ('w, (GrpcStatus + int option \<times> Duration \<times> string \<times> bool) option) XM" where
  "Endpoint_Result c i =
     do {
       out \<leftarrow> Executor_Result c i;
       State_Monad.return (map_option (\<lambda>r. case r of
         Inl err \<Rightarrow> Inl (failure err)
       | Inr res \<Rightarrow> Inr (map_option wrap32 (res_ExitCode res), res_Duration res, res_Logs res, res_LogsTruncated res)) out)
     }"

definition Endpoint_Cancel :: "'w Client \<Rightarrow> string \<Rightarrow> ('w, GrpcStatus option \<times> bool) XM" where
  "Endpoint_Cancel c i =
     do { out \<leftarrow> Executor_Cancel c i; State_Monad.return (answer_of out, True) }"

definition Endpoint_Release :: "'w Client \<Rightarrow> string \<Rightarrow> ('w, GrpcStatus option \<times> bool) XM" where
  "Endpoint_Release c i =
     do { out \<leftarrow> Executor_Release c i; State_Monad.return (answer_of out, True) }"

section \<open>Registering\<close>

record AgentConfig =
  ac_Name :: string
  ac_Pool :: string
  ac_Labels :: "(string \<times> string) list"
  ac_Version :: string

record FingerprintNode =
  fp_Architecture :: string
  fp_CPU :: int
  fp_Memory :: int

definition report_of :: "Held \<Rightarrow> HeldWorkload" where
  "report_of h = \<lparr>hw_ExecutionId = hd_ID h, hw_Resources = \<lparr>nr_Cpu = hd_CPU h, nr_Memory = hd_Memory h\<rparr>,
     hw_Running = hd_Running h\<rparr>"

definition register_request :: "AgentConfig \<Rightarrow> FingerprintNode \<Rightarrow> Held list \<Rightarrow> NodeRegisterRequest" where
  "register_request cfg node held =
     \<lparr>nd_Name = ac_Name cfg, nd_Pool = ac_Pool cfg, nd_Labels = ac_Labels cfg, nd_Architecture = fp_Architecture node,
      nd_Capacity = \<lparr>nr_Cpu = fp_CPU node, nr_Memory = fp_Memory node\<rparr>, nd_Held = map report_of held,
      nd_Runtimes = Runtimes, nd_Version = ac_Version cfg\<rparr>"

definition register ::
  "'w Client \<Rightarrow> (NodeRegisterRequest \<Rightarrow> ('w, goerror + unit) effect) \<Rightarrow> AgentConfig \<Rightarrow> FingerprintNode \<Rightarrow> ('w, goerror + unit) XM" where
  "register c send cfg node =
     attempting (wrapped ''listing workloads: %w'' []) (Executor_Held c) (\<lambda>held.
     attempting (wrapped ''registering: %w'' []) (call (send (register_request cfg node held))) (\<lambda>u.
       State_Monad.return (Inr ())))"

text \<open>The wait before dialling again, after a session that failed to start or one that ran and dropped.\<close>

definition reconnectMin :: Duration where "reconnectMin = Second"
definition reconnectMax :: Duration where "reconnectMax = 30 * Second"

fun reconnect_wait :: "Duration \<Rightarrow> bool list \<Rightarrow> Duration list" where
  "reconnect_wait wait [] = []"
| "reconnect_wait wait (failed # sessions) =
     (let wait = (if failed then wait else reconnectMin)
      in wait # reconnect_wait (min (wait * 2) reconnectMax) sessions)"

section \<open>What the node is left with\<close>

record AgentState =
  an_held :: "Held list"
  an_reserved :: reservations

definition unheld :: "Held list \<Rightarrow> string \<Rightarrow> bool" where
  "unheld held i \<longleftrightarrow> i \<notin> hd_ID ` set held"

definition running_sum :: "(Held \<Rightarrow> int) \<Rightarrow> Held list \<Rightarrow> int" where
  "running_sum f held = sum_list (map f (filter hd_Running held))"

definition pending_sum :: "(Spec \<Rightarrow> int) \<Rightarrow> Held list \<Rightarrow> reservations \<Rightarrow> int" where
  "pending_sum g held reserved = sum_list (map (\<lambda>p. g (snd p)) (filter (\<lambda>p. unheld held (fst p)) reserved))"

text \<open>What running workloads and starts in flight could ask of the node at once.\<close>

definition committed_cpu :: "AgentState \<Rightarrow> int" where
  "committed_cpu s = running_sum hd_CPU (an_held s) + pending_sum sp_CPU (an_held s) (an_reserved s)"

definition committed_memory :: "AgentState \<Rightarrow> int" where
  "committed_memory s = running_sum hd_Memory (an_held s) + pending_sum sp_Memory (an_held s) (an_reserved s)"

text \<open>
  A claim for a workload that declares no negative size, and the same sizes as before when it is
  held already, on a node whose declared sizes do not add up past 64 bits.
\<close>

definition proper_claim :: "AgentState \<Rightarrow> string \<Rightarrow> Spec \<Rightarrow> bool" where
  "proper_claim s i spec \<longleftrightarrow>
     0 \<le> sp_CPU spec \<and> 0 \<le> sp_Memory spec \<and>
     (\<forall>h \<in> set (an_held s). hd_ID h = i \<longrightarrow> hd_CPU h = sp_CPU spec \<and> hd_Memory h = sp_Memory spec) \<and>
     sum_list (map hd_CPU (an_held s)) + sum_list (map (sp_CPU \<circ> snd) (an_reserved s)) + sp_CPU spec \<le> MaxInt64 \<and>
     sum_list (map hd_Memory (an_held s)) + sum_list (map (sp_Memory \<circ> snd) (an_reserved s)) + sp_Memory spec \<le> MaxInt64"

text \<open>
  The steps of a node: a claim, a start of what was claimed (whether or not the call succeeds), a
  submission's end, a workload's end, and its removal, which the server asks for only once no
  submission of it is in flight.
\<close>

inductive agent_step :: "NodeResources \<Rightarrow> AgentState \<Rightarrow> AgentState \<Rightarrow> bool" for capacity where
  claims: "tryClaim capacity (an_reserved s) (Inr (an_held s)) i spec = Claimed reserved \<Longrightarrow> proper_claim s i spec
    \<Longrightarrow> agent_step capacity s (s\<lparr>an_reserved := reserved\<rparr>)"
| starts: "map_of (an_reserved s) i = Some spec \<Longrightarrow> unheld (an_held s) i
    \<Longrightarrow> agent_step capacity s (s\<lparr>an_held := an_held s @
      [\<lparr>hd_ID = i, hd_CPU = sp_CPU spec, hd_Memory = sp_Memory spec, hd_Running = True\<rparr>]\<rparr>)"
| settles: "agent_step capacity s (s\<lparr>an_reserved := release_claim (an_reserved s) i\<rparr>)"
| stops: "agent_step capacity s (s\<lparr>an_held := map (\<lambda>h. if hd_ID h = i then h\<lparr>hd_Running := False\<rparr> else h) (an_held s)\<rparr>)"
| removes: "map_of (an_reserved s) i = None
    \<Longrightarrow> agent_step capacity s (s\<lparr>an_held := filter (\<lambda>h. hd_ID h \<noteq> i) (an_held s)\<rparr>)"

definition sized :: "AgentState \<Rightarrow> bool" where
  "sized s \<longleftrightarrow> distinct (map hd_ID (an_held s)) \<and> distinct (map fst (an_reserved s)) \<and>
     (\<forall>h \<in> set (an_held s). 0 \<le> hd_CPU h \<and> 0 \<le> hd_Memory h) \<and>
     (\<forall>(i, r) \<in> set (an_reserved s). 0 \<le> sp_CPU r \<and> 0 \<le> sp_Memory r \<and>
       (\<forall>h \<in> set (an_held s). hd_ID h = i \<longrightarrow> hd_CPU h = sp_CPU r \<and> hd_Memory h = sp_Memory r))"

definition under_capacity :: "NodeResources \<Rightarrow> AgentState \<Rightarrow> bool" where
  "under_capacity capacity s \<longleftrightarrow> committed_cpu s \<le> nr_Cpu capacity \<and> committed_memory s \<le> nr_Memory capacity"

text \<open>A session starts with what the node already holds and nothing in flight.\<close>

inductive agent_reach :: "NodeResources \<Rightarrow> AgentState \<Rightarrow> bool" for capacity where
  connected: "sized s \<Longrightarrow> under_capacity capacity s \<Longrightarrow> an_reserved s = [] \<Longrightarrow> agent_reach capacity s"
| steps: "agent_reach capacity s \<Longrightarrow> agent_step capacity s t \<Longrightarrow> agent_reach capacity t"

section \<open>The sums claiming compares\<close>

lemma fits_held_None: "fits_held i reserved held taken = None \<longleftrightarrow> \<not> unheld held i"
  by (induction i reserved held taken rule: fits_held.induct) (auto simp: unheld_def)

definition unreserved_sum :: "(Held \<Rightarrow> int) \<Rightarrow> reservations \<Rightarrow> Held list \<Rightarrow> int" where
  "unreserved_sum f reserved held =
     sum_list (map f (filter (\<lambda>h. hd_Running h \<and> map_of reserved (hd_ID h) = None) held))"

lemma fits_held_sum:
  "fits_held i reserved held (cpu, memory) = Some (cpu', memory') \<Longrightarrow>
   wrap64 cpu' = wrap64 (cpu + unreserved_sum hd_CPU reserved held) \<and>
   wrap64 memory' = wrap64 (memory + unreserved_sum hd_Memory reserved held)"
proof (induction held arbitrary: cpu memory)
  case Nil
  then show ?case by (simp add: unreserved_sum_def)
next
  case (Cons h held)
  let ?counts = "hd_Running h \<and> map_of reserved (hd_ID h) = None"
  let ?cpu = "if ?counts then wrap64 (cpu + hd_CPU h) else cpu"
  let ?memory = "if ?counts then wrap64 (memory + hd_Memory h) else memory"
  have "fits_held i reserved held (?cpu, ?memory) = Some (cpu', memory')"
    using Cons.prems by (auto split: if_splits)
  from Cons.IH [OF this] show ?case by (auto simp: unreserved_sum_def add.assoc)
qed

lemma fits_reserved_sum:
  "fits_reserved reserved (cpu, memory) = (cpu', memory') \<Longrightarrow>
   wrap64 cpu' = wrap64 (cpu + sum_list (map (sp_CPU \<circ> snd) reserved)) \<and>
   wrap64 memory' = wrap64 (memory + sum_list (map (sp_Memory \<circ> snd) reserved))"
proof (induction reserved arbitrary: cpu memory)
  case Nil
  then show ?case by simp
next
  case (Cons p reserved)
  obtain i r where p: "p = (i, r)" by fastforce
  from Cons.IH [of "wrap64 (cpu + sp_CPU r)" "wrap64 (memory + sp_Memory r)"] Cons.prems
  show ?case by (simp add: p add.assoc)
qed

lemma wrap64_cong_add: "wrap64 x = wrap64 y \<Longrightarrow> wrap64 (x + z) = wrap64 (y + z)"
  by (metis wrap64_add_left)

lemma tryClaim_sums:
  assumes "tryClaim capacity reserved (Inr held) i spec = Claimed reserved'" "unheld held i"
  shows "reserved' = AList.update i spec reserved" "map_of reserved i = None"
    "wrap64 (unreserved_sum hd_CPU reserved held + sum_list (map (sp_CPU \<circ> snd) reserved) + sp_CPU spec) \<le> nr_Cpu capacity"
    "wrap64 (unreserved_sum hd_Memory reserved held + sum_list (map (sp_Memory \<circ> snd) reserved) + sp_Memory spec)
      \<le> nr_Memory capacity"
proof -
  obtain cpu memory where h: "fits_held i reserved held (0, 0) = Some (cpu, memory)"
    using assms(2) fits_held_None [of i reserved held "(0, 0)"] by fastforce
  obtain cpu' memory' where r: "fits_reserved reserved (cpu, memory) = (cpu', memory')" by fastforce
  have room: "reserved' = AList.update i spec reserved \<and> map_of reserved i = None \<and>
      wrap64 (cpu' + sp_CPU spec) \<le> nr_Cpu capacity \<and> wrap64 (memory' + sp_Memory spec) \<le> nr_Memory capacity"
    using assms(1) h r by (auto simp: tryClaim_def fits_def split: if_splits)
  from fits_held_sum [OF h] have c: "wrap64 cpu = wrap64 (unreserved_sum hd_CPU reserved held)"
    "wrap64 memory = wrap64 (unreserved_sum hd_Memory reserved held)" by simp_all
  from fits_reserved_sum [OF r] c
  have "wrap64 cpu' = wrap64 (unreserved_sum hd_CPU reserved held + sum_list (map (sp_CPU \<circ> snd) reserved))"
    "wrap64 memory' = wrap64 (unreserved_sum hd_Memory reserved held + sum_list (map (sp_Memory \<circ> snd) reserved))"
    by (metis wrap64_cong_add)+
  with room show "reserved' = AList.update i spec reserved" "map_of reserved i = None"
    "wrap64 (unreserved_sum hd_CPU reserved held + sum_list (map (sp_CPU \<circ> snd) reserved) + sp_CPU spec) \<le> nr_Cpu capacity"
    "wrap64 (unreserved_sum hd_Memory reserved held + sum_list (map (sp_Memory \<circ> snd) reserved) + sp_Memory spec)
      \<le> nr_Memory capacity"
    by (metis wrap64_cong_add)+
qed

section \<open>The invariant\<close>

lemma key_in: "(x, y) \<in> set xs \<Longrightarrow> x \<in> fst ` set xs"
  by force

lemma pending_Cons:
  assumes "distinct (map fst reserved)" "unheld held (hd_ID h)"
  shows "pending_sum g held reserved =
    pending_sum g (h # held) reserved + (case map_of reserved (hd_ID h) of None \<Rightarrow> 0 | Some r \<Rightarrow> g r)"
  using assms
proof (induction reserved)
  case Nil
  then show ?case by (simp add: pending_sum_def)
next
  case (Cons p reserved)
  then show ?case
    by (cases p) (auto simp: pending_sum_def unheld_def map_of_eq_None_iff dest: key_in split: option.split)
qed

lemma pending_all: "pending_sum g [] reserved = sum_list (map (g \<circ> snd) reserved)"
  by (simp add: pending_sum_def unheld_def comp_def)

text \<open>What claiming counts is at least what is committed.\<close>

lemma counted_covers:
  assumes "distinct (map hd_ID held)" "distinct (map fst reserved)"
    and "\<forall>(i, r) \<in> set reserved. 0 \<le> g r \<and> (\<forall>h \<in> set held. hd_ID h = i \<longrightarrow> f h = g r)"
  shows "running_sum f held + pending_sum g held reserved \<le> unreserved_sum f reserved held + sum_list (map (g \<circ> snd) reserved)"
  using assms(1,3)
proof (induction held)
  case Nil
  then show ?case by (simp add: running_sum_def unreserved_sum_def pending_all comp_def)
next
  case (Cons h held)
  have fresh: "unheld held (hd_ID h)" using Cons.prems(1) by (auto simp: unheld_def)
  have sizes: "\<And>r. map_of reserved (hd_ID h) = Some r \<Longrightarrow> 0 \<le> g r \<and> f h = g r"
    using Cons.prems(2) by (auto dest!: map_of_SomeD)
  have "running_sum f held + pending_sum g held reserved \<le> unreserved_sum f reserved held + sum_list (map (g \<circ> snd) reserved)"
    by (rule Cons.IH) (use Cons.prems in auto)
  with pending_Cons [OF assms(2) fresh, of g] sizes show ?case
    by (auto simp: running_sum_def unreserved_sum_def comp_def split: option.splits)
qed

lemma pending_sum_append:
  "pending_sum g held (reserved @ [(i, spec)]) = pending_sum g held reserved + (if unheld held i then g spec else 0)"
  by (simp add: pending_sum_def)

lemma sum_filter_le:
  "(\<And>x. x \<in> set xs \<Longrightarrow> 0 \<le> f x) \<Longrightarrow> (\<And>x. x \<in> set xs \<Longrightarrow> Q x \<Longrightarrow> P x) \<Longrightarrow>
   sum_list (map f (filter Q xs)) \<le> (sum_list (map f (filter P xs)) :: int)"
  by (induction xs) (auto simp: add_increasing)

lemma update_fresh_list: "map_of xs k = None \<Longrightarrow> AList.update k v xs = xs @ [(k, v)]"
  by (induction xs) (auto split: if_splits)

lemma unreserved_nonneg: "\<forall>h \<in> set held. 0 \<le> f h \<Longrightarrow> 0 \<le> unreserved_sum f reserved held"
  by (auto simp: unreserved_sum_def intro!: sum_list_nonneg)

lemma unreserved_le: "\<forall>h \<in> set held. 0 \<le> f h \<Longrightarrow> unreserved_sum f reserved held \<le> sum_list (map f held)"
  using sum_filter_le [of held f "\<lambda>h. hd_Running h \<and> map_of reserved (hd_ID h) = None" "\<lambda>h. True"]
  by (simp add: unreserved_sum_def)

text \<open>One resource of a claim: \<open>f\<close> and \<open>g\<close> read it off what is held and what is asked for.\<close>

lemma claim_fits:
  assumes "wrap64 (unreserved_sum f reserved held + sum_list (map (g \<circ> snd) reserved) + g spec) \<le> capacity"
    and "sum_list (map f held) + sum_list (map (g \<circ> snd) reserved) + g spec \<le> MaxInt64"
    and "distinct (map hd_ID held)" "distinct (map fst reserved)" "\<forall>h \<in> set held. 0 \<le> f h" "0 \<le> g spec"
    and "\<forall>(i, r) \<in> set reserved. 0 \<le> g r \<and> (\<forall>h \<in> set held. hd_ID h = i \<longrightarrow> f h = g r)"
    and "map_of reserved i = None" "unheld held i"
  shows "running_sum f held + pending_sum g held (AList.update i spec reserved) \<le> capacity"
proof -
  let ?counted = "unreserved_sum f reserved held + sum_list (map (g \<circ> snd) reserved) + g spec"
  have "0 \<le> sum_list (map (g \<circ> snd) reserved)" using assms(7) by (intro sum_list_nonneg) fastforce
  then have "int64 ?counted"
    using unreserved_nonneg [OF assms(5), of reserved] unreserved_le [OF assms(5), of reserved] assms(2,6)
    by (simp add: int64_def MaxInt64_def)
  then have "?counted \<le> capacity" using assms(1) by simp
  then show ?thesis
    using counted_covers [OF assms(3,4,7)] assms(8,9)
    by (simp add: update_fresh_list pending_sum_append)
qed

lemma sized_claim:
  assumes "sized s" "proper_claim s i spec" "map_of (an_reserved s) i = None"
  shows "sized (s\<lparr>an_reserved := AList.update i spec (an_reserved s)\<rparr>)"
  using assms by (fastforce simp: sized_def proper_claim_def update_fresh_list map_of_eq_None_iff)

lemma sizedD:
  assumes "sized s"
  shows "distinct (map hd_ID (an_held s))" "distinct (map fst (an_reserved s))"
    "\<forall>h \<in> set (an_held s). 0 \<le> hd_CPU h" "\<forall>h \<in> set (an_held s). 0 \<le> hd_Memory h"
    "\<forall>(i, r) \<in> set (an_reserved s). 0 \<le> sp_CPU r \<and> (\<forall>h \<in> set (an_held s). hd_ID h = i \<longrightarrow> hd_CPU h = sp_CPU r)"
    "\<forall>(i, r) \<in> set (an_reserved s). 0 \<le> sp_Memory r \<and> (\<forall>h \<in> set (an_held s). hd_ID h = i \<longrightarrow> hd_Memory h = sp_Memory r)"
  using assms by (auto simp: sized_def)

lemma claim_ok:
  assumes "sized s" "under_capacity capacity s"
    and "tryClaim capacity (an_reserved s) (Inr (an_held s)) i spec = Claimed reserved" "proper_claim s i spec"
  shows "sized (s\<lparr>an_reserved := reserved\<rparr>) \<and> under_capacity capacity (s\<lparr>an_reserved := reserved\<rparr>)"
proof -
  have r: "reserved = AList.update i spec (an_reserved s)" "map_of (an_reserved s) i = None"
    using assms(3) by (auto simp: tryClaim_def split: if_splits option.splits)
  have "under_capacity capacity (s\<lparr>an_reserved := reserved\<rparr>)"
  proof (cases "unheld (an_held s) i")
    case True
    note sums = tryClaim_sums [OF assms(3) True]
    have "running_sum hd_CPU (an_held s) + pending_sum sp_CPU (an_held s) reserved \<le> nr_Cpu capacity"
      unfolding r(1) using assms(4) r(2) True
      by (intro claim_fits [OF sums(3) _ sizedD(1-3) [OF assms(1)] _ sizedD(5) [OF assms(1)]]) (simp_all add: proper_claim_def assms(1))
    moreover have "running_sum hd_Memory (an_held s) + pending_sum sp_Memory (an_held s) reserved \<le> nr_Memory capacity"
      unfolding r(1) using assms(4) r(2) True
      by (intro claim_fits [OF sums(4) _ sizedD(1,2,4) [OF assms(1)] _ sizedD(6) [OF assms(1)]]) (simp_all add: proper_claim_def assms(1))
    ultimately show ?thesis by (simp add: under_capacity_def committed_cpu_def committed_memory_def)
  next
    case False
    with assms(2) r show ?thesis
      by (simp add: under_capacity_def committed_cpu_def committed_memory_def update_fresh_list pending_sum_append)
  qed
  with sized_claim [OF assms(1,4) r(2)] show ?thesis by (simp add: r(1))
qed

lemma running_sum_filter:
  "\<forall>h \<in> set held. 0 \<le> f h \<Longrightarrow> running_sum f (filter P held) \<le> running_sum f held"
  by (induction held) (auto simp: running_sum_def)

lemma running_sum_stopped:
  "\<forall>h \<in> set held. 0 \<le> f h \<Longrightarrow> \<forall>h. f (h\<lparr>hd_Running := False\<rparr>) = f h \<Longrightarrow>
   running_sum f (map (\<lambda>h. if hd_ID h = i then h\<lparr>hd_Running := False\<rparr> else h) held) \<le> running_sum f held"
  by (induction held) (auto simp: running_sum_def)

lemma stopped_ids [simp]:
  "map hd_ID (map (\<lambda>h. if hd_ID h = i then h\<lparr>hd_Running := False\<rparr> else h) held) = map hd_ID held"
  by (induction held) auto

lemma unheld_stopped [simp]:
  "unheld (map (\<lambda>h. if hd_ID h = i then h\<lparr>hd_Running := False\<rparr> else h) held) = unheld held"
  by (simp only: unheld_def fun_eq_iff set_map [symmetric] stopped_ids simp_thms)

lemma agent_step_ok:
  assumes "agent_step capacity s t" "sized s" "under_capacity capacity s"
  shows "sized t \<and> under_capacity capacity t"
  using assms
proof (cases rule: agent_step.cases)
  case (claims i spec reserved)
  with claim_ok [OF assms(2,3)] show ?thesis by simp
next
  case (starts i spec)
  let ?h = "\<lparr>hd_ID = i, hd_CPU = sp_CPU spec, hd_Memory = sp_Memory spec, hd_Running = True\<rparr>"
  have "unheld (an_held s @ [?h]) = unheld (?h # an_held s)" by (auto simp: unheld_def)
  then have pending: "pending_sum g (an_held s @ [?h]) (an_reserved s) = pending_sum g (an_held s) (an_reserved s) - g spec" for g
    using pending_Cons [of "an_reserved s" "an_held s" ?h g] starts(2,3) sizedD(2) [OF assms(2)]
    by (simp add: pending_sum_def)
  have "\<And>r. (i, r) \<in> set (an_reserved s) \<longleftrightarrow> r = spec"
    using starts(2) sizedD(2) [OF assms(2)] by (auto dest: map_of_SomeD eq_key_imp_eq_value)
  moreover have "0 \<le> sp_CPU spec" "0 \<le> sp_Memory spec"
    using assms(2) starts(2) by (auto simp: sized_def dest!: map_of_SomeD)
  ultimately have "sized t"
    using assms(2) starts(1,3) by (auto simp: sized_def unheld_def)
  with pending show ?thesis
    using assms(3) starts(1) by (simp add: under_capacity_def committed_cpu_def committed_memory_def running_sum_def)
next
  case (settles i)
  have less: "pending_sum g (an_held s) (AList.delete i (an_reserved s)) \<le> pending_sum g (an_held s) (an_reserved s)"
    if "\<forall>(i, r) \<in> set (an_reserved s). 0 \<le> g r" for g
    using that unfolding pending_sum_def AList.delete_eq by (auto simp: filter_filter intro!: sum_filter_le)
  have "sized t"
    using assms(2) settles by (auto simp: sized_def release_claim_def AList.delete_eq distinct_map_filter)
  moreover have "pending_sum sp_CPU (an_held s) (AList.delete i (an_reserved s)) \<le> pending_sum sp_CPU (an_held s) (an_reserved s)"
    "pending_sum sp_Memory (an_held s) (AList.delete i (an_reserved s)) \<le> pending_sum sp_Memory (an_held s) (an_reserved s)"
    using assms(2) by (intro less; force simp: sized_def)+
  ultimately show ?thesis
    using assms(3) settles by (simp add: under_capacity_def committed_cpu_def committed_memory_def release_claim_def)
next
  case (stops i)
  have "sized t" using assms(2) stopped_ids [of i "an_held s"] unfolding stops(1)
    by (auto simp: sized_def simp del: stopped_ids map_map)
  with assms(3) sizedD(3,4) [OF assms(2)] show ?thesis
    using running_sum_stopped [of "an_held s" hd_CPU i] running_sum_stopped [of "an_held s" hd_Memory i]
    by (simp add: stops under_capacity_def committed_cpu_def committed_memory_def pending_sum_def)
next
  case (removes i)
  have "unheld (filter (\<lambda>h. hd_ID h \<noteq> i) (an_held s)) (fst p) = unheld (an_held s) (fst p)"
    if "p \<in> set (an_reserved s)" for p
  proof -
    have "fst p \<noteq> i" using that removes(2) by (auto simp: map_of_eq_None_iff)
    then show ?thesis by (auto simp: unheld_def)
  qed
  then have "pending_sum g (filter (\<lambda>h. hd_ID h \<noteq> i) (an_held s)) (an_reserved s) = pending_sum g (an_held s) (an_reserved s)" for g
    unfolding pending_sum_def
    by (intro arg_cong [where f = sum_list] arg_cong [where f = "map (\<lambda>p. g (snd p))"] filter_cong [OF refl]) simp
  moreover have "sized t"
    using assms(2) removes by (auto simp: sized_def distinct_map_filter)
  ultimately show ?thesis
    using assms(3) removes sizedD(3,4) [OF assms(2)]
      running_sum_filter [of "an_held s" hd_CPU "\<lambda>h. hd_ID h \<noteq> i"] running_sum_filter [of "an_held s" hd_Memory "\<lambda>h. hd_ID h \<noteq> i"]
    by (simp add: under_capacity_def committed_cpu_def committed_memory_def)
qed

lemma agent_reach_ok: "agent_reach capacity s \<Longrightarrow> sized s \<and> under_capacity capacity s"
  by (induction rule: agent_reach.induct) (auto simp: agent_step_ok)

section \<open>Properties\<close>

lemma report_of_sel [simp]:
  "hw_Running (report_of h) = hd_Running h" "nr_Cpu (hw_Resources (report_of h)) = hd_CPU h"
  "nr_Memory (hw_Resources (report_of h)) = hd_Memory h" "hw_ExecutionId (report_of h) = hd_ID h"
  by (simp_all add: report_of_def)

lemma Used_loop_sums:
  "Used_loop (map report_of held) (cpu, memory, n) = (cpu', memory', n') \<Longrightarrow>
   wrap64 cpu' = wrap64 (cpu + running_sum hd_CPU held) \<and> wrap64 memory' = wrap64 (memory + running_sum hd_Memory held) \<and>
   (int64 cpu \<longrightarrow> int64 memory \<longrightarrow> int64 cpu' \<and> int64 memory')"
proof (induction held arbitrary: cpu memory n)
  case Nil
  then show ?case by (auto simp: running_sum_def)
next
  case (Cons h held)
  let ?cpu = "if hd_Running h then wrap64 (cpu + hd_CPU h) else cpu"
  let ?memory = "if hd_Running h then wrap64 (memory + hd_Memory h) else memory"
  have "Used_loop (map report_of held) (?cpu, ?memory, if hd_Running h then n + 1 else n) = (cpu', memory', n')"
    using Cons.prems by (auto split: if_splits)
  from Cons.IH [OF this] show ?case by (auto simp: running_sum_def add.assoc)
qed

lemma sums_nonneg:
  assumes "sized s"
  shows "0 \<le> running_sum hd_CPU (an_held s)" "0 \<le> running_sum hd_Memory (an_held s)"
    "0 \<le> pending_sum sp_CPU (an_held s) (an_reserved s)" "0 \<le> pending_sum sp_Memory (an_held s) (an_reserved s)"
  using assms unfolding running_sum_def pending_sum_def sized_def by (force intro!: sum_list_nonneg)+

text \<open>C22. A node is never asked for more than it has: however claims, starts and ends interleave, what its
  running workloads and the starts in flight declare stays within its capacity, and so does what it
  reports to the server as used.\<close>

theorem node_never_oversubscribed:
  assumes "agent_reach capacity s" "capacity = \<lparr>nr_Cpu = fp_CPU node, nr_Memory = fp_Memory node\<rparr>"
    and "int64 (fp_CPU node)" "int64 (fp_Memory node)" "cn_Node conn = register_request cfg node (an_held s)"
  shows "committed_cpu s \<le> nr_Cpu capacity \<and> committed_memory s \<le> nr_Memory capacity \<and>
    (case Conn_Used conn of (cpu, memory, running) \<Rightarrow> 0 \<le> cpu \<and> cpu \<le> committed_cpu s \<and> 0 \<le> memory \<and> memory \<le> committed_memory s)"
proof -
  have ok: "sized s" "under_capacity capacity s" using agent_reach_ok [OF assms(1)] by simp_all
  obtain cpu memory n where used: "Conn_Used conn = (cpu, memory, n)" by (metis surj_pair)
  then have "Used_loop (map report_of (an_held s)) (0, 0, 0) = (cpu, memory, n)"
    by (simp add: Conn_Used_def assms(5) register_request_def)
  from Used_loop_sums [OF this] have eq: "wrap64 cpu = wrap64 (running_sum hd_CPU (an_held s))"
    "wrap64 memory = wrap64 (running_sum hd_Memory (an_held s))" "int64 cpu" "int64 memory"
    by (simp_all add: int64_def)
  have "int64 (running_sum hd_CPU (an_held s))" "int64 (running_sum hd_Memory (an_held s))"
    using ok(2) sums_nonneg [OF ok(1)] assms(2-4)
    by (auto simp: under_capacity_def committed_cpu_def committed_memory_def int64_def)
  with eq have "cpu = running_sum hd_CPU (an_held s)" "memory = running_sum hd_Memory (an_held s)" by simp_all
  with used ok(2) sums_nonneg [OF ok(1)] show ?thesis
    by (simp add: under_capacity_def committed_cpu_def committed_memory_def)
qed

definition sample_fingerprint :: FingerprintNode where
  "sample_fingerprint = \<lparr>fp_Architecture = ''amd64'', fp_CPU = 1000, fp_Memory = 512\<rparr>"

definition sample_agent_config :: AgentConfig where
  "sample_agent_config = \<lparr>ac_Name = ''n1'', ac_Pool = ''home'', ac_Labels = [], ac_Version = ''1''\<rparr>"

theorem node_never_oversubscribed_witness:
  "\<exists>s. agent_reach \<lparr>nr_Cpu = 1000, nr_Memory = 512\<rparr> s \<and> committed_cpu s = 500 \<and> committed_cpu s \<le> 1000 \<and>
    (\<exists>h \<in> set (an_held s). hd_Running h)"
proof -
  let ?cap = "\<lparr>nr_Cpu = 1000, nr_Memory = 512\<rparr>"
  let ?s = "\<lambda>held reserved. \<lparr>an_held = held, an_reserved = reserved\<rparr>"
  let ?r = "[(''e'', sample_container_spec)]" and ?h = "\<lparr>hd_ID = ''e'', hd_CPU = 500, hd_Memory = 128, hd_Running = True\<rparr>"
  have "agent_reach ?cap (?s [] [])"
    by (rule agent_reach.connected)
      (simp_all add: sized_def under_capacity_def committed_cpu_def committed_memory_def running_sum_def pending_sum_def)
  moreover have "agent_step ?cap (?s [] []) (?s [] ?r)"
  proof -
    have "tryClaim ?cap [] (Inr []) ''e'' sample_container_spec = Claimed ?r"
      by (simp add: tryClaim_def fits_def sample_container_spec_def int64_def)
    then show ?thesis
      using agent_step.claims [of ?cap "?s [] []" "''e''" sample_container_spec ?r]
      by (simp add: proper_claim_def sample_container_spec_def MaxInt64_def)
  qed
  moreover have "agent_step ?cap (?s [] ?r) (?s [?h] ?r)"
    using agent_step.starts [of "?s [] ?r" "''e''" sample_container_spec ?cap] by (simp add: unheld_def sample_container_spec_def)
  ultimately have reach: "agent_reach ?cap (?s [?h] ?r)" by (blast intro: agent_reach.steps)
  let ?conn = "\<lparr>cn_Node = register_request sample_agent_config sample_fingerprint [?h], cn_Address = [], cn_Established = 0, cn_Session = 1\<rparr>"
  have "committed_cpu (?s [?h] ?r) \<le> 1000"
    using node_never_oversubscribed [OF reach, of sample_fingerprint ?conn sample_agent_config]
    by (simp add: sample_fingerprint_def int64_def)
  moreover have "committed_cpu (?s [?h] ?r) = 500"
    by (simp add: committed_cpu_def running_sum_def pending_sum_def unheld_def)
  ultimately show ?thesis using reach by fastforce
qed

end
