(* ===== verification/Pools.thy ===== *)
theory Pools
  imports Nodes Blocks "HOL-Library.State_Monad"
begin

text \<open>
  \<^verbatim>\<open>internal/providers/pool\<close>: a provider made of the agent nodes that joined it.  The world is the
  provider's own maps, the server's connections and an environment; a call to an agent is a
  function of all three, since nodes report and other submissions run while it is in flight.
  Everything between two calls is one step, as the mutexes make it, and reads the clock once.
\<close>

definition leftGrace :: Duration where "leftGrace = 5 * Minute"
definition reservationTTL :: Duration where "reservationTTL = 2 * Minute"

section \<open>Workloads\<close>

definition defaultResources :: Resources where
  "defaultResources = \<lparr>r_CPU = 1000, r_Memory = 1024\<rparr>"

definition resourcesOf :: "Task \<Rightarrow> NodeResources" where
  "resourcesOf task =
     (let out = \<lparr>nr_Cpu = r_CPU defaultResources, nr_Memory = r_Memory defaultResources\<rparr> in
      case task_Resources task of
        None \<Rightarrow> out
      | Some r \<Rightarrow>
          (let out = (case tres_CPU r of None \<Rightarrow> out | Some n \<Rightarrow> if 0 < n then out\<lparr>nr_Cpu := n\<rparr> else out)
           in case tres_Memory r of None \<Rightarrow> out | Some n \<Rightarrow> if 0 < n then out\<lparr>nr_Memory := n\<rparr> else out))"

definition workloadOf :: "Hcl \<Rightarrow> Task \<Rightarrow> goerror + Workload" where
  "workloadOf h task =
     (case ConfigString h task ConfigImage of
        None \<Rightarrow> Inl (Internal (Formatted ''task %q names no image'' [S (task_Name task)] []))
      | Some img \<Rightarrow>
          (case Environment h task of
             (env, diags) \<Rightarrow>
               if HasErrors diags
               then Inl (Internal (Formatted ''task %q env: %s'' [S (task_Name task), S (hcl_Error h diags)] []))
               else
                 (let w = \<lparr>wl_Image = img, wl_Command = (case ConfigString h task ''command'' of None \<Rightarrow> [] | Some c \<Rightarrow> [c]),
                        wl_Args = (case ConfigStrings h task ''args'' of None \<Rightarrow> [] | Some as \<Rightarrow> as), wl_Env = env,
                        wl_WorkingDir = (case task_WorkingDirectory task of None \<Rightarrow> [] | Some d \<Rightarrow> d),
                        wl_Resources = resourcesOf task, wl_Timeout = None, wl_Runtime = []\<rparr>
                  in case task_Timeout task of
                       None \<Rightarrow> Inr w
                     | Some t \<Rightarrow>
                         (case Duration_Std t of
                            Inl err \<Rightarrow> Inl (Internal (Formatted ''task %q timeout: %w'' [S (task_Name task)] [duration_error err]))
                          | Inr timeout \<Rightarrow> Inr (w\<lparr>wl_Timeout := Some timeout\<rparr>)))))"

section \<open>The provider\<close>

record reservation =
  rs_node :: string
  rs_cpu :: int
  rs_memory :: int
  rs_at :: Time

record PoolProvider =
  pl_name :: string
  pl_created :: Time
  pl_placed :: "string \<Rightarrow> string option"
  pl_reserved :: "(string \<times> reservation) list"

definition NewPool :: "string \<Rightarrow> Time \<Rightarrow> PoolProvider" where
  "NewPool name now = \<lparr>pl_name = name, pl_created = now, pl_placed = Map.empty, pl_reserved = []\<rparr>"

fun free_loop ::
  "string \<Rightarrow> string set \<Rightarrow> Time \<Rightarrow> (string \<times> reservation) list \<Rightarrow> int \<times> int \<Rightarrow> int \<times> int" where
  "free_loop node reported now [] room = room"
| "free_loop node reported now ((i, r) # rs) (cpu, memory) =
     free_loop node reported now rs
       (if rs_node r \<noteq> node \<or> i \<in> reported \<or> reservationTTL < Time_Sub now (rs_at r) then (cpu, memory)
        else (wrap64 (cpu - rs_cpu r), wrap64 (memory - rs_memory r)))"

definition free_room :: "PoolProvider \<Rightarrow> Conn \<Rightarrow> Time \<Rightarrow> int \<times> int" where
  "free_room p conn now =
     (case Conn_Used conn of
        (usedCPU, usedMemory, _) \<Rightarrow>
          free_loop (nd_Name (cn_Node conn)) (hw_ExecutionId ` set (nd_Held (cn_Node conn))) now (pl_reserved p)
            (wrap64 (nr_Cpu (nd_Capacity (cn_Node conn)) - usedCPU),
             wrap64 (nr_Memory (nd_Capacity (cn_Node conn)) - usedMemory)))"

definition pool_member :: "PoolProvider \<Rightarrow> Conn \<Rightarrow> Time \<Rightarrow> Member" where
  "pool_member p conn now =
     (case free_room p conn now of
        (cpu, memory) \<Rightarrow>
          Member (nd_Name (cn_Node conn))
            (Capabilities [DriverContainer] [nd_Architecture (cn_Node conn)]
              \<lparr>rl_CPU = Some (max cpu 0), rl_Memory = Some (max memory 0)\<rparr> 0 defaultResources True True True 0 now [])
            (nd_Labels (cn_Node conn)))"

fun union_of :: "'a list \<Rightarrow> 'a list \<Rightarrow> 'a list" where
  "union_of to [] = to"
| "union_of to (v # vs) = union_of (if v \<in> set to then to else to @ [v]) vs"

fun summary_loop :: "Member list \<Rightarrow> DriverName list \<times> Arch list \<times> int \<times> int \<Rightarrow> DriverName list \<times> Arch list \<times> int \<times> int" where
  "summary_loop [] summary = summary"
| "summary_loop (m # ms) (drivers, arches, cpu, memory) =
     (let c = mem_Capabilities m in
      summary_loop ms (union_of drivers (cap_Drivers c), union_of arches (cap_Architectures c),
        max cpu (the (rl_CPU (cap_MaxResources c))), max memory (the (rl_Memory (cap_MaxResources c)))))"

definition LiveCapabilities :: "PoolProvider \<Rightarrow> Conns \<Rightarrow> Time \<Rightarrow> goerror + Capabilities" where
  "LiveCapabilities p conns now =
     (let nodes = InPool conns (pl_name p) in
      if nodes = [] then Inl (Formatted ''no nodes have joined pool %q'' [S (pl_name p)] [])
      else
        (let members = map (\<lambda>conn. pool_member p conn now) nodes in
         case summary_loop members ([], [], 0, 0) of
           (drivers, arches, cpu, memory) \<Rightarrow>
             Inr (Capabilities drivers arches \<lparr>rl_CPU = Some cpu, rl_Memory = Some memory\<rparr> 0 defaultResources
               True True True 0 now members)))"

section \<open>Reserving\<close>

text \<open>The node chosen so far and its free memory; the empty name and \<open>-1\<close> before any.\<close>

fun reserve_loop ::
  "PoolProvider \<Rightarrow> NodeResources \<Rightarrow> string list \<Rightarrow> string list \<Rightarrow> Time \<Rightarrow> Conn list \<Rightarrow> string \<times> int \<Rightarrow> string \<times> int" where
  "reserve_loop p resources members tried now [] best = best"
| "reserve_loop p resources members tried now (conn # conns) (best, bestFree) =
     (let name = nd_Name (cn_Node conn) in
      if members \<noteq> [] \<and> name \<notin> set members \<or> name \<in> set tried
      then reserve_loop p resources members tried now conns (best, bestFree)
      else case free_room p conn now of
          (cpu, memory) \<Rightarrow>
            if cpu < nr_Cpu resources \<or> memory < nr_Memory resources
            then reserve_loop p resources members tried now conns (best, bestFree)
            else reserve_loop p resources members tried now conns
              (if bestFree < memory then (name, memory) else (best, bestFree)))"

definition reserve ::
  "string \<Rightarrow> NodeResources \<Rightarrow> string list \<Rightarrow> string list \<Rightarrow> Time \<Rightarrow> Conns \<Rightarrow> PoolProvider
    \<Rightarrow> (string \<times> bool) \<times> PoolProvider" where
  "reserve i resources members tried now conns p =
     (let best = fst (reserve_loop p resources members tried now (InPool conns (pl_name p)) ([], - 1)) in
      if best = [] then (([], False), p)
      else ((best, True), p\<lparr>pl_reserved := AList.update i
        \<lparr>rs_node = best, rs_cpu = nr_Cpu resources, rs_memory = nr_Memory resources, rs_at = now\<rparr> (pl_reserved p)\<rparr>))"

definition unreserve :: "string \<Rightarrow> PoolProvider \<Rightarrow> PoolProvider" where
  "unreserve i p = p\<lparr>pl_reserved := AList.delete i (pl_reserved p)\<rparr>"

section \<open>Calling agents\<close>

datatype GrpcCode = NotFoundCode | ResourceExhaustedCode | OtherCode nat

record AgentStatus =
  as_State :: State
  as_StartedAt :: "Time option"
  as_EndedAt :: "Time option"

record AgentResult =
  ar_ExitCode :: "int option"
  ar_Duration :: Duration
  ar_Logs :: string
  ar_LogsTruncated :: bool

record 'w PoolWorld =
  pw_pool :: PoolProvider
  pw_conns :: Conns
  pw_env :: 'w

type_synonym ('w, 'a) PM = "('w PoolWorld, 'a) state"
type_synonym ('w, 'r) Rpc = "Session \<Rightarrow> string \<Rightarrow> 'w PoolWorld \<Rightarrow> (goerror + 'r) \<times> 'w PoolWorld"

text \<open>\<open>ag_code\<close> is \<^verbatim>\<open>status.Code\<close> of the gRPC library, and \<open>ag_id\<close> the text of an identifier.\<close>

record 'w Agents =
  ag_Submit :: "Workload \<Rightarrow> ('w, State) Rpc"
  ag_Status :: "('w, AgentStatus) Rpc"
  ag_Result :: "('w, AgentResult) Rpc"
  ag_Cancel :: "('w, unit) Rpc"
  ag_Release :: "('w, unit) Rpc"
  ag_now :: "'w \<Rightarrow> Time \<times> 'w"
  ag_code :: "goerror \<Rightarrow> GrpcCode"
  ag_id :: "ID \<Rightarrow> string"

definition pool_now :: "'w Agents \<Rightarrow> ('w, Time) PM" where
  "pool_now g = State (\<lambda>s. case ag_now g (pw_env s) of (t, w) \<Rightarrow> (t, s\<lparr>pw_env := w\<rparr>))"

definition pool_get :: "('w PoolWorld \<Rightarrow> 'a) \<Rightarrow> ('w, 'a) PM" where
  "pool_get f = State (\<lambda>s. (f s, s))"

definition pool_set :: "(PoolProvider \<Rightarrow> PoolProvider) \<Rightarrow> ('w, unit) PM" where
  "pool_set f = State (\<lambda>s. ((), s\<lparr>pw_pool := f (pw_pool s)\<rparr>))"

definition rpc :: "('w, 'r) Rpc \<Rightarrow> Session \<Rightarrow> string \<Rightarrow> ('w, goerror + 'r) PM" where
  "rpc f session i = State (f session i)"

definition reserve_step ::
  "'w Agents \<Rightarrow> string \<Rightarrow> NodeResources \<Rightarrow> string list \<Rightarrow> string list \<Rightarrow> ('w, string \<times> bool) PM" where
  "reserve_step g i resources members tried =
     do {
       t \<leftarrow> pool_now g;
       State (\<lambda>s. case reserve i resources members tried t (pw_conns s) (pw_pool s) of
         (out, p) \<Rightarrow> (out, s\<lparr>pw_pool := p\<rparr>))
     }"

definition no_submission :: Submission where
  "no_submission = \<lparr>sub_ProviderID = [], sub_State = [], sub_Result = None\<rparr>"

definition send ::
  "'w Agents \<Rightarrow> string \<Rightarrow> string \<Rightarrow> Workload \<Rightarrow> ('w, Submission \<times> goerror option) PM" where
  "send g node i workload =
     do {
       conn \<leftarrow> pool_get (\<lambda>s. Conns_Get (pw_conns s) node);
       (case conn of
          None \<Rightarrow> State_Monad.return (no_submission,
            Some (Infrastructure (Formatted ''node %s left before the workload reached it'' [S node] [])))
        | Some c \<Rightarrow> do {
            sub \<leftarrow> rpc (ag_Submit g workload) (cn_Session c) i;
            (case sub of
               Inl err \<Rightarrow> State_Monad.return (no_submission,
                 Some (Infrastructure (Formatted ''submitting to node %s: %w'' [S node] [err])))
             | Inr st1 \<Rightarrow> do {
                 pool_set (\<lambda>p. p\<lparr>pl_placed := (pl_placed p)(i \<mapsto> node)\<rparr>);
                 State_Monad.return (\<lparr>sub_ProviderID = node,
                   sub_State = (if State_Terminal st1 then StateRunning else st1), sub_Result = None\<rparr>, None)
               })
          })
     }"

text \<open>The first number bounds the rounds in the model; \<open>None\<close> is a loop that did not end within them.\<close>

fun SubmitTo_loop ::
  "nat \<Rightarrow> 'w Agents \<Rightarrow> string \<Rightarrow> Workload \<Rightarrow> string list \<Rightarrow> string list
    \<Rightarrow> ('w, (Submission \<times> goerror option) option) PM" where
  "SubmitTo_loop 0 g i workload members tried = State_Monad.return None"
| "SubmitTo_loop (Suc fuel) g i workload members tried =
     do {
       (node, ok) \<leftarrow> reserve_step g i (wl_Resources workload) members tried;
       (if \<not> ok then do {
          name \<leftarrow> pool_get (\<lambda>s. pl_name (pw_pool s));
          State_Monad.return (Some (no_submission, Some (Infrastructure
            (Formatted ''no node in pool %q has room for %d millicores and %d MiB''
              [S name, N (nr_Cpu (wl_Resources workload)), N (nr_Memory (wl_Resources workload))] []))))
        }
        else do {
          (sub, err) \<leftarrow> send g node i workload;
          (case err of
             None \<Rightarrow> State_Monad.return (Some (sub, None))
           | Some e \<Rightarrow> do {
               pool_set (unreserve i);
               (if ag_code g e = ResourceExhaustedCode then SubmitTo_loop fuel g i workload members (tried @ [node])
                else State_Monad.return (Some (no_submission, Some e)))
             })
        })
     }"

definition SubmitTo ::
  "nat \<Rightarrow> Hcl \<Rightarrow> 'w Agents \<Rightarrow> ID \<Rightarrow> Task \<Rightarrow> string list \<Rightarrow> ('w, (Submission \<times> goerror option) option) PM" where
  "SubmitTo fuel h g i task members =
     (case workloadOf h task of
        Inl err \<Rightarrow> State_Monad.return (Some (no_submission, Some err))
      | Inr workload \<Rightarrow> SubmitTo_loop fuel g (ag_id g i) workload members [])"

definition Pool_Submit :: "nat \<Rightarrow> Hcl \<Rightarrow> 'w Agents \<Rightarrow> ID \<Rightarrow> Task \<Rightarrow> ('w, (Submission \<times> goerror option) option) PM" where
  "Pool_Submit fuel h g i task = SubmitTo fuel h g i task []"

section \<open>Executions\<close>

definition locate :: "PoolProvider \<Rightarrow> Conns \<Rightarrow> string \<Rightarrow> string option" where
  "locate p conns i =
     (case pl_placed p i of
        Some node \<Rightarrow> Some node
      | None \<Rightarrow>
          map_option (\<lambda>conn. nd_Name (cn_Node conn))
            (find_first (\<lambda>conn. i \<in> hw_ExecutionId ` set (nd_Held (cn_Node conn))) (InPool conns (pl_name p))))"

datatype holder = Holder Conn | Gone | HolderError goerror

definition holder_of :: "'w Agents \<Rightarrow> ID \<Rightarrow> Time \<Rightarrow> PoolProvider \<Rightarrow> Conns \<Rightarrow> holder" where
  "holder_of g i now p conns =
     (case locate p conns (ag_id g i) of
        None \<Rightarrow>
          if Time_Sub now (pl_created p) < leftGrace then Gone
          else HolderError (Formatted ''%w: %s in pool %q'' [I i, S (pl_name p)] [Sentinel ErrUnknownExecution])
      | Some node \<Rightarrow>
          (case Conns_Get conns node of
             Some conn \<Rightarrow> Holder conn
           | None \<Rightarrow>
               if (case LeftAt conns node of None \<Rightarrow> False | Some left \<Rightarrow> Time_Sub now left < leftGrace) then Gone
               else HolderError (Infrastructure (Formatted ''node %s holding %s is gone'' [S node, I i] []))))"

definition holder_step :: "'w Agents \<Rightarrow> ID \<Rightarrow> ('w, holder) PM" where
  "holder_step g i =
     do { t \<leftarrow> pool_now g; pool_get (\<lambda>s. holder_of g i t (pw_pool s) (pw_conns s)) }"

definition connected :: "'w Agents \<Rightarrow> ID \<Rightarrow> ('w, goerror + Conn) PM" where
  "connected g i =
     do {
       holder \<leftarrow> holder_step g i;
       State_Monad.return (case holder of
         HolderError err \<Rightarrow> Inl err
       | Gone \<Rightarrow> Inl (Infrastructure (Formatted ''the node holding %s is not connected'' [I i] []))
       | Holder conn \<Rightarrow> Inr conn)
     }"

definition pool_failure :: "'w Agents \<Rightarrow> string \<Rightarrow> ID \<Rightarrow> goerror \<Rightarrow> goerror" where
  "pool_failure g name i err =
     (if ag_code g err = NotFoundCode
      then Formatted ''%w: %s in pool %q'' [I i, S name] [Sentinel ErrUnknownExecution]
      else Infrastructure (Formatted ''pool %q: %w'' [S name] [err]))"

definition no_status :: Status where
  "no_status = \<lparr>st_ID = 0, st_State = [], st_ProviderID = [], st_StartedAt = 0, st_EndedAt = 0, st_UpdatedAt = 0\<rparr>"

definition Pool_Status :: "'w Agents \<Rightarrow> ID \<Rightarrow> ('w, Status \<times> goerror option) PM" where
  "Pool_Status g i =
     do {
       holder \<leftarrow> holder_step g i;
       name \<leftarrow> pool_get (\<lambda>s. pl_name (pw_pool s));
       (case holder of
          HolderError err \<Rightarrow> State_Monad.return (no_status, Some err)
        | Gone \<Rightarrow> do {
            t \<leftarrow> pool_now g;
            State_Monad.return (no_status\<lparr>st_ID := i, st_State := StateLost, st_UpdatedAt := t\<rparr>, None)
          }
        | Holder conn \<Rightarrow> do {
            answer \<leftarrow> rpc (ag_Status g) (cn_Session conn) (ag_id g i);
            (case answer of
               Inl err \<Rightarrow> State_Monad.return (no_status, Some (pool_failure g name i err))
             | Inr st1 \<Rightarrow> do {
                 t \<leftarrow> pool_now g;
                 State_Monad.return (\<lparr>st_ID = i, st_State = as_State st1, st_ProviderID = nd_Name (cn_Node conn),
                   st_StartedAt = (case as_StartedAt st1 of None \<Rightarrow> 0 | Some a \<Rightarrow> a),
                   st_EndedAt = (case as_EndedAt st1 of None \<Rightarrow> 0 | Some a \<Rightarrow> a), st_UpdatedAt = t\<rparr>, None)
               })
          })
     }"

definition Pool_Result :: "'w Agents \<Rightarrow> ID \<Rightarrow> ('w, Result option \<times> goerror option) PM" where
  "Pool_Result g i =
     do {
       conn \<leftarrow> connected g i;
       name \<leftarrow> pool_get (\<lambda>s. pl_name (pw_pool s));
       (case conn of
          Inl err \<Rightarrow> State_Monad.return (None, Some err)
        | Inr c \<Rightarrow> do {
            answer \<leftarrow> rpc (ag_Result g) (cn_Session c) (ag_id g i);
            State_Monad.return (case answer of
              Inl err \<Rightarrow> (None, Some (pool_failure g name i err))
            | Inr r \<Rightarrow> (Some \<lparr>res_ID = i, res_ExitCode = ar_ExitCode r, res_Duration = ar_Duration r,
                res_Billed = None, res_Logs = ar_Logs r, res_LogsTruncated = ar_LogsTruncated r\<rparr>, None))
          })
     }"

definition Pool_Cancel :: "'w Agents \<Rightarrow> ID \<Rightarrow> ('w, goerror option) PM" where
  "Pool_Cancel g i =
     do {
       conn \<leftarrow> connected g i;
       name \<leftarrow> pool_get (\<lambda>s. pl_name (pw_pool s));
       (case conn of
          Inl err \<Rightarrow> State_Monad.return (Some err)
        | Inr c \<Rightarrow> do {
            answer \<leftarrow> rpc (ag_Cancel g) (cn_Session c) (ag_id g i);
            State_Monad.return (case answer of Inl err \<Rightarrow> Some (pool_failure g name i err) | Inr u \<Rightarrow> None)
          })
     }"

definition Pool_Release :: "'w Agents \<Rightarrow> ID \<Rightarrow> ('w, goerror option) PM" where
  "Pool_Release g i =
     do {
       conn \<leftarrow> connected g i;
       name \<leftarrow> pool_get (\<lambda>s. pl_name (pw_pool s));
       (case conn of
          Inl err \<Rightarrow> State_Monad.return (Some err)
        | Inr c \<Rightarrow> do {
            answer \<leftarrow> rpc (ag_Release g) (cn_Session c) (ag_id g i);
            (case answer of
               Inl err \<Rightarrow> State_Monad.return (Some (pool_failure g name i err))
             | Inr u \<Rightarrow> do {
                 pool_set (\<lambda>p. p\<lparr>pl_placed := (pl_placed p)(ag_id g i := None),
                   pl_reserved := AList.delete (ag_id g i) (pl_reserved p)\<rparr>);
                 State_Monad.return None
               })
          })
     }"

section \<open>Choosing a node\<close>

definition eligible ::
  "PoolProvider \<Rightarrow> NodeResources \<Rightarrow> string list \<Rightarrow> string list \<Rightarrow> Time \<Rightarrow> Conn \<Rightarrow> bool" where
  "eligible p resources members tried now conn \<longleftrightarrow>
     (members = [] \<or> nd_Name (cn_Node conn) \<in> set members) \<and> nd_Name (cn_Node conn) \<notin> set tried \<and>
     nr_Cpu resources \<le> fst (free_room p conn now) \<and> nr_Memory resources \<le> snd (free_room p conn now)"

lemma reserve_loop_step:
  "reserve_loop p resources members tried now (conn # conns) best =
     reserve_loop p resources members tried now conns
       (if eligible p resources members tried now conn \<and> snd best < snd (free_room p conn now)
        then (nd_Name (cn_Node conn), snd (free_room p conn now)) else best)"
  by (cases best; cases "free_room p conn now") (auto simp: eligible_def Let_def)

lemma reserve_loop_best:
  "snd best \<le> snd (reserve_loop p resources members tried now conns best) \<and>
   (\<forall>conn \<in> set conns. eligible p resources members tried now conn \<longrightarrow>
      snd (free_room p conn now) \<le> snd (reserve_loop p resources members tried now conns best)) \<and>
   (reserve_loop p resources members tried now conns best = best \<or>
    (\<exists>conn \<in> set conns. eligible p resources members tried now conn \<and>
      reserve_loop p resources members tried now conns best = (nd_Name (cn_Node conn), snd (free_room p conn now))))"
proof (induction conns arbitrary: best)
  case Nil
  then show ?case by simp
next
  case (Cons conn conns)
  let ?best = "if eligible p resources members tried now conn \<and> snd best < snd (free_room p conn now)
        then (nd_Name (cn_Node conn), snd (free_room p conn now)) else best"
  show ?case unfolding reserve_loop_step using Cons.IH [of ?best] by (auto split: if_splits)
qed

lemma reserve_chooses:
  assumes "\<And>conn. conn \<in> set (InPool conns (pl_name p)) \<Longrightarrow> nd_Name (cn_Node conn) \<noteq> []" "0 \<le> nr_Memory resources"
    and "reserve i resources members tried now conns p = ((node, ok), p')"
  shows "ok \<longleftrightarrow> (\<exists>conn \<in> set (InPool conns (pl_name p)). eligible p resources members tried now conn)"
    and "ok \<Longrightarrow> \<exists>conn \<in> set (InPool conns (pl_name p)). nd_Name (cn_Node conn) = node \<and>
      eligible p resources members tried now conn \<and>
      (\<forall>other \<in> set (InPool conns (pl_name p)). eligible p resources members tried now other \<longrightarrow>
        snd (free_room p other now) \<le> snd (free_room p conn now))"
proof -
  let ?pool = "InPool conns (pl_name p)" and ?best = "reserve_loop p resources members tried now (InPool conns (pl_name p)) ([], - 1)"
  note best = reserve_loop_best [of "([], - 1)" p resources members tried now ?pool]
  have ok: "ok \<longleftrightarrow> fst ?best \<noteq> []" "ok \<Longrightarrow> node = fst ?best"
    using assms(3) by (auto simp: reserve_def Let_def split: if_splits)
  have some: "ok" if "conn \<in> set ?pool" "eligible p resources members tried now conn" for conn
  proof -
    have "0 \<le> snd ?best" using that assms(2) best by (force simp: eligible_def)
    then show ?thesis using best assms(1) by (auto simp: ok(1))
  qed
  have chosen: "\<exists>conn \<in> set ?pool. eligible p resources members tried now conn \<and> ?best = (node, snd (free_room p conn now))
      \<and> nd_Name (cn_Node conn) = node" if ok
    using that ok best by auto
  show "ok \<longleftrightarrow> (\<exists>conn \<in> set ?pool. eligible p resources members tried now conn)"
    using some chosen by blast
  assume ok
  with chosen obtain conn where c: "conn \<in> set ?pool" "eligible p resources members tried now conn"
    "?best = (node, snd (free_room p conn now))" "nd_Name (cn_Node conn) = node" by blast
  have "snd (free_room p other now) \<le> snd (free_room p conn now)"
    if "other \<in> set ?pool" "eligible p resources members tried now other" for other
  proof -
    have "snd (free_room p other now) \<le> snd ?best" using best that by blast
    then show ?thesis by (simp only: c(3) snd_conv)
  qed
  with c show "\<exists>conn \<in> set ?pool. nd_Name (cn_Node conn) = node \<and> eligible p resources members tried now conn \<and>
      (\<forall>other \<in> set ?pool. eligible p resources members tried now other \<longrightarrow>
        snd (free_room p other now) \<le> snd (free_room p conn now))" by blast
qed

lemma free_loop_append:
  "free_loop node reported now (rs @ [(i, r)]) room =
     (case free_loop node reported now rs room of
        (cpu, memory) \<Rightarrow>
          if rs_node r \<noteq> node \<or> i \<in> reported \<or> reservationTTL < Time_Sub now (rs_at r) then (cpu, memory)
          else (wrap64 (cpu - rs_cpu r), wrap64 (memory - rs_memory r)))"
  by (induction node reported now rs room rule: free_loop.induct) (auto split: prod.split)

lemma free_loop_int64:
  "int64 (fst room) \<Longrightarrow> int64 (snd room) \<Longrightarrow>
   int64 (fst (free_loop node reported now rs room)) \<and> int64 (snd (free_loop node reported now rs room))"
  by (induction node reported now rs room rule: free_loop.induct) auto

lemma free_room_int64: "int64 (fst (free_room p conn now))" "int64 (snd (free_room p conn now))"
  by (auto simp: free_room_def free_loop_int64 split: prod.split)

lemma update_fresh: "map_of xs k = None \<Longrightarrow> AList.update k v xs = xs @ [(k, v)]"
  by (induction xs) (auto split: if_splits)

lemma Time_Sub_self [simp]: "Time_Sub t t = 0"
  by (simp add: Time_Sub_def)

lemma free_room_reserved:
  assumes "map_of (pl_reserved p) i = None"
  shows "free_room (p\<lparr>pl_reserved := AList.update i r (pl_reserved p)\<rparr>) conn now =
    (case free_room p conn now of
       (cpu, memory) \<Rightarrow>
         if rs_node r \<noteq> nd_Name (cn_Node conn) \<or> i \<in> hw_ExecutionId ` set (nd_Held (cn_Node conn)) \<or>
            reservationTTL < Time_Sub now (rs_at r)
         then (cpu, memory) else (wrap64 (cpu - rs_cpu r), wrap64 (memory - rs_memory r)))"
  using assms by (simp add: free_room_def update_fresh free_loop_append split: prod.split)

lemma int64_sub: "0 \<le> y \<Longrightarrow> y \<le> x \<Longrightarrow> int64 x \<Longrightarrow> int64 (x - y)"
  by (auto simp: int64_def)

section \<open>Submitting\<close>

lemma reserve_step_run:
  "run_state (reserve_step g i resources members tried) s =
     (case ag_now g (pw_env s) of (t, w) \<Rightarrow>
        case reserve i resources members tried t (pw_conns s) (pw_pool s) of
          (out, p) \<Rightarrow> (out, s\<lparr>pw_env := w, pw_pool := p\<rparr>))"
  by (simp add: reserve_step_def pool_now_def State_Monad.bind_def split: prod.split)

lemma send_run:
  "run_state (send g node i workload) s =
     (case Conns_Get (pw_conns s) node of
        None \<Rightarrow> ((no_submission, Some (Infrastructure (Formatted ''node %s left before the workload reached it'' [S node] []))), s)
      | Some c \<Rightarrow>
          (case ag_Submit g workload (cn_Session c) i s of
             (Inl err, s') \<Rightarrow> ((no_submission, Some (Infrastructure (Formatted ''submitting to node %s: %w'' [S node] [err]))), s')
           | (Inr st1, s') \<Rightarrow>
               ((\<lparr>sub_ProviderID = node, sub_State = (if State_Terminal st1 then StateRunning else st1), sub_Result = None\<rparr>, None),
                s'\<lparr>pw_pool := (pw_pool s')\<lparr>pl_placed := (pl_placed (pw_pool s'))(i \<mapsto> node)\<rparr>\<rparr>)))"
  by (simp add: send_def pool_get_def pool_set_def rpc_def State_Monad.bind_def State_Monad.return_def
      split: option.split prod.split sum.split)

lemma SubmitTo_loop_run:
  "run_state (SubmitTo_loop (Suc fuel) g i workload members tried) s =
     (case run_state (reserve_step g i (wl_Resources workload) members tried) s of
        ((node, ok), s1) \<Rightarrow>
          if \<not> ok then (Some (no_submission, Some (Infrastructure
              (Formatted ''no node in pool %q has room for %d millicores and %d MiB''
                [S (pl_name (pw_pool s1)), N (nr_Cpu (wl_Resources workload)), N (nr_Memory (wl_Resources workload))] []))), s1)
          else (case run_state (send g node i workload) s1 of
              ((sub, None), s2) \<Rightarrow> (Some (sub, None), s2)
            | ((sub, Some e), s2) \<Rightarrow>
                (let s3 = s2\<lparr>pw_pool := unreserve i (pw_pool s2)\<rparr> in
                 if ag_code g e = ResourceExhaustedCode
                 then run_state (SubmitTo_loop fuel g i workload members (tried @ [node])) s3
                 else (Some (no_submission, Some e), s3))))"
  by (simp add: pool_get_def pool_set_def State_Monad.bind_def State_Monad.return_def Let_def
      split: prod.split option.split)

declare SubmitTo_loop.simps(2) [simp del]

text \<open>Which nodes a call can leave connected, in terms of the names in \<open>A\<close>.\<close>

definition named_in :: "string set \<Rightarrow> 'w PoolWorld \<Rightarrow> bool" where
  "named_in A s \<longleftrightarrow> (\<lambda>conn. nd_Name (cn_Node conn)) ` set (InPool (pw_conns s) (pl_name (pw_pool s))) \<subseteq> A"

definition calls_stay_in :: "string set \<Rightarrow> 'w Agents \<Rightarrow> bool" where
  "calls_stay_in A g \<longleftrightarrow>
     (\<forall>workload session i s. named_in A s \<longrightarrow> named_in A (snd (ag_Submit g workload session i s)))"

lemma reserve_from:
  assumes "reserve i resources members tried now conns p = ((node, ok), p')"
  shows "if ok then node \<noteq> [] \<and> node \<notin> set tried \<and> (members = [] \<or> node \<in> set members) \<and>
      node \<in> (\<lambda>conn. nd_Name (cn_Node conn)) ` set (InPool conns (pl_name p)) \<and> pl_name p' = pl_name p
    else p' = p"
  using assms reserve_loop_best [of "([], - 1)" p resources members tried now "InPool conns (pl_name p)"]
  by (auto simp: reserve_def Let_def eligible_def split: if_splits)

lemma unreserve_simps [simp]:
  "pl_name (unreserve i p) = pl_name p" "pl_placed (unreserve i p) = pl_placed p"
  "map_of (pl_reserved (unreserve i p)) i = None"
  by (simp_all add: unreserve_def delete_conv)

lemma named_in_upd [simp]:
  "named_in A (s\<lparr>pw_env := w\<rparr>) = named_in A s"
  "pl_name p = pl_name (pw_pool s) \<Longrightarrow> named_in A (s\<lparr>pw_pool := p\<rparr>) = named_in A s"
  by (simp_all add: named_in_def)

lemma send_named_in:
  assumes "calls_stay_in A g" "named_in A s" "run_state (send g node i workload) s = (out, s')"
  shows "named_in A s'"
proof (cases "Conns_Get (pw_conns s) node")
  case None
  with assms(2,3) show ?thesis by (simp add: send_run)
next
  case (Some c)
  obtain answer s1 where a: "ag_Submit g workload (cn_Session c) i s = (answer, s1)" by fastforce
  have "named_in A s1" using assms(1,2) a by (metis calls_stay_in_def snd_conv)
  with assms(3) Some a show ?thesis by (auto simp: send_run split: sum.splits)
qed

definition settled :: "string \<Rightarrow> string list \<Rightarrow> Submission \<Rightarrow> goerror option \<Rightarrow> 'w PoolWorld \<Rightarrow> bool" where
  "settled i members sub err s \<longleftrightarrow>
     (if err = None
      then sub_ProviderID sub \<noteq> [] \<and> (members = [] \<or> sub_ProviderID sub \<in> set members) \<and>
        \<not> State_Terminal (sub_State sub) \<and> pl_placed (pw_pool s) i = Some (sub_ProviderID sub)
      else sub = no_submission \<and> map_of (pl_reserved (pw_pool s)) i = None)"

lemma StateRunning_live [simp]: "\<not> State_Terminal StateRunning"
  by code_simp

lemma SubmitTo_loop_settles:
  assumes "finite A" "calls_stay_in A g" "named_in A s" "card (A - set tried) < fuel"
    and "map_of (pl_reserved (pw_pool s)) i = None"
  shows "\<exists>sub err s'. run_state (SubmitTo_loop fuel g i workload members tried) s = (Some (sub, err), s') \<and>
    settled i members sub err s'"
  using assms(3-5)
proof (induction fuel arbitrary: tried s)
  case 0
  then show ?case by simp
next
  case (Suc fuel)
  obtain t w where now: "ag_now g (pw_env s) = (t, w)" by fastforce
  obtain node ok p where r: "reserve i (wl_Resources workload) members tried t (pw_conns s) (pw_pool s) = ((node, ok), p)"
    by (metis surj_pair)
  define s1 where "s1 = s\<lparr>pw_env := w, pw_pool := p\<rparr>"
  have step: "run_state (reserve_step g i (wl_Resources workload) members tried) s = ((node, ok), s1)"
    by (simp add: reserve_step_run now r s1_def)
  note pick = reserve_from [OF r]
  show ?case
  proof (cases ok)
    case False
    with pick Suc.prems(3) show ?thesis
      by (simp add: SubmitTo_loop_run step settled_def s1_def)
  next
    case True
    obtain sub err s2 where sent: "run_state (send g node i workload) s1 = ((sub, err), s2)" by (metis surj_pair)
    have n1: "named_in A s1" using Suc.prems(1) pick True by (simp add: s1_def)
    have n2: "named_in A s2" by (rule send_named_in [OF assms(2) n1 sent])
    show ?thesis
    proof (cases err)
      case None
      with sent pick True show ?thesis
        by (auto simp: SubmitTo_loop_run step settled_def send_run split: option.splits prod.splits sum.splits if_splits)
    next
      case (Some e)
      let ?s3 = "s2\<lparr>pw_pool := unreserve i (pw_pool s2)\<rparr>"
      show ?thesis
      proof (cases "ag_code g e = ResourceExhaustedCode")
        case False
        with Some show ?thesis
          by (simp add: SubmitTo_loop_run step True sent settled_def)
      next
        case retry: True
        have "node \<in> A - set tried" using Suc.prems(1) pick True by (auto simp: named_in_def)
        then have "card (A - set (tried @ [node])) < card (A - set tried)"
          using assms(1) by (intro psubset_card_mono) auto
        then have "card (A - set (tried @ [node])) < fuel" using Suc.prems(2) by simp
        from Suc.IH [OF _ this, of ?s3] n2 Some retry show ?thesis
          by (simp add: SubmitTo_loop_run step True sent)
      qed
    qed
  qed
qed

section \<open>Properties\<close>

text \<open>C26. A reservation is made exactly when a permitted, untried node of the pool has the room asked for; it
  is made on one with the most free memory among them, takes just that room there, which never goes
  below zero, and changes no other node's.\<close>

theorem reservation_takes_room:
  assumes "conns_reach conns" "\<forall>conn \<in> set (InPool conns (pl_name p)). nd_Name (cn_Node conn) \<noteq> [] \<and>
      i \<notin> hw_ExecutionId ` set (nd_Held (cn_Node conn))"
    and "0 \<le> nr_Cpu resources" "0 \<le> nr_Memory resources" "map_of (pl_reserved p) i = None"
    and "reserve i resources members tried now conns p = ((node, ok), p')"
  shows "(ok \<longleftrightarrow> (\<exists>conn \<in> set (InPool conns (pl_name p)). eligible p resources members tried now conn)) \<and>
    (if ok then \<exists>conn \<in> set (InPool conns (pl_name p)). Conns_Get conns node = Some conn \<and>
        eligible p resources members tried now conn \<and>
        (\<forall>other \<in> set (InPool conns (pl_name p)). eligible p resources members tried now other \<longrightarrow>
          snd (free_room p other now) \<le> snd (free_room p conn now)) \<and>
        free_room p' conn now =
          (fst (free_room p conn now) - nr_Cpu resources, snd (free_room p conn now) - nr_Memory resources) \<and>
        0 \<le> fst (free_room p' conn now) \<and> 0 \<le> snd (free_room p' conn now) \<and>
        (\<forall>other \<in> set (InPool conns (pl_name p)). other \<noteq> conn \<longrightarrow> free_room p' other now = free_room p other now)
     else p' = p)"
proof (cases ok)
  case False
  with reserve_chooses(1) [OF _ assms(4,6)] assms(2) reserve_from [OF assms(6)] show ?thesis by simp
next
  case True
  let ?pool = "InPool conns (pl_name p)"
  note reach = conns_reach_ok [OF assms(1)]
  have p': "p' = p\<lparr>pl_reserved := AList.update i
      \<lparr>rs_node = node, rs_cpu = nr_Cpu resources, rs_memory = nr_Memory resources, rs_at = now\<rparr> (pl_reserved p)\<rparr>"
    using assms(6) True by (auto simp: reserve_def Let_def split: if_splits)
  obtain conn where c: "conn \<in> set ?pool" "nd_Name (cn_Node conn) = node" "eligible p resources members tried now conn"
    "\<forall>other \<in> set ?pool. eligible p resources members tried now other \<longrightarrow>
      snd (free_room p other now) \<le> snd (free_room p conn now)"
    using reserve_chooses(2) [OF _ assms(4,6) True] assms(2) by blast
  have get: "Conns_Get conns node = Some conn" using InPool_Get [OF reach c(1)] c(2) by simp
  have room: "free_room p' conn now =
      (fst (free_room p conn now) - nr_Cpu resources, snd (free_room p conn now) - nr_Memory resources)"
  proof -
    obtain cpu memory where free: "free_room p conn now = (cpu, memory)" by fastforce
    have "int64 (cpu - nr_Cpu resources)" "int64 (memory - nr_Memory resources)"
      using assms(3,4) c(3) free_room_int64 [of p conn now] by (simp_all add: int64_sub eligible_def free)
    then show ?thesis
      using assms(2) c(1,2) unfolding p' free_room_reserved [OF assms(5)]
      by (simp add: free reservationTTL_def Minute_def Second_def)
  qed
  have other: "free_room p' other now = free_room p other now" if "other \<in> set ?pool" "other \<noteq> conn" for other
  proof -
    have "nd_Name (cn_Node other) \<noteq> node" using InPool_Get [OF reach that(1)] get that(2) by auto
    then show ?thesis unfolding p' free_room_reserved [OF assms(5)] by (auto split: prod.split)
  qed
  have "\<exists>conn \<in> set ?pool. eligible p resources members tried now conn" using c by blast
  moreover have "0 \<le> fst (free_room p' conn now)" "0 \<le> snd (free_room p' conn now)"
    using room c(3) by (simp_all add: eligible_def)
  ultimately show ?thesis using True c get room other by auto
qed

definition home_pool :: PoolProvider where "home_pool = NewPool ''home'' 0"

definition home_conn :: Conn where
  "home_conn = \<lparr>cn_Node = sample_node, cn_Address = ''10.0.0.1:1'', cn_Established = 5, cn_Session = 1\<rparr>"

lemma home_in_pool: "InPool sample_conns (pl_name home_pool) = [home_conn]"
  by code_simp

theorem reservation_takes_room_witness:
  "fst (free_room (snd (reserve ''e'' \<lparr>nr_Cpu = 500, nr_Memory = 192\<rparr> [] [] 9 sample_conns home_pool)) home_conn 9) = 3500"
proof -
  let ?r = "\<lparr>nr_Cpu = 500, nr_Memory = 192\<rparr>"
  have pick: "fst (reserve ''e'' ?r [] [] 9 sample_conns home_pool) = (''n1'', True)" by code_simp
  then obtain p' where run: "reserve ''e'' ?r [] [] 9 sample_conns home_pool = ((''n1'', True), p')"
    by (metis prod.collapse)
  have free: "fst (free_room home_pool home_conn 9) = 4000" by code_simp
  have fresh: "\<forall>conn \<in> set (InPool sample_conns (pl_name home_pool)). nd_Name (cn_Node conn) \<noteq> [] \<and>
      ''e'' \<notin> hw_ExecutionId ` set (nd_Held (cn_Node conn))"
    by (simp add: home_in_pool home_conn_def sample_node_def)
  have "map_of (pl_reserved home_pool) ''e'' = None" by (simp add: home_pool_def NewPool_def)
  from reservation_takes_room [OF sample_conns_reach fresh _ _ this run] show ?thesis
    by (simp add: home_in_pool run free)
qed

text \<open>C36. A submission ends, whatever the agents answer, after at most one attempt per node name: it either
  leaves the execution recorded on a permitted node and not yet finished, or fails with the room it held
  given back.\<close>

theorem submission_settles:
  assumes "finite A" "calls_stay_in A g" "named_in A s" "card A < fuel"
    and "map_of (pl_reserved (pw_pool s)) (ag_id g i) = None"
  shows "\<exists>sub err s'. run_state (SubmitTo fuel h g i task members) s = (Some (sub, err), s') \<and>
    settled (ag_id g i) members sub err s'"
proof (cases "workloadOf h task")
  case (Inl err)
  with assms(5) show ?thesis by (simp add: SubmitTo_def State_Monad.return_def settled_def)
next
  case (Inr workload)
  with SubmitTo_loop_settles [OF assms(1-3) _ assms(5), of "[]" fuel workload members] assms(4)
  show ?thesis by (simp add: SubmitTo_def)
qed

definition image_hcl :: Hcl where
  "image_hcl =
     \<lparr>hcl_ParseConfig = (\<lambda>source filename. (None, [])),
      hcl_PartialContent = (\<lambda>schema body. (Some \<lparr>hc_Attributes =
        map (\<lambda>n. (n, \<lparr>ha_Name = n, ha_Expr = HclExpr 0, ha_Range = 8\<rparr>)) (filter (\<lambda>n. n = ConfigImage) (bs_Attributes schema)),
        hc_Blocks = []\<rparr>, [])),
      hcl_JustAttributes = (\<lambda>body. (Some [], [])), hcl_Value = (\<lambda>e ctx. (CtyString ''alpine'', [])),
      hcl_ExprRange = (\<lambda>e. 0), hcl_NestedBlocks = (\<lambda>body. Some []),
      hcl_ToString = (\<lambda>v. case v of CtyString s \<Rightarrow> Inr s | _ \<Rightarrow> Inl ''a string is required''),
      hcl_ToStrings = (\<lambda>v. Inl ''a list is required''), hcl_Error = (\<lambda>ds. ''diagnostics'')\<rparr>"

definition image_task :: Task where
  "image_task = \<lparr>task_Name = ''build'', task_Driver = DriverContainer, task_Config = Some (HclBody 3),
     task_Env = None, task_Source = None, task_WorkingDirectory = None, task_Resources = None, task_Timeout = None,
     task_Network = None, task_Execution = None, task_Retry = None, task_Vars = None, task_Meta = []\<rparr>"

text \<open>One agent that runs everything it is sent, on a clock at 9.\<close>

definition sample_agents :: "unit Agents" where
  "sample_agents =
     \<lparr>ag_Submit = (\<lambda>workload session i s. (Inr StateAccepted, s)),
      ag_Status = (\<lambda>session i s. (Inl (Sentinel ''down''), s)), ag_Result = (\<lambda>session i s. (Inl (Sentinel ''down''), s)),
      ag_Cancel = (\<lambda>session i s. (Inr (), s)), ag_Release = (\<lambda>session i s. (Inr (), s)),
      ag_now = (\<lambda>w. (9, w)), ag_code = (\<lambda>e. OtherCode 0), ag_id = (\<lambda>i. ''e'')\<rparr>"

definition home_world :: "unit PoolWorld" where
  "home_world = \<lparr>pw_pool = home_pool, pw_conns = sample_conns, pw_env = ()\<rparr>"

theorem submission_settles_witness:
  "fst (run_state (SubmitTo 2 image_hcl sample_agents 7 image_task []) home_world) =
     Some (\<lparr>sub_ProviderID = ''n1'', sub_State = StateAccepted, sub_Result = None\<rparr>, None) \<and>
   pl_placed (pw_pool (snd (run_state (SubmitTo 2 image_hcl sample_agents 7 image_task []) home_world))) ''e'' = Some ''n1''"
proof -
  have run: "fst (run_state (SubmitTo 2 image_hcl sample_agents 7 image_task []) home_world) =
      Some (\<lparr>sub_ProviderID = ''n1'', sub_State = StateAccepted, sub_Result = None\<rparr>, None)" by code_simp
  have "calls_stay_in {''n1''} sample_agents" by (simp add: calls_stay_in_def sample_agents_def)
  moreover have "named_in {''n1''} home_world"
  proof -
    show ?thesis by (simp add: named_in_def home_world_def home_in_pool home_conn_def sample_node_def)
  qed
  moreover have "map_of (pl_reserved (pw_pool home_world)) (ag_id sample_agents 7) = None"
    by (simp add: home_world_def home_pool_def NewPool_def)
  ultimately obtain sub err s' where "run_state (SubmitTo 2 image_hcl sample_agents 7 image_task []) home_world =
      (Some (sub, err), s')" "settled (ag_id sample_agents 7) [] sub err s'"
    using submission_settles [of "{''n1''}" sample_agents home_world 2 7 image_hcl image_task "[]"] by auto
  with run show ?thesis by (auto simp: settled_def sample_agents_def)
qed

lemma Pool_Status_run:
  "run_state (Pool_Status g i) s =
     (case ag_now g (pw_env s) of (t, w) \<Rightarrow>
        case holder_of g i t (pw_pool s) (pw_conns s) of
          HolderError err \<Rightarrow> ((no_status, Some err), s\<lparr>pw_env := w\<rparr>)
        | Gone \<Rightarrow> (case ag_now g w of (t', w') \<Rightarrow>
            ((no_status\<lparr>st_ID := i, st_State := StateLost, st_UpdatedAt := t'\<rparr>, None), s\<lparr>pw_env := w'\<rparr>))
        | Holder conn \<Rightarrow>
            (case ag_Status g (cn_Session conn) (ag_id g i) (s\<lparr>pw_env := w\<rparr>) of
               (Inl err, s') \<Rightarrow> ((no_status, Some (pool_failure g (pl_name (pw_pool s)) i err)), s')
             | (Inr st1, s') \<Rightarrow> (case ag_now g (pw_env s') of (t', w') \<Rightarrow>
                 ((\<lparr>st_ID = i, st_State = as_State st1, st_ProviderID = nd_Name (cn_Node conn),
                    st_StartedAt = (case as_StartedAt st1 of None \<Rightarrow> 0 | Some a \<Rightarrow> a),
                    st_EndedAt = (case as_EndedAt st1 of None \<Rightarrow> 0 | Some a \<Rightarrow> a), st_UpdatedAt = t'\<rparr>, None),
                  s'\<lparr>pw_env := w'\<rparr>))))"
  by (simp add: Pool_Status_def holder_step_def pool_now_def pool_get_def rpc_def State_Monad.bind_def
      State_Monad.return_def split: prod.split holder.split sum.split)

text \<open>An execution is reported lost, not failed, while its node may still come back: for five minutes after
  the provider started when no node is known to hold it, and for five minutes after the node it was placed
  on left.  Past that the answer is an error, and a node that is connected is the one asked.\<close>

theorem absent_node_reports_lost:
  assumes "run_state (Pool_Status g i) s = ((st, err), s')" "fst (ag_now g (pw_env s)) = t"
    and "locate (pw_pool s) (pw_conns s) (ag_id g i) = known_node"
    and "case known_node of None \<Rightarrow> True | Some node \<Rightarrow> Conns_Get (pw_conns s) node = None"
  shows "pw_pool s' = pw_pool s \<and> pw_conns s' = pw_conns s \<and>
    (if (case known_node of None \<Rightarrow> Time_Sub t (pl_created (pw_pool s)) < leftGrace
         | Some node \<Rightarrow> (case LeftAt (pw_conns s) node of None \<Rightarrow> False | Some gone \<Rightarrow> Time_Sub t gone < leftGrace))
     then err = None \<and> st_ID st = i \<and> st_State st = StateLost
     else st = no_status \<and> (\<exists>e. err = Some e \<and> (err_is ErrUnknownExecution e \<longleftrightarrow> known_node = None)))"
  using assms
  by (auto simp: Pool_Status_run holder_of_def Infrastructure_def split: option.splits prod.splits if_splits)

theorem absent_node_reports_lost_witness:
  "st_State (fst (fst (run_state (Pool_Status sample_agents 7) home_world))) = StateLost"
proof -
  have none: "locate (pw_pool home_world) (pw_conns home_world) (ag_id sample_agents 7) = None" by code_simp
  from absent_node_reports_lost [OF _ refl none, of "fst (fst (run_state (Pool_Status sample_agents 7) home_world))"
      "snd (fst (run_state (Pool_Status sample_agents 7) home_world))"
      "snd (run_state (Pool_Status sample_agents 7) home_world)"]
  show ?thesis
    by (simp add: sample_agents_def home_world_def home_pool_def NewPool_def leftGrace_def Time_Sub_def Minute_def Second_def)
qed

end
