(* ===== verification/Config.thy ===== *)
theory Config
  imports Validation Quota
begin

text \<open>
  \<^verbatim>\<open>internal/config\<close>: the configuration file: providers, namespaces and the server, how files are found and
  merged, every check of what was decoded, and where a credential comes from.  The HCL library is
  the parameter \<open>h\<close> with \<open>decode\<close> for \<^verbatim>\<open>gohcl.DecodeBody\<close>; the file system, the environment and commands
  are the record \<open>Host\<close>, read only.
\<close>

section \<open>The file\<close>

record SchedulingBlock =
  sched_Tiers :: "TierMode option"

record TLSBlock =
  tls_Cert :: string
  tls_Key :: string

record AgentTLSBlock = TLSBlock +
  tls_CA :: string

record ServerBlock =
  srv_Bind :: "string option"
  srv_AgentBind :: "string option"
  srv_TLS :: "TLSBlock option"
  srv_AgentTLS :: "AgentTLSBlock option"

record StoreBlock =
  sto_DSN :: string

record PoolBlock =
  pb_Name :: string
  pb_Meter :: string
  pb_Limit :: int
  pb_Period :: string

record NamespaceQuota =
  nq_Provider :: string
  nq_Pools :: "PoolBlock list"

record ConfigNamespace =
  ns_Name :: string
  ns_Quotas :: "NamespaceQuota list"

record CredentialsBlock =
  cr_File :: "string option"
  cr_Env :: "string option"
  cr_Exec :: "string list"

record ConfigProvider =
  cp_Name :: string
  cp_Type :: string
  cp_Enabled :: "bool option"
  cp_Tier :: "int option"
  cp_Config :: "HclBody option"
  cp_Credentials :: "CredentialsBlock option"
  cp_Meta :: "HclBody option"
  cp_Pools :: "PoolBlock list"

record ConfigFile =
  cf_Server :: "ServerBlock option"
  cf_Store :: "StoreBlock option"
  cf_Scheduling :: "SchedulingBlock option"
  cf_Providers :: "ConfigProvider list"
  cf_Namespaces :: "ConfigNamespace list"

definition no_file :: ConfigFile where
  "no_file = \<lparr>cf_Server = None, cf_Store = None, cf_Scheduling = None, cf_Providers = [], cf_Namespaces = []\<rparr>"

definition Scheduling_TierMode :: "SchedulingBlock option \<Rightarrow> TierMode" where
  "Scheduling_TierMode s = (case s of None \<Rightarrow> DefaultTierMode | Some b \<Rightarrow> (case sched_Tiers b of None \<Rightarrow> DefaultTierMode | Some t \<Rightarrow> t))"

definition DefaultBind :: string where "DefaultBind = ''127.0.0.1:4747''"
definition DefaultAgentBind :: string where "DefaultAgentBind = ''127.0.0.1:4748''"

definition Server_Address :: "ServerBlock option \<Rightarrow> string" where
  "Server_Address s = (case s of None \<Rightarrow> DefaultBind | Some b \<Rightarrow> (case srv_Bind b of None \<Rightarrow> DefaultBind | Some a \<Rightarrow> a))"

definition Server_AgentAddress :: "ServerBlock option \<Rightarrow> string" where
  "Server_AgentAddress s =
     (case s of None \<Rightarrow> DefaultAgentBind | Some b \<Rightarrow> (case srv_AgentBind b of None \<Rightarrow> DefaultAgentBind | Some a \<Rightarrow> a))"

definition IsEnabled :: "ConfigProvider \<Rightarrow> bool" where
  "IsEnabled p = (case cp_Enabled p of None \<Rightarrow> True | Some e \<Rightarrow> e)"

definition TierOf :: "ConfigProvider \<Rightarrow> int" where
  "TierOf p = (case cp_Tier p of None \<Rightarrow> 0 | Some t \<Rightarrow> t)"

definition ConfigBody :: "ConfigProvider \<Rightarrow> HclBody option" where
  "ConfigBody p = cp_Config p"

definition pool_spec :: "PoolBlock \<Rightarrow> PoolSpec" where
  "pool_spec b = \<lparr>spec_Name = pb_Name b, spec_Meter = pb_Meter b, spec_Limit = pb_Limit b, spec_Period = pb_Period b\<rparr>"

definition poolSpecs :: "PoolBlock list \<Rightarrow> PoolSpec list" where
  "poolSpecs bs = map pool_spec bs"

definition Provider_PoolSpecs :: "ConfigProvider \<Rightarrow> PoolSpec list" where
  "Provider_PoolSpecs p = poolSpecs (cp_Pools p)"

definition NamespaceQuota_PoolSpecs :: "NamespaceQuota \<Rightarrow> PoolSpec list" where
  "NamespaceQuota_PoolSpecs q = poolSpecs (nq_Pools q)"

fun Tags_loop ::
  "Hcl \<Rightarrow> (string \<times> HclAttribute) list \<Rightarrow> (string \<times> string) list \<Rightarrow> Diagnostic list \<Rightarrow> (string \<times> string) list \<times> Diagnostic list" where
  "Tags_loop h [] tags diags = (tags, diags)"
| "Tags_loop h ((name, attr) # attrs) tags diags =
     (case hcl_Value h (ha_Expr attr) None of
        (v, vd) \<Rightarrow>
          (case v of
             CtyString s \<Rightarrow> Tags_loop h attrs (AList.update name s tags) (diags @ vd)
           | _ \<Rightarrow> Tags_loop h attrs tags (diags @ vd @
               [diagnostic (''Invalid provider tag'', []) (''The value for %q must be a string.'', [name])
                 (Some (hcl_ExprRange h (ha_Expr attr)))])))"

definition Tags :: "Hcl \<Rightarrow> ConfigProvider \<Rightarrow> (string \<times> string) list \<times> Diagnostic list" where
  "Tags h p =
     (case cp_Meta p of
        None \<Rightarrow> ([], [])
      | Some body \<Rightarrow>
          (case hcl_JustAttributes h body of
             (None, diags) \<Rightarrow> ([], diags)
           | (Some attrs, diags) \<Rightarrow> Tags_loop h attrs [] diags))"

section \<open>Checks\<close>

definition poolDiag :: "Text \<Rightarrow> string \<Rightarrow> Text \<Rightarrow> Diagnostic" where
  "poolDiag owner pool problem =
     simple (''Invalid quota pool'', [])
       (fst owner @ '' pool %q '' @ fst problem, snd owner @ [pool] @ snd problem)"

definition joinMeters :: string where "joinMeters = comma Meters"
definition joinPeriods :: string where "joinPeriods = comma Periods"

definition pool_check :: "Text \<Rightarrow> string set \<Rightarrow> PoolBlock \<Rightarrow> Diagnostic list" where
  "pool_check owner seen pool =
     (if pb_Name pool \<in> seen
      then [poolDiag owner (pb_Name pool) (''is declared twice. A pool name is what its usage is counted under, so it must identify one budget.'', [])]
      else if \<not> Meter_Valid (pb_Meter pool)
      then [poolDiag owner (pb_Name pool) (''meters %q, which is not something Vagabond counts. Known meters are %s.'', [pb_Meter pool, joinMeters])]
      else if \<not> Period_Valid (pb_Period pool)
      then [poolDiag owner (pb_Name pool) (''resets %q. Known periods are %s.'', [pb_Period pool, joinPeriods])]
      else if pb_Limit pool \<le> 0
      then [poolDiag owner (pb_Name pool) (''has a limit of %d. A pool exists to refuse an execution, so its limit must be positive.'', [Itoa (pb_Limit pool)])]
      else [])"

fun validatePools_loop :: "Text \<Rightarrow> PoolBlock list \<Rightarrow> string set \<Rightarrow> Diagnostic list" where
  "validatePools_loop owner [] seen = []"
| "validatePools_loop owner (pool # ps) seen =
     pool_check owner seen pool @ validatePools_loop owner ps (insert (pb_Name pool) seen)"

definition validatePools :: "Text \<Rightarrow> PoolBlock list \<Rightarrow> Diagnostic list" where
  "validatePools owner ps = validatePools_loop owner ps {}"

definition Credentials_sources :: "CredentialsBlock \<Rightarrow> string list" where
  "Credentials_sources c =
     (if cr_File c \<noteq> None then [''file''] else []) @ (if cr_Env c \<noteq> None then [''env''] else []) @
     (if cr_Exec c \<noteq> [] then [''exec''] else [])"

definition Credentials_validate :: "CredentialsBlock option \<Rightarrow> string \<Rightarrow> Diagnostic list" where
  "Credentials_validate cb provider =
     (case cb of
        None \<Rightarrow> []
      | Some c \<Rightarrow>
          if Credentials_sources c = []
          then [simple (''Missing credential source'', [])
            (''Provider %q declares a credentials block naming none of file, env or exec.'', [provider])]
          else if 1 < length (Credentials_sources c)
          then [simple (''Ambiguous credential source'', [])
            (''Provider %q names %s. Exactly one source is allowed, because which one wins would otherwise decide what the provider authenticates with.'',
             [provider, strings_Join (Credentials_sources c) '' and ''])]
          else [])"

definition Provider_validate :: "ConfigProvider \<Rightarrow> Diagnostic list" where
  "Provider_validate p =
     (if cp_Type p = []
      then [simple (''Missing provider type'', [])
        (''Provider %q does not say what kind it is, so nothing can be constructed for it.'', [cp_Name p])] else []) @
     (if TierOf p < 0
      then [simple (''Invalid provider tier'', [])
        (''Provider %q has tier %d. Tiers start at 0, the most preferred.'', [cp_Name p, Itoa (TierOf p)])] else []) @
     Credentials_validate (cp_Credentials p) (cp_Name p) @
     validatePools (''Provider %q'', [cp_Name p]) (cp_Pools p)"

fun validateProviders_loop :: "ConfigProvider list \<Rightarrow> string set \<Rightarrow> Diagnostic list" where
  "validateProviders_loop [] seen = []"
| "validateProviders_loop (p # ps) seen =
     (if cp_Name p \<in> seen
      then [simple (''Duplicate provider'', [])
        (''Two providers are named %q. The name is what a job's provider list refers to, so it must identify one.'', [cp_Name p])]
      else []) @
     Provider_validate p @ validateProviders_loop ps (insert (cp_Name p) seen)"

fun validateQuotas_loop :: "string \<Rightarrow> string set \<Rightarrow> NamespaceQuota list \<Rightarrow> string set \<Rightarrow> Diagnostic list" where
  "validateQuotas_loop name providers [] shares = []"
| "validateQuotas_loop name providers (q # qs) shares =
     (let owner = (''Namespace %q quota for provider %q'', [name, nq_Provider q]) in
      (if nq_Provider q \<notin> providers
       then [simple (''Unknown provider in namespace quota'', []) (fst owner @ '' names a provider that is not configured.'', snd owner)]
       else if nq_Provider q \<in> shares
       then [simple (''Duplicate namespace quota'', [])
         (''Namespace %q declares two quotas for provider %q.'', [name, nq_Provider q])]
       else []) @
      validatePools owner (nq_Pools q) @ validateQuotas_loop name providers qs (insert (nq_Provider q) shares))"

fun validateNamespaces_loop :: "string set \<Rightarrow> ConfigNamespace list \<Rightarrow> string set \<Rightarrow> Diagnostic list" where
  "validateNamespaces_loop providers [] seen = []"
| "validateNamespaces_loop providers (ns # nss) seen =
     (if ns_Name ns \<in> seen
      then [simple (''Duplicate namespace'', []) (''Two namespaces are named %q.'', [ns_Name ns])] else []) @
     validateQuotas_loop (ns_Name ns) providers (ns_Quotas ns) {} @
     validateNamespaces_loop providers nss (insert (ns_Name ns) seen)"

definition validateNamespaces :: "ConfigFile \<Rightarrow> string set \<Rightarrow> Diagnostic list" where
  "validateNamespaces f providers = validateNamespaces_loop providers (cf_Namespaces f) {}"

definition File_validate :: "ConfigFile \<Rightarrow> Diagnostic list" where
  "File_validate f =
     (if (case cf_Store f of None \<Rightarrow> False | Some s \<Rightarrow> sto_DSN s = [])
      then [simple (''Empty store DSN'', [])
        (''The store block names no database. Set dsn to a Postgres or CockroachDB connection string, or run the server with -dev to keep everything in memory.'', [])]
      else []) @
     (let mode = Scheduling_TierMode (cf_Scheduling f) in
      if \<not> TierMode_Valid mode
      then [simple (''Unknown tier mode'', [])
        (''The scheduling block sets tiers to %q. Valid modes are strict and weighted.'', [mode])] else []) @
     validateProviders_loop (cf_Providers f) {} @
     validateNamespaces f (cp_Name ` set (cf_Providers f))"

section \<open>Loading\<close>

text \<open>What the file system, the environment and commands answer; a command's answer is its output or its
  error and what it printed to standard error.  \<open>host_Clean\<close> and \<open>host_Join\<close> are \<^verbatim>\<open>filepath\<close>'s.\<close>

record Host =
  host_Stat :: "string \<Rightarrow> string + bool"
  host_ReadFile :: "string \<Rightarrow> string + string"
  host_Glob :: "string \<Rightarrow> string + string list"
  host_Getenv :: "string \<Rightarrow> string option"
  host_UserConfigDir :: "string option"
  host_Exec :: "string list \<Rightarrow> string \<times> string + string"
  host_Clean :: "string \<Rightarrow> string"
  host_Join :: "string \<Rightarrow> string \<Rightarrow> string"

definition Extension :: string where "Extension = ''.hcl''"

type_synonym ConfigDecode = "HclBody \<Rightarrow> ConfigFile \<times> Diagnostic list"

definition decodeSource :: "Hcl \<Rightarrow> ConfigDecode \<Rightarrow> string \<Rightarrow> string \<Rightarrow> ConfigFile option \<times> Diagnostic list" where
  "decodeSource h decode filename src =
     (case hcl_ParseConfig h src filename of
        (None, diags) \<Rightarrow> (None, diags)
      | (Some body, diags) \<Rightarrow> (case decode body of (file, dd) \<Rightarrow> (Some file, diags @ dd)))"

definition unreadable :: "string \<Rightarrow> string \<Rightarrow> Diagnostic list" where
  "unreadable path err = [simple (''Cannot read configuration'', []) (''Reading %s: %s.'', [path, err])]"

definition decode_file :: "Hcl \<Rightarrow> ConfigDecode \<Rightarrow> Host \<Rightarrow> string \<Rightarrow> ConfigFile option \<times> Diagnostic list" where
  "decode_file h decode host path =
     (case host_ReadFile host path of
        Inl err \<Rightarrow> (None, unreadable path err)
      | Inr src \<Rightarrow> decodeSource h decode path src)"

definition Config_Load :: "Hcl \<Rightarrow> ConfigDecode \<Rightarrow> string \<Rightarrow> string \<Rightarrow> ConfigFile option \<times> Diagnostic list" where
  "Config_Load h decode filename src =
     (case decodeSource h decode filename src of
        (None, diags) \<Rightarrow> (None, diags)
      | (Some file, diags) \<Rightarrow> (Some file, diags @ File_validate file))"

definition LoadFile :: "Hcl \<Rightarrow> ConfigDecode \<Rightarrow> Host \<Rightarrow> string \<Rightarrow> ConfigFile option \<times> Diagnostic list" where
  "LoadFile h decode host path =
     (case host_ReadFile host path of
        Inl err \<Rightarrow> (None, unreadable path err)
      | Inr src \<Rightarrow> Config_Load h decode path src)"

definition duplicate :: "string \<Rightarrow> string \<Rightarrow> string \<Rightarrow> Diagnostic" where
  "duplicate file block why =
     simple (''Duplicate %s'', [block])
       (''%s declares a %s block, but one is already declared in an earlier file. %s'', [file, block, why])"

text \<open>A block one file may declare: the merged one, and the complaint about a second.\<close>

definition merge_block :: "string \<Rightarrow> string \<Rightarrow> string \<Rightarrow> 'a option \<Rightarrow> 'a option \<Rightarrow> 'a option \<times> Diagnostic list" where
  "merge_block name block why merged declared =
     (case declared of
        None \<Rightarrow> (merged, [])
      | Some b \<Rightarrow> if merged \<noteq> None then (merged, [duplicate name block why]) else (Some b, []))"

definition merge_file :: "string \<Rightarrow> ConfigFile \<Rightarrow> ConfigFile \<Rightarrow> ConfigFile \<times> Diagnostic list" where
  "merge_file name merged file =
     (case merge_block name ''store'' ''A deployment has one ledger.'' (cf_Store merged) (cf_Store file) of
        (store, d1) \<Rightarrow>
      case merge_block name ''server'' ''A deployment has one server.'' (cf_Server merged) (cf_Server file) of
        (server, d2) \<Rightarrow>
      case merge_block name ''scheduling'' ''A deployment orders providers one way.''
          (cf_Scheduling merged) (cf_Scheduling file) of
        (scheduling, d3) \<Rightarrow>
          (\<lparr>cf_Server = server, cf_Store = store, cf_Scheduling = scheduling,
            cf_Providers = cf_Providers merged @ cf_Providers file,
            cf_Namespaces = cf_Namespaces merged @ cf_Namespaces file\<rparr>, d1 @ d2 @ d3))"

fun loadDir_loop ::
  "(string \<Rightarrow> ConfigFile option \<times> Diagnostic list) \<Rightarrow> string list \<Rightarrow> ConfigFile \<Rightarrow> Diagnostic list \<Rightarrow> ConfigFile \<times> Diagnostic list" where
  "loadDir_loop read [] merged diags = (merged, diags)"
| "loadDir_loop read (name # names) merged diags =
     (case read name of
        (None, fd) \<Rightarrow> loadDir_loop read names merged (diags @ fd)
      | (Some file, fd) \<Rightarrow>
          (case merge_file name merged file of
             (merged, md) \<Rightarrow> loadDir_loop read names merged (diags @ fd @ md)))"

definition loadDir :: "Hcl \<Rightarrow> ConfigDecode \<Rightarrow> Host \<Rightarrow> string \<Rightarrow> ConfigFile option \<times> Diagnostic list" where
  "loadDir h decode host dir =
     (case host_Glob host (host_Join host dir (''*'' @ Extension)) of
        Inl err \<Rightarrow> (None, [simple (''Cannot read configuration directory'', []) (''Listing %s: %s.'', [dir, err])])
      | Inr listed \<Rightarrow>
          (let names = sort_cmp strCompare listed in
           if names = []
           then (None, [simple (''Empty configuration directory'', [])
             (''%s holds no %s files, so no provider is configured.'', [dir, Extension])])
           else case loadDir_loop (decode_file h decode host) names no_file [] of
               (merged, diags) \<Rightarrow> (Some merged, diags @ File_validate merged)))"

definition LoadPath :: "Hcl \<Rightarrow> ConfigDecode \<Rightarrow> Host \<Rightarrow> string \<Rightarrow> ConfigFile option \<times> Diagnostic list" where
  "LoadPath h decode host path =
     (case host_Stat host path of
        Inl err \<Rightarrow> (None, unreadable path err)
      | Inr dir \<Rightarrow> if \<not> dir then LoadFile h decode host path else loadDir h decode host path)"

section \<open>Finding the file\<close>

definition EnvConfig :: string where "EnvConfig = ''VAGABOND_CONFIG''"

definition ErrNoConfig :: string where [vocab]: "ErrNoConfig = ''no configuration found''"
definition ErrConfigNotFound :: string where [vocab]: "ErrConfigNotFound = ''configuration not found''"

definition SearchPath :: "Host \<Rightarrow> string list" where
  "SearchPath host =
     [''vagabond.hcl''] @
     (case host_UserConfigDir host of None \<Rightarrow> [] | Some dir \<Rightarrow> [host_Join host dir ''vagabond/config.hcl'']) @
     [''/etc/vagabond.d'']"

definition named_path :: "Host \<Rightarrow> string \<Rightarrow> string \<Rightarrow> goerror + string" where
  "named_path host path source =
     (case host_Stat host (host_Clean host path) of
        Inl err \<Rightarrow> Inl (Formatted ''%w: %s names %s, which cannot be read: %w'' [S source, S path] [Sentinel ErrConfigNotFound, Sentinel err])
      | Inr dir \<Rightarrow> Inr (host_Clean host path))"

definition exists_path :: "Host \<Rightarrow> string \<Rightarrow> bool" where
  "exists_path host path = (case host_Stat host path of Inl err \<Rightarrow> False | Inr dir \<Rightarrow> True)"

definition Discover :: "Host \<Rightarrow> string \<Rightarrow> goerror + string" where
  "Discover host flagPath =
     (if flagPath \<noteq> [] then named_path host flagPath ''-config''
      else if (case host_Getenv host EnvConfig of None \<Rightarrow> False | Some p \<Rightarrow> p \<noteq> [])
      then named_path host (the (host_Getenv host EnvConfig)) EnvConfig
      else case find_first (exists_path host) (SearchPath host) of
          Some path \<Rightarrow> Inr path
        | None \<Rightarrow> Inl (Formatted ''%w. Looked in %s. Pass -config or set %s''
            [S (comma (SearchPath host)), S EnvConfig] [Sentinel ErrNoConfig]))"

section \<open>Credentials\<close>

definition ErrNoCredentialSource :: string where [vocab]: "ErrNoCredentialSource = ''no credential source''"

definition newline :: "char \<Rightarrow> bool" where "newline c \<longleftrightarrow> c = CHR 0x0D \<or> c = CHR 0x0A"

definition TrimRight_newlines :: "string \<Rightarrow> string" where
  "TrimRight_newlines s = rev (dropWhile newline (rev s))"

definition describeStderr :: "string \<Rightarrow> string" where
  "describeStderr stderr = (let s = TrimSpace stderr in if s = [] then [] else '': '' @ s)"

definition readFile :: "Host \<Rightarrow> string \<Rightarrow> goerror + string" where
  "readFile host path =
     (case host_ReadFile host (host_Clean host path) of
        Inl err \<Rightarrow> Inl (Formatted ''reading credential from %s: %w'' [S path] [Sentinel err]) | Inr secret \<Rightarrow> Inr secret)"

definition readEnv :: "Host \<Rightarrow> string \<Rightarrow> goerror + string" where
  "readEnv host name = (case host_Getenv host name of None \<Rightarrow> Inl (Formatted ''credential environment variable %s is not set'' [S name] []) | Some v \<Rightarrow> Inr v)"

definition runExec :: "Host \<Rightarrow> string list \<Rightarrow> goerror + string" where
  "runExec host argv =
     (case host_Exec host argv of
        Inl (err, stderr) \<Rightarrow> Inl (Formatted ''credential command %q: %w%s''
         [S (strings_Join argv '' ''), S (describeStderr stderr)] [Sentinel err])
      | Inr secret \<Rightarrow> Inr (TrimRight_newlines secret))"

definition Resolve :: "Host \<Rightarrow> CredentialsBlock option \<Rightarrow> goerror + string option" where
  "Resolve host cb =
     (case cb of
        None \<Rightarrow> Inr None
      | Some c \<Rightarrow>
          map_sum id Some
            (case cr_File c of
               Some path \<Rightarrow> readFile host path
             | None \<Rightarrow>
                 (case cr_Env c of
                    Some name \<Rightarrow> readEnv host name
                  | None \<Rightarrow> if cr_Exec c \<noteq> [] then runExec host (cr_Exec c) else Inl (Sentinel ErrNoCredentialSource))))"

section \<open>Valid configurations\<close>

definition pools_wf :: "PoolBlock list \<Rightarrow> bool" where
  "pools_wf ps \<longleftrightarrow> distinct (map pb_Name ps) \<and>
     (\<forall>p \<in> set ps. Meter_Valid (pb_Meter p) \<and> Period_Valid (pb_Period p) \<and> 0 < pb_Limit p)"

definition credentials_wf :: "CredentialsBlock \<Rightarrow> bool" where
  "credentials_wf c \<longleftrightarrow> length (Credentials_sources c) = 1"

definition provider_wf :: "ConfigProvider \<Rightarrow> bool" where
  "provider_wf p \<longleftrightarrow> cp_Type p \<noteq> [] \<and> 0 \<le> TierOf p \<and> pools_wf (cp_Pools p) \<and>
     (\<forall>c. cp_Credentials p = Some c \<longrightarrow> credentials_wf c)"

definition namespace_wf :: "string set \<Rightarrow> ConfigNamespace \<Rightarrow> bool" where
  "namespace_wf providers ns \<longleftrightarrow> distinct (map nq_Provider (ns_Quotas ns)) \<and>
     (\<forall>q \<in> set (ns_Quotas ns). nq_Provider q \<in> providers \<and> pools_wf (nq_Pools q))"

definition config_wf :: "ConfigFile \<Rightarrow> bool" where
  "config_wf f \<longleftrightarrow>
     (\<forall>s. cf_Store f = Some s \<longrightarrow> sto_DSN s \<noteq> []) \<and> TierMode_Valid (Scheduling_TierMode (cf_Scheduling f)) \<and>
     distinct (map cp_Name (cf_Providers f)) \<and> (\<forall>p \<in> set (cf_Providers f). provider_wf p) \<and>
     distinct (map ns_Name (cf_Namespaces f)) \<and>
     (\<forall>ns \<in> set (cf_Namespaces f). namespace_wf (cp_Name ` set (cf_Providers f)) ns)"

lemma pool_check_Nil [accepts]:
  "pool_check owner seen p = [] \<longleftrightarrow>
     pb_Name p \<notin> seen \<and> Meter_Valid (pb_Meter p) \<and> Period_Valid (pb_Period p) \<and> 0 < pb_Limit p"
  by (auto simp: pool_check_def)

lemma validatePools_loop_Nil:
  "validatePools_loop owner ps seen = [] \<longleftrightarrow> pools_wf ps \<and> seen \<inter> pb_Name ` set ps = {}"
  by (induction ps arbitrary: seen) (auto simp: pools_wf_def accepts)

lemma validatePools_Nil [accepts]: "validatePools owner ps = [] \<longleftrightarrow> pools_wf ps"
  by (simp add: validatePools_def validatePools_loop_Nil)

lemma Credentials_validate_Nil [accepts]:
  "Credentials_validate cb n = [] \<longleftrightarrow> (\<forall>c. cb = Some c \<longrightarrow> credentials_wf c)"
  by (auto simp: Credentials_validate_def credentials_wf_def not_less le_Suc_eq split: option.split)

lemma Provider_validate_Nil [accepts]: "Provider_validate p = [] \<longleftrightarrow> provider_wf p"
  by (auto simp: Provider_validate_def provider_wf_def accepts)

lemma validateProviders_loop_Nil [accepts]:
  "validateProviders_loop ps seen = [] \<longleftrightarrow>
     distinct (map cp_Name ps) \<and> seen \<inter> cp_Name ` set ps = {} \<and> (\<forall>p \<in> set ps. provider_wf p)"
  by (induction ps arbitrary: seen) (auto simp: accepts)

lemma validateQuotas_loop_Nil [accepts]:
  "validateQuotas_loop name providers qs shares = [] \<longleftrightarrow>
     distinct (map nq_Provider qs) \<and> shares \<inter> nq_Provider ` set qs = {} \<and>
     (\<forall>q \<in> set qs. nq_Provider q \<in> providers \<and> pools_wf (nq_Pools q))"
  by (induction qs arbitrary: shares) (auto simp: accepts Let_def)

lemma validateNamespaces_loop_Nil [accepts]:
  "validateNamespaces_loop providers nss seen = [] \<longleftrightarrow>
     distinct (map ns_Name nss) \<and> seen \<inter> ns_Name ` set nss = {} \<and> (\<forall>ns \<in> set nss. namespace_wf providers ns)"
  by (induction nss arbitrary: seen) (auto simp: accepts namespace_wf_def)

lemma File_validate_Nil: "File_validate f = [] \<longleftrightarrow> config_wf f"
  by (auto simp: File_validate_def config_wf_def validateNamespaces_def accepts Let_def split: option.splits)

lemma loud_pools: "loud (validatePools owner ps)"
proof -
  have "loud (pool_check owner seen p)" for seen p
    by (simp add: pool_check_def poolDiag_def)
  then have "loud (validatePools_loop owner ps seen)" for seen
    by (induction ps arbitrary: seen) (auto intro!: loud_append)
  then show ?thesis by (simp add: validatePools_def)
qed

lemma loud_provider: "loud (Provider_validate p)"
proof -
  have "loud (Credentials_validate cb n)" for cb n
    by (auto simp: Credentials_validate_def split: option.split)
  then show ?thesis
    by (auto simp: Provider_validate_def loud_pools simp del: append_assoc intro!: loud_append)
qed

lemma loud_providers: "loud (validateProviders_loop ps seen)"
  by (induction ps arbitrary: seen) (auto simp: loud_provider intro!: loud_append)

lemma loud_quotas: "loud (validateQuotas_loop name providers qs shares)"
  by (induction qs arbitrary: shares) (auto simp: Let_def loud_pools intro!: loud_append)

lemma loud_namespaces: "loud (validateNamespaces_loop providers nss seen)"
  by (induction nss arbitrary: seen) (auto simp: loud_quotas intro!: loud_append)

lemma File_validate_HasErrors: "HasErrors (File_validate f) \<longleftrightarrow> File_validate f \<noteq> []"
proof -
  have "loud (File_validate f)"
    by (auto simp: File_validate_def validateNamespaces_def loud_providers loud_namespaces Let_def
        simp del: append_assoc intro!: loud_append split: option.split)
  then show ?thesis by (auto simp: loud_def)
qed

section \<open>Properties\<close>

text \<open>C31. A configuration is accepted exactly when it is well formed: providers and namespaces named once, each
  provider of some type and of no negative tier, credentials from exactly one source, every budget
  named once, countable, renewed and positive, and every share of a configured provider.\<close>

theorem config_accepted_iff:
  "HasErrors (File_validate f) \<longleftrightarrow> \<not> config_wf f"
  by (simp add: File_validate_HasErrors File_validate_Nil)

text \<open>What a merge takes from the files read: everything declared, and the first of a block declared once.\<close>

definition file_of :: "(string \<Rightarrow> ConfigFile option \<times> Diagnostic list) \<Rightarrow> string \<Rightarrow> ConfigFile list" where
  "file_of read name = (case fst (read name) of None \<Rightarrow> [] | Some f \<Rightarrow> [f])"

definition blocks_of :: "('a \<Rightarrow> 'b option) \<Rightarrow> 'a list \<Rightarrow> 'b list" where
  "blocks_of block fs = concat (map (\<lambda>f. case block f of None \<Rightarrow> [] | Some b \<Rightarrow> [b]) fs)"

lemma blocks_of_simps [simp]:
  "blocks_of block [] = []"
  "blocks_of block (f # fs) = (case block f of None \<Rightarrow> [] | Some b \<Rightarrow> [b]) @ blocks_of block fs"
  by (simp_all add: blocks_of_def)

definition first_of :: "'a list \<Rightarrow> 'a option" where
  "first_of xs = (case xs of [] \<Rightarrow> None | x # _ \<Rightarrow> Some x)"

lemma merge_block_first:
  "merge_block name block why (first_of bs) d = (merged, ds) \<Longrightarrow>
   merged = first_of (bs @ (case d of None \<Rightarrow> [] | Some b \<Rightarrow> [b])) \<and> loud ds \<and>
   (ds = [] \<longleftrightarrow> bs = [] \<or> d = None)"
  by (cases bs) (auto simp: merge_block_def first_of_def duplicate_def split: option.splits if_splits)

definition merged_from :: "ConfigFile list \<Rightarrow> ConfigFile" where
  "merged_from fs =
     \<lparr>cf_Server = first_of (blocks_of cf_Server fs), cf_Store = first_of (blocks_of cf_Store fs),
      cf_Scheduling = first_of (blocks_of cf_Scheduling fs), cf_Providers = concat (map cf_Providers fs),
      cf_Namespaces = concat (map cf_Namespaces fs)\<rparr>"

definition at_most_once :: "ConfigFile list \<Rightarrow> bool" where
  "at_most_once fs \<longleftrightarrow> length (blocks_of cf_Server fs) \<le> 1 \<and> length (blocks_of cf_Store fs) \<le> 1 \<and>
     length (blocks_of cf_Scheduling fs) \<le> 1"

lemma blocks_of_append [simp]: "blocks_of block (fs @ gs) = blocks_of block fs @ blocks_of block gs"
  by (simp add: blocks_of_def)

lemma merge_file_step:
  assumes "merge_file name (merged_from fs) f = (merged, ds)"
  shows "merged = merged_from (fs @ [f]) \<and> loud ds \<and> (at_most_once fs \<longrightarrow> (ds = [] \<longleftrightarrow> at_most_once (fs @ [f])))"
proof -
  obtain store d1 server d2 sched d3 where
    store: "merge_block name ''store'' ''A deployment has one ledger.'' (first_of (blocks_of cf_Store fs)) (cf_Store f) = (store, d1)"
    and server: "merge_block name ''server'' ''A deployment has one server.'' (first_of (blocks_of cf_Server fs)) (cf_Server f) = (server, d2)"
    and sched: "merge_block name ''scheduling'' ''A deployment orders providers one way.''
      (first_of (blocks_of cf_Scheduling fs)) (cf_Scheduling f) = (sched, d3)"
    by fastforce
  note blocks = merge_block_first [OF store] merge_block_first [OF server] merge_block_first [OF sched]
  have m: "merged = \<lparr>cf_Server = server, cf_Store = store, cf_Scheduling = sched,
      cf_Providers = cf_Providers (merged_from fs) @ cf_Providers f,
      cf_Namespaces = cf_Namespaces (merged_from fs) @ cf_Namespaces f\<rparr>" and ds: "ds = d1 @ d2 @ d3"
    using assms store server sched by (auto simp: merge_file_def merged_from_def)
  have "merged = merged_from (fs @ [f])"
    using blocks by (simp add: m merged_from_def)
  moreover have "loud ds" unfolding ds using blocks by (blast intro: loud_append)
  moreover have "at_most_once fs \<longrightarrow> (ds = [] \<longleftrightarrow> at_most_once (fs @ [f]))"
    using blocks by (auto simp: ds at_most_once_def le_Suc_eq split: option.splits)
  ultimately show ?thesis by blast
qed

lemma at_most_once_prefix: "at_most_once (fs @ gs) \<Longrightarrow> at_most_once fs"
  by (simp add: at_most_once_def)

lemma loadDir_loop_merged:
  "loadDir_loop read names (merged_from fs) diags = (merged, out) \<Longrightarrow>
   merged = merged_from (fs @ concat (map (file_of read) names)) \<and>
   (\<exists>more. out = diags @ more \<and> (at_most_once fs \<longrightarrow> \<not> HasErrors more \<longrightarrow>
      at_most_once (fs @ concat (map (file_of read) names)) \<and> (\<forall>n \<in> set names. \<not> HasErrors (snd (read n)))))"
proof (induction names arbitrary: fs diags)
  case Nil
  then show ?case by simp
next
  case (Cons name names)
  obtain got fd where r: "read name = (got, fd)" by fastforce
  show ?case
  proof (cases got)
    case None
    with Cons.prems r have "loadDir_loop read names (merged_from fs) (diags @ fd) = (merged, out)" by simp
    moreover have "file_of read name = []" by (simp add: file_of_def r None)
    ultimately show ?thesis using Cons.IH r by fastforce
  next
    case (Some f)
    obtain m md where step: "merge_file name (merged_from fs) f = (m, md)" by fastforce
    note merge = merge_file_step [OF step]
    have "loadDir_loop read names (merged_from (fs @ [f])) (diags @ fd @ md) = (merged, out)"
      using Cons.prems r Some step merge by simp
    from Cons.IH [OF this] obtain more where more: "merged = merged_from ((fs @ [f]) @ concat (map (file_of read) names))"
      "out = (diags @ fd @ md) @ more"
      "at_most_once (fs @ [f]) \<Longrightarrow> \<not> HasErrors more \<Longrightarrow>
        at_most_once ((fs @ [f]) @ concat (map (file_of read) names)) \<and> (\<forall>n \<in> set names. \<not> HasErrors (snd (read n)))"
      by blast
    have "at_most_once fs \<Longrightarrow> \<not> HasErrors md \<Longrightarrow> at_most_once (fs @ [f])"
      using merge by (auto simp: loud_def)
    moreover have "file_of read name = [f]" by (simp add: file_of_def r Some)
    ultimately show ?thesis using more r by (auto intro!: exI [of _ "fd @ md @ more"])
  qed
qed

lemma merged_from_Nil: "merged_from [] = no_file"
  by (simp add: merged_from_def no_file_def first_of_def)

text \<open>C30. Configuration read from a directory is all of its files, in the order of their names: a configuration
  accepted without errors decoded every file, has every provider and namespace any of them declares, no
  block a second file declared again, and is well formed as a whole.\<close>

theorem directory_merged:
  assumes "loadDir h decode host dir = (Some merged, diags)" "\<not> HasErrors diags"
    and "host_Glob host (host_Join host dir (''*'' @ Extension)) = Inr listed"
  shows "merged = merged_from (concat (map (file_of (decode_file h decode host)) (sort_cmp strCompare listed))) \<and>
    at_most_once (concat (map (file_of (decode_file h decode host)) (sort_cmp strCompare listed))) \<and>
    (\<forall>name \<in> set listed. \<not> HasErrors (snd (decode_file h decode host name))) \<and> config_wf merged"
proof -
  obtain read where loop: "loadDir_loop (decode_file h decode host) (sort_cmp strCompare listed) (merged_from []) [] = (merged, read)"
    and diags: "diags = read @ File_validate merged"
    using assms(1,3) by (auto simp: loadDir_def merged_from_Nil Let_def split: if_splits prod.splits)
  have "at_most_once []" by (simp add: at_most_once_def)
  moreover have "\<not> HasErrors read" "config_wf merged"
    using assms(2) by (simp_all add: diags File_validate_HasErrors File_validate_Nil)
  ultimately show ?thesis using loadDir_loop_merged [OF loop] by auto
qed

text \<open>A directory of two files, the first holding the store and a provider and the second a namespace that
  shares it.\<close>

definition sample_pools :: "PoolBlock list" where
  "sample_pools = [\<lparr>pb_Name = ''requests'', pb_Meter = MeterExecutions, pb_Limit = 100, pb_Period = PeriodMonthly\<rparr>]"

definition sample_configured :: ConfigProvider where
  "sample_configured =
     \<lparr>cp_Name = ''home'', cp_Type = ''pool'', cp_Enabled = None, cp_Tier = Some 1, cp_Config = None,
      cp_Credentials = Some \<lparr>cr_File = None, cr_Env = Some ''HOME_TOKEN'', cr_Exec = []\<rparr>, cp_Meta = None,
      cp_Pools = sample_pools\<rparr>"

definition config_files :: "ConfigFile list" where
  "config_files =
     [no_file\<lparr>cf_Store := Some \<lparr>sto_DSN = ''postgres:''\<rparr>, cf_Providers := [sample_configured]\<rparr>,
      no_file\<lparr>cf_Namespaces := [\<lparr>ns_Name = ''dev'', ns_Quotas = [\<lparr>nq_Provider = ''home'', nq_Pools = sample_pools\<rparr>]\<rparr>]\<rparr>]"

definition config_hcl :: Hcl where
  "config_hcl =
     \<lparr>hcl_ParseConfig = (\<lambda>src filename. (Some (HclBody (if filename = ''a.hcl'' then 0 else 1)), [])),
      hcl_PartialContent = (\<lambda>schema body. (None, [])), hcl_JustAttributes = (\<lambda>body. (None, [])),
      hcl_Value = (\<lambda>e ctx. (CtyNull, [])), hcl_ExprRange = (\<lambda>e. 0), hcl_NestedBlocks = (\<lambda>body. None),
      hcl_ToString = (\<lambda>v. Inl []), hcl_ToStrings = (\<lambda>v. Inl []), hcl_Error = (\<lambda>ds. [])\<rparr>"

definition config_decode :: ConfigDecode where
  "config_decode body = (config_files ! (if body = HclBody 0 then 0 else 1), [])"

definition config_host :: Host where
  "config_host =
     \<lparr>host_Stat = (\<lambda>p. Inr True), host_ReadFile = (\<lambda>p. Inr []), host_Glob = (\<lambda>p. Inr [''b.hcl'', ''a.hcl'']),
      host_Getenv = (\<lambda>n. None), host_UserConfigDir = None, host_Exec = (\<lambda>argv. Inr []),
      host_Clean = (\<lambda>p. p), host_Join = (\<lambda>d p. d @ ''/'' @ p)\<rparr>"

theorem directory_merged_witness:
  "merged_from config_files = merged_from (concat (map (file_of (decode_file config_hcl config_decode config_host)) [''a.hcl'', ''b.hcl''])) \<and>
   config_wf (merged_from config_files)"
proof -
  have listed: "host_Glob config_host (host_Join config_host ''/etc/vagabond'' (''*'' @ Extension)) = Inr [''b.hcl'', ''a.hcl'']"
    by (simp add: config_host_def)
  have sorted: "sort_cmp strCompare [''b.hcl'', ''a.hcl''] = [''a.hcl'', ''b.hcl'']" by code_simp
  have merged: "loadDir_loop (decode_file config_hcl config_decode config_host) [''a.hcl'', ''b.hcl''] no_file [] =
      (merged_from config_files, [])"
    by (simp add: decode_file_def decodeSource_def config_host_def config_hcl_def config_decode_def config_files_def
        merge_file_def merge_block_def no_file_def merged_from_def first_of_def)
  have wf: "config_wf (merged_from config_files)"
    by (simp add: config_wf_def provider_wf_def namespace_wf_def pools_wf_def credentials_wf_def config_files_def merged_from_def
        first_of_def no_file_def sample_configured_def sample_pools_def TierOf_def Scheduling_TierMode_def
        Credentials_sources_def, code_simp)
  have "loadDir config_hcl config_decode config_host ''/etc/vagabond'' = (Some (merged_from config_files), [])"
    unfolding loadDir_def listed sum.case sorted Let_def merged using wf by (simp add: File_validate_Nil)
  from directory_merged [OF this _ listed, unfolded sorted] show ?thesis using HasErrors_Nil by blast
qed

end
