(* ===== verification/CloudRun.thy ===== *)
theory CloudRun
  imports Rendering Pools
begin

text \<open>
  \<^verbatim>\<open>internal/providers/gcp\<close>: container tasks as Cloud Run jobs.  HTTP, Google's key parser, JSON
  decoding and the clock are the parameters of \<open>Google\<close>; a request carries the JSON the code encodes.
  An object is an association list: the encoder writes keys in their own order.
\<close>

definition CloudRunType :: string where [vocab]: "CloudRunType = ''cloud-run''"
definition namePrefix :: string where "namePrefix = ''vagabond-''"
definition runEndpoint :: string where "runEndpoint = ''https://run.googleapis.com''"
definition loggingEndpoint :: string where "loggingEndpoint = ''https://logging.googleapis.com''"
definition ErrNoCredential :: string where [vocab]: "ErrNoCredential = ''no credential supplied''"

section \<open>The platform\<close>

datatype Json = JString string | JInt int | JList "Json list" | JObject "(string \<times> Json) list"

record HttpRequest =
  rq_Method :: string
  rq_URL :: string
  rq_Headers :: "(string \<times> string) list"
  rq_Body :: "Json option"

record HttpResponse =
  rs_StatusCode :: int
  rs_RetryAfter :: string
  rs_Body :: "goerror + string"

record runExecution =
  re_Name :: string
  re_StartTime :: string
  re_CompletionTime :: string
  re_RunningCount :: int
  re_SucceededCount :: int
  re_FailedCount :: int
  re_CancelledCount :: int

record runTask =
  rt_StartTime :: string
  rt_CompletionTime :: string
  rt_ExitCode :: "int option"

record logEntries =
  le_Entries :: "string list"
  le_NextPageToken :: string

text \<open>A stream that was opened: its status, the start of its body, and the chunks that arrive on it before it
  ends or one does not decode.\<close>

record tailResponse =
  tr_StatusCode :: int
  tr_RetryAfter :: string
  tr_Start :: string
  tr_Chunks :: "string list list"

record GcpConfig =
  gc_Project :: string
  gc_Region :: string
  gc_RuntimeServiceAccount :: string

text \<open>
  \<open>gl_JWTConfig\<close> parses a service account key; \<open>gl_Do\<close> sends a request signed with one.
  \<open>gl_Message\<close> is the message of an error Google sent, empty when there is none.
\<close>

record ('k, 'w) Google =
  gl_Decode :: "HclBody \<Rightarrow> GcpConfig \<times> Diagnostic list"
  gl_JWTConfig :: "string \<Rightarrow> goerror + 'k"
  gl_NewRequest :: "string \<Rightarrow> string \<Rightarrow> goerror option"
  gl_Do :: "'k \<Rightarrow> HttpRequest \<Rightarrow> ('w, goerror + HttpResponse) state"
  gl_Tail :: "'k \<Rightarrow> HttpRequest \<Rightarrow> ('w, goerror + tailResponse) state"
  gl_Executions :: "string \<Rightarrow> goerror + runExecution list"
  gl_Tasks :: "string \<Rightarrow> goerror + runTask list"
  gl_Entries :: "string \<Rightarrow> goerror + logEntries"
  gl_Message :: "string \<Rightarrow> string"
  gl_now :: "('w, Time) state"
  gl_ParseTime :: "string \<Rightarrow> Time option"
  gl_Fmt :: Fmt

text \<open>The provider; \<open>gp_http\<close> is the key its HTTP client signs with.\<close>

record 'k GcpProvider =
  gp_name :: string
  gp_cfg :: GcpConfig
  gp_http :: 'k
  gp_runURL :: string
  gp_logsURL :: string

section \<open>Configuration\<close>

definition Gcp_Config_validate :: "GcpConfig \<Rightarrow> string \<Rightarrow> Diagnostic list" where
  "Gcp_Config_validate c name =
     concat (map (\<lambda>(label, v).
         if TrimSpace v = []
         then [diagnostic (''Empty provider setting'', []) (''Provider %q sets %s to an empty string.'', [name, label]) None]
         else [])
       [(''project'', gc_Project c), (''region'', gc_Region c), (''runtime_service_account'', gc_RuntimeServiceAccount c)])"

definition Gcp_decodeConfig :: "('k, 'w) Google \<Rightarrow> string \<Rightarrow> HclBody option \<Rightarrow> GcpConfig option \<times> Diagnostic list" where
  "Gcp_decodeConfig g name body =
     (case body of
        None \<Rightarrow> (None, [diagnostic (''Missing provider configuration'', [])
          (''Provider %q is a %s provider and declares no config block. It needs project, region and runtime_service_account.'',
           [name, CloudRunType]) None])
      | Some b \<Rightarrow>
          (case gl_Decode g b of
             (cfg, diags) \<Rightarrow> if HasErrors diags then (None, diags) else (Some cfg, diags @ Gcp_Config_validate cfg name)))"

definition jobsURL :: "GcpConfig \<Rightarrow> string \<Rightarrow> string" where
  "jobsURL c base = base @ ''/v2/projects/'' @ gc_Project c @ ''/locations/'' @ gc_Region c @ ''/jobs''"

definition jobURL :: "GcpConfig \<Rightarrow> string \<Rightarrow> string \<Rightarrow> string" where
  "jobURL c base job = jobsURL c base @ ''/'' @ job"

definition newHTTPClient :: "('k, 'w) Google \<Rightarrow> string \<Rightarrow> goerror + 'k" where
  "newHTTPClient g credentials =
     (if credentials = [] then Inl (Sentinel ErrNoCredential)
      else case gl_JWTConfig g credentials of
          Inl err \<Rightarrow> Inl (Formatted ''parsing the service account key: %w'' [] [err])
        | Inr key \<Rightarrow> Inr key)"

definition Gcp_New ::
  "('k, 'w) Google \<Rightarrow> string \<Rightarrow> HclBody option \<Rightarrow> string \<Rightarrow> 'k GcpProvider option \<times> Diagnostic list" where
  "Gcp_New g name body credentials =
     (case Gcp_decodeConfig g name body of
        (None, diags) \<Rightarrow> (None, diags)
      | (Some cfg, diags) \<Rightarrow>
          if HasErrors diags then (None, diags)
          else case newHTTPClient g credentials of
              Inl err \<Rightarrow> (None, diags @ [diagnostic (''Unusable credential'', [])
                (''Provider %q: %s.'', [name, err_text (gl_Fmt g) err]) None])
            | Inr key \<Rightarrow> (Some \<lparr>gp_name = name, gp_cfg = cfg, gp_http = key,
                gp_runURL = runEndpoint, gp_logsURL = loggingEndpoint\<rparr>, diags))"

definition Gcp_Recredential :: "('k, 'w) Google \<Rightarrow> string \<Rightarrow> 'k GcpProvider \<Rightarrow> goerror option \<times> 'k GcpProvider" where
  "Gcp_Recredential g credential p =
     (case newHTTPClient g credential of Inl err \<Rightarrow> (Some err, p) | Inr key \<Rightarrow> (None, p\<lparr>gp_http := key\<rparr>))"

section \<open>Requests\<close>

definition retryAfter :: "string \<Rightarrow> Duration" where
  "retryAfter header =
     (case ParseInt header of
        None \<Rightarrow> 0
      | Some seconds \<Rightarrow> if seconds < 0 then 0 else wrap64 (seconds * Second))"

definition googleError :: "('k, 'w) Google \<Rightarrow> string \<Rightarrow> string" where
  "googleError g body =
     (if gl_Message g body \<noteq> [] then gl_Message g body
      else if 500 < length body then take 500 body @ ''...'' else body)"

definition Gcp_request :: "string \<Rightarrow> string \<Rightarrow> Json option \<Rightarrow> HttpRequest" where
  "Gcp_request method url payload =
     \<lparr>rq_Method = method, rq_URL = url,
      rq_Headers = (''Accept'', ''application/json'') #
        (if payload \<noteq> None then [(''Content-Type'', ''application/json'')] else []),
      rq_Body = payload\<rparr>"

text \<open>\<open>decode\<close> is what becomes of the response's body; a call that wants none ignores it.\<close>

definition answered ::
  "('k, 'w) Google \<Rightarrow> string \<Rightarrow> string \<Rightarrow> (string \<Rightarrow> goerror + 'a) \<Rightarrow> goerror + HttpResponse \<Rightarrow> goerror + 'a" where
  "answered g method url decode answer =
     (case answer of
        Inl err \<Rightarrow> Inl (Infrastructure (Formatted ''%s %s: %w'' [S method, S url] [err]))
      | Inr resp \<Rightarrow>
          (case rs_Body resp of
             Inl err \<Rightarrow> Inl (Infrastructure (Formatted ''reading response: %w'' [] [err]))
           | Inr body \<Rightarrow>
               if 300 \<le> rs_StatusCode resp
               then Inl (ClassifyHTTP (rs_StatusCode resp) (retryAfter (rs_RetryAfter resp))
                 (Formatted ''%s: %s'' [S method, S (googleError g body)] []))
               else case decode body of
                   Inl err \<Rightarrow> Inl (Internal (Formatted ''decoding response: %w'' [] [err]))
                 | Inr v \<Rightarrow> Inr v))"

definition Gcp_call ::
  "('k, 'w) Google \<Rightarrow> 'k GcpProvider \<Rightarrow> string \<Rightarrow> string \<Rightarrow> Json option \<Rightarrow> (string \<Rightarrow> goerror + 'a)
    \<Rightarrow> ('w, goerror + 'a) state" where
  "Gcp_call g p method url payload decode =
     (case gl_NewRequest g method url of
        Some err \<Rightarrow> State_Monad.return (Inl (Internal (Formatted ''building request: %w'' [] [err])))
      | None \<Rightarrow> do {
          answer \<leftarrow> gl_Do g (gp_http p) (Gcp_request method url payload);
          State_Monad.return (answered g method url decode answer)
        })"

definition no_body :: "string \<Rightarrow> goerror + unit" where
  "no_body body = Inr ()"

section \<open>The job of a task\<close>

definition gcp_maxCPU :: int where "gcp_maxCPU = 8000"
definition gcp_maxMemory :: int where "gcp_maxMemory = 32768"
definition gcp_maxDuration :: Duration where "gcp_maxDuration = 24 * Hour"
definition defaultCPU :: int where "defaultCPU = 1000"
definition defaultMemory :: int where "defaultMemory = 2048"

definition vCPU :: "int \<Rightarrow> int" where
  "vCPU millicores =
     (let cores = \<lceil>fl_div (fl_of_int millicores) 1000\<rceil> in if cores < 1 then 1 else cores)"

definition stated :: "(TaskResources \<Rightarrow> int option) \<Rightarrow> int \<Rightarrow> Task \<Rightarrow> int" where
  "stated field unset task =
     (case task_Resources task of
        None \<Rightarrow> unset
      | Some r \<Rightarrow> (case field r of None \<Rightarrow> unset | Some v \<Rightarrow> if 0 < v then v else unset))"

definition resourceLimits :: "Task \<Rightarrow> (string \<times> string) list" where
  "resourceLimits task =
     [(''cpu'', Itoa (vCPU (stated tres_CPU defaultCPU task))),
      (''memory'', Itoa (stated tres_Memory defaultMemory task) @ ''Mi'')]"

definition taskTimeout :: "Task \<Rightarrow> goerror + Duration" where
  "taskTimeout task =
     (case task_Timeout task of
        None \<Rightarrow> Inr gcp_maxDuration
      | Some t \<Rightarrow>
          (case Duration_Std t of
             Inl err \<Rightarrow> Inl (Formatted ''task %q timeout: %w'' [S (task_Name task)] [duration_error err])
           | Inr timeout \<Rightarrow> Inr timeout))"

text \<open>\<open>time.Duration.Seconds\<close>: a float64 of the whole seconds and one of the rest.\<close>

definition Duration_Seconds :: "Duration \<Rightarrow> rat" where
  "Duration_Seconds d =
     fl_add (fl_of_int (go_div d Second)) (fl_div (fl_of_int (d - go_div d Second * Second)) (fl_of_int Second))"

definition go_trunc :: "rat \<Rightarrow> int" where
  "go_trunc x = (if 0 \<le> x then \<lfloor>x\<rfloor> else \<lceil>x\<rceil>)"

definition environment :: "Hcl \<Rightarrow> Task \<Rightarrow> goerror + (string \<times> string) list" where
  "environment h task =
     (case Environment h task of
        (attrs, diags) \<Rightarrow>
          if HasErrors diags
          then Inl (Internal (Formatted ''task %q env: %s'' [S (task_Name task), S (hcl_Error h diags)] []))
          else Inr (sort_cmp (\<lambda>a b. strCompare (fst a) (fst b)) attrs))"

definition env_json :: "(string \<times> string) list \<Rightarrow> Json" where
  "env_json env = JList (map (\<lambda>(n, v). JObject [(''name'', JString n), (''value'', JString v)]) env)"

definition container_json :: "Hcl \<Rightarrow> Task \<Rightarrow> string \<Rightarrow> (string \<times> string) list \<Rightarrow> Json" where
  "container_json h task img env =
     JObject ([(''image'', JString img),
       (''resources'', JObject [(''limits'', JObject (map (apsnd JString) (resourceLimits task)))])] @
      (case ConfigString h task ''command'' of None \<Rightarrow> [] | Some c \<Rightarrow> [(''command'', JList [JString c])]) @
      (case ConfigStrings h task ''args'' of None \<Rightarrow> [] | Some as \<Rightarrow> [(''args'', JList (map JString as))]) @
      (if env \<noteq> [] then [(''env'', env_json env)] else []))"

definition jobSpec :: "Hcl \<Rightarrow> 'k GcpProvider \<Rightarrow> Task \<Rightarrow> goerror + Json" where
  "jobSpec h p task =
     (case ConfigString h task ConfigImage of
        None \<Rightarrow> Inl (Internal (Formatted ''task %q names no image'' [S (task_Name task)] []))
      | Some img \<Rightarrow>
          (case taskTimeout task of
             Inl err \<Rightarrow> Inl (Internal err)
           | Inr timeout \<Rightarrow>
               (case environment h task of
                  Inl err \<Rightarrow> Inl err
                | Inr env \<Rightarrow> Inr (JObject [(''template'', JObject
                    [(''taskCount'', JInt 1),
                     (''template'', JObject
                        [(''containers'', JList [container_json h task img env]),
                         (''timeout'', JString (Itoa (go_trunc (Duration_Seconds timeout)) @ ''s'')),
                         (''maxRetries'', JInt 0),
                         (''serviceAccount'', JString (gc_RuntimeServiceAccount (gp_cfg p)))])])]))))"

section \<open>Executions of a job\<close>

definition Gcp_parseTime :: "('k, 'w) Google \<Rightarrow> string \<Rightarrow> Time" where
  "Gcp_parseTime g v = (if v = [] then 0 else case gl_ParseTime g v of None \<Rightarrow> 0 | Some t \<Rightarrow> t)"

definition runExecution_state :: "runExecution \<Rightarrow> State" where
  "runExecution_state e =
     (if re_CompletionTime e = []
      then (if 0 < re_RunningCount e \<or> re_StartTime e \<noteq> [] then StateRunning else StateAccepted)
      else if 0 < re_CancelledCount e then StateCancelled
      else if 0 < re_FailedCount e then StateFailed
      else StateSucceeded)"

fun newest_loop :: "('k, 'w) Google \<Rightarrow> runExecution list \<Rightarrow> runExecution \<Rightarrow> runExecution" where
  "newest_loop g [] newest = newest"
| "newest_loop g (e # es) newest =
     newest_loop g es (if Gcp_parseTime g (re_StartTime newest) < Gcp_parseTime g (re_StartTime e) then e else newest)"

definition Gcp_execution :: "('k, 'w) Google \<Rightarrow> 'k GcpProvider \<Rightarrow> string \<Rightarrow> ('w, goerror + runExecution) state" where
  "Gcp_execution g p name =
     do {
       listed \<leftarrow> Gcp_call g p ''GET'' (jobURL (gp_cfg p) (gp_runURL p) name @ ''/executions'') None (gl_Executions g);
       State_Monad.return (case listed of
         Inl err \<Rightarrow> Inl (if err_is ErrNotFound err
           then Internal (Formatted ''%w: job %s does not exist'' [S name] [Sentinel ErrUnknownExecution]) else err)
       | Inr [] \<Rightarrow> Inl (Infrastructure (Formatted ''%w: job %s has no execution'' [S name] [Sentinel ErrUnknownExecution]))
       | Inr (e # es) \<Rightarrow> Inr (newest_loop g (e # es) e))
     }"

definition Gcp_task :: "('k, 'w) Google \<Rightarrow> 'k GcpProvider \<Rightarrow> string \<Rightarrow> ('w, goerror + runTask) state" where
  "Gcp_task g p executionName =
     do {
       listed \<leftarrow> Gcp_call g p ''GET'' (gp_runURL p @ ''/v2/'' @ executionName @ ''/tasks'') None (gl_Tasks g);
       State_Monad.return (case listed of
         Inl err \<Rightarrow> Inl err
       | Inr [] \<Rightarrow> Inl (Infrastructure (Formatted ''execution %s has no task'' [S executionName] []))
       | Inr (t # ts) \<Rightarrow> Inr t)
     }"

section \<open>Logs\<close>

definition maxLogEntries :: nat where "maxLogEntries = 1000"
definition maxLogBytes :: nat where "maxLogBytes = 262144"
definition maxLogPages :: nat where "maxLogPages = 20"

record logBuffer =
  lb_built :: string
  lb_entries :: nat

definition logBuffer_add :: "string \<Rightarrow> logBuffer \<Rightarrow> bool \<times> logBuffer" where
  "logBuffer_add text b =
     (if text = [] then (True, b)
      else if maxLogBytes < length (lb_built b) + length text then (False, b)
      else (lb_entries b + 1 < maxLogEntries,
            b\<lparr>lb_built := lb_built b @ text @ [CHR 0x0A], lb_entries := lb_entries b + 1\<rparr>))"

fun entries_loop :: "string list \<Rightarrow> logBuffer \<Rightarrow> bool \<times> logBuffer" where
  "entries_loop [] b = (True, b)"
| "entries_loop (text # texts) b =
     (case logBuffer_add text b of (False, b) \<Rightarrow> (False, b) | (True, b) \<Rightarrow> entries_loop texts b)"

definition log_filter :: "('k, 'w) Google \<Rightarrow> string \<Rightarrow> string" where
  "log_filter g name =
     Sprintf (gl_Fmt g) ''resource.type=\"cloud_run_job\" resource.labels.job_name=%q'' [S name] []"

definition logPage :: "('k, 'w) Google \<Rightarrow> 'k GcpProvider \<Rightarrow> string \<Rightarrow> string \<Rightarrow> ('w, goerror + logEntries) state" where
  "logPage g p name token =
     Gcp_call g p ''POST'' (gp_logsURL p @ ''/v2/entries:list'')
       (Some (JObject ([(''resourceNames'', JList [JString (''projects/'' @ gc_Project (gp_cfg p))]),
           (''filter'', JString (log_filter g name)), (''orderBy'', JString ''timestamp asc''),
           (''pageSize'', JInt (int maxLogEntries))] @
         (if token \<noteq> [] then [(''pageToken'', JString token)] else []))))
       (gl_Entries g)"

primrec logs_loop ::
  "nat \<Rightarrow> ('k, 'w) Google \<Rightarrow> 'k GcpProvider \<Rightarrow> string \<Rightarrow> string \<Rightarrow> logBuffer \<Rightarrow> ('w, goerror + string \<times> bool) state" where
  "logs_loop 0 g p name token b = State_Monad.return (Inr (lb_built b, True))"
| "logs_loop (Suc n) g p name token b =
     do {
       fetched \<leftarrow> logPage g p name token;
       (case fetched of
          Inl err \<Rightarrow> State_Monad.return (Inl err)
        | Inr page \<Rightarrow>
            (case entries_loop (le_Entries page) b of
               (False, b) \<Rightarrow> State_Monad.return (Inr (lb_built b, True))
             | (True, b) \<Rightarrow>
                 if le_NextPageToken page = [] then State_Monad.return (Inr (lb_built b, False))
                 else logs_loop n g p name (le_NextPageToken page) b))
     }"

definition logs :: "('k, 'w) Google \<Rightarrow> 'k GcpProvider \<Rightarrow> string \<Rightarrow> ('w, goerror + string \<times> bool) state" where
  "logs g p name = logs_loop maxLogPages g p name [] \<lparr>lb_built = [], lb_entries = 0\<rparr>"

section \<open>The provider\<close>

definition Gcp_Capabilities :: "('k, 'w) Google \<Rightarrow> ('w, Capabilities) state" where
  "Gcp_Capabilities g =
     do {
       now \<leftarrow> gl_now g;
       State_Monad.return (Capabilities [DriverContainer] [ArchAMD64]
         \<lparr>rl_CPU = Some gcp_maxCPU, rl_Memory = Some gcp_maxMemory\<rparr> gcp_maxDuration \<lparr>r_CPU = 0, r_Memory = 0\<rparr>
         True False True 0 now [])
     }"

definition jobName :: "('k, 'w) Google \<Rightarrow> ID \<Rightarrow> string" where
  "jobName g i = namePrefix @ fm_ID (gl_Fmt g) i"

definition isNotFound :: "('k, 'w) Google \<Rightarrow> goerror \<Rightarrow> bool" where
  "isNotFound g err = strings_Contains (err_text (gl_Fmt g) err) ''http 404''"

definition deleteJob :: "('k, 'w) Google \<Rightarrow> 'k GcpProvider \<Rightarrow> string \<Rightarrow> ('w, unit) state" where
  "deleteJob g p name =
     do {
       ignored \<leftarrow> Gcp_call g p ''DELETE'' (jobURL (gp_cfg p) (gp_runURL p) name) None no_body;
       State_Monad.return ()
     }"

definition Gcp_Submit ::
  "Hcl \<Rightarrow> ('k, 'w) Google \<Rightarrow> 'k GcpProvider \<Rightarrow> ID \<Rightarrow> Task \<Rightarrow> ('w, goerror + Submission) state" where
  "Gcp_Submit h g p i task =
     (case jobSpec h p task of
        Inl err \<Rightarrow> State_Monad.return (Inl err)
      | Inr spec \<Rightarrow> do {
          created \<leftarrow> Gcp_call g p ''POST'' (jobsURL (gp_cfg p) (gp_runURL p) @ ''?jobId='' @ jobName g i) (Some spec) no_body;
          (case created of
             Inl err \<Rightarrow> State_Monad.return (Inl err)
           | Inr u \<Rightarrow> do {
               started \<leftarrow> Gcp_call g p ''POST'' (jobURL (gp_cfg p) (gp_runURL p) (jobName g i) @ '':run'')
                 (Some (JObject [])) no_body;
               (case started of
                  Inl err \<Rightarrow> do { deleteJob g p (jobName g i); State_Monad.return (Inl err) }
                | Inr u \<Rightarrow> State_Monad.return (Inr
                    \<lparr>sub_ProviderID = jobName g i, sub_State = StateAccepted, sub_Result = None\<rparr>))
             })
        })"

definition Gcp_Status :: "('k, 'w) Google \<Rightarrow> 'k GcpProvider \<Rightarrow> ID \<Rightarrow> ('w, goerror + Status) state" where
  "Gcp_Status g p i =
     do {
       found \<leftarrow> Gcp_execution g p (jobName g i);
       (case found of
          Inl err \<Rightarrow> State_Monad.return (Inl err)
        | Inr e \<Rightarrow>
            (let end_time = Gcp_parseTime g (re_CompletionTime e);
                 status = \<lparr>st_ID = i, st_State = runExecution_state e, st_ProviderID = jobName g i,
                   st_StartedAt = Gcp_parseTime g (re_StartTime e), st_EndedAt = end_time, st_UpdatedAt = end_time\<rparr>
             in if Time_IsZero end_time
                then do { now \<leftarrow> gl_now g; State_Monad.return (Inr (status\<lparr>st_UpdatedAt := now\<rparr>)) }
                else State_Monad.return (Inr status)))
     }"

definition Gcp_Result :: "('k, 'w) Google \<Rightarrow> 'k GcpProvider \<Rightarrow> ID \<Rightarrow> ('w, goerror + Result) state" where
  "Gcp_Result g p i =
     do {
       found \<leftarrow> Gcp_execution g p (jobName g i);
       (case found of
          Inl err \<Rightarrow> State_Monad.return (Inl err)
        | Inr e \<Rightarrow> do {
            ran \<leftarrow> Gcp_task g p (re_Name e);
            (case ran of
               Inl err \<Rightarrow> State_Monad.return (Inl err)
             | Inr t \<Rightarrow> do {
                 printed \<leftarrow> logs g p (jobName g i);
                 (let result = \<lparr>res_ID = i, res_ExitCode = rt_ExitCode t,
                      res_Duration = Time_Sub (Gcp_parseTime g (rt_CompletionTime t)) (Gcp_parseTime g (rt_StartTime t)),
                      res_Billed = None, res_Logs = [], res_LogsTruncated = False\<rparr>
                  in State_Monad.return (Inr (case printed of
                       Inl err \<Rightarrow> result
                     | Inr (text, short) \<Rightarrow> result\<lparr>res_Logs := text, res_LogsTruncated := short\<rparr>)))
               })
          })
     }"

definition Gcp_Cancel :: "('k, 'w) Google \<Rightarrow> 'k GcpProvider \<Rightarrow> ID \<Rightarrow> ('w, goerror option) state" where
  "Gcp_Cancel g p i =
     do {
       deleted \<leftarrow> Gcp_call g p ''DELETE'' (jobURL (gp_cfg p) (gp_runURL p) (jobName g i)) None no_body;
       State_Monad.return (case deleted of
         Inl err \<Rightarrow> if isNotFound g err then None else Some err
       | Inr u \<Rightarrow> None)
     }"

definition Gcp_Release :: "('k, 'w) Google \<Rightarrow> 'k GcpProvider \<Rightarrow> ID \<Rightarrow> ('w, goerror option) state" where
  "Gcp_Release g p i = Gcp_Cancel g p i"

section \<open>Streaming\<close>

definition bufferWindow :: string where "bufferWindow = ''1s''"

definition openTail :: "('k, 'w) Google \<Rightarrow> 'k GcpProvider \<Rightarrow> string \<Rightarrow> ('w, goerror + tailResponse) state" where
  "openTail g p job =
     (let payload = JList [JObject [(''resourceNames'', JList [JString (''projects/'' @ gc_Project (gp_cfg p))]),
          (''filter'', JString (log_filter g job)), (''bufferWindow'', JString bufferWindow)]];
          url = gp_logsURL p @ ''/v2/entries:tail''
      in case gl_NewRequest g ''POST'' url of
          Some err \<Rightarrow> State_Monad.return (Inl (Internal (Formatted ''building the tail request: %w'' [] [err])))
        | None \<Rightarrow> do {
            answer \<leftarrow> gl_Tail g (gp_http p) \<lparr>rq_Method = ''POST'', rq_URL = url,
              rq_Headers = [(''Content-Type'', ''application/json'')], rq_Body = Some payload\<rparr>;
            State_Monad.return (case answer of
              Inl err \<Rightarrow> Inl (Infrastructure (Formatted ''opening the log stream: %w'' [] [err]))
            | Inr resp \<Rightarrow>
                if 300 \<le> tr_StatusCode resp
                then Inl (ClassifyHTTP (tr_StatusCode resp) (retryAfter (tr_RetryAfter resp))
                  (Formatted ''tail: %s'' [S (googleError g (take maxLogBytes (tr_Start resp)))] []))
                else Inr resp)
          })"

text \<open>\<open>write\<close> is the writer the caller passed.\<close>

fun writeChunk :: "(string \<Rightarrow> ('w, goerror option) state) \<Rightarrow> string list \<Rightarrow> ('w, goerror option) state" where
  "writeChunk write [] = State_Monad.return None"
| "writeChunk write (text # texts) =
     (if text = [] then writeChunk write texts
      else do {
        failed \<leftarrow> write (text @ [CHR 0x0A]);
        (case failed of
           Some err \<Rightarrow> State_Monad.return (Some (Internal (Formatted ''writing log output: %w'' [] [err])))
         | None \<Rightarrow> writeChunk write texts)
      })"

fun copyTail :: "(string \<Rightarrow> ('w, goerror option) state) \<Rightarrow> string list list \<Rightarrow> ('w, goerror option) state" where
  "copyTail write [] = State_Monad.return None"
| "copyTail write (chunk # chunks) =
     do {
       failed \<leftarrow> writeChunk write chunk;
       (case failed of Some err \<Rightarrow> State_Monad.return (Some err) | None \<Rightarrow> copyTail write chunks)
     }"

definition Gcp_StreamLogs ::
  "('k, 'w) Google \<Rightarrow> (string \<Rightarrow> ('w, goerror option) state) \<Rightarrow> 'k GcpProvider \<Rightarrow> ID \<Rightarrow> ('w, goerror option) state" where
  "Gcp_StreamLogs g write p i =
     do {
       opened \<leftarrow> openTail g p (jobName g i);
       (case opened of Inl err \<Rightarrow> State_Monad.return (Some err) | Inr resp \<Rightarrow> copyTail write (tr_Chunks resp))
     }"

section \<open>Facts\<close>

lemma run_return [simp]: "run_state (State_Monad.return x) s = (x, s)"
  by (simp add: State_Monad.return_def)

lemma run_bind [simp]: "run_state (State_Monad.bind m f) s = (case run_state m s of (a, t) \<Rightarrow> run_state (f a) t)"
  by (simp add: State_Monad.bind_def)

text \<open>What entries print, each followed by a newline, those without a text left out.\<close>

definition printed :: "string list \<Rightarrow> string" where
  "printed texts = concat (map (\<lambda>t. if t = [] then [] else t @ [CHR 0x0A]) texts)"

lemma printed_simps [simp]:
  "printed [] = []" "printed (t # ts) = (if t = [] then [] else t @ [CHR 0x0A]) @ printed ts"
  "printed (xs @ ys) = printed xs @ printed ys"
  by (simp_all add: printed_def)

definition buffer_ok :: "logBuffer \<Rightarrow> bool" where
  "buffer_ok b \<longleftrightarrow> length (lb_built b) \<le> maxLogBytes + 1 \<and> lb_entries b \<le> maxLogEntries"

lemma logBuffer_add_ok:
  "logBuffer_add text b = (room, b') \<Longrightarrow> lb_entries b < maxLogEntries \<Longrightarrow> length (lb_built b) \<le> maxLogBytes + 1 \<Longrightarrow>
   buffer_ok b' \<and> (room \<longrightarrow> lb_built b' = lb_built b @ printed [text] \<and> lb_entries b' < maxLogEntries)"
  by (auto simp: logBuffer_add_def buffer_ok_def split: if_splits)

lemma entries_loop_ok:
  "entries_loop texts b = (room, b') \<Longrightarrow> lb_entries b < maxLogEntries \<Longrightarrow> length (lb_built b) \<le> maxLogBytes + 1 \<Longrightarrow>
   buffer_ok b' \<and> (room \<longrightarrow> lb_built b' = lb_built b @ printed texts \<and> lb_entries b' < maxLogEntries)"
proof (induction texts arbitrary: b)
  case Nil
  then show ?case by (simp add: buffer_ok_def)
next
  case (Cons x texts)
  obtain go_on b1 where add: "logBuffer_add x b = (go_on, b1)" by fastforce
  note step = logBuffer_add_ok [OF add Cons.prems(2,3)]
  show ?case
  proof (cases go_on)
    case True
    with add Cons.prems(1) have "entries_loop texts b1 = (room, b')" by simp
    from Cons.IH [OF this] step True show ?thesis by (auto simp: buffer_ok_def)
  qed (use add Cons.prems(1) step in auto)
qed

text \<open>Every page up to the last, without the bounds on bytes and entries: the reference for a complete log.\<close>

primrec all_pages ::
  "nat \<Rightarrow> ('k, 'w) Google \<Rightarrow> 'k GcpProvider \<Rightarrow> string \<Rightarrow> string \<Rightarrow> ('w, goerror + logEntries list) state" where
  "all_pages 0 g p name token = State_Monad.return (Inl (Sentinel ''more pages''))"
| "all_pages (Suc n) g p name token =
     do {
       fetched \<leftarrow> logPage g p name token;
       (case fetched of
          Inl err \<Rightarrow> State_Monad.return (Inl err)
        | Inr page \<Rightarrow>
            if le_NextPageToken page = [] then State_Monad.return (Inr [page])
            else do {
              rest \<leftarrow> all_pages n g p name (le_NextPageToken page);
              State_Monad.return (map_sum id (Cons page) rest)
            })
     }"

lemma logs_loop_ok:
  "run_state (logs_loop n g p name token b) s = (Inr (out, short), t) \<Longrightarrow>
   lb_entries b < maxLogEntries \<Longrightarrow> length (lb_built b) \<le> maxLogBytes + 1 \<Longrightarrow>
   length out \<le> maxLogBytes + 1 \<and>
   (\<not> short \<longrightarrow> (\<exists>ps. run_state (all_pages n g p name token) s = (Inr ps, t) \<and>
      out = lb_built b @ printed (concat (map le_Entries ps))))"
proof (induction n arbitrary: token b s)
  case 0
  then show ?case by simp
next
  case (Suc n)
  obtain fetched s1 where page: "run_state (logPage g p name token) s = (fetched, s1)" by fastforce
  with Suc.prems(1) obtain pg where pg: "fetched = Inr pg" by (cases fetched) auto
  obtain room b1 where loop: "entries_loop (le_Entries pg) b = (room, b1)" by fastforce
  note entries = entries_loop_ok [OF loop Suc.prems(2,3)]
  show ?case
  proof (cases "room \<and> le_NextPageToken pg \<noteq> []")
    case True
    with Suc.prems(1) page pg loop have "run_state (logs_loop n g p name (le_NextPageToken pg) b1) s1 = (Inr (out, short), t)"
      by simp
    from Suc.IH [OF this] entries True page pg show ?thesis by (fastforce simp: buffer_ok_def)
  next
    case False
    with Suc.prems(1) page pg loop entries show ?thesis by (cases room) (auto simp: buffer_ok_def)
  qed
qed

text \<open>Rounding to a double does not change how many cores a request needs.\<close>

lemma vCPU_ceiling:
  assumes "0 < m" "m \<le> 2 ^ 52"
  shows "vCPU m = (m - 1) div 1000 + 1"
proof -
  define n where "n = (m - 1) div 1000"
  have n: "1000 * n + 1 \<le> m" "m \<le> 1000 * (n + 1)" "0 \<le> n" using assms by (auto simp: n_def)
  define q where "q = (of_int m / 1000 :: rat)"
  have exact: "fl_of_int m = of_int m" using assms fl_of_int_exact [of m] by (simp add: fl_of_int_def)
  have "fl (of_int (n + 1)) = of_int (n + 1)" using n assms by (intro fl_of_int_exact) auto
  moreover have "q \<le> of_int (n + 1)"
    using n(2) unfolding q_def by (simp add: divide_le_eq flip: of_int_le_iff [where ?'a = rat])
  ultimately have upper: "fl q \<le> of_int (n + 1)" using fl_mono [of q "of_int (n + 1)"] by simp
  have "fl (of_int (1024 * n + 1) * 2 powi (- 10)) = of_int (1024 * n + 1) * 2 powi (- 10)"
    using n assms by (intro fl_exact) auto
  moreover have "of_int (1024 * n + 1) * 2 powi (- 10) = (of_int n + 1 / 1024 :: rat)"
    by (simp add: power_int_def field_simps)
  ultimately have "fl (of_int n + 1 / 1024) = of_int n + 1 / 1024" by metis
  moreover have "of_int n + 1 / 1024 \<le> q"
    using n(1) unfolding q_def by (simp add: field_simps flip: of_int_le_iff [where ?'a = rat])
  ultimately have lower: "of_int n + 1 / 1024 \<le> fl q" using fl_mono [of "of_int n + 1 / 1024" q] by simp
  have "\<lceil>fl q\<rceil> = n + 1" using upper lower by (intro ceiling_unique) auto
  then show ?thesis using n by (simp add: vCPU_def fl_div_def exact q_def n_def [symmetric] Let_def)
qed

text \<open>What a later answer of the platform may differ in: times once given stay, and so does a finished
  execution; a container only runs once its start time is known.\<close>

definition later_execution :: "runExecution \<Rightarrow> runExecution \<Rightarrow> bool" where
  "later_execution e e' \<longleftrightarrow>
     (re_CompletionTime e \<noteq> [] \<longrightarrow> e' = e) \<and> (re_StartTime e \<noteq> [] \<longrightarrow> re_StartTime e' \<noteq> []) \<and>
     (0 < re_RunningCount e \<longrightarrow> re_StartTime e \<noteq> [])"

lemma newest_loop_newest:
  "newest_loop g es e \<in> set (e # es) \<and>
   (\<forall>x \<in> set (e # es). Gcp_parseTime g (re_StartTime x) \<le> Gcp_parseTime g (re_StartTime (newest_loop g es e)))"
proof (induction es arbitrary: e)
  case Nil
  then show ?case by simp
next
  case (Cons x es)
  let ?t = "\<lambda>e. Gcp_parseTime g (re_StartTime e)"
  define y where "y = (if ?t e < ?t x then x else e)"
  have "newest_loop g (x # es) e = newest_loop g es y" by (simp add: y_def)
  moreover have "?t e \<le> ?t y" "?t x \<le> ?t y" "y \<in> {e, x}" by (auto simp: y_def)
  ultimately show ?case using Cons.IH [of y] by fastforce
qed

text \<open>A platform that remembers the requests it was sent, answering each from what it was sent before.\<close>

definition remembering :: "(HttpRequest list \<Rightarrow> 'k \<Rightarrow> HttpRequest \<Rightarrow> goerror + HttpResponse) \<Rightarrow> 'k \<Rightarrow> HttpRequest \<Rightarrow> (HttpRequest list, goerror + HttpResponse) state" where
  "remembering answer key r = State (\<lambda>sent. (answer sent key r, sent @ [r]))"

definition create_request :: "('k, 'w) Google \<Rightarrow> 'k GcpProvider \<Rightarrow> ID \<Rightarrow> Json \<Rightarrow> HttpRequest" where
  "create_request g p i spec =
     Gcp_request ''POST'' (jobsURL (gp_cfg p) (gp_runURL p) @ ''?jobId='' @ jobName g i) (Some spec)"

definition run_request :: "('k, 'w) Google \<Rightarrow> 'k GcpProvider \<Rightarrow> ID \<Rightarrow> HttpRequest" where
  "run_request g p i = Gcp_request ''POST'' (jobURL (gp_cfg p) (gp_runURL p) (jobName g i) @ '':run'') (Some (JObject []))"

definition delete_request :: "('k, 'w) Google \<Rightarrow> 'k GcpProvider \<Rightarrow> ID \<Rightarrow> HttpRequest" where
  "delete_request g p i = Gcp_request ''DELETE'' (jobURL (gp_cfg p) (gp_runURL p) (jobName g i)) None"

text \<open>The platform saying that a job is gone is recognised in the text of the error.\<close>

lemma isNotFound_404: "isNotFound g (ClassifyHTTP 404 after err)"
proof -
  have "Itoa 404 = ''404''" by code_simp
  then have "strings_Contains (Sprintf (gl_Fmt g) ''http %d: %w'' [N 404] [err_text (gl_Fmt g) err]) ''http 404''"
    by (simp add: verb_text_def)
  then have "strings_Contains (Sprintf (gl_Fmt g) ''%w: %w'' []
      [ErrNotFound, Sprintf (gl_Fmt g) ''http %d: %w'' [N 404] [err_text (gl_Fmt g) err]]) ''http 404''"
    by (auto intro!: Contains_append Contains_Cons simp del: strings_Contains.simps)
  then show ?thesis
    unfolding isNotFound_def
    by (simp add: ClassifyHTTP_def Internal_def Failure_Error_contains Let_def del: Sprintf.simps strings_Contains.simps)
qed

lemma cancelled_when_gone:
  assumes "run_state (gl_Do g (gp_http p) (delete_request g p i)) s = (Inr \<lparr>rs_StatusCode = 404, rs_RetryAfter = after, rs_Body = Inr body\<rparr>, t)"
    and "\<And>method url. gl_NewRequest g method url = None"
  shows "run_state (Gcp_Cancel g p i) s = (None, t)"
  using assms by (simp add: Gcp_Cancel_def Gcp_call_def delete_request_def answered_def isNotFound_404)

section \<open>Properties\<close>

text \<open>A task is never given fewer cores than it asked for, nor a whole core more: the float64 division the
  code rounds up with is exact enough for every request below 2^52 millicores.\<close>

theorem cores_cover_request:
  assumes "0 < m" "m \<le> 2 ^ 52"
  shows "m \<le> 1000 * vCPU m \<and> 1000 * (vCPU m - 1) < m"
proof -
  define d r where "d = (m - 1) div 1000" and "r = (m - 1) mod 1000"
  have "1000 * d + r = m - 1" "0 \<le> r" "r < 1000" by (simp_all add: d_def r_def)
  then show ?thesis unfolding vCPU_ceiling [OF assms] d_def [symmetric] by auto
qed

theorem cores_cover_request_witness: "2001 \<le> 1000 * vCPU 2001 \<and> 1000 * (vCPU 2001 - 1) < 2001"
  using cores_cover_request [of 2001] by simp

text \<open>The states reported for one execution are ones a record can go through: while the platform keeps what
  it has said, each answer reports the state of the one before or a legal next one, and a final one
  stays.\<close>

theorem reported_states_advance:
  assumes "later_execution e e'"
  shows "runExecution_state e' = runExecution_state e \<or> CanTransition (runExecution_state e) (runExecution_state e')"
  using assms
  by (auto simp: later_execution_def runExecution_state_def CanTransition_def legalTransitions_def)

theorem reported_states_advance_witness:
  "CanTransition
     (runExecution_state \<lparr>re_Name = ''x'', re_StartTime = ''10:00'', re_CompletionTime = [], re_RunningCount = 0,
        re_SucceededCount = 0, re_FailedCount = 0, re_CancelledCount = 0\<rparr>)
     (runExecution_state \<lparr>re_Name = ''x'', re_StartTime = ''10:00'', re_CompletionTime = ''10:01'', re_RunningCount = 0,
        re_SucceededCount = 0, re_FailedCount = 1, re_CancelledCount = 0\<rparr>)"
proof -
  let ?e = "\<lparr>re_Name = ''x'', re_StartTime = ''10:00'', re_CompletionTime = [], re_RunningCount = 0,
        re_SucceededCount = 0, re_FailedCount = 0, re_CancelledCount = 0\<rparr>"
  let ?e' = "\<lparr>re_Name = ''x'', re_StartTime = ''10:00'', re_CompletionTime = ''10:01'', re_RunningCount = 0,
        re_SucceededCount = 0, re_FailedCount = 1, re_CancelledCount = 0\<rparr>"
  have "later_execution ?e ?e'" by (simp add: later_execution_def)
  from reported_states_advance [OF this]
  show ?thesis by (simp add: runExecution_state_def vocab)
qed

text \<open>C35. A log that is not cut short is complete: it is the text of every entry of every page the platform
  has, in order.  However much there is, no more than the bound and one newline is kept.\<close>

theorem logs_complete:
  assumes "run_state (logs g p name) s = (Inr (out, short), t)"
  shows "length out \<le> maxLogBytes + 1 \<and>
    (\<not> short \<longrightarrow> (\<exists>ps. run_state (all_pages maxLogPages g p name []) s = (Inr ps, t) \<and>
      out = printed (concat (map le_Entries ps))))"
  using logs_loop_ok [OF assms [unfolded logs_def]] by (simp add: maxLogEntries_def)

lemma run_call:
  assumes "gl_Do g = remembering answer" "gl_NewRequest g method url = None"
  shows "run_state (Gcp_call g p method url payload decode) sent =
    (answered g method url decode (answer sent (gp_http p) (Gcp_request method url payload)),
     sent @ [Gcp_request method url payload])"
  using assms by (simp add: Gcp_call_def remembering_def)

text \<open>What the code makes of the platform's answer to a request without a body to read: the error, if it is one.\<close>

definition request_failure :: "('k, 'w) Google \<Rightarrow> HttpRequest \<Rightarrow> goerror + HttpResponse \<Rightarrow> goerror option" where
  "request_failure g r answer =
     (case answered g (rq_Method r) (rq_URL r) no_body answer of Inl err \<Rightarrow> Some err | Inr u \<Rightarrow> None)"

text \<open>C29. Submitting creates the job and runs it, as the platform answers, and nothing else is asked of it: a task
  that cannot be described is not sent; when creating the job is answered with an error the job is not
  run and that error is returned; when running it is, the job is deleted again and that error is returned;
  when neither is, the submission is one dispatch accepts, under the job's name.\<close>

theorem submission_requests:
  assumes "gl_Do g = remembering answer" "\<And>method url. gl_NewRequest g method url = None"
    and "run_state (Gcp_Submit h g p i task) sent = (out, sent')"
  shows "case jobSpec h p task of
      Inl err \<Rightarrow> out = Inl err \<and> sent' = sent
    | Inr spec \<Rightarrow>
        (case request_failure g (create_request g p i spec) (answer sent (gp_http p) (create_request g p i spec)) of
           Some err \<Rightarrow> out = Inl err \<and> sent' = sent @ [create_request g p i spec]
         | None \<Rightarrow>
             (case request_failure g (run_request g p i)
                 (answer (sent @ [create_request g p i spec]) (gp_http p) (run_request g p i)) of
                Some err \<Rightarrow> out = Inl err \<and>
                  sent' = sent @ [create_request g p i spec, run_request g p i, delete_request g p i]
              | None \<Rightarrow>
                  (\<exists>sub. out = Inr sub \<and> Submission_Validate sub = None \<and> sub_ProviderID sub = jobName g i) \<and>
                  sent' = sent @ [create_request g p i spec, run_request g p i]))"
proof (cases "jobSpec h p task")
  case (Inl err)
  with assms(3) show ?thesis by (simp add: Gcp_Submit_def)
next
  case (Inr spec)
  note run = run_call [OF assms(1,2)]
  show ?thesis
    using assms(3) Inr
    by (auto simp: Gcp_Submit_def deleteJob_def run create_request_def run_request_def delete_request_def
        request_failure_def Gcp_request_def Submission_Validate_None submittable_iff terminal_iff vocab split: sum.splits)
qed

text \<open>A platform that creates jobs but fails to run them, and whose log has one empty page and one entry.\<close>

definition gcp_fmt :: Fmt where
  "gcp_fmt = \<lparr>fm_Quote = (\<lambda>s. s), fm_Float = (\<lambda>x. []), fm_ID = (\<lambda>i. ''0'')\<rparr>"

definition gcp_answer :: "HttpRequest list \<Rightarrow> unit \<Rightarrow> HttpRequest \<Rightarrow> goerror + HttpResponse" where
  "gcp_answer sent key r =
     Inr \<lparr>rs_StatusCode = (if rq_Body r = Some (JObject []) then 500 else 200), rs_RetryAfter = [],
       rs_Body = Inr (if sent = [] then ''first'' else ''second'')\<rparr>"

definition gcp_platform :: "(unit, HttpRequest list) Google" where
  "gcp_platform =
     \<lparr>gl_Decode = (\<lambda>b. (\<lparr>gc_Project = ''p'', gc_Region = ''r'', gc_RuntimeServiceAccount = ''a''\<rparr>, [])),
      gl_JWTConfig = (\<lambda>key. Inr ()), gl_NewRequest = (\<lambda>method url. None), gl_Do = remembering gcp_answer,
      gl_Tail = (\<lambda>key r. State_Monad.return (Inl (Sentinel ''closed''))), gl_Executions = (\<lambda>body. Inr []),
      gl_Tasks = (\<lambda>body. Inr []),
      gl_Entries = (\<lambda>body. Inr (if body = ''first'' then \<lparr>le_Entries = [[]], le_NextPageToken = ''next''\<rparr>
        else \<lparr>le_Entries = [''ok''], le_NextPageToken = []\<rparr>)),
      gl_Message = (\<lambda>body. []), gl_now = State_Monad.return 0, gl_ParseTime = (\<lambda>s. None), gl_Fmt = gcp_fmt\<rparr>"

definition gcp_provider :: "unit GcpProvider" where
  "gcp_provider =
     \<lparr>gp_name = ''run'', gp_cfg = \<lparr>gc_Project = ''p'', gc_Region = ''r'', gc_RuntimeServiceAccount = ''a''\<rparr>,
      gp_http = (), gp_runURL = runEndpoint, gp_logsURL = loggingEndpoint\<rparr>"

lemma gcp_platform_calls:
  "gl_Do gcp_platform = remembering gcp_answer" "gl_NewRequest gcp_platform method url = None"
  by (simp_all add: gcp_platform_def)

theorem submission_requests_witness:
  "\<exists>spec err. jobSpec image_hcl gcp_provider image_task = Inr spec \<and>
     run_state (Gcp_Submit image_hcl gcp_platform gcp_provider 0 image_task) [] =
       (Inl err, [create_request gcp_platform gcp_provider 0 spec, run_request gcp_platform gcp_provider 0,
         delete_request gcp_platform gcp_provider 0])"
proof -
  obtain spec where spec: "jobSpec image_hcl gcp_provider image_task = Inr spec" "spec \<noteq> JObject []"
    by (simp add: jobSpec_def taskTimeout_def environment_def Environment_def RawBlock_Attributes_def ConfigString_def
        configValue_def config_attribute_def image_task_def image_hcl_def)
  obtain out sent where run: "run_state (Gcp_Submit image_hcl gcp_platform gcp_provider 0 image_task) [] = (out, sent)"
    by fastforce
  then have "length sent = 3"
    by (auto simp: Gcp_Submit_def spec deleteJob_def run_call [OF gcp_platform_calls] gcp_answer_def answered_def no_body_def
        Gcp_request_def)
  with submission_requests [OF gcp_platform_calls run] spec run show ?thesis by (auto split: option.split_asm)
qed

lemma gcp_platform_pages:
  "\<exists>r. run_state (logPage gcp_platform gcp_provider name token) sent =
     (Inr (if sent = [] then \<lparr>le_Entries = [[]], le_NextPageToken = ''next''\<rparr>
       else \<lparr>le_Entries = [''ok''], le_NextPageToken = []\<rparr>), sent @ [r])"
  unfolding logPage_def run_call [OF gcp_platform_calls]
  by (simp add: gcp_answer_def answered_def Gcp_request_def) (simp add: gcp_platform_def)

theorem logs_complete_witness:
  "\<exists>ps t. run_state (all_pages maxLogPages gcp_platform gcp_provider ''job'' []) [] = (Inr ps, t) \<and>
     ''ok'' @ [CHR 0x0A] = printed (concat (map le_Entries ps))"
proof -
  obtain r1 where first: "run_state (logPage gcp_platform gcp_provider ''job'' []) [] =
      (Inr \<lparr>le_Entries = [[]], le_NextPageToken = ''next''\<rparr>, [r1])"
    using gcp_platform_pages [of "''job''" "[]" "[]"] by auto
  obtain r2 where second: "run_state (logPage gcp_platform gcp_provider ''job'' ''next'') [r1] =
      (Inr \<lparr>le_Entries = [''ok''], le_NextPageToken = []\<rparr>, [r1, r2])"
    using gcp_platform_pages [of "''job''" "''next''" "[r1]"] by auto
  have enough: "maxLogPages = Suc (Suc 18)" by (simp add: maxLogPages_def)
  have "run_state (logs gcp_platform gcp_provider ''job'') [] = (Inr (''ok'' @ [CHR 0x0A], False), [r1, r2])"
    unfolding logs_def enough logs_loop.simps by (simp add: first second logBuffer_add_def maxLogBytes_def maxLogEntries_def)
  from logs_complete [OF this] show ?thesis by auto
qed

end
