(* ===== verification/Lambda.thy ===== *)
theory Lambda
  imports CloudRun
begin

text \<open>
  \<^verbatim>\<open>internal/providers/aws\<close>: function tasks as synchronous Lambda invocations.  The AWS SDK, JSON decoding
  and the clock are the parameters of \<open>LambdaSDK\<close>.  Reading the line AWS ends a log with is modelled
  whole, base64 included.
\<close>

definition LambdaType :: string where [vocab]: "LambdaType = ''lambda''"
definition ConfigFunction :: string where "ConfigFunction = ''function''"

section \<open>The platform\<close>

record processCredential =
  pc_Version :: int
  pc_AccessKeyID :: string
  pc_SecretAccessKey :: string
  pc_SessionToken :: string

record InvokeOutput =
  io_FunctionError :: "string option"
  io_LogResult :: string

text \<open>
  \<open>la_Load\<close> makes a client for a region from static keys or, with none, from the SDK's own chain;
  \<open>la_Status\<close> is the HTTP status of an error that has a response.
\<close>

record ('c, 'w) LambdaSDK =
  la_Decode :: "HclBody \<Rightarrow> string \<times> Diagnostic list"
  la_Credential :: "string \<Rightarrow> goerror + processCredential"
  la_Load :: "string \<Rightarrow> (string \<times> string \<times> string) option \<Rightarrow> goerror + 'c"
  la_Invoke :: "'c \<Rightarrow> string \<Rightarrow> Json \<Rightarrow> ('w, goerror + InvokeOutput) state"
  la_Status :: "goerror \<Rightarrow> int option"
  la_now :: "('w, Time) state"
  la_Fmt :: Fmt

record 'c AwsProvider =
  ap_name :: string
  ap_region :: string
  ap_client :: 'c

definition Aws_decodeConfig :: "('c, 'w) LambdaSDK \<Rightarrow> string \<Rightarrow> HclBody option \<Rightarrow> string option \<times> Diagnostic list" where
  "Aws_decodeConfig a name body =
     (case body of
        None \<Rightarrow> (None, [diagnostic (''Missing provider configuration'', [])
          (''Provider %q is a %s provider and declares no config block. It needs region.'', [name, LambdaType]) None])
      | Some b \<Rightarrow>
          (case la_Decode a b of
             (region, diags) \<Rightarrow>
               if HasErrors diags then (None, diags)
               else (Some region, diags @
                 (if TrimSpace region = []
                  then [diagnostic (''Empty provider setting'', []) (''Provider %q sets region to an empty string.'', [name]) None]
                  else []))))"

definition staticCredential :: "('c, 'w) LambdaSDK \<Rightarrow> string \<Rightarrow> goerror + string \<times> string \<times> string" where
  "staticCredential a raw =
     (case la_Credential a raw of
        Inl err \<Rightarrow> Inl (Formatted ''parsing the credential: %w'' [] [err])
      | Inr c \<Rightarrow>
          if pc_Version c \<noteq> 1 \<or> pc_AccessKeyID c = [] \<or> pc_SecretAccessKey c = []
          then Inl (Sentinel ''the credential is not credential_process JSON with Version 1, AccessKeyId and SecretAccessKey'')
          else Inr (pc_AccessKeyID c, pc_SecretAccessKey c, pc_SessionToken c))"

definition loaded_client :: "goerror + 'c \<Rightarrow> goerror + 'c" where
  "loaded_client made = (case made of Inl err \<Rightarrow> Inl (Formatted ''loading AWS configuration: %w'' [] [err]) | Inr c \<Rightarrow> Inr c)"

definition newClient :: "('c, 'w) LambdaSDK \<Rightarrow> string \<Rightarrow> string \<Rightarrow> goerror + 'c" where
  "newClient a region credential =
     (if credential = [] then loaded_client (la_Load a region None)
      else case staticCredential a credential of
          Inl err \<Rightarrow> Inl err
        | Inr keys \<Rightarrow> loaded_client (la_Load a region (Some keys)))"

definition classify :: "('c, 'w) LambdaSDK \<Rightarrow> goerror \<Rightarrow> goerror" where
  "classify a err = (case la_Status a err of Some status \<Rightarrow> ClassifyHTTP status 0 err | None \<Rightarrow> Infrastructure err)"

definition Aws_New :: "('c, 'w) LambdaSDK \<Rightarrow> string \<Rightarrow> HclBody option \<Rightarrow> string \<Rightarrow> 'c AwsProvider option \<times> Diagnostic list" where
  "Aws_New a name body credential =
     (case Aws_decodeConfig a name body of
        (None, diags) \<Rightarrow> (None, diags)
      | (Some region, diags) \<Rightarrow>
          if HasErrors diags then (None, diags)
          else case newClient a region credential of
              Inl err \<Rightarrow> (None, diags @ [diagnostic (''Unusable credential'', [])
                (''Provider %q: %s.'', [name, err_text (la_Fmt a) err]) None])
            | Inr c \<Rightarrow> (Some \<lparr>ap_name = name, ap_region = region, ap_client = c\<rparr>, diags))"

definition Aws_Recredential :: "('c, 'w) LambdaSDK \<Rightarrow> string \<Rightarrow> 'c AwsProvider \<Rightarrow> goerror option \<times> 'c AwsProvider" where
  "Aws_Recredential a credential p =
     (case newClient a (ap_region p) credential of Inl err \<Rightarrow> (Some err, p) | Inr c \<Rightarrow> (None, p\<lparr>ap_client := c\<rparr>))"

section \<open>The invocation\<close>

text \<open>The event; an absent list or map is left out.\<close>

definition event :: "string \<Rightarrow> string list \<Rightarrow> (string \<times> string) list \<Rightarrow> Json" where
  "event i args env =
     JObject ([(''execution_id'', JString i)] @
       (if args \<noteq> [] then [(''args'', JList (map JString args))] else []) @
       (if env \<noteq> [] then [(''env'', JObject (map (apsnd JString) env))] else []))"

definition invocation :: "Hcl \<Rightarrow> ('c, 'w) LambdaSDK \<Rightarrow> ID \<Rightarrow> Task \<Rightarrow> goerror + string \<times> Json" where
  "invocation h a i task =
     (case configValue h task ConfigFunction (hcl_ToString h) of
        None \<Rightarrow> Inl (Internal (Formatted ''task %q names no function'' [S (task_Name task)] []))
      | Some function \<Rightarrow>
          if function = [] then Inl (Internal (Formatted ''task %q names no function'' [S (task_Name task)] []))
          else
            (let args = (case configValue h task ''args'' (hcl_ToStrings h) of None \<Rightarrow> [] | Some as \<Rightarrow> as) in
             case Environment h task of
               (env, diags) \<Rightarrow>
                 if HasErrors diags
                 then Inl (Internal (Formatted ''task %q env: %s'' [S (task_Name task), S (hcl_Error h diags)] []))
                 else Inr (function, event (fm_ID (la_Fmt a) i) args env)))"

section \<open>The log\<close>

text \<open>Standard base64, with line breaks skipped.\<close>

definition b64_value :: "char \<Rightarrow> int option" where
  "b64_value c =
     (let b = byte c in
      if 65 \<le> b \<and> b \<le> 90 then Some (b - 65)
      else if 97 \<le> b \<and> b \<le> 122 then Some (b - 71)
      else if 48 \<le> b \<and> b \<le> 57 then Some (b + 4)
      else if b = 43 then Some 62
      else if b = 47 then Some 63
      else None)"

definition b64_bytes :: "nat \<Rightarrow> int list \<Rightarrow> string" where
  "b64_bytes n vs =
     (let v = foldl (\<lambda>acc x. 64 * acc + x) 0 vs in
      take n [char_of (v div 65536), char_of (v div 256 mod 256), char_of (v mod 256)])"

fun b64_decode :: "string \<Rightarrow> string option" where
  "b64_decode [] = Some []"
| "b64_decode (c1 # c2 # c3 # c4 # s) =
     (case (b64_value c1, b64_value c2) of
        (Some v1, Some v2) \<Rightarrow>
          if c3 = CHR ''='' then (if c4 = CHR ''='' \<and> s = [] then Some (b64_bytes 1 [v1, v2, 0, 0]) else None)
          else
            (case b64_value c3 of
               None \<Rightarrow> None
             | Some v3 \<Rightarrow>
                 if c4 = CHR ''='' then (if s = [] then Some (b64_bytes 2 [v1, v2, v3, 0]) else None)
                 else
                   (case b64_value c4 of
                      None \<Rightarrow> None
                    | Some v4 \<Rightarrow> map_option ((@) (b64_bytes 3 [v1, v2, v3, v4])) (b64_decode s)))
      | _ \<Rightarrow> None)"
| "b64_decode s = None"

definition DecodeString :: "string \<Rightarrow> string option" where
  "DecodeString s = b64_decode (filter (\<lambda>c. c \<noteq> CHR 0x0A \<and> c \<noteq> CHR 0x0D) s)"

record report =
  rp_duration :: Duration
  rp_billed :: Duration
  rp_memory :: int

text \<open>What the leftmost match of a key, one or more characters of a class and a unit captures.\<close>

fun FindSubmatch :: "string \<Rightarrow> (char \<Rightarrow> bool) \<Rightarrow> string \<Rightarrow> string \<Rightarrow> string option" where
  "FindSubmatch key cls unit [] = None"
| "FindSubmatch key cls unit (c # s) =
     (let rest = drop (length key) (c # s) in
      if HasPrefix (c # s) key \<and> takeWhile cls rest \<noteq> [] \<and> HasPrefix (dropWhile cls rest) unit
      then Some (takeWhile cls rest)
      else FindSubmatch key cls unit s)"

definition decimal_char :: "char \<Rightarrow> bool" where
  "decimal_char c \<longleftrightarrow> is_digit c \<or> c = CHR ''.''"

definition reportDuration :: "string \<Rightarrow> string option" where
  "reportDuration = FindSubmatch (CHR 0x09 # ''Duration: '') decimal_char '' ms''"

definition reportBilled :: "string \<Rightarrow> string option" where
  "reportBilled = FindSubmatch (CHR 0x09 # ''Billed Duration: '') is_digit '' ms''"

definition reportMemory :: "string \<Rightarrow> string option" where
  "reportMemory = FindSubmatch (CHR 0x09 # ''Memory Size: '') is_digit '' MB''"

text \<open>A float64 rounded up to an int64; one out of range becomes the least, as on amd64.\<close>

definition ceil_int64 :: "rat \<Rightarrow> int" where
  "ceil_int64 x = (if int64 \<lceil>x\<rceil> then \<lceil>x\<rceil> else - 9223372036854775808)"

definition report_fields :: "string \<Rightarrow> report" where
  "report_fields line =
     \<lparr>rp_duration = (case Option.bind (reportDuration line) ParseFloat of
          Some (Finite ms) \<Rightarrow> ceil_int64 (fl_mul ms (fl_of_int Millisecond)) | _ \<Rightarrow> 0),
      rp_billed = (case Option.bind (reportBilled line) ParseInt of Some ms \<Rightarrow> wrap64 (ms * Millisecond) | None \<Rightarrow> 0),
      rp_memory = (case Option.bind (reportMemory line) ParseInt of Some mb \<Rightarrow> mb | None \<Rightarrow> 0)\<rparr>"

definition report_line :: "string \<Rightarrow> string" where
  "report_line text =
     foldl (\<lambda>line candidate. if HasPrefix candidate ''REPORT '' then candidate else line) [] (splitOn (CHR 0x0A) text)"

definition parseReport :: "string \<Rightarrow> report option" where
  "parseReport text = (if report_line text = [] then None else Some (report_fields (report_line text)))"

definition hasBill :: "report \<Rightarrow> bool" where
  "hasBill r \<longleftrightarrow> 0 < rp_billed r \<and> 0 < rp_memory r"

definition applyReport :: "Result \<Rightarrow> report \<Rightarrow> Result" where
  "applyReport result r =
     (let result = (if 0 < rp_duration r then result\<lparr>res_Duration := rp_duration r\<rparr> else result) in
      if hasBill r
      then result\<lparr>res_Billed := Some \<lparr>ex_CPU = 0, ex_Memory = rp_memory r, ex_Duration = rp_billed r\<rparr>\<rparr>
      else result)"

section \<open>The provider\<close>

definition aws_maxCPU :: int where "aws_maxCPU = 6000"
definition aws_maxMemory :: int where "aws_maxMemory = 10240"
definition aws_maxDuration :: Duration where "aws_maxDuration = 15 * Minute"
definition logTailSize :: nat where "logTailSize = 4096"

definition Aws_Capabilities :: "('c, 'w) LambdaSDK \<Rightarrow> ('w, Capabilities) state" where
  "Aws_Capabilities a =
     do {
       now \<leftarrow> la_now a;
       State_Monad.return (Capabilities [DriverFunction] [ArchAMD64, ArchARM64]
         \<lparr>rl_CPU = Some aws_maxCPU, rl_Memory = Some aws_maxMemory\<rparr> aws_maxDuration \<lparr>r_CPU = 0, r_Memory = 0\<rparr>
         True False False 0 now [])
     }"

definition with_logs :: "InvokeOutput \<Rightarrow> Result \<Rightarrow> Result" where
  "with_logs out result =
     (case DecodeString (io_LogResult out) of
        None \<Rightarrow> result
      | Some text \<Rightarrow>
          (let result = result\<lparr>res_Logs := text, res_LogsTruncated := logTailSize \<le> length text\<rparr> in
           case parseReport text of None \<Rightarrow> result | Some r \<Rightarrow> applyReport result r))"

definition Aws_Submit :: "Hcl \<Rightarrow> ('c, 'w) LambdaSDK \<Rightarrow> 'c AwsProvider \<Rightarrow> ID \<Rightarrow> Task \<Rightarrow> ('w, goerror + Submission) state" where
  "Aws_Submit h a p i task =
     (case invocation h a i task of
        Inl err \<Rightarrow> State_Monad.return (Inl err)
      | Inr (function, payload) \<Rightarrow> do {
          started \<leftarrow> la_now a;
          invoked \<leftarrow> la_Invoke a (ap_client p) function payload;
          (case invoked of
             Inl err \<Rightarrow> State_Monad.return (Inl (classify a err))
           | Inr out \<Rightarrow> do {
               finished \<leftarrow> la_now a;
               State_Monad.return (Inr
                 \<lparr>sub_ProviderID = function,
                  sub_State = (if io_FunctionError out \<noteq> None then StateFailed else StateSucceeded),
                  sub_Result = Some (with_logs out
                    \<lparr>res_ID = i, res_ExitCode = Some (if io_FunctionError out \<noteq> None then 1 else 0),
                     res_Duration = Time_Sub finished started, res_Billed = None, res_Logs = [],
                     res_LogsTruncated = False\<rparr>)\<rparr>)
             })
        })"

text \<open>Status, result and cancelling are not supported: everything came back from the submission.\<close>

definition Aws_Status :: "goerror + Status" where "Aws_Status = StatusNotSupported"
definition Aws_Result :: "goerror + Result option" where "Aws_Result = ResultNotSupported"
definition Aws_Cancel :: "goerror option" where "Aws_Cancel = CancelNotSupported"

section \<open>Facts\<close>

lemma HasPrefix_append [simp]: "HasPrefix (p @ s) p"
  by (simp add: HasPrefix_iff)

lemma takeWhile_class:
  "\<forall>c \<in> set u. cls c \<Longrightarrow> \<not> cls c \<Longrightarrow> takeWhile cls (u @ c # s) = u \<and> dropWhile cls (u @ c # s) = c # s"
  by (simp add: takeWhile_append2 dropWhile_append2)

text \<open>A key begins with a tab, so text without one is passed over.\<close>

lemma FindSubmatch_skip:
  "CHR 0x09 \<notin> set u \<Longrightarrow> FindSubmatch (CHR 0x09 # key) cls unit (u @ s) = FindSubmatch (CHR 0x09 # key) cls unit s"
  by (induction u) (auto simp: Let_def)

lemma FindSubmatch_here:
  assumes "\<forall>c \<in> set u. cls c" "u \<noteq> []" "\<not> cls x"
  shows "FindSubmatch (k # key) cls (x # unit) (k # key @ u @ x # unit @ s) = Some u"
  using assms takeWhile_class [of u cls x "unit @ s"] by simp

lemma FindSubmatch_miss:
  "\<not> HasPrefix s key \<Longrightarrow> FindSubmatch (CHR 0x09 # key) cls unit (CHR 0x09 # s) = FindSubmatch (CHR 0x09 # key) cls unit s"
  by simp

text \<open>The line as AWS writes it, for whole milliseconds.\<close>

definition REPORT_line :: "string \<Rightarrow> string \<Rightarrow> int \<Rightarrow> int \<Rightarrow> string \<Rightarrow> string" where
  "REPORT_line request ms billed memory rest =
     ''REPORT RequestId: '' @ request @ CHR 0x09 # ''Duration: '' @ ms @ '' ms'' @ CHR 0x09 # ''Billed Duration: '' @
     Itoa billed @ '' ms'' @ CHR 0x09 # ''Memory Size: '' @ Itoa memory @ '' MB'' @ rest"

lemma Itoa_digits: "0 \<le> n \<Longrightarrow> \<forall>c \<in> set (Itoa n). is_digit c"
  by (auto simp: Itoa_def dest: show_nat_digits)

lemma not_is_digit [simp]: "\<not> is_digit (CHR '' '')" "\<not> decimal_char (CHR '' '')" "\<not> is_digit (CHR 0x09)" "\<not> decimal_char (CHR 0x09)"
  by (simp_all add: is_digit_def decimal_char_def byte_def)

lemma REPORT_line_fields:
  assumes "CHR 0x09 \<notin> set request" "\<forall>c \<in> set ms. decimal_char c" "ms \<noteq> []" "0 \<le> billed" "0 \<le> memory"
  shows "reportDuration (REPORT_line request ms billed memory rest) = Some ms"
    and "reportBilled (REPORT_line request ms billed memory rest) = Some (Itoa billed)"
    and "reportMemory (REPORT_line request ms billed memory rest) = Some (Itoa memory)"
proof -
  let ?l = "REPORT_line request ms billed memory rest"
  have tab: "CHR 0x09 \<notin> set (''REPORT RequestId: '' @ request)" using assms(1) by simp
  have ms: "CHR 0x09 \<notin> set (''Duration: '' @ ms @ '' ms'')" using assms(2) by auto
  have bl: "CHR 0x09 \<notin> set (''Billed Duration: '' @ Itoa billed @ '' ms'')" using Itoa_digits [OF assms(4)] by auto
  show "reportDuration ?l = Some ms"
    using FindSubmatch_skip [OF tab] FindSubmatch_here [of ms decimal_char "CHR '' ''"] assms(2,3)
    by (simp add: reportDuration_def REPORT_line_def)
  show "reportBilled ?l = Some (Itoa billed)"
    using FindSubmatch_skip [OF tab] FindSubmatch_skip [OF ms] FindSubmatch_here [of "Itoa billed" is_digit "CHR '' ''"]
      Itoa_digits [OF assms(4)] FindSubmatch_miss [of "''Duration: '' @ u" "''Billed Duration: ''" for u]
    by (simp add: reportBilled_def REPORT_line_def)
  show "reportMemory ?l = Some (Itoa memory)"
    using FindSubmatch_skip [OF tab] FindSubmatch_skip [OF ms] FindSubmatch_skip [OF bl]
      FindSubmatch_here [of "Itoa memory" is_digit "CHR '' ''"] Itoa_digits [OF assms(5)]
      FindSubmatch_miss [of "''Duration: '' @ u" "''Memory Size: ''" for u]
      FindSubmatch_miss [of "''Billed Duration: '' @ u" "''Memory Size: ''" for u]
    by (simp add: reportMemory_def REPORT_line_def)
qed

lemma foldl_keeps: "\<forall>x \<in> set xs. \<not> Q x \<Longrightarrow> foldl (\<lambda>a x. if Q x then x else a) a xs = a"
  by (induction xs) auto

lemma report_line_last:
  assumes "CHR 0x0A \<notin> set line" "HasPrefix line ''REPORT ''"
    and "\<forall>l \<in> set (splitOn (CHR 0x0A) after). \<not> HasPrefix l ''REPORT ''"
    and "before = [] \<or> (\<exists>b. before = b @ [CHR 0x0A])"
  shows "report_line (before @ line @ CHR 0x0A # after) = line"
proof -
  have split: "splitOn (CHR 0x0A) (b @ CHR 0x0A # s) = splitOn (CHR 0x0A) b @ splitOn (CHR 0x0A) s" for b s
    by (induction b) (auto split: list.splits)
  have "report_line (line @ CHR 0x0A # after) = line"
    using assms(1-3) by (simp add: report_line_def splitOn_append splitOn_free foldl_keeps)
  moreover have "report_line (b @ CHR 0x0A # line @ CHR 0x0A # after) = line" for b
    using assms(1-3) by (simp add: report_line_def split splitOn_append splitOn_free foldl_keeps)
  ultimately show ?thesis using assms(4) by auto
qed

section \<open>Properties\<close>

text \<open>C34. What AWS billed is read back as it was written: when the log ends with a report line for whole
  milliseconds and megabytes, the result is billed for that memory and that long, whatever else was
  printed before it and whatever the caller measured.\<close>

theorem bill_read_back:
  assumes "DecodeString (io_LogResult out) = Some (before @ REPORT_line request ms billed memory rest @ CHR 0x0A # after)"
    and "CHR 0x09 \<notin> set request" "CHR 0x0A \<notin> set request" "CHR 0x0A \<notin> set rest"
    and "\<forall>c \<in> set ms. decimal_char c" "ms \<noteq> []"
    and "0 < billed" "0 < memory" "int64 (billed * Millisecond)" "int64 memory"
    and "before = [] \<or> (\<exists>b. before = b @ [CHR 0x0A])"
    and "\<forall>l \<in> set (splitOn (CHR 0x0A) after). \<not> HasPrefix l ''REPORT ''"
  shows "res_Billed (with_logs out result) =
    Some \<lparr>ex_CPU = 0, ex_Memory = memory, ex_Duration = billed * Millisecond\<rparr>"
proof -
  let ?l = "REPORT_line request ms billed memory rest"
  have "int64 billed" using assms(7,9) by (auto simp: int64_def Millisecond_def)
  have newline: "CHR 0x0A \<notin> set ?l"
    using assms(3,4,5) Itoa_digits [of billed] Itoa_digits [of memory] assms(7,8)
    by (auto simp: REPORT_line_def decimal_char_def is_digit_def byte_def)
  have prefix: "HasPrefix ?l ''REPORT ''" by (simp add: REPORT_line_def)
  have line: "report_line (before @ ?l @ CHR 0x0A # after) = ?l"
    by (rule report_line_last [OF newline prefix assms(12,11)])
  have "?l \<noteq> []" by (simp add: REPORT_line_def)
  then have "parseReport (before @ ?l @ CHR 0x0A # after) = Some (report_fields ?l)"
    by (simp add: parseReport_def line)
  moreover have "rp_billed (report_fields ?l) = billed * Millisecond" "rp_memory (report_fields ?l) = memory"
    using REPORT_line_fields [OF assms(2,5,6), of billed memory rest] assms(7-10) \<open>int64 billed\<close>
    by (simp_all add: report_fields_def ParseInt_Itoa)
  ultimately show ?thesis
    using assms(1,7,8) by (simp add: with_logs_def applyReport_def hasBill_def Let_def Millisecond_def)
qed

definition lambda_output :: InvokeOutput where
  "lambda_output =
     \<lparr>io_FunctionError = None, io_LogResult =
      ''UkVQT1JUIFJlcXVlc3RJZDogMQlEdXJhdGlvbjogMTIuMzQgbXMJQmlsbGVkIER1cmF0aW9uOiAxMyBtcwlNZW1vcnkgU2l6ZTogMTI4IE1CCg==''\<rparr>"

definition lambda_result :: Result where
  "lambda_result =
     \<lparr>res_ID = 7, res_ExitCode = Some 0, res_Duration = 20000000, res_Billed = None, res_Logs = [], res_LogsTruncated = False\<rparr>"

theorem bill_read_back_witness:
  "res_Billed (with_logs lambda_output lambda_result) = Some \<lparr>ex_CPU = 0, ex_Memory = 128, ex_Duration = 13 * Millisecond\<rparr>"
proof -
  have "DecodeString (io_LogResult lambda_output) = Some ([] @ REPORT_line ''1'' ''12.34'' 13 128 [] @ CHR 0x0A # [])"
    by code_simp
  moreover have "\<forall>c \<in> set ''12.34''. decimal_char c" by code_simp
  moreover have "\<not> HasPrefix [] ''REPORT ''" by simp
  ultimately show ?thesis
    using bill_read_back [of lambda_output "[]" "''1''" "''12.34''" 13 128 "[]" "[]" lambda_result]
    by (simp add: int64_def Millisecond_def)
qed

text \<open>A submission that is accepted is final and complete: it carries a result whose exit code says whether
  the function failed, as the reported state does, and dispatch accepts it as it is.\<close>

theorem invocation_is_final:
  assumes "run_state (Aws_Submit h a p i task) s = (Inr sub, t)"
  shows "Submission_Validate sub = None \<and> State_Terminal (sub_State sub) \<and>
    (\<exists>result. sub_Result sub = Some result \<and> res_ID result = i \<and>
      (res_ExitCode result = Some 0 \<longleftrightarrow> sub_State sub = StateSucceeded) \<and>
      (res_ExitCode result = Some 1 \<longleftrightarrow> sub_State sub = StateFailed))"
proof -
  obtain fn payload where "invocation h a i task = Inr (fn, payload)"
    using assms by (cases "invocation h a i task") (auto simp: Aws_Submit_def)
  then obtain out result where sub: "sub = \<lparr>sub_ProviderID = fn,
      sub_State = (if io_FunctionError out \<noteq> None then StateFailed else StateSucceeded), sub_Result = Some (with_logs out result)\<rparr>"
    and result: "res_ID result = i" "res_ExitCode result = Some (if io_FunctionError out \<noteq> None then 1 else 0)"
    using assms by (auto simp: Aws_Submit_def split: sum.splits prod.splits)
  have "res_ID (with_logs out result) = res_ID result" "res_ExitCode (with_logs out result) = res_ExitCode result"
    by (simp_all add: with_logs_def applyReport_def Let_def split: option.split)
  then show ?thesis
    by (auto simp: sub result Submission_Validate_None submittable_iff terminal_iff vocab)
qed

text \<open>A function that always fails.\<close>

definition lambda_sdk :: "(unit, 'w) LambdaSDK" where
  "lambda_sdk =
     \<lparr>la_Decode = (\<lambda>b. (''eu-west-1'', [])),
      la_Credential = (\<lambda>raw. Inr \<lparr>pc_Version = 1, pc_AccessKeyID = ''a'', pc_SecretAccessKey = ''s'', pc_SessionToken = []\<rparr>),
      la_Load = (\<lambda>region keys. Inr ()),
      la_Invoke = (\<lambda>c f payload. State_Monad.return (Inr \<lparr>io_FunctionError = Some ''Unhandled'', io_LogResult = []\<rparr>)),
      la_Status = (\<lambda>err. None), la_now = State_Monad.return 0, la_Fmt = gcp_fmt\<rparr>"

definition function_hcl :: Hcl where
  "function_hcl = image_hcl\<lparr>hcl_PartialContent := (\<lambda>schema body. (Some \<lparr>hc_Attributes =
     map (\<lambda>n. (n, \<lparr>ha_Name = n, ha_Expr = HclExpr 0, ha_Range = 8\<rparr>)) (bs_Attributes schema), hc_Blocks = []\<rparr>, []))\<rparr>"

theorem invocation_is_final_witness:
  "\<exists>sub t. run_state (Aws_Submit function_hcl lambda_sdk \<lparr>ap_name = ''fn'', ap_region = ''eu-west-1'', ap_client = ()\<rparr> 7 image_task) () =
     (Inr sub, t) \<and> Submission_Validate sub = None"
proof -
  obtain sub t where
    "run_state (Aws_Submit function_hcl lambda_sdk \<lparr>ap_name = ''fn'', ap_region = ''eu-west-1'', ap_client = ()\<rparr> 7 image_task) () =
      (Inr sub, t)"
    by (simp add: Aws_Submit_def invocation_def configValue_def config_attribute_def Environment_def RawBlock_Attributes_def
        image_task_def function_hcl_def image_hcl_def lambda_sdk_def)
  with invocation_is_final [OF this] show ?thesis by blast
qed

end
