(* ===== verification/Fakes.thy ===== *)
theory Fakes
  imports Rendering
begin

text \<open>
  \<^verbatim>\<open>internal/plugin/fake.go\<close>, \<^verbatim>\<open>testing.go\<close>: the providers that need no cloud account, one whose work
  outlives its submission and one that finishes in it, and what each kind of platform reports.
\<close>

section \<open>What each kind of platform reports\<close>

definition FixtureContainer :: "Time \<Rightarrow> Capabilities" where
  "FixtureContainer observed =
     Capabilities [DriverContainer] [ArchAMD64, ArchARM64] \<lparr>rl_CPU = Some 4000, rl_Memory = Some 8192\<rparr> 0
       \<lparr>r_CPU = 0, r_Memory = 0\<rparr> True False True 0 observed []"

definition FixtureFunction :: "Time \<Rightarrow> Capabilities" where
  "FixtureFunction observed =
     Capabilities [DriverFunction] [ArchAMD64, ArchARM64] \<lparr>rl_CPU = Some 6000, rl_Memory = Some 10240\<rparr> (15 * Minute)
       \<lparr>r_CPU = 0, r_Memory = 0\<rparr> True False False 0 observed []"

definition FixtureWorker :: "Time \<Rightarrow> Capabilities" where
  "FixtureWorker observed =
     Capabilities [DriverWorker] [] \<lparr>rl_CPU = None, rl_Memory = Some 128\<rparr> (30 * Second)
       \<lparr>r_CPU = 0, r_Memory = 0\<rparr> True False False 0 observed []"

section \<open>Work that outlives its submission\<close>

record FakeContainer =
  fc_ProviderName :: string
  fc_Caps :: Capabilities
  fc_SubmitErr :: "goerror option"
  fc_ExitCode :: int
  fc_runs :: "ID \<Rightarrow> Status option"

definition NewFakeContainerProvider :: "string \<Rightarrow> Time \<Rightarrow> FakeContainer" where
  "NewFakeContainerProvider name now =
     \<lparr>fc_ProviderName = name, fc_Caps = FixtureContainer now, fc_SubmitErr = None, fc_ExitCode = 0, fc_runs = Map.empty\<rparr>"

definition fake_name :: "Fmt \<Rightarrow> ID \<Rightarrow> string" where
  "fake_name f i = ''fake-'' @ fm_ID f i"

definition FakeContainer_Submit :: "Fmt \<Rightarrow> Time \<Rightarrow> ID \<Rightarrow> FakeContainer \<Rightarrow> (goerror + Submission) \<times> FakeContainer" where
  "FakeContainer_Submit f now i p =
     (case fc_SubmitErr p of
        Some err \<Rightarrow> (Inl err, p)
      | None \<Rightarrow>
          (Inr \<lparr>sub_ProviderID = fake_name f i, sub_State = StateAccepted, sub_Result = None\<rparr>,
           p\<lparr>fc_runs := (fc_runs p)(i \<mapsto> \<lparr>st_ID = i, st_State = StateAccepted, st_ProviderID = fake_name f i,
             st_StartedAt = 0, st_EndedAt = 0, st_UpdatedAt = now\<rparr>)\<rparr>))"

definition FakeContainer_Status :: "ID \<Rightarrow> FakeContainer \<Rightarrow> goerror + Status" where
  "FakeContainer_Status i p =
     (case fc_runs p i of
        None \<Rightarrow> Inl (Internal (Formatted ''%w %s'' [I i] [Sentinel ErrUnknownExecution]))
      | Some status \<Rightarrow> Inr status)"

definition unknown_execution :: "ID \<Rightarrow> goerror" where
  "unknown_execution i = Formatted ''unknown execution %s'' [I i] []"

definition FakeContainer_Cancel :: "Time \<Rightarrow> ID \<Rightarrow> FakeContainer \<Rightarrow> goerror option \<times> FakeContainer" where
  "FakeContainer_Cancel now i p =
     (case fc_runs p i of
        None \<Rightarrow> (Some (Internal (unknown_execution i)), p)
      | Some status \<Rightarrow>
          if Status_Terminal status then (None, p)
          else case Status_To StateCancelled now status of
              Inl err \<Rightarrow> (Some (Internal (transition_error err)), p)
            | Inr status \<Rightarrow> (None, p\<lparr>fc_runs := (fc_runs p)(i \<mapsto> status)\<rparr>))"

definition FakeContainer_Result :: "ID \<Rightarrow> FakeContainer \<Rightarrow> goerror + Result" where
  "FakeContainer_Result i p =
     (case fc_runs p i of
        None \<Rightarrow> Inl (Internal (unknown_execution i))
      | Some status \<Rightarrow> Inr \<lparr>res_ID = i, res_ExitCode = Some (fc_ExitCode p), res_Duration = Second, res_Billed = None,
          res_Logs = ''fake execution output'' @ [CHR 0x0A], res_LogsTruncated = False\<rparr>)"

definition FakeContainer_Advance :: "Time \<Rightarrow> ID \<Rightarrow> State \<Rightarrow> FakeContainer \<Rightarrow> goerror option \<times> FakeContainer" where
  "FakeContainer_Advance now i next_state p =
     (case fc_runs p i of
        None \<Rightarrow> (Some (unknown_execution i), p)
      | Some status \<Rightarrow>
          (case Status_To next_state now status of
             Inl err \<Rightarrow> (Some (transition_error err), p)
           | Inr status \<Rightarrow> (None, p\<lparr>fc_runs := (fc_runs p)(i \<mapsto> status)\<rparr>)))"

section \<open>Work that finishes in its submission\<close>

record FakeSync =
  fs_ProviderName :: string
  fs_Caps :: Capabilities
  fs_ExitCode :: "int option"
  fs_SubmitErr :: "goerror option"

definition NewFakeFunctionProvider :: "string \<Rightarrow> Time \<Rightarrow> FakeSync" where
  "NewFakeFunctionProvider name now =
     \<lparr>fs_ProviderName = name, fs_Caps = FixtureFunction now, fs_ExitCode = Some 0, fs_SubmitErr = None\<rparr>"

definition NewFakeWorkerProvider :: "string \<Rightarrow> Time \<Rightarrow> FakeSync" where
  "NewFakeWorkerProvider name now =
     \<lparr>fs_ProviderName = name, fs_Caps = FixtureWorker now, fs_ExitCode = None, fs_SubmitErr = None\<rparr>"

definition FakeSync_Submit :: "Fmt \<Rightarrow> ID \<Rightarrow> FakeSync \<Rightarrow> goerror + Submission" where
  "FakeSync_Submit f i p =
     (case fs_SubmitErr p of
        Some err \<Rightarrow> Inl err
      | None \<Rightarrow> Inr
          \<lparr>sub_ProviderID = fake_name f i,
           sub_State = (if fs_ExitCode p \<noteq> None \<and> fs_ExitCode p \<noteq> Some 0 then StateFailed else StateSucceeded),
           sub_Result = Some \<lparr>res_ID = i, res_ExitCode = fs_ExitCode p, res_Duration = Second, res_Billed = None,
             res_Logs = [], res_LogsTruncated = False\<rparr>\<rparr>)"

section \<open>Facts\<close>

lemma fake_submissions_valid:
  "FakeContainer_Submit f now i p = (Inr sub, p') \<Longrightarrow> Submission_Validate sub = None"
  "FakeSync_Submit f i s = Inr sub \<Longrightarrow> Submission_Validate sub = None"
  by (auto simp: FakeContainer_Submit_def FakeSync_Submit_def Submission_Validate_None submittable_iff terminal_iff vocab
      split: option.splits if_splits)

end
