(* ===== verification/Registry.thy ===== *)
theory Registry
  imports Config Lambda Fakes Pools Admission
begin

text \<open>
  \<^verbatim>\<open>internal/registry\<close>: every configured provider beside what was last observed about it.  The libraries the
  providers are built on, the clock and the host are the parameters of \<open>Backends\<close>; a pool's nodes are
  those connected when it is asked.  Asking providers concurrently is modelled in the order of the
  entries: all they share is the clock, and every answer is applied at once.
\<close>

definition PoolType :: string where [vocab]: "PoolType = ''pool''"
definition TypeFakeContainer :: string where [vocab]: "TypeFakeContainer = ''fake-container''"
definition TypeFakeFunction :: string where [vocab]: "TypeFakeFunction = ''fake-function''"
definition TypeFakeWorker :: string where [vocab]: "TypeFakeWorker = ''fake-worker''"

definition providerTypes :: "string list" where
  "providerTypes = [CloudRunType, LambdaType, PoolType, TypeFakeContainer, TypeFakeFunction, TypeFakeWorker]"

datatype ('k, 'c) PluginProvider =
    CloudRunProvider "'k GcpProvider"
  | AwsLambdaProvider "'c AwsProvider"
  | NodePool PoolProvider
  | FakeContainerProvider FakeContainer
  | FakeSyncProvider FakeSync

record ('k, 'c, 'w) Backends =
  bk_Hcl :: Hcl
  bk_Google :: "('k, 'w) Google"
  bk_Lambda :: "('c, 'w) LambdaSDK"
  bk_Host :: "'w \<Rightarrow> Host"
  bk_now :: "('w, Time) state"
  bk_Fmt :: Fmt

record ('k, 'c) entry =
  en_name :: string
  en_provider :: "('k, 'c) PluginProvider"
  en_tags :: "(string \<times> string) list"
  en_limits :: Limits
  en_tier :: int
  en_enabled :: bool
  en_healthy :: bool
  en_capabilities :: Capabilities
  en_credentials :: "CredentialsBlock option"
  en_recredentialed :: Time

record ('k, 'c) Registry =
  rg_entries :: "('k, 'c) entry list"
  rg_namespaces :: "(string \<times> (string \<times> Limits) list) list"

definition no_capabilities :: Capabilities where
  "no_capabilities =
     Capabilities [] [] \<lparr>rl_CPU = None, rl_Memory = None\<rparr> 0 \<lparr>r_CPU = 0, r_Memory = 0\<rparr> False False False 0 0 []"

section \<open>Building\<close>

record Settings =
  set_Name :: string
  set_Config :: "HclBody option"
  set_Credentials :: string
  set_Nodes :: bool

definition Build ::
  "('k, 'c, 'w) Backends \<Rightarrow> string \<Rightarrow> Settings \<Rightarrow> ('w, ('k, 'c) PluginProvider option \<times> Diagnostic list) state" where
  "Build b providerType settings =
     (if providerType = CloudRunType then
        (case Gcp_New (bk_Google b) (set_Name settings) (set_Config settings) (set_Credentials settings) of
           (p, diags) \<Rightarrow> State_Monad.return (if HasErrors diags then (None, diags) else (map_option CloudRunProvider p, diags)))
      else if providerType = LambdaType then
        (case Aws_New (bk_Lambda b) (set_Name settings) (set_Config settings) (set_Credentials settings) of
           (p, diags) \<Rightarrow> State_Monad.return (if HasErrors diags then (None, diags) else (map_option AwsLambdaProvider p, diags)))
      else if providerType = PoolType then
        (if \<not> set_Nodes settings
         then State_Monad.return (None, [simple (''Pool without a server'', [])
           (''Provider %q is a pool, which only vagabond server can run.'', [set_Name settings])])
         else do { t \<leftarrow> bk_now b; State_Monad.return (Some (NodePool (NewPool (set_Name settings) t)), []) })
      else if providerType = TypeFakeContainer then
        do { t \<leftarrow> bk_now b; State_Monad.return (Some (FakeContainerProvider (NewFakeContainerProvider (set_Name settings) t)), []) }
      else if providerType = TypeFakeFunction then
        do { t \<leftarrow> bk_now b; State_Monad.return (Some (FakeSyncProvider (NewFakeFunctionProvider (set_Name settings) t)), []) }
      else if providerType = TypeFakeWorker then
        do { t \<leftarrow> bk_now b; State_Monad.return (Some (FakeSyncProvider (NewFakeWorkerProvider (set_Name settings) t)), []) }
      else State_Monad.return (None, [simple (''Unknown provider type'', [])
        (''Provider %q is of type %q, which nothing implements. Known types are %s.'',
         [set_Name settings, providerType, comma providerTypes])]))"

fun compileShares_loop ::
  "Fmt \<Rightarrow> string \<Rightarrow> NamespaceQuota list \<Rightarrow> (string \<times> Limits) list \<Rightarrow> Diagnostic list
    \<Rightarrow> (string \<times> Limits) list \<times> Diagnostic list" where
  "compileShares_loop f name [] shares diags = (shares, diags)"
| "compileShares_loop f name (q # qs) shares diags =
     (case NewLimits (NamespaceQuota_PoolSpecs q) of
        Inl err \<Rightarrow> compileShares_loop f name qs shares (diags @
          [simple (''Invalid quota pools'', [])
             (''Namespace %q quota for provider %q: %s.'', [name, nq_Provider q, quota_text f err])])
      | Inr limits \<Rightarrow> compileShares_loop f name qs (AList.update (nq_Provider q) limits shares) diags)"

fun compileNamespaces_loop ::
  "Fmt \<Rightarrow> ConfigNamespace list \<Rightarrow> (string \<times> (string \<times> Limits) list) list \<Rightarrow> Diagnostic list
    \<Rightarrow> (string \<times> (string \<times> Limits) list) list \<times> Diagnostic list" where
  "compileNamespaces_loop f [] compiled diags = (compiled, diags)"
| "compileNamespaces_loop f (ns # nss) compiled diags =
     (case compileShares_loop f (ns_Name ns) (ns_Quotas ns) [] diags of
        (shares, diags) \<Rightarrow> compileNamespaces_loop f nss (AList.update (ns_Name ns) shares compiled) diags)"

definition compileNamespaces ::
  "Fmt \<Rightarrow> ConfigNamespace list \<Rightarrow> (string \<times> (string \<times> Limits) list) list \<times> Diagnostic list" where
  "compileNamespaces f nss = compileNamespaces_loop f nss [] []"

definition resolve_credential :: "('k, 'c, 'w) Backends \<Rightarrow> CredentialsBlock option \<Rightarrow> ('w, goerror + string) state" where
  "resolve_credential b c =
     State (\<lambda>w. (map_sum id (\<lambda>secret. case secret of None \<Rightarrow> [] | Some s \<Rightarrow> s) (Resolve (bk_Host b w) c), w))"

definition newEntry ::
  "('k, 'c, 'w) Backends \<Rightarrow> bool \<Rightarrow> ConfigProvider \<Rightarrow> ('w, ('k, 'c) entry option \<times> Diagnostic list) state" where
  "newEntry b nodes cfg =
     (case Tags (bk_Hcl b) cfg of
        (tags, diags) \<Rightarrow>
          if HasErrors diags then State_Monad.return (None, diags)
          else do {
            credential \<leftarrow> resolve_credential b (cp_Credentials cfg);
            (case credential of
               Inl err \<Rightarrow> State_Monad.return (None, diags @ [simple (''Cannot resolve credentials'', [])
                 (''Provider %q: %s.'', [cp_Name cfg, err_text (bk_Fmt b) err])])
             | Inr secret \<Rightarrow>
                 (case NewLimits (Provider_PoolSpecs cfg) of
                    Inl err \<Rightarrow> State_Monad.return (None, diags @ [simple (''Invalid quota pools'', [])
                      (''Provider %q: %s.'', [cp_Name cfg, quota_text (bk_Fmt b) err])])
                  | Inr limits \<Rightarrow> do {
                      built \<leftarrow> Build b (cp_Type cfg) \<lparr>set_Name = cp_Name cfg, set_Config = ConfigBody cfg,
                        set_Credentials = secret, set_Nodes = nodes\<rparr>;
                      State_Monad.return (case built of
                        (None, bd) \<Rightarrow> (None, diags @ bd)
                      | (Some provider, bd) \<Rightarrow>
                          (Some \<lparr>en_name = cp_Name cfg, en_provider = provider, en_tags = tags, en_limits = limits,
                             en_tier = TierOf cfg, en_enabled = IsEnabled cfg, en_healthy = True,
                             en_capabilities = no_capabilities, en_credentials = cp_Credentials cfg,
                             en_recredentialed = 0\<rparr>, diags @ bd))
                    }))
          })"

fun New_loop ::
  "('k, 'c, 'w) Backends \<Rightarrow> bool \<Rightarrow> ConfigProvider list \<Rightarrow> ('k, 'c) entry list \<Rightarrow> Diagnostic list
    \<Rightarrow> ('w, ('k, 'c) entry list \<times> Diagnostic list) state" where
  "New_loop b nodes [] entries diags = State_Monad.return (entries, diags)"
| "New_loop b nodes (cfg # cfgs) entries diags =
     do {
       made \<leftarrow> newEntry b nodes cfg;
       (case made of
          (None, ed) \<Rightarrow> New_loop b nodes cfgs entries (diags @ ed)
        | (Some e, ed) \<Rightarrow> New_loop b nodes cfgs (entries @ [e]) (diags @ ed))
     }"

definition by_name :: "('k, 'c) entry \<Rightarrow> ('k, 'c) entry \<Rightarrow> int" where
  "by_name x y = strCompare (en_name x) (en_name y)"

text \<open>\<open>nodes\<close> says whether the server's connections were given.\<close>

definition Registry_New ::
  "('k, 'c, 'w) Backends \<Rightarrow> bool \<Rightarrow> ConfigFile option \<Rightarrow> ('w, ('k, 'c) Registry \<times> Diagnostic list) state" where
  "Registry_New b nodes cfg =
     (case cfg of
        None \<Rightarrow> State_Monad.return (\<lparr>rg_entries = [], rg_namespaces = []\<rparr>, [])
      | Some f \<Rightarrow>
          (case compileNamespaces (bk_Fmt b) (cf_Namespaces f) of
             (namespaces, diags) \<Rightarrow> do {
               made \<leftarrow> New_loop b nodes (cf_Providers f) [] diags;
               (case made of
                  (entries, diags) \<Rightarrow> State_Monad.return
                    (\<lparr>rg_entries = sort_cmp by_name entries, rg_namespaces = namespaces\<rparr>, diags))
             }))"

section \<open>Refreshing\<close>

definition isLive :: "('k, 'c) entry \<Rightarrow> bool" where
  "isLive e = (case en_provider e of NodePool p \<Rightarrow> True | _ \<Rightarrow> False)"

definition provider_capabilities ::
  "('k, 'c, 'w) Backends \<Rightarrow> Conns \<Rightarrow> ('k, 'c) PluginProvider \<Rightarrow> ('w, goerror + Capabilities) state" where
  "provider_capabilities b conns p =
     (case p of
        CloudRunProvider g \<Rightarrow> do { caps \<leftarrow> Gcp_Capabilities (bk_Google b); State_Monad.return (Inr caps) }
      | AwsLambdaProvider a \<Rightarrow> do { caps \<leftarrow> Aws_Capabilities (bk_Lambda b); State_Monad.return (Inr caps) }
      | NodePool pl \<Rightarrow> do { t \<leftarrow> bk_now b; State_Monad.return (LiveCapabilities pl conns t) }
      | FakeContainerProvider f \<Rightarrow> State_Monad.return (Inr (fc_Caps f))
      | FakeSyncProvider f \<Rightarrow> State_Monad.return (Inr (fs_Caps f)))"

text \<open>Which entries a refresh leaves alone, what each of the others answers, and what becomes of it.\<close>

definition skipped :: "('k, 'c) entry \<Rightarrow> bool" where
  "skipped e \<longleftrightarrow> \<not> en_enabled e \<or> isLive e"






section \<open>Reading\<close>

definition entry_input ::
  "('k, 'c) Registry \<Rightarrow> string \<Rightarrow> (string \<Rightarrow> string \<Rightarrow> PoolUsage \<times> PoolUsage) option \<Rightarrow> ('k, 'c) entry
    \<Rightarrow> Capabilities \<times> bool \<Rightarrow> Input" where
  "entry_input r namespace usage e observed =
     \<lparr>in_Provider = en_name e, in_Capabilities = fst observed, in_Limits = en_limits e,
      in_Usage = (case usage of None \<Rightarrow> Map.empty | Some u \<Rightarrow> fst (u namespace (en_name e))),
      in_Namespace = namespace,
      in_Share = (case map_of (rg_namespaces r) namespace of None \<Rightarrow> no_limits | Some shares \<Rightarrow> limits_of shares (en_name e)),
      in_ShareUsage = (case usage of None \<Rightarrow> Map.empty | Some u \<Rightarrow> snd (u namespace (en_name e))),
      in_Tags = en_tags e, in_Labels = [], in_Tier = en_tier e, in_Enabled = en_enabled e, in_Healthy = snd observed\<rparr>"

definition observed :: "('k, 'c, 'w) Backends \<Rightarrow> Conns \<Rightarrow> ('k, 'c) entry \<Rightarrow> ('w, Capabilities \<times> bool) state" where
  "observed b conns e =
     (case en_provider e of
        NodePool p \<Rightarrow>
          if en_enabled e
          then do {
            t \<leftarrow> bk_now b;
            State_Monad.return (case LiveCapabilities p conns t of
              Inl err \<Rightarrow> (no_capabilities, False) | Inr caps \<Rightarrow> (caps, True))
          }
          else State_Monad.return (en_capabilities e, en_healthy e)
      | _ \<Rightarrow> State_Monad.return (en_capabilities e, en_healthy e))"

fun Inputs_loop ::
  "('k, 'c, 'w) Backends \<Rightarrow> Conns \<Rightarrow> ('k, 'c) Registry \<Rightarrow> string
    \<Rightarrow> (string \<Rightarrow> string \<Rightarrow> PoolUsage \<times> PoolUsage) option \<Rightarrow> ('k, 'c) entry list \<Rightarrow> ('w, Input list) state" where
  "Inputs_loop b conns r namespace usage [] = State_Monad.return []"
| "Inputs_loop b conns r namespace usage (e # es) =
     do {
       seen \<leftarrow> observed b conns e;
       inputs \<leftarrow> Inputs_loop b conns r namespace usage es;
       State_Monad.return (entry_input r namespace usage e seen # inputs)
     }"

definition Inputs ::
  "('k, 'c, 'w) Backends \<Rightarrow> Conns \<Rightarrow> ('k, 'c) Registry \<Rightarrow> string
    \<Rightarrow> (string \<Rightarrow> string \<Rightarrow> PoolUsage \<times> PoolUsage) option \<Rightarrow> ('w, Input list) state" where
  "Inputs b conns r namespace usage = Inputs_loop b conns r namespace usage (rg_entries r)"

definition HasNamespace :: "('k, 'c) Registry \<Rightarrow> string \<Rightarrow> bool" where
  "HasNamespace r namespace \<longleftrightarrow> namespace = DefaultNamespace \<or> map_of (rg_namespaces r) namespace \<noteq> None"

fun totals_loop :: "('k, 'c) entry list \<Rightarrow> (string \<times> Limits) list \<Rightarrow> (string \<times> Limits) list" where
  "totals_loop [] totals = totals"
| "totals_loop (e # es) totals = totals_loop es (AList.update (en_name e) (en_limits e) totals)"

definition Registry_Budgets :: "('k, 'c) Registry \<Rightarrow> Budgets" where
  "Registry_Budgets r = \<lparr>Totals = totals_loop (rg_entries r) [], Namespaces = rg_namespaces r\<rparr>"

definition Registry_Provider :: "('k, 'c) Registry \<Rightarrow> string \<Rightarrow> ('k, 'c) PluginProvider option" where
  "Registry_Provider r name = map_option en_provider (find_first (\<lambda>e. en_name e = name) (rg_entries r))"

definition Names :: "('k, 'c) Registry \<Rightarrow> string list" where
  "Names r = map en_name (rg_entries r)"

definition Len :: "('k, 'c) Registry \<Rightarrow> nat" where
  "Len r = length (rg_entries r)"

section \<open>Refreshing a credential\<close>

definition recredentialEvery :: Duration where "recredentialEvery = Minute"

definition isRecredentialer :: "('k, 'c) PluginProvider \<Rightarrow> bool" where
  "isRecredentialer p = (case p of CloudRunProvider g \<Rightarrow> True | AwsLambdaProvider a \<Rightarrow> True | _ \<Rightarrow> False)"

definition hand_over ::
  "('k, 'c, 'w) Backends \<Rightarrow> ('k, 'c) PluginProvider \<Rightarrow> string \<Rightarrow> goerror option \<times> ('k, 'c) PluginProvider" where
  "hand_over b p credential =
     (case p of
        CloudRunProvider g \<Rightarrow> map_prod id CloudRunProvider (Gcp_Recredential (bk_Google b) credential g)
      | AwsLambdaProvider a \<Rightarrow> map_prod id AwsLambdaProvider (Aws_Recredential (bk_Lambda b) credential a)
      | _ \<Rightarrow> (None, p))"

text \<open>The last entry of the name, by its place.\<close>

fun last_index :: "string \<Rightarrow> ('k, 'c) entry list \<Rightarrow> nat \<Rightarrow> nat option \<Rightarrow> nat option" where
  "last_index name [] n found = found"
| "last_index name (e # es) n found = last_index name es (Suc n) (if en_name e = name then Some n else found)"

definition Registry_Recredential ::
  "('k, 'c, 'w) Backends \<Rightarrow> string \<Rightarrow> ('k, 'c) Registry \<Rightarrow> ('w, (bool \<times> goerror option) \<times> ('k, 'c) Registry) state" where
  "Registry_Recredential b name r =
     (case last_index name (rg_entries r) 0 None of
        None \<Rightarrow> State_Monad.return ((False, None), r)
      | Some n \<Rightarrow>
          (let e = rg_entries r ! n in
           if en_credentials e = None \<or> \<not> isRecredentialer (en_provider e)
           then State_Monad.return ((False, None), r)
           else do {
             t \<leftarrow> bk_now b;
             if Time_Sub t (en_recredentialed e) < recredentialEvery
             then State_Monad.return ((True, None), r)
             else do {
               credential \<leftarrow> resolve_credential b (en_credentials e);
               (case credential of
                  Inl err \<Rightarrow> State_Monad.return ((False, Some (Formatted ''resolving the credential of %s again: %w''
                    [S name] [err])), r)
                | Inr secret \<Rightarrow>
                    (case hand_over b (en_provider e) secret of
                       (Some err, p) \<Rightarrow> State_Monad.return ((False, Some (Formatted ''handing %s its new credential: %w''
                         [S name] [err])), r\<lparr>rg_entries := (rg_entries r)[n := e\<lparr>en_provider := p\<rparr>]\<rparr>)
                     | (None, p) \<Rightarrow> do {
                         done_at \<leftarrow> bk_now b;
                         State_Monad.return ((True, None), r\<lparr>rg_entries := (rg_entries r)[n :=
                           e\<lparr>en_provider := p, en_recredentialed := done_at\<rparr>]\<rparr>)
                       }))
             }
           }))"

section \<open>Facts\<close>

lemma run_resolve: "run_state (resolve_credential b c) w =
   (map_sum id (\<lambda>secret. case secret of None \<Rightarrow> [] | Some s \<Rightarrow> s) (Resolve (bk_Host b w) c), w)"
  by (simp add: resolve_credential_def)

lemma simple_error [simp]: "HasErrors [simple s d]"
  by (simp add: simple_def)

text \<open>A provider that is not built is complained about, and one that is has the name and the budgets of its
  configuration.\<close>

lemma Gcp_New_None: "Gcp_New g name body c = (None, diags) \<Longrightarrow> HasErrors diags"
  by (auto simp: Gcp_New_def Gcp_decodeConfig_def split: option.splits prod.splits sum.splits if_splits)

lemma Aws_New_None: "Aws_New a name body c = (None, diags) \<Longrightarrow> HasErrors diags"
  by (auto simp: Aws_New_def Aws_decodeConfig_def split: option.splits prod.splits sum.splits if_splits)

lemma Build_None:
  "run_state (Build b t settings) w = ((None, diags), w') \<Longrightarrow> HasErrors diags"
  by (auto simp: Build_def dest: Gcp_New_None Aws_New_None split: prod.splits if_splits)

lemma newEntry_None:
  assumes "run_state (newEntry b nodes cfg) w = ((None, diags), w')"
  shows "HasErrors diags"
proof (rule ccontr)
  assume quiet: "\<not> HasErrors diags"
  obtain tags td where tags: "Tags (bk_Hcl b) cfg = (tags, td)" by fastforce
  show False
  proof (cases "HasErrors td")
    case True
    with assms tags quiet show False by (simp add: newEntry_def)
  next
    case False
    with assms tags quiet obtain secret limits where
      "map_sum id (\<lambda>secret. case secret of None \<Rightarrow> [] | Some s \<Rightarrow> s) (Resolve (bk_Host b w) (cp_Credentials cfg)) = Inr secret"
      "NewLimits (Provider_PoolSpecs cfg) = Inr limits"
      by (auto simp: newEntry_def run_resolve split: sum.splits)
    with assms tags quiet False show False
      by (auto simp: newEntry_def run_resolve dest: Build_None split: prod.splits option.splits)
  qed
qed

lemma newEntry_Some:
  assumes "run_state (newEntry b nodes cfg) w = ((Some e, diags), w')"
  shows "en_name e = cp_Name cfg \<and> NewLimits (Provider_PoolSpecs cfg) = Inr (en_limits e) \<and> en_enabled e = IsEnabled cfg \<and>
    en_tier e = TierOf cfg \<and> en_credentials e = cp_Credentials cfg \<and> en_healthy e"
  using assms
  by (auto simp: newEntry_def run_resolve split: prod.splits option.splits sum.splits if_splits)

definition entry_of :: "ConfigProvider \<Rightarrow> ('k, 'c) entry \<Rightarrow> bool" where
  "entry_of cfg e \<longleftrightarrow> en_name e = cp_Name cfg \<and> NewLimits (Provider_PoolSpecs cfg) = Inr (en_limits e) \<and>
     en_enabled e = IsEnabled cfg \<and> en_tier e = TierOf cfg \<and> en_credentials e = cp_Credentials cfg \<and> en_healthy e"

lemma New_loop_entries:
  "run_state (New_loop b nodes cfgs entries diags) w = ((out, dout), w') \<Longrightarrow>
   \<exists>es more. out = entries @ es \<and> dout = diags @ more \<and> (\<not> HasErrors more \<longrightarrow> list_all2 entry_of cfgs es)"
proof (induction cfgs arbitrary: entries diags w)
  case Nil
  then show ?case by simp
next
  case (Cons cfg cfgs)
  obtain made ed w1 where made: "run_state (newEntry b nodes cfg) w = ((made, ed), w1)"
    by (metis surj_pair)
  show ?case
  proof (cases made)
    case None
    with Cons.prems made have "run_state (New_loop b nodes cfgs entries (diags @ ed)) w1 = ((out, dout), w')" by simp
    from Cons.IH [OF this] newEntry_None [of b nodes cfg w ed w1] made None show ?thesis by fastforce
  next
    case (Some e)
    with Cons.prems made have "run_state (New_loop b nodes cfgs (entries @ [e]) (diags @ ed)) w1 = ((out, dout), w')" by simp
    from Cons.IH [OF this] obtain es more where "out = (entries @ [e]) @ es" "dout = (diags @ ed) @ more"
      "\<not> HasErrors more \<Longrightarrow> list_all2 entry_of cfgs es" by blast
    moreover have "entry_of cfg e" using newEntry_Some [of b nodes cfg w e ed w1] made Some by (simp add: entry_of_def)
    ultimately show ?thesis by (intro exI [of _ "e # es"] exI [of _ "ed @ more"]) auto
  qed
qed

lemma compileShares_loop_diags:
  "compileShares_loop f name qs shares diags = (out, dout) \<Longrightarrow> \<exists>more. dout = diags @ more"
  by (induction qs arbitrary: shares diags) (force split: sum.splits)+

lemma compileNamespaces_loop_diags:
  "compileNamespaces_loop f nss compiled diags = (out, dout) \<Longrightarrow> \<exists>more. dout = diags @ more"
proof (induction nss arbitrary: compiled diags)
  case (Cons ns nss)
  obtain shares sd where shares: "compileShares_loop f (ns_Name ns) (ns_Quotas ns) [] diags = (shares, sd)" by fastforce
  with Cons compileShares_loop_diags [OF shares] show ?case by fastforce
qed simp

lemma map_insert_cmp: "map f (insert_cmp (\<lambda>x y. c (f x) (f y)) x xs) = insert_cmp c (f x) (map f xs)"
  by (induction xs) auto

lemma map_sort_cmp: "map f (sort_cmp (\<lambda>x y. c (f x) (f y)) xs) = sort_cmp c (map f xs)"
  by (induction xs) (auto simp: map_insert_cmp)

lemma Names_sorted: "map en_name (sort_cmp by_name es) = sort_cmp strCompare (map en_name es)"
  unfolding map_sort_cmp [symmetric] by (simp add: by_name_def [abs_def])

lemma find_first_none: "name \<notin> en_name ` set es \<Longrightarrow> find_first (\<lambda>x. en_name x = name) es = None"
  by (induction es) auto

lemma totals_loop_get:
  "distinct (map en_name es) \<Longrightarrow>
   map_of (totals_loop es totals) k =
     (case find_first (\<lambda>e. en_name e = k) es of Some e \<Rightarrow> Some (en_limits e) | None \<Rightarrow> map_of totals k)"
proof (induction es arbitrary: totals)
  case (Cons e es)
  then show ?case
    by (cases "k = en_name e") (simp_all add: find_first_none update_conv cong: option.case_cong)
qed simp

lemma find_first_entry:
  "distinct (map en_name es) \<Longrightarrow> e \<in> set es \<Longrightarrow> find_first (\<lambda>x. en_name x = en_name e) es = Some e"
  by (induction es) auto

lemma Inputs_loop_entries:
  "run_state (Inputs_loop b conns r namespace usage es) w = (ins, w') \<Longrightarrow>
   list_all2 (\<lambda>e inp. \<exists>seen. inp = entry_input r namespace usage e seen) es ins"
  by (induction es arbitrary: w ins) (fastforce split: prod.splits)+




lemma skipped_update [simp]:
  "skipped (e\<lparr>en_healthy := h\<rparr>) \<longleftrightarrow> skipped e" "skipped (e\<lparr>en_capabilities := c, en_healthy := h\<rparr>) \<longleftrightarrow> skipped e"
  by (simp_all add: skipped_def isLive_def)




section \<open>Properties\<close>

text \<open>A configuration that builds without a complaint yields every provider it declares, in the order of
  their names, each with the budgets, tier and state of its block; none is dropped silently.\<close>

theorem registry_complete:
  assumes "run_state (Registry_New b nodes (Some f)) w = ((r, diags), w')" "\<not> HasErrors diags"
  shows "Names r = sort_cmp strCompare (map cp_Name (cf_Providers f)) \<and>
    (\<forall>e \<in> set (rg_entries r). \<exists>cfg \<in> set (cf_Providers f). entry_of cfg e)"
proof -
  obtain namespaces nd where ns: "compileNamespaces (bk_Fmt b) (cf_Namespaces f) = (namespaces, nd)" by fastforce
  with assms(1) obtain entries where loop: "run_state (New_loop b nodes (cf_Providers f) [] nd) w = ((entries, diags), w')"
    and r: "r = \<lparr>rg_entries = sort_cmp by_name entries, rg_namespaces = namespaces\<rparr>"
    by (auto simp: Registry_New_def split: prod.splits)
  from New_loop_entries [OF loop] assms(2) have all: "list_all2 entry_of (cf_Providers f) entries" by auto
  then have "map en_name entries = map cp_Name (cf_Providers f)"
    by (induction rule: list_all2_induct) (auto simp: entry_of_def)
  moreover have "\<forall>e \<in> set entries. \<exists>cfg \<in> set (cf_Providers f). entry_of cfg e"
    using all by (induction rule: list_all2_induct) auto
  ultimately show ?thesis by (simp add: Names_def r Names_sorted)
qed

text \<open>Two providers, configured in the other order.\<close>

definition registry_backends :: "(unit, unit, HttpRequest list) Backends" where
  "registry_backends =
     \<lparr>bk_Hcl = config_hcl, bk_Google = gcp_platform, bk_Lambda = lambda_sdk, bk_Host = (\<lambda>w. config_host),
      bk_now = State_Monad.return 9, bk_Fmt = gcp_fmt\<rparr>"

definition fake_configured :: "string \<Rightarrow> string \<Rightarrow> ConfigProvider" where
  "fake_configured name kind =
     \<lparr>cp_Name = name, cp_Type = kind, cp_Enabled = None, cp_Tier = None, cp_Config = None, cp_Credentials = None,
      cp_Meta = None, cp_Pools = []\<rparr>"

definition fakes_config :: ConfigFile where
  "fakes_config = no_file\<lparr>cf_Providers := [fake_configured ''edge'' TypeFakeWorker, fake_configured ''cloud'' TypeFakeContainer]\<rparr>"

definition fake_entry :: "string \<Rightarrow> ('k, 'c) PluginProvider \<Rightarrow> ('k, 'c) entry" where
  "fake_entry name p =
     \<lparr>en_name = name, en_provider = p, en_tags = [], en_limits = no_limits, en_tier = 0, en_enabled = True, en_healthy = True,
      en_capabilities = no_capabilities, en_credentials = None, en_recredentialed = 0\<rparr>"

definition fakes_registry :: "(unit, unit) Registry" where
  "fakes_registry =
     \<lparr>rg_entries = [fake_entry ''cloud'' (FakeContainerProvider (NewFakeContainerProvider ''cloud'' 9)),
        fake_entry ''edge'' (FakeSyncProvider (NewFakeWorkerProvider ''edge'' 9))], rg_namespaces = []\<rparr>"

lemma byte_order: "byte (CHR ''c'') < byte (CHR ''e'')"
  by (simp add: byte_def)

lemma fakes_built:
  "run_state (Registry_New registry_backends False (Some fakes_config)) [] = ((fakes_registry, []), [])"
  using byte_order
  by (simp add: Registry_New_def compileNamespaces_def fakes_config_def no_file_def newEntry_def Tags_def fake_configured_def
      resolve_credential_def Resolve_def Provider_PoolSpecs_def poolSpecs_def NewLimits_def Build_def registry_backends_def
      fakes_registry_def fake_entry_def TierOf_def IsEnabled_def ConfigBody_def by_name_def vocab)

theorem registry_complete_witness:
  "Names fakes_registry = sort_cmp strCompare (map cp_Name (cf_Providers fakes_config)) \<and>
   (\<exists>cfg \<in> set (cf_Providers fakes_config). entry_of cfg (hd (rg_entries fakes_registry)))"
  using registry_complete [OF fakes_built HasErrors_Nil] by (simp add: fakes_registry_def)

text \<open>C28. Admission and the ledger judge a provider by the same budgets: what admission reads has one input per
  provider, with the limits the ledger charges it under, in total and as the namespace's share, with
  the usage the ledger reports, and the provider is one dispatch can submit to.\<close>

theorem inputs_match_budgets:
  assumes "run_state (Inputs b conns r namespace (Some usage)) w = (ins, w')" "distinct (Names r)"
  shows "map in_Provider ins = Names r \<and>
    (\<forall>inp \<in> set ins.
      in_Limits inp = Budgets_Total (Registry_Budgets r) (in_Provider inp) \<and>
      in_Share inp = Budgets_Share (Registry_Budgets r) namespace (in_Provider inp) \<and>
      (in_Usage inp, in_ShareUsage inp) = usage namespace (in_Provider inp) \<and>
      Registry_Provider r (in_Provider inp) \<noteq> None)"
proof -
  have all: "list_all2 (\<lambda>e inp. \<exists>seen. inp = entry_input r namespace (Some usage) e seen) (rg_entries r) ins"
    using assms(1) by (auto simp: Inputs_def dest: Inputs_loop_entries)
  then have names: "map in_Provider ins = Names r"
    unfolding Names_def by (induction rule: list_all2_induct) (auto simp: entry_input_def)
  have read: "\<exists>e \<in> set (rg_entries r). \<exists>seen. inp = entry_input r namespace (Some usage) e seen" if "inp \<in> set ins" for inp
    using all that by (induction rule: list_all2_induct) auto
  have judged: "Budgets_Total (Registry_Budgets r) (en_name e) = en_limits e" "Registry_Provider r (en_name e) \<noteq> None"
    if "e \<in> set (rg_entries r)" for e
    using that assms(2)
    by (simp_all add: Budgets_Total_def Registry_Budgets_def limits_of_def Registry_Provider_def Names_def totals_loop_get
        find_first_entry)
  show ?thesis
  proof (intro conjI names ballI)
    fix inp assume "inp \<in> set ins"
    then obtain e seen where e: "e \<in> set (rg_entries r)" and inp: "inp = entry_input r namespace (Some usage) e seen"
      using read by blast
    show "in_Limits inp = Budgets_Total (Registry_Budgets r) (in_Provider inp)"
      "in_Share inp = Budgets_Share (Registry_Budgets r) namespace (in_Provider inp)"
      "(in_Usage inp, in_ShareUsage inp) = usage namespace (in_Provider inp)"
      "Registry_Provider r (in_Provider inp) \<noteq> None"
      using judged [OF e] by (simp_all add: inp entry_input_def Budgets_Share_def Registry_Budgets_def)
  qed
qed


theorem inputs_match_budgets_witness:
  "\<exists>ins w. run_state (Inputs registry_backends NewConns fakes_registry [] (Some (\<lambda>n p. (Map.empty, Map.empty)))) [] = (ins, w) \<and>
     map in_Provider ins = [''cloud'', ''edge'']"
proof -
  obtain ins w where "run_state (Inputs registry_backends NewConns fakes_registry [] (Some (\<lambda>n p. (Map.empty, Map.empty)))) [] = (ins, w)"
    by fastforce
  with inputs_match_budgets [OF this] show ?thesis by (auto simp: Names_def fakes_registry_def fake_entry_def)
qed



end
