(* ===== verification/Sql.thy ===== *)
theory Sql
  imports Api
begin

text \<open>
  \<^verbatim>\<open>internal/state/postgres/sqlc\<close>: the rows of each table and the queries over them, one definition per
  query with what its SQL text says.  A table is the list of its rows in some order; an insertion adds
  rows at the end and an update keeps their places, which no query without \<^verbatim>\<open>ORDER BY\<close> relies on.  What is
  the database's own is the parameter \<open>Db\<close>: the errors it answers, what others do to the tables, the
  precision of a timestamp, the collation of text.  A \<^verbatim>\<open>pgconn.PgError\<close> is the sentinel named by its code.
\<close>

section \<open>Rows\<close>

record ExecutionRow =
  xr_ID :: string
  xr_Namespace :: string
  xr_Job :: string
  xr_JobVersion :: int
  xr_Task :: string
  xr_Provider :: string
  xr_Attempt :: int
  xr_PreviousID :: string
  xr_State :: string
  xr_ProviderID :: string
  xr_Failure :: string
  xr_CreatedAt :: Time
  xr_StartedAt :: "Time option"
  xr_EndedAt :: "Time option"
  xr_UpdatedAt :: Time
  xr_ExitCode :: "int option"
  xr_DurationMs :: "int option"
  xr_BilledCpu :: "int option"
  xr_BilledMemory :: "int option"
  xr_BilledMs :: "int option"
  xr_Logs :: string
  xr_LogsTruncated :: bool
  xr_DispatchID :: string
  xr_Cpu :: int
  xr_Memory :: int
  xr_ReleasedAt :: "Time option"

record DispatchRow =
  gr_DispatchID :: string
  gr_Namespace :: string
  gr_Job :: string
  gr_JobVersion :: int
  gr_State :: string
  gr_Error :: string
  gr_CreatedAt :: Time
  gr_EndedAt :: "Time option"
  gr_Tasks :: int
  gr_Owner :: string
  gr_LeaseUntil :: Time

record JobRow =
  jr_Namespace :: string
  jr_Name :: string
  jr_Version :: int
  jr_Stopped :: bool
  jr_UpdatedAt :: Time

record JobVersionRow =
  vr_Namespace :: string
  vr_Name :: string
  vr_Version :: int
  vr_Source :: string
  vr_Fingerprint :: string
  vr_CreatedAt :: Time

record QuotaReservation =
  qr_ExecutionID :: string
  qr_Provider :: string
  qr_Pool :: string
  qr_Period :: string
  qr_Amount :: int
  qr_Cpu :: int
  qr_Memory :: int
  qr_CreatedAt :: Time
  qr_Namespace :: string

record QuotaUsage =
  qu_Provider :: string
  qu_Pool :: string
  qu_Period :: string
  qu_Used :: int
  qu_UpdatedAt :: Time
  qu_Namespace :: string

record Tables =
  t_executions :: "ExecutionRow list"
  t_dispatches :: "DispatchRow list"
  t_jobs :: "JobRow list"
  t_versions :: "JobVersionRow list"
  t_reservations :: "QuotaReservation list"
  t_usage :: "QuotaUsage list"

section \<open>The database\<close>

text \<open>
  \<open>db_commit\<close> answers whether the transaction took effect besides its error: a connection that breaks
  during a commit leaves that open.  \<open>db_others\<close> is what other clients have done by the time a
  transaction takes its turn, \<open>db_locked\<close> the reservations they hold locked then.
\<close>

record 'w Db =
  db_begin :: "'w \<Rightarrow> goerror option \<times> 'w"
  db_statement :: "'w \<Rightarrow> goerror option \<times> 'w"
  db_commit :: "'w \<Rightarrow> (goerror option \<times> bool) \<times> 'w"
  db_read :: "'w \<Rightarrow> goerror option"
  db_others :: "'w \<Rightarrow> Tables \<Rightarrow> Tables"
  db_locked :: "'w \<Rightarrow> QuotaReservation \<Rightarrow> bool"
  db_clock :: "'w \<Rightarrow> Time"
  db_wait :: "Duration \<Rightarrow> 'w \<Rightarrow> goerror option \<times> 'w"
  db_rand :: "Duration \<Rightarrow> 'w \<Rightarrow> Duration \<times> 'w"
  db_unanswered :: "string \<Rightarrow> bool"
  db_time :: "Time \<Rightarrow> Time"
  db_collate :: "string \<Rightarrow> string \<Rightarrow> int"

definition ErrNoRows :: string where [vocab]: "ErrNoRows = ''no rows in result set''"

definition PgError :: "string \<Rightarrow> goerror" where
  "PgError code = Sentinel (''SQLSTATE '' @ code)"

definition unique_violation :: string where [vocab]: "unique_violation = ''23505''"
definition out_of_range :: string where [vocab]: "out_of_range = ''22003''"
definition cardinality_violation :: string where [vocab]: "cardinality_violation = ''21000''"
definition invalid_row_count :: string where [vocab]: "invalid_row_count = ''2201W''"

text \<open>A statement: an error, or what it answers and leaves.  A failed one changes nothing.\<close>

type_synonym ('w, 'a) Statement = "'w \<Rightarrow> Tables \<Rightarrow> goerror + 'a \<times> Tables"

definition updated :: "('r \<Rightarrow> bool) \<Rightarrow> ('r \<Rightarrow> 'r) \<Rightarrow> 'r list \<Rightarrow> 'r list" where
  "updated P f rows = map (\<lambda>r. if P r then f r else r) rows"

definition one_row :: "('r \<Rightarrow> bool) \<Rightarrow> 'r list \<Rightarrow> goerror + 'r" where
  "one_row P rows = (case find_first P rows of None \<Rightarrow> Inl (Sentinel ErrNoRows) | Some r \<Rightarrow> Inr r)"

section \<open>Executions\<close>

definition stored_row :: "'w Db \<Rightarrow> ExecutionRow \<Rightarrow> ExecutionRow" where
  "stored_row db r = r\<lparr>xr_CreatedAt := db_time db (xr_CreatedAt r),
     xr_StartedAt := map_option (db_time db) (xr_StartedAt r), xr_EndedAt := map_option (db_time db) (xr_EndedAt r),
     xr_UpdatedAt := db_time db (xr_UpdatedAt r), xr_ReleasedAt := map_option (db_time db) (xr_ReleasedAt r)\<rparr>"

definition Queries_CreateExecution :: "'w Db \<Rightarrow> ExecutionRow \<Rightarrow> ('w, unit) Statement" where
  "Queries_CreateExecution db arg w t =
     (if xr_ID arg \<in> xr_ID ` set (t_executions t) then Inl (PgError unique_violation)
      else Inr ((), t\<lparr>t_executions := t_executions t @ [stored_row db arg]\<rparr>))"

definition Queries_GetExecution :: "string \<Rightarrow> Tables \<Rightarrow> goerror + ExecutionRow" where
  "Queries_GetExecution i t = one_row (\<lambda>r. xr_ID r = i) (t_executions t)"

definition Queries_ListDispatchExecutions :: "string \<Rightarrow> Tables \<Rightarrow> ExecutionRow list" where
  "Queries_ListDispatchExecutions dispatch t =
     sort_cmp (\<lambda>a b. cmpCompare (xr_CreatedAt a) (xr_CreatedAt b))
       (filter (\<lambda>r. xr_DispatchID r = dispatch) (t_executions t))"

record ListJobExecutionsParams =
  lx_Namespace :: string
  lx_Job :: string
  lx_MaxRows :: int

text \<open>A negative \<^verbatim>\<open>LIMIT\<close> is refused.\<close>

definition Queries_ListJobExecutions :: "ListJobExecutionsParams \<Rightarrow> Tables \<Rightarrow> goerror + ExecutionRow list" where
  "Queries_ListJobExecutions arg t =
     (if lx_MaxRows arg < 0 then Inl (PgError invalid_row_count)
      else Inr (take (nat (lx_MaxRows arg)) (sort_cmp (\<lambda>a b. cmpCompare (xr_CreatedAt b) (xr_CreatedAt a))
        (filter (\<lambda>r. xr_Namespace r = lx_Namespace arg \<and> xr_Job r = lx_Job arg) (t_executions t)))))"

definition Queries_ListUnreleasedExecutions :: "'w Db \<Rightarrow> Time \<Rightarrow> Tables \<Rightarrow> ExecutionRow list" where
  "Queries_ListUnreleasedExecutions db before t =
     sort_cmp (\<lambda>a b. cmpCompare (xr_UpdatedAt a) (xr_UpdatedAt b))
       (filter (\<lambda>r. xr_ReleasedAt r = None \<and> xr_UpdatedAt r < db_time db before) (t_executions t))"

record MarkExecutionReleasedParams =
  mx_ReleasedAt :: "Time option"
  mx_ID :: string

definition Queries_MarkExecutionReleased :: "'w Db \<Rightarrow> MarkExecutionReleasedParams \<Rightarrow> ('w, unit) Statement" where
  "Queries_MarkExecutionReleased db arg w t =
     Inr ((), t\<lparr>t_executions := updated (\<lambda>r. xr_ID r = mx_ID arg)
       (\<lambda>r. r\<lparr>xr_ReleasedAt := map_option (db_time db) (mx_ReleasedAt arg)\<rparr>) (t_executions t)\<rparr>)"

record UpdateExecutionParams =
  ux_State :: string
  ux_ProviderID :: string
  ux_Failure :: string
  ux_StartedAt :: "Time option"
  ux_EndedAt :: "Time option"
  ux_UpdatedAt :: Time
  ux_ExitCode :: "int option"
  ux_DurationMs :: "int option"
  ux_BilledCpu :: "int option"
  ux_BilledMemory :: "int option"
  ux_BilledMs :: "int option"
  ux_Logs :: string
  ux_LogsTruncated :: bool
  ux_ID :: string
  ux_FromState :: string

definition set_execution :: "'w Db \<Rightarrow> UpdateExecutionParams \<Rightarrow> ExecutionRow \<Rightarrow> ExecutionRow" where
  "set_execution db arg r =
     r\<lparr>xr_State := ux_State arg, xr_ProviderID := ux_ProviderID arg, xr_Failure := ux_Failure arg,
       xr_StartedAt := map_option (db_time db) (ux_StartedAt arg), xr_EndedAt := map_option (db_time db) (ux_EndedAt arg),
       xr_UpdatedAt := db_time db (ux_UpdatedAt arg), xr_ExitCode := ux_ExitCode arg, xr_DurationMs := ux_DurationMs arg,
       xr_BilledCpu := ux_BilledCpu arg, xr_BilledMemory := ux_BilledMemory arg, xr_BilledMs := ux_BilledMs arg,
       xr_Logs := ux_Logs arg, xr_LogsTruncated := ux_LogsTruncated arg\<rparr>"

text \<open>An \<^verbatim>\<open>UPDATE\<close> answers how many rows it matched.\<close>

definition Queries_UpdateExecution :: "'w Db \<Rightarrow> UpdateExecutionParams \<Rightarrow> ('w, nat) Statement" where
  "Queries_UpdateExecution db arg w t =
     (let P = \<lambda>r. xr_ID r = ux_ID arg \<and> xr_State r = ux_FromState arg in
      Inr (length (filter P (t_executions t)), t\<lparr>t_executions := updated P (set_execution db arg) (t_executions t)\<rparr>))"

section \<open>Dispatches\<close>

record CreateDispatchParams =
  cd_DispatchID :: string
  cd_Namespace :: string
  cd_Job :: string
  cd_JobVersion :: int
  cd_State :: string
  cd_CreatedAt :: Time
  cd_Tasks :: int
  cd_Owner :: string
  cd_LeaseUntil :: Time

definition Queries_CreateDispatch :: "'w Db \<Rightarrow> CreateDispatchParams \<Rightarrow> ('w, unit) Statement" where
  "Queries_CreateDispatch db arg w t =
     (if cd_DispatchID arg \<in> gr_DispatchID ` set (t_dispatches t) then Inl (PgError unique_violation)
      else Inr ((), t\<lparr>t_dispatches := t_dispatches t @
        [\<lparr>gr_DispatchID = cd_DispatchID arg, gr_Namespace = cd_Namespace arg, gr_Job = cd_Job arg,
          gr_JobVersion = cd_JobVersion arg, gr_State = cd_State arg, gr_Error = [],
          gr_CreatedAt = db_time db (cd_CreatedAt arg), gr_EndedAt = None, gr_Tasks = cd_Tasks arg,
          gr_Owner = cd_Owner arg, gr_LeaseUntil = db_time db (cd_LeaseUntil arg)\<rparr>]\<rparr>))"

record FinishDispatchParams =
  fd_State :: string
  fd_Error :: string
  fd_EndedAt :: "Time option"
  fd_DispatchID :: string
  fd_Owner :: string

definition held_by :: "string \<Rightarrow> string \<Rightarrow> DispatchRow \<Rightarrow> bool" where
  "held_by i owner r \<longleftrightarrow> gr_DispatchID r = i \<and> gr_State r = ''running'' \<and> gr_Owner r = owner"

definition Queries_FinishDispatch :: "'w Db \<Rightarrow> FinishDispatchParams \<Rightarrow> ('w, nat) Statement" where
  "Queries_FinishDispatch db arg w t =
     (let P = held_by (fd_DispatchID arg) (fd_Owner arg) in
      Inr (length (filter P (t_dispatches t)), t\<lparr>t_dispatches := updated P
        (\<lambda>r. r\<lparr>gr_State := fd_State arg, gr_Error := fd_Error arg, gr_EndedAt := map_option (db_time db) (fd_EndedAt arg)\<rparr>)
        (t_dispatches t)\<rparr>))"

record RenewDispatchParams =
  rd_LeaseUntil :: Time
  rd_DispatchID :: string
  rd_Owner :: string

definition Queries_RenewDispatch :: "'w Db \<Rightarrow> RenewDispatchParams \<Rightarrow> ('w, nat) Statement" where
  "Queries_RenewDispatch db arg w t =
     (let P = held_by (rd_DispatchID arg) (rd_Owner arg) in
      Inr (length (filter P (t_dispatches t)), t\<lparr>t_dispatches := updated P
        (\<lambda>r. r\<lparr>gr_LeaseUntil := db_time db (rd_LeaseUntil arg)\<rparr>) (t_dispatches t)\<rparr>))"

record ClaimDispatchesParams =
  kd_Owner :: string
  kd_LeaseUntil :: Time
  kd_Now :: Time
  kd_Skip :: "string list"

definition lapsed :: "'w Db \<Rightarrow> ClaimDispatchesParams \<Rightarrow> DispatchRow \<Rightarrow> bool" where
  "lapsed db arg r \<longleftrightarrow> gr_State r = ''running'' \<and> gr_LeaseUntil r < db_time db (kd_Now arg) \<and>
     \<not> gr_DispatchID r \<in> set (kd_Skip arg)"

definition Queries_ClaimDispatches :: "'w Db \<Rightarrow> ClaimDispatchesParams \<Rightarrow> ('w, DispatchRow list) Statement" where
  "Queries_ClaimDispatches db arg w t =
     (let taken = \<lambda>r. r\<lparr>gr_Owner := kd_Owner arg, gr_LeaseUntil := db_time db (kd_LeaseUntil arg)\<rparr> in
      Inr (map taken (filter (lapsed db arg) (t_dispatches t)),
        t\<lparr>t_dispatches := updated (lapsed db arg) taken (t_dispatches t)\<rparr>))"

definition Queries_GetDispatch :: "string \<Rightarrow> Tables \<Rightarrow> goerror + DispatchRow" where
  "Queries_GetDispatch i t = one_row (\<lambda>r. gr_DispatchID r = i) (t_dispatches t)"

section \<open>Registered jobs\<close>

definition job_row :: "string \<Rightarrow> string \<Rightarrow> JobRow \<Rightarrow> bool" where
  "job_row ns name r \<longleftrightarrow> jr_Namespace r = ns \<and> jr_Name r = name"

definition version_row :: "string \<Rightarrow> string \<Rightarrow> int \<Rightarrow> JobVersionRow \<Rightarrow> bool" where
  "version_row ns name version r \<longleftrightarrow> vr_Namespace r = ns \<and> vr_Name r = name \<and> vr_Version r = version"

record CurrentJobVersionRow =
  cv_Version :: int
  cv_Stopped :: bool
  cv_Fingerprint :: string

definition Queries_CurrentJobVersion :: "string \<Rightarrow> string \<Rightarrow> ('w, CurrentJobVersionRow) Statement" where
  "Queries_CurrentJobVersion ns name w t =
     (case find_first (\<lambda>(j, v). job_row ns name j \<and> version_row (jr_Namespace j) (jr_Name j) (jr_Version j) v)
        (List.product (t_jobs t) (t_versions t)) of
        None \<Rightarrow> Inl (Sentinel ErrNoRows)
      | Some (j, v) \<Rightarrow> Inr (\<lparr>cv_Version = jr_Version j, cv_Stopped = jr_Stopped j, cv_Fingerprint = vr_Fingerprint v\<rparr>, t))"

definition Queries_GetJob :: "string \<Rightarrow> string \<Rightarrow> Tables \<Rightarrow> goerror + JobRow" where
  "Queries_GetJob ns name t = one_row (job_row ns name) (t_jobs t)"

definition Queries_GetJobVersion :: "string \<Rightarrow> string \<Rightarrow> int \<Rightarrow> Tables \<Rightarrow> goerror + JobVersionRow" where
  "Queries_GetJobVersion ns name version t = one_row (version_row ns name version) (t_versions t)"

definition Queries_InsertJobVersion :: "'w Db \<Rightarrow> JobVersionRow \<Rightarrow> ('w, unit) Statement" where
  "Queries_InsertJobVersion db arg w t =
     (if find_first (version_row (vr_Namespace arg) (vr_Name arg) (vr_Version arg)) (t_versions t) \<noteq> None
      then Inl (PgError unique_violation)
      else Inr ((), t\<lparr>t_versions := t_versions t @ [arg\<lparr>vr_CreatedAt := db_time db (vr_CreatedAt arg)\<rparr>]\<rparr>))"

definition Queries_ListJobVersions :: "string \<Rightarrow> string \<Rightarrow> Tables \<Rightarrow> JobVersionRow list" where
  "Queries_ListJobVersions ns name t =
     map (\<lambda>r. r\<lparr>vr_Source := []\<rparr>) (sort_cmp (\<lambda>a b. cmpCompare (vr_Version b) (vr_Version a))
       (filter (\<lambda>r. vr_Namespace r = ns \<and> vr_Name r = name) (t_versions t)))"

definition Queries_ListJobs :: "'w Db \<Rightarrow> string \<Rightarrow> Tables \<Rightarrow> JobRow list" where
  "Queries_ListJobs db ns t =
     sort_cmp (\<lambda>a b. db_collate db (jr_Name a) (jr_Name b)) (filter (\<lambda>r. jr_Namespace r = ns) (t_jobs t))"

record PointJobAtParams =
  pj_Namespace :: string
  pj_Name :: string
  pj_Version :: int
  pj_UpdatedAt :: Time

definition Queries_PointJobAt :: "'w Db \<Rightarrow> PointJobAtParams \<Rightarrow> ('w, unit) Statement" where
  "Queries_PointJobAt db arg w t =
     (let P = job_row (pj_Namespace arg) (pj_Name arg) in
      Inr ((), t\<lparr>t_jobs :=
        if find_first P (t_jobs t) \<noteq> None
        then updated P (\<lambda>r. r\<lparr>jr_Version := pj_Version arg, jr_Stopped := False,
          jr_UpdatedAt := db_time db (pj_UpdatedAt arg)\<rparr>) (t_jobs t)
        else t_jobs t @ [\<lparr>jr_Namespace = pj_Namespace arg, jr_Name = pj_Name arg, jr_Version = pj_Version arg,
          jr_Stopped = False, jr_UpdatedAt = db_time db (pj_UpdatedAt arg)\<rparr>]\<rparr>))"

record StopJobParams =
  sj_UpdatedAt :: Time
  sj_Namespace :: string
  sj_Name :: string

definition Queries_StopJob :: "'w Db \<Rightarrow> StopJobParams \<Rightarrow> ('w, nat) Statement" where
  "Queries_StopJob db arg w t =
     (let P = job_row (sj_Namespace arg) (sj_Name arg) in
      Inr (length (filter P (t_jobs t)), t\<lparr>t_jobs := updated P
        (\<lambda>r. r\<lparr>jr_Stopped := True, jr_UpdatedAt := db_time db (sj_UpdatedAt arg)\<rparr>) (t_jobs t)\<rparr>))"

section \<open>Quota\<close>

definition usage_key :: "QuotaUsage \<Rightarrow> Key" where
  "usage_key r = \<lparr>key_Namespace = qu_Namespace r, key_Provider = qu_Provider r, key_Pool = qu_Pool r,
     key_Period = qu_Period r\<rparr>"

definition reservation_key :: "QuotaReservation \<Rightarrow> Key" where
  "reservation_key r = \<lparr>key_Namespace = qr_Namespace r, key_Provider = qr_Provider r, key_Pool = qr_Pool r,
     key_Period = qr_Period r\<rparr>"

definition Queries_ClaimStaleReservations :: "'w Db \<Rightarrow> Time \<Rightarrow> ('w, QuotaReservation list) Statement" where
  "Queries_ClaimStaleReservations db before w t =
     Inr (sort_cmp (\<lambda>a b. let c = db_collate db (qr_ExecutionID a) (qr_ExecutionID b) in
          if c \<noteq> 0 then c
          else let c = db_collate db (qr_Namespace a) (qr_Namespace b) in
            if c \<noteq> 0 then c else db_collate db (qr_Pool a) (qr_Pool b))
        (filter (\<lambda>r. qr_CreatedAt r < db_time db before \<and> \<not> db_locked db w r) (t_reservations t)), t)"

definition Queries_ExecutionReserved :: "string \<Rightarrow> Tables \<Rightarrow> bool" where
  "Queries_ExecutionReserved i t \<longleftrightarrow> i \<in> qr_ExecutionID ` set (t_reservations t)"

definition charged_rows :: "string list \<Rightarrow> Tables \<Rightarrow> (Key \<times> int) list" where
  "charged_rows periods t =
     map (\<lambda>u. (usage_key u, qu_Used u)) (filter (\<lambda>u. qu_Period u \<in> set periods) (t_usage t)) @
     map (\<lambda>r. (reservation_key r, qr_Amount r)) (filter (\<lambda>r. qr_Period r \<in> set periods) (t_reservations t))"

definition summed :: "(Key \<times> int) list \<Rightarrow> (Key \<times> int) list" where
  "summed rows =
     map (\<lambda>k. (k, sum_list (map snd (filter (\<lambda>row. fst row = k) rows)))) (remdups (map fst rows))"

text \<open>The sum is a \<^verbatim>\<open>numeric\<close>; making a \<^verbatim>\<open>bigint\<close> of it fails when it does not fit.\<close>

definition Queries_ReadQuotaUsage :: "string list \<Rightarrow> ('w, (Key \<times> int) list) Statement" where
  "Queries_ReadQuotaUsage periods w t =
     (let rows = summed (charged_rows periods t) in
      if list_all (\<lambda>(k, used). int64 used) rows then Inr (rows, t) else Inl (PgError out_of_range))"

record ReserveQuotaParams =
  pq_ExecutionID :: string
  pq_Provider :: string
  pq_Cpu :: int
  pq_Memory :: int
  pq_CreatedAt :: Time
  pq_Namespaces :: "string list"
  pq_Pools :: "string list"
  pq_Periods :: "string list"
  pq_Amounts :: "int list"
  pq_Limits :: "int list"

text \<open>What the \<^verbatim>\<open>wanted\<close> rows of the statement charge; their arrays have one length.\<close>

definition wanted :: "ReserveQuotaParams \<Rightarrow> Charge list" where
  "wanted arg =
     map (\<lambda>(ns, pool, period, amount, limit).
        \<lparr>ch_Namespace = ns, ch_Pool = pool, ch_Period = period, ch_Amount = amount, ch_Limit = limit\<rparr>)
       (zip (pq_Namespaces arg) (zip (pq_Pools arg) (zip (pq_Periods arg) (zip (pq_Amounts arg) (pq_Limits arg)))))"

definition charged :: "Tables \<Rightarrow> Key \<Rightarrow> int" where
  "charged t k =
     (case find_first (\<lambda>u. usage_key u = k) (t_usage t) of None \<Rightarrow> 0 | Some u \<Rightarrow> qu_Used u) +
     sum_list (map qr_Amount (filter (\<lambda>r. reservation_key r = k) (t_reservations t)))"

definition without_room :: "Tables \<Rightarrow> string \<Rightarrow> Charge \<Rightarrow> bool" where
  "without_room t provider c \<longleftrightarrow>
     0 < ch_Amount c \<and> ch_Limit c < charged t (chargeKey provider c) + ch_Amount c"

definition reservation_row :: "'w Db \<Rightarrow> ReserveQuotaParams \<Rightarrow> Charge \<Rightarrow> QuotaReservation" where
  "reservation_row db arg c =
     \<lparr>qr_ExecutionID = pq_ExecutionID arg, qr_Provider = pq_Provider arg, qr_Pool = ch_Pool c, qr_Period = ch_Period c,
      qr_Amount = ch_Amount c, qr_Cpu = pq_Cpu arg, qr_Memory = pq_Memory arg,
      qr_CreatedAt = db_time db (pq_CreatedAt arg), qr_Namespace = ch_Namespace c\<rparr>"

definition reservation_pk :: "QuotaReservation \<Rightarrow> string \<times> string \<times> string" where
  "reservation_pk r = (qr_ExecutionID r, qr_Namespace r, qr_Pool r)"

definition Queries_ReserveQuota :: "'w Db \<Rightarrow> ReserveQuotaParams \<Rightarrow> ('w, nat) Statement" where
  "Queries_ReserveQuota db arg w t =
     (let standing = wanted arg;
          rows = (if \<exists>x \<in> set standing. without_room t (pq_Provider arg) x then []
                  else map (reservation_row db arg) standing)
      in if \<not> distinct (map reservation_pk rows) \<or> reservation_pk ` set rows \<inter> reservation_pk ` set (t_reservations t) \<noteq> {}
         then Inl (PgError unique_violation)
         else Inr (length rows, t\<lparr>t_reservations := t_reservations t @ rows\<rparr>))"

record SettleQuotaParams =
  sq_ExecutionID :: string
  sq_Namespaces :: "string list"
  sq_Pools :: "string list"
  sq_Amounts :: "int list"

definition actual_rows :: "SettleQuotaParams \<Rightarrow> (PoolRef \<times> int) list" where
  "actual_rows arg =
     map (\<lambda>(ns, pool, amount). (\<lparr>ref_Namespace = ns, ref_Pool = pool\<rparr>, amount))
       (zip (sq_Namespaces arg) (zip (sq_Pools arg) (sq_Amounts arg)))"

definition row_ref :: "QuotaReservation \<Rightarrow> PoolRef" where
  "row_ref r = \<lparr>ref_Namespace = qr_Namespace r, ref_Pool = qr_Pool r\<rparr>"

definition settled_rows :: "SettleQuotaParams \<Rightarrow> Tables \<Rightarrow> (Key \<times> int) list" where
  "settled_rows arg t =
     [(reservation_key r, amount).
        r \<leftarrow> filter (\<lambda>r. qr_ExecutionID r = sq_ExecutionID arg) (t_reservations t),
        (ref, amount) \<leftarrow> actual_rows arg,
        ref = row_ref r \<and> amount \<noteq> 0]"

definition charge_usage :: "Time \<Rightarrow> Key \<times> int \<Rightarrow> QuotaUsage list \<Rightarrow> QuotaUsage list" where
  "charge_usage clock row rows =
     (case row of (k, amount) \<Rightarrow>
        if find_first (\<lambda>u. usage_key u = k) rows \<noteq> None
        then updated (\<lambda>u. usage_key u = k) (\<lambda>u. u\<lparr>qu_Used := qu_Used u + amount, qu_UpdatedAt := clock\<rparr>) rows
        else rows @ [\<lparr>qu_Provider = key_Provider k, qu_Pool = key_Pool k, qu_Period = key_Period k, qu_Used = amount,
          qu_UpdatedAt = clock, qu_Namespace = key_Namespace k\<rparr>])"

text \<open>Charging one row twice in a statement is refused, and so is a counter past \<^verbatim>\<open>bigint\<close>.\<close>

definition Queries_SettleQuota :: "'w Db \<Rightarrow> SettleQuotaParams \<Rightarrow> ('w, unit) Statement" where
  "Queries_SettleQuota db arg w t =
     (let rows = settled_rows arg t;
          usage = fold (charge_usage (db_clock db w)) rows (t_usage t)
      in if \<not> distinct (map fst rows) then Inl (PgError cardinality_violation)
         else if list_ex (\<lambda>u. \<not> int64 (qu_Used u)) usage then Inl (PgError out_of_range)
         else Inr ((), t\<lparr>t_reservations := filter (\<lambda>r. qr_ExecutionID r \<noteq> sq_ExecutionID arg) (t_reservations t),
           t_usage := usage\<rparr>))"

end
