(* ===== verification/Postgres.thy ===== *)
theory Postgres
  imports Sql Server
begin

text \<open>
  \<^verbatim>\<open>internal/state/postgres\<close>: the stores of quota, executions, dispatches and jobs on a database.  Every
  write is a serializable transaction, retried whole while the database answers that it could not be
  serialized; a transaction that does not commit leaves the tables as others left them.  The variables a
  Go closure assigns live outside the transaction, in \<open>tx_vars\<close>, so a retry starts from what the attempt
  before it left there.
\<close>

section \<open>Errors\<close>

text \<open>\<^verbatim>\<open>errors.As\<close> for a \<^verbatim>\<open>pgconn.PgError\<close>: the code of the first one of a depth-first walk.\<close>

definition sentinel_code :: "string \<Rightarrow> string option" where
  "sentinel_code s = (if take 9 s = ''SQLSTATE '' then Some (drop 9 s) else None)"

fun pg_code :: "goerror \<Rightarrow> string option"
  and first_code :: "goerror list \<Rightarrow> string option" where
  "pg_code (Sentinel s) = sentinel_code s"
| "pg_code (Formatted f args es) = first_code es"
| "pg_code (Joined es) = first_code es"
| "pg_code (Classified c r ra p op e) = (case e of None \<Rightarrow> None | Some e \<Rightarrow> pg_code e)"
| "pg_code (RefusalError r) = None"
| "first_code [] = None"
| "first_code (e # es) = (case pg_code e of Some c \<Rightarrow> Some c | None \<Rightarrow> first_code es)"

definition serializationFailure :: string where [vocab]: "serializationFailure = ''40001''"

definition isSerializationFailure :: "goerror option \<Rightarrow> bool" where
  "isSerializationFailure err = (case err of None \<Rightarrow> False | Some e \<Rightarrow> pg_code e = Some serializationFailure)"

text \<open>\<^verbatim>\<open>unavailable\<close> looks for the errors of a database that does not answer, those of \<open>db_unanswered\<close>.\<close>

fun unanswered :: "(string \<Rightarrow> bool) \<Rightarrow> goerror \<Rightarrow> bool" where
  "unanswered P (Sentinel s) = P s"
| "unanswered P (Formatted f args es) = (\<exists>e \<in> set es. unanswered P e)"
| "unanswered P (Joined es) = (\<exists>e \<in> set es. unanswered P e)"
| "unanswered P (Classified c r ra p op e) = (case e of None \<Rightarrow> False | Some e \<Rightarrow> unanswered P e)"
| "unanswered P (RefusalError r) = False"

definition unavailable :: "'w Db \<Rightarrow> goerror option \<Rightarrow> goerror option" where
  "unavailable db err =
     (case err of
        None \<Rightarrow> None
      | Some e \<Rightarrow>
          if unanswered (db_unanswered db) e then Some (Formatted ''%w: %w'' [] [Sentinel ErrUnavailable, e]) else err)"

section \<open>Transactions\<close>

record ('w, 'v) Tx =
  tx_tables :: Tables
  tx_env :: 'w
  tx_vars :: 'v

type_synonym ('w, 'v, 'a) Q = "(('w, 'v) Tx, 'a) state"

definition asking :: "('w \<Rightarrow> 'a \<times> 'w) \<Rightarrow> ('w, 'v, 'a) Q" where
  "asking f = State (\<lambda>s. case f (tx_env s) of (a, w) \<Rightarrow> (a, s\<lparr>tx_env := w\<rparr>))"

definition assign :: "('v \<Rightarrow> 'v) \<Rightarrow> ('w, 'v, unit) Q" where
  "assign f = State (\<lambda>s. ((), s\<lparr>tx_vars := f (tx_vars s)\<rparr>))"

definition run_statement :: "('w, 'a) Statement \<Rightarrow> ('w, 'v, goerror + 'a) Q" where
  "run_statement stmt =
     State (\<lambda>s. case stmt (tx_env s) (tx_tables s) of
        Inl err \<Rightarrow> (Inl err, s)
      | Inr (a, t) \<Rightarrow> (Inr a, s\<lparr>tx_tables := t\<rparr>))"

text \<open>A statement run in a transaction, which may fail for reasons of the database's own.\<close>

definition query :: "'w Db \<Rightarrow> ('w, 'a) Statement \<Rightarrow> ('w, 'v, goerror + 'a) Q" where
  "query db stmt =
     do {
       failed \<leftarrow> asking (db_statement db);
       (case failed of Some err \<Rightarrow> ret (Inl err) | None \<Rightarrow> run_statement stmt)
     }"

definition others_first :: "'w Db \<Rightarrow> ('w, 'v, unit) Q" where
  "others_first db = State (\<lambda>s. ((), s\<lparr>tx_tables := db_others db (tx_env s) (tx_tables s)\<rparr>))"

definition tables :: "('w, 'v, Tables) Q" where
  "tables = State (\<lambda>s. (tx_tables s, s))"

definition rollback :: "Tables \<Rightarrow> ('w, 'v, unit) Q" where
  "rollback t = State (\<lambda>s. ((), s\<lparr>tx_tables := t\<rparr>))"

definition transaction :: "'w Db \<Rightarrow> ('w, 'v, goerror option) Q \<Rightarrow> ('w, 'v, goerror option) Q" where
  "transaction db fn =
     do {
       failed \<leftarrow> asking (db_begin db);
       (case failed of
          Some err \<Rightarrow> ret (Some (Formatted ''begin: %w'' [] [err]))
        | None \<Rightarrow> do {
            others_first db;
            before \<leftarrow> tables;
            err \<leftarrow> fn;
            (case err of
               Some err \<Rightarrow> do { rollback before; ret (Some err) }
             | None \<Rightarrow> do {
                 committed \<leftarrow> asking (db_commit db);
                 (if snd committed then ret () else rollback before);
                 ret (map_option (\<lambda>err. Formatted ''commit: %w'' [] [err]) (fst committed))
               })
          })
     }"

definition serializationAttempts :: nat where "serializationAttempts = 10"
definition serializationBackoff :: Duration where "serializationBackoff = 5 * Millisecond"
definition serializationBackoffMax :: Duration where "serializationBackoffMax = 500 * Millisecond"

definition retryDelay :: "'w Db \<Rightarrow> nat \<Rightarrow> ('w, 'v, Duration) Q" where
  "retryDelay db n =
     do {
       let ceiling = min (serializationBackoff * 2 ^ n) serializationBackoffMax;
       wait \<leftarrow> asking (db_rand db ceiling);
       ret (wait + 1)
     }"

text \<open>The number of the next attempt, the attempts that are left, and the error of the last.\<close>

fun serializable_loop :: "'w Db \<Rightarrow> ('w, 'v, goerror option) Q \<Rightarrow> nat \<Rightarrow> nat \<Rightarrow> goerror option \<Rightarrow> ('w, 'v, goerror option) Q" where
  "serializable_loop db fn n 0 err =
     ret (Some (Formatted ''gave up after %d serialization failures: %w'' [N (int serializationAttempts)] (case err of None \<Rightarrow> [] | Some e \<Rightarrow> [e])))"
| "serializable_loop db fn n (Suc remaining) err =
     do {
       interrupted \<leftarrow> (if 0 < n then do { delay \<leftarrow> retryDelay db n; asking (db_wait db delay) } else ret None);
       (case interrupted of
          Some e \<Rightarrow> ret (Some e)
        | None \<Rightarrow> do {
            err \<leftarrow> transaction db fn;
            (if \<not> isSerializationFailure err then ret (unavailable db err)
             else serializable_loop db fn (n + 1) remaining err)
          })
     }"

definition serializable :: "'w Db \<Rightarrow> ('w, 'v, goerror option) Q \<Rightarrow> ('w, 'v, goerror option) Q" where
  "serializable db fn = serializable_loop db fn 0 serializationAttempts None"

text \<open>The store between its calls, and a write on it: the error, and the variables the closure assigned.\<close>

record 'w Pg =
  pg_tables :: Tables
  pg_env :: 'w

definition writing :: "'w Db \<Rightarrow> ('w, 'v, goerror option) Q \<Rightarrow> 'v \<Rightarrow> 'w Pg \<Rightarrow> (goerror option \<times> 'v) \<times> 'w Pg" where
  "writing db fn vars s =
     (case run_state (serializable db fn) \<lparr>tx_tables = pg_tables s, tx_env = pg_env s, tx_vars = vars\<rparr> of
        (err, tx) \<Rightarrow> ((err, tx_vars tx), \<lparr>pg_tables = tx_tables tx, pg_env = tx_env tx\<rparr>))"

text \<open>A read outside any transaction; its errors are classified as those of a write are.\<close>

definition reading :: "'w Db \<Rightarrow> 'w Pg \<Rightarrow> (Tables \<Rightarrow> goerror + 'a) \<Rightarrow> goerror + 'a" where
  "reading db s select =
     (case (case db_read db (pg_env s) of Some err \<Rightarrow> Inl err | None \<Rightarrow> select (pg_tables s)) of
        Inl err \<Rightarrow> Inl (the (unavailable db (Some err)))
      | Inr a \<Rightarrow> Inr a)"

text \<open>A closure of one statement whose error is put in context, then what it does with the answer.\<close>

definition statement ::
  "'w Db \<Rightarrow> ('w, 'a) Statement \<Rightarrow> (goerror \<Rightarrow> goerror) \<Rightarrow> ('a \<Rightarrow> ('w, 'v, goerror option) Q) \<Rightarrow> ('w, 'v, goerror option) Q" where
  "statement db stmt in_context k =
     do {
       res \<leftarrow> query db stmt;
       (case res of Inl err \<Rightarrow> ret (Some (in_context err)) | Inr a \<Rightarrow> k a)
     }"

section \<open>Rows and records\<close>

definition nullTime :: "Time \<Rightarrow> Time option" where
  "nullTime t = (if Time_IsZero t then None else Some t)"

definition Deref :: "'a \<Rightarrow> 'a option \<Rightarrow> 'a" where
  "Deref zero p = (case p of None \<Rightarrow> zero | Some v \<Rightarrow> v)"

definition Milliseconds :: "Duration \<Rightarrow> int" where
  "Milliseconds d = go_div d Millisecond"

definition rowOf :: "UUID \<Rightarrow> Record \<Rightarrow> ExecutionRow" where
  "rowOf u r =
     (let row = \<lparr>xr_ID = ID_String u (st_ID r), xr_Namespace = rec_Namespace r, xr_Job = rec_Job r,
            xr_JobVersion = rec_JobVersion r, xr_Task = rec_Task r, xr_Provider = rec_Provider r,
            xr_Attempt = rec_Attempt r, xr_PreviousID = [], xr_State = st_State r, xr_ProviderID = st_ProviderID r,
            xr_Failure = rec_Failure r, xr_CreatedAt = Created u (st_ID r), xr_StartedAt = nullTime (st_StartedAt r),
            xr_EndedAt = nullTime (st_EndedAt r), xr_UpdatedAt = st_UpdatedAt r, xr_ExitCode = None,
            xr_DurationMs = None, xr_BilledCpu = None, xr_BilledMemory = None, xr_BilledMs = None, xr_Logs = [],
            xr_LogsTruncated = False, xr_DispatchID = [], xr_Cpu = rec_CPU r, xr_Memory = rec_Memory r,
            xr_ReleasedAt = nullTime (rec_Released r)\<rparr>;
          row = (if \<not> ID_IsZero (rec_Previous r) then row\<lparr>xr_PreviousID := ID_String u (rec_Previous r)\<rparr> else row);
          row = (if \<not> ID_IsZero (rec_Dispatch r) then row\<lparr>xr_DispatchID := ID_String u (rec_Dispatch r)\<rparr> else row)
      in case Bounded (rec_Result r) of
           None \<Rightarrow> row
         | Some res \<Rightarrow>
             (let row = row\<lparr>xr_DurationMs := Some (Milliseconds (res_Duration res)), xr_Logs := res_Logs res,
                    xr_LogsTruncated := res_LogsTruncated res, xr_ExitCode := res_ExitCode res\<rparr>
              in case res_Billed res of
                   None \<Rightarrow> row
                 | Some b \<Rightarrow> row\<lparr>xr_BilledCpu := Some (ex_CPU b), xr_BilledMemory := Some (ex_Memory b),
                     xr_BilledMs := Some (Milliseconds (ex_Duration b))\<rparr>))"

text \<open>An identifier column that may be empty, read as the zero identifier then.\<close>

definition optional_id :: "UUID \<Rightarrow> string \<Rightarrow> string \<Rightarrow> goerror + ID" where
  "optional_id u column_name column =
     (if column \<noteq> []
      then case ParseID u column of Inl err \<Rightarrow> Inl (Formatted (''execution row '' @ column_name @ '': %w'') [] [err]) | Inr i \<Rightarrow> Inr i
      else Inr 0)"

definition result_of :: "ID \<Rightarrow> ExecutionRow \<Rightarrow> Result option" where
  "result_of i row =
     (case xr_DurationMs row of
        None \<Rightarrow> None
      | Some ms \<Rightarrow>
          Some \<lparr>res_ID = i, res_ExitCode = xr_ExitCode row, res_Duration = wrap64 (ms * Millisecond),
            res_Billed = (case xr_BilledMs row of
                None \<Rightarrow> None
              | Some billed \<Rightarrow> Some \<lparr>ex_CPU = Deref 0 (xr_BilledCpu row), ex_Memory = Deref 0 (xr_BilledMemory row),
                  ex_Duration = wrap64 (billed * Millisecond)\<rparr>),
            res_Logs = xr_Logs row, res_LogsTruncated = xr_LogsTruncated row\<rparr>)"

definition recordOf :: "UUID \<Rightarrow> ExecutionRow \<Rightarrow> goerror + Record" where
  "recordOf u row =
     (case ParseID u (xr_ID row) of
        Inl err \<Rightarrow> Inl (Formatted ''execution row: %w'' [] [err])
      | Inr i \<Rightarrow>
          (case optional_id u ''previous'' (xr_PreviousID row) of
             Inl err \<Rightarrow> Inl err
           | Inr previous \<Rightarrow>
               (case optional_id u ''dispatch'' (xr_DispatchID row) of
                  Inl err \<Rightarrow> Inl err
                | Inr dispatch \<Rightarrow>
                    Inr \<lparr>st_ID = i, st_State = xr_State row, st_ProviderID = xr_ProviderID row,
                      st_StartedAt = Deref 0 (xr_StartedAt row), st_EndedAt = Deref 0 (xr_EndedAt row),
                      st_UpdatedAt = xr_UpdatedAt row, rec_Namespace = xr_Namespace row, rec_Job = xr_Job row,
                      rec_JobVersion = xr_JobVersion row, rec_Dispatch = dispatch, rec_Task = xr_Task row,
                      rec_Provider = xr_Provider row, rec_Attempt = xr_Attempt row, rec_Previous = previous,
                      rec_CPU = xr_Cpu row, rec_Memory = xr_Memory row, rec_Result = result_of i row,
                      rec_Failure = xr_Failure row, rec_Released = Deref 0 (xr_ReleasedAt row)\<rparr>)))"

fun recordsOf :: "UUID \<Rightarrow> ExecutionRow list \<Rightarrow> goerror + Record list" where
  "recordsOf u [] = Inr []"
| "recordsOf u (row # rows) =
     (case recordOf u row of
        Inl err \<Rightarrow> Inl err
      | Inr r \<Rightarrow> (case recordsOf u rows of Inl err \<Rightarrow> Inl err | Inr rs \<Rightarrow> Inr (r # rs)))"

definition dispatchRow_of :: "UUID \<Rightarrow> DispatchRow \<Rightarrow> goerror + Dispatch" where
  "dispatchRow_of u row =
     (case ParseID u (gr_DispatchID row) of
        Inl err \<Rightarrow> Inl (Formatted ''dispatch row: %w'' [] [err])
      | Inr i \<Rightarrow>
          Inr \<lparr>dis_ID = i, dis_Namespace = gr_Namespace row, dis_Job = gr_Job row, dis_JobVersion = gr_JobVersion row,
            dis_Tasks = gr_Tasks row, dis_State = gr_State row, dis_Error = gr_Error row, dis_Owner = gr_Owner row,
            dis_LeaseUntil = gr_LeaseUntil row, dis_Created = gr_CreatedAt row, dis_Ended = Deref 0 (gr_EndedAt row)\<rparr>)"

fun dispatchRows_of :: "UUID \<Rightarrow> DispatchRow list \<Rightarrow> goerror + Dispatch list" where
  "dispatchRows_of u [] = Inr []"
| "dispatchRows_of u (row # rows) =
     (case dispatchRow_of u row of
        Inl err \<Rightarrow> Inl err
      | Inr d \<Rightarrow> (case dispatchRows_of u rows of Inl err \<Rightarrow> Inl err | Inr ds \<Rightarrow> Inr (d # ds)))"

section \<open>Executions\<close>

definition Pg_Create :: "'w Db \<Rightarrow> UUID \<Rightarrow> Record \<Rightarrow> 'w Pg \<Rightarrow> goerror option \<times> 'w Pg" where
  "Pg_Create db u r s =
     apfst fst (writing db
       (statement db (Queries_CreateExecution db (rowOf u r))
         (\<lambda>err. Formatted ''create execution %s: %w'' [I (st_ID r)] [err]) (\<lambda>_. ret None)) () s)"

definition update_params :: "UUID \<Rightarrow> Record \<Rightarrow> State \<Rightarrow> UpdateExecutionParams" where
  "update_params u r from_state =
     (let row = rowOf u r in
      \<lparr>ux_State = xr_State row, ux_ProviderID = xr_ProviderID row, ux_Failure = xr_Failure row,
       ux_StartedAt = xr_StartedAt row, ux_EndedAt = xr_EndedAt row, ux_UpdatedAt = xr_UpdatedAt row,
       ux_ExitCode = xr_ExitCode row, ux_DurationMs = xr_DurationMs row, ux_BilledCpu = xr_BilledCpu row,
       ux_BilledMemory = xr_BilledMemory row, ux_BilledMs = xr_BilledMs row, ux_Logs = xr_Logs row,
       ux_LogsTruncated = xr_LogsTruncated row, ux_ID = xr_ID row, ux_FromState = from_state\<rparr>)"

definition Pg_Update :: "'w Db \<Rightarrow> UUID \<Rightarrow> Record \<Rightarrow> State \<Rightarrow> 'w Pg \<Rightarrow> goerror option \<times> 'w Pg" where
  "Pg_Update db u r from_state s =
     apfst fst (writing db
       (statement db (Queries_UpdateExecution db (update_params u r from_state))
         (\<lambda>err. Formatted ''update execution %s: %w'' [I (st_ID r)] [err])
         (\<lambda>rows. ret (if rows = 0 then Some (Formatted ''%w: %s'' [I (st_ID r)] [Sentinel ErrStale]) else None))) () s)"

text \<open>A query for one row: the error when there is none, and any other in context.\<close>

definition found :: "goerror \<Rightarrow> (goerror \<Rightarrow> goerror) \<Rightarrow> goerror + 'a \<Rightarrow> goerror + 'a" where
  "found missing in_context res =
     (case res of Inl err \<Rightarrow> Inl (if err_is ErrNoRows err then missing else in_context err) | Inr a \<Rightarrow> Inr a)"

definition Pg_Get :: "'w Db \<Rightarrow> UUID \<Rightarrow> ID \<Rightarrow> 'w Pg \<Rightarrow> goerror + Record" where
  "Pg_Get db u i s =
     (case found (Formatted ''%w: %s'' [I i] [Sentinel ErrNotFoundExecution])
         (\<lambda>err. Formatted ''get execution %s: %w'' [I i] [err])
         (reading db s (Queries_GetExecution (ID_String u i))) of
        Inl err \<Rightarrow> Inl err
      | Inr row \<Rightarrow> recordOf u row)"

definition listed :: "(goerror \<Rightarrow> goerror) \<Rightarrow> goerror + 'a \<Rightarrow> goerror + 'a" where
  "listed in_context res = (case res of Inl err \<Rightarrow> Inl (in_context err) | Inr a \<Rightarrow> Inr a)"

definition MaxInt32 :: int where "MaxInt32 = 2147483647"
definition wrap32 :: "int \<Rightarrow> int" where "wrap32 n = (n + 2147483648) mod 4294967296 - 2147483648"

definition Pg_JobExecutions :: "'w Db \<Rightarrow> UUID \<Rightarrow> string \<Rightarrow> string \<Rightarrow> int \<Rightarrow> 'w Pg \<Rightarrow> goerror + Record list" where
  "Pg_JobExecutions db u ns job limit s =
     (case listed (\<lambda>err. Formatted ''list executions of %s: %w'' [S job] [err])
         (reading db s (Queries_ListJobExecutions
           \<lparr>lx_Namespace = ns, lx_Job = job, lx_MaxRows = wrap32 (min limit MaxInt32)\<rparr>)) of
        Inl err \<Rightarrow> Inl err
      | Inr rows \<Rightarrow> recordsOf u rows)"

definition Pg_Unreleased :: "'w Db \<Rightarrow> UUID \<Rightarrow> Time \<Rightarrow> 'w Pg \<Rightarrow> goerror + Record list" where
  "Pg_Unreleased db u before s =
     (case listed (\<lambda>err. Formatted ''list unreleased executions: %w'' [] [err])
         (reading db s (\<lambda>t. Inr (Queries_ListUnreleasedExecutions db before t))) of
        Inl err \<Rightarrow> Inl err
      | Inr rows \<Rightarrow> recordsOf u rows)"

definition Pg_MarkReleased :: "'w Db \<Rightarrow> UUID \<Rightarrow> ID \<Rightarrow> Time \<Rightarrow> 'w Pg \<Rightarrow> goerror option \<times> 'w Pg" where
  "Pg_MarkReleased db u i t s =
     apfst fst (writing db
       (statement db (Queries_MarkExecutionReleased db \<lparr>mx_ReleasedAt = Some t, mx_ID = ID_String u i\<rparr>)
         (\<lambda>err. Formatted ''mark execution %s released: %w'' [I i] [err]) (\<lambda>_. ret None)) () s)"

definition Pg_DispatchExecutions :: "'w Db \<Rightarrow> UUID \<Rightarrow> ID \<Rightarrow> 'w Pg \<Rightarrow> goerror + Record list" where
  "Pg_DispatchExecutions db u dispatch s =
     (case listed (\<lambda>err. Formatted ''list executions of dispatch %s: %w'' [I dispatch] [err])
         (reading db s (\<lambda>t. Inr (Queries_ListDispatchExecutions (ID_String u dispatch) t))) of
        Inl err \<Rightarrow> Inl err
      | Inr rows \<Rightarrow> recordsOf u rows)"

section \<open>Dispatches\<close>

definition Pg_CreateDispatch :: "'w Db \<Rightarrow> UUID \<Rightarrow> Dispatch \<Rightarrow> 'w Pg \<Rightarrow> goerror option \<times> 'w Pg" where
  "Pg_CreateDispatch db u d s =
     apfst fst (writing db
       (statement db (Queries_CreateDispatch db \<lparr>cd_DispatchID = ID_String u (dis_ID d), cd_Namespace = dis_Namespace d,
           cd_Job = dis_Job d, cd_JobVersion = dis_JobVersion d, cd_State = dis_State d, cd_CreatedAt = dis_Created d,
           cd_Tasks = dis_Tasks d, cd_Owner = dis_Owner d, cd_LeaseUntil = dis_LeaseUntil d\<rparr>)
         (\<lambda>err. Formatted ''create dispatch %s: %w'' [I (dis_ID d)] [err]) (\<lambda>_. ret None)) () s)"

definition Pg_FinishDispatch :: "'w Db \<Rightarrow> UUID \<Rightarrow> Dispatch \<Rightarrow> 'w Pg \<Rightarrow> goerror option \<times> 'w Pg" where
  "Pg_FinishDispatch db u d s =
     apfst fst (writing db
       (statement db (Queries_FinishDispatch db \<lparr>fd_State = dis_State d, fd_Error = dis_Error d,
           fd_EndedAt = nullTime (dis_Ended d), fd_DispatchID = ID_String u (dis_ID d), fd_Owner = dis_Owner d\<rparr>)
         (\<lambda>err. Formatted ''finish dispatch %s: %w'' [I (dis_ID d)] [err])
         (\<lambda>rows. ret (if rows = 0 then Some (stale_dispatch (dis_ID d)) else None))) () s)"

definition Pg_RenewDispatch :: "'w Db \<Rightarrow> UUID \<Rightarrow> ID \<Rightarrow> string \<Rightarrow> Time \<Rightarrow> 'w Pg \<Rightarrow> goerror option \<times> 'w Pg" where
  "Pg_RenewDispatch db u i owner until s =
     apfst fst (writing db
       (statement db (Queries_RenewDispatch db \<lparr>rd_LeaseUntil = until, rd_DispatchID = ID_String u i, rd_Owner = owner\<rparr>)
         (\<lambda>err. Formatted ''renew dispatch %s: %w'' [I i] [err])
         (\<lambda>rows. ret (if rows = 0 then Some (stale_dispatch i) else None))) () s)"

definition Pg_ClaimDispatches ::
  "'w Db \<Rightarrow> UUID \<Rightarrow> string \<Rightarrow> Time \<Rightarrow> Time \<Rightarrow> ID list \<Rightarrow> 'w Pg \<Rightarrow> (goerror + Dispatch list) \<times> 'w Pg" where
  "Pg_ClaimDispatches db u owner clock until skip s =
     (case writing db
         (statement db (Queries_ClaimDispatches db \<lparr>kd_Owner = owner, kd_LeaseUntil = until, kd_Now = clock,
             kd_Skip = map (ID_String u) skip\<rparr>)
           (\<lambda>err. Formatted ''claim dispatches: %w'' [] [err])
           (\<lambda>rows. (case dispatchRows_of u rows of
              Inl err \<Rightarrow> ret (Some err)
            | Inr ds \<Rightarrow> do { assign (\<lambda>_. ds); ret None }))) [] s of
        ((Some err, claimed), s') \<Rightarrow> (Inl err, s')
      | ((None, claimed), s') \<Rightarrow> (Inr claimed, s'))"

definition Pg_GetDispatch :: "'w Db \<Rightarrow> UUID \<Rightarrow> ID \<Rightarrow> 'w Pg \<Rightarrow> goerror + Dispatch" where
  "Pg_GetDispatch db u i s =
     (case found (Formatted ''%w: dispatch %s'' [I i] [Sentinel ErrNotFoundExecution])
         (\<lambda>err. Formatted ''get dispatch %s: %w'' [I i] [err])
         (reading db s (Queries_GetDispatch (ID_String u i))) of
        Inl err \<Rightarrow> Inl err
      | Inr row \<Rightarrow> dispatchRow_of u row)"

definition Pg_Ping :: "'w Db \<Rightarrow> 'w Pg \<Rightarrow> goerror option" where
  "Pg_Ping db s = unavailable db (db_read db (pg_env s))"

section \<open>Registered jobs\<close>

text \<open>The closure of \<open>Register\<close> assigns the version and whether it changed.\<close>

definition Pg_Register ::
  "'w Db \<Rightarrow> (string \<Rightarrow> string) \<Rightarrow> string \<Rightarrow> string \<Rightarrow> string \<Rightarrow> Time \<Rightarrow> 'w Pg \<Rightarrow> (goerror + int \<times> bool) \<times> 'w Pg" where
  "Pg_Register db fingerprint ns name source clock s =
     (let print = fingerprint source;
          inserts = \<lambda>version.
            do {
              assign (\<lambda>_. (version, True));
              statement db (Queries_InsertJobVersion db \<lparr>vr_Namespace = ns, vr_Name = name, vr_Version = version,
                  vr_Source = source, vr_Fingerprint = print, vr_CreatedAt = clock\<rparr>)
                (\<lambda>err. Formatted ''insert job %s version %d: %w'' [S name, N version] [err])
                (\<lambda>_. statement db (Queries_PointJobAt db \<lparr>pj_Namespace = ns, pj_Name = name, pj_Version = version,
                    pj_UpdatedAt = clock\<rparr>)
                  (\<lambda>err. Formatted ''point job %s at version %d: %w'' [S name, N version] [err])
                  (\<lambda>_. ret None))
            };
          registers = do {
            res \<leftarrow> query db (Queries_CurrentJobVersion ns name);
            (case res of
               Inl err \<Rightarrow> if err_is ErrNoRows err then inserts (wrap64 (0 + 1))
                 else ret (Some (Formatted ''read job %s: %w'' [S name] [err]))
             | Inr current \<Rightarrow>
                 if \<not> cv_Stopped current \<and> cv_Fingerprint current = print
                 then do { assign (\<lambda>_. (cv_Version current, False)); ret None }
                 else inserts (wrap64 (cv_Version current + 1)))
          }
      in case writing db registers (0, False) s of
           ((Some err, vars), s') \<Rightarrow> (Inl err, s')
         | ((None, vars), s') \<Rightarrow> (Inr vars, s'))"

definition standing_of :: "JobRow \<Rightarrow> JobStanding" where
  "standing_of row = \<lparr>js_Namespace = jr_Namespace row, js_Name = jr_Name row, js_Version = jr_Version row,
     js_Stopped = jr_Stopped row, js_Updated = jr_UpdatedAt row\<rparr>"

definition version_of :: "JobVersionRow \<Rightarrow> Version" where
  "version_of row = \<lparr>v_Namespace = vr_Namespace row, v_Name = vr_Name row, v_Version = vr_Version row,
     v_Source = vr_Source row, v_Fingerprint = vr_Fingerprint row, v_Created = vr_CreatedAt row\<rparr>"

definition Pg_Job :: "'w Db \<Rightarrow> string \<Rightarrow> string \<Rightarrow> 'w Pg \<Rightarrow> goerror + JobStanding" where
  "Pg_Job db ns name s =
     (case found (not_registered name ns) (\<lambda>err. Formatted ''get job %s: %w'' [S name] [err])
         (reading db s (Queries_GetJob ns name)) of
        Inl err \<Rightarrow> Inl err
      | Inr row \<Rightarrow> Inr (standing_of row))"

definition Pg_Jobs :: "'w Db \<Rightarrow> string \<Rightarrow> 'w Pg \<Rightarrow> goerror + JobStanding list" where
  "Pg_Jobs db ns s =
     (case listed (\<lambda>err. Formatted ''list jobs: %w'' [] [err]) (reading db s (\<lambda>t. Inr (Queries_ListJobs db ns t))) of
        Inl err \<Rightarrow> Inl err
      | Inr rows \<Rightarrow> Inr (map standing_of rows))"

definition Pg_Version :: "'w Db \<Rightarrow> string \<Rightarrow> string \<Rightarrow> int \<Rightarrow> 'w Pg \<Rightarrow> goerror + Version" where
  "Pg_Version db ns name version s =
     (case found (Formatted ''%w: %q version %d'' [S name, N version] [Sentinel ErrNotRegistered])
         (\<lambda>err. Formatted ''get job %s version %d: %w'' [S name, N version] [err])
         (reading db s (Queries_GetJobVersion ns name version)) of
        Inl err \<Rightarrow> Inl err
      | Inr row \<Rightarrow> Inr (version_of row))"

definition Pg_Versions :: "'w Db \<Rightarrow> string \<Rightarrow> string \<Rightarrow> 'w Pg \<Rightarrow> goerror + Version list" where
  "Pg_Versions db ns name s =
     (case listed (\<lambda>err. Formatted ''list versions of %s: %w'' [S name] [err])
         (reading db s (\<lambda>t. Inr (Queries_ListJobVersions ns name t))) of
        Inl err \<Rightarrow> Inl err
      | Inr rows \<Rightarrow> Inr (map version_of rows))"

definition Pg_Stop :: "'w Db \<Rightarrow> string \<Rightarrow> string \<Rightarrow> Time \<Rightarrow> 'w Pg \<Rightarrow> goerror option \<times> 'w Pg" where
  "Pg_Stop db ns name clock s =
     apfst fst (writing db
       (statement db (Queries_StopJob db \<lparr>sj_UpdatedAt = clock, sj_Namespace = ns, sj_Name = name\<rparr>)
         (\<lambda>err. Formatted ''stop job %s: %w'' [S name] [err])
         (\<lambda>rows. ret (if rows = 0 then Some (not_registered name ns) else None))) () s)"

section \<open>Quota\<close>

definition reserve_params :: "UUID \<Rightarrow> Reservation \<Rightarrow> ReserveQuotaParams" where
  "reserve_params u r =
     \<lparr>pq_ExecutionID = ID_String u (rsv_ID r), pq_Provider = rsv_Provider r, pq_Cpu = rsv_CPU r,
      pq_Memory = rsv_Memory r, pq_CreatedAt = rsv_Created r, pq_Namespaces = map ch_Namespace (rsv_Charges r),
      pq_Pools = map ch_Pool (rsv_Charges r), pq_Periods = map ch_Period (rsv_Charges r),
      pq_Amounts = map ch_Amount (rsv_Charges r), pq_Limits = map ch_Limit (rsv_Charges r)\<rparr>"

definition usageFromRows :: "(Key \<times> int) list \<Rightarrow> Usage" where
  "usageFromRows rows = fold (\<lambda>(k, used) usage. usage(k \<mapsto> used)) rows Map.empty"

definition Pg_Reserve :: "'w Db \<Rightarrow> UUID \<Rightarrow> Reservation \<Rightarrow> 'w Pg \<Rightarrow> (goerror + bool \<times> Usage) \<times> 'w Pg" where
  "Pg_Reserve db u r s =
     (let params = reserve_params u r;
          reserves = statement db (Queries_ReserveQuota db params) (\<lambda>err. Formatted ''reserve: %w'' [] [err])
            (\<lambda>inserted. do {
               assign (\<lambda>(fits, standing). (0 < inserted, standing));
               (if 0 < inserted then ret None
                else statement db (Queries_ReadQuotaUsage (pq_Periods params)) (\<lambda>err. Formatted ''read usage: %w'' [] [err])
                  (\<lambda>rows. do { assign (\<lambda>(fits, standing). (fits, usageFromRows rows)); ret None }))
             })
      in case writing db reserves (False, Map.empty) s of
           ((Some err, vars), s') \<Rightarrow> (Inl err, s')
         | ((None, vars), s') \<Rightarrow> (Inr vars, s'))"

text \<open>\<open>actual\<close> is the map's entries in the order the loop meets them.\<close>

definition settle_params :: "UUID \<Rightarrow> ID \<Rightarrow> (PoolRef \<times> int) list \<Rightarrow> SettleQuotaParams" where
  "settle_params u i actual =
     \<lparr>sq_ExecutionID = ID_String u i, sq_Namespaces = map (ref_Namespace \<circ> fst) actual,
      sq_Pools = map (ref_Pool \<circ> fst) actual, sq_Amounts = map snd actual\<rparr>"

definition settleOne :: "'w Db \<Rightarrow> UUID \<Rightarrow> ID \<Rightarrow> (PoolRef \<times> int) list \<Rightarrow> ('w, 'v, goerror option) Q" where
  "settleOne db u i actual =
     statement db (Queries_SettleQuota db (settle_params u i actual))
       (\<lambda>err. Formatted ''settle %s: %w'' [I i] [err]) (\<lambda>_. ret None)"

definition Pg_Settle :: "'w Db \<Rightarrow> UUID \<Rightarrow> ID \<Rightarrow> (PoolRef \<times> int) list \<Rightarrow> 'w Pg \<Rightarrow> goerror option \<times> 'w Pg" where
  "Pg_Settle db u i actual s = apfst fst (writing db (settleOne db u i actual) () s)"

definition Pg_Reserved :: "'w Db \<Rightarrow> UUID \<Rightarrow> ID \<Rightarrow> 'w Pg \<Rightarrow> goerror + bool" where
  "Pg_Reserved db u i s =
     listed (\<lambda>err. Formatted ''reading the reservation of %s: %w'' [I i] [err])
       (reading db s (\<lambda>t. Inr (Queries_ExecutionReserved (ID_String u i) t)))"

definition Pg_ReadUsage :: "'w Db \<Rightarrow> string list \<Rightarrow> 'w Pg \<Rightarrow> goerror + Usage" where
  "Pg_ReadUsage db periods s =
     (if periods = [] then Inr Map.empty
      else case listed (\<lambda>err. Formatted ''read usage: %w'' [] [err])
          (reading db s (\<lambda>t. case Queries_ReadQuotaUsage periods (pg_env s) t of Inl err \<Rightarrow> Inl err | Inr (rows, _) \<Rightarrow> Inr rows)) of
        Inl err \<Rightarrow> Inl err
      | Inr rows \<Rightarrow> Inr (usageFromRows rows))"

definition held_row :: "ID \<Rightarrow> QuotaReservation \<Rightarrow> Held" where
  "held_row i row = \<lparr>held_ID = i, held_Provider = qr_Provider row, held_CPU = qr_Cpu row, held_Memory = qr_Memory row,
     held_Amounts = []\<rparr>"

definition add_amount :: "QuotaReservation \<Rightarrow> Held \<Rightarrow> Held" where
  "add_amount row h = h\<lparr>held_Amounts := AList.update (row_ref row) (qr_Amount row) (held_Amounts h)\<rparr>"

fun heldFromRows_loop :: "UUID \<Rightarrow> QuotaReservation list \<Rightarrow> Held list \<Rightarrow> goerror + Held list" where
  "heldFromRows_loop u [] groups = Inr groups"
| "heldFromRows_loop u (row # rows) groups =
     (case ParseID u (qr_ExecutionID row) of
        Inl err \<Rightarrow> Inl (Formatted ''reservation row: %w'' [] [err])
      | Inr i \<Rightarrow>
          (let groups = (if groups = [] \<or> held_ID (last groups) \<noteq> i then groups @ [held_row i row] else groups)
           in heldFromRows_loop u rows (butlast groups @ [add_amount row (last groups)])))"

definition heldFromRows :: "UUID \<Rightarrow> QuotaReservation list \<Rightarrow> goerror + Held list" where
  "heldFromRows u rows = heldFromRows_loop u rows []"

text \<open>
  The closure of \<open>Reap\<close> counts what it settles, and calls \<open>settle\<close>, whose state \<open>'c\<close> outlives a
  transaction that is rolled back.
\<close>

fun reap_held ::
  "'w Db \<Rightarrow> UUID \<Rightarrow> (Held \<Rightarrow> 'c \<Rightarrow> (PoolRef \<times> int) list option \<times> 'c) \<Rightarrow> Held list \<Rightarrow> ('w, int \<times> 'c, goerror option) Q" where
  "reap_held db u settle [] = ret None"
| "reap_held db u settle (h # hs) =
     do {
       actual \<leftarrow> State (\<lambda>s. case settle h (snd (tx_vars s)) of (a, c) \<Rightarrow> (a, s\<lparr>tx_vars := (fst (tx_vars s), c)\<rparr>));
       (case actual of
          None \<Rightarrow> reap_held db u settle hs
        | Some actual \<Rightarrow> do {
            err \<leftarrow> settleOne db u (held_ID h) actual;
            (case err of
               Some err \<Rightarrow> ret (Some err)
             | None \<Rightarrow> do { assign (apfst (\<lambda>reaped. reaped + 1)); reap_held db u settle hs })
          })
     }"

definition Pg_Reap ::
  "'w Db \<Rightarrow> UUID \<Rightarrow> Time \<Rightarrow> (Held \<Rightarrow> 'c \<Rightarrow> (PoolRef \<times> int) list option \<times> 'c) \<Rightarrow> 'w Pg \<Rightarrow> 'c
    \<Rightarrow> (goerror option \<times> int) \<times> 'w Pg \<times> 'c" where
  "Pg_Reap db u before settle s c =
     (let reaps = do {
            assign (apfst (\<lambda>_. 0));
            statement db (Queries_ClaimStaleReservations db before) (\<lambda>err. Formatted ''claim: %w'' [] [err])
              (\<lambda>rows. case heldFromRows u rows of
                 Inl err \<Rightarrow> ret (Some err)
               | Inr groups \<Rightarrow> reap_held db u settle groups)
          }
      in case writing db reaps (0, c) s of ((err, (reaped, c')), s') \<Rightarrow> ((err, reaped), s', c'))"

section \<open>The schema\<close>

definition SchemaVersion :: int where "SchemaVersion = 7"

text \<open>\<open>read\<close> is what querying the migrations' own table answers.\<close>

definition VerifySchema :: "goerror + int \<Rightarrow> goerror option" where
  "VerifySchema read =
     (case read of
        Inl err \<Rightarrow> Some (Formatted ''query schema version: %w'' [] [err])
      | Inr version \<Rightarrow>
          if version < SchemaVersion
          then Some (Formatted ''database schema is at version %d, older than the %d this binary expects; a migration may have failed partway''
            [N version, N SchemaVersion] [])
          else if SchemaVersion < version
          then Some (Formatted ''database schema is at version %d, newer than the %d this binary expects; upgrade vagabond''
            [N version, N SchemaVersion] [])
          else None)"

end
