(* ===== verification/Transactions.thy ===== *)
theory Transactions
  imports Postgres
begin

text \<open>
  What a serializable write does to the tables.  The locale \<open>table_relation\<close> carries a relation that
  statements and other clients keep through whole writes, retries and rollbacks included; a write that
  answers no error has been applied exactly once, whatever the database answered before.
\<close>

section \<open>Running a closure\<close>

lemma run_asking [simp]: "run_state (asking f) s = (case f (tx_env s) of (a, w) \<Rightarrow> (a, s\<lparr>tx_env := w\<rparr>))"
  by (simp add: asking_def)

lemma run_assign [simp]: "run_state (assign f) s = ((), s\<lparr>tx_vars := f (tx_vars s)\<rparr>)"
  by (simp add: assign_def)

lemma run_others_first [simp]:
  "run_state (others_first db) s = ((), s\<lparr>tx_tables := db_others db (tx_env s) (tx_tables s)\<rparr>)"
  by (simp add: others_first_def)

lemma run_tables [simp]: "run_state tables s = (tx_tables s, s)"
  by (simp add: tables_def)

lemma run_rollback [simp]: "run_state (rollback t) s = ((), s\<lparr>tx_tables := t\<rparr>)"
  by (simp add: rollback_def)

lemma run_run_statement [simp]:
  "run_state (run_statement stmt) s =
     (case stmt (tx_env s) (tx_tables s) of Inl err \<Rightarrow> (Inl err, s) | Inr (a, t) \<Rightarrow> (Inr a, s\<lparr>tx_tables := t\<rparr>))"
  by (simp add: run_statement_def)

lemma query_run:
  assumes "run_state (query db stmt) s = (res, t)"
  shows "\<exists>w. (\<exists>err. res = Inl err \<and> t = s\<lparr>tx_env := w\<rparr>) \<or>
    (\<exists>a tables. res = Inr a \<and> stmt w (tx_tables s) = Inr (a, tables) \<and> t = s\<lparr>tx_env := w, tx_tables := tables\<rparr>)"
proof -
  obtain failed w where w: "db_statement db (tx_env s) = (failed, w)" by fastforce
  show ?thesis
    using assms w
    by (intro exI [of _ w]) (auto simp: query_def split: option.splits sum.splits)
qed

lemma statement_run:
  assumes "run_state (statement db stmt in_context k) s = (err, t)"
  shows "\<exists>w. (\<exists>e. err = Some (in_context e) \<and> t = s\<lparr>tx_env := w\<rparr>) \<or>
    (\<exists>a tables. stmt w (tx_tables s) = Inr (a, tables) \<and>
      run_state (k a) (s\<lparr>tx_env := w, tx_tables := tables\<rparr>) = (err, t))"
proof -
  obtain res u where q: "run_state (query db stmt) s = (res, u)" by fastforce
  from query_run [OF q] show ?thesis using assms q by (fastforce simp: statement_def)
qed

text \<open>What an attempt leaves, its answer captured in the variables of the closure.\<close>

definition applied :: "('w, 'v, goerror option) Q \<Rightarrow> Tables \<Rightarrow> 'v \<Rightarrow> Tables \<Rightarrow> bool" where
  "applied fn t v t' \<longleftrightarrow> (\<exists>s s'. tx_tables s = t \<and> run_state fn s = (None, s') \<and> tx_tables s' = t' \<and> tx_vars s' = v)"

lemma statement_applied:
  assumes "applied (statement db stmt in_context k) t v t'"
  shows "\<exists>w a t1. stmt w t = Inr (a, t1) \<and> applied (k a) t1 v t'"
proof -
  obtain s s' where s: "tx_tables s = t" "run_state (statement db stmt in_context k) s = (None, s')" "tx_tables s' = t'" "tx_vars s' = v"
    using assms by (auto simp: applied_def)
  from statement_run [OF s(2)] s(1,3,4) show ?thesis
    unfolding applied_def by (fastforce intro: exI [of _ "s\<lparr>tx_env := _, tx_tables := _\<rparr>"])
qed

lemma applied_ret [simp]: "applied (ret x) t v t' \<longleftrightarrow> x = None \<and> t' = t"
  by (auto simp: applied_def intro!: exI [of _ "\<lparr>tx_tables = t, tx_env = undefined, tx_vars = v\<rparr>"])

definition commit_decides :: "'w Db \<Rightarrow> bool" where
  "commit_decides db \<longleftrightarrow>
     (\<forall>w. (fst (fst (db_commit db w)) = None \<longrightarrow> snd (fst (db_commit db w))) \<and>
       (isSerializationFailure (fst (fst (db_commit db w))) \<longrightarrow> \<not> snd (fst (db_commit db w))))"

lemma isSerializationFailure_wrapped [simp]:
  "isSerializationFailure (Some (Formatted f args [e])) = isSerializationFailure (Some e)"
  by (simp add: isSerializationFailure_def split: option.split)

lemma isSerializationFailure_None [simp]: "\<not> isSerializationFailure None"
  by (simp add: isSerializationFailure_def)

lemma transaction_run:
  assumes "run_state (transaction db fn) s = (err, t)"
  shows "(tx_tables t = tx_tables s \<and> err \<noteq> None) \<or>
    (\<exists>w. (tx_tables t = db_others db w (tx_tables s) \<and> (commit_decides db \<longrightarrow> err \<noteq> None)) \<or>
      (applied fn (db_others db w (tx_tables s)) (tx_vars t) (tx_tables t) \<and> (commit_decides db \<longrightarrow> \<not> isSerializationFailure err)))"
proof -
  obtain failed w where b: "db_begin db (tx_env s) = (failed, w)" by fastforce
  show ?thesis
  proof (cases failed)
    case (Some e)
    then show ?thesis using assms b by (auto simp: transaction_def)
  next
    case None
    let ?s = "s\<lparr>tx_env := w, tx_tables := db_others db w (tx_tables s)\<rparr>"
    obtain res u where fn: "run_state fn ?s = (res, u)" by fastforce
    show ?thesis
    proof (cases res)
      case (Some e)
      then have "tx_tables t = db_others db w (tx_tables s)" "err = Some e"
        using assms b None fn by (auto simp: transaction_def)
      then show ?thesis by blast
    next
      case committing: None
      obtain cerr took w' where c: "db_commit db (tx_env u) = ((cerr, took), w')" by (metis surj_pair)
      have t: "err = map_option (\<lambda>err. Formatted ''commit: %w'' [] [err]) cerr"
        "tx_tables t = (if took then tx_tables u else db_others db w (tx_tables s))" "tx_vars t = tx_vars u"
        using assms b None fn committing c by (auto simp: transaction_def split: if_splits)
      have decided: "commit_decides db \<Longrightarrow> (cerr = None \<longrightarrow> took) \<and> (isSerializationFailure cerr \<longrightarrow> \<not> took)"
        using c by (auto simp: commit_decides_def dest!: spec [of _ "tx_env u"])
      have ap: "applied fn (db_others db w (tx_tables s)) (tx_vars u) (tx_tables u)"
        unfolding applied_def using fn committing by (intro exI [of _ ?s] exI [of _ u]) simp
      show ?thesis
      proof (cases took)
        case True
        with ap t decided show ?thesis by (cases cerr) auto
      next
        case False
        with t decided show ?thesis by (cases cerr) auto
      qed
    qed
  qed
qed

text \<open>One round of the loop: the wait is interrupted, or a transaction decides how it goes on.\<close>

lemma serializable_loop_cases:
  assumes "run_state (serializable_loop db fn n (Suc k) err) s = (res, t)"
  obtains (interrupted) e where "res = Some e" "tx_tables t = tx_tables s"
  | (attempted) s1 terr t1 where "tx_tables s1 = tx_tables s" "run_state (transaction db fn) s1 = (terr, t1)"
      "if \<not> isSerializationFailure terr then res = unavailable db terr \<and> t = t1
       else run_state (serializable_loop db fn (n + 1) k terr) t1 = (res, t)"
proof -
  obtain stopped s1 where w: "run_state (if 0 < n then do { delay \<leftarrow> retryDelay db n; asking (db_wait db delay) } else ret None) s
    = (stopped, s1)" by fastforce
  then have s1: "tx_tables s1 = tx_tables s" by (auto simp: retryDelay_def split: prod.splits if_splits)
  obtain terr t1 where tr: "run_state (transaction db fn) s1 = (terr, t1)" by fastforce
  show thesis
  proof (cases stopped)
    case None
    then show thesis using assms w tr
      by (intro attempted [OF s1 tr]) (simp only: serializable_loop.simps run_state_bind option.case prod.case, simp split: if_splits)
  next
    case (Some e)
    then show thesis using assms w s1
      by (intro interrupted [of e]) (simp_all only: serializable_loop.simps run_state_bind option.case prod.case, simp_all)
  qed
qed

section \<open>Relations on the tables\<close>

locale table_relation = run_relation R for R :: "Tables \<Rightarrow> Tables \<Rightarrow> bool"
begin

lemma transaction_related:
  assumes "\<And>s r t. run_state fn s = (r, t) \<Longrightarrow> R (tx_tables s) (tx_tables t)"
    and "\<And>w t. R t (db_others db w t)" "run_state (transaction db fn) s = (err, t)"
  shows "R (tx_tables s) (tx_tables t)"
  using transaction_run [OF assms(3)]
proof (elim disjE exE conjE)
  fix w assume ap: "applied fn (db_others db w (tx_tables s)) (tx_vars t) (tx_tables t)"
  then obtain u u' where "tx_tables u = db_others db w (tx_tables s)" "run_state fn u = (None, u')" "tx_tables u' = tx_tables t"
    by (auto simp: applied_def)
  then have "R (db_others db w (tx_tables s)) (tx_tables t)" using assms(1) by metis
  then show ?thesis using assms(2) trans by blast
qed (simp_all add: refl assms(2))

lemma serializable_related:
  assumes fn: "\<And>s r t. run_state fn s = (r, t) \<Longrightarrow> R (tx_tables s) (tx_tables t)"
    and others: "\<And>w t. R t (db_others db w t)"
  shows "run_state (serializable_loop db fn n k err) s = (res, t) \<Longrightarrow> R (tx_tables s) (tx_tables t)"
proof (induction k arbitrary: n err s)
  case 0
  then show ?case by (simp add: refl)
next
  case (Suc k)
  from Suc.prems show ?case
  proof (cases rule: serializable_loop_cases)
    case (attempted s1 terr t1)
    then have "R (tx_tables s) (tx_tables t1)" using transaction_related [of fn db s1 terr t1] fn others by simp
    then show ?thesis using attempted(3) Suc.IH [of "n + 1" terr t1] by (auto split: if_splits intro: trans)
  qed (simp add: refl)
qed

lemma writing_related:
  assumes "\<And>s r t. run_state fn s = (r, t) \<Longrightarrow> R (tx_tables s) (tx_tables t)"
    and "\<And>w t. R t (db_others db w t)" "writing db fn vars s = (res, s')"
  shows "R (pg_tables s) (pg_tables s')"
proof -
  obtain err tx where tx: "run_state (serializable db fn) \<lparr>tx_tables = pg_tables s, tx_env = pg_env s, tx_vars = vars\<rparr>
    = (err, tx)" by fastforce
  with assms(3) have "pg_tables s' = tx_tables tx" by (auto simp: writing_def)
  with tx serializable_related [of fn db 0 serializationAttempts None] assms(1,2)
  show ?thesis by (fastforce simp: serializable_def)
qed

text \<open>A closure of one statement, then of what its answer leads to.\<close>

lemma statement_related:
  assumes "\<And>w t a t'. stmt w t = Inr (a, t') \<Longrightarrow> R t t'"
    and "\<And>a s r t. run_state (k a) s = (r, t) \<Longrightarrow> R (tx_tables s) (tx_tables t)"
    and "run_state (statement db stmt in_context k) s = (err, t)"
  shows "R (tx_tables s) (tx_tables t)"
  using statement_run [OF assms(3)]
proof (elim exE disjE conjE)
  fix w e assume "t = s\<lparr>tx_env := w\<rparr>"
  then show ?thesis by (simp add: refl)
next
  fix w a tables
  assume "stmt w (tx_tables s) = Inr (a, tables)" "run_state (k a) (s\<lparr>tx_env := w, tx_tables := tables\<rparr>) = (err, t)"
  then show ?thesis using assms(1) [of w "tx_tables s" a tables] assms(2) by (fastforce intro: trans)
qed

end

section \<open>Applied once\<close>

text \<open>What others may have done to the tables, transaction after transaction.\<close>

definition others_acted :: "'w Db \<Rightarrow> Tables \<Rightarrow> Tables \<Rightarrow> bool" where
  "others_acted db = (\<lambda>t t'. \<exists>w. t' = db_others db w t)\<^sup>*\<^sup>*"

lemma others_acted_refl [simp]: "others_acted db t t"
  by (simp add: others_acted_def)

lemma others_acted_first: "others_acted db (db_others db w t) u \<Longrightarrow> others_acted db t u"
  unfolding others_acted_def by (rule converse_rtranclp_into_rtranclp) auto

lemma others_acted_once [simp]: "others_acted db t (db_others db w t)"
  by (rule others_acted_first [where w = w]) simp

lemma serializable_applied:
  assumes "commit_decides db"
  shows "run_state (serializable_loop db fn n k err) s = (res, t) \<Longrightarrow>
    \<exists>u. others_acted db (tx_tables s) u \<and>
      (applied fn u (tx_vars t) (tx_tables t) \<or> (tx_tables t = u \<and> res \<noteq> None))"
proof (induction k arbitrary: n err s)
  case 0
  then show ?case by (intro exI [of _ "tx_tables s"]) auto
next
  case (Suc k)
  from Suc.prems show ?case
  proof (cases rule: serializable_loop_cases)
    case interrupted
    then show ?thesis by (intro exI [of _ "tx_tables s"]) auto
  next
    case (attempted s1 terr t1)
    note s1 = attempted(1) and tr = attempted(2) and rest = attempted(3)
    have un: "unavailable db terr = None \<longleftrightarrow> terr = None"
      by (simp add: unavailable_def split: option.split)
    from transaction_run [OF tr] s1 assms consider
      (idle) "tx_tables t1 = tx_tables s" "terr \<noteq> None"
      | (rolled) w where "tx_tables t1 = db_others db w (tx_tables s)" "terr \<noteq> None"
      | (ran) w where "applied fn (db_others db w (tx_tables s)) (tx_vars t1) (tx_tables t1)" "\<not> isSerializationFailure terr"
      by auto
    then show ?thesis
    proof cases
      case ran
      with rest show ?thesis by (auto intro!: exI [of _ "db_others db w (tx_tables s)"])
    next
      case idle
      show ?thesis
      proof (cases "isSerializationFailure terr")
        case True
        with idle rest Suc.IH [of "n + 1" terr t1] show ?thesis by simp
      next
        case False
        with idle rest un show ?thesis by (intro exI [of _ "tx_tables s"]) auto
      qed
    next
      case (rolled w)
      show ?thesis
      proof (cases "isSerializationFailure terr")
        case True
        with rolled rest Suc.IH [of "n + 1" terr t1] show ?thesis by (auto dest: others_acted_first)
      next
        case False
        with rolled rest un show ?thesis by (intro exI [of _ "db_others db w (tx_tables s)"]) auto
      qed
    qed
  qed
qed

lemma writing_applied:
  assumes "commit_decides db" "writing db fn vars s = ((err, vars'), s')"
  shows "\<exists>t. others_acted db (pg_tables s) t \<and>
    (applied fn t vars' (pg_tables s') \<or> (pg_tables s' = t \<and> err \<noteq> None))"
proof -
  obtain tx where tx: "run_state (serializable db fn) \<lparr>tx_tables = pg_tables s, tx_env = pg_env s, tx_vars = vars\<rparr>
    = (err, tx)" "pg_tables s' = tx_tables tx" "vars' = tx_vars tx"
    using assms(2) by (auto simp: writing_def split: prod.splits)
  from serializable_applied [OF assms(1) tx(1) [unfolded serializable_def]] tx(2,3) show ?thesis by simp
qed

section \<open>Property\<close>

text \<open>C9. A write takes effect at most once: on top of whatever other clients did meanwhile, the closure of one
  attempt was applied, and what that attempt captured is what the write answers, or none was and the write
  answers an error; without an error it was applied, however many attempts the database failed to serialize before.\<close>

theorem written_once:
  assumes "commit_decides db" "writing db fn vars s = ((err, vars'), s')"
  shows "\<exists>t. others_acted db (pg_tables s) t \<and>
    (applied fn t vars' (pg_tables s') \<or> (pg_tables s' = t \<and> err \<noteq> None))"
  by (rule writing_applied [OF assms])

text \<open>A database nobody else uses, whose first commit has to be retried.\<close>

definition sample_db :: "nat Db" where
  "sample_db =
     \<lparr>db_begin = (\<lambda>w. (None, w)), db_statement = (\<lambda>w. (None, w)),
      db_commit = (\<lambda>w. (if w = 0 then (Some (PgError serializationFailure), False) else (None, True), w + 1)),
      db_read = (\<lambda>w. None), db_others = (\<lambda>w t. t), db_locked = (\<lambda>w r. False), db_clock = (\<lambda>w. 1),
      db_wait = (\<lambda>delay w. (None, w)), db_rand = (\<lambda>d w. (0, w)), db_unanswered = (\<lambda>s. False), db_time = id,
      db_collate = strCompare\<rparr>"

definition sample_pg :: "nat Pg" where
  "sample_pg = \<lparr>pg_tables = \<lparr>t_executions = [], t_dispatches = [], t_jobs = [], t_versions = [], t_reservations = [],
     t_usage = []\<rparr>, pg_env = 0\<rparr>"

definition pointing :: "(nat, unit, goerror option) Q" where
  "pointing = statement sample_db (Queries_PointJobAt sample_db \<lparr>pj_Namespace = ''ns'', pj_Name = ''j'', pj_Version = 1, pj_UpdatedAt = 5\<rparr>)
     (\<lambda>err. err) (\<lambda>_. ret None)"

lemma sample_decides: "commit_decides sample_db"
  by (simp add: commit_decides_def sample_db_def isSerializationFailure_def)

lemma sample_pointed:
  "fst (fst (writing sample_db pointing () sample_pg)) = None"
  "t_jobs (pg_tables (snd (writing sample_db pointing () sample_pg))) =
     [\<lparr>jr_Namespace = ''ns'', jr_Name = ''j'', jr_Version = 1, jr_Stopped = False, jr_UpdatedAt = 5\<rparr>]"
  by code_simp+

theorem written_once_witness:
  "applied pointing (pg_tables sample_pg) () (pg_tables (snd (writing sample_db pointing () sample_pg))) \<and>
   t_jobs (pg_tables (snd (writing sample_db pointing () sample_pg))) \<noteq> []"
proof -
  have "t = pg_tables sample_pg" if "others_acted sample_db (pg_tables sample_pg) t" for t
    using that unfolding others_acted_def by (induction rule: rtranclp_induct) (simp_all add: sample_db_def)
  moreover obtain vars s' where w: "writing sample_db pointing () sample_pg = ((None, vars), s')"
    using sample_pointed(1) by (metis prod.collapse)
  ultimately show ?thesis using written_once [OF sample_decides w] sample_pointed(2) by (auto simp: w)
qed

end
