(* ===== verification/PgQuota.thy ===== *)
theory PgQuota
  imports Transactions
begin

text \<open>
  Quota in the database.  What the reservation statement checks and the settlement statement moves keeps
  every counter within its limit; any number of processes may do so, since each write is one transaction.
\<close>

section \<open>Sums over rows\<close>

lemma filter_at:
  "distinct (map f xs) \<Longrightarrow> x \<in> set xs \<Longrightarrow> filter (\<lambda>y. f y = f x) xs = [x]"
proof (induction xs)
  case (Cons a xs)
  then show ?case
    by (cases "a = x") (auto simp: filter_empty_conv image_iff dest: sym)
qed simp

lemma sum_filter_split:
  "sum_list (map f (filter P xs)) = sum_list (map f (filter (\<lambda>x. P x \<and> Q x) xs)) + sum_list (map f (filter (\<lambda>x. P x \<and> \<not> Q x) xs))"
  for f :: "'a \<Rightarrow> int"
  by (induction xs) auto

definition used_at :: "QuotaUsage list \<Rightarrow> Key \<Rightarrow> int" where
  "used_at rows k = (case find_first (\<lambda>u. usage_key u = k) rows of None \<Rightarrow> 0 | Some u \<Rightarrow> qu_Used u)"

definition reserved_at :: "QuotaReservation list \<Rightarrow> Key \<Rightarrow> int" where
  "reserved_at rows k = sum_list (map qr_Amount (filter (\<lambda>r. reservation_key r = k) rows))"

lemma charged_eq: "charged t k = used_at (t_usage t) k + reserved_at (t_reservations t) k"
  by (simp add: charged_def used_at_def reserved_at_def)

lemma reserved_at_append [simp]: "reserved_at (xs @ ys) k = reserved_at xs k + reserved_at ys k"
  by (simp add: reserved_at_def)

lemma reserved_at_nonneg: "\<forall>r \<in> set rows. 0 \<le> qr_Amount r \<Longrightarrow> 0 \<le> reserved_at rows k"
  unfolding reserved_at_def by (rule sum_list_nonneg) auto

lemma used_at_first:
  "find_first (\<lambda>u. usage_key u = k) rows = None \<Longrightarrow> used_at rows k = 0"
  "find_first (\<lambda>u. usage_key u = k) rows = Some u \<Longrightarrow> used_at rows k = qu_Used u"
  unfolding used_at_def by (simp_all del: find_first_None)

lemma used_at_sum:
  "distinct (map usage_key rows) \<Longrightarrow> used_at rows k = sum_list (map qu_Used (filter (\<lambda>u. usage_key u = k) rows))"
proof (cases "find_first (\<lambda>u. usage_key u = k) rows")
  case None
  then have "filter (\<lambda>u. usage_key u = k) rows = []" by (simp add: filter_empty_conv)
  then show ?thesis using used_at_first(1) [OF None] by simp
next
  case (Some u)
  assume "distinct (map usage_key rows)"
  with find_first_SomeD [OF Some] filter_at [of usage_key rows u] Some show ?thesis by (simp add: used_at_def)
qed

lemma used_at_nonneg: "\<forall>u \<in> set rows. 0 \<le> qu_Used u \<Longrightarrow> 0 \<le> used_at rows k"
  by (auto simp: used_at_def split: option.split dest: find_first_SomeD)

section \<open>What settling does to the counters\<close>

lemma usage_key_charged [simp]: "usage_key (u\<lparr>qu_Used := n, qu_UpdatedAt := clock\<rparr>) = usage_key u"
  by (simp add: usage_key_def)

lemma new_usage_key [simp]:
  "usage_key \<lparr>qu_Provider = key_Provider k, qu_Pool = key_Pool k, qu_Period = key_Period k, qu_Used = a,
     qu_UpdatedAt = clock, qu_Namespace = key_Namespace k\<rparr> = k"
  by (simp add: usage_key_def)

lemma charge_usage_keys:
  assumes "distinct (map usage_key rows)"
  shows "distinct (map usage_key (charge_usage clock row rows))"
proof (cases "find_first (\<lambda>u. usage_key u = fst row) rows")
  case None
  moreover from None have "fst row \<notin> usage_key ` set rows" by auto
  ultimately show ?thesis using assms
    by (cases row) (simp add: charge_usage_def new_usage_key del: find_first_None)
next
  case (Some u)
  have "map usage_key (updated (\<lambda>u. usage_key u = k) (\<lambda>u. u\<lparr>qu_Used := qu_Used u + a, qu_UpdatedAt := clock\<rparr>) rows) = map usage_key rows" for k a
    by (simp add: updated_def)
  with Some assms show ?thesis by (cases row) (auto simp: charge_usage_def)
qed

lemma used_at_append:
  "used_at (xs @ [u]) k = (if find_first (\<lambda>v. usage_key v = k) xs \<noteq> None then used_at xs k
     else if usage_key u = k then qu_Used u else 0)"
proof -
  have "find_first P (xs @ ys) = (case find_first P xs of None \<Rightarrow> find_first P ys | Some x \<Rightarrow> Some x)" for P and ys :: "QuotaUsage list"
    by (induction xs) auto
  then show ?thesis unfolding used_at_def by (simp del: find_first_None split: option.split)
qed

lemma used_at_updated:
  "used_at (updated (\<lambda>u. usage_key u = j) (\<lambda>u. u\<lparr>qu_Used := qu_Used u + a, qu_UpdatedAt := clock\<rparr>) rows) k =
     (if k = j \<and> find_first (\<lambda>u. usage_key u = j) rows \<noteq> None then used_at rows k + a else used_at rows k)"
proof -
  have "find_first (\<lambda>u. usage_key u = k) (updated (\<lambda>u. usage_key u = j) (\<lambda>u. u\<lparr>qu_Used := qu_Used u + a, qu_UpdatedAt := clock\<rparr>) rows) =
    map_option (\<lambda>u. if usage_key u = j then u\<lparr>qu_Used := qu_Used u + a, qu_UpdatedAt := clock\<rparr> else u)
      (find_first (\<lambda>u. usage_key u = k) rows)"
    by (induction rows) (auto simp: updated_def)
  then show ?thesis unfolding used_at_def
    by (cases "find_first (\<lambda>u. usage_key u = k) rows") (auto simp del: find_first_None dest: find_first_SomeD)
qed

lemma charge_usage_at: "used_at (charge_usage clock (j, a) rows) k = used_at rows k + (if k = j then a else 0)"
proof (cases "find_first (\<lambda>u. usage_key u = j) rows = None")
  case True
  then show ?thesis
    by (auto simp: charge_usage_def used_at_append used_at_first(1) simp del: find_first_None)
next
  case False
  then show ?thesis by (simp add: charge_usage_def used_at_updated del: find_first_None)
qed

lemma fold_charge_usage:
  assumes "distinct (map usage_key rows)"
  shows "distinct (map usage_key (fold (charge_usage clock) xs rows))"
    and "used_at (fold (charge_usage clock) xs rows) k = used_at rows k + sum_list (map snd (filter (\<lambda>x. fst x = k) xs))"
  using assms by (induction xs arbitrary: rows) (auto simp: charge_usage_keys charge_usage_at)

lemma fold_charge_usage_nonneg:
  assumes "distinct (map usage_key rows)" "\<forall>u \<in> set rows. 0 \<le> qu_Used u" "\<forall>x \<in> set xs. 0 \<le> snd x"
  shows "\<forall>u \<in> set (fold (charge_usage clock) xs rows). 0 \<le> qu_Used u"
  using assms
proof (induction xs arbitrary: rows)
  case (Cons x xs)
  have "\<forall>u \<in> set (charge_usage clock x rows). 0 \<le> qu_Used u"
    using Cons.prems by (cases x) (auto simp: charge_usage_def updated_def)
  moreover have "\<forall>x \<in> set xs. 0 \<le> snd x" using Cons.prems by simp
  ultimately show ?case using Cons.IH [OF charge_usage_keys [OF Cons.prems(1)]] by (simp only: fold.simps o_apply)
qed simp

lemma used_at_member: "distinct (map usage_key rows) \<Longrightarrow> u \<in> set rows \<Longrightarrow> used_at rows (usage_key u) = qu_Used u"
  using filter_at [of usage_key rows u] by (simp add: used_at_sum)

text \<open>What a settlement charges a counter is what it names for the reservations of it.\<close>

lemma matching_amount:
  assumes "distinct (map fst actual)"
  shows "sum_list (map snd (filter (\<lambda>x. fst x = k) [(j, a). (ref, a) \<leftarrow> actual, ref = q \<and> a \<noteq> 0])) =
    (if j = k then (case map_of actual q of None \<Rightarrow> 0 | Some a \<Rightarrow> a) else (0 :: int))"
  using assms
proof (induction actual)
  case (Cons x actual)
  obtain ref a where x: "x = (ref, a)" by (cases x)
  show ?case
  proof (cases "ref = q")
    case True
    then have "map_of actual q = None" using Cons.prems by (auto simp: x map_of_eq_None_iff)
    with True Cons show ?thesis by (auto simp: x)
  next
    case False
    with Cons show ?thesis by (simp add: x)
  qed
qed simp

lemma actual_rows_params [simp]: "actual_rows (settle_params u i actual) = actual"
  by (induction actual) (auto simp: actual_rows_def settle_params_def)

lemma wanted_params [simp]: "wanted (reserve_params u r) = rsv_Charges r"
proof -
  have "map (\<lambda>(ns, pool, period, amount, limit).
        \<lparr>ch_Namespace = ns, ch_Pool = pool, ch_Period = period, ch_Amount = amount, ch_Limit = limit\<rparr>)
       (zip (map ch_Namespace cs) (zip (map ch_Pool cs) (zip (map ch_Period cs) (zip (map ch_Amount cs) (map ch_Limit cs))))) = cs" for cs
    by (induction cs) simp_all
  then show ?thesis by (simp add: wanted_def reserve_params_def)
qed

lemma settled_rows_sum:
  assumes "distinct (map fst actual)"
  shows "sum_list (map snd (filter (\<lambda>x. fst x = k) (settled_rows (settle_params u i actual) t))) =
    sum_list (map (\<lambda>r. case map_of actual (row_ref r) of None \<Rightarrow> 0 | Some a \<Rightarrow> a)
      (filter (\<lambda>r. qr_ExecutionID r = ID_String u i \<and> reservation_key r = k) (t_reservations t)))"
proof -
  have "sum_list (map snd (filter (\<lambda>x. fst x = k)
      (concat (map (\<lambda>r. concat (map (\<lambda>(ref, a). if ref = row_ref r \<and> a \<noteq> 0 then [(reservation_key r, a)] else []) actual)) rows)))) =
    sum_list (map (\<lambda>r. case map_of actual (row_ref r) of None \<Rightarrow> 0 | Some a \<Rightarrow> a) (filter (\<lambda>r. reservation_key r = k) rows))" for rows
  proof (induction rows)
    case (Cons r rows)
    then show ?case
      by (simp only: list.map concat.simps filter_append map_append sum_list.append matching_amount [OF assms]) simp
  qed simp
  moreover have "sq_ExecutionID (settle_params u i actual) = ID_String u i" by (simp add: settle_params_def)
  moreover have "filter (\<lambda>r. reservation_key r = k) (filter (\<lambda>r. qr_ExecutionID r = ID_String u i) (t_reservations t)) =
    filter (\<lambda>r. qr_ExecutionID r = ID_String u i \<and> reservation_key r = k) (t_reservations t)"
    by (simp add: conj_commute)
  ultimately show ?thesis by (simp only: settled_rows_def actual_rows_params)
qed

section \<open>Writes that keep the limits\<close>

text \<open>
  \<open>L\<close> is the limit of every counter and \<open>A\<close> what each execution is expected to cost each pool.  A
  reservation is honest when it charges just that, under the limits; a settlement is covered when it
  charges no more.
\<close>

definition honest_reserve :: "(Key \<Rightarrow> int) \<Rightarrow> (string \<Rightarrow> PoolRef \<Rightarrow> int) \<Rightarrow> UUID \<Rightarrow> Reservation \<Rightarrow> bool" where
  "honest_reserve L A u r \<longleftrightarrow>
     (\<forall>c \<in> set (rsv_Charges r). 0 \<le> ch_Amount c \<and> ch_Limit c \<le> L (chargeKey (rsv_Provider r) c) \<and>
       ch_Amount c = A (ID_String u (rsv_ID r)) (charge_ref c))"

definition covered_settle :: "(string \<Rightarrow> PoolRef \<Rightarrow> int) \<Rightarrow> UUID \<Rightarrow> ID \<Rightarrow> (PoolRef \<times> int) list \<Rightarrow> bool" where
  "covered_settle A u i actual \<longleftrightarrow> distinct (map fst actual) \<and>
     (\<forall>(ref, amount) \<in> set actual. 0 \<le> amount \<and> amount \<le> A (ID_String u i) ref)"

inductive quota_step ::
  "(Key \<Rightarrow> int) \<Rightarrow> (string \<Rightarrow> PoolRef \<Rightarrow> int) \<Rightarrow> 'w Db \<Rightarrow> UUID \<Rightarrow> Tables \<Rightarrow> Tables \<Rightarrow> bool"
  for L A db u where
  reserves: "honest_reserve L A u r \<Longrightarrow> Queries_ReserveQuota db (reserve_params u r) w t = Inr (n, t') \<Longrightarrow>
    quota_step L A db u t t'"
| settles: "covered_settle A u i actual \<Longrightarrow> Queries_SettleQuota db (settle_params u i actual) w t = Inr ((), t') \<Longrightarrow>
    quota_step L A db u t t'"
| elsewhere: "t_usage t' = t_usage t \<Longrightarrow> t_reservations t' = t_reservations t \<Longrightarrow> quota_step L A db u t t'"

definition quota_ok :: "(Key \<Rightarrow> int) \<Rightarrow> (string \<Rightarrow> PoolRef \<Rightarrow> int) \<Rightarrow> Tables \<Rightarrow> bool" where
  "quota_ok L A t \<longleftrightarrow> distinct (map usage_key (t_usage t)) \<and> (\<forall>row \<in> set (t_usage t). 0 \<le> qu_Used row) \<and>
     distinct (map reservation_pk (t_reservations t)) \<and>
     (\<forall>r \<in> set (t_reservations t). 0 \<le> qr_Amount r \<and> qr_Amount r = A (qr_ExecutionID r) (row_ref r)) \<and>
     (\<forall>k. charged t k \<le> L k)"

lemma quota_ok_bounds:
  assumes "quota_ok L A t"
  shows "0 \<le> used_at (t_usage t) k" "0 \<le> reserved_at (t_reservations t) k" "charged t k \<le> L k"
  using assms by (auto simp: quota_ok_def intro: used_at_nonneg reserved_at_nonneg)

lemma reservation_row_simps [simp]:
  "reservation_key (reservation_row db arg c) = chargeKey (pq_Provider arg) c"
  "row_ref (reservation_row db arg c) = charge_ref c" "qr_Amount (reservation_row db arg c) = ch_Amount c"
  "qr_ExecutionID (reservation_row db arg c) = pq_ExecutionID arg"
  "reservation_pk (reservation_row db arg c) = (pq_ExecutionID arg, ch_Namespace c, ch_Pool c)"
  by (simp_all add: reservation_row_def reservation_key_def chargeKey_def row_ref_def charge_ref_def reservation_pk_def)

lemma reserve_params_simps [simp]:
  "pq_Provider (reserve_params u r) = rsv_Provider r" "pq_ExecutionID (reserve_params u r) = ID_String u (rsv_ID r)"
  "pq_Periods (reserve_params u r) = map ch_Period (rsv_Charges r)"
  by (simp_all add: reserve_params_def)

lemma reserves_ok:
  assumes ok: "quota_ok L A t" and h: "honest_reserve L A u r"
    and res: "Queries_ReserveQuota db (reserve_params u r) w t = Inr (n, t')"
  shows "quota_ok L A t'"
proof (cases "\<exists>x \<in> set (rsv_Charges r). without_room t (rsv_Provider r) x")
  case True
  then have "t' = t" using res by (simp add: Queries_ReserveQuota_def Let_def)
  with ok show ?thesis by simp
next
  case False
  let ?p = "rsv_Provider r"
  let ?rows = "map (reservation_row db (reserve_params u r)) (rsv_Charges r)"
  have t': "t' = t\<lparr>t_reservations := t_reservations t @ ?rows\<rparr>" "distinct (map reservation_pk ?rows)"
    "reservation_pk ` set ?rows \<inter> reservation_pk ` set (t_reservations t) = {}"
    using res False by (auto simp: Queries_ReserveQuota_def Let_def simp del: map_map set_map split: if_splits)
  have keys: "distinct (map (chargeKey ?p) (rsv_Charges r))"
    using t'(2) by (auto simp: distinct_map inj_on_def chargeKey_def comp_def)
  have "charged t' k \<le> L k" for k
  proof (cases "\<exists>c \<in> set (rsv_Charges r). chargeKey ?p c = k")
    case True
    then obtain c where c: "c \<in> set (rsv_Charges r)" "k = chargeKey ?p c" by auto
    then have "filter (\<lambda>x. chargeKey ?p x = k) (rsv_Charges r) = [c]" using filter_at [OF keys c(1)] by simp
    then have "reserved_at ?rows k = ch_Amount c" by (simp add: reserved_at_def filter_map comp_def)
    then have "charged t' k = charged t k + ch_Amount c" by (simp add: charged_eq t')
    moreover have "\<not> without_room t ?p c" "0 \<le> ch_Amount c" "ch_Limit c \<le> L k"
      using False c h by (auto simp: honest_reserve_def)
    ultimately show ?thesis using quota_ok_bounds [OF ok, of k] c by (auto simp: without_room_def)
  next
    case none: False
    then have "reserved_at ?rows k = 0" by (simp add: reserved_at_def filter_map comp_def filter_empty_conv)
    then show ?thesis using quota_ok_bounds [OF ok, of k] by (simp add: charged_eq t')
  qed
  moreover have "\<forall>row \<in> set ?rows. 0 \<le> qr_Amount row \<and> qr_Amount row = A (qr_ExecutionID row) (row_ref row)"
    using h by (auto simp: honest_reserve_def)
  moreover have "distinct (map reservation_pk (t_reservations t @ ?rows))"
    using ok t'(2,3) by (simp only: quota_ok_def map_append distinct_append set_map) blast
  ultimately show ?thesis using ok by (auto simp: quota_ok_def t'(1) simp del: map_append distinct_append)
qed

lemma settles_ok:
  assumes ok: "quota_ok L A t" and c: "covered_settle A u i actual"
    and res: "Queries_SettleQuota db (settle_params u i actual) w t = Inr ((), t')"
  shows "quota_ok L A t'"
proof -
  let ?rows = "settled_rows (settle_params u i actual) t"
  let ?mine = "\<lambda>r. qr_ExecutionID r = ID_String u i"
  have id: "sq_ExecutionID (settle_params u i actual) = ID_String u i" by (simp add: settle_params_def)
  have t': "t_reservations t' = filter (\<lambda>r. \<not> ?mine r) (t_reservations t)"
    "t_usage t' = fold (charge_usage (db_clock db w)) ?rows (t_usage t)"
    using res by (auto simp: Queries_SettleQuota_def Let_def id split: if_splits)
  have d: "distinct (map fst actual)" "distinct (map usage_key (t_usage t))"
    using c ok by (simp_all add: covered_settle_def quota_ok_def)
  have amount: "0 \<le> (case map_of actual (row_ref r) of None \<Rightarrow> 0 | Some a \<Rightarrow> a) \<and>
      (case map_of actual (row_ref r) of None \<Rightarrow> 0 | Some a \<Rightarrow> a) \<le> qr_Amount r"
    if "r \<in> set (t_reservations t)" "?mine r" for r
    using that c ok by (fastforce simp: covered_settle_def quota_ok_def split: option.split dest: map_of_SomeD)
  have "charged t' k \<le> L k" for k
  proof -
    have "sum_list (map snd (filter (\<lambda>x. fst x = k) ?rows)) \<le>
        sum_list (map qr_Amount (filter (\<lambda>r. ?mine r \<and> reservation_key r = k) (t_reservations t)))"
      unfolding settled_rows_sum [OF d(1)] using amount by (intro sum_list_mono) auto
    moreover have "reserved_at (t_reservations t) k =
        sum_list (map qr_Amount (filter (\<lambda>r. ?mine r \<and> reservation_key r = k) (t_reservations t))) + reserved_at (t_reservations t') k"
      using sum_filter_split [of qr_Amount "\<lambda>r. reservation_key r = k" "t_reservations t" ?mine]
      by (simp add: reserved_at_def t' conj_commute)
    ultimately show ?thesis using quota_ok_bounds(3) [OF ok, of k] by (simp add: charged_eq t' fold_charge_usage(2) [OF d(2)])
  qed
  moreover have "\<forall>x \<in> set ?rows. 0 \<le> snd x"
    using c by (auto simp: settled_rows_def covered_settle_def split: if_splits)
  ultimately show ?thesis
    using ok fold_charge_usage(1) [OF d(2)] fold_charge_usage_nonneg [OF d(2)]
    by (auto simp: quota_ok_def t' intro: distinct_map_filter)
qed

lemma quota_step_ok:
  assumes "quota_step L A db u t t'" "quota_ok L A t" shows "quota_ok L A t'"
  using assms
proof (cases rule: quota_step.cases)
  case elsewhere
  then have same: "t_usage t' = t_usage t" "t_reservations t' = t_reservations t" "charged t' = charged t"
    by (simp_all add: charged_eq fun_eq_iff)
  show ?thesis using assms(2) unfolding quota_ok_def same .
qed (auto intro: reserves_ok settles_ok)

lemma quota_steps_ok: "(quota_step L A db u)\<^sup>*\<^sup>* t t' \<Longrightarrow> quota_ok L A t \<Longrightarrow> quota_ok L A t'"
  by (induction rule: rtranclp_induct) (auto dest: quota_step_ok)

section \<open>What is read\<close>

lemma summed_get:
  "map_of (summed rows) k = (if k \<in> fst ` set rows then Some (sum_list (map snd (filter (\<lambda>row. fst row = k) rows))) else None)"
proof -
  have "map_of (map (\<lambda>k. (k, f k)) ks) k = (if k \<in> set ks then Some (f k) else None)" for f :: "Key \<Rightarrow> int" and ks
    by (induction ks) auto
  then show ?thesis by (simp add: summed_def)
qed

lemma charged_rows_sum:
  assumes "distinct (map usage_key (t_usage t))" "key_Period k \<in> set periods"
  shows "sum_list (map snd (filter (\<lambda>row. fst row = k) (charged_rows periods t))) = charged t k"
proof -
  have "filter (\<lambda>u. qu_Period u \<in> set periods \<and> usage_key u = k) rows = filter (\<lambda>u. usage_key u = k) rows" for rows
    using assms(2) by (intro filter_cong) (auto simp: usage_key_def)
  moreover have "filter (\<lambda>r. qr_Period r \<in> set periods \<and> reservation_key r = k) rows = filter (\<lambda>r. reservation_key r = k) rows" for rows
    using assms(2) by (intro filter_cong) (auto simp: reservation_key_def)
  ultimately show ?thesis
    by (simp add: charged_rows_def filter_map comp_def charged_eq used_at_sum [OF assms(1)] reserved_at_def)
qed

lemma summed_distinct: "distinct (map fst (summed rows))"
  by (simp add: summed_def comp_def)

lemma usageFromRows_get: "distinct (map fst rows) \<Longrightarrow> usageFromRows rows k = map_of rows k"
proof -
  have "fold (\<lambda>(k, used) usage. usage(k \<mapsto> used)) rows m k = (case map_of rows k of None \<Rightarrow> m k | Some v \<Rightarrow> Some v)"
    if "distinct (map fst rows)" for m
    using that
  proof (induction rows arbitrary: m)
    case (Cons r rows)
    then have "map_of rows (fst r) = None" by (simp add: map_of_eq_None_iff)
    with Cons show ?case by (cases r) (auto split: option.split)
  qed simp
  then show "distinct (map fst rows) \<Longrightarrow> usageFromRows rows k = map_of rows k"
    by (simp add: usageFromRows_def split: option.split)
qed

text \<open>A reading is the account itself: what was settled and what is reserved, exactly.\<close>

lemma ReadQuotaUsage_charged:
  assumes "distinct (map usage_key (t_usage t))" "Queries_ReadQuotaUsage periods w t = Inr (rows, t')"
    "key_Period k \<in> set periods"
  shows "mget (usageFromRows rows) k = charged t k"
proof -
  have rows: "rows = summed (charged_rows periods t)"
    using assms(2) by (auto simp: Queries_ReadQuotaUsage_def Let_def split: if_splits)
  show ?thesis
  proof (cases "k \<in> fst ` set (charged_rows periods t)")
    case True
    then show ?thesis using charged_rows_sum [OF assms(1,3)]
      by (simp add: rows mget_def usageFromRows_get [OF summed_distinct] summed_get)
  next
    case False
    then have "filter (\<lambda>row. fst row = k) (charged_rows periods t) = []" by (auto simp: filter_empty_conv)
    with False show ?thesis using charged_rows_sum [OF assms(1,3)]
      by (simp add: rows mget_def usageFromRows_get [OF summed_distinct] summed_get)
  qed
qed

lemma reading_Inr: "reading db s f = Inr a \<longleftrightarrow> db_read db (pg_env s) = None \<and> f (pg_tables s) = Inr a"
  by (auto simp: reading_def split: option.split sum.split)

lemma Pg_ReadUsage_charged:
  assumes "quota_ok L A (pg_tables s)" "Pg_ReadUsage db periods s = Inr usage" "key_Period k \<in> set periods"
  shows "mget usage k = charged (pg_tables s) k"
  using assms ReadQuotaUsage_charged [of "pg_tables s" periods "pg_env s"]
  by (auto simp: Pg_ReadUsage_def listed_def quota_ok_def reading_Inr split: if_splits sum.splits)

section \<open>Whole writes\<close>

interpretation quota: table_relation "(quota_step L A db u)\<^sup>*\<^sup>*" for L A db u
  by unfold_locales auto

text \<open>The closures of the quota store, as steps; the settlements of a reaper are those its callback answers.\<close>

lemma ReadQuotaUsage_tables: "Queries_ReadQuotaUsage periods w t = Inr (rows, t') \<Longrightarrow> t' = t"
  by (auto simp: Queries_ReadQuotaUsage_def Let_def split: if_splits)

lemma Pg_Reserve_steps:
  assumes "\<And>w t. (quota_step L A db u)\<^sup>*\<^sup>* t (db_others db w t)" "honest_reserve L A u r" "Pg_Reserve db u r s = (res, s')"
  shows "(quota_step L A db u)\<^sup>*\<^sup>* (pg_tables s) (pg_tables s')"
proof -
  obtain fn out where w: "writing db fn (False, Map.empty) s = (out, s')"
    and fn: "fn = statement db (Queries_ReserveQuota db (reserve_params u r)) (\<lambda>err. Formatted ''reserve: %w'' [] [err])
      (\<lambda>inserted. do {
         assign (\<lambda>(fits, standing). (0 < inserted, standing));
         (if 0 < inserted then ret None
          else statement db (Queries_ReadQuotaUsage (pq_Periods (reserve_params u r))) (\<lambda>err. Formatted ''read usage: %w'' [] [err])
            (\<lambda>rows. do { assign (\<lambda>(fits, standing). (fits, usageFromRows rows)); ret None }))
       })"
    using assms(3) by (auto simp: Pg_Reserve_def Let_def simp del: reserve_params_simps split: prod.splits option.splits)
  have "(quota_step L A db u)\<^sup>*\<^sup>* (tx_tables a) (tx_tables b)" if "run_state fn a = (err, b)" for a err b
    using that unfolding fn
    by (rule quota.statement_related [rotated 2])
      (auto intro: quota_step.reserves [OF assms(2)] dest!: statement_run ReadQuotaUsage_tables split: if_splits)
  then show ?thesis by (rule quota.writing_related [OF _ assms(1) w])
qed

lemma settleOne_steps:
  assumes "covered_settle A u i actual" "run_state (settleOne db u i actual) s = (err, t)"
  shows "(quota_step L A db u)\<^sup>*\<^sup>* (tx_tables s) (tx_tables t)"
  using assms(2) unfolding settleOne_def
  by (rule quota.statement_related [rotated 2]) (auto intro: quota_step.settles [OF assms(1)])

lemma Pg_Settle_steps:
  assumes "\<And>w t. (quota_step L A db u)\<^sup>*\<^sup>* t (db_others db w t)" "covered_settle A u i actual"
    "Pg_Settle db u i actual s = (res, s')"
  shows "(quota_step L A db u)\<^sup>*\<^sup>* (pg_tables s) (pg_tables s')"
proof -
  obtain out where w: "writing db (settleOne db u i actual) () s = (out, s')"
    using assms(3) by (auto simp: Pg_Settle_def apfst_def map_prod_def split: prod.splits)
  show ?thesis by (rule quota.writing_related [OF settleOne_steps [OF assms(2)] assms(1) w])
qed

lemma reap_held_steps:
  assumes "\<And>h c actual c'. settle h c = (Some actual, c') \<Longrightarrow> covered_settle A u (held_ID h) actual"
  shows "run_state (reap_held db u settle hs) s = (err, t) \<Longrightarrow> (quota_step L A db u)\<^sup>*\<^sup>* (tx_tables s) (tx_tables t)"
proof (induction hs arbitrary: s)
  case (Cons h hs)
  obtain answer c where a: "settle h (snd (tx_vars s)) = (answer, c)" by fastforce
  let ?s = "s\<lparr>tx_vars := (fst (tx_vars s), c)\<rparr>"
  show ?case
  proof (cases answer)
    case None
    with a Cons.prems have "run_state (reap_held db u settle hs) ?s = (err, t)" by simp
    then show ?thesis using Cons.IH by fastforce
  next
    case (Some actual)
    obtain serr s1 where one: "run_state (settleOne db u (held_ID h) actual) ?s = (serr, s1)" by fastforce
    have step: "(quota_step L A db u)\<^sup>*\<^sup>* (tx_tables s) (tx_tables s1)"
      using settleOne_steps [OF assms one] a Some by fastforce
    show ?thesis
    proof (cases serr)
      case (Some e)
      with a \<open>answer = Some actual\<close> one Cons.prems step show ?thesis by simp
    next
      case None
      with a Some one Cons.prems have
        "run_state (reap_held db u settle hs) (s1\<lparr>tx_vars := apfst (\<lambda>reaped. reaped + 1) (tx_vars s1)\<rparr>) = (err, t)" by simp
      from Cons.IH [OF this] step show ?thesis by simp
    qed
  qed
qed simp

lemma Pg_Reap_steps:
  assumes "\<And>w t. (quota_step L A db u)\<^sup>*\<^sup>* t (db_others db w t)"
    and "\<And>h c actual c'. settle h c = (Some actual, c') \<Longrightarrow> covered_settle A u (held_ID h) actual"
    and "Pg_Reap db u before settle s c = (res, s', c')"
  shows "(quota_step L A db u)\<^sup>*\<^sup>* (pg_tables s) (pg_tables s')"
proof -
  obtain fn out where w: "writing db fn (0, c) s = (out, s')"
    and fn: "fn = do {
       assign (apfst (\<lambda>_. 0));
       statement db (Queries_ClaimStaleReservations db before) (\<lambda>err. Formatted ''claim: %w'' [] [err])
         (\<lambda>rows. case heldFromRows u rows of
            Inl err \<Rightarrow> ret (Some err)
          | Inr groups \<Rightarrow> reap_held db u settle groups) }"
    using assms(3) by (auto simp: Pg_Reap_def Let_def split: prod.splits)
  have "(quota_step L A db u)\<^sup>*\<^sup>* (tx_tables a) (tx_tables b)" if "run_state fn a = (err, b)" for a err b
  proof -
    from that have "run_state (statement db (Queries_ClaimStaleReservations db before) (\<lambda>err. Formatted ''claim: %w'' [] [err])
       (\<lambda>rows. case heldFromRows u rows of
          Inl err \<Rightarrow> ret (Some err)
        | Inr groups \<Rightarrow> reap_held db u settle groups)) (a\<lparr>tx_vars := apfst (\<lambda>_. 0) (tx_vars a)\<rparr>) = (err, b)"
      by (simp add: fn)
    then have "(quota_step L A db u)\<^sup>*\<^sup>* (tx_tables (a\<lparr>tx_vars := apfst (\<lambda>_. 0) (tx_vars a)\<rparr>)) (tx_tables b)"
    proof (rule quota.statement_related [rotated 2])
      fix rows s r t
      assume "run_state (case heldFromRows u rows of Inl err \<Rightarrow> ret (Some err) | Inr groups \<Rightarrow> reap_held db u settle groups) s = (r, t)"
      then show "(quota_step L A db u)\<^sup>*\<^sup>* (tx_tables s) (tx_tables t)"
        by (cases "heldFromRows u rows") (auto intro: reap_held_steps [OF assms(2)])
    qed (auto simp: Queries_ClaimStaleReservations_def)
    then show ?thesis by simp
  qed
  then show ?thesis by (rule quota.writing_related [OF _ assms(1) w])
qed

text \<open>What one process's writes and everyone else's lead to.\<close>

inductive quota_reach ::
  "(Key \<Rightarrow> int) \<Rightarrow> (string \<Rightarrow> PoolRef \<Rightarrow> int) \<Rightarrow> 'w Db \<Rightarrow> UUID \<Rightarrow> 'w Pg \<Rightarrow> bool" for L A db u where
  empty: "t_usage (pg_tables s) = [] \<Longrightarrow> t_reservations (pg_tables s) = [] \<Longrightarrow> quota_reach L A db u s"
| reserves: "quota_reach L A db u s \<Longrightarrow> honest_reserve L A u r \<Longrightarrow> Pg_Reserve db u r s = (res, s') \<Longrightarrow> quota_reach L A db u s'"
| settles: "quota_reach L A db u s \<Longrightarrow> covered_settle A u i actual \<Longrightarrow> Pg_Settle db u i actual s = (err, s') \<Longrightarrow>
    quota_reach L A db u s'"
| reaps: "quota_reach L A db u s \<Longrightarrow>
    (\<And>h c actual c'. settle h c = (Some actual, c') \<Longrightarrow> covered_settle A u (held_ID h) actual) \<Longrightarrow>
    Pg_Reap db u before settle s (c :: unit) = (out, s', c') \<Longrightarrow> quota_reach L A db u s'"
| meanwhile: "quota_reach L A db u s \<Longrightarrow> quota_step L A db u (pg_tables s) t \<Longrightarrow> quota_reach L A db u (s\<lparr>pg_tables := t\<rparr>)"

lemma quota_reach_ok:
  assumes "quota_reach L A db u s" "\<And>k. 0 \<le> L k" "\<And>w t. (quota_step L A db u)\<^sup>*\<^sup>* t (db_others db w t)"
  shows "quota_ok L A (pg_tables s)"
  using assms(1)
proof (induction rule: quota_reach.induct)
  case (empty s)
  with assms(2) show ?case by (simp add: quota_ok_def charged_eq used_at_def reserved_at_def)
next
  case (reserves s r res s')
  show ?case by (rule quota_steps_ok [OF Pg_Reserve_steps [OF assms(3) reserves.hyps(2,3)] reserves.IH])
next
  case (settles s i actual err s')
  show ?case by (rule quota_steps_ok [OF Pg_Settle_steps [OF assms(3) settles.hyps(2,3)] settles.IH])
next
  case (reaps s settle before c out s' c')
  show ?case by (rule quota_steps_ok [OF Pg_Reap_steps [OF assms(3) reaps.hyps(2,3)] reaps.IH])
next
  case (meanwhile s t)
  then show ?case by (auto dest: quota_step_ok)
qed

section \<open>Property\<close>

text \<open>C4. The database never overdraws free quota either, while executions reserve what they go on to use: from empty
  tables, through reservations by this process that charge each pool what the execution is to cost it, under
  no more than the pool's limit, settlements and reaping that charge no more than was reserved, transactions
  that fail and are retried, and any number of other processes that write in the same way, every counter's
  settled and reserved usage stays between zero and its limit, and is what is read.  (What no limit binds, a
  job that pays or a settlement above its reservation, may pass the limit in the code, and is left out.)\<close>

theorem database_limits_never_passed:
  assumes "quota_reach L A db u s" "\<And>k. 0 \<le> L k" "\<And>w t. (quota_step L A db u)\<^sup>*\<^sup>* t (db_others db w t)"
  shows "0 \<le> charged (pg_tables s) k \<and> charged (pg_tables s) k \<le> L k \<and>
    (\<forall>periods usage. Pg_ReadUsage db periods s = Inr usage \<longrightarrow> key_Period k \<in> set periods \<longrightarrow>
      mget usage k = charged (pg_tables s) k)"
proof -
  have ok: "quota_ok L A (pg_tables s)" by (rule quota_reach_ok [OF assms])
  from quota_ok_bounds [OF ok, of k] Pg_ReadUsage_charged [OF ok] show ?thesis by (simp add: charged_eq)
qed

definition row_uuid :: UUID where
  "row_uuid = \<lparr>uu_Parse = (\<lambda>s. if s = ''9'' then Inr 9 else Inl ''invalid UUID length''), uu_String = (\<lambda>i. ''9''),
     uu_Created = (\<lambda>i. 1)\<rparr>"

definition sample_reservation :: Reservation where
  "sample_reservation = \<lparr>rsv_ID = 9, rsv_Provider = ''p'', rsv_CPU = 0, rsv_Memory = 0, rsv_Created = 1,
     rsv_Charges = [\<lparr>ch_Namespace = [], ch_Pool = ''runs'', ch_Period = ''d'', ch_Amount = 3, ch_Limit = 10\<rparr>]\<rparr>"

lemma sample_reserved:
  "t_reservations (pg_tables (snd (Pg_Reserve sample_db row_uuid sample_reservation sample_pg))) =
     [\<lparr>qr_ExecutionID = ''9'', qr_Provider = ''p'', qr_Pool = ''runs'', qr_Period = ''d'', qr_Amount = 3, qr_Cpu = 0,
       qr_Memory = 0, qr_CreatedAt = 1, qr_Namespace = []\<rparr>]"
  by code_simp

theorem database_limits_never_passed_witness:
  "charged (pg_tables (snd (Pg_Reserve sample_db row_uuid sample_reservation sample_pg)))
     \<lparr>key_Namespace = [], key_Provider = ''p'', key_Pool = ''runs'', key_Period = ''d''\<rparr> \<le> 10 \<and>
   t_reservations (pg_tables (snd (Pg_Reserve sample_db row_uuid sample_reservation sample_pg))) \<noteq> []"
proof -
  let ?s = "snd (Pg_Reserve sample_db row_uuid sample_reservation sample_pg)"
  have "honest_reserve (\<lambda>k. 10) (\<lambda>i ref. 3) row_uuid sample_reservation"
    by (simp add: honest_reserve_def sample_reservation_def)
  moreover have "quota_reach (\<lambda>k. 10) (\<lambda>i ref. 3) sample_db row_uuid sample_pg"
    by (rule quota_reach.empty) (simp_all add: sample_pg_def)
  ultimately have "quota_reach (\<lambda>k. 10) (\<lambda>i ref. 3) sample_db row_uuid ?s"
    by (metis quota_reach.reserves surjective_pairing)
  from database_limits_never_passed [OF this] show ?thesis by (simp add: sample_reserved) (simp add: sample_db_def)
qed

end
