(* ===== verification/PgStore.thy ===== *)
theory PgStore
  imports Transactions
begin

text \<open>
  Executions and dispatches in the database.  A row reads back as the record that was written, to the
  precision of its columns; read through that, every write does to the rows what the memory store does to
  its records.
\<close>

section \<open>What a row keeps\<close>

definition uuid_ok :: "UUID \<Rightarrow> bool" where
  "uuid_ok u \<longleftrightarrow> (\<forall>i. uu_Parse u (uu_String u i) = Inr i \<and> uu_String u i \<noteq> [])"

lemma ID_String_eq: "uuid_ok u \<Longrightarrow> ID_String u i = ID_String u j \<longleftrightarrow> i = j"
  by (metis ID_String_def sum.inject(2) uuid_ok_def)

lemma ParseID_String [simp]: "uuid_ok u \<Longrightarrow> ParseID u (ID_String u i) = Inr i"
  by (simp add: ParseID_def ID_String_def uuid_ok_def)

lemma ID_String_nonempty [simp]: "uuid_ok u \<Longrightarrow> ID_String u i \<noteq> []"
  by (simp add: ID_String_def uuid_ok_def)

definition kept_time :: "'w Db \<Rightarrow> Time \<Rightarrow> Time" where
  "kept_time db t = (if Time_IsZero t then 0 else db_time db t)"

definition kept_duration :: "Duration \<Rightarrow> Duration" where
  "kept_duration d = wrap64 (Milliseconds d * Millisecond)"

definition kept_result :: "ID \<Rightarrow> Result \<Rightarrow> Result" where
  "kept_result i res = res\<lparr>res_ID := i, res_Duration := kept_duration (res_Duration res),
     res_Billed := map_option (\<lambda>b. b\<lparr>ex_Duration := kept_duration (ex_Duration b)\<rparr>) (res_Billed res)\<rparr>"

definition kept :: "'w Db \<Rightarrow> Record \<Rightarrow> Record" where
  "kept db r = r\<lparr>st_StartedAt := kept_time db (st_StartedAt r), st_EndedAt := kept_time db (st_EndedAt r),
     st_UpdatedAt := db_time db (st_UpdatedAt r), rec_Released := kept_time db (rec_Released r),
     rec_Result := map_option (kept_result (st_ID r)) (Bounded (rec_Result r))\<rparr>"

lemma Deref_null [simp]: "Deref 0 (map_option (db_time db) (nullTime t)) = kept_time db t"
  by (simp add: Deref_def nullTime_def kept_time_def)

lemma optional_id_row [simp]:
  "uuid_ok u \<Longrightarrow> optional_id u c (if i = 0 then [] else ID_String u i) = Inr i"
  by (simp add: optional_id_def)

lemma rowOf_fields [simp]:
  "xr_ID (rowOf u r) = ID_String u (st_ID r)" "xr_Namespace (rowOf u r) = rec_Namespace r" "xr_Job (rowOf u r) = rec_Job r"
  "xr_JobVersion (rowOf u r) = rec_JobVersion r" "xr_Task (rowOf u r) = rec_Task r" "xr_Provider (rowOf u r) = rec_Provider r"
  "xr_Attempt (rowOf u r) = rec_Attempt r" "xr_State (rowOf u r) = st_State r" "xr_ProviderID (rowOf u r) = st_ProviderID r"
  "xr_Failure (rowOf u r) = rec_Failure r" "xr_StartedAt (rowOf u r) = nullTime (st_StartedAt r)"
  "xr_EndedAt (rowOf u r) = nullTime (st_EndedAt r)" "xr_UpdatedAt (rowOf u r) = st_UpdatedAt r"
  "xr_Cpu (rowOf u r) = rec_CPU r" "xr_Memory (rowOf u r) = rec_Memory r" "xr_ReleasedAt (rowOf u r) = nullTime (rec_Released r)"
  "xr_PreviousID (rowOf u r) = (if rec_Previous r = 0 then [] else ID_String u (rec_Previous r))"
  "xr_DispatchID (rowOf u r) = (if rec_Dispatch r = 0 then [] else ID_String u (rec_Dispatch r))"
  by (simp_all add: rowOf_def Let_def ID_IsZero_def split: option.split)

lemma stored_row_fields [simp]:
  "xr_ID (stored_row db row) = xr_ID row" "xr_Namespace (stored_row db row) = xr_Namespace row"
  "xr_Job (stored_row db row) = xr_Job row" "xr_JobVersion (stored_row db row) = xr_JobVersion row"
  "xr_Task (stored_row db row) = xr_Task row" "xr_Provider (stored_row db row) = xr_Provider row"
  "xr_Attempt (stored_row db row) = xr_Attempt row" "xr_State (stored_row db row) = xr_State row"
  "xr_ProviderID (stored_row db row) = xr_ProviderID row" "xr_Failure (stored_row db row) = xr_Failure row"
  "xr_StartedAt (stored_row db row) = map_option (db_time db) (xr_StartedAt row)"
  "xr_EndedAt (stored_row db row) = map_option (db_time db) (xr_EndedAt row)"
  "xr_UpdatedAt (stored_row db row) = db_time db (xr_UpdatedAt row)"
  "xr_ReleasedAt (stored_row db row) = map_option (db_time db) (xr_ReleasedAt row)"
  "xr_Cpu (stored_row db row) = xr_Cpu row" "xr_Memory (stored_row db row) = xr_Memory row"
  "xr_ExitCode (stored_row db row) = xr_ExitCode row" "xr_DurationMs (stored_row db row) = xr_DurationMs row"
  "xr_BilledCpu (stored_row db row) = xr_BilledCpu row" "xr_BilledMemory (stored_row db row) = xr_BilledMemory row"
  "xr_BilledMs (stored_row db row) = xr_BilledMs row" "xr_Logs (stored_row db row) = xr_Logs row"
  "xr_LogsTruncated (stored_row db row) = xr_LogsTruncated row"
  "xr_PreviousID (stored_row db row) = xr_PreviousID row" "xr_DispatchID (stored_row db row) = xr_DispatchID row"
  by (simp_all add: stored_row_def)

lemma result_of_stored [simp]: "result_of i (stored_row db row) = result_of i row"
  by (cases "xr_DurationMs row"; cases "xr_BilledMs row") (simp_all add: result_of_def)

lemma result_of_rowOf [simp]: "result_of i (rowOf u r) = map_option (kept_result i) (Bounded (rec_Result r))"
  by (cases "Bounded (rec_Result r)")
    (auto simp: rowOf_def Let_def result_of_def kept_result_def kept_duration_def Deref_def split: option.split)

text \<open>A row is read back as what it keeps of the record it was made of.\<close>

lemma recordOf_stored: "uuid_ok u \<Longrightarrow> recordOf u (stored_row db (rowOf u r)) = Inr (kept db r)"
  by (simp add: recordOf_def optional_id_def kept_def)

section \<open>Rows as the records of a memory store\<close>

definition record_at :: "UUID \<Rightarrow> ExecutionRow \<Rightarrow> Record" where
  "record_at u row = (case recordOf u row of Inr r \<Rightarrow> r)"

definition row_ok :: "UUID \<Rightarrow> ExecutionRow \<Rightarrow> bool" where
  "row_ok u row \<longleftrightarrow> (\<exists>r. recordOf u row = Inr r \<and> ID_String u (st_ID r) = xr_ID row \<and> clone r = r)"

definition dispatch_at :: "UUID \<Rightarrow> DispatchRow \<Rightarrow> Dispatch" where
  "dispatch_at u row = (case dispatchRow_of u row of Inr d \<Rightarrow> d)"

definition dispatch_row_ok :: "UUID \<Rightarrow> DispatchRow \<Rightarrow> bool" where
  "dispatch_row_ok u row \<longleftrightarrow> (\<exists>d. dispatchRow_of u row = Inr d \<and> ID_String u (dis_ID d) = gr_DispatchID row)"

definition rows_ok :: "UUID \<Rightarrow> Tables \<Rightarrow> bool" where
  "rows_ok u t \<longleftrightarrow> list_all (row_ok u) (t_executions t) \<and> distinct (map xr_ID (t_executions t)) \<and>
     list_all (dispatch_row_ok u) (t_dispatches t) \<and> distinct (map gr_DispatchID (t_dispatches t))"

definition execs_of :: "UUID \<Rightarrow> Tables \<Rightarrow> ExecMemory" where
  "execs_of u t =
     \<lparr>em_dispatches = map (\<lambda>row. (dis_ID (dispatch_at u row), dispatch_at u row)) (t_dispatches t),
      em_records = map (\<lambda>row. (st_ID (record_at u row), record_at u row)) (t_executions t)\<rparr>"

lemma record_at_eq: "recordOf u row = Inr r \<Longrightarrow> record_at u row = r"
  by (simp add: record_at_def)

lemma dispatch_at_eq: "dispatchRow_of u row = Inr d \<Longrightarrow> dispatch_at u row = d"
  by (simp add: dispatch_at_def)

lemma row_ok_id: "uuid_ok u \<Longrightarrow> row_ok u row \<Longrightarrow> ID_String u (st_ID (record_at u row)) = xr_ID row"
  by (auto simp: row_ok_def record_at_eq)

lemma dispatch_row_ok_id: "uuid_ok u \<Longrightarrow> dispatch_row_ok u row \<Longrightarrow> ID_String u (dis_ID (dispatch_at u row)) = gr_DispatchID row"
  by (auto simp: dispatch_row_ok_def dispatch_at_eq)

text \<open>Rows and records: the same keys in the same places.\<close>

lemma map_of_rows:
  assumes "\<And>row. row \<in> set rows \<Longrightarrow> key row = f (fst (entry row))" "inj f"
  shows "map_of (map entry rows) i = map_option (snd \<circ> entry) (find_first (\<lambda>row. key row = f i) rows)"
  using assms
proof (induction rows)
  case (Cons row rows)
  have "key row = f i \<longleftrightarrow> fst (entry row) = i" using Cons.prems by (auto dest: injD)
  with Cons show ?case by (cases "entry row") (auto simp: fun_upd_def)
qed simp

lemma update_rows:
  assumes "\<And>row. row \<in> set rows \<Longrightarrow> key row = f (fst (entry row))" "inj f" "distinct (map key rows)"
    and "row \<in> set rows" "key row = f i" "entry (g row) = (i, v)"
  shows "map entry (updated (\<lambda>row. key row = f i) g rows) = AList.update i v (map entry rows)"
  using assms
proof (induction rows)
  case (Cons x rows)
  have x: "key x = f i \<longleftrightarrow> fst (entry x) = i" using Cons.prems(1,2) by (auto dest: injD)
  show ?case
  proof (cases "key x = f i")
    case True
    then have "x = row" using Cons.prems(3,4,5) by auto (metis image_eqI)
    moreover have "updated (\<lambda>row. key row = f i) g rows = rows"
      using Cons.prems(3) True unfolding updated_def by (intro map_idI) (auto, metis image_eqI)
    ultimately show ?thesis using True x Cons.prems(6) by (cases "entry x") (auto simp: updated_def)
  next
    case False
    then have "row \<in> set rows" using Cons.prems(4,5) by auto
    with Cons have "map entry (updated (\<lambda>row. key row = f i) g rows) = AList.update i v (map entry rows)" by simp
    with False x show ?thesis by (cases "entry x") (auto simp: updated_def)
  qed
qed simp

section \<open>Statements on rows, writes on records\<close>

lemma Bounded_Bounded: "Bounded (map_option (kept_result i) (Bounded x)) = map_option (kept_result i) (Bounded x)"
  by (auto simp: Bounded_def kept_result_def split: option.split)

lemma clone_kept [simp]: "clone (kept db r) = kept db r"
  by (simp add: clone_def kept_def Bounded_Bounded)

lemma kept_simps [simp]: "st_ID (kept db r) = st_ID r" "st_State (kept db r) = st_State r"
  by (simp_all add: kept_def)

definition same_execution :: "Record \<Rightarrow> Record \<Rightarrow> bool" where
  "same_execution r old \<longleftrightarrow> rec_Namespace r = rec_Namespace old \<and> rec_Job r = rec_Job old \<and>
     rec_JobVersion r = rec_JobVersion old \<and> rec_Dispatch r = rec_Dispatch old \<and> rec_Task r = rec_Task old \<and>
     rec_Provider r = rec_Provider old \<and> rec_Attempt r = rec_Attempt old \<and> rec_Previous r = rec_Previous old \<and>
     rec_CPU r = rec_CPU old \<and> rec_Memory r = rec_Memory old"

lemma set_execution_fields [simp]:
  "xr_ID (set_execution db arg row) = xr_ID row" "xr_Namespace (set_execution db arg row) = xr_Namespace row"
  "xr_Job (set_execution db arg row) = xr_Job row" "xr_JobVersion (set_execution db arg row) = xr_JobVersion row"
  "xr_Task (set_execution db arg row) = xr_Task row" "xr_Provider (set_execution db arg row) = xr_Provider row"
  "xr_Attempt (set_execution db arg row) = xr_Attempt row" "xr_PreviousID (set_execution db arg row) = xr_PreviousID row"
  "xr_DispatchID (set_execution db arg row) = xr_DispatchID row" "xr_Cpu (set_execution db arg row) = xr_Cpu row"
  "xr_Memory (set_execution db arg row) = xr_Memory row" "xr_ReleasedAt (set_execution db arg row) = xr_ReleasedAt row"
  "xr_State (set_execution db arg row) = ux_State arg" "xr_ProviderID (set_execution db arg row) = ux_ProviderID arg"
  "xr_Failure (set_execution db arg row) = ux_Failure arg"
  "xr_StartedAt (set_execution db arg row) = map_option (db_time db) (ux_StartedAt arg)"
  "xr_EndedAt (set_execution db arg row) = map_option (db_time db) (ux_EndedAt arg)"
  "xr_UpdatedAt (set_execution db arg row) = db_time db (ux_UpdatedAt arg)"
  "xr_ExitCode (set_execution db arg row) = ux_ExitCode arg" "xr_DurationMs (set_execution db arg row) = ux_DurationMs arg"
  "xr_BilledCpu (set_execution db arg row) = ux_BilledCpu arg" "xr_BilledMemory (set_execution db arg row) = ux_BilledMemory arg"
  "xr_BilledMs (set_execution db arg row) = ux_BilledMs arg" "xr_Logs (set_execution db arg row) = ux_Logs arg"
  "xr_LogsTruncated (set_execution db arg row) = ux_LogsTruncated arg"
  by (simp_all add: set_execution_def)

lemma update_params_fields [simp]:
  "ux_ID (update_params u r from_state) = ID_String u (st_ID r)" "ux_FromState (update_params u r from_state) = from_state"
  "ux_State (update_params u r from_state) = st_State r" "ux_ProviderID (update_params u r from_state) = st_ProviderID r"
  "ux_Failure (update_params u r from_state) = rec_Failure r" "ux_StartedAt (update_params u r from_state) = nullTime (st_StartedAt r)"
  "ux_EndedAt (update_params u r from_state) = nullTime (st_EndedAt r)" "ux_UpdatedAt (update_params u r from_state) = st_UpdatedAt r"
  by (simp_all add: update_params_def Let_def)

lemma result_of_set [simp]: "result_of i (set_execution db (update_params u r from_state) row) =
    map_option (kept_result i) (Bounded (rec_Result r))"
proof -
  let ?s = "set_execution db (update_params u r from_state) row"
  have "xr_ExitCode ?s = xr_ExitCode (rowOf u r)" "xr_DurationMs ?s = xr_DurationMs (rowOf u r)"
    "xr_BilledCpu ?s = xr_BilledCpu (rowOf u r)" "xr_BilledMemory ?s = xr_BilledMemory (rowOf u r)"
    "xr_BilledMs ?s = xr_BilledMs (rowOf u r)" "xr_Logs ?s = xr_Logs (rowOf u r)" "xr_LogsTruncated ?s = xr_LogsTruncated (rowOf u r)"
    by (simp_all add: update_params_def Let_def)
  then have "result_of i ?s = result_of i (rowOf u r)" by (simp only: result_of_def)
  then show ?thesis by simp
qed

lemma recordOf_Inr:
  "recordOf u row = Inr r \<longleftrightarrow> (\<exists>previous dispatch. ParseID u (xr_ID row) = Inr (st_ID r) \<and>
     optional_id u ''previous'' (xr_PreviousID row) = Inr previous \<and> optional_id u ''dispatch'' (xr_DispatchID row) = Inr dispatch \<and>
     r = \<lparr>st_ID = st_ID r, st_State = xr_State row, st_ProviderID = xr_ProviderID row,
       st_StartedAt = Deref 0 (xr_StartedAt row), st_EndedAt = Deref 0 (xr_EndedAt row),
       st_UpdatedAt = xr_UpdatedAt row, rec_Namespace = xr_Namespace row, rec_Job = xr_Job row,
       rec_JobVersion = xr_JobVersion row, rec_Dispatch = dispatch, rec_Task = xr_Task row,
       rec_Provider = xr_Provider row, rec_Attempt = xr_Attempt row, rec_Previous = previous,
       rec_CPU = xr_Cpu row, rec_Memory = xr_Memory row, rec_Result = result_of (st_ID r) row,
       rec_Failure = xr_Failure row, rec_Released = Deref 0 (xr_ReleasedAt row)\<rparr>)"
  by (auto simp: recordOf_def split: sum.splits)

lemma recordOf_state: "recordOf u row = Inr r \<Longrightarrow> st_State r = xr_State row"
  by (auto simp: recordOf_def split: sum.splits)

lemma dispatchRow_of_fields: "dispatchRow_of u row = Inr d \<Longrightarrow> dis_State d = gr_State row \<and> dis_Owner d = gr_Owner row \<and>
    dis_LeaseUntil d = gr_LeaseUntil row"
  by (auto simp: dispatchRow_of_def split: sum.splits)

lemma dispatchRow_finished:
  "dispatchRow_of u row = Inr d \<Longrightarrow> dispatchRow_of u (row\<lparr>gr_State := s, gr_Error := e, gr_EndedAt := t\<rparr>) =
    Inr (d\<lparr>dis_State := s, dis_Error := e, dis_Ended := Deref 0 t\<rparr>)"
  by (auto simp: dispatchRow_of_def split: sum.splits)

lemma dispatchRow_renewed:
  "dispatchRow_of u row = Inr d \<Longrightarrow> dispatchRow_of u (row\<lparr>gr_LeaseUntil := t\<rparr>) = Inr (d\<lparr>dis_LeaseUntil := t\<rparr>)"
  by (auto simp: dispatchRow_of_def split: sum.splits)

text \<open>An update writes the columns that change, and leaves when the row was released.\<close>

lemma recordOf_set:
  assumes "recordOf u row = Inr old" "same_execution r old" "ID_String u (st_ID r) = xr_ID row" "uuid_ok u"
  shows "recordOf u (set_execution db (update_params u r from_state) row) = Inr ((kept db r)\<lparr>rec_Released := rec_Released old\<rparr>)"
proof -
  obtain previous dispatch where old: "ParseID u (xr_ID row) = Inr (st_ID old)"
    "optional_id u ''previous'' (xr_PreviousID row) = Inr previous" "optional_id u ''dispatch'' (xr_DispatchID row) = Inr dispatch"
    "rec_Previous old = previous" "rec_Dispatch old = dispatch" "rec_Namespace old = xr_Namespace row" "rec_Job old = xr_Job row"
    "rec_JobVersion old = xr_JobVersion row" "rec_Task old = xr_Task row" "rec_Provider old = xr_Provider row"
    "rec_Attempt old = xr_Attempt row" "rec_CPU old = xr_Cpu row" "rec_Memory old = xr_Memory row"
    "rec_Released old = Deref 0 (xr_ReleasedAt row)"
    using assms(1) unfolding recordOf_Inr by (metis Record.select_convs)
  have id: "ParseID u (xr_ID row) = Inr (st_ID r)" using assms(4) by (simp flip: assms(3))
  show ?thesis
    using assms(2) old by (simp add: recordOf_def id kept_def same_execution_def)
qed

lemma recordOf_mark:
  "recordOf u row = Inr old \<Longrightarrow> recordOf u (row\<lparr>xr_ReleasedAt := Some t\<rparr>) = Inr (old\<lparr>rec_Released := t\<rparr>)"
proof -
  assume "recordOf u row = Inr old"
  moreover have "result_of i (row\<lparr>xr_ReleasedAt := Some t\<rparr>) = result_of i row" for i
    by (cases "xr_DurationMs row"; cases "xr_BilledMs row") (simp_all add: result_of_def)
  ultimately show ?thesis by (auto simp: recordOf_def Deref_def split: sum.splits)
qed

lemma inj_ID: "uuid_ok u \<Longrightarrow> inj (ID_String u)"
  by (simp add: inj_def ID_String_eq)

text \<open>Finding and changing a record through its row.\<close>

lemma same_row: "distinct (map f xs) \<Longrightarrow> x \<in> set xs \<Longrightarrow> y \<in> set xs \<Longrightarrow> f x = f y \<Longrightarrow> x = y"
  by (auto simp: distinct_map dest: inj_onD)

lemma record_keys: "uuid_ok u \<Longrightarrow> rows_ok u t \<Longrightarrow> row \<in> set (t_executions t) \<Longrightarrow>
    xr_ID row = ID_String u (fst (st_ID (record_at u row), record_at u row))"
  using row_ok_id by (auto simp: rows_ok_def list_all_iff)

lemma dispatch_keys: "uuid_ok u \<Longrightarrow> rows_ok u t \<Longrightarrow> row \<in> set (t_dispatches t) \<Longrightarrow>
    gr_DispatchID row = ID_String u (fst (dis_ID (dispatch_at u row), dispatch_at u row))"
  using dispatch_row_ok_id by (auto simp: rows_ok_def list_all_iff)

lemma record_of_row:
  assumes u: "uuid_ok u" and ok: "rows_ok u t"
  shows "map_of (em_records (execs_of u t)) i = map_option (record_at u) (find_first (\<lambda>row. xr_ID row = ID_String u i) (t_executions t))"
  using map_of_rows [OF record_keys [OF u ok] inj_ID [OF u]] by (simp add: execs_of_def comp_def)

lemma dispatch_of_row:
  assumes u: "uuid_ok u" and ok: "rows_ok u t"
  shows "map_of (em_dispatches (execs_of u t)) i = map_option (dispatch_at u) (find_first (\<lambda>row. gr_DispatchID row = ID_String u i) (t_dispatches t))"
  using map_of_rows [OF dispatch_keys [OF u ok] inj_ID [OF u]] by (simp add: execs_of_def comp_def)

lemma found_row:
  assumes u: "uuid_ok u" and ok: "rows_ok u t" and "row \<in> set (t_executions t)" "xr_ID row = ID_String u i"
  shows "find_first (\<lambda>row. xr_ID row = ID_String u i) (t_executions t) = Some row"
    and "map_of (em_records (execs_of u t)) i = Some (record_at u row)"
    and "recordOf u row = Inr (record_at u row)" and "st_ID (record_at u row) = i"
proof -
  obtain x where x: "find_first (\<lambda>row. xr_ID row = ID_String u i) (t_executions t) = Some x"
    using assms(3,4) by (cases "find_first (\<lambda>row. xr_ID row = ID_String u i) (t_executions t)") auto
  have "x = row"
    using find_first_SomeD [OF x] assms(3,4) ok by (auto simp: rows_ok_def intro: same_row)
  with x show "find_first (\<lambda>row. xr_ID row = ID_String u i) (t_executions t) = Some row" by simp
  then show "map_of (em_records (execs_of u t)) i = Some (record_at u row)" by (simp add: record_of_row [OF u ok])
  have "row_ok u row" using assms(3) ok by (auto simp: rows_ok_def list_all_iff)
  then show "recordOf u row = Inr (record_at u row)" by (auto simp: row_ok_def record_at_eq)
  show "st_ID (record_at u row) = i" using record_keys [OF u ok assms(3)] assms(4) by (simp add: ID_String_eq [OF u])
qed

lemma found_dispatch:
  assumes u: "uuid_ok u" and ok: "rows_ok u t" and "row \<in> set (t_dispatches t)" "gr_DispatchID row = ID_String u i"
  shows "find_first (\<lambda>row. gr_DispatchID row = ID_String u i) (t_dispatches t) = Some row"
    and "map_of (em_dispatches (execs_of u t)) i = Some (dispatch_at u row)"
    and "dispatchRow_of u row = Inr (dispatch_at u row)" and "dis_ID (dispatch_at u row) = i"
proof -
  obtain x where x: "find_first (\<lambda>row. gr_DispatchID row = ID_String u i) (t_dispatches t) = Some x"
    using assms(3,4) by (cases "find_first (\<lambda>row. gr_DispatchID row = ID_String u i) (t_dispatches t)") auto
  have "x = row"
    using find_first_SomeD [OF x] assms(3,4) ok by (auto simp: rows_ok_def intro: same_row)
  with x show "find_first (\<lambda>row. gr_DispatchID row = ID_String u i) (t_dispatches t) = Some row" by simp
  then show "map_of (em_dispatches (execs_of u t)) i = Some (dispatch_at u row)" by (simp add: dispatch_of_row [OF u ok])
  have "dispatch_row_ok u row" using assms(3) ok by (auto simp: rows_ok_def list_all_iff)
  then show "dispatchRow_of u row = Inr (dispatch_at u row)" by (auto simp: dispatch_row_ok_def dispatch_at_eq)
  show "dis_ID (dispatch_at u row) = i" using dispatch_keys [OF u ok assms(3)] assms(4) by (simp add: ID_String_eq [OF u])
qed

lemma no_record: "uuid_ok u \<Longrightarrow> rows_ok u t \<Longrightarrow> \<not> (\<exists>row \<in> set (t_executions t). xr_ID row = ID_String u i) \<Longrightarrow> map_of (em_records (execs_of u t)) i = None"
  by (auto simp: record_of_row)

lemma no_dispatch: "uuid_ok u \<Longrightarrow> rows_ok u t \<Longrightarrow> \<not> (\<exists>row \<in> set (t_dispatches t). gr_DispatchID row = ID_String u i) \<Longrightarrow> map_of (em_dispatches (execs_of u t)) i = None"
  by (auto simp: dispatch_of_row)

text \<open>Changing one row changes one record.\<close>

lemma change_record:
  assumes u: "uuid_ok u" and ok: "rows_ok u t" and row: "row \<in> set (t_executions t)" "xr_ID row = ID_String u i"
    and g: "recordOf u (g row) = Inr r" "st_ID r = i" "xr_ID (g row) = xr_ID row" "clone r = r"
    and P: "\<And>x. x \<in> set (t_executions t) \<Longrightarrow> P x \<longleftrightarrow> x = row"
    and t': "t' = t\<lparr>t_executions := updated P g (t_executions t)\<rparr>"
  shows "execs_of u t' = (execs_of u t)\<lparr>em_records := AList.update i r (em_records (execs_of u t))\<rparr> \<and> rows_ok u t'"
proof -
  have "P x \<longleftrightarrow> xr_ID x = ID_String u i" if "x \<in> set (t_executions t)" for x
    using P that row ok by (auto simp: rows_ok_def intro: same_row)
  then have up: "updated P g (t_executions t) = updated (\<lambda>x. xr_ID x = ID_String u i) g (t_executions t)"
    by (simp add: updated_def)
  have "map (\<lambda>row. (st_ID (record_at u row), record_at u row)) (updated (\<lambda>x. xr_ID x = ID_String u i) g (t_executions t)) =
      AList.update i r (map (\<lambda>row. (st_ID (record_at u row), record_at u row)) (t_executions t))"
    by (rule update_rows [where f = "ID_String u" and row = row]) (use record_keys [OF u ok] inj_ID [OF u] ok g row in \<open>auto simp: rows_ok_def record_at_eq\<close>)
  moreover have "map xr_ID (updated P g (t_executions t)) = map xr_ID (t_executions t)"
    using P g(3) by (auto simp: updated_def)
  moreover have "row_ok u (g row)" using g row by (auto simp: row_ok_def)
  then have "list_all (row_ok u) (updated P g (t_executions t))"
    using ok P by (auto simp: rows_ok_def list_all_iff updated_def)
  ultimately show ?thesis using ok by (simp add: t' execs_of_def up rows_ok_def)
qed

lemma change_dispatch:
  assumes u: "uuid_ok u" and ok: "rows_ok u t" and row: "row \<in> set (t_dispatches t)" "gr_DispatchID row = ID_String u i"
    and g: "dispatchRow_of u (g row) = Inr d" "dis_ID d = i" "gr_DispatchID (g row) = gr_DispatchID row"
    and P: "\<And>x. x \<in> set (t_dispatches t) \<Longrightarrow> P x \<longleftrightarrow> x = row"
    and t': "t' = t\<lparr>t_dispatches := updated P g (t_dispatches t)\<rparr>"
  shows "execs_of u t' = (execs_of u t)\<lparr>em_dispatches := AList.update i d (em_dispatches (execs_of u t))\<rparr> \<and> rows_ok u t'"
proof -
  have "P x \<longleftrightarrow> gr_DispatchID x = ID_String u i" if "x \<in> set (t_dispatches t)" for x
    using P that row ok by (auto simp: rows_ok_def intro: same_row)
  then have up: "updated P g (t_dispatches t) = updated (\<lambda>x. gr_DispatchID x = ID_String u i) g (t_dispatches t)"
    by (simp add: updated_def)
  have "map (\<lambda>row. (dis_ID (dispatch_at u row), dispatch_at u row)) (updated (\<lambda>x. gr_DispatchID x = ID_String u i) g (t_dispatches t)) =
      AList.update i d (map (\<lambda>row. (dis_ID (dispatch_at u row), dispatch_at u row)) (t_dispatches t))"
    by (rule update_rows [where f = "ID_String u" and row = row]) (use dispatch_keys [OF u ok] inj_ID [OF u] ok g row in \<open>auto simp: rows_ok_def dispatch_at_eq\<close>)
  moreover have "map gr_DispatchID (updated P g (t_dispatches t)) = map gr_DispatchID (t_dispatches t)"
    using P g(3) by (auto simp: updated_def)
  moreover have "dispatch_row_ok u (g row)" using g row by (auto simp: dispatch_row_ok_def)
  then have "list_all (dispatch_row_ok u) (updated P g (t_dispatches t))"
    using ok P by (auto simp: rows_ok_def list_all_iff updated_def)
  ultimately show ?thesis using ok by (simp add: t' execs_of_def up rows_ok_def)
qed

text \<open>A dispatch as a row keeps it; one is always created running, without an error or an end.\<close>

definition begun :: "'w Db \<Rightarrow> Dispatch \<Rightarrow> Dispatch" where
  "begun db d = d\<lparr>dis_Error := [], dis_LeaseUntil := db_time db (dis_LeaseUntil d),
     dis_Created := db_time db (dis_Created d), dis_Ended := 0\<rparr>"

section \<open>The writes\<close>

datatype ExecWrite =
    Creates Record
  | Updates Record State
  | Marks ID Time
  | Begins Dispatch
  | Finishes Dispatch
  | Renews ID string Time

fun pg_write :: "'w Db \<Rightarrow> UUID \<Rightarrow> ExecWrite \<Rightarrow> 'w Pg \<Rightarrow> goerror option \<times> 'w Pg" where
  "pg_write db u (Creates r) = Pg_Create db u r"
| "pg_write db u (Updates r from_state) = Pg_Update db u r from_state"
| "pg_write db u (Marks i t) = Pg_MarkReleased db u i t"
| "pg_write db u (Begins d) = Pg_CreateDispatch db u d"
| "pg_write db u (Finishes d) = Pg_FinishDispatch db u d"
| "pg_write db u (Renews i owner until) = Pg_RenewDispatch db u i owner until"

fun memory_write :: "'w Db \<Rightarrow> ExecWrite \<Rightarrow> ExecMemory \<Rightarrow> goerror option \<times> ExecMemory" where
  "memory_write db (Creates r) = Create (kept db r)"
| "memory_write db (Updates r from_state) = Update (kept db r) from_state"
| "memory_write db (Marks i t) = MarkReleased i (db_time db t)"
| "memory_write db (Begins d) = CreateDispatch (begun db d)"
| "memory_write db (Finishes d) = FinishDispatch (d\<lparr>dis_Ended := kept_time db (dis_Ended d)\<rparr>)"
| "memory_write db (Renews i owner until) = RenewDispatch i owner (db_time db until)"

text \<open>An update is one of the execution it names, as every caller's is.\<close>

fun same_written :: "ExecWrite \<Rightarrow> ExecMemory \<Rightarrow> bool" where
  "same_written (Updates r from_state) m \<longleftrightarrow>
     (case map_of (em_records m) (st_ID r) of None \<Rightarrow> True | Some old \<Rightarrow> same_execution r old)"
| "same_written w m \<longleftrightarrow> True"

fun marks :: "ExecWrite \<Rightarrow> bool" where
  "marks (Marks i t) = True"
| "marks w = False"

definition simulated :: "'w Db \<Rightarrow> UUID \<Rightarrow> ExecWrite \<Rightarrow> Tables \<Rightarrow> Tables \<Rightarrow> bool" where
  "simulated db u w t t' \<longleftrightarrow> rows_ok u t' \<and>
     (case memory_write db w (execs_of u t) of (err, m) \<Rightarrow> m = execs_of u t' \<and> (err = None \<or> marks w))"

lemma update_new: "map_of m i = None \<Longrightarrow> AList.update i v m = m @ [(i, v)]"
  by (induction m) (auto split: if_splits)

lemma clone_iff: "clone r = r \<longleftrightarrow> Bounded (rec_Result r) = rec_Result r"
  by (cases r) (auto simp: clone_def)

lemma clone_released: "clone r = r \<Longrightarrow> clone (r\<lparr>rec_Released := t\<rparr>) = r\<lparr>rec_Released := t\<rparr>"
  by (simp add: clone_iff)

lemma Create_simulated:
  assumes "uuid_ok u" "rows_ok u t" "Queries_CreateExecution db (rowOf u r) w t = Inr ((), t')"
  shows "simulated db u (Creates r) t t'"
proof -
  have t': "t' = t\<lparr>t_executions := t_executions t @ [stored_row db (rowOf u r)]\<rparr>"
    and new: "ID_String u (st_ID r) \<notin> xr_ID ` set (t_executions t)"
    using assms(3) by (auto simp: Queries_CreateExecution_def split: if_splits)
  have none: "map_of (em_records (execs_of u t)) (st_ID r) = None"
    using new by (intro no_record [OF assms(1,2)]) (auto simp: image_iff)
  then have "AList.update (st_ID r) (kept db r) (em_records (execs_of u t)) = em_records (execs_of u t) @ [(st_ID r, kept db r)]"
    by (rule update_new)
  then have "Create (kept db r) (execs_of u t) = (None, execs_of u t')"
    using none by (simp add: Create_def) (simp add: execs_of_def t' record_at_eq [OF recordOf_stored [OF assms(1)]])
  moreover have "row_ok u (stored_row db (rowOf u r))"
    using assms(1) by (simp add: row_ok_def recordOf_stored)
  ultimately show ?thesis using assms(2) new by (auto simp: simulated_def rows_ok_def t')
qed

lemma Update_simulated:
  assumes "uuid_ok u" "rows_ok u t" "same_written (Updates r from_state) (execs_of u t)"
    and "Queries_UpdateExecution db (update_params u r from_state) w t = Inr (n, t')" "n \<noteq> 0"
  shows "simulated db u (Updates r from_state) t t'"
proof -
  let ?P = "\<lambda>row. xr_ID row = ID_String u (st_ID r) \<and> xr_State row = from_state"
  have t': "t' = t\<lparr>t_executions := updated ?P (set_execution db (update_params u r from_state)) (t_executions t)\<rparr>"
    "n = length (filter ?P (t_executions t))"
    using assms(4) by (auto simp: Queries_UpdateExecution_def Let_def)
  then obtain row where row: "row \<in> set (t_executions t)" "?P row" using assms(5) by (auto simp: filter_empty_conv)
  note found = found_row [OF assms(1,2) row(1) conjunct1 [OF row(2)]]
  have same: "same_execution r (record_at u row)" using assms(3) found(2) by simp
  have id: "ID_String u (st_ID r) = xr_ID row" using row(2) by simp
  let ?new = "(kept db r)\<lparr>rec_Released := rec_Released (record_at u row)\<rparr>"
  have "execs_of u t' = (execs_of u t)\<lparr>em_records := AList.update (st_ID r) ?new (em_records (execs_of u t))\<rparr> \<and> rows_ok u t'"
  proof (rule change_record [OF assms(1,2) row(1) conjunct1 [OF row(2)] _ _ _ _ _ t'(1)])
    show "recordOf u (set_execution db (update_params u r from_state) row) = Inr ?new"
      by (rule recordOf_set [OF found(3) same id assms(1)])
    show "?P x \<longleftrightarrow> x = row" if "x \<in> set (t_executions t)" for x
      using that row assms(2) by (auto simp: rows_ok_def intro: same_row)
    show "clone ?new = ?new" by (rule clone_released [OF clone_kept])
  qed simp_all
  moreover have "st_State (record_at u row) = from_state"
    using recordOf_state [OF found(3)] row(2) by simp
  ultimately show ?thesis using found(2) by (simp add: simulated_def Update_def Let_def)
qed

lemma Mark_simulated:
  assumes "uuid_ok u" "rows_ok u t"
    and "Queries_MarkExecutionReleased db \<lparr>mx_ReleasedAt = Some at_time, mx_ID = ID_String u i\<rparr> w t = Inr ((), t')"
  shows "simulated db u (Marks i at_time) t t'"
proof (cases "\<exists>row \<in> set (t_executions t). xr_ID row = ID_String u i")
  case True
  then obtain row where row: "row \<in> set (t_executions t)" "xr_ID row = ID_String u i" by auto
  note found = found_row [OF assms(1,2) row]
  let ?g = "\<lambda>row. row\<lparr>xr_ReleasedAt := Some (db_time db at_time)\<rparr>"
  have t': "t' = t\<lparr>t_executions := updated (\<lambda>row. xr_ID row = ID_String u i) ?g (t_executions t)\<rparr>"
    using assms(3) by (simp add: Queries_MarkExecutionReleased_def)
  have "clone (record_at u row) = record_at u row"
    using assms(2) row found(3) by (fastforce simp: rows_ok_def list_all_iff row_ok_def)
  then have cl: "clone ((record_at u row)\<lparr>rec_Released := db_time db at_time\<rparr>) = (record_at u row)\<lparr>rec_Released := db_time db at_time\<rparr>"
    by (rule clone_released)
  have "execs_of u t' = (execs_of u t)\<lparr>em_records := AList.update i ((record_at u row)\<lparr>rec_Released := db_time db at_time\<rparr>)
      (em_records (execs_of u t))\<rparr> \<and> rows_ok u t'"
    by (rule change_record [OF assms(1,2) row recordOf_mark [OF found(3)] _ _ cl _ t'])
      (use row assms(2) found(4) in \<open>auto simp: rows_ok_def intro: same_row\<close>)
  then show ?thesis using found(2) by (simp add: simulated_def MarkReleased_def)
next
  case False
  then have "updated (\<lambda>row. xr_ID row = ID_String u i) g (t_executions t) = t_executions t" for g
    unfolding updated_def by (intro map_idI) auto
  then have "t' = t" using assms(3) by (simp add: Queries_MarkExecutionReleased_def)
  then show ?thesis using no_record [OF assms(1,2) False] assms(2) by (simp add: simulated_def MarkReleased_def)
qed

lemma Begin_simulated:
  assumes "uuid_ok u" "rows_ok u t" "Queries_CreateDispatch db \<lparr>cd_DispatchID = ID_String u (dis_ID d), cd_Namespace = dis_Namespace d,
           cd_Job = dis_Job d, cd_JobVersion = dis_JobVersion d, cd_State = dis_State d, cd_CreatedAt = dis_Created d,
           cd_Tasks = dis_Tasks d, cd_Owner = dis_Owner d, cd_LeaseUntil = dis_LeaseUntil d\<rparr> w t = Inr ((), t')"
  shows "simulated db u (Begins d) t t'"
proof -
  let ?row = "\<lparr>gr_DispatchID = ID_String u (dis_ID d), gr_Namespace = dis_Namespace d, gr_Job = dis_Job d,
    gr_JobVersion = dis_JobVersion d, gr_State = dis_State d, gr_Error = [], gr_CreatedAt = db_time db (dis_Created d),
    gr_EndedAt = None, gr_Tasks = dis_Tasks d, gr_Owner = dis_Owner d, gr_LeaseUntil = db_time db (dis_LeaseUntil d)\<rparr>"
  have t': "t' = t\<lparr>t_dispatches := t_dispatches t @ [?row]\<rparr>"
    and new: "ID_String u (dis_ID d) \<notin> gr_DispatchID ` set (t_dispatches t)"
    using assms(3) by (auto simp: Queries_CreateDispatch_def split: if_splits)
  have none: "map_of (em_dispatches (execs_of u t)) (dis_ID d) = None"
    using new by (intro no_dispatch [OF assms(1,2)]) (auto simp: image_iff)
  have row: "dispatchRow_of u ?row = Inr (begun db d)"
    using assms(1) by (simp add: dispatchRow_of_def begun_def Deref_def)
  have id: "dis_ID (begun db d) = dis_ID d" by (simp add: begun_def)
  have "CreateDispatch (begun db d) (execs_of u t) = (None, execs_of u t')"
    using none by (simp add: CreateDispatch_def id update_new) (simp add: execs_of_def t' dispatch_at_eq [OF row] id)
  moreover have "dispatch_row_ok u ?row" using row by (simp add: dispatch_row_ok_def id)
  ultimately show ?thesis using assms(2) new by (auto simp: simulated_def rows_ok_def t')
qed

lemma held_row:
  assumes "uuid_ok u" "rows_ok u t" "row \<in> set (t_dispatches t)" "held_by (ID_String u i) owner row"
  shows "held (execs_of u t) i owner = Some (dispatch_at u row)"
  using found_dispatch [OF assms(1-3), of i] assms(4) dispatchRow_of_fields [of u row]
  by (auto simp: held_def held_by_def DispatchRunning_def)

lemma Finish_simulated:
  assumes "uuid_ok u" "rows_ok u t" "n \<noteq> 0" "Queries_FinishDispatch db \<lparr>fd_State = dis_State d, fd_Error = dis_Error d,
           fd_EndedAt = nullTime (dis_Ended d), fd_DispatchID = ID_String u (dis_ID d), fd_Owner = dis_Owner d\<rparr> w t = Inr (n, t')"
  shows "simulated db u (Finishes d) t t'"
proof -
  let ?P = "held_by (ID_String u (dis_ID d)) (dis_Owner d)"
  let ?g = "\<lambda>r. r\<lparr>gr_State := dis_State d, gr_Error := dis_Error d, gr_EndedAt := map_option (db_time db) (nullTime (dis_Ended d))\<rparr>"
  have t': "t' = t\<lparr>t_dispatches := updated ?P ?g (t_dispatches t)\<rparr>" "n = length (filter ?P (t_dispatches t))"
    using assms(4) by (auto simp: Queries_FinishDispatch_def Let_def)
  then obtain row where row: "row \<in> set (t_dispatches t)" "?P row" using assms(3) by (auto simp: filter_empty_conv)
  then have key: "gr_DispatchID row = ID_String u (dis_ID d)" by (simp add: held_by_def)
  note found = found_dispatch [OF assms(1,2) row(1) key]
  let ?d = "(dispatch_at u row)\<lparr>dis_State := dis_State d, dis_Error := dis_Error d, dis_Ended := kept_time db (dis_Ended d)\<rparr>"
  have "execs_of u t' = (execs_of u t)\<lparr>em_dispatches := AList.update (dis_ID d) ?d (em_dispatches (execs_of u t))\<rparr> \<and> rows_ok u t'"
  proof (rule change_dispatch [OF assms(1,2) row(1) key _ _ _ _ t'(1)])
    show "dispatchRow_of u (?g row) = Inr ?d" using dispatchRow_finished [OF found(3)] by simp
    show "?P x \<longleftrightarrow> x = row" if "x \<in> set (t_dispatches t)" for x
      using that row key assms(2) same_row [of gr_DispatchID "t_dispatches t" x row] by (auto simp: rows_ok_def held_by_def)
  qed (use found(4) in simp_all)
  then show ?thesis using held_row [OF assms(1,2) row] by (simp add: simulated_def FinishDispatch_def Let_def)
qed

lemma Renew_simulated:
  assumes "uuid_ok u" "rows_ok u t" "n \<noteq> 0"
    and "Queries_RenewDispatch db \<lparr>rd_LeaseUntil = until, rd_DispatchID = ID_String u i, rd_Owner = owner\<rparr> w t = Inr (n, t')"
  shows "simulated db u (Renews i owner until) t t'"
proof -
  let ?P = "held_by (ID_String u i) owner"
  let ?g = "\<lambda>r. r\<lparr>gr_LeaseUntil := db_time db until\<rparr>"
  have t': "t' = t\<lparr>t_dispatches := updated ?P ?g (t_dispatches t)\<rparr>" "n = length (filter ?P (t_dispatches t))"
    using assms(4) by (auto simp: Queries_RenewDispatch_def Let_def)
  then obtain row where row: "row \<in> set (t_dispatches t)" "?P row" using assms(3) by (auto simp: filter_empty_conv)
  then have key: "gr_DispatchID row = ID_String u i" by (simp add: held_by_def)
  note found = found_dispatch [OF assms(1,2) row(1) key]
  let ?d = "(dispatch_at u row)\<lparr>dis_LeaseUntil := db_time db until\<rparr>"
  have "execs_of u t' = (execs_of u t)\<lparr>em_dispatches := AList.update i ?d (em_dispatches (execs_of u t))\<rparr> \<and> rows_ok u t'"
  proof (rule change_dispatch [OF assms(1,2) row(1) key _ _ _ _ t'(1)])
    show "dispatchRow_of u (?g row) = Inr ?d" by (rule dispatchRow_renewed [OF found(3)])
    show "?P x \<longleftrightarrow> x = row" if "x \<in> set (t_dispatches t)" for x
      using that row key assms(2) same_row [of gr_DispatchID "t_dispatches t" x row] by (auto simp: rows_ok_def held_by_def)
  qed (use found(4) in simp_all)
  then show ?thesis using held_row [OF assms(1,2) row] by (simp add: simulated_def RenewDispatch_def)
qed

text \<open>A claim takes over the rows the store in memory would, and answers the same dispatches.\<close>

lemma dispatchRows_ok:
  "(\<And>row. row \<in> set rows \<Longrightarrow> dispatchRow_of u row = Inr (f row)) \<Longrightarrow> dispatchRows_of u rows = Inr (map f rows)"
  by (induction rows) auto

lemma dispatchRow_taken:
  "dispatchRow_of u row = Inr d \<Longrightarrow> dispatchRow_of u (row\<lparr>gr_Owner := a, gr_LeaseUntil := t\<rparr>) =
    Inr (d\<lparr>dis_Owner := a, dis_LeaseUntil := t\<rparr>)"
  by (auto simp: dispatchRow_of_def split: sum.splits)

lemma Claim_simulated:
  assumes u: "uuid_ok u" and ok: "rows_ok u t"
    and q: "Queries_ClaimDispatches db \<lparr>kd_Owner = owner, kd_LeaseUntil = until, kd_Now = clock,
      kd_Skip = map (ID_String u) skip\<rparr> w t = Inr (rows, t')"
  shows "rows_ok u t' \<and> (\<exists>claimed. dispatchRows_of u rows = Inr claimed \<and>
    ClaimDispatches owner (db_time db clock) (db_time db until) skip (execs_of u t) = (claimed, execs_of u t'))"
proof -
  let ?arg = "\<lparr>kd_Owner = owner, kd_LeaseUntil = until, kd_Now = clock, kd_Skip = map (ID_String u) skip\<rparr>"
  let ?g = "\<lambda>row. row\<lparr>gr_Owner := owner, gr_LeaseUntil := db_time db until\<rparr>"
  let ?f = "\<lambda>d. d\<lparr>dis_Owner := owner, dis_LeaseUntil := db_time db until\<rparr>"
  have t': "t' = t\<lparr>t_dispatches := updated (lapsed db ?arg) ?g (t_dispatches t)\<rparr>"
    and rows: "rows = map ?g (filter (lapsed db ?arg) (t_dispatches t))"
    using q by (simp_all add: Queries_ClaimDispatches_def Let_def)
  have read: "dispatchRow_of u row = Inr (dispatch_at u row)" "ID_String u (dis_ID (dispatch_at u row)) = gr_DispatchID row"
    if "row \<in> set (t_dispatches t)" for row
    using that ok by (auto simp: rows_ok_def list_all_iff dispatch_row_ok_def dispatch_at_eq)
  have taken: "dispatchRow_of u (?g row) = Inr (?f (dispatch_at u row))" if "row \<in> set (t_dispatches t)" for row
    by (rule dispatchRow_taken [OF read(1) [OF that]])
  have due: "lapsed db ?arg row \<longleftrightarrow> claimable (db_time db clock) skip (dis_ID (dispatch_at u row)) (dispatch_at u row)"
    if "row \<in> set (t_dispatches t)" for row
    using dispatchRow_of_fields [OF read(1) [OF that]] read(2) [OF that]
    by (auto simp: lapsed_def claimable_def DispatchRunning_def image_iff ID_String_eq [OF u] simp flip: read(2) [OF that])
  have keys: "distinct (map fst (em_dispatches (execs_of u t)))"
  proof -
    have "map (ID_String u) (map fst (em_dispatches (execs_of u t))) = map gr_DispatchID (t_dispatches t)"
      using read(2) by (simp add: execs_of_def)
    then show ?thesis using ok by (metis distinct_map rows_ok_def)
  qed
  have "map (\<lambda>row. (dis_ID (dispatch_at u row), dispatch_at u row)) (updated (lapsed db ?arg) ?g (t_dispatches t)) =
      map (\<lambda>(i, d). (i, if claimable (db_time db clock) skip i d then ?f d else d))
        (map (\<lambda>row. (dis_ID (dispatch_at u row), dispatch_at u row)) (t_dispatches t))"
    using due taken by (auto simp: updated_def dispatch_at_eq)
  then have state: "execs_of u t' = (execs_of u t)\<lparr>em_dispatches := map (\<lambda>(i, d). (i, if claimable (db_time db clock) skip i d
      then ?f d else d)) (em_dispatches (execs_of u t))\<rparr>"
    by (simp add: execs_of_def t')
  have "dispatchRows_of u rows = Inr (map (\<lambda>row. dispatch_at u row) rows)"
    using taken by (intro dispatchRows_ok) (auto simp: rows dispatch_at_eq)
  moreover have "map (\<lambda>row. dispatch_at u row) rows =
      map (\<lambda>(i, d). ?f d) (filter (\<lambda>(i, d). claimable (db_time db clock) skip i d) (em_dispatches (execs_of u t)))"
    using due taken by (auto simp: rows execs_of_def filter_map comp_def dispatch_at_eq intro!: map_cong filter_cong)
  note answer = this calculation
  have "dispatch_row_ok u (?g row)" if "row \<in> set (t_dispatches t)" for row
    using taken [OF that] read(2) [OF that] by (simp add: dispatch_row_ok_def)
  moreover have "map gr_DispatchID (updated (lapsed db ?arg) ?g (t_dispatches t)) = map gr_DispatchID (t_dispatches t)"
    by (simp add: updated_def)
  ultimately have "rows_ok u t'"
    using ok by (simp add: rows_ok_def t' list_all_iff) (auto simp: updated_def)
  then show ?thesis using answer by (simp add: ClaimDispatches_eq [OF keys] state)
qed

section \<open>Whole writes\<close>

text \<open>The closure each write runs, and that of a claim, which captures what it claimed.\<close>

fun closure :: "'w Db \<Rightarrow> UUID \<Rightarrow> ExecWrite \<Rightarrow> ('w, unit, goerror option) Q" where
  "closure db u (Creates r) = statement db (Queries_CreateExecution db (rowOf u r))
     (\<lambda>err. Formatted ''create execution %s: %w'' [I (st_ID r)] [err]) (\<lambda>_. ret None)"
| "closure db u (Updates r from_state) = statement db (Queries_UpdateExecution db (update_params u r from_state))
     (\<lambda>err. Formatted ''update execution %s: %w'' [I (st_ID r)] [err])
     (\<lambda>rows. ret (if rows = 0 then Some (Formatted ''%w: %s'' [I (st_ID r)] [Sentinel ErrStale]) else None))"
| "closure db u (Marks i t) = statement db (Queries_MarkExecutionReleased db \<lparr>mx_ReleasedAt = Some t, mx_ID = ID_String u i\<rparr>)
     (\<lambda>err. Formatted ''mark execution %s released: %w'' [I i] [err]) (\<lambda>_. ret None)"
| "closure db u (Begins d) = statement db (Queries_CreateDispatch db \<lparr>cd_DispatchID = ID_String u (dis_ID d), cd_Namespace = dis_Namespace d,
       cd_Job = dis_Job d, cd_JobVersion = dis_JobVersion d, cd_State = dis_State d, cd_CreatedAt = dis_Created d,
       cd_Tasks = dis_Tasks d, cd_Owner = dis_Owner d, cd_LeaseUntil = dis_LeaseUntil d\<rparr>)
     (\<lambda>err. Formatted ''create dispatch %s: %w'' [I (dis_ID d)] [err]) (\<lambda>_. ret None)"
| "closure db u (Finishes d) = statement db (Queries_FinishDispatch db \<lparr>fd_State = dis_State d, fd_Error = dis_Error d,
       fd_EndedAt = nullTime (dis_Ended d), fd_DispatchID = ID_String u (dis_ID d), fd_Owner = dis_Owner d\<rparr>)
     (\<lambda>err. Formatted ''finish dispatch %s: %w'' [I (dis_ID d)] [err])
     (\<lambda>rows. ret (if rows = 0 then Some (stale_dispatch (dis_ID d)) else None))"
| "closure db u (Renews i owner until) = statement db (Queries_RenewDispatch db
       \<lparr>rd_LeaseUntil = until, rd_DispatchID = ID_String u i, rd_Owner = owner\<rparr>)
     (\<lambda>err. Formatted ''renew dispatch %s: %w'' [I i] [err])
     (\<lambda>rows. ret (if rows = 0 then Some (stale_dispatch i) else None))"


definition claim_closure :: "'w Db \<Rightarrow> UUID \<Rightarrow> string \<Rightarrow> Time \<Rightarrow> Time \<Rightarrow> ID list \<Rightarrow> ('w, Dispatch list, goerror option) Q" where
  "claim_closure db u owner clock until skip =
     statement db (Queries_ClaimDispatches db \<lparr>kd_Owner = owner, kd_LeaseUntil = until, kd_Now = clock,
         kd_Skip = map (ID_String u) skip\<rparr>)
       (\<lambda>err. Formatted ''claim dispatches: %w'' [] [err])
       (\<lambda>rows. (case dispatchRows_of u rows of
          Inl err \<Rightarrow> ret (Some err)
        | Inr ds \<Rightarrow> do { assign (\<lambda>_. ds); ret None }))"

lemma Pg_ClaimDispatches_closure:
  "Pg_ClaimDispatches db u owner clock until skip s =
     (case writing db (claim_closure db u owner clock until skip) [] s of
        ((Some err, claimed), s') \<Rightarrow> (Inl err, s')
      | ((None, claimed), s') \<Rightarrow> (Inr claimed, s'))"
  by (simp add: Pg_ClaimDispatches_def claim_closure_def)

lemma claim_applied:
  fixes db :: "'w Db"
  assumes "uuid_ok u" "rows_ok u t" "applied (claim_closure db u owner clock until skip) t claimed t'"
  shows "rows_ok u t' \<and>
    ClaimDispatches owner (db_time db clock) (db_time db until) skip (execs_of u t) = (claimed, execs_of u t')"
proof -
  obtain w rows t1 where q: "Queries_ClaimDispatches db \<lparr>kd_Owner = owner, kd_LeaseUntil = until, kd_Now = clock,
      kd_Skip = map (ID_String u) skip\<rparr> w t = Inr (rows, t1)"
    and k: "applied (case dispatchRows_of u rows of Inl err \<Rightarrow> (ret (Some err) :: ('w, Dispatch list, goerror option) Q)
      | Inr ds \<Rightarrow> do { assign (\<lambda>_. ds); ret None }) t1 claimed t'"
    using statement_applied [OF assms(3) [unfolded claim_closure_def]] by blast
  from Claim_simulated [OF assms(1,2) q] k show ?thesis by (auto simp: applied_def)
qed

lemma pg_write_closure: "pg_write db u w s = apfst fst (writing db (closure db u w) () s)"
  by (cases w) (simp_all add: Pg_Create_def Pg_Update_def Pg_MarkReleased_def Pg_CreateDispatch_def Pg_FinishDispatch_def Pg_RenewDispatch_def)

lemma closure_simulated:
  assumes u: "uuid_ok u" and ok: "rows_ok u t" and same: "same_written w (execs_of u t)" and ap: "applied (closure db u w) t v t'"
  shows "simulated db u w t t'"
proof (cases w)
  case (Creates r)
  with ap show ?thesis by (auto dest!: statement_applied intro: Create_simulated [OF u ok])
next
  case (Updates r from_state)
  with ap same show ?thesis by (auto dest!: statement_applied intro: Update_simulated [OF u ok] split: if_splits)
next
  case (Marks i t)
  with ap show ?thesis by (auto dest!: statement_applied intro: Mark_simulated [OF u ok])
next
  case (Begins d)
  with ap show ?thesis by (auto dest!: statement_applied intro: Begin_simulated [OF u ok])
next
  case (Finishes d)
  with ap show ?thesis by (auto dest!: statement_applied intro: Finish_simulated [OF u ok] split: if_splits)
next
  case (Renews i owner until)
  with ap show ?thesis by (auto dest!: statement_applied intro: Renew_simulated [OF u ok] split: if_splits)
qed

section \<open>Properties\<close>

definition fits_row :: "'w Db \<Rightarrow> Record \<Rightarrow> bool" where
  "fits_row db r \<longleftrightarrow>
     list_all (\<lambda>t. db_time db t = t) [st_StartedAt r, st_EndedAt r, st_UpdatedAt r, rec_Released r] \<and>
     (case rec_Result r of
        None \<Rightarrow> True
      | Some res \<Rightarrow>
          res_ID res = st_ID r \<and> length (res_Logs res) \<le> MaxStoredLogs \<and> kept_duration (res_Duration res) = res_Duration res \<and>
          (case res_Billed res of None \<Rightarrow> True | Some b \<Rightarrow> kept_duration (ex_Duration b) = ex_Duration b))"

lemma kept_fitting: "fits_row db r \<Longrightarrow> kept db r = r"
proof -
  assume fits: "fits_row db r"
  have "map_option (kept_result (st_ID r)) (Bounded (rec_Result r)) = rec_Result r"
  proof (cases "rec_Result r")
    case (Some res)
    then show ?thesis using fits by (cases "res_Billed res") (auto simp: fits_row_def Bounded_def kept_result_def)
  qed (simp add: Bounded_def)
  moreover have "kept_time db t = t" if "db_time db t = t" for t using that by (simp add: kept_time_def Time_IsZero_def)
  ultimately show ?thesis using fits by (simp add: kept_def fits_row_def)
qed

text \<open>Every write of the store: one of an execution or a dispatch, which answers an error or none, or a claim, which
  answers dispatches.\<close>

datatype StoreWrite = Changes ExecWrite | Claims string Time Time "ID list"

fun pg_store_write :: "'w Db \<Rightarrow> UUID \<Rightarrow> StoreWrite \<Rightarrow> 'w Pg \<Rightarrow> (goerror + Dispatch list) \<times> 'w Pg" where
  "pg_store_write db u (Changes w) s = apfst (case_option (Inr []) Inl) (pg_write db u w s)"
| "pg_store_write db u (Claims owner clock until skip) s = Pg_ClaimDispatches db u owner clock until skip s"

fun memory_store_write :: "'w Db \<Rightarrow> StoreWrite \<Rightarrow> ExecMemory \<Rightarrow> (goerror + Dispatch list) \<times> ExecMemory" where
  "memory_store_write db (Changes w) m = apfst (case_option (Inr []) Inl) (memory_write db w m)"
| "memory_store_write db (Claims owner clock until skip) m =
     apfst Inr (ClaimDispatches owner (db_time db clock) (db_time db until) skip m)"

fun marking :: "StoreWrite \<Rightarrow> bool" where
  "marking (Changes w) = marks w"
| "marking (Claims owner clock until skip) = False"

fun same_stored :: "StoreWrite \<Rightarrow> ExecMemory \<Rightarrow> bool" where
  "same_stored (Changes w) m = same_written w m"
| "same_stored (Claims owner clock until skip) m = True"

lemma others_rows_ok:
  assumes "\<And>w t. rows_ok u t \<Longrightarrow> rows_ok u (db_others db w t)" "others_acted db s t" "rows_ok u s"
  shows "rows_ok u t"
  using assms(2,3) unfolding others_acted_def by (induction rule: rtranclp_induct) (auto intro: assms(1))

lemma change_refined:
  assumes "uuid_ok u" "commit_decides db" "\<And>w t. rows_ok u t \<Longrightarrow> rows_ok u (db_others db w t)"
    and "rows_ok u (pg_tables s)" "pg_write db u w s = (err, s')"
    and "\<And>t. others_acted db (pg_tables s) t \<Longrightarrow> same_written w (execs_of u t)"
  shows "rows_ok u (pg_tables s') \<and>
    (\<exists>t merr m. others_acted db (pg_tables s) t \<and> memory_write db w (execs_of u t) = (merr, m) \<and>
      (execs_of u (pg_tables s') = m \<and> (merr = None \<or> marks w) \<or> err \<noteq> None \<and> execs_of u (pg_tables s') = execs_of u t))"
proof -
  obtain vars' where "writing db (closure db u w) () s = ((err, vars'), s')"
    using assms(5) unfolding pg_write_closure by (cases "writing db (closure db u w) () s") (auto simp: apfst_def map_prod_def)
  from writing_applied [OF assms(2) this] obtain t where t: "others_acted db (pg_tables s) t"
    and cases: "applied (closure db u w) t vars' (pg_tables s') \<or> (pg_tables s' = t \<and> err \<noteq> None)" by blast
  have ok: "rows_ok u t" by (rule others_rows_ok [OF assms(3) t assms(4)])
  from cases show ?thesis
  proof
    assume "applied (closure db u w) t vars' (pg_tables s')"
    from closure_simulated [OF assms(1) ok assms(6) [OF t] this] show ?thesis
      using t by (auto simp: simulated_def split: prod.splits)
  next
    assume "pg_tables s' = t \<and> err \<noteq> None"
    with t ok show ?thesis by (metis prod.collapse)
  qed
qed

lemma claim_refined:
  assumes "uuid_ok u" "commit_decides db" "\<And>w t. rows_ok u t \<Longrightarrow> rows_ok u (db_others db w t)"
    and "rows_ok u (pg_tables s)" "Pg_ClaimDispatches db u owner clock until skip s = (res, s')"
  shows "rows_ok u (pg_tables s') \<and> (\<exists>t. others_acted db (pg_tables s) t \<and>
    ((\<exists>claimed. ClaimDispatches owner (db_time db clock) (db_time db until) skip (execs_of u t) =
        (claimed, execs_of u (pg_tables s')) \<and> (res = Inr claimed \<or> (\<exists>err. res = Inl err))) \<or>
     (\<exists>err. res = Inl err) \<and> execs_of u (pg_tables s') = execs_of u t))"
proof -
  obtain err claimed where w: "writing db (claim_closure db u owner clock until skip) [] s = ((err, claimed), s')"
    using assms(5) unfolding Pg_ClaimDispatches_closure by (fastforce split: prod.splits option.splits)
  then have res: "res = (case err of None \<Rightarrow> Inr claimed | Some e \<Rightarrow> Inl e)"
    using assms(5) unfolding Pg_ClaimDispatches_closure by (auto split: option.splits)
  from writing_applied [OF assms(2) w] obtain t where t: "others_acted db (pg_tables s) t"
    and cases: "applied (claim_closure db u owner clock until skip) t claimed (pg_tables s') \<or> (pg_tables s' = t \<and> err \<noteq> None)"
    by blast
  have ok: "rows_ok u t" by (rule others_rows_ok [OF assms(3) t assms(4)])
  from cases show ?thesis
  proof
    assume "applied (claim_closure db u owner clock until skip) t claimed (pg_tables s')"
    from claim_applied [OF assms(1) ok this] t res show ?thesis by (cases err) auto
  next
    assume "pg_tables s' = t \<and> err \<noteq> None"
    with t ok res show ?thesis by (cases err) auto
  qed
qed

text \<open>C5. The database does to executions and dispatches what the store in memory does: creating, updating and marking
  an execution, beginning, finishing and renewing a dispatch, and claiming dispatches, each leaves the rows
  as rows of this store, and on top of whatever other clients did meanwhile either did what that write does
  in memory to what the columns keep of its arguments, answering the same dispatches if it answers no error,
  or answered an error and did nothing.  Other clients keep the rows well formed, a commit that answers none
  was made, and an update is of an execution whose fixed fields are those stored.  (Marking an execution that
  does not exist is an error in memory alone.)\<close>

theorem database_refines_memory:
  assumes "uuid_ok u" "commit_decides db" "\<And>w t. rows_ok u t \<Longrightarrow> rows_ok u (db_others db w t)"
    and "rows_ok u (pg_tables s)" "pg_store_write db u w s = (res, s')"
    and "\<And>t. others_acted db (pg_tables s) t \<Longrightarrow> same_stored w (execs_of u t)"
  shows "rows_ok u (pg_tables s') \<and>
    (\<exists>t mres m. others_acted db (pg_tables s) t \<and> memory_store_write db w (execs_of u t) = (mres, m) \<and>
      (execs_of u (pg_tables s') = m \<and> (marking w \<or> (\<exists>ds. mres = Inr ds)) \<and> ((\<exists>ds. res = Inr ds) \<longrightarrow> marking w \<or> res = mres) \<or>
       (\<exists>err. res = Inl err) \<and> execs_of u (pg_tables s') = execs_of u t))"
proof (cases w)
  case (Changes c)
  then obtain err where p: "pg_write db u c s = (err, s')" and res: "res = case_option (Inr []) Inl err"
    using assms(5) by (auto simp: apfst_def map_prod_def split: prod.splits)
  have "same_written c (execs_of u t)" if "others_acted db (pg_tables s) t" for t using assms(6) [OF that] Changes by simp
  from change_refined [OF assms(1-4) p this] obtain t merr m where ok: "rows_ok u (pg_tables s')"
    and t: "others_acted db (pg_tables s) t" "memory_write db c (execs_of u t) = (merr, m)"
    and cases: "execs_of u (pg_tables s') = m \<and> (merr = None \<or> marks c) \<or> err \<noteq> None \<and> execs_of u (pg_tables s') = execs_of u t"
    by blast
  have "memory_store_write db w (execs_of u t) = (case_option (Inr []) Inl merr, m)" by (simp add: Changes t(2))
  with ok t(1) cases show ?thesis
    by - (rule conjI [OF ok], rule exI [of _ t], rule exI [of _ "case_option (Inr []) Inl merr"], rule exI [of _ m],
      auto simp: Changes res split: option.splits)
next
  case (Claims owner clock until skip)
  then have "Pg_ClaimDispatches db u owner clock until skip s = (res, s')" using assms(5) by simp
  from claim_refined [OF assms(1-4) this] obtain t where ok: "rows_ok u (pg_tables s')" and t: "others_acted db (pg_tables s) t"
    and cases: "(\<exists>claimed. ClaimDispatches owner (db_time db clock) (db_time db until) skip (execs_of u t) =
        (claimed, execs_of u (pg_tables s')) \<and> (res = Inr claimed \<or> (\<exists>err. res = Inl err))) \<or>
      (\<exists>err. res = Inl err) \<and> execs_of u (pg_tables s') = execs_of u t" by blast
  obtain mres m where m: "memory_store_write db w (execs_of u t) = (mres, m)" by fastforce
  show ?thesis
    by - (rule conjI [OF ok], rule exI [of _ t], rule exI [of _ mres], rule exI [of _ m], use t m cases Claims in auto)
qed

text \<open>C33. A record read back is the record written, to the precision of its columns: timestamps as the database
  keeps them, durations in whole milliseconds, logs bounded; nothing is lost of one within them.\<close>

theorem record_roundtrip:
  assumes "uuid_ok u"
  shows "recordOf u (stored_row db (rowOf u r)) = Inr (kept db r) \<and> (fits_row db r \<longrightarrow> kept db r = r)"
  by (simp add: recordOf_stored [OF assms] kept_fitting)

definition plain_uuid :: UUID where
  "plain_uuid = \<lparr>uu_Parse = (\<lambda>s. case s of [] \<Rightarrow> Inl ''invalid UUID length'' | _ \<Rightarrow> Inr (of_nat (length s - 1))),
     uu_String = (\<lambda>i. replicate (Suc (unat i)) (CHR ''-'')), uu_Created = (\<lambda>i. 1)\<rparr>"

lemma plain_uuid_ok: "uuid_ok plain_uuid"
  by (simp add: uuid_ok_def plain_uuid_def)

definition sample_dispatch :: Dispatch where
  "sample_dispatch = \<lparr>dis_ID = 1, dis_Namespace = ''ns'', dis_Job = ''j'', dis_JobVersion = 1, dis_Tasks = 1,
     dis_State = DispatchRunning, dis_Error = [], dis_Owner = ''a'', dis_LeaseUntil = 9, dis_Created = 5, dis_Ended = 0\<rparr>"

theorem database_refines_memory_witness:
  "execs_of plain_uuid (pg_tables (snd (pg_store_write sample_db plain_uuid (Changes (Begins sample_dispatch)) sample_pg))) =
     \<lparr>em_dispatches = [(1, sample_dispatch)], em_records = []\<rparr>"
proof -
  obtain s' where w: "pg_store_write sample_db plain_uuid (Changes (Begins sample_dispatch)) sample_pg = (Inr [], s')"
  proof -
    have "fst (pg_store_write sample_db plain_uuid (Changes (Begins sample_dispatch)) sample_pg) = Inr []" by code_simp
    then show thesis using that by (metis prod.collapse)
  qed
  have idle: "db_others sample_db w t = t" for w t by (simp add: sample_db_def)
  have alone: "t = pg_tables sample_pg" if "others_acted sample_db (pg_tables sample_pg) t" for t
    using that unfolding others_acted_def by (induction rule: rtranclp_induct) (simp_all add: idle)
  have "rows_ok plain_uuid (pg_tables sample_pg)" by (simp add: rows_ok_def sample_pg_def)
  from database_refines_memory [OF plain_uuid_ok sample_decides _ this w] alone
  have "memory_store_write sample_db (Changes (Begins sample_dispatch)) (execs_of plain_uuid (pg_tables sample_pg)) =
      (Inr [], execs_of plain_uuid (pg_tables s'))" by (auto simp: idle)
  moreover have "memory_store_write sample_db (Changes (Begins sample_dispatch)) (execs_of plain_uuid (pg_tables sample_pg)) =
      (Inr [], \<lparr>em_dispatches = [(1, sample_dispatch)], em_records = []\<rparr>)"
    by (simp add: execs_of_def sample_pg_def CreateDispatch_def begun_def sample_dispatch_def sample_db_def)
  ultimately show ?thesis by (simp only: w snd_conv prod.inject)
qed

definition row_record :: Record where
  "row_record = \<lparr>st_ID = 9, st_State = StateSucceeded, st_ProviderID = ''p1'', st_StartedAt = 1000, st_EndedAt = 2000,
     st_UpdatedAt = 2000, rec_Namespace = ''ns'', rec_Job = ''j'', rec_JobVersion = 1, rec_Dispatch = 7, rec_Task = ''build'',
     rec_Provider = ''fn'', rec_Attempt = 1, rec_Previous = 0, rec_CPU = 100, rec_Memory = 64,
     rec_Result = Some \<lparr>res_ID = 9, res_ExitCode = Some 0, res_Duration = 5000000, res_Billed = None, res_Logs = ''done'',
       res_LogsTruncated = False\<rparr>, rec_Failure = [], rec_Released = 0\<rparr>"

theorem record_roundtrip_witness:
  "recordOf plain_uuid (stored_row sample_db (rowOf plain_uuid row_record)) = Inr row_record"
proof -
  have "fits_row sample_db row_record"
    by (simp add: fits_row_def row_record_def kept_duration_def Milliseconds_def Millisecond_def go_div_def MaxStoredLogs_def
        wrap64_def) (simp add: sample_db_def)
  with record_roundtrip [OF plain_uuid_ok, of sample_db row_record] show ?thesis by simp
qed

end
