(* ===== verification/PgJobs.thy ===== *)
theory PgJobs
  imports Transactions
begin

text \<open>
  Registered jobs in the database.  A job's row points at a version that exists, the newest of its
  versions, and registering keeps it so, whichever process registers.
\<close>

section \<open>Rows of jobs and versions\<close>

definition versions_of :: "string \<Rightarrow> string \<Rightarrow> Tables \<Rightarrow> JobVersionRow set" where
  "versions_of ns name t = {v \<in> set (t_versions t). vr_Namespace v = ns \<and> vr_Name v = name}"

definition job_ok :: "Tables \<Rightarrow> JobRow \<Rightarrow> bool" where
  "job_ok t j \<longleftrightarrow> jr_Version j < MaxInt64 \<and> 0 < jr_Version j \<and>
     (\<exists>v \<in> versions_of (jr_Namespace j) (jr_Name j) t. vr_Version v = jr_Version j) \<and>
     (\<forall>v \<in> versions_of (jr_Namespace j) (jr_Name j) t. vr_Version v \<le> jr_Version j)"

definition job_rows_ok :: "(string \<Rightarrow> string) \<Rightarrow> Tables \<Rightarrow> bool" where
  "job_rows_ok fp t \<longleftrightarrow> distinct (map (\<lambda>j. (jr_Namespace j, jr_Name j)) (t_jobs t)) \<and>
     distinct (map (\<lambda>v. (vr_Namespace v, vr_Name v, vr_Version v)) (t_versions t)) \<and>
     (\<forall>j \<in> set (t_jobs t). job_ok t j) \<and> (\<forall>v \<in> set (t_versions t). vr_Fingerprint v = fp (vr_Source v)) \<and>
     (\<forall>v \<in> set (t_versions t). \<exists>j \<in> set (t_jobs t). job_row (vr_Namespace v) (vr_Name v) j)"

text \<open>The row of a job, and the version it points at.\<close>

definition current_row :: "string \<Rightarrow> string \<Rightarrow> Tables \<Rightarrow> (JobRow \<times> JobVersionRow) option" where
  "current_row ns name t =
     (case find_first (job_row ns name) (t_jobs t) of
        None \<Rightarrow> None
      | Some j \<Rightarrow> map_option (Pair j) (find_first (version_row ns name (jr_Version j)) (t_versions t)))"

lemma find_first_unique:
  assumes "distinct (map f xs)" "x \<in> set xs" "P x" "\<And>y. y \<in> set xs \<Longrightarrow> P y \<Longrightarrow> f y = f x"
  shows "find_first P xs = Some x"
  using assms
proof (induction xs)
  case (Cons a xs)
  show ?case
  proof (cases "P a")
    case True
    then have "f a = f x" using Cons.prems(4) [of a] by simp
    moreover have "f a \<notin> f ` set xs" using Cons.prems(1) by simp
    ultimately have "a = x" using Cons.prems(2) by (auto dest: imageI [of _ _ f])
    with True show ?thesis by simp
  next
    case False
    then have "x \<in> set xs" using Cons.prems(2,3) by auto
    moreover have "distinct (map f xs)" using Cons.prems(1) by simp
    moreover have "f y = f x" if "y \<in> set xs" "P y" for y by (rule Cons.prems(4)) (simp_all add: that)
    ultimately have "find_first P xs = Some x" using Cons.prems(3) by (intro Cons.IH)
    with False show ?thesis by simp
  qed
qed simp

lemma job_unique:
  assumes "job_rows_ok fp t" "j \<in> set (t_jobs t)" "job_row ns name j"
  shows "find_first (job_row ns name) (t_jobs t) = Some j"
  by (rule find_first_unique [where f = "\<lambda>j. (jr_Namespace j, jr_Name j)"])
    (use assms in \<open>auto simp: job_rows_ok_def job_row_def\<close>)

lemma version_unique:
  assumes "job_rows_ok fp t" "v \<in> set (t_versions t)" "version_row ns name n v"
  shows "find_first (version_row ns name n) (t_versions t) = Some v"
  by (rule find_first_unique [where f = "\<lambda>v. (vr_Namespace v, vr_Name v, vr_Version v)"])
    (use assms in \<open>auto simp: job_rows_ok_def version_row_def\<close>)

lemma current_none:
  assumes "job_rows_ok fp t"
  shows "Queries_CurrentJobVersion ns name w t = Inl err \<longleftrightarrow>
    err = Sentinel ErrNoRows \<and> (\<forall>j \<in> set (t_jobs t). \<not> job_row ns name j)"
proof -
  have "\<exists>j \<in> set (t_jobs t). \<exists>v \<in> set (t_versions t). job_row ns name j \<and> version_row (jr_Namespace j) (jr_Name j) (jr_Version j) v"
    if "j \<in> set (t_jobs t)" "job_row ns name j" for j
    using that assms by (fastforce simp: job_rows_ok_def job_ok_def versions_of_def version_row_def)
  then show ?thesis
    by (auto simp: Queries_CurrentJobVersion_def split: option.split) (fastforce dest: find_first_SomeD)
qed

lemma current_some:
  assumes "job_rows_ok fp t" "Queries_CurrentJobVersion ns name w t = Inr (current, t')"
  obtains j v where "t' = t" "j \<in> set (t_jobs t)" "job_row ns name j" "v \<in> set (t_versions t)"
    "version_row ns name (jr_Version j) v"
    "current = \<lparr>cv_Version = jr_Version j, cv_Stopped = jr_Stopped j, cv_Fingerprint = vr_Fingerprint v\<rparr>"
proof -
  obtain j v where f: "find_first (\<lambda>(j, v). job_row ns name j \<and> version_row (jr_Namespace j) (jr_Name j) (jr_Version j) v)
      (List.product (t_jobs t) (t_versions t)) = Some (j, v)"
    and r: "current = \<lparr>cv_Version = jr_Version j, cv_Stopped = jr_Stopped j, cv_Fingerprint = vr_Fingerprint v\<rparr>" "t' = t"
    using assms(2) by (auto simp: Queries_CurrentJobVersion_def split: option.splits)
  show thesis using find_first_SomeD [OF f] r by (intro that [of j v]) (auto simp: job_row_def)
qed

section \<open>Registering\<close>

text \<open>A new version on top of every other of its job.\<close>

definition next_version :: "string \<Rightarrow> string \<Rightarrow> Tables \<Rightarrow> int" where
  "next_version ns name t = (case find_first (job_row ns name) (t_jobs t) of None \<Rightarrow> 1 | Some j \<Rightarrow> jr_Version j + 1)"

lemma job_row_updates [simp]: "job_row ns name (j\<lparr>jr_Version := a, jr_Stopped := b, jr_UpdatedAt := c\<rparr>) = job_row ns name j"
  by (simp add: job_row_def)

lemma older_versions:
  assumes "job_rows_ok fp t" "v \<in> versions_of ns name t"
  shows "vr_Version v < next_version ns name t"
proof -
  obtain j where j: "j \<in> set (t_jobs t)" "job_row ns name j"
    using assms by (force simp: job_rows_ok_def versions_of_def)
  moreover have "job_ok t j" using assms(1) j(1) by (simp add: job_rows_ok_def)
  ultimately show ?thesis
    using assms(2) job_unique [OF assms(1) j] by (auto simp: next_version_def job_ok_def job_row_def)
qed

lemma registered_ok:
  assumes ok: "job_rows_ok fp t" and room: "next_version ns name t < MaxInt64"
    and n: "n = next_version ns name t"
    and ins: "Queries_InsertJobVersion db \<lparr>vr_Namespace = ns, vr_Name = name, vr_Version = n, vr_Source = source,
        vr_Fingerprint = fp source, vr_CreatedAt = clock\<rparr> w t = Inr (x, t1)"
    and point: "Queries_PointJobAt db \<lparr>pj_Namespace = ns, pj_Name = name, pj_Version = n, pj_UpdatedAt = clock\<rparr> w' t1 = Inr (y, t2)"
  shows "job_rows_ok fp t2 \<and>
    (\<exists>j v. current_row ns name t2 = Some (j, v) \<and> jr_Version j = n \<and> \<not> jr_Stopped j \<and> vr_Source v = source)"
proof -
  let ?v = "\<lparr>vr_Namespace = ns, vr_Name = name, vr_Version = n, vr_Source = source, vr_Fingerprint = fp source,
    vr_CreatedAt = db_time db clock\<rparr>"
  let ?set = "\<lambda>r. r\<lparr>jr_Version := n, jr_Stopped := False, jr_UpdatedAt := db_time db clock\<rparr>"
  let ?new = "\<lparr>jr_Namespace = ns, jr_Name = name, jr_Version = n, jr_Stopped = False, jr_UpdatedAt = db_time db clock\<rparr>"
  have t1: "t1 = t\<lparr>t_versions := t_versions t @ [?v]\<rparr>"
    using ins by (auto simp: Queries_InsertJobVersion_def split: if_splits)
  have pos: "0 < n" using ok by (auto simp: n next_version_def job_rows_ok_def job_ok_def split: option.split dest!: find_first_SomeD)
  have t2: "t_versions t2 = t_versions t @ [?v]"
    "t_jobs t2 = (if \<exists>j \<in> set (t_jobs t). job_row ns name j then updated (job_row ns name) ?set (t_jobs t) else t_jobs t @ [?new])"
    using point by (auto simp: Queries_PointJobAt_def Let_def t1)
  have mine: "\<exists>j \<in> set (t_jobs t2). job_row ns name j"
  proof (cases "\<exists>j \<in> set (t_jobs t). job_row ns name j")
    case True
    then obtain j where "j \<in> set (t_jobs t)" "job_row ns name j" by blast
    then have "?set j \<in> set (t_jobs t2)" "job_row ns name (?set j)" by (force simp: t2(2) updated_def)+
    then show ?thesis by blast
  next
    case False
    then have "t_jobs t2 = t_jobs t @ [?new]" by (simp only: t2(2) if_False)
    then have "?new \<in> set (t_jobs t2)" "job_row ns name ?new" by (simp_all add: job_row_def)
    then show ?thesis by blast
  qed
  have jobs: "j \<in> set (t_jobs t2) \<Longrightarrow> job_row ns name j \<Longrightarrow> jr_Version j = n \<and> \<not> jr_Stopped j"
    "j \<in> set (t_jobs t2) \<Longrightarrow> \<not> job_row ns name j \<Longrightarrow> j \<in> set (t_jobs t)" for j
    by (auto simp: t2(2) updated_def split: if_splits) (auto simp: job_row_def)
  have keys: "distinct (map (\<lambda>j. (jr_Namespace j, jr_Name j)) (t_jobs t2))"
  proof (cases "\<exists>j \<in> set (t_jobs t). job_row ns name j")
    case True
    have "map (\<lambda>j. (jr_Namespace j, jr_Name j)) (updated (job_row ns name) ?set (t_jobs t)) = map (\<lambda>j. (jr_Namespace j, jr_Name j)) (t_jobs t)"
      by (auto simp: updated_def)
    with True ok show ?thesis by (simp add: t2(2) job_rows_ok_def)
  next
    case False
    with ok show ?thesis by (auto simp: t2(2) job_rows_ok_def job_row_def)
  qed
  have older: "vr_Version v < n" if "v \<in> set (t_versions t)" "vr_Namespace v = ns" "vr_Name v = name" for v
    using older_versions [OF ok, of v ns name] that by (simp add: n versions_of_def)
  have all: "job_ok t2 j" if "j \<in> set (t_jobs t2)" for j
  proof (cases "job_row ns name j")
    case True
    have mine: "versions_of ns name t2 = insert ?v (versions_of ns name t)" by (auto simp: versions_of_def t2(1))
    have "jr_Namespace j = ns" "jr_Name j = name" "jr_Version j = n"
      using True jobs(1) [OF that True] by (simp_all add: job_row_def)
    moreover have "\<forall>v \<in> versions_of ns name t. vr_Version v \<le> n" using older by (auto simp: versions_of_def less_imp_le)
    ultimately show ?thesis using pos room by (simp add: job_ok_def mine n [symmetric])
  next
    case False
    then have "job_ok t j" using jobs(2) that ok by (auto simp: job_rows_ok_def)
    moreover have "versions_of (jr_Namespace j) (jr_Name j) t2 = versions_of (jr_Namespace j) (jr_Name j) t"
      using False by (auto simp: versions_of_def t2(1) job_row_def)
    ultimately show ?thesis by (simp add: job_ok_def)
  qed
  have owned: "\<exists>j \<in> set (t_jobs t2). job_row (vr_Namespace v) (vr_Name v) j" if "v \<in> set (t_versions t2)" for v
  proof (cases "v = ?v")
    case True
    with mine show ?thesis by simp
  next
    case False
    with that have "v \<in> set (t_versions t)" by (simp add: t2(1))
    then obtain j where j: "j \<in> set (t_jobs t)" "job_row (vr_Namespace v) (vr_Name v) j"
      using ok by (auto simp: job_rows_ok_def)
    then have "?set j \<in> set (t_jobs t2) \<or> j \<in> set (t_jobs t2)" by (auto simp: t2(2) updated_def)
    with j(2) show ?thesis by (metis job_row_updates)
  qed
  have versions: "distinct (map (\<lambda>v. (vr_Namespace v, vr_Name v, vr_Version v)) (t_versions t2))"
    using ok older by (fastforce simp: t2(1) job_rows_ok_def)
  have prints: "\<forall>v \<in> set (t_versions t2). vr_Fingerprint v = fp (vr_Source v)"
    using ok by (auto simp: t2(1) job_rows_ok_def)
  have ok2: "job_rows_ok fp t2"
    unfolding job_rows_ok_def using keys versions all prints owned by blast
  obtain j where j: "j \<in> set (t_jobs t2)" "job_row ns name j" using mine by blast
  have "find_first (version_row ns name n) (t_versions t2) = Some ?v"
    by (rule version_unique [OF ok2]) (simp_all add: t2(1) version_row_def)
  with job_unique [OF ok2 j] jobs(1) [OF j] ok2 show ?thesis by (simp add: current_row_def)
qed


text \<open>The closure of a registration, and the two statements it inserts a version with.\<close>

definition inserting :: "'w Db \<Rightarrow> string \<Rightarrow> string \<Rightarrow> string \<Rightarrow> string \<Rightarrow> Time \<Rightarrow> int \<Rightarrow> ('w, int \<times> bool, goerror option) Q" where
  "inserting db print ns name source clock version =
     do {
       assign (\<lambda>_. (version, True));
       statement db (Queries_InsertJobVersion db \<lparr>vr_Namespace = ns, vr_Name = name, vr_Version = version,
           vr_Source = source, vr_Fingerprint = print, vr_CreatedAt = clock\<rparr>)
         (\<lambda>err. Formatted ''insert job %s version %d: %w'' [S name, N version] [err])
         (\<lambda>_. statement db (Queries_PointJobAt db \<lparr>pj_Namespace = ns, pj_Name = name, pj_Version = version,
             pj_UpdatedAt = clock\<rparr>)
           (\<lambda>err. Formatted ''point job %s at version %d: %w'' [S name, N version] [err])
           (\<lambda>_. ret None))
     }"

definition registering :: "'w Db \<Rightarrow> (string \<Rightarrow> string) \<Rightarrow> string \<Rightarrow> string \<Rightarrow> string \<Rightarrow> Time \<Rightarrow> ('w, int \<times> bool, goerror option) Q" where
  "registering db fp ns name source clock =
     do {
       res \<leftarrow> query db (Queries_CurrentJobVersion ns name);
       (case res of
          Inl err \<Rightarrow> if err_is ErrNoRows err then inserting db (fp source) ns name source clock (wrap64 (0 + 1))
            else ret (Some (Formatted ''read job %s: %w'' [S name] [err]))
        | Inr current \<Rightarrow>
            if \<not> cv_Stopped current \<and> cv_Fingerprint current = fp source
            then do { assign (\<lambda>_. (cv_Version current, False)); ret None }
            else inserting db (fp source) ns name source clock (wrap64 (cv_Version current + 1)))
     }"

lemma Pg_Register_closure:
  "Pg_Register db fp ns name source clock s =
     (case writing db (registering db fp ns name source clock) (0, False) s of
        ((Some err, vars), s') \<Rightarrow> (Inl err, s') | ((None, vars), s') \<Rightarrow> (Inr vars, s'))"
  unfolding Pg_Register_def registering_def inserting_def Let_def ..

lemma inserting_run:
  assumes "run_state (inserting db print ns name source clock n) s = (None, s')"
  shows "tx_vars s' = (n, True) \<and> (\<exists>w w' t1.
    Queries_InsertJobVersion db \<lparr>vr_Namespace = ns, vr_Name = name, vr_Version = n, vr_Source = source,
      vr_Fingerprint = print, vr_CreatedAt = clock\<rparr> w (tx_tables s) = Inr ((), t1) \<and>
    Queries_PointJobAt db \<lparr>pj_Namespace = ns, pj_Name = name, pj_Version = n, pj_UpdatedAt = clock\<rparr> w' t1 =
      Inr ((), tx_tables s'))"
  using assms unfolding inserting_def
  by (auto dest!: statement_run) blast

text \<open>What one registration has to have done to the tables when it answers.\<close>

definition registered :: "(string \<Rightarrow> string) \<Rightarrow> string \<Rightarrow> string \<Rightarrow> string \<Rightarrow> int \<times> bool \<Rightarrow> Tables \<Rightarrow> Tables \<Rightarrow> bool" where
  "registered fp ns name source answer t t' \<longleftrightarrow> job_rows_ok fp t' \<and>
     (\<exists>j v. current_row ns name t' = Some (j, v) \<and> jr_Version j = fst answer \<and> \<not> jr_Stopped j \<and> fp (vr_Source v) = fp source) \<and>
     (if snd answer then fst answer = next_version ns name t else t' = t)"

lemma inserting_registered:
  assumes "job_rows_ok fp t" "next_version ns name t < MaxInt64" "n = next_version ns name t"
    and "run_state (inserting db (fp source) ns name source clock n) s = (None, s')" "tx_tables s = t"
  shows "registered fp ns name source (tx_vars s') t (tx_tables s')"
proof -
  from inserting_run [OF assms(4)] obtain w w' t1 where v: "tx_vars s' = (n, True)"
    and ran: "Queries_InsertJobVersion db \<lparr>vr_Namespace = ns, vr_Name = name, vr_Version = n, vr_Source = source,
        vr_Fingerprint = fp source, vr_CreatedAt = clock\<rparr> w t = Inr ((), t1)"
      "Queries_PointJobAt db \<lparr>pj_Namespace = ns, pj_Name = name, pj_Version = n, pj_UpdatedAt = clock\<rparr> w' t1 =
        Inr ((), tx_tables s')"
    using assms(5) by auto
  from registered_ok [OF assms(1-3) ran] v assms(3) show ?thesis by (auto simp: registered_def)
qed

text \<open>Only a query that ran answers that it found no row.\<close>

definition rows_missed_only_by_queries :: "'w Db \<Rightarrow> bool" where
  "rows_missed_only_by_queries db \<longleftrightarrow>
     (\<forall>w. case fst (db_statement db w) of None \<Rightarrow> True | Some e \<Rightarrow> \<not> err_is ErrNoRows e)"

lemma query_failed:
  assumes "run_state (query db stmt) s = (Inl err, u)" "rows_missed_only_by_queries db" "err_is ErrNoRows err"
  shows "tx_tables u = tx_tables s \<and> (\<exists>w. stmt w (tx_tables s) = Inl err)"
  using assms spec [OF assms(2) [unfolded rows_missed_only_by_queries_def], of "tx_env s"]
  by (auto simp: query_def split: option.splits sum.splits prod.splits)

lemma registering_registered:
  fixes db :: "'w Db"
  assumes ok: "job_rows_ok fp t" and room: "next_version ns name t < MaxInt64" and db: "rows_missed_only_by_queries db"
    and ap: "applied (registering db fp ns name source clock) t answer t'"
  shows "registered fp ns name source answer t t'"
proof -
  obtain s s' where s: "tx_tables s = t" "run_state (registering db fp ns name source clock) s = (None, s')"
      "tx_tables s' = t'" "tx_vars s' = answer"
    using ap by (auto simp: applied_def)
  obtain res u where q: "run_state (query db (Queries_CurrentJobVersion ns name)) s = (res, u)" by fastforce
  show ?thesis
  proof (cases res)
    case (Inl err)
    then have missed: "err_is ErrNoRows err"
      and ins: "run_state (inserting db (fp source) ns name source clock 1) u = (None, s')"
      using s(2) q by (auto simp: registering_def int64_def split: if_splits)
    obtain w :: 'w where u: "tx_tables u = t" and "Queries_CurrentJobVersion ns name w t = Inl err"
      using query_failed [OF q [unfolded Inl] db missed] unfolding s(1) by blast
    then have "\<forall>j \<in> set (t_jobs t). \<not> job_row ns name j"
      using current_none [OF ok, of ns name w err] by simp
    then have "1 = next_version ns name t" by (auto simp: next_version_def split: option.split dest!: find_first_SomeD)
    from inserting_registered [OF ok room this ins u] s(3,4) show ?thesis by simp
  next
    case (Inr current)
    from query_run [OF q] Inr s(1) obtain w :: 'w and tables
      where "Queries_CurrentJobVersion ns name w t = Inr (current, tables)" "tx_tables u = tables"
      by auto
    with current_some [OF ok] obtain j v where jv: "tx_tables u = t" "j \<in> set (t_jobs t)" "job_row ns name j"
      "v \<in> set (t_versions t)" "version_row ns name (jr_Version j) v"
      "current = \<lparr>cv_Version = jr_Version j, cv_Stopped = jr_Stopped j, cv_Fingerprint = vr_Fingerprint v\<rparr>" by metis
    note j = job_unique [OF ok jv(2,3)] and v = version_unique [OF ok jv(4,5)]
    have print: "vr_Fingerprint v = fp (vr_Source v)" using ok jv(4) by (simp add: job_rows_ok_def)
    show ?thesis
    proof (cases "\<not> cv_Stopped current \<and> cv_Fingerprint current = fp source")
      case True
      then have "tx_tables s' = t" "tx_vars s' = (jr_Version j, False)"
        using s(2) q Inr jv(1,6) by (auto simp: registering_def)
      then show ?thesis using True s(3,4) ok j v print jv(6) by (auto simp: registered_def current_row_def)
    next
      case False
      have "0 < jr_Version j" "jr_Version j + 1 < MaxInt64"
        using ok jv(2) room j by (auto simp: job_rows_ok_def job_ok_def next_version_def)
      then have "wrap64 (cv_Version current + 1) = jr_Version j + 1"
        by (simp add: jv(6) int64_def MaxInt64_def)
      then have "run_state (inserting db (fp source) ns name source clock (jr_Version j + 1)) u = (None, s')"
        using s(2) q Inr False by (auto simp: registering_def)
      from inserting_registered [OF ok room _ this jv(1)] j s(3,4) show ?thesis by (simp add: next_version_def)
    qed
  qed
qed

section \<open>Property\<close>

text \<open>C10. However the database schedules it, a registration that answers has made the submitted source current:
  its job points at the version answered, which is not stopped and says what the source says.  It is new exactly
  when the answer says so, one above every version the job had, and otherwise nothing was written.\<close>

theorem database_registers:
  assumes "commit_decides db" "rows_missed_only_by_queries db"
    and "\<And>w t. job_rows_ok fp t \<Longrightarrow> job_rows_ok fp (db_others db w t)" "job_rows_ok fp (pg_tables s)"
    and "\<And>t. others_acted db (pg_tables s) t \<Longrightarrow> next_version ns name t < MaxInt64"
    and "Pg_Register db fp ns name source clock s = (Inr (version, fresh), s')"
  shows "\<exists>t. others_acted db (pg_tables s) t \<and> job_rows_ok fp (pg_tables s') \<and>
    (\<exists>j v. current_row ns name (pg_tables s') = Some (j, v) \<and> jr_Version j = version \<and> \<not> jr_Stopped j \<and>
      fp (vr_Source v) = fp source) \<and>
    (if fresh then version = next_version ns name t \<and> (\<forall>v \<in> versions_of ns name t. vr_Version v < version)
     else pg_tables s' = t)"
proof -
  have w: "writing db (registering db fp ns name source clock) (0, False) s = ((None, version, fresh), s')"
    using assms(6) by (auto simp: Pg_Register_closure split: prod.splits option.splits)
  from writing_applied [OF assms(1) w] obtain t where t: "others_acted db (pg_tables s) t"
    and ap: "applied (registering db fp ns name source clock) t (version, fresh) (pg_tables s')" by blast
  have ok: "job_rows_ok fp t"
    using t assms(3,4) unfolding others_acted_def by (induction rule: rtranclp_induct) auto
  from registering_registered [OF ok assms(5) [OF t] assms(2) ap] t older_versions [OF ok, of _ ns name]
  show ?thesis by (auto simp: registered_def intro!: exI [of _ t])
qed

text \<open>The first registration of a job with the sample database, whose first commit is refused.\<close>

theorem database_registers_witness:
  "map_option (\<lambda>(j, v). (jr_Version j, vr_Source v))
     (current_row ''ns'' ''j'' (pg_tables (snd (Pg_Register sample_db id ''ns'' ''j'' ''src'' 5 sample_pg)))) = Some (1, ''src'')"
proof -
  obtain s' where r: "Pg_Register sample_db id ''ns'' ''j'' ''src'' 5 sample_pg = (Inr (1, True), s')"
  proof -
    have "fst (Pg_Register sample_db id ''ns'' ''j'' ''src'' 5 sample_pg) = Inr (1, True)" by code_simp
    then show thesis using that by (metis prod.collapse)
  qed
  have idle: "db_others sample_db w t = t" for w t by (simp add: sample_db_def)
  have alone: "t = pg_tables sample_pg" if "others_acted sample_db (pg_tables sample_pg) t" for t
    using that unfolding others_acted_def by (induction rule: rtranclp_induct) (simp_all add: idle)
  have quiet: "rows_missed_only_by_queries sample_db" by (simp add: rows_missed_only_by_queries_def sample_db_def)
  have none: "job_rows_ok id (pg_tables sample_pg)" by (simp add: job_rows_ok_def sample_pg_def)
  have room: "next_version ''ns'' ''j'' t < MaxInt64" if "others_acted sample_db (pg_tables sample_pg) t" for t
    using alone [OF that] by (simp add: next_version_def sample_pg_def MaxInt64_def)
  from database_registers [OF sample_decides quiet _ none room r] show ?thesis by (auto simp: idle r)
qed

end
