(* ===== verification/PgClaims.thy ===== *)
theory PgClaims
  imports PgStore
begin

text \<open>
  Leases in the database, which any number of processes share.  While the lease of a claim runs, nothing
  that processes write to the tables in time takes the dispatch from its owner, so no other claim answers it.
\<close>

section \<open>Dispatch rows\<close>

text \<open>The primary key, and that rows are written under the text of an identifier.\<close>

definition dispatches_ok :: "UUID \<Rightarrow> Tables \<Rightarrow> bool" where
  "dispatches_ok u t \<longleftrightarrow> distinct (map gr_DispatchID (t_dispatches t)) \<and>
     (\<forall>row \<in> set (t_dispatches t). \<exists>i. gr_DispatchID row = ID_String u i)"

definition leased :: "'w Db \<Rightarrow> UUID \<Rightarrow> ID \<Rightarrow> string \<Rightarrow> Time \<Rightarrow> Tables \<Rightarrow> bool" where
  "leased db u i owner until t \<longleftrightarrow> ID_String u i \<in> gr_DispatchID ` set (t_dispatches t) \<and>
     (\<forall>row \<in> set (t_dispatches t). gr_DispatchID row = ID_String u i \<longrightarrow> gr_State row = ''running'' \<longrightarrow>
       gr_Owner row = owner \<and> db_time db until \<le> gr_LeaseUntil row)"

text \<open>
  What a process may do to the tables until \<open>until\<close>: any statement of the store, a renewal being for no
  less than that and a claim made no later, and anything that leaves the dispatches alone.
\<close>

inductive dispatch_step :: "'w Db \<Rightarrow> UUID \<Rightarrow> Time \<Rightarrow> Tables \<Rightarrow> Tables \<Rightarrow> bool" for db u until where
  begins: "Queries_CreateDispatch db arg w t = Inr ((), t') \<Longrightarrow> cd_DispatchID arg = ID_String u i \<Longrightarrow>
    dispatch_step db u until t t'"
| finishes: "Queries_FinishDispatch db arg w t = Inr (n, t') \<Longrightarrow> dispatch_step db u until t t'"
| renews: "Queries_RenewDispatch db arg w t = Inr (n, t') \<Longrightarrow> until \<le> rd_LeaseUntil arg \<Longrightarrow> dispatch_step db u until t t'"
| claims: "Queries_ClaimDispatches db arg w t = Inr (rows, t') \<Longrightarrow> kd_Now arg \<le> until \<Longrightarrow> dispatch_step db u until t t'"
| elsewhere: "t_dispatches t' = t_dispatches t \<Longrightarrow> dispatch_step db u until t t'"

lemma updated_ids:
  "\<forall>r. gr_DispatchID (g r) = gr_DispatchID r \<Longrightarrow> map gr_DispatchID (updated P g rows) = map gr_DispatchID rows"
  by (simp add: updated_def)

lemma updated_ok:
  assumes "t_dispatches t' = updated P g (t_dispatches t)" "\<And>r. gr_DispatchID (g r) = gr_DispatchID r" "dispatches_ok u t"
  shows "dispatches_ok u t'"
proof -
  have ids: "map gr_DispatchID (t_dispatches t') = map gr_DispatchID (t_dispatches t)"
    using assms(2) by (simp add: assms(1) updated_ids)
  then have "gr_DispatchID ` set (t_dispatches t') = gr_DispatchID ` set (t_dispatches t)" by (metis set_map)
  then have "\<forall>row \<in> set (t_dispatches t'). \<exists>i. gr_DispatchID row = ID_String u i"
    using assms(3) unfolding dispatches_ok_def by (metis (mono_tags, lifting) image_iff)
  then show ?thesis using assms(3) ids by (simp add: dispatches_ok_def)
qed

lemma updated_leased:
  assumes "t_dispatches t' = updated P g (t_dispatches t)" "\<And>r. gr_DispatchID (g r) = gr_DispatchID r" "leased db u i owner until t"
    and "\<And>row. row \<in> set (t_dispatches t) \<Longrightarrow> P row \<Longrightarrow> gr_DispatchID row = ID_String u i \<Longrightarrow> gr_State (g row) = ''running'' \<Longrightarrow>
      gr_Owner (g row) = owner \<and> db_time db until \<le> gr_LeaseUntil (g row)"
  shows "leased db u i owner until t'"
proof -
  have "gr_DispatchID ` set (t_dispatches t') = gr_DispatchID ` set (t_dispatches t)"
    using arg_cong [OF updated_ids [of g P "t_dispatches t"], of set] assms(2) by (simp add: assms(1))
  then show ?thesis using assms(2-4) unfolding leased_def assms(1) by (auto simp: updated_def)
qed

text \<open>What each statement that changes rows makes of them.\<close>

lemma finished_rows:
  "Queries_FinishDispatch db arg w t = Inr (n, t') \<Longrightarrow> t_dispatches t' = updated (held_by (fd_DispatchID arg) (fd_Owner arg))
      (\<lambda>r. r\<lparr>gr_State := fd_State arg, gr_Error := fd_Error arg, gr_EndedAt := map_option (db_time db) (fd_EndedAt arg)\<rparr>)
      (t_dispatches t)"
  by (auto simp: Queries_FinishDispatch_def Let_def)

lemma renewed_rows:
  "Queries_RenewDispatch db arg w t = Inr (n, t') \<Longrightarrow> t_dispatches t' = updated (held_by (rd_DispatchID arg) (rd_Owner arg))
      (\<lambda>r. r\<lparr>gr_LeaseUntil := db_time db (rd_LeaseUntil arg)\<rparr>) (t_dispatches t)"
  by (auto simp: Queries_RenewDispatch_def Let_def)

lemma claimed_rows:
  assumes "Queries_ClaimDispatches db arg w t = Inr (rows, t')"
  shows "t_dispatches t' = updated (lapsed db arg)
      (\<lambda>r. r\<lparr>gr_Owner := kd_Owner arg, gr_LeaseUntil := db_time db (kd_LeaseUntil arg)\<rparr>) (t_dispatches t)"
    and "rows = map (\<lambda>r. r\<lparr>gr_Owner := kd_Owner arg, gr_LeaseUntil := db_time db (kd_LeaseUntil arg)\<rparr>)
      (filter (lapsed db arg) (t_dispatches t))"
proof -
  have "t\<lparr>t_dispatches := updated (lapsed db arg)
      (\<lambda>r. r\<lparr>gr_Owner := kd_Owner arg, gr_LeaseUntil := db_time db (kd_LeaseUntil arg)\<rparr>) (t_dispatches t)\<rparr> = t'"
    using assms by (simp add: Queries_ClaimDispatches_def Let_def)
  then show "t_dispatches t' = updated (lapsed db arg)
      (\<lambda>r. r\<lparr>gr_Owner := kd_Owner arg, gr_LeaseUntil := db_time db (kd_LeaseUntil arg)\<rparr>) (t_dispatches t)" by force
  show "rows = map (\<lambda>r. r\<lparr>gr_Owner := kd_Owner arg, gr_LeaseUntil := db_time db (kd_LeaseUntil arg)\<rparr>)
      (filter (lapsed db arg) (t_dispatches t))"
    using assms by (simp add: Queries_ClaimDispatches_def Let_def)
qed

lemma dispatch_step_ok: "dispatch_step db u until t t' \<Longrightarrow> dispatches_ok u t \<Longrightarrow> dispatches_ok u t'"
proof (induction rule: dispatch_step.induct)
  case (begins arg w t t' i)
  then show ?case by (fastforce simp: Queries_CreateDispatch_def dispatches_ok_def split: if_splits)
next
  case (finishes arg w t n t')
  then show ?case by (auto intro: updated_ok [OF finished_rows])
next
  case (renews arg w t n t')
  then show ?case by (auto intro: updated_ok [OF renewed_rows])
next
  case (claims arg w t rows t')
  then show ?case by (auto intro: updated_ok [OF claimed_rows(1)])
qed (simp add: dispatches_ok_def)

lemma dispatch_steps_ok: "(dispatch_step db u until)\<^sup>*\<^sup>* t t' \<Longrightarrow> dispatches_ok u t \<Longrightarrow> dispatches_ok u t'"
  by (induction rule: rtranclp_induct) (auto intro: dispatch_step_ok)

lemma leased_step:
  assumes "mono (db_time db)"
  shows "dispatch_step db u until t t' \<Longrightarrow> leased db u i owner until t \<Longrightarrow> leased db u i owner until t'"
proof (induction rule: dispatch_step.induct)
  case (begins arg w t t' j)
  then show ?case by (auto simp: Queries_CreateDispatch_def leased_def image_iff split: if_splits)
next
  case (finishes arg w t n t')
  show ?case
    by (rule updated_leased [OF finished_rows [OF finishes.hyps] _ finishes.prems])
      (use finishes.prems in \<open>auto simp: leased_def held_by_def\<close>)
next
  case (renews arg w t n t')
  then have later: "db_time db until \<le> db_time db (rd_LeaseUntil arg)" using assms by (auto dest: monoD)
  show ?case
    by (rule updated_leased [OF renewed_rows [OF renews.hyps(1)] _ renews.prems])
      (use later renews.prems in \<open>auto simp: leased_def\<close>)
next
  case (claims arg w t rows t')
  then have "db_time db (kd_Now arg) \<le> db_time db until" using assms by (auto dest: monoD)
  then have "\<not> lapsed db arg row" if "row \<in> set (t_dispatches t)" "gr_DispatchID row = ID_String u i" for row
    using that claims.prems by (fastforce simp: leased_def lapsed_def)
  then show ?case
    by (intro updated_leased [OF claimed_rows(1) [OF claims.hyps(1)] _ claims.prems]) auto
qed (simp add: leased_def)

lemma leased_steps:
  "mono (db_time db) \<Longrightarrow> (dispatch_step db u until)\<^sup>*\<^sup>* t t' \<Longrightarrow> leased db u i owner until t \<Longrightarrow> leased db u i owner until t'"
  by (rotate_tac 1, induction rule: rtranclp_induct) (auto intro: leased_step)

section \<open>Whole writes\<close>

interpretation leases: table_relation "(dispatch_step db u until)\<^sup>*\<^sup>*" for db u until
  by unfold_locales auto

fun in_time :: "Time \<Rightarrow> StoreWrite \<Rightarrow> bool" where
  "in_time until (Changes (Renews i owner renewed)) \<longleftrightarrow> until \<le> renewed"
| "in_time until (Claims owner clock claimed skip) \<longleftrightarrow> clock \<le> until"
| "in_time until w \<longleftrightarrow> True"

lemma closure_steps:
  assumes "in_time until (Changes w)" "run_state (closure db u w) s = (err, t)"
  shows "(dispatch_step db u until)\<^sup>*\<^sup>* (tx_tables s) (tx_tables t)"
proof (cases w)
  case (Creates r)
  show ?thesis using assms(2) unfolding Creates closure.simps
    by (rule leases.statement_related [rotated 2])
      (auto simp: Queries_CreateExecution_def intro!: r_into_rtranclp dispatch_step.elsewhere split: if_splits)
next
  case (Updates r from_state)
  show ?thesis using assms(2) unfolding Updates closure.simps
    by (rule leases.statement_related [rotated 2])
      (auto simp: Queries_UpdateExecution_def Let_def intro!: r_into_rtranclp dispatch_step.elsewhere split: if_splits)
next
  case (Marks i at_time)
  show ?thesis using assms(2) unfolding Marks closure.simps
    by (rule leases.statement_related [rotated 2])
      (auto simp: Queries_MarkExecutionReleased_def Let_def intro!: r_into_rtranclp dispatch_step.elsewhere)
next
  case (Begins d)
  show ?thesis using assms(2) unfolding Begins closure.simps
    by (rule leases.statement_related [rotated 2]) (auto intro!: r_into_rtranclp intro: dispatch_step.begins)
next
  case (Finishes d)
  show ?thesis using assms(2) unfolding Finishes closure.simps
    by (rule leases.statement_related [rotated 2])
      (auto intro!: r_into_rtranclp intro: dispatch_step.finishes split: if_splits)
next
  case (Renews i owner renewed)
  show ?thesis using assms(2) unfolding Renews closure.simps
    by (rule leases.statement_related [rotated 2])
      (use assms(1) Renews in \<open>auto intro!: r_into_rtranclp intro: dispatch_step.renews split: if_splits\<close>)
qed

lemma claim_closure_steps:
  assumes "clock \<le> until" "run_state (claim_closure db u owner clock claimed skip) s = (err, t)"
  shows "(dispatch_step db u until)\<^sup>*\<^sup>* (tx_tables s) (tx_tables t)"
  using assms(2) unfolding claim_closure_def
  by (rule leases.statement_related [rotated 2])
    (use assms(1) in \<open>auto intro!: r_into_rtranclp intro: dispatch_step.claims split: sum.splits\<close>)

lemma store_write_steps:
  assumes "\<And>w t. (dispatch_step db u until)\<^sup>*\<^sup>* t (db_others db w t)" "in_time until w" "pg_store_write db u w s = (res, s')"
  shows "(dispatch_step db u until)\<^sup>*\<^sup>* (pg_tables s) (pg_tables s')"
proof (cases w)
  case (Changes c)
  obtain out where "writing db (closure db u c) () s = (out, s')"
    using assms(3) by (auto simp: Changes pg_write_closure apfst_def map_prod_def split: prod.splits)
  then show ?thesis
    by (rule leases.writing_related [OF _ assms(1), rotated]) (use assms(2) Changes closure_steps in blast)
next
  case (Claims owner clock claimed skip)
  obtain out where "writing db (claim_closure db u owner clock claimed skip) [] s = (out, s')"
    using assms(3) by (auto simp: Claims Pg_ClaimDispatches_closure split: prod.splits option.splits)
  then show ?thesis
    by (rule leases.writing_related [OF _ assms(1), rotated]) (use assms(2) Claims claim_closure_steps in auto)
qed

text \<open>What follows a claim while its lease runs: this process's writes, and whatever others do.\<close>

inductive before_lapse :: "'w Db \<Rightarrow> UUID \<Rightarrow> Time \<Rightarrow> 'w Pg \<Rightarrow> 'w Pg \<Rightarrow> bool" for db u until s where
  at_once: "before_lapse db u until s s"
| writing_on: "before_lapse db u until s t \<Longrightarrow> in_time until w \<Longrightarrow> pg_store_write db u w t = (res, t') \<Longrightarrow> before_lapse db u until s t'"
| others: "before_lapse db u until s t \<Longrightarrow> dispatch_step db u until (pg_tables t) rows \<Longrightarrow>
    before_lapse db u until s (t\<lparr>pg_tables := rows, pg_env := w\<rparr>)"

lemma before_lapse_steps:
  assumes "\<And>w t. (dispatch_step db u until)\<^sup>*\<^sup>* t (db_others db w t)"
  shows "before_lapse db u until s t \<Longrightarrow> (dispatch_step db u until)\<^sup>*\<^sup>* (pg_tables s) (pg_tables t)"
proof (induction rule: before_lapse.induct)
  case (writing_on t w res t')
  then show ?case using store_write_steps [OF assms] by (blast intro: rtranclp_trans)
qed auto

lemma dispatchRows_of_set:
  "dispatchRows_of u rows = Inr ds \<Longrightarrow> d \<in> set ds \<longleftrightarrow> (\<exists>row \<in> set rows. dispatchRow_of u row = Inr d)"
  by (induction rows arbitrary: ds) (auto split: sum.splits)

lemma dispatchRow_id:
  assumes "uuid_ok u" "dispatchRow_of u row = Inr d" "gr_DispatchID row = ID_String u i"
  shows "dis_ID d = i"
  using assms by (auto simp: dispatchRow_of_def split: sum.splits)

lemma claim_closure_answers:
  assumes "applied (claim_closure db u owner clock until skip) t claimed t'"
  shows "\<exists>w rows. Queries_ClaimDispatches db \<lparr>kd_Owner = owner, kd_LeaseUntil = until, kd_Now = clock,
      kd_Skip = map (ID_String u) skip\<rparr> w t = Inr (rows, t') \<and> dispatchRows_of u rows = Inr claimed"
  using statement_applied [OF assms [unfolded claim_closure_def]] by (fastforce simp: applied_def split: sum.splits)

text \<open>A claim that answers was made on top of what others did, and took rows whose lease had lapsed.\<close>

lemma claim_answered:
  assumes "commit_decides db" "Pg_ClaimDispatches db u owner clock until skip s = (Inr claimed, s')"
  obtains t w rows where "others_acted db (pg_tables s) t"
    "Queries_ClaimDispatches db \<lparr>kd_Owner = owner, kd_LeaseUntil = until, kd_Now = clock,
      kd_Skip = map (ID_String u) skip\<rparr> w t = Inr (rows, pg_tables s')" "dispatchRows_of u rows = Inr claimed"
proof -
  have "writing db (claim_closure db u owner clock until skip) [] s = ((None, claimed), s')"
    using assms(2) unfolding Pg_ClaimDispatches_closure by (auto split: prod.splits option.splits)
  from writing_applied [OF assms(1) this] that claim_closure_answers [of db u owner clock until skip] show thesis by blast
qed

lemma others_steps:
  assumes "\<And>w t. (dispatch_step db u until)\<^sup>*\<^sup>* t (db_others db w t)" "others_acted db s t"
  shows "(dispatch_step db u until)\<^sup>*\<^sup>* s t"
  using assms(2) unfolding others_acted_def
  by (induction rule: rtranclp_induct) (auto intro: rtranclp_trans assms(1))

lemma claimed_leased:
  assumes "uuid_ok u" "commit_decides db" "dispatches_ok u (pg_tables s)"
    and "\<And>w t. (dispatch_step db u until)\<^sup>*\<^sup>* t (db_others db w t)"
    and "Pg_ClaimDispatches db u owner clock until skip s = (Inr claimed, s')" "d \<in> set claimed"
  shows "leased db u (dis_ID d) owner until (pg_tables s')"
proof -
  let ?arg = "\<lparr>kd_Owner = owner, kd_LeaseUntil = until, kd_Now = clock, kd_Skip = map (ID_String u) skip\<rparr>"
  obtain t w rows where t: "others_acted db (pg_tables s) t"
    and q: "Queries_ClaimDispatches db ?arg w t = Inr (rows, pg_tables s')" "dispatchRows_of u rows = Inr claimed"
    using claim_answered [OF assms(2,5)] .
  have ok: "dispatches_ok u t" by (rule dispatch_steps_ok [OF others_steps [OF assms(4) t] assms(3)])
  let ?g = "\<lambda>r. r\<lparr>gr_Owner := owner, gr_LeaseUntil := db_time db until\<rparr>"
  have t': "t_dispatches (pg_tables s') = updated (lapsed db ?arg) ?g (t_dispatches t)"
    and rows: "rows = map ?g (filter (lapsed db ?arg) (t_dispatches t))"
    using claimed_rows [OF q(1)] by simp_all
  obtain row where row: "row \<in> set (t_dispatches t)" "lapsed db ?arg row" "dispatchRow_of u (?g row) = Inr d"
    using assms(6) dispatchRows_of_set [OF q(2)] rows by auto
  obtain i where i: "gr_DispatchID row = ID_String u i" using ok row(1) by (auto simp: dispatches_ok_def)
  have id: "dis_ID d = i" using dispatchRow_id [OF assms(1) row(3)] i by simp
  have only: "x = row" if "x \<in> set (t_dispatches t)" "gr_DispatchID x = ID_String u i" for x
    using same_row [of gr_DispatchID "t_dispatches t" x row] that ok row(1) i by (simp add: dispatches_ok_def)
  have "y = ?g row" if y: "y \<in> set (t_dispatches (pg_tables s'))" "gr_DispatchID y = ID_String u i" for y
  proof -
    obtain x where x: "x \<in> set (t_dispatches t)" "y = (if lapsed db ?arg x then ?g x else x)"
      using y(1) by (auto simp: t' updated_def)
    then have "gr_DispatchID x = ID_String u i" using y(2) by (auto split: if_splits)
    with only [OF x(1)] x(2) row(2) show ?thesis by simp
  qed
  moreover have "?g row \<in> set (t_dispatches (pg_tables s'))" using row(1,2) by (force simp: t' updated_def)
  ultimately show ?thesis unfolding leased_def id using i by force
qed

lemma leased_not_claimed:
  assumes "uuid_ok u" "commit_decides db" "mono (db_time db)" "dispatches_ok u (pg_tables s)" "leased db u i owner until (pg_tables s)"
    and "\<And>w t. (dispatch_step db u until)\<^sup>*\<^sup>* t (db_others db w t)"
    and "Pg_ClaimDispatches db u other clock later skip s = (Inr claimed, s')" "clock \<le> until"
  shows "i \<notin> dis_ID ` set claimed"
proof
  assume "i \<in> dis_ID ` set claimed"
  then obtain d where d: "d \<in> set claimed" "dis_ID d = i" by auto
  let ?arg = "\<lparr>kd_Owner = other, kd_LeaseUntil = later, kd_Now = clock, kd_Skip = map (ID_String u) skip\<rparr>"
  obtain t w rows where t: "others_acted db (pg_tables s) t"
    and q: "Queries_ClaimDispatches db ?arg w t = Inr (rows, pg_tables s')" "dispatchRows_of u rows = Inr claimed"
    using claim_answered [OF assms(2,7)] .
  note steps = others_steps [OF assms(6) t]
  have held: "leased db u i owner until t" and ok: "dispatches_ok u t"
    using leased_steps [OF assms(3) steps assms(5)] dispatch_steps_ok [OF steps assms(4)] by blast+
  obtain row where row: "row \<in> set (t_dispatches t)" "lapsed db ?arg row"
    "dispatchRow_of u (row\<lparr>gr_Owner := other, gr_LeaseUntil := db_time db later\<rparr>) = Inr d"
    using d(1) dispatchRows_of_set [OF q(2)] claimed_rows(2) [OF q(1)] by auto
  obtain j where j: "gr_DispatchID row = ID_String u j" using ok row(1) by (auto simp: dispatches_ok_def)
  have "j = i" using dispatchRow_id [OF assms(1) row(3)] j d(2) by simp
  then have "db_time db until \<le> gr_LeaseUntil row" using held row(1,2) j by (auto simp: leased_def lapsed_def)
  moreover have "db_time db clock \<le> db_time db until" using assms(3,8) by (auto dest: monoD)
  ultimately show False using row(2) by (simp add: lapsed_def)
qed

section \<open>Property\<close>

text \<open>C7. Processes sharing the database never hold the same dispatch: what a claim answers stays its owner's while its
  lease runs.  Through any further writes of this process and of others, in which claims are made before the
  lease lapses and renewals do not shorten it, no later claim made before then answers that dispatch, and as
  long as it runs its row names that owner.\<close>

theorem claims_exclusive:
  assumes "uuid_ok u" "commit_decides db" "mono (db_time db)" "dispatches_ok u (pg_tables s)"
    and "\<And>w t. (dispatch_step db u until)\<^sup>*\<^sup>* t (db_others db w t)"
    and "Pg_ClaimDispatches db u owner clock until skip s = (Inr claimed, s1)" "d \<in> set claimed"
    and "before_lapse db u until s1 s2"
    and "Pg_ClaimDispatches db u other clock2 until2 skip2 s2 = (Inr claimed2, s3)" "clock2 \<le> until"
  shows "dis_ID d \<notin> dis_ID ` set claimed2 \<and>
    (\<forall>row \<in> set (t_dispatches (pg_tables s3)). gr_DispatchID row = ID_String u (dis_ID d) \<longrightarrow> gr_State row = ''running'' \<longrightarrow>
      gr_Owner row = owner)"
proof -
  note first = store_write_steps [OF assms(5), of "Claims other clock2 until2 skip2" s2 "Inr claimed2" s3]
  have between: "(dispatch_step db u until)\<^sup>*\<^sup>* (pg_tables s1) (pg_tables s2)"
    by (rule before_lapse_steps [OF assms(5,8)])
  have held: "leased db u (dis_ID d) owner until (pg_tables s2)"
    by (rule leased_steps [OF assms(3) between claimed_leased [OF assms(1,2,4-7)]])
  have "dispatches_ok u (pg_tables s1)"
  proof -
    obtain t w rows where t: "others_acted db (pg_tables s) t"
      and q: "Queries_ClaimDispatches db \<lparr>kd_Owner = owner, kd_LeaseUntil = until, kd_Now = clock,
        kd_Skip = map (ID_String u) skip\<rparr> w t = Inr (rows, pg_tables s1)"
      using claim_answered [OF assms(2,6)] .
    have "dispatches_ok u t" by (rule dispatch_steps_ok [OF others_steps [OF assms(5) t] assms(4)])
    moreover have "dispatch_step db u clock t (pg_tables s1)" by (rule dispatch_step.claims [OF q]) simp
    ultimately show ?thesis by (rule dispatch_step_ok [rotated])
  qed
  then have ok: "dispatches_ok u (pg_tables s2)" by (rule dispatch_steps_ok [OF between])
  have "leased db u (dis_ID d) owner until (pg_tables s3)"
    using leased_steps [OF assms(3) first held] assms(9,10) by simp
  with leased_not_claimed [OF assms(1-3) ok held assms(5,9,10)] show ?thesis by (auto simp: leased_def)
qed

text \<open>A dispatch whose lease lapsed is claimed, and asked for again by another process before the new lease lapses.\<close>

definition leased_row :: DispatchRow where
  "leased_row = \<lparr>gr_DispatchID = ID_String plain_uuid 1, gr_Namespace = ''ns'', gr_Job = ''j'', gr_JobVersion = 1,
     gr_State = ''running'', gr_Error = [], gr_CreatedAt = 1, gr_EndedAt = None, gr_Tasks = 1, gr_Owner = ''a'', gr_LeaseUntil = 5\<rparr>"

definition leasing_pg :: "nat Pg" where
  "leasing_pg = \<lparr>pg_tables = (pg_tables sample_pg)\<lparr>t_dispatches := [leased_row]\<rparr>, pg_env = 1\<rparr>"

definition claimed_pg :: "(goerror + Dispatch list) \<times> nat Pg" where
  "claimed_pg = Pg_ClaimDispatches sample_db plain_uuid ''b'' 10 20 [] leasing_pg"

definition claimed_again :: "(goerror + Dispatch list) \<times> nat Pg" where
  "claimed_again = Pg_ClaimDispatches sample_db plain_uuid ''c'' 15 30 [] (snd claimed_pg)"

lemma claimed_pg_answers: "map_sum (\<lambda>e. ()) (map dis_ID) (fst claimed_pg) = Inr [1]"
  by code_simp

lemma claimed_again_answers: "map_sum (\<lambda>e. ()) (map dis_ID) (fst claimed_again) = Inr []"
  by code_simp

theorem claims_exclusive_witness:
  "\<exists>claimed claimed2 s3. fst claimed_pg = Inr claimed \<and> 1 \<in> dis_ID ` set claimed \<and> claimed_again = (Inr claimed2, s3) \<and>
     1 \<notin> dis_ID ` set claimed2"
proof -
  obtain claimed where claimed: "fst claimed_pg = Inr claimed" "map dis_ID claimed = [1]"
    using claimed_pg_answers by (cases "fst claimed_pg") auto
  obtain claimed2 where claimed2: "fst claimed_again = Inr claimed2"
    using claimed_again_answers by (cases "fst claimed_again") auto
  obtain d where d: "d \<in> set claimed" "dis_ID d = 1" using claimed(2) by auto
  have idle: "db_others sample_db w t = t" for w t by (simp add: sample_db_def)
  have time: "mono (db_time sample_db)" by (simp add: sample_db_def mono_def)
  have ok: "dispatches_ok plain_uuid (pg_tables leasing_pg)" by (simp add: dispatches_ok_def leasing_pg_def leased_row_def) blast
  have first: "Pg_ClaimDispatches sample_db plain_uuid ''b'' 10 20 [] leasing_pg = (Inr claimed, snd claimed_pg)"
    using claimed(1) by (metis claimed_pg_def prod.collapse)
  have second: "Pg_ClaimDispatches sample_db plain_uuid ''c'' 15 30 [] (snd claimed_pg) = (Inr claimed2, snd claimed_again)"
    using claimed2 by (metis claimed_again_def prod.collapse)
  have "1 \<notin> dis_ID ` set claimed2"
    using claims_exclusive [OF plain_uuid_ok sample_decides time ok _ first d(1) before_lapse.at_once second] d(2) by (simp add: idle)
  then show ?thesis using claimed claimed2 d by (metis image_eqI prod.collapse)
qed

end
