(* ===== verification/Spec2Isabelle.thy ===== *)
theory Spec2Isabelle
  imports Wire Fingerprint Follow Agent Pools Jobspec Registry Routes PgQuota PgStore PgJobs PgClaims
begin

text \<open>
  \<^bold>\<open>Vagabond\<close> runs batch jobs on the free tiers of several container and function platforms.  A job file
  names tasks; for each task the scheduler admits the providers that can run it, ranks them, and
  dispatch works down the ranking, reserving quota before every submission and settling it after.
  Records, leases and reservations live in stores shared by several processes, so that another
  process can take over what one that died left behind.  This development models the parts of
  \<^verbatim>\<open>internal/\<close> that decide, count and record, from the vocabulary of a job up to
  whole runs, and proves what makes them correct.

  \<^bold>\<open>Reading it.\<close>  Each theory opens with the package it models; definitions keep the names of the Go code,
  methods as \<open>Type_Method\<close>.

  \<^item> \<open>Prelude\<close>, \<open>Float64\<close>, \<open>Strconv\<close>, \<open>Calendar\<close>, \<open>GoTime\<close>: what the code uses of the Go language and its
    standard library: 64-bit wrap-around, IEEE doubles as rationals with one rounding function,
    stable sorting, number and duration syntax, UTC calendar days.
  \<^item> \<open>Quota\<close>, \<open>Ledger\<close> (\<^verbatim>\<open>quota\<close>, \<^verbatim>\<open>ledger\<close>): meters, budgets, reservations and the store in memory.
  \<^item> \<open>Execution\<close>, \<open>Store\<close> (\<^verbatim>\<open>execution\<close>, \<^verbatim>\<open>state/memory\<close>, \<^verbatim>\<open>jobs\<close>): the state machine, records, leased
    dispatches and registered jobs.
  \<^item> \<open>Job\<close>, \<open>Plugin\<close> (\<^verbatim>\<open>job\<close>, \<^verbatim>\<open>plugin\<close>): the data of a job, its vocabularies, what a provider reports,
    classified failures.
  \<^item> \<open>Hcl\<close>, \<open>Blocks\<close>, \<open>Validation\<close>, \<open>Jobspec\<close> (\<^verbatim>\<open>job/task.go\<close>, \<^verbatim>\<open>jobspec\<close>, \<^verbatim>\<open>jobs/load.go\<close>): the HCL library as a
    record of functions, what is read from a task's blocks, every check of a job file, and loading it.
  \<^item> \<open>Nodes\<close>, \<open>Pools\<close> (\<^verbatim>\<open>nodes\<close>, \<^verbatim>\<open>providers/pool\<close>): connected agent nodes, and the provider made of them.
  \<^item> \<open>Containerd\<close>, \<open>Agent\<close> (\<^verbatim>\<open>agent/executor\<close>, \<^verbatim>\<open>agent\<close>): the node's side: containers, claiming room, reports.
  \<^item> \<open>Rendering\<close>, \<open>CloudRun\<close>, \<open>Lambda\<close>, \<open>Fakes\<close> (\<^verbatim>\<open>providers/gcp\<close>, \<^verbatim>\<open>providers/aws\<close>, \<^verbatim>\<open>plugin/fake.go\<close>): the text of
    errors, Cloud Run jobs over HTTP, Lambda invocations and the bill AWS writes into a log, providers without an account.
  \<^item> \<open>Config\<close>, \<open>Registry\<close> (\<^verbatim>\<open>config\<close>, \<^verbatim>\<open>registry\<close>): finding, merging and checking the configuration, credentials, and the
    providers built from it: refreshing them, what admission reads of them, the budgets of the ledger.
  \<^item> \<open>Match\<close>, \<open>Admission\<close>, \<open>Rank\<close> (\<^verbatim>\<open>scheduler\<close>): attributes, the thirteen checks, pools, scores.
  \<^item> \<open>Effects\<close>, \<open>Dispatch\<close>, \<open>Reconcile\<close> (\<^verbatim>\<open>dispatch\<close>): the world as a state monad, runs, and what is done for
    the runs of processes that died.
  \<^item> \<open>Runs\<close>, \<open>Attempts\<close>, \<open>Recovery\<close>: what holds along every run.  The locale \<open>run_relation\<close> of \<open>Effects\<close>
    carries a reflexive and transitive relation through a computation; \<open>dispatch_run\<close> extends it to
    all of dispatch, and each of its interpretations is one invariant of whole runs.
  \<^item> \<open>Api\<close>, \<open>Server\<close>, \<open>Serving\<close>, \<open>Routes\<close> (\<^verbatim>\<open>api\<close>, \<^verbatim>\<open>server\<close>): the wire types; every handler over the state
    of a serving process, with the runs it has started and not yet ended; the locale \<open>serving\<close>, what a
    server keeps of its store; the properties of the routes, on the store in memory.
  \<^item> \<open>Sql\<close>, \<open>Postgres\<close>, \<open>Transactions\<close>, \<open>PgQuota\<close>, \<open>PgStore\<close>, \<open>PgClaims\<close>, \<open>PgJobs\<close> (\<^verbatim>\<open>state/postgres\<close>): what each SQL query does to
    tables of rows, and the stores over them; serializable transactions, with retries, rollbacks and other
    clients in between, where \<open>table_relation\<close> carries a relation through whole writes; quota in the database,
    executions and dispatches as a refinement of the store in memory, leases between processes, and registered jobs.
  \<^item> \<open>Urls\<close>, \<open>Clients\<close>, \<open>Wire\<close> (\<^verbatim>\<open>api/client.go\<close>): what the client uses of URLs and the server of request
    routing, every method of the client, and the two ends put together.
  \<^item> \<open>Flags\<close>, \<open>Cli\<close>, \<open>Follow\<close> (\<^verbatim>\<open>cli\<close>): the flag package and \<^verbatim>\<open>-meta\<close>, the commands over the client with what they
    print, and starting, following and planning a run.
  \<^item> \<open>Fingerprint\<close> (\<^verbatim>\<open>agent/fingerprint\<close>, \<^verbatim>\<open>agent/cgroups.go\<close>): what a node offers, and where its workloads run.
  \<^item> \<open>Example\<close>: a dispatcher, a provider and a world on which the properties are applied.

  \<^bold>\<open>The model.\<close>  Providers, the clock, identifiers and sleeping are functions of an environment of type
  \<open>'w\<close>, so every theorem holds for whatever they answer.  The list \<open>x_calls\<close> records their calls in
  order.  The stores are records of operations (\<open>Store\<close> of the ledger, \<open>Executions\<close> of dispatch), with the
  ones in memory as instances; each operation is one step, as the code's mutexes make it.  Texts made
  for a reader are kept as a format with its arguments.  Errors are values of the type \<open>goerror\<close>, so that
  \<^verbatim>\<open>errors.Is\<close> and \<^verbatim>\<open>errors.As\<close> are functions on it.  Integers are \<open>int\<close> with \<open>wrap64\<close> wherever a sum or
  product can leave the range; floats are rationals rounded by \<open>fl\<close> after every operation, exact for
  normal doubles.

  \<^bold>\<open>Bounds.\<close>  Watching an execution polls until it ends; the model gives it \<open>d_fuel\<close> polls and returns
  \<open>None\<close> past them.  Theorems about results hold for any fuel; \<open>runs_end\<close> shows that \<open>enough_fuel\<close>, each
  watch meeting a final state or an error within that many polls, makes every run return.  Submitting to
  a pool tries nodes until one accepts; fuel above the number of node names is shown to be enough.  Following a
  run asks until it is over; \<open>run_followed\<close> gives the rounds it needs from a measure of what is left of the run.

  \<^bold>\<open>What is shown.\<close>  Of whole runs: nothing is submitted that was not reserved and recorded, every update
  follows the state machine, attempts follow the ranking and the retry policy, tasks run in order,
  runs end, stored executions only move forward, quota is given back only on a final word.  Of the
  components: free quota is never overdrawn while executions keep to what they reserved, and refusals are explained; a provider is admitted
  exactly when it meets every requirement; rankings are sorted and stable; leases on the database exclude each
  other; texts read back as what was written; a job passes validation exactly when it is well formed,
  and then the scheduler knows every attribute it names; a pool reserves room it has on the node with
  the most of it, gives it back when a submission fails, and a node is never asked for more than its
  capacity however submissions interleave.  A configuration is accepted exactly when it is well formed, a directory
  of files is merged whole, and the registry holds every provider of it under the budgets the ledger charges;
  a refresh loses none.  A Cloud Run job is run only if it was created and deleted if it could not be run, its log is complete unless it says
  otherwise, and what AWS billed is read back as written.
  A server answers every request, starts the version that was registered, tracks each run until it ends,
  records the cancellation of an execution nobody watches only on its provider's word, and over stores in memory
  changes nothing when it refuses.  A client's method is the handler it asks for, and following a run ends with it.
  On a database, a write takes effect once however often it is retried, several processes do not overdraw
  a pool between them either, what the rows say is what the store in memory would hold, and a registration leaves
  its job at the version it answers.

  \<^bold>\<open>Not modelled.\<close>  The HCL library that parses job and configuration files, the cloud SDKs, containerd,
  the database engine and its driver, the migrations' tool and the generated gRPC code are not part of the
  repository: they appear here as parameters (\<open>Hcl\<close>, \<open>Google\<close>, \<open>LambdaSDK\<close>, \<open>Agents\<close>, \<open>Client\<close>, \<open>Db\<close>) or not at all.  What containerd promises is the hypothesis \<open>lawful\<close>
  of the one property that needs it.  The set-up of the server and agent
  processes, listeners, TLS, help texts, the alignment of tables and log output only carry what the components above
  decide.  JSON encoding and HTTP are parameters (\<open>ClientJson\<close>, \<open>Http\<close>, \<open>Body\<close> encoders); the \<open>net/url\<close> and routing
  rules that client and server rely on are modelled in \<open>Urls\<close>.  The goroutine that renews a lease and the one that streams output are
  oracles (\<open>d_taken\<close>, \<open>d_wrote\<close>) with the single renewal modelled as \<open>renew\<close>.
\<close>

section \<open>What a run does to the world\<close>

text \<open>C1. Nothing is submitted that was not accounted for: in every run, the submission of an execution comes
  after the ledger accepted the reservation of its quota on that provider and the store accepted its record.\<close>

theorem submissions_prepared:
  assumes "named d" "x_calls (w_ext s) = []" "run_state (Run d origin j eval) s = (out, t)"
    and "x_calls (w_ext t) = pre @ CallSubmit n i # post"
  shows "CallReserve n i True \<in> set pre \<and> CallCreate i True \<in> set pre"
proof -
  have "prepared (x_calls (w_ext t))"
    using preparesD(2) [OF Run_prepared [OF assms(1)] assms(3)] assms(2) by simp
  with assms(4) show ?thesis unfolding prepared_def by blast
qed

lemma sample_named: "named sample_dispatcher"
  by (simp add: named_def)

theorem submissions_prepared_witness:
  "CallReserve ''fn'' 3 True \<in> set (take 2 (x_calls (w_ext (snd sample_run)))) \<and>
   CallCreate 3 True \<in> set (take 2 (x_calls (w_ext (snd sample_run))))"
proof -
  have run: "run_state (Run sample_dispatcher sample_origin sample_job None) sample_world = (fst sample_run, snd sample_run)"
    by (simp add: sample_run_def)
  have none: "x_calls (w_ext sample_world) = []" by (simp add: sample_world_def)
  have "x_calls (w_ext (snd sample_run)) = take 2 (x_calls (w_ext (snd sample_run))) @ CallSubmit ''fn'' 3 #
      drop 3 (x_calls (w_ext (snd sample_run)))"
    by (simp add: sample_run_calls)
  from submissions_prepared [OF sample_named none run this] show ?thesis .
qed

text \<open>C17. An execution is handed over only once the ledger accepted its reservation and the store
  created its record, in that order and with that identifier, still pending.\<close>

theorem prepared_execution:
  assumes "run_state (prepare d origin req name k previous) s = ((Some rec, None), t)"
  shows "x_calls (w_ext t) = x_calls (w_ext s) @ [CallReserve name (st_ID rec) True, CallCreate (st_ID rec) True] \<and>
    (\<exists>now. Ledger_Reserve (d_store d) (w_led s) (st_ID rec) (or_Namespace origin) name (rq_Execution req)
      (WillPay req) now (w_store s) = (None, w_store t)) \<and>
    x_Create (d_executions d) rec (w_exec s) = (None, w_exec t) \<and> st_State rec = StatePending"
  using prepare_ready [OF assms] by (auto simp: pending_record_def)

theorem prepared_execution_witness:
  "Create (pending_record sample_origin sample_request ''fn'' 1 0 1 2) (w_exec sample_world) =
    (None, w_exec sample_executing)"
  using prepared_execution [OF sample_prepare(1)] by (simp add: exec_memory_def)

text \<open>C19. A task only ever goes to a provider that passed admission: every submission of a run is to a
  provider some admission of one of the job's tasks lists as a candidate.\<close>

theorem submissions_admitted:
  assumes "named d" "run_state (Run d origin j eval) s = (out, t)"
    and "x_calls (w_ext t) = x_calls (w_ext s) @ cs" "CallSubmit n i \<in> set cs"
  shows "\<exists>task \<in> set (job_Tasks j). \<exists>req diags usage w.
    NewRequest (d_image d) task (job_Routing j) (d_tiers d) eval = (req, diags) \<and>
    (\<exists>c \<in> set (res_Candidates (Admit req (d_inputs d (or_Namespace origin) usage w))). in_Provider c = n)"
proof -
  let ?P = "\<lambda>m (i :: ID). \<exists>task \<in> set (job_Tasks j). \<exists>req diags.
    NewRequest (d_image d) task (job_Routing j) (d_tiers d) eval = (req, diags) \<and>
    permitted d req (or_Namespace origin) m"
  have "state_io_rel (emits (allowed ?P)) (Run d origin j eval)"
    using assms(1) by (intro calls.keeps_Run) (auto simp: named_def)
  from state_io_relD [OF this assms(2)] assms(3,4) have "allowed ?P (CallSubmit n i)"
    by (auto simp: emits_def)
  then show ?thesis by (auto simp: permitted_def)
qed

theorem submissions_admitted_witness:
  "\<exists>c \<in> set (res_Candidates (Admit sample_request [sample_input])). in_Provider c = ''fn''"
proof -
  have run: "run_state (Run sample_dispatcher sample_origin sample_job None) sample_world = (fst sample_run, snd sample_run)"
    by (simp add: sample_run_def)
  have cs: "x_calls (w_ext (snd sample_run)) = x_calls (w_ext sample_world) @ x_calls (w_ext (snd sample_run))"
    by (simp add: sample_world_def)
  have "CallSubmit ''fn'' 3 \<in> set (x_calls (w_ext (snd sample_run)))" by (simp add: sample_run_calls)
  from submissions_admitted [OF sample_named run cs this] show ?thesis by (auto simp: sample_job_def)
qed

text \<open>C2. Every change of state dispatch writes is legal: in any run, resumption of a run and release of
  leftovers, each update of an execution goes along a transition of the state machine.\<close>

theorem updates_legal:
  assumes "snd (run_state (Run d origin j eval) s) = t \<or> snd (run_state (Resume text_of d claimed) s) = t \<or>
      snd (run_state (ReleaseLeftovers d) s) = t"
    and "x_calls (w_ext t) = x_calls (w_ext s) @ cs" "CallUpdate i a b \<in> set cs"
  shows "CanTransition a b"
proof -
  have "emits (allowed (\<lambda>n i. True)) s t"
    using assms(1) calls.keeps_Run [where P = "\<lambda>n i. True", OF allowed_simps(1) [THEN iffD2, OF TrueI]]
      calls.keeps_Resume calls.keeps_ReleaseLeftovers
    unfolding state_io_rel_def by blast
  with assms(2,3) have "allowed (\<lambda>n i. True) (CallUpdate i a b)" by (auto simp: emits_def)
  then show ?thesis by (simp add: allowed_def)
qed

theorem updates_legal_witness: "CanTransition StateAccepted StateSucceeded"
proof -
  have "snd (run_state (Run sample_dispatcher sample_origin sample_job None) sample_world) = snd sample_run"
    by (simp add: sample_run_def)
  moreover have "x_calls (w_ext (snd sample_run)) = x_calls (w_ext sample_world) @ x_calls (w_ext (snd sample_run))"
    by (simp add: sample_world_def)
  moreover have "CallUpdate 3 StateAccepted StateSucceeded \<in> set (x_calls (w_ext (snd sample_run)))"
    by (simp add: sample_run_calls)
  ultimately show ?thesis using updates_legal by blast
qed

text \<open>C8. Stored executions only move forward: whatever runs on a store in memory, an execution recorded
  there stays recorded, moves only along the state machine, and once terminal keeps its state.\<close>

theorem stored_executions_advance:
  fixes d :: "('s, ExecMemory, 'w) Dispatcher"
  assumes "d_executions d = exec_memory f"
    and "snd (run_state (Run d origin j eval) s) = t \<or> snd (run_state (Resume text_of d claimed) s) = t \<or>
      snd (run_state (ReleaseLeftovers d) s) = t"
    and "map_of (em_records (w_exec s)) i = Some r"
  shows "\<exists>r'. map_of (em_records (w_exec t)) i = Some r' \<and> CanTransition\<^sup>*\<^sup>* (st_State r) (st_State r') \<and>
    (State_Terminal (st_State r) \<longrightarrow> st_State r' = st_State r)"
proof -
  have d: "d\<lparr>d_executions := exec_memory f\<rparr> = d" using assms(1) by simp
  have "moved (\<lambda>s. map_of (em_records s)) (\<lambda>s. map_of (em_dispatches s)) s t"
    using assms(2) exec_runs.stored.keeps_Run [where d = d and f = f, unfolded d]
      exec_runs.stored.keeps_Resume [where d = d and f = f, unfolded d]
      exec_runs.stored.keeps_ReleaseLeftovers [where d = d and f = f, unfolded d]
    unfolding state_io_rel_def by blast
  then obtain r' where "map_of (em_records (w_exec t)) i = Some r'" "CanTransition\<^sup>*\<^sup>* (st_State r) (st_State r')"
    using assms(3) by (auto simp: moved_def advanced_def)
  with terminal_final show ?thesis by blast
qed

definition sample_lost :: Record where
  "sample_lost = (pending_record sample_origin sample_request ''fn'' 1 0 9 2)\<lparr>st_State := StateLost\<rparr>"

theorem stored_executions_advance_witness:
  "\<exists>r'. map_of (em_records (w_exec (snd (run_state (ReleaseLeftovers sample_dispatcher)
      (sample_world\<lparr>w_exec := \<lparr>em_dispatches = [], em_records = [(9, sample_lost)]\<rparr>\<rparr>))))) 9 = Some r' \<and>
    CanTransition\<^sup>*\<^sup>* StateLost (st_State r')"
  using stored_executions_advance [of sample_dispatcher _ _ _ None "sample_world\<lparr>w_exec := \<lparr>em_dispatches = [], em_records = [(9, sample_lost)]\<rparr>\<rparr>" _ _ _ 9 sample_lost]
  by (fastforce simp: sample_lost_def)

section \<open>What a run answers\<close>

abbreviation no_outcome :: TaskOutcome where
  "no_outcome \<equiv> \<lparr>to_Task = ''build'', to_Provider = [], to_ID = 0, to_State = [], to_Result = None,
     to_Streamed = False, to_Attempts = [], to_Rejections = []\<rparr>"

lemma sample_attempt:
  "\<exists>o2 t. run_state (attempt sample_dispatcher sample_origin sample_request sample_ranking no_outcome) sample_world
     = (Some (o2, None), t) \<and> map at_Provider (to_Attempts o2) = [''fn'']"
proof -
  obtain c where c: "sample_ranking = [c]" "in_Provider c = ''fn''" "cd_Members c = []"
    using sample_ranking_one by auto
  show ?thesis
    by (simp add: sample_world_def sample_origin_def run_steps store_steps c Dispatch.answered_def add_attempt_def
        cong: step_by_step)
qed

text \<open>C14. The attempts of a task follow the ranking: each provider is tried at most once and in order,
  and no more attempts start than the task's retry policy allows; attempts the ledger refused
  are not counted.\<close>

theorem attempts_follow_ranking:
  assumes "run_state (attempt d origin req ranking outcome) s = (Some (outcome', err), t)"
    and "to_Attempts outcome = []"
  shows "map at_Provider (to_Attempts outcome') = take (length (to_Attempts outcome')) (map in_Provider ranking) \<and>
    Tried outcome' \<le> max 0 (budget (retryPolicy (rq_Task req)))"
proof -
  obtain as where as: "attempts (budget (retryPolicy (rq_Task req))) (map in_Provider ranking) 0 as"
    "to_Attempts outcome' = as"
    using answersD [OF attempt_loop_attempts assms(1) [unfolded attempt_def]] assms(2)
    by (auto simp: attempted_def grown_def)
  then show ?thesis
    using attempts_order [OF as(1)] attempts_budget [OF as(1)] by (simp add: Tried_def tried_count_filter)
qed

theorem attempts_follow_ranking_witness:
  "\<exists>o2 t. run_state (attempt sample_dispatcher sample_origin sample_request sample_ranking no_outcome)
      sample_world = (Some (o2, None), t) \<and> Tried o2 \<le> 1"
proof -
  obtain o2 t where run: "run_state (attempt sample_dispatcher sample_origin sample_request sample_ranking no_outcome)
    sample_world = (Some (o2, None), t)" "map at_Provider (to_Attempts o2) = [''fn'']"
    using sample_attempt by auto
  have "to_Attempts no_outcome = []" by simp
  from attempts_follow_ranking [OF run(1) this] run(1) show ?thesis by (auto simp: budget_def)
qed

text \<open>C20. A run moves on to another provider only after a failure that provider may not share: every
  attempt but the last was refused by the ledger or failed in a way worth rerouting.  A task that
  succeeds answers with its last attempt; one that fails has no attempt that succeeded.\<close>

theorem attempts_explained:
  assumes "run_state (attempt d origin req ranking outcome) s = (Some (outcome', err), t)"
    and "to_Attempts outcome = []" "to_Result outcome = None"
  shows "(\<forall>a \<in> set (butlast (to_Attempts outcome')). \<exists>e. at_Err a = Some e \<and>
      (if at_Refused a then has_refusal e else Plugin.Reroutable e)) \<and>
    (case err of
       None \<Rightarrow> to_Attempts outcome' \<noteq> [] \<and> last (to_Attempts outcome') =
         \<lparr>at_Provider = to_Provider outcome', at_ID = to_ID outcome', at_Err = None, at_Refused = False\<rparr>
     | Some e \<Rightarrow> to_Result outcome' = None \<and> (\<forall>a \<in> set (to_Attempts outcome'). at_Err a \<noteq> None))"
proof -
  obtain as where as: "attempts (budget (retryPolicy (rq_Task req))) (map in_Provider ranking) 0 as"
    and g: "grown outcome as err outcome'"
    using answersD [OF attempt_loop_attempts assms(1) [unfolded attempt_def]]
    by (auto simp: attempted_def)
  with assms(2,3) show ?thesis
    using attempts_butlast [OF as] by (auto simp: grown_def split: option.splits)
qed

theorem attempts_explained_witness:
  "\<exists>o2 t. run_state (attempt sample_dispatcher sample_origin sample_request sample_ranking no_outcome)
      sample_world = (Some (o2, None), t) \<and>
    at_Err (last (to_Attempts o2)) = None"
proof -
  obtain o2 t where run: "run_state (attempt sample_dispatcher sample_origin sample_request sample_ranking no_outcome)
    sample_world = (Some (o2, None), t)"
    using sample_attempt by auto
  have "to_Attempts no_outcome = []" "to_Result no_outcome = None" by simp_all
  from attempts_explained [OF run this] run show ?thesis by (intro exI [of _ o2] exI [of _ t]) simp
qed

text \<open>C21. A job runs its tasks in order and stops at the first that does not succeed: the tasks that ran
  are the first ones of the job, all but the last succeeded, and a run that returns no error with
  every task successful ran them all.\<close>

theorem job_runs_in_order:
  assumes "run_state (Run d origin j eval) s = (Some (Some outcome, err), t)"
  shows "map to_Task (jo_Tasks outcome) = take (length (jo_Tasks outcome)) (map task_Name (job_Tasks j)) \<and>
    (\<forall>r \<in> set (butlast (jo_Tasks outcome)). TaskOutcome_Succeeded r) \<and>
    (err = None \<and> JobOutcome_Succeeded outcome \<longrightarrow> length (jo_Tasks outcome) = length (job_Tasks j))"
proof -
  let ?o = "\<lparr>jo_Job = job_Name j, jo_Dispatch = or_Dispatch origin, jo_Tasks = []\<rparr>"
  have "ran_in_order (job_Tasks j) ?o (Some (outcome, err))"
    using assms answersD [OF Run_loop_answers, of d "origin\<lparr>or_Job := job_Name j\<rparr>" "job_Routing j" eval "job_Tasks j" ?o s]
    by (auto simp: Run_def split: if_splits prod.splits)
  then show ?thesis by (auto simp: ran_in_order_def JobOutcome_Succeeded_def split: if_splits)
qed

theorem job_runs_in_order_witness:
  "\<exists>o1. fst sample_run = Some (Some o1, None) \<and> map to_Task (jo_Tasks o1) = [''build'']"
proof -
  obtain o1 where o1: "fst sample_run = Some (Some o1, None)" "JobOutcome_Succeeded o1"
    using sample_run_succeeds by auto
  then have "run_state (Run sample_dispatcher sample_origin sample_job None) sample_world =
    (Some (Some o1, None), snd sample_run)" by (simp add: sample_run_def prod_eq_iff)
  from job_runs_in_order [OF this] o1 show ?thesis
    by (simp add: sample_job_def) (simp add: sample_task_def)
qed

text \<open>C16. Every run ends: when each execution reports a final state or an error within the polls the fuel
  stands for, running a job and resuming a dispatch both return an answer.\<close>

theorem runs_end:
  assumes "enough_fuel d"
  shows "fst (run_state (Run d origin j eval) s) \<noteq> None \<and>
    fst (run_state (Resume text_of d claimed) s) \<noteq> None"
  using Run_ends [OF assms] Resume_ends [OF assms] unfolding answers_def by blast

lemma sample_fuel: "enough_fuel sample_dispatcher"
  unfolding enough_fuel_def
  by (rule exI [of _ "\<lambda>w. 0"]) (auto simp: settles_def terminal_iff split: if_splits)

theorem runs_end_witness:
  "fst (run_state (Run sample_dispatcher sample_origin sample_job None) sample_world) \<noteq> None"
  using runs_end [OF sample_fuel] by blast

text \<open>Where a policy's first wait is within its longest, and that within half of what 64 bits hold, the wait before
  an attempt is \<open>initial * 2 ^ (n - 1)\<close> capped, so waits never shrink and never pass the cap.\<close>

theorem backoff_doubles:
  assumes "0 < po_initial p" "po_initial p \<le> po_max p" "po_max p \<le> MaxInt64 div 2" "1 \<le> n"
  shows "backoff p n = min (po_initial p * 2 ^ nat (n - 1)) (po_max p) \<and>
    po_initial p \<le> backoff p n \<and> backoff p n \<le> backoff p (n + 1) \<and> backoff p (n + 1) \<le> po_max p"
proof -
  have eq: "backoff p k = min (po_initial p * 2 ^ nat (k - 1)) (po_max p)" if "1 \<le> k" for k
    using doubling_eq [OF assms(1-3)] that by (simp add: backoff_def)
  have pow: "po_initial p * 1 \<le> po_initial p * 2 ^ k" for k
    using assms(1) by (intro mult_left_mono) auto
  have "nat (n + 1 - 1) = Suc (nat (n - 1))" using assms(4) by simp
  then show ?thesis
    using eq [of n] eq [of "n + 1"] pow [of "nat (n - 1)"] assms by (auto simp: min_def)
qed

theorem backoff_doubles_witness:
  "backoff (retryPolicy sample_task) 3 = 20 * Second"
  using backoff_doubles [of "retryPolicy sample_task" 3] by (simp add: Second_def MaxInt64_def)

section \<open>Cleaning up\<close>

text \<open>C15. The reaper gives quota back only on a provider's final word: a reservation it removes was older
  than an hour, and its provider, asked by the execution's identifier, said that the execution is
  over, unknown, or that it cannot say.\<close>

theorem reaped_on_final_word:
  assumes "run_state (Dispatcher_Reap d) s = (out, t)" "d_store d = memory_store"
    and "distinct (map fst (mem_held (w_store s)))"
    and "map_of (mem_held (w_store s)) i = Some r" "map_of (mem_held (w_store t)) i \<noteq> Some r"
  shows "rsv_Created r < fst (d_now d (x_env (w_ext s))) - StaleAfter \<and>
    (\<exists>p x st1 err y. d_provider d (rsv_Provider r) = Some p \<and> run_state (status d p i) x = ((st1, err), y) \<and>
      (case err of
         Some e \<Rightarrow> err_is ErrUnknownExecution e \<or> err_is ErrUnsupported e
       | None \<Rightarrow> State_Terminal (st_State st1)))"
  using Reap_final [OF assms] unfolding final_word_def by blast

definition sample_reserved :: "(Memory, ExecMemory, nat) World" where
  "sample_reserved = sample_world\<lparr>w_store := \<lparr>mem_used = Map.empty, mem_held = [(9, \<lparr>rsv_ID = 9,
     rsv_Provider = ''fn'', rsv_CPU = 0, rsv_Memory = 0, rsv_Created = - 2 * Hour, rsv_Charges = []\<rparr>)]\<rparr>\<rparr>"

theorem reaped_on_final_word_witness:
  "map_of (mem_held (w_store (snd (run_state (Dispatcher_Reap sample_dispatcher) sample_reserved)))) 9 = None \<and>
   (\<exists>p. d_provider sample_dispatcher ''fn'' = Some p)"
proof -
  have gone: "map_of (mem_held (w_store (snd (run_state (Dispatcher_Reap sample_dispatcher) sample_reserved)))) 9 = None"
    by (simp add: Dispatcher_Reap_def sample_reserved_def sample_world_def now_def Ledger_Reap_def
        Memory_Reap_def reap_settle_def resolve_def status_def authorized_def effect_def StaleAfter_def
        Memory_settle_def held_of_def terminal_iff Time_IsZero_def Hour_def Minute_def Second_def Time_Sub_def)
  from reaped_on_final_word [OF surjective_pairing, of sample_dispatcher sample_reserved 9] this
  show ?thesis by (auto simp: sample_reserved_def)
qed

text \<open>A leftover is not released while its quota is reserved: releasing one whose
  reservation stands, or cannot be read, calls no provider's release and leaves the ledger as it is.\<close>

theorem reserved_not_released:
  assumes "run_state (releaseLeftover d rec) s = ((released, err), t)"
    and "Ledger_Reserved (d_store d) (st_ID rec) (w_store s) \<noteq> Inr False"
  shows "\<not> released \<and> w_store t = w_store s \<and>
    (\<exists>cs. x_calls (w_ext t) = x_calls (w_ext s) @ cs \<and> (\<forall>n i. CallRelease n i \<notin> set cs))"
  using releaseLeftover_reserved [OF assms] by (auto simp: unreleased_def emits_def)

theorem reserved_not_released_witness:
  "\<not> fst (fst (run_state (releaseLeftover sample_dispatcher (sample_lost\<lparr>st_State := StateSucceeded\<rparr>)) sample_reserved))"
proof -
  let ?rec = "sample_lost\<lparr>st_State := StateSucceeded\<rparr>"
  have "Ledger_Reserved (d_store sample_dispatcher) (st_ID ?rec) (w_store sample_reserved) \<noteq> Inr False"
    by (simp add: Ledger_Reserved_def Memory_Reserved_def sample_reserved_def sample_lost_def pending_record_def)
  from reserved_not_released [OF _ this] show ?thesis by (metis prod.collapse)
qed

section \<open>Valid jobs meet the scheduler\<close>

lemma valid_routing_known:
  assumes "\<forall>rt. r = Some rt \<longrightarrow> routing_wf rt" "rq_Routing req = r"
  shows "attributeChecker req inp = None"
  using assms
  by (auto simp: attributeChecker_def UnknownAttribute_def Request_Constraints_def Request_Affinities_def
      routing_wf_def constraint_wf_def affinity_wf_def Let_def split: option.split dest!: find_first_SomeD)

text \<open>C37. A job that passed validation meets the scheduler on its own terms: none of its providers is
  rejected for an attribute nobody publishes, what it is charged for is the timeout it wrote, its
  sizes are not negative, and its tier mode is one the ranking knows if the server's is.\<close>

theorem valid_job_scheduled:
  assumes "job_wf h j" "t \<in> set (job_Tasks j)" "NewRequest image_of t (job_Routing j) tiers ctx = (req, diags)"
    and "tiers = [] \<or> TierMode_Valid tiers"
  shows "attributeChecker req inp = None \<and>
    (case task_Timeout t of None \<Rightarrow> ex_Duration (rq_Execution req) = 0
     | Some d \<Rightarrow> Duration_Std d = Inr (ex_Duration (rq_Execution req)) \<and> 0 < ex_Duration (rq_Execution req)) \<and>
    0 \<le> ex_CPU (rq_Execution req) \<and> 0 \<le> ex_Memory (rq_Execution req) \<and> TierMode_Valid (Request_Tiers req)"
proof -
  have req: "rq_Routing req = job_Routing j" "rq_Execution req = executionOf t" "rq_ServerTiers req = tiers"
    using assms(3) by (auto simp: NewRequest_def split: prod.splits)
  have wf: "task_wf h t" "\<forall>rt. job_Routing j = Some rt \<longrightarrow> routing_wf rt"
    using assms(1,2) by (auto simp: job_wf_def)
  have sizes: "0 \<le> ex_CPU (executionOf t)" "0 \<le> ex_Memory (executionOf t)"
    using wf(1) by (auto simp: task_wf_def executionOf_def resources_wf_def Let_def split: option.split sum.split)
  have time: "case task_Timeout t of None \<Rightarrow> ex_Duration (executionOf t) = 0
     | Some d \<Rightarrow> Duration_Std d = Inr (ex_Duration (executionOf t)) \<and> 0 < ex_Duration (executionOf t)"
    using wf(1) by (auto simp: task_wf_def executionOf_def Let_def split: option.split sum.split)
  have "TierMode_Valid DefaultTierMode" by (simp add: TierMode_Valid_def tierModeNames_def DefaultTierMode_def)
  then have "TierMode_Valid (Request_Tiers req)"
    using wf(2) assms(4) by (auto simp: Request_Tiers_def req routing_wf_def split: option.split)
  with sizes time valid_routing_known [OF wf(2) req(1)] show ?thesis unfolding req(2) by blast
qed

theorem valid_job_scheduled_witness:
  "ex_Duration (executionOf (hd (job_Tasks sample_spec)\<lparr>task_Timeout := Some (FromDuration (int 90 * Second))\<rparr>))
    = 90 * Second"
proof -
  let ?t = "hd (job_Tasks sample_spec)\<lparr>task_Timeout := Some (FromDuration (int 90 * Second))\<rparr>"
  let ?j = "sample_spec\<lparr>job_Tasks := [?t]\<rparr>"
  have time: "Duration_Std (FromDuration (int 90 * Second)) = Inr (90 * Second)"
    using roundtrip_seconds [of 90] by (simp add: Duration_Std_Inr FromDuration_def Second_def MaxInt64_def)
  have names: "TrimSpace ''build'' \<noteq> []" "TrimSpace ''j'' \<noteq> []" by code_simp+
  have wf: "job_wf sample_hcl ?j"
    using time names
    by (simp add: job_wf_def task_wf_def sample_spec_def image_wf_def sample_hcl_def Second_def)
      (simp add: DriverName_Valid_def driverNames_def)
  have "NewRequest (\<lambda>t c. ([], [] :: unit list)) ?t (job_Routing ?j) [] None =
      (fst (NewRequest (\<lambda>t c. ([], [] :: unit list)) ?t (job_Routing ?j) [] None), [])"
    by (simp add: NewRequest_def)
  from valid_job_scheduled [OF wf _ this] time show ?thesis by (simp add: NewRequest_def)
qed

end
